(* ===== verification/Prelude.thy ===== *)
theory Prelude
  imports Main "HOL-Library.Word"
begin

text \<open>
  Shared vocabulary of the development: Go's machine integers and time values, Go errors as
  values, computations that thread a state and may panic, and a weakest-precondition calculus
  for them whose rules are collected in \<open>wp_rules\<close>.  Everything the components share about
  lists, options and sums is here.
\<close>

named_theorems wp_rules \<open>weakest preconditions of the model's computations\<close>
named_theorems go_consts \<open>definitions of the string constants of domain/constants\<close>

type_synonym int64 = "64 word"

text \<open>A \<open>time.Time\<close>, as nanoseconds since the Unix epoch.\<close>

type_synonym gotime = int

abbreviation slt64 :: "int64 \<Rightarrow> int64 \<Rightarrow> bool" where
  "slt64 a b \<equiv> sint a < sint b"

text \<open>
  Go errors.  The sentinels are those of \<open>errors/error.go\<close>; \<open>ErrorString\<close> is
  \<open>errors.New\<close> and \<open>fmt.Errorf\<close>, \<open>ErrNoDocuments\<close> that of the Mongo driver, \<open>StatusError\<close> a gRPC status with its code, and
  \<open>MicroError\<close> an error of the go-micro client (its rendering, its code, its detail).
\<close>

datatype goerror =
    ErrPendingOrder | ErrFailOrder | ErrPaidOrder | ErrExpiredOrder | ErrCancelOrder | ErrGeneral
  | ErrorString string
  | ErrNoDocuments
  | StatusError nat string
  | MicroError string int string

subsection \<open>Computations with a state that may panic\<close>

datatype 'a outcome = Ret 'a | Panic string

type_synonym ('s, 'a) comp = "'s \<Rightarrow> 'a outcome \<times> 's"

definition ret :: "'a \<Rightarrow> ('s, 'a) comp" where
  "ret a = (\<lambda>s. (Ret a, s))"

definition panic :: "string \<Rightarrow> ('s, 'a) comp" where
  "panic m = (\<lambda>s. (Panic m, s))"

definition bindc :: "('s, 'a) comp \<Rightarrow> ('a \<Rightarrow> ('s, 'b) comp) \<Rightarrow> ('s, 'b) comp" where
  "bindc m f = (\<lambda>s. case m s of (Ret a, s') \<Rightarrow> f a s' | (Panic e, s') \<Rightarrow> (Panic e, s'))"

definition gets :: "('s \<Rightarrow> 'a) \<Rightarrow> ('s, 'a) comp" where
  "gets f = (\<lambda>s. (Ret (f s), s))"

definition modify :: "('s \<Rightarrow> 's) \<Rightarrow> ('s, unit) comp" where
  "modify f = (\<lambda>s. (Ret (), f s))"

abbreviation thenc :: "('s, 'a) comp \<Rightarrow> ('s, 'b) comp \<Rightarrow> ('s, 'b) comp" where
  "thenc m n \<equiv> bindc m (\<lambda>_. n)"

definition whenc :: "bool \<Rightarrow> ('s, unit) comp \<Rightarrow> ('s, unit) comp" where
  "whenc b m = (if b then m else ret ())"

text \<open>Reading through a pointer: a nil pointer is a panic.\<close>

definition deref :: "'a option \<Rightarrow> ('s, 'a) comp" where
  "deref p = (case p of None \<Rightarrow> panic ''nil pointer dereference'' | Some a \<Rightarrow> ret a)"

lemma run_simps [simp]:
  "fst (ret a s) = Ret a" "snd (ret a s) = s" "fst (panic e s) = Panic e" "snd (panic e s) = s"
  "ret a s = (r, t) \<longleftrightarrow> r = Ret a \<and> t = s" "panic e s = (r, t) \<longleftrightarrow> r = Panic e \<and> t = s"
  "(r, t) = ret a s \<longleftrightarrow> r = Ret a \<and> t = s" "(r, t) = panic e s \<longleftrightarrow> r = Panic e \<and> t = s"
  "(case ret a s of (x, y) \<Rightarrow> f x y) = f (Ret a) s" "(case panic e s of (x, y) \<Rightarrow> f x y) = f (Panic e) s"
  "gets g s = (Ret (g s), s)" "modify h s = (Ret (), h s)"
  by (auto simp: ret_def panic_def gets_def modify_def)

lemma deref_simps [simp]: "deref (Some a) = ret a" "deref None = panic ''nil pointer dereference''"
  by (simp_all add: deref_def)

lemma ret_bindc [simp]: "bindc (ret a) f = f a"
  by (simp add: bindc_def ret_def)

lemma panic_bindc [simp]: "bindc (panic e) f = panic e"
  by (simp add: bindc_def panic_def fun_eq_iff)

lemma bindc_ret [simp]: "bindc m ret = m"
  by (auto simp: bindc_def ret_def fun_eq_iff split: prod.splits outcome.splits)

lemma bindc_assoc [simp]: "bindc (bindc m f) g = bindc m (\<lambda>a. bindc (f a) g)"
  by (auto simp: bindc_def fun_eq_iff split: prod.splits outcome.splits)

lemma bindc_cong [fundef_cong]:
  assumes "m s = m' s" and "\<And>a s'. m' s = (Ret a, s') \<Longrightarrow> f a s' = f' a s'"
  shows "bindc m f s = bindc m' f' s"
  using assms by (auto simp: bindc_def split: prod.splits outcome.splits)

subsection \<open>Weakest preconditions\<close>

text \<open>
  \<open>wp m Q E s\<close>: run from \<open>s\<close>, the computation \<open>m\<close> either returns a value and a state that
  satisfy \<open>Q\<close>, or panics in a state that satisfies \<open>E\<close>.
\<close>

definition wp :: "('s, 'a) comp \<Rightarrow> ('a \<Rightarrow> 's \<Rightarrow> bool) \<Rightarrow> ('s \<Rightarrow> bool) \<Rightarrow> 's \<Rightarrow> bool" where
  "wp m Q E s = (case m s of (Ret a, s') \<Rightarrow> Q a s' | (Panic e, s') \<Rightarrow> E s')"

lemma wp_ret [wp_rules]: "wp (ret a) Q E = Q a"
  by (simp add: wp_def ret_def fun_eq_iff)

lemma wp_panic [wp_rules]: "wp (panic m) Q E = E"
  by (simp add: wp_def panic_def fun_eq_iff)

lemma wp_gets [wp_rules]: "wp (gets f) Q E = (\<lambda>s. Q (f s) s)"
  by (simp add: wp_def gets_def fun_eq_iff)

lemma wp_modify [wp_rules]: "wp (modify f) Q E = (\<lambda>s. Q () (f s))"
  by (simp add: wp_def modify_def fun_eq_iff)

lemma wp_bindc [wp_rules]: "wp (bindc m f) Q E = wp m (\<lambda>a. wp (f a) Q E) E"
  by (auto simp: wp_def bindc_def fun_eq_iff split: prod.splits outcome.splits)

lemma wp_if [wp_rules]: "wp (if b then m else n) Q E = (if b then wp m Q E else wp n Q E)"
  by simp

lemma wp_whenc [wp_rules]: "wp (whenc b m) Q E = (if b then wp m Q E else Q ())"
  by (simp add: whenc_def wp_rules)

lemma wp_deref [wp_rules]: "wp (deref p) Q E = (case p of None \<Rightarrow> E | Some a \<Rightarrow> Q a)"
  by (cases p) (simp_all add: wp_rules)

lemma wp_case_option [wp_rules]:
  "wp (case p of None \<Rightarrow> m | Some a \<Rightarrow> f a) Q E =
     (case p of None \<Rightarrow> wp m Q E | Some a \<Rightarrow> wp (f a) Q E)"
  by (cases p) simp_all

lemma wp_case_sum [wp_rules]:
  "wp (case p of Inl e \<Rightarrow> f e | Inr a \<Rightarrow> g a) Q E =
     (case p of Inl e \<Rightarrow> wp (f e) Q E | Inr a \<Rightarrow> wp (g a) Q E)"
  by (cases p) simp_all

lemma wp_case_prod [wp_rules]:
  "wp (case p of (a, b) \<Rightarrow> f a b) Q E = (case p of (a, b) \<Rightarrow> wp (f a b) Q E)"
  by (cases p) simp_all

lemma wp_mono:
  assumes "wp m Q E s" and "\<And>a t. Q a t \<Longrightarrow> Q' a t" and "\<And>t. E t \<Longrightarrow> E' t"
  shows "wp m Q' E' s"
  using assms by (auto simp: wp_def split: prod.splits outcome.splits)

lemma wp_conj:
  assumes "wp m Q E s" and "wp m Q' E' s"
  shows "wp m (\<lambda>a t. Q a t \<and> Q' a t) (\<lambda>t. E t \<and> E' t) s"
  using assms by (auto simp: wp_def split: prod.splits outcome.splits)

lemma wp_Ret: "wp m Q E s \<Longrightarrow> m s = (Ret a, t) \<Longrightarrow> Q a t"
  by (simp add: wp_def)

lemma wp_Panic: "wp m Q E s \<Longrightarrow> m s = (Panic e, t) \<Longrightarrow> E t"
  by (simp add: wp_def)

lemma wpI:
  assumes "\<And>a t. m s = (Ret a, t) \<Longrightarrow> Q a t" and "\<And>e t. m s = (Panic e, t) \<Longrightarrow> E t"
  shows "wp m Q E s"
  using assms by (auto simp: wp_def split: prod.splits outcome.splits)

subsection \<open>Decimal rendering\<close>

text \<open>\<open>fmt.Sprint\<close> on a non-negative integer.\<close>

fun nat_digits :: "nat \<Rightarrow> string" where
  "nat_digits n =
     (if n < 10 then [char_of (48 + n)] else nat_digits (n div 10) @ [char_of (48 + n mod 10)])"

declare nat_digits.simps [simp del]

definition sprint :: "int \<Rightarrow> string" where
  "sprint i = (if i < 0 then ''-'' @ nat_digits (nat (- i)) else nat_digits (nat i))"

lemma nat_digits_nonempty: "nat_digits n \<noteq> []"
  by (subst nat_digits.simps) simp

lemma length_nat_digits_le: "n < 10 ^ k \<Longrightarrow> 0 < k \<Longrightarrow> length (nat_digits n) \<le> k"
proof (induction n arbitrary: k rule: nat_digits.induct)
  case (1 n)
  show ?case
  proof (cases "n < 10")
    case True
    with 1 show ?thesis by (simp add: nat_digits.simps [of n])
  next
    case False
    with "1.prems" obtain j where k: "k = Suc j" and j: "0 < j"
      by (cases k; cases "k - 1") auto
    have "n div 10 < 10 ^ j" using "1.prems" k by (simp add: less_mult_imp_div_less mult.commute)
    with False "1.IH" j have "length (nat_digits (n div 10)) \<le> j" by blast
    with False k show ?thesis by (simp add: nat_digits.simps [of n])
  qed
qed

text \<open>The rendering read back as a number.\<close>

definition digits_value :: "string \<Rightarrow> nat" where
  "digits_value = foldl (\<lambda>a c. 10 * a + (of_char c - 48)) 0"

lemma digits_value_snoc: "digits_value (s @ [c]) = 10 * digits_value s + (of_char c - 48)"
  by (simp add: digits_value_def)

lemma of_char_digit: "d < 10 \<Longrightarrow> (of_char (char_of (48 + d) :: char) :: nat) - 48 = d"
  by simp

lemma digits_value_nat_digits [simp]: "digits_value (nat_digits n) = n"
proof (induction n rule: nat_digits.induct)
  case (1 n)
  show ?case
  proof (cases "n < 10")
    case True
    then show ?thesis
      using digits_value_snoc [of "[]" "char_of (48 + n)"] of_char_digit [of n]
      by (simp add: nat_digits.simps [of n] digits_value_def)
  next
    case False
    with 1 have "digits_value (nat_digits (n div 10)) = n div 10" by blast
    with False show ?thesis
      using of_char_digit [of "n mod 10"]
      by (simp add: nat_digits.simps [of n] digits_value_snoc)
  qed
qed

subsection \<open>The text of an error\<close>

text \<open>The names of the gRPC status codes, by number.\<close>

definition grpc_code_names :: "string list" where
  "grpc_code_names = [''OK'', ''Canceled'', ''Unknown'', ''InvalidArgument'', ''DeadlineExceeded'',
     ''NotFound'', ''AlreadyExists'', ''PermissionDenied'', ''ResourceExhausted'',
     ''FailedPrecondition'', ''Aborted'', ''OutOfRange'', ''Unimplemented'', ''Internal'',
     ''Unavailable'', ''DataLoss'', ''Unauthenticated'']"

definition grpc_code_string :: "nat \<Rightarrow> string" where
  "grpc_code_string c =
     (if c < length grpc_code_names then grpc_code_names ! c else ''Code('' @ nat_digits c @ '')'')"

text \<open>\<open>err.Error()\<close>; the Vietnamese texts are written without diacritics.\<close>

fun Error :: "goerror \<Rightarrow> string" where
  "Error ErrPendingOrder = '' Giao dich dang cho xu li''"
| "Error ErrFailOrder = '' Giao dich that bai. Vui long thu lai sau''"
| "Error ErrPaidOrder = '' Giao dich da duoc thanh toan''"
| "Error ErrExpiredOrder = '' Giao dich da het thoi gian thanh toan''"
| "Error ErrCancelOrder = '' Giao dich da bi huy''"
| "Error ErrGeneral = ''Da co loi xay ra. Vui long thu lai sau''"
| "Error (ErrorString m) = m"
| "Error ErrNoDocuments = ''mongo: no documents in result''"
| "Error (StatusError c m) = ''rpc error: code = '' @ grpc_code_string c @ '' desc = '' @ m"
| "Error (MicroError text c d) = text"

subsection \<open>Strings\<close>

text \<open>\<open>strings.HasPrefix\<close>, \<open>strings.Contains\<close> and \<open>strings.Replace(s, sub, "", -1)\<close> for a non-empty \<open>sub\<close>.\<close>

fun HasPrefix :: "string \<Rightarrow> string \<Rightarrow> bool" where
  "HasPrefix s [] = True"
| "HasPrefix [] (p # ps) = False"
| "HasPrefix (c # s) (p # ps) = (c = p \<and> HasPrefix s ps)"

fun strings_Contains :: "string \<Rightarrow> string \<Rightarrow> bool" where
  "strings_Contains [] sub = (sub = [])"
| "strings_Contains (c # s) sub = (HasPrefix (c # s) sub \<or> strings_Contains s sub)"

function strings_Remove :: "string \<Rightarrow> string \<Rightarrow> string" where
  "strings_Remove sub [] = []"
| "strings_Remove sub (c # s) =
     (if sub \<noteq> [] \<and> HasPrefix (c # s) sub then strings_Remove sub (drop (length sub) (c # s))
      else c # strings_Remove sub s)"
  by pat_completeness auto
termination
  by (relation "measure (length \<circ> snd)") auto

lemma HasPrefix_append: "HasPrefix s p \<longleftrightarrow> (\<exists>t. s = p @ t)"
  by (induction s p rule: HasPrefix.induct) auto

lemma strings_Contains_append: "strings_Contains s sub \<longleftrightarrow> (\<exists>a b. s = a @ sub @ b)"
  by (induction s) (auto simp: HasPrefix_append Cons_eq_append_conv)

lemma strings_Remove_absent: "\<not> strings_Contains s sub \<Longrightarrow> strings_Remove sub s = s"
  by (induction sub s rule: strings_Remove.induct) (auto split: if_splits)

end
