(* ===== verification/Constants.thy ===== *)
theory Constants
  imports Prelude
begin

text \<open>
  The string constants of \<open>domain/constants\<close> that the modelled code reads, under their own names
  (\<open>Amount\<close> is \<open>AmountWal\<close>, for the record fields have taken the name), the status words of the
  bank gateway (\<open>bank_gateway.go\<close>) and the membership test of \<open>utils/helpers\<close>.
\<close>

definition VND :: string where
  [go_consts]: "VND = [CHR ''V'', CHR ''N'', CHR 0xC4, CHR 0x90]"

definition GPAY_ACCOUNT_ID :: string where
  [go_consts]: "GPAY_ACCOUNT_ID = ''GPAY0001''"

definition TRANSACTION_STATUS_PENDING :: string where
  [go_consts]: "TRANSACTION_STATUS_PENDING = ''PENDING''"

definition TRANSACTION_STATUS_PROCESSING :: string where
  [go_consts]: "TRANSACTION_STATUS_PROCESSING = ''PROCESSING''"

definition TRANSACTION_STATUS_FINISH :: string where
  [go_consts]: "TRANSACTION_STATUS_FINISH = ''FINISH''"

definition TRANSACTION_STATUS_FAILED :: string where
  [go_consts]: "TRANSACTION_STATUS_FAILED = ''FAILED''"

definition TRANSACTION_STATE_INITIAL :: string where
  [go_consts]: "TRANSACTION_STATE_INITIAL = ''INITIAL''"

definition SOURCE_OF_FUND_BALANCE_WALLET :: string where
  [go_consts]: "SOURCE_OF_FUND_BALANCE_WALLET = ''BALANCE_WAL''"

definition SOURCE_OF_FUND_BANK_ATM :: string where
  [go_consts]: "SOURCE_OF_FUND_BANK_ATM = ''BANK_ATM''"

definition SOURCE_OF_FUND_CREDIT_CARD :: string where
  [go_consts]: "SOURCE_OF_FUND_CREDIT_CARD = ''CREDIT_CARD''"

definition SOURCE_OF_FUND_DEBIT_CARD :: string where
  [go_consts]: "SOURCE_OF_FUND_DEBIT_CARD = ''DEBIT_CARD''"

definition SERVICE_TYPE_COLLECTION_AND_PAY :: string where
  [go_consts]: "SERVICE_TYPE_COLLECTION_AND_PAY = ''PAY_COLLECT''"

definition SERVICE_TYPE_WALLET :: string where
  [go_consts]: "SERVICE_TYPE_WALLET = ''WALLET''"

definition TRANSTYPE_BEHALF_PAY_WALLET_TO_WALLET :: string where
  [go_consts]: "TRANSTYPE_BEHALF_PAY_WALLET_TO_WALLET = ''WAL2WAL''"

definition TRANSTYPE_BEHALF_PAY_WALLET_TO_BANK :: string where
  [go_consts]: "TRANSTYPE_BEHALF_PAY_WALLET_TO_BANK = ''WAL2BANK''"

definition TRANSTYPE_WALLET_TRANSFER :: string where
  [go_consts]: "TRANSTYPE_WALLET_TRANSFER = ''TRANSFER''"

definition TRANSTYPE_WALLET_PAY :: string where
  [go_consts]: "TRANSTYPE_WALLET_PAY = ''PAY_WAL''"

definition TRANSTYPE_WALLET_PAY_BY_TOKEN :: string where
  [go_consts]: "TRANSTYPE_WALLET_PAY_BY_TOKEN = ''PAYBYTOKEN''"

definition TRANSTYPE_WALLET_CASH_IN :: string where
  [go_consts]: "TRANSTYPE_WALLET_CASH_IN = ''CASHIN''"

definition TRANSTYPE_WALLET_CASH_OUT :: string where
  [go_consts]: "TRANSTYPE_WALLET_CASH_OUT = ''CASHOUT''"

definition TRANSTYPE_WALLET_TRANS2BANK :: string where
  [go_consts]: "TRANSTYPE_WALLET_TRANS2BANK = ''TRANS2BANK''"

definition TRANSTYPE_WALLET_LIXI :: string where
  [go_consts]: "TRANSTYPE_WALLET_LIXI = ''LIXI''"

definition TRANSTYPE_WALLET_REFUND :: string where
  [go_consts]: "TRANSTYPE_WALLET_REFUND = ''REFUND''"

definition TRANSTYPE_WALLET_CASHBACK :: string where
  [go_consts]: "TRANSTYPE_WALLET_CASHBACK = ''CASHBACK''"

definition TRANSTYPE_WALLET_CASH_IN_MC :: string where
  [go_consts]: "TRANSTYPE_WALLET_CASH_IN_MC = ''CASHINMC''"

definition TRANSTYPE_WALLET_CASH_OUT_MC :: string where
  [go_consts]: "TRANSTYPE_WALLET_CASH_OUT_MC = ''CASHOUTMC''"

definition TRANSTYPE_PAY_TO_MERCHANT :: string where
  [go_consts]: "TRANSTYPE_PAY_TO_MERCHANT = ''PAY2MERCHANT''"

definition TRANSTYPE_PAY_VA :: string where
  [go_consts]: "TRANSTYPE_PAY_VA = ''VA''"

definition TRANSTYPE_OPENWAL_CASHIN :: string where
  [go_consts]: "TRANSTYPE_OPENWAL_CASHIN = ''OPENWALLET_CASHIN''"

definition TRANSTYPE_OPENWAL_CASHOUT :: string where
  [go_consts]: "TRANSTYPE_OPENWAL_CASHOUT = ''OPENWALLET_CASHOUT''"

definition TRANSTYPE_OPENWAL_TRANSFERTOBANK :: string where
  [go_consts]: "TRANSTYPE_OPENWAL_TRANSFERTOBANK = ''OPENWALLET_TRANSFERTOBANK''"

definition TRANSTYPE_PG_PAY :: string where
  [go_consts]: "TRANSTYPE_PG_PAY = ''PAY''"

definition TRANSTYPE_PG_PAY_BY_PAY_INTERNATIONAL_CARD :: string where
  [go_consts]: "TRANSTYPE_PG_PAY_BY_PAY_INTERNATIONAL_CARD = ''PAY_INTERNATIONAL_CARD''"

definition SUB_TRANSTYPE_WALLET_TOPUP_CARD :: string where
  [go_consts]: "SUB_TRANSTYPE_WALLET_TOPUP_CARD = ''TOPUPCARD''"

definition SUB_TRANSTYPE_WALLET_BUY_CARD :: string where
  [go_consts]: "SUB_TRANSTYPE_WALLET_BUY_CARD = ''BUYCARD''"

definition SUB_TRANSTYPE_WALLET_BUY_DATA :: string where
  [go_consts]: "SUB_TRANSTYPE_WALLET_BUY_DATA = ''BUYDATA''"

definition SUB_TRANSTYPE_WALLET_PAY_BILL_WATTER :: string where
  [go_consts]: "SUB_TRANSTYPE_WALLET_PAY_BILL_WATTER = ''PAYBILLWATER''"

definition SUB_TRANSTYPE_WALLET_PAY_BILL_ELECTRIC :: string where
  [go_consts]: "SUB_TRANSTYPE_WALLET_PAY_BILL_ELECTRIC = ''PAYBILLELECTRIC''"

definition SUB_TRANSTYPE_WALLET_PAY_BILL_LOAN :: string where
  [go_consts]: "SUB_TRANSTYPE_WALLET_PAY_BILL_LOAN = ''PAYBILLLOAN''"

definition SUB_TRANSTYPE_WALLET_PAY_BILL_TV :: string where
  [go_consts]: "SUB_TRANSTYPE_WALLET_PAY_BILL_TV = ''PAYBILLTV''"

definition SUB_TRANSTYPE_WALLET_PAY_BILL_INTERNET :: string where
  [go_consts]: "SUB_TRANSTYPE_WALLET_PAY_BILL_INTERNET = ''PAYBILLINTERNET''"

definition SUB_TRANSTYPE_WALLET_PAY_BILL_TELEPHONE :: string where
  [go_consts]: "SUB_TRANSTYPE_WALLET_PAY_BILL_TELEPHONE = ''PAYBILLTELEPHONE''"

definition SUB_TRANSTYPE_WALLET_QR_STATIC :: string where
  [go_consts]: "SUB_TRANSTYPE_WALLET_QR_STATIC = ''QRCODEMPMSTATIC''"

definition SUB_TRANSTYPE_WALLET_QR_DYNAMIC :: string where
  [go_consts]: "SUB_TRANSTYPE_WALLET_QR_DYNAMIC = ''QRCODEMPMDYNAMIC''"

definition SUB_TRANSTYPE_WALLET_WEB_TO_APP :: string where
  [go_consts]: "SUB_TRANSTYPE_WALLET_WEB_TO_APP = ''WEBTOAPP''"

definition SUB_TRANSTYPE_WALLET_WEB_IN_APP :: string where
  [go_consts]: "SUB_TRANSTYPE_WALLET_WEB_IN_APP = ''WEBINAPP''"

definition SUB_TRANSTYPE_WALLET_APP_TO_APP :: string where
  [go_consts]: "SUB_TRANSTYPE_WALLET_APP_TO_APP = ''APPTOAPP''"

definition AmountWal :: string where
  [go_consts]: "AmountWal = ''amount''"

definition AmountCash :: string where
  [go_consts]: "AmountCash = ''amount_cash''"

definition AmountRevenue :: string where
  [go_consts]: "AmountRevenue = ''amount_revenue''"

definition AmountCollectionPay :: string where
  [go_consts]: "AmountCollectionPay = ''amount_collection_pay''"

definition MPGS_DEBIT_CARD :: string where
  [go_consts]: "MPGS_DEBIT_CARD = ''DEBIT''"

definition GPAY_VCCB :: string where
  [go_consts]: "GPAY_VCCB = ''GPVCCB''"

definition GPNAPASGPBANK :: string where
  [go_consts]: "GPNAPASGPBANK = ''GPNAPASGPBANK''"

definition VCCB :: string where
  [go_consts]: "VCCB = ''VCCB''"

definition MSB :: string where
  [go_consts]: "MSB = ''MSB''"

definition VPB :: string where
  [go_consts]: "VPB = ''VPB''"

definition MsgExpiredOrder :: string where
  [go_consts]: "MsgExpiredOrder = ''Expired order''"

definition SERVICE_TRANSACTION_ERROR :: string where
  [go_consts]: "SERVICE_TRANSACTION_ERROR = ''[SERVICE_TRANSACTION].error ''"

definition SERVICE_MERCHANT_FEE_ERROR :: string where
  [go_consts]: "SERVICE_MERCHANT_FEE_ERROR = ''[SERVICE_MERCHANT_FEE].error ''"

definition SERVICE_ORDER_SYSTEM_ERROR :: string where
  [go_consts]: "SERVICE_ORDER_SYSTEM_ERROR = ''[SERVICE_ORDER_SYSTEM].error ''"

definition SERVICE_BANKGW_ERROR :: string where
  [go_consts]: "SERVICE_BANKGW_ERROR = ''[SERVICE_BANKGW_ERROR].error ''"

definition SERVICE_USER_ERROR :: string where
  [go_consts]: "SERVICE_USER_ERROR = ''[SERVICE_USER_ERROR].error ''"

definition TransactionTypeCashback :: string where
  [go_consts]: "TransactionTypeCashback = ''CASHBACK''"

definition TransactionTypeTransferGpoint :: string where
  [go_consts]: "TransactionTypeTransferGpoint = ''TRANSFER''"

definition TransactionTypeTopup :: string where
  [go_consts]: "TransactionTypeTopup = ''TOPUP''"

definition TransactionTypeBuyData :: string where
  [go_consts]: "TransactionTypeBuyData = ''BUYDATA''"

definition TransactionTypeBuyCard :: string where
  [go_consts]: "TransactionTypeBuyCard = ''BUYCARD''"

definition TransactionTypeBalanceChangeDeposit :: string where
  [go_consts]: "TransactionTypeBalanceChangeDeposit = ''BALANCE_CHANGE_DEPOSIT''"

definition TransactionTypeBalanceChangeWithdraw :: string where
  [go_consts]: "TransactionTypeBalanceChangeWithdraw = ''BALANCE_CHANGE_WITHDRAW''"

definition TransactionTypePaidBillWater :: string where
  [go_consts]: "TransactionTypePaidBillWater = ''PAID_BILL_WATER''"

definition TransactionTypePaidBillElectric :: string where
  [go_consts]: "TransactionTypePaidBillElectric = ''PAID_BILL_ELECTRIC''"

definition TransactionTypePaidBillCredit :: string where
  [go_consts]: "TransactionTypePaidBillCredit = ''PAID_BILL_CREDIT''"

definition TransactionTypePaidBillMerchantWallet :: string where
  [go_consts]: "TransactionTypePaidBillMerchantWallet = ''PAID_BILL_MERCHANT_WALLET''"

definition TopicMQTTUpdateExpiredOrder :: string where
  [go_consts]: "TopicMQTTUpdateExpiredOrder = ''update-expired-order''"

definition TopicMQTTUpdateBalanceVA :: string where
  [go_consts]: "TopicMQTTUpdateBalanceVA = ''update-balance-va''"

definition TopicUpdateCancelOrder :: string where
  [go_consts]: "TopicUpdateCancelOrder = ''update-cancel-order''"

definition TopicMQTTCloseVA :: string where
  [go_consts]: "TopicMQTTCloseVA = ''close-va''"

definition TopicUpdateVABalance :: string where
  [go_consts]: "TopicUpdateVABalance = ''update-va-balance''"

definition TopicMQTTFailFraudMPGS :: string where
  [go_consts]: "TopicMQTTFailFraudMPGS = ''mpgs-fail-fraud''"

definition TopicUpdateBankStatus :: string where
  [go_consts]: "TopicUpdateBankStatus = ''update-bank-status''"

definition UPDATE_USER_INFO :: string where
  [go_consts]: "UPDATE_USER_INFO = ''update-user-info''"

definition UPDATE_TRANSACTION :: string where
  [go_consts]: "UPDATE_TRANSACTION = ''update-transaction''"

definition MQTTTransactionSuccess :: string where
  [go_consts]: "MQTTTransactionSuccess = ''success-transaction''"

definition MQTTLIXISuccess :: string where
  [go_consts]: "MQTTLIXISuccess = ''success-lixi''"

definition MQTTTransactionFailed :: string where
  [go_consts]: "MQTTTransactionFailed = ''failed-transaction''"

definition MQTTEventNotification :: string where
  [go_consts]: "MQTTEventNotification = ''notification''"

definition MQTTEventBackground :: string where
  [go_consts]: "MQTTEventBackground = ''background''"

definition STATUS_SUCCESS :: string where
  [go_consts]: "STATUS_SUCCESS = ''SUCCESS''"

definition STATUS_VERIFYING :: string where
  [go_consts]: "STATUS_VERIFYING = ''VERIFYING''"

definition STATUS_FAILED :: string where
  [go_consts]: "STATUS_FAILED = ''FAILED''"

definition VA_ACCOUNT_TYPE_MANY :: string where
  [go_consts]: "VA_ACCOUNT_TYPE_MANY = ''MANYTIME''"

definition VA_ACCOUNT_TYPE_ONCE :: string where
  [go_consts]: "VA_ACCOUNT_TYPE_ONCE = ''ONETIME''"

definition GpayBankCodeCreditPayment :: string where
  [go_consts]: "GpayBankCodeCreditPayment = ''GPMPGS''"

subsection \<open>Membership\<close>

fun IsStringSliceContains :: "string list \<Rightarrow> string \<Rightarrow> bool" where
  "IsStringSliceContains [] searchString = False"
| "IsStringSliceContains (value # stringSlice) searchString =
     (if value = searchString then True else IsStringSliceContains stringSlice searchString)"

lemma IsStringSliceContains_iff [simp]: "IsStringSliceContains xs x \<longleftrightarrow> x \<in> set xs"
  by (induction xs) auto

subsection \<open>Status words of the bank gateway\<close>

type_synonym BankGwStatus = string

definition BankGwStatus_IsSuccess :: "BankGwStatus \<Rightarrow> bool" where
  "BankGwStatus_IsSuccess status \<longleftrightarrow> 2 < length status \<and> take 1 status = ''2''"

definition BankGwStatus_IsVerifying :: "BankGwStatus \<Rightarrow> bool" where
  "BankGwStatus_IsVerifying status \<longleftrightarrow> status = ''102''"

definition BankGwStatus_IsFail :: "BankGwStatus \<Rightarrow> bool" where
  "BankGwStatus_IsFail status \<longleftrightarrow> 2 < length status \<and> take 1 status = ''4''"

definition BankGwStatus_IsNeedToEnterOTP :: "BankGwStatus \<Rightarrow> bool" where
  "BankGwStatus_IsNeedToEnterOTP status \<longleftrightarrow> status = ''453''"

definition BankGwStatus_IsNotByPassOTP :: "BankGwStatus \<Rightarrow> bool" where
  "BankGwStatus_IsNotByPassOTP status \<longleftrightarrow> status = ''452''"

definition BankGwStatus_IsMaxAttemptFailOTP :: "BankGwStatus \<Rightarrow> bool" where
  "BankGwStatus_IsMaxAttemptFailOTP status \<longleftrightarrow> status = ''461''"

definition BankGwStatus_IsWrongOTP :: "BankGwStatus \<Rightarrow> bool" where
  "BankGwStatus_IsWrongOTP status \<longleftrightarrow> status = ''449''"

lemmas BankGwStatus_defs =
  BankGwStatus_IsSuccess_def BankGwStatus_IsVerifying_def BankGwStatus_IsFail_def
  BankGwStatus_IsNeedToEnterOTP_def BankGwStatus_IsNotByPassOTP_def
  BankGwStatus_IsMaxAttemptFailOTP_def BankGwStatus_IsWrongOTP_def

text \<open>The classes a status word can be in exclude each other.\<close>

lemma BankGwStatus_success_exclusive:
  "BankGwStatus_IsSuccess st \<Longrightarrow> \<not> BankGwStatus_IsFail st \<and> \<not> BankGwStatus_IsVerifying st \<and>
     \<not> BankGwStatus_IsNeedToEnterOTP st \<and> \<not> BankGwStatus_IsWrongOTP st"
  by (auto simp: BankGwStatus_defs)

lemma BankGwStatus_verifying_exclusive:
  "BankGwStatus_IsVerifying st \<Longrightarrow> \<not> BankGwStatus_IsFail st \<and> \<not> BankGwStatus_IsSuccess st"
  by (auto simp: BankGwStatus_defs)

lemma BankGwStatus_otp_is_fail:
  "BankGwStatus_IsNeedToEnterOTP st \<or> BankGwStatus_IsNotByPassOTP st \<or>
   BankGwStatus_IsMaxAttemptFailOTP st \<or> BankGwStatus_IsWrongOTP st \<Longrightarrow> BankGwStatus_IsFail st"
  by (auto simp: BankGwStatus_defs)

end
