(* ===== verification/Entities.thy ===== *)
theory Entities
  imports Constants
begin

text \<open>
  The data of the service: order status (\<open>domain/entities/order_status.go\<close>), orders
  (\<open>order_entity.go\<close>), the protobuf messages of \<open>proto/order_system\<close> and
  \<open>proto/service_transaction\<close> and the transaction detail (\<open>transaction.go\<close>), with every field
  of the source.  Field names carry a prefix per struct, and \<open>X_zero\<close> is Go's zero value of
  \<open>X\<close>, from which composite literals are written as updates.
\<close>

subsection \<open>Order status\<close>

text \<open>The enumeration is open: a number without a name is \<open>OrderStatusCode\<close>.\<close>

datatype OrderStatus =
    UNKNOWN | ORDER_PENDING | ORDER_PROCESSING | ORDER_SUCCESS | ORDER_FAILED | ORDER_CANCEL
  | ORDER_VERIFYING | ORDER_QUESTIONABLE | OrderStatusCode int

definition IsProcessing :: "OrderStatus \<Rightarrow> bool" where
  "IsProcessing o' \<longleftrightarrow> o' = ORDER_PROCESSING"

definition IsPending :: "OrderStatus \<Rightarrow> bool" where
  "IsPending o' \<longleftrightarrow> o' = ORDER_PENDING"

definition IsSuccess :: "OrderStatus \<Rightarrow> bool" where
  "IsSuccess o' \<longleftrightarrow> o' = ORDER_SUCCESS"

definition IsFailed :: "OrderStatus \<Rightarrow> bool" where
  "IsFailed o' \<longleftrightarrow> o' = ORDER_FAILED"

definition IsVerifying :: "OrderStatus \<Rightarrow> bool" where
  "IsVerifying o' \<longleftrightarrow> o' = ORDER_VERIFYING"

definition IsCancel :: "OrderStatus \<Rightarrow> bool" where
  "IsCancel o' \<longleftrightarrow> o' = ORDER_CANCEL"

fun StatusString :: "OrderStatus \<Rightarrow> string" where
  "StatusString UNKNOWN = ''UNKNOWN''"
| "StatusString ORDER_PENDING = ''ORDER_PENDING''"
| "StatusString ORDER_PROCESSING = ''ORDER_PROCESSING''"
| "StatusString ORDER_SUCCESS = ''ORDER_SUCCESS''"
| "StatusString ORDER_FAILED = ''ORDER_FAILED''"
| "StatusString ORDER_CANCEL = ''ORDER_CANCEL''"
| "StatusString ORDER_VERIFYING = ''ORDER_VERIFYING''"
| "StatusString ORDER_QUESTIONABLE = ''ORDER_QUESTIONABLE''"
| "StatusString (OrderStatusCode n) = ''''"

lemmas status_defs = IsProcessing_def IsPending_def IsSuccess_def IsFailed_def IsVerifying_def IsCancel_def

text \<open>Go's zero \<open>time.Time\<close>: January 1, year 1.\<close>

definition zero_time :: gotime where
  "zero_time = - 62135596800 * 1000000000"

subsection \<open>Structs\<close>

record OrderEntity =
  oe_OrderID :: string
  oe_ServiceID :: string
  oe_RefID :: string
  oe_UserID :: string
  oe_SubscribeMerchantID :: string
  oe_TransactionID :: string
  oe_ServiceType :: string
  oe_ServiceCode :: string
  oe_OrderType :: string
  oe_SubOrderType :: string
  oe_Amount :: int64
  oe_Quantity :: int64
  oe_SourceOfFund :: string
  oe_Status :: OrderStatus
  oe_VoucherCode :: string
  oe_DeviceID :: string
  oe_MerchantFeeAmount :: int64
  oe_CreatedAt :: gotime
  oe_UpdatedAt :: gotime
  oe_DeletedAt :: gotime
  oe_BankCode :: string
  oe_GPayBankCode :: string
  oe_PhoneTopUp :: string
  oe_ToUserID :: string
  oe_LuckyMoneyID :: string
  oe_ExpiredAt :: gotime
  oe_IsExpired :: bool
  oe_MerchantCode :: string
  oe_MerchantCategoryCode :: string
  oe_MerchantCategoryType :: string
  oe_MerchantTypeWallet :: string
  oe_FailReason :: string
  oe_InternalErr :: string
  oe_CardNumber :: string
  oe_AccountNo :: string
  oe_SucceedAt :: gotime
  oe_Napas :: bool
  oe_BankTransactionId :: string
  oe_AmountMerchantFee :: int64
  oe_AmountMerchantFeeGpayTmp :: int64
  oe_FixedFeeAmount :: int64
  oe_RateFeeAmount :: int64
  oe_MerchantFeeMethod :: string
  oe_PaymentOrderId :: string
  oe_Description :: string
  oe_TransactionIDs :: "string list"
  oe_IsRetrievedOrder :: bool
  oe_RefundTransactionId :: string
  oe_RefundSourceTransactionId :: string
  oe_RefundSourceOrderId :: string
  oe_RefundType :: string
  oe_ExpireTime :: int64
  oe_CustomerId :: string
  oe_Metadata :: string
  oe_OrderCardTelco :: string
  oe_OrderBillServiceCode :: string
  oe_OrderBillCustomerRef :: string
  oe_OrderBillAreaCode :: string
  oe_BankReceived :: string
  oe_AccountName :: string

definition OrderEntity_zero :: OrderEntity where
  "OrderEntity_zero = \<lparr>oe_OrderID = [], oe_ServiceID = [], oe_RefID = [], oe_UserID = [],
     oe_SubscribeMerchantID = [], oe_TransactionID = [], oe_ServiceType = [],
     oe_ServiceCode = [], oe_OrderType = [], oe_SubOrderType = [], oe_Amount = 0,
     oe_Quantity = 0, oe_SourceOfFund = [], oe_Status = UNKNOWN, oe_VoucherCode = [],
     oe_DeviceID = [], oe_MerchantFeeAmount = 0, oe_CreatedAt = zero_time,
     oe_UpdatedAt = zero_time, oe_DeletedAt = zero_time, oe_BankCode = [],
     oe_GPayBankCode = [], oe_PhoneTopUp = [], oe_ToUserID = [], oe_LuckyMoneyID = [],
     oe_ExpiredAt = zero_time, oe_IsExpired = False, oe_MerchantCode = [],
     oe_MerchantCategoryCode = [], oe_MerchantCategoryType = [],
     oe_MerchantTypeWallet = [], oe_FailReason = [], oe_InternalErr = [],
     oe_CardNumber = [], oe_AccountNo = [], oe_SucceedAt = zero_time, oe_Napas = False,
     oe_BankTransactionId = [], oe_AmountMerchantFee = 0, oe_AmountMerchantFeeGpayTmp = 0,
     oe_FixedFeeAmount = 0, oe_RateFeeAmount = 0, oe_MerchantFeeMethod = [],
     oe_PaymentOrderId = [], oe_Description = [], oe_TransactionIDs = [],
     oe_IsRetrievedOrder = False, oe_RefundTransactionId = [],
     oe_RefundSourceTransactionId = [], oe_RefundSourceOrderId = [], oe_RefundType = [],
     oe_ExpireTime = 0, oe_CustomerId = [], oe_Metadata = [], oe_OrderCardTelco = [],
     oe_OrderBillServiceCode = [], oe_OrderBillCustomerRef = [],
     oe_OrderBillAreaCode = [], oe_BankReceived = [], oe_AccountName = []\<rparr>"

text \<open>The protobuf messages \<open>OrderEntity\<close> (of a response) and \<open>OrderRequest\<close>.\<close>

record OrderProto =
  op_OrderID :: string
  op_ServiceID :: string
  op_UserID :: string
  op_TransactionID :: string
  op_OrderType :: string
  op_SubOrderType :: string
  op_SourceOfFund :: string
  op_Status :: OrderStatus
  op_VoucherCode :: string
  op_DeviceID :: string
  op_MerchantFeeAmount :: int64
  op_CreatedAt :: "gotime option"
  op_UpdatedAt :: "gotime option"
  op_DeletedAt :: "gotime option"
  op_RefID :: string
  op_Amount :: int64
  op_IsExpired :: bool
  op_ExpiredAt :: "gotime option"
  op_SucceedAt :: "gotime option"
  op_SubcriberMerchantId :: string
  op_RefundId :: string
  op_Description :: string
  op_CustomerId :: string
  op_Metadata :: string
  op_GpayBankCode :: string

definition OrderProto_zero :: OrderProto where
  "OrderProto_zero = \<lparr>op_OrderID = [], op_ServiceID = [], op_UserID = [], op_TransactionID = [],
     op_OrderType = [], op_SubOrderType = [], op_SourceOfFund = [], op_Status = UNKNOWN,
     op_VoucherCode = [], op_DeviceID = [], op_MerchantFeeAmount = 0, op_CreatedAt = None,
     op_UpdatedAt = None, op_DeletedAt = None, op_RefID = [], op_Amount = 0,
     op_IsExpired = False, op_ExpiredAt = None, op_SucceedAt = None,
     op_SubcriberMerchantId = [], op_RefundId = [], op_Description = [],
     op_CustomerId = [], op_Metadata = [], op_GpayBankCode = []\<rparr>"

record OrderRequest =
  rq_Amount :: int64
  rq_Quantity :: int64
  rq_VoucherCode :: string
  rq_UserID :: string
  rq_MerchantID :: string
  rq_ServiceID :: string
  rq_SubTransType :: string
  rq_TransType :: string
  rq_SourceOfFund :: string
  rq_DeviceID :: string
  rq_RefID :: string
  rq_PhoneTopup :: string
  rq_BankCode :: string
  rq_GPayBankCode :: string
  rq_ToUserID :: string
  rq_MerchantCode :: string
  rq_ServiceType :: string
  rq_CardNumber :: string
  rq_AccountNo :: string
  rq_Napas :: bool
  rq_BankTransactionId :: string
  rq_AmountMerchantFee :: int64
  rq_AmountMerchantFeeGpayTmp :: int64
  rq_PaymentOrderId :: string
  rq_MerchantCategoryCode :: string
  rq_MerchantCategoryType :: string
  rq_ServiceCode :: string
  rq_Message :: string
  rq_MerchantTypeWallet :: string
  rq_FixedFeeAmount :: int64
  rq_RateFeeAmount :: int64
  rq_MerchantFeeMethod :: string
  rq_ExpireTime :: int64
  rq_Description :: string
  rq_CustomerId :: string
  rq_Metadata :: string
  rq_Status :: OrderStatus
  rq_OrderId :: string
  rq_FailReason :: string
  rq_InternalErr :: string

definition OrderRequest_zero :: OrderRequest where
  "OrderRequest_zero = \<lparr>rq_Amount = 0, rq_Quantity = 0, rq_VoucherCode = [], rq_UserID = [],
     rq_MerchantID = [], rq_ServiceID = [], rq_SubTransType = [], rq_TransType = [],
     rq_SourceOfFund = [], rq_DeviceID = [], rq_RefID = [], rq_PhoneTopup = [],
     rq_BankCode = [], rq_GPayBankCode = [], rq_ToUserID = [], rq_MerchantCode = [],
     rq_ServiceType = [], rq_CardNumber = [], rq_AccountNo = [], rq_Napas = False,
     rq_BankTransactionId = [], rq_AmountMerchantFee = 0, rq_AmountMerchantFeeGpayTmp = 0,
     rq_PaymentOrderId = [], rq_MerchantCategoryCode = [], rq_MerchantCategoryType = [],
     rq_ServiceCode = [], rq_Message = [], rq_MerchantTypeWallet = [],
     rq_FixedFeeAmount = 0, rq_RateFeeAmount = 0, rq_MerchantFeeMethod = [],
     rq_ExpireTime = 0, rq_Description = [], rq_CustomerId = [], rq_Metadata = [],
     rq_Status = UNKNOWN, rq_OrderId = [], rq_FailReason = [], rq_InternalErr = []\<rparr>"

text \<open>The transaction message of the transaction service, and the detail published about it.\<close>

record ETransactionDTO =
  tx_Id :: string
  tx_TransactionId :: string
  tx_AppId :: string
  tx_Currency :: string
  tx_Message :: string
  tx_State :: string
  tx_Status :: string
  tx_ServiceType :: string
  tx_TransactionType :: string
  tx_SubTransactionType :: string
  tx_TypeWallet :: string
  tx_Amount :: int64
  tx_LastAmount :: int64
  tx_AmountFeeGpay :: int64
  tx_AmountDiscount :: int64
  tx_AmountMerchantFee :: int64
  tx_AmountTransactionCashBack :: int64
  tx_VoucherCode :: string
  tx_SourceOfFund :: string
  tx_MerchantID :: string
  tx_MerchantTransactionId :: string
  tx_CashbackTransactionID :: string
  tx_RefId :: string
  tx_OrderId :: string
  tx_DeviceId :: string
  tx_PayerId :: string
  tx_PayeeId :: string
  tx_GpayAccountID :: string
  tx_BankTransactionId :: string
  tx_Napas :: bool
  tx_BankCode :: string
  tx_IbftType :: string
  tx_CardNo :: string
  tx_AccountNo :: string
  tx_FailReason :: string
  tx_ReturnCode :: string
  tx_ReturnMessage :: string
  tx_Exception :: string
  tx_CreatedAt :: int64
  tx_UpdatedAt :: int64
  tx_DeletedAt :: int64
  tx_PayerStatusKyc :: bool
  tx_PayerStatusLinkedBank :: bool
  tx_PayeeStatusKyc :: bool
  tx_PayeeStatusLinkedBank :: bool
  tx_MerchantTypeWallet :: string
  tx_BankTypeWallet :: string
  tx_GpayTypeWallet :: string
  tx_AdminId :: string
  tx_IbftReceiveBank :: string
  tx_IbftReceivePayeeName :: string
  tx_AmountMerchantFeeGpayReality :: int64
  tx_AmountMerchantFeeGpayTmp :: int64
  tx_StatusChecking :: string
  tx_TimeToChecking :: int64
  tx_StatusCodeChecking :: string
  tx_StatusSettlement :: string
  tx_TimeSettlement :: int64
  tx_ReasonReverseRefID :: string
  tx_ReverseRefID :: string
  tx_HasReversed :: bool
  tx_VoucherID :: string
  tx_SubAccountID :: string
  tx_SubscriberMerchantID :: string
  tx_SubscriberMerchantTypeWallet :: string
  tx_LuckyMoneyID :: string
  tx_ProviderMerchantID :: string
  tx_FeeMerchantProvider :: int64
  tx_FeeSubscribeMerchant :: int64
  tx_DiscountOfMerchantProvider :: int64
  tx_DiscountForMerchantSubscriber :: int64
  tx_AccountVA :: string
  tx_BankCodeVA :: string
  tx_CustomerNameVA :: string
  tx_TimeSendVA :: int64
  tx_IdentityVANumber :: string
  tx_Channel :: string
  tx_AccountVAType :: string
  tx_TransactionSourceRefund :: string
  tx_FixedFeeAmount :: int64
  tx_RateFeeAmount :: int64
  tx_UserReceiveRefund :: string
  tx_AmountMerchantFeeReturn :: int64
  tx_IsAmountMerchantFeeReturn :: bool
  tx_MerchantFeeMethod :: string

definition ETransactionDTO_zero :: ETransactionDTO where
  "ETransactionDTO_zero = \<lparr>tx_Id = [], tx_TransactionId = [], tx_AppId = [], tx_Currency = [], tx_Message = [],
     tx_State = [], tx_Status = [], tx_ServiceType = [], tx_TransactionType = [],
     tx_SubTransactionType = [], tx_TypeWallet = [], tx_Amount = 0, tx_LastAmount = 0,
     tx_AmountFeeGpay = 0, tx_AmountDiscount = 0, tx_AmountMerchantFee = 0,
     tx_AmountTransactionCashBack = 0, tx_VoucherCode = [], tx_SourceOfFund = [],
     tx_MerchantID = [], tx_MerchantTransactionId = [], tx_CashbackTransactionID = [],
     tx_RefId = [], tx_OrderId = [], tx_DeviceId = [], tx_PayerId = [], tx_PayeeId = [],
     tx_GpayAccountID = [], tx_BankTransactionId = [], tx_Napas = False, tx_BankCode = [],
     tx_IbftType = [], tx_CardNo = [], tx_AccountNo = [], tx_FailReason = [],
     tx_ReturnCode = [], tx_ReturnMessage = [], tx_Exception = [], tx_CreatedAt = 0,
     tx_UpdatedAt = 0, tx_DeletedAt = 0, tx_PayerStatusKyc = False,
     tx_PayerStatusLinkedBank = False, tx_PayeeStatusKyc = False,
     tx_PayeeStatusLinkedBank = False, tx_MerchantTypeWallet = [], tx_BankTypeWallet = [],
     tx_GpayTypeWallet = [], tx_AdminId = [], tx_IbftReceiveBank = [],
     tx_IbftReceivePayeeName = [], tx_AmountMerchantFeeGpayReality = 0,
     tx_AmountMerchantFeeGpayTmp = 0, tx_StatusChecking = [], tx_TimeToChecking = 0,
     tx_StatusCodeChecking = [], tx_StatusSettlement = [], tx_TimeSettlement = 0,
     tx_ReasonReverseRefID = [], tx_ReverseRefID = [], tx_HasReversed = False,
     tx_VoucherID = [], tx_SubAccountID = [], tx_SubscriberMerchantID = [],
     tx_SubscriberMerchantTypeWallet = [], tx_LuckyMoneyID = [],
     tx_ProviderMerchantID = [], tx_FeeMerchantProvider = 0, tx_FeeSubscribeMerchant = 0,
     tx_DiscountOfMerchantProvider = 0, tx_DiscountForMerchantSubscriber = 0,
     tx_AccountVA = [], tx_BankCodeVA = [], tx_CustomerNameVA = [], tx_TimeSendVA = 0,
     tx_IdentityVANumber = [], tx_Channel = [], tx_AccountVAType = [],
     tx_TransactionSourceRefund = [], tx_FixedFeeAmount = 0, tx_RateFeeAmount = 0,
     tx_UserReceiveRefund = [], tx_AmountMerchantFeeReturn = 0,
     tx_IsAmountMerchantFeeReturn = False, tx_MerchantFeeMethod = []\<rparr>"

record Balances =
  bl_AmountAvailable :: int64
  bl_AmountFreeze :: int64

text \<open>Of a user profile, the fields the application reads.\<close>

record User =
  us_Id :: string
  us_KYC :: string
  us_HasEverLinkedBank :: bool
  us_Balances :: "Balances list"

definition User_zero :: User where
  "User_zero = \<lparr>us_Id = [], us_KYC = [], us_HasEverLinkedBank = False, us_Balances = []\<rparr>"

record TransactionDetail =
  td_Id :: string
  td_TransactionId :: string
  td_AppId :: string
  td_Currency :: string
  td_Message :: string
  td_State :: string
  td_Status :: string
  td_ServiceType :: string
  td_TransactionType :: string
  td_SubTransactionType :: string
  td_TypeWallet :: string
  td_Amount :: "64 word"
  td_LastAmount :: int64
  td_AmountFeeGpay :: int64
  td_DiscountAmount :: int64
  td_AmountMerchantFee :: int64
  td_AmountTransactionCashBack :: int64
  td_VoucherCode :: string
  td_Source :: string
  td_SourceOfFund :: string
  td_MerchantId :: string
  td_MerchantTransactionId :: string
  td_TransactionCashback :: string
  td_RefId :: string
  td_OrderId :: string
  td_DeviceId :: string
  td_PayerId :: string
  td_PayeeId :: string
  td_PayerStatusKyc :: bool
  td_PayerStatusLinkedBank :: bool
  td_PayeeStatusKyc :: bool
  td_PayeeStatusLinkedBank :: bool
  td_GpayAccountID :: string
  td_BankTransactionId :: string
  td_Napas :: bool
  td_BankCode :: string
  td_IbftType :: string
  td_CardNo :: string
  td_AccountNo :: string
  td_FailReason :: string
  td_ReturnCode :: string
  td_ReturnMessage :: string
  td_Exception :: string
  td_CreatedAt :: gotime
  td_UpdatedAt :: gotime
  td_DeletedAt :: gotime
  td_Type :: string
  td_FeeGpay :: int64
  td_AmountAfterAddVoucher :: int64
  td_AmountBeforeAddVoucher :: int64
  td_InvoiceId :: string
  td_TypeTransfer :: string
  td_PayerAmountBefore :: int64
  td_PayeeAmountBefore :: int64
  td_PayerAmountAfter :: int64
  td_PayeeAmountAfter :: int64
  td_UnUseWallet :: bool
  td_PartnerCode :: string
  td_WalletIdSrc :: string
  td_WalletIdDist :: string
  td_V :: int
  td_PaymentType :: string
  td_ProviderMerchantId :: string
  td_TransactionSourceRefund :: string
  td_UserReceiveRefund :: string
  td_MerchantCode :: string
  td_RedirectUrl :: string
  td_Payer :: User
  td_Payee :: User

definition TransactionDetail_zero :: TransactionDetail where
  "TransactionDetail_zero = \<lparr>td_Id = [], td_TransactionId = [], td_AppId = [], td_Currency = [], td_Message = [],
     td_State = [], td_Status = [], td_ServiceType = [], td_TransactionType = [],
     td_SubTransactionType = [], td_TypeWallet = [], td_Amount = 0, td_LastAmount = 0,
     td_AmountFeeGpay = 0, td_DiscountAmount = 0, td_AmountMerchantFee = 0,
     td_AmountTransactionCashBack = 0, td_VoucherCode = [], td_Source = [],
     td_SourceOfFund = [], td_MerchantId = [], td_MerchantTransactionId = [],
     td_TransactionCashback = [], td_RefId = [], td_OrderId = [], td_DeviceId = [],
     td_PayerId = [], td_PayeeId = [], td_PayerStatusKyc = False,
     td_PayerStatusLinkedBank = False, td_PayeeStatusKyc = False,
     td_PayeeStatusLinkedBank = False, td_GpayAccountID = [], td_BankTransactionId = [],
     td_Napas = False, td_BankCode = [], td_IbftType = [], td_CardNo = [],
     td_AccountNo = [], td_FailReason = [], td_ReturnCode = [], td_ReturnMessage = [],
     td_Exception = [], td_CreatedAt = zero_time, td_UpdatedAt = zero_time,
     td_DeletedAt = zero_time, td_Type = [], td_FeeGpay = 0, td_AmountAfterAddVoucher = 0,
     td_AmountBeforeAddVoucher = 0, td_InvoiceId = [], td_TypeTransfer = [],
     td_PayerAmountBefore = 0, td_PayeeAmountBefore = 0, td_PayerAmountAfter = 0,
     td_PayeeAmountAfter = 0, td_UnUseWallet = False, td_PartnerCode = [],
     td_WalletIdSrc = [], td_WalletIdDist = [], td_V = 0, td_PaymentType = [],
     td_ProviderMerchantId = [], td_TransactionSourceRefund = [],
     td_UserReceiveRefund = [], td_MerchantCode = [], td_RedirectUrl = [],
     td_Payer = User_zero, td_Payee = User_zero\<rparr>"

subsection \<open>Conversions of an order\<close>

text \<open>\<open>ptypes.TimestampProto\<close>: an error outside of the years 1 to 9999.\<close>

definition TimestampProto :: "gotime \<Rightarrow> gotime option" where
  "TimestampProto t =
     (if - 62135596800 * 1000000000 \<le> t \<and> t < 253402300800 * 1000000000 then Some t else None)"

definition ConvertToProto :: "OrderEntity \<Rightarrow> OrderProto" where
  "ConvertToProto e = OrderProto_zero\<lparr>
     op_OrderID := oe_OrderID e,
     op_ServiceID := oe_ServiceID e,
     op_UserID := oe_UserID e,
     op_TransactionID := oe_TransactionID e,
     op_OrderType := oe_OrderType e,
     op_SubOrderType := oe_SubOrderType e,
     op_SourceOfFund := oe_SourceOfFund e,
     op_Status := oe_Status e,
     op_VoucherCode := oe_VoucherCode e,
     op_DeviceID := oe_DeviceID e,
     op_MerchantFeeAmount := oe_MerchantFeeAmount e,
     op_RefID := oe_RefID e,
     op_Amount := oe_Amount e,
     op_IsExpired := oe_IsExpired e,
     op_SubcriberMerchantId := oe_SubscribeMerchantID e,
     op_RefundId := oe_RefundTransactionId e,
     op_Description := oe_Description e,
     op_CustomerId := oe_CustomerId e,
     op_Metadata := oe_Metadata e,
     op_GpayBankCode := oe_GPayBankCode e,
     op_CreatedAt := TimestampProto (oe_CreatedAt e),
     op_UpdatedAt := TimestampProto (oe_UpdatedAt e),
     op_DeletedAt := TimestampProto (oe_DeletedAt e),
     op_ExpiredAt := TimestampProto (oe_ExpiredAt e),
     op_SucceedAt := TimestampProto (oe_SucceedAt e)\<rparr>"

text \<open>A field of the request replaces the order's only when it is not zero; \<open>now\<close> is the clock.\<close>

definition ProtoToEntity :: "OrderRequest \<Rightarrow> gotime \<Rightarrow> OrderEntity \<Rightarrow> OrderEntity" where
  "ProtoToEntity in' now e =
     e\<lparr>oe_RefID := if rq_RefID in' \<noteq> [] then rq_RefID in' else oe_RefID e,
       oe_BankTransactionId :=
         if rq_BankTransactionId in' \<noteq> [] then rq_BankTransactionId in' else oe_BankTransactionId e,
       oe_Status := if rq_Status in' \<noteq> UNKNOWN then rq_Status in' else oe_Status e,
       oe_BankCode := if rq_BankCode in' \<noteq> [] then rq_BankCode in' else oe_BankCode e,
       oe_GPayBankCode := if rq_GPayBankCode in' \<noteq> [] then rq_GPayBankCode in' else oe_GPayBankCode e,
       oe_Napas := if rq_Napas in' then rq_Napas in' else oe_Napas e,
       oe_CustomerId := if rq_CustomerId in' \<noteq> [] then rq_CustomerId in' else oe_CustomerId e,
       oe_Metadata := if rq_Metadata in' \<noteq> [] then rq_Metadata in' else oe_Metadata e,
       oe_FailReason := if rq_FailReason in' \<noteq> [] then rq_FailReason in' else oe_FailReason e,
       oe_InternalErr := if rq_InternalErr in' \<noteq> [] then rq_InternalErr in' else oe_InternalErr e,
       oe_UpdatedAt := now\<rparr>"

text \<open>An update never touches what the customer pays, or who pays it.\<close>

lemma ProtoToEntity_frame:
  "oe_Amount (ProtoToEntity r now e) = oe_Amount e"
  "oe_OrderID (ProtoToEntity r now e) = oe_OrderID e"
  "oe_UserID (ProtoToEntity r now e) = oe_UserID e"
  "oe_SubscribeMerchantID (ProtoToEntity r now e) = oe_SubscribeMerchantID e"
  "oe_TransactionID (ProtoToEntity r now e) = oe_TransactionID e"
  by (simp_all add: ProtoToEntity_def)

lemma ConvertToProto_simps [simp]:
  "op_OrderID (ConvertToProto e) = oe_OrderID e"
  "op_Status (ConvertToProto e) = oe_Status e"
  "op_Amount (ConvertToProto e) = oe_Amount e"
  "op_TransactionID (ConvertToProto e) = oe_TransactionID e"
  by (simp_all add: ConvertToProto_def)

end
