(* ===== verification/Bank_Types.thy ===== *)
theory Bank_Types
  imports Entities
begin

text \<open>
  The messages of the bank gateway, \<open>domain/entities/bank_gateway\<close>.  The \<open>Data\<close> structs of the
  requests are the constructors of one datatype, with their fields in the order of the source;
  a request is the envelope that they all share.  The answers have one envelope too; their
  \<open>Data\<close> structs are flattened into one record, of which every operation decodes the fields of
  its own struct and leaves the others zero.
\<close>

record GPayUserInfo =
  gu_CustomerId :: string
  gu_Gender :: string
  gu_PhoneNumber :: string
  gu_FullName :: string
  gu_District :: string
  gu_City :: string
  gu_Email :: string
  gu_FirstName :: string
  gu_LastName :: string
  gu_Address :: string

record CustomerCardInfo =
  cc_CardNumber :: string
  cc_CardHolderName :: string
  cc_Cvv :: string
  cc_IssueDate :: string
  cc_ExpireDate :: string

record LinkRequestData =
  lr_GPayUserInfo :: GPayUserInfo
  lr_GpayTransactionId :: string
  lr_GpayUserId :: string
  lr_Channel :: string
  lr_ReturnUrl :: string
  lr_CancelUrl :: string
  lr_Amount :: int64
  lr_Description :: string
  lr_CustomerCardInfo :: CustomerCardInfo

record CreditPaymentRequestData =
  cp_CardNumber :: string
  cp_GpayTransactionId :: string
  cp_Amount :: string
  cp_ExpiryYear :: string
  cp_ExpiryMonth :: string
  cp_SecurityCode :: string
  cp_CardHolderName :: string
  cp_RedirectUrl :: string
  cp_GpayUserId :: string
  cp_Token :: string
  cp_Currency :: string
  cp_MerchantCode :: string
  cp_MCC :: string
  cp_MccType :: string

definition CreditPaymentRequestData_zero :: CreditPaymentRequestData where
  "CreditPaymentRequestData_zero = \<lparr>cp_CardNumber = [], cp_GpayTransactionId = [], cp_Amount = [],
     cp_ExpiryYear = [], cp_ExpiryMonth = [], cp_SecurityCode = [], cp_CardHolderName = [],
     cp_RedirectUrl = [], cp_GpayUserId = [], cp_Token = [], cp_Currency = [],
     cp_MerchantCode = [], cp_MCC = [], cp_MccType = []\<rparr>"

record CreateVARequestData =
  cv_AccountName :: string
  cv_AccountType :: string
  cv_AccountNumber :: string
  cv_ReferenceNumber :: string
  cv_Status :: string
  cv_MaxAmount :: string
  cv_MinAmount :: string
  cv_EqualAmount :: string

text \<open>
  \<open>CheckByPassOTPDataReq\<close> and \<open>CheckBankBin\<close> are sent without an envelope, and \<open>bank/active\<close>
  without a body: their envelope is \<open>BankReq_zero\<close>.
\<close>

datatype BankReqData =
    NoBody
  | VerifyOTPRequestData string int64 string string string string
  | LinkData LinkRequestData
  | UnLinkRequestData int64 string string
  | CashInDataRequest int64 string int64 string string string
  | NapasCashInDataRequest int64 string int64 string string string
  | LinkInfoRequestData int64 string
  | ListLinkRequestData string string
  | CashOutRequestData int64 string int64 string string string
  | IBFTInquiryCheckData string string string string
  | IBFTTransferReqData string string string string int64 string string string
  | BalanceCheckRequestData string string string
  | IBFTGpayBalanceCheckData string string string
  | CreditData CreditPaymentRequestData
  | CreateVAData CreateVARequestData
  | ReOpenVARequestData string string
  | CloseVARequestData string string
  | DetailVARequestData string
  | CheckBankBin string int string
  | PGInitTransReqData string string string string string
  | RefundReqData string string
  | CheckByPassOTPDataReq string string string string
  | JsonObject string

record BankReq =
  bq_Path :: string
  bq_Method :: string
  bq_ClientCode :: string
  bq_GPayBankCode :: string
  bq_TransTime :: int64
  bq_Data :: BankReqData
  bq_IpAddress :: string

definition BankReq_zero :: BankReq where
  "BankReq_zero = \<lparr>bq_Path = [], bq_Method = [], bq_ClientCode = [], bq_GPayBankCode = [],
     bq_TransTime = 0, bq_Data = NoBody, bq_IpAddress = []\<rparr>"

text \<open>One entry of the answer about a card number.\<close>

record BankBin =
  bb_CardType :: string
  bb_BankName :: string

text \<open>A link of the list of a user.\<close>

record ListLinked =
  ll_LinkID :: int64
  ll_CardNumber :: string
  ll_AccountNumber :: string
  ll_FullName :: string
  ll_GpayUserID :: string
  ll_PhoneNumber :: string
  ll_Provider :: string
  ll_BankCode :: string
  ll_Status :: string
  ll_GpayBankCode :: string
  ll_Logo :: string
  ll_BankPublishName :: string
  ll_UrlDirectLinkBank :: string
  ll_UrlDeposit :: string
  ll_BackgroundLarge :: string
  ll_BackgroundSmall :: string
  ll_FundingMethod :: string

definition ListLinked_zero :: ListLinked where
  "ListLinked_zero = \<lparr>ll_LinkID = 0, ll_CardNumber = [], ll_AccountNumber = [], ll_FullName = [], ll_GpayUserID = [],
     ll_PhoneNumber = [], ll_Provider = [], ll_BankCode = [], ll_Status = [], ll_GpayBankCode = [], ll_Logo = [],
     ll_BankPublishName = [], ll_UrlDirectLinkBank = [], ll_UrlDeposit = [], ll_BackgroundLarge = [], ll_BackgroundSmall = [],
     ll_FundingMethod = []\<rparr>"

record BankRes =
  br_ErrorCode :: BankGwStatus
  br_Message :: string
  br_BankTraceId :: string
  br_LinkID :: int64
  br_CardNumber :: string
  br_GpayUserID :: string
  br_BankCode :: string
  br_GpayBankCode :: string
  br_FundingMethod :: string
  br_BankTransactionId :: string
  br_Links :: "ListLinked list"
  br_Amount :: string
  br_FullName :: string
  br_RedirectURL :: string
  br_Bins :: "BankBin list"
  br_AccountNumber :: string
  br_AccountName :: string
  br_Status :: string
  br_ExpireDate :: string
  br_AccountType :: string
  br_Brand :: string
  br_AcsUrl :: string
  br_PaReq :: string
  br_Md :: string
  br_CallbackUrl :: string

definition BankRes_zero :: BankRes where
  "BankRes_zero = \<lparr>br_ErrorCode = [], br_Message = [], br_BankTraceId = [], br_LinkID = 0,
     br_CardNumber = [], br_GpayUserID = [], br_BankCode = [], br_GpayBankCode = [],
     br_FundingMethod = [], br_BankTransactionId = [], br_Links = [], br_Amount = [], br_FullName = [],
     br_RedirectURL = [], br_Bins = [], br_AccountNumber = [], br_AccountName = [],
     br_Status = [], br_ExpireDate = [], br_AccountType = [],
     br_Brand = [], br_AcsUrl = [], br_PaReq = [], br_Md = [], br_CallbackUrl = []\<rparr>"

definition CardType_IsCredit :: "string \<Rightarrow> bool" where
  "CardType_IsCredit cardType \<longleftrightarrow> cardType = ''CREDIT''"

definition CardType_IsDebit :: "string \<Rightarrow> bool" where
  "CardType_IsDebit cardType \<longleftrightarrow> cardType = ''DEBIT''"

text \<open>What the HTTP client returns: status, body (or the error of reading it), error of closing it.\<close>

record HttpResponse =
  StatusCode :: nat
  Body :: "goerror + string"
  CloseErr :: "goerror option"

end
