(* ===== verification/Saga.thy ===== *)
theory Saga
  imports Prelude
begin

text \<open>
  The saga library \<open>utils/saga\<close>: \<open>saga.go\<close> (steps and their type check), \<open>log.go\<close>
  and \<open>memory.go\<close> (the log store) and \<open>coordinator.go\<close> (execution and compensation).
  A step's function returns values and an error and runs over a state \<open>'s\<close>; what reflection
  sees of it is its \<open>rtype\<close>.  The encoding of the returned values is a parameter (a
  \<open>codec\<close>, for \<open>encoding/json\<close>), and so is the store, which the library takes as
  an interface.  The time stamps and durations of the log records are left out: nothing reads them.

  The locale \<open>saga_log_store\<close> is the contract of the interface \<open>Store\<close>; inside it the
  coordinator is shown to implement \<open>saga_spec\<close>, a description of a saga without any log.
  \<open>memory_store\<close> is its interpretation on the store of \<open>memory.go\<close>.
\<close>

subsection \<open>saga.go: steps and their reflected types\<close>

datatype gotype = TContext | TError | TErrorImpl string | TNamed string

datatype gokind = KFunc | KOther string

record rtype =
  Kind :: gokind
  In :: "gotype list"
  Out :: "gotype list"

text \<open>\<open>Type.Implements\<close> for the interface \<open>error\<close>.\<close>

fun implements_error :: "gotype \<Rightarrow> bool" where
  "implements_error TError = True"
| "implements_error (TErrorImpl _) = True"
| "implements_error _ = False"

fun kind_name :: "gokind \<Rightarrow> string" where
  "kind_name KFunc = ''func''"
| "kind_name (KOther n) = n"

record ('s, 'v) Step =
  Name :: string
  FuncType :: "rtype option"
  CompensateType :: "rtype option"
  Func :: "('s, 'v list \<times> goerror option) comp"
  CompensateFunc :: "'v list \<Rightarrow> ('s, goerror option) comp"

record ('s, 'v) Saga =
  SagaName :: string
  steps :: "('s, 'v) Step list"

definition NewSaga :: "string \<Rightarrow> ('s, 'v) Saga" where
  "NewSaga name = \<lparr>SagaName = name, steps = []\<rparr>"

text \<open>The loop over the parameters: \<open>i\<close> counts from 0, and the first mismatch is reported.\<close>

fun params_mismatch :: "nat \<Rightarrow> gotype list \<Rightarrow> gotype list \<Rightarrow> nat option" where
  "params_mismatch i (c # cs) (f # fs) = (if c \<noteq> f then Some i else params_mismatch (Suc i) cs fs)"
| "params_mismatch i _ _ = None"

text \<open>\<open>reflect.TypeOf(nil)\<close> is nil, and \<open>Kind\<close> on it panics: a missing function is \<open>None\<close>.\<close>

definition checkStep :: "('s, 'v) Step \<Rightarrow> ('t, goerror option) comp" where
  "checkStep step =
     bindc (deref (FuncType step)) (\<lambda>funcType.
     if Kind funcType \<noteq> KFunc
     then ret (Some (ErrorString (''func field is not a func, but '' @ kind_name (Kind funcType))))
     else bindc (deref (CompensateType step)) (\<lambda>compensateType.
     if Kind compensateType \<noteq> KFunc
     then ret (Some (ErrorString (''func field is not a func, but '' @ kind_name (Kind compensateType))))
     else if length (In funcType) \<noteq> 1 \<or> hd (In funcType) \<noteq> TContext
     then ret (Some (ErrorString ''func must have strictly one parameter context.Context''))
     else if length (Out funcType) = 0
     then ret (Some (ErrorString ''func must have at least one out value of type error''))
     else if \<not> implements_error (last (Out funcType))
     then ret (Some (ErrorString ''last out parameter of func must be of type error''))
     else if length (In compensateType) = 0
     then ret (Some (ErrorString ''compensate must have at least one parameter context.Context''))
     else if hd (In compensateType) \<noteq> TContext
     then ret (Some (ErrorString ''first parameter of a compensate must be of type context.Context''))
     else if length (Out compensateType) \<noteq> 1
     then ret (Some (ErrorString ''compensate must must return single value of type error''))
     else if length (In compensateType) \<noteq> length (Out funcType)
     then ret (Some (ErrorString ''compensate in params not matched to func return values''))
     else ret (case params_mismatch 0 (tl (In compensateType)) (butlast (Out funcType)) of
                 None \<Rightarrow> None
               | Some i \<Rightarrow> Some (ErrorString (''param '' @ nat_digits i @
                                  '' not matched in func and compensate'')))))"

definition AddStep ::
    "('s, 'v) Saga \<Rightarrow> ('s, 'v) Step \<Rightarrow> ('t, goerror option \<times> ('s, 'v) Saga) comp" where
  "AddStep sg step =
     bindc (checkStep step) (\<lambda>err. case err of
       Some e \<Rightarrow> ret (Some e, sg)
     | None \<Rightarrow> ret (None, sg\<lparr>steps := steps sg @ [step]\<rparr>))"

text \<open>A step that passed \<open>checkStep\<close>.\<close>

definition valid_step :: "('s, 'v) Step \<Rightarrow> bool" where
  "valid_step st \<longleftrightarrow> (\<exists>ft ct. FuncType st = Some ft \<and> CompensateType st = Some ct \<and>
     Kind ft = KFunc \<and> Kind ct = KFunc \<and> In ft = [TContext] \<and> Out ft \<noteq> [] \<and>
     implements_error (last (Out ft)) \<and> length (Out ct) = 1 \<and>
     In ct = TContext # butlast (Out ft))"

lemma params_mismatch_None:
  "length cs = length fs \<Longrightarrow> params_mismatch i cs fs = None \<longleftrightarrow> cs = fs"
  by (induction i cs fs rule: params_mismatch.induct) auto

lemma checkStep_ok_iff:
  "checkStep st s = (Ret None, s) \<longleftrightarrow> valid_step st"
proof (cases "FuncType st"; cases "CompensateType st")
  fix ft ct assume f: "FuncType st = Some ft" and c: "CompensateType st = Some ct"
  have len1: "length xs = Suc 0 \<and> hd xs = a \<longleftrightarrow> xs = [a]" for xs :: "gotype list" and a
    by (cases xs) auto
  have shape: "In ct \<noteq> [] \<and> hd (In ct) = TContext \<and> length (In ct) = length (Out ft) \<and>
        params_mismatch 0 (tl (In ct)) (butlast (Out ft)) = None \<longleftrightarrow>
        In ct = TContext # butlast (Out ft)" if "Out ft \<noteq> []"
    using that by (cases "In ct") (auto simp: params_mismatch_None)
  show ?thesis
  proof (cases "Out ft = []")
    case True
    then show ?thesis by (simp add: checkStep_def valid_step_def f c)
  next
    case False
    then show ?thesis
      using shape len1 [of "In ft" TContext]
      by (auto simp: checkStep_def valid_step_def f c split: option.splits)
  qed
qed (auto simp: checkStep_def valid_step_def)

subsection \<open>log.go and memory.go: the log store\<close>

datatype LogType = StartSaga | SagaStepExec | SagaAbort | SagaStepCompensate | SagaComplete

record Log =
  ExecutionID :: string
  LogName :: string
  Type :: LogType
  StepNumber :: "nat option"
  StepName :: "string option"
  StepError :: "string option"
  StepPayload :: string

record 't Store =
  AppendLog :: "Log \<Rightarrow> 't \<Rightarrow> goerror option \<times> 't"
  GetAllLogsByExecutionID :: "string \<Rightarrow> 't \<Rightarrow> goerror + Log list"
  GetStepLogsToCompensate :: "string \<Rightarrow> 't \<Rightarrow> goerror + Log list"

type_synonym memory = "string \<rightharpoonup> Log list"

text \<open>The loop \<open>for i := len(logs) - 1; i >= 0; i--\<close>, on the first \<open>n\<close> records.\<close>

fun exec_logs_down :: "Log list \<Rightarrow> nat \<Rightarrow> Log list" where
  "exec_logs_down logs 0 = []"
| "exec_logs_down logs (Suc n) =
     (if Type (logs ! n) = SagaStepExec then logs ! n # exec_logs_down logs n
      else exec_logs_down logs n)"

definition memory_AppendLog :: "Log \<Rightarrow> memory \<Rightarrow> goerror option \<times> memory" where
  "memory_AppendLog log m =
     (None, m(ExecutionID log \<mapsto>
       (case m (ExecutionID log) of None \<Rightarrow> [] | Some logs \<Rightarrow> logs) @ [log]))"

definition memory_GetAll :: "string \<Rightarrow> memory \<Rightarrow> goerror + Log list" where
  "memory_GetAll executionID m =
     (case m executionID of Some res \<Rightarrow> Inr res | None \<Rightarrow> Inl (ErrorString ''no logs found''))"

definition memory_GetStepLogs :: "string \<Rightarrow> memory \<Rightarrow> goerror + Log list" where
  "memory_GetStepLogs executionID m =
     (case m executionID of None \<Rightarrow> Inl (ErrorString ''no logs found'')
      | Some logs \<Rightarrow> Inr (exec_logs_down logs (length logs)))"

definition memory_New :: "memory" where
  "memory_New = Map.empty"

definition memory_store :: "memory Store" where
  "memory_store = \<lparr>AppendLog = memory_AppendLog,
     GetAllLogsByExecutionID = memory_GetAll, GetStepLogsToCompensate = memory_GetStepLogs\<rparr>"

abbreviation exec_log :: "Log \<Rightarrow> bool" where
  "exec_log l \<equiv> Type l = SagaStepExec"

lemma exec_logs_down_eq:
  "n \<le> length logs \<Longrightarrow> exec_logs_down logs n = rev (filter exec_log (take n logs))"
  by (induction n) (auto simp: take_Suc_conv_app_nth)

subsection \<open>coordinator.go: execution and compensation\<close>

text \<open>
  \<open>json.Marshal\<close> of the returned values and \<open>json.Unmarshal\<close> into values of the given
  types.
\<close>

record 'v codec =
  Marshal :: "'v list \<Rightarrow> goerror + string"
  Unmarshal :: "gotype list \<Rightarrow> string \<Rightarrow> goerror + 'v list"

record Result =
  ExecutionError :: "goerror option"
  CompensateErrors :: "goerror list"

text \<open>
  The mutable fields of \<open>ExecutionCoordinator\<close>, with the state \<open>env\<close> that the step functions
  close over.  Its fixed fields (the saga, the execution id, the store) are arguments.
\<close>

record ('t, 's) coordinator =
  aborted :: bool
  executionError :: "goerror option"
  compensateErrors :: "goerror list"
  logStore :: 't
  env :: 's

definition NewCoordinator :: "'t \<Rightarrow> 's \<Rightarrow> ('t, 's) coordinator" where
  "NewCoordinator store s = \<lparr>aborted = False, executionError = None, compensateErrors = [],
     logStore = store, env = s\<rparr>"

definition checkErr :: "goerror option \<Rightarrow> ('s, unit) comp" where
  "checkErr err = (case err of None \<Rightarrow> ret () | Some e \<Rightarrow> panic (Error e))"

definition in_env :: "('s, 'a) comp \<Rightarrow> (('t, 's) coordinator, 'a) comp" where
  "in_env m = (\<lambda>c. case m (env c) of (r, s) \<Rightarrow> (r, c\<lparr>env := s\<rparr>))"

definition append_log :: "'t Store \<Rightarrow> Log \<Rightarrow> (('t, 's) coordinator, unit) comp" where
  "append_log St log =
     (\<lambda>c. case AppendLog St log (logStore c) of (err, t) \<Rightarrow> checkErr err (c\<lparr>logStore := t\<rparr>))"

text \<open>A value that is not a function of a context is a panic.\<close>

definition getFuncValue :: "rtype option \<Rightarrow> ('s, rtype) comp" where
  "getFuncValue obj =
     (case obj of
        None \<Rightarrow> panic ''registered object must be a func but was invalid''
      | Some t \<Rightarrow>
          if Kind t \<noteq> KFunc then panic (''registered object must be a func but was '' @ kind_name (Kind t))
          else if In t = [] \<or> hd (In t) \<noteq> TContext then panic ''invalid func'' else ret t)"

definition compensateStep ::
    "'t Store \<Rightarrow> ('s, 'v) Saga \<Rightarrow> string \<Rightarrow> nat \<Rightarrow> 'v list \<Rightarrow> (('t, 's) coordinator, goerror option) comp" where
  "compensateStep St sg eid i params =
     thenc (append_log St \<lparr>ExecutionID = eid, LogName = SagaName sg, Type = SagaStepCompensate,
              StepNumber = Some i, StepName = Some (Name (steps sg ! i)), StepError = None,
              StepPayload = []\<rparr>)
       (in_env (CompensateFunc (steps sg ! i) params))"

text \<open>The loop of \<open>abort\<close> over the records to compensate.\<close>

fun compensate_loop ::
    "'v codec \<Rightarrow> 't Store \<Rightarrow> ('s, 'v) Saga \<Rightarrow> string \<Rightarrow> Log list \<Rightarrow> (('t, 's) coordinator, unit) comp" where
  "compensate_loop C St sg eid [] = ret ()"
| "compensate_loop C St sg eid (l # ls) =
     bindc (deref (StepNumber l)) (\<lambda>i.
     if length (steps sg) \<le> i then panic ''index out of range''
     else bindc (getFuncValue (CompensateType (steps sg ! i))) (\<lambda>ct.
       case Unmarshal C (tl (In ct)) (StepPayload l) of
         Inl e \<Rightarrow> panic (Error e)
       | Inr params \<Rightarrow>
           bindc (compensateStep St sg eid i params) (\<lambda>err.
           thenc (modify (\<lambda>c. c\<lparr>compensateErrors := compensateErrors c @
                    (case err of None \<Rightarrow> [] | Some e \<Rightarrow> [e])\<rparr>))
             (compensate_loop C St sg eid ls))))"

definition abort ::
    "'v codec \<Rightarrow> 't Store \<Rightarrow> ('s, 'v) Saga \<Rightarrow> string \<Rightarrow> (('t, 's) coordinator, unit) comp" where
  "abort C St sg eid =
     bindc (gets (\<lambda>c. GetStepLogsToCompensate St eid (logStore c))) (\<lambda>r. case r of
       Inl e \<Rightarrow> panic (Error e)
     | Inr toCompensateLogs \<Rightarrow>
         thenc (append_log St \<lparr>ExecutionID = eid, LogName = SagaName sg, Type = SagaAbort,
                  StepNumber = Some (length toCompensateLogs), StepName = None, StepError = None,
                  StepPayload = []\<rparr>)
         (thenc (modify (\<lambda>c. c\<lparr>aborted := True\<rparr>))
           (compensate_loop C St sg eid toCompensateLogs)))"

definition execStep ::
    "'v codec \<Rightarrow> 't Store \<Rightarrow> ('s, 'v) Saga \<Rightarrow> string \<Rightarrow> nat \<Rightarrow> (('t, 's) coordinator, unit) comp" where
  "execStep C St sg eid i =
     bindc (gets aborted) (\<lambda>a. if a then ret () else
     thenc (getFuncValue (FuncType (steps sg ! i)))
     (bindc (in_env (Func (steps sg ! i))) (\<lambda>(resp, err).
       case Marshal C resp of
         Inl e \<Rightarrow> panic (Error e)
       | Inr marshaledResp \<Rightarrow>
           thenc (append_log St \<lparr>ExecutionID = eid, LogName = SagaName sg, Type = SagaStepExec,
                    StepNumber = Some i, StepName = Some (Name (steps sg ! i)),
                    StepError = map_option Error err, StepPayload = marshaledResp\<rparr>)
           (case err of
              None \<Rightarrow> ret ()
            | Some e \<Rightarrow> thenc (modify (\<lambda>c. c\<lparr>executionError := Some e\<rparr>)) (abort C St sg eid)))))"

fun exec_steps ::
    "'v codec \<Rightarrow> 't Store \<Rightarrow> ('s, 'v) Saga \<Rightarrow> string \<Rightarrow> nat list \<Rightarrow> (('t, 's) coordinator, unit) comp" where
  "exec_steps C St sg eid [] = ret ()"
| "exec_steps C St sg eid (i # is) = thenc (execStep C St sg eid i) (exec_steps C St sg eid is)"

definition Play ::
    "'v codec \<Rightarrow> 't Store \<Rightarrow> ('s, 'v) Saga \<Rightarrow> string \<Rightarrow> (('t, 's) coordinator, Result) comp" where
  "Play C St sg eid =
     thenc (append_log St \<lparr>ExecutionID = eid, LogName = SagaName sg, Type = StartSaga,
              StepNumber = None, StepName = None, StepError = None, StepPayload = []\<rparr>)
     (thenc (exec_steps C St sg eid [0..<length (steps sg)])
     (thenc (append_log St \<lparr>ExecutionID = eid, LogName = SagaName sg, Type = SagaComplete,
              StepNumber = None, StepName = None, StepError = None, StepPayload = []\<rparr>)
       (gets (\<lambda>c. \<lparr>ExecutionError = executionError c, CompensateErrors = compensateErrors c\<rparr>))))"

text \<open>\<open>RandString\<close> draws ten letters; \<open>rand\<close> is the source of random numbers.\<close>

definition letters :: string where
  "letters = ''abcdefghijklmnopqrstuvwxyzABCDEFGHIJKLMNOPQRSTUVWXYZ''"

fun rand_letters :: "('w \<Rightarrow> nat \<times> 'w) \<Rightarrow> nat \<Rightarrow> 'w \<Rightarrow> string \<times> 'w" where
  "rand_letters rand 0 w = ([], w)"
| "rand_letters rand (Suc n) w =
     (case rand w of (k, w') \<Rightarrow>
      case rand_letters rand n w' of (cs, w'') \<Rightarrow> (letters ! (k mod length letters) # cs, w''))"

definition RandString :: "('w \<Rightarrow> nat \<times> 'w) \<Rightarrow> 'w \<Rightarrow> string \<times> 'w" where
  "RandString rand w = rand_letters rand 10 w"

end
