(* ===== verification/Saga_Spec.thy ===== *)
theory Saga_Spec
  imports Saga
begin

text \<open>
  What a saga promises, without any log: run the steps in order; at the first error run the
  compensations of the failing step and of all steps before it, newest first, collect their errors
  and report the first error.  The coordinator of \<open>coordinator.go\<close> implements this over any
  store that satisfies the contract \<open>saga_log_store\<close>, provided that the execution id is fresh.
\<close>

fun undo :: "(('s, 'v) Step \<times> 'v list) list \<Rightarrow> ('s, goerror list) comp" where
  "undo [] = ret []"
| "undo ((st, vs) # ds) =
     bindc (CompensateFunc st vs) (\<lambda>err.
     bindc (undo ds) (\<lambda>es. ret ((case err of None \<Rightarrow> [] | Some e \<Rightarrow> [e]) @ es)))"

fun saga_spec ::
    "('s, 'v) Step list \<Rightarrow> (('s, 'v) Step \<times> 'v list) list \<Rightarrow> ('s, Result) comp" where
  "saga_spec [] ds = ret \<lparr>ExecutionError = None, CompensateErrors = []\<rparr>"
| "saga_spec (st # sts) ds =
     bindc (Func st) (\<lambda>(vs, err). case err of
       None \<Rightarrow> saga_spec sts ((st, vs) # ds)
     | Some e \<Rightarrow>
         bindc (undo ((st, vs) # ds)) (\<lambda>es. ret \<lparr>ExecutionError = Some e, CompensateErrors = es\<rparr>))"

text \<open>The values a step returns survive the encoding.\<close>

definition payload_ok :: "'v codec \<Rightarrow> ('s, 'v) Step \<Rightarrow> 'v list \<Rightarrow> bool" where
  "payload_ok C st vs \<longleftrightarrow> (\<exists>p. Marshal C vs = Inr p \<and>
     Unmarshal C (tl (In (the (CompensateType st)))) p = Inr vs)"

definition encodable :: "'v codec \<Rightarrow> ('s, 'v) Step \<Rightarrow> bool" where
  "encodable C st \<longleftrightarrow> (\<forall>s vs err s'. Func st s = (Ret (vs, err), s') \<longrightarrow> payload_ok C st vs)"

lemma encodableD:
  assumes "encodable C st" and "Func st s = (Ret (vs, err), s')"
  obtains p where "Marshal C vs = Inr p"
    and "Unmarshal C (tl (In (the (CompensateType st)))) p = Inr vs"
  using assms unfolding encodable_def payload_ok_def by blast

text \<open>What the clients of a coordinator see of its final state.\<close>

definition seen :: "unit outcome \<times> ('t, 's) coordinator \<Rightarrow> Result outcome \<times> 's" where
  "seen p = (case p of
     (Ret _, c) \<Rightarrow> (Ret \<lparr>ExecutionError = executionError c, CompensateErrors = compensateErrors c\<rparr>, env c)
   | (Panic e, c) \<Rightarrow> (Panic e, env c))"

lemma getFuncValue_valid [simp]:
  assumes "valid_step st"
  shows "getFuncValue (FuncType st) = ret (the (FuncType st))"
    and "getFuncValue (CompensateType st) = ret (the (CompensateType st))"
  using assms by (auto simp: valid_step_def getFuncValue_def)

text \<open>The contract of the interface \<open>Store\<close>: \<open>logs\<close> abstracts a store to its records.\<close>

locale saga_log_store =
  fixes St :: "'t Store"
    and logs :: "'t \<Rightarrow> string \<Rightarrow> Log list"
  assumes append_ok: "fst (AppendLog St l t) = None"
    and logs_append: "logs (snd (AppendLog St l t)) eid =
          (if eid = ExecutionID l then logs t eid @ [l] else logs t eid)"
    and step_logs: "logs t eid \<noteq> [] \<Longrightarrow>
          GetStepLogsToCompensate St eid t = Inr (rev (filter exec_log (logs t eid)))"
begin

lemma append_log_eq:
  "append_log St l c = (Ret (), c\<lparr>logStore := snd (AppendLog St l (logStore c))\<rparr>)"
  using append_ok [of l "logStore c"]
  by (auto simp: append_log_def checkErr_def split: prod.splits)

text \<open>A record that stands for an executed step and the values it returned.\<close>

definition log_of :: "'v codec \<Rightarrow> ('s, 'v) Saga \<Rightarrow> Log \<Rightarrow> ('s, 'v) Step \<times> 'v list \<Rightarrow> bool" where
  "log_of C sg l d \<longleftrightarrow> (\<exists>i. StepNumber l = Some i \<and> i < length (steps sg) \<and>
     fst d = steps sg ! i \<and> valid_step (fst d) \<and>
     Unmarshal C (tl (In (the (CompensateType (fst d))))) (StepPayload l) = Inr (snd d))"

lemma compensate_loop_spec:
  assumes "list_all2 (log_of C sg) ls ds"
  shows "case compensate_loop C St sg eid ls c of
      (Ret _, c') \<Rightarrow> aborted c' = aborted c \<and> executionError c' = executionError c \<and>
          (\<exists>es. undo ds (env c) = (Ret es, env c') \<and> compensateErrors c' = compensateErrors c @ es)
    | (Panic e, c') \<Rightarrow> undo ds (env c) = (Panic e, env c')"
  using assms
proof (induction ls ds arbitrary: c rule: list_all2_induct)
  case Nil
  then show ?case by simp
next
  case (Cons l ls d ds)
  obtain st vs where d: "d = (st, vs)" by (cases d)
  from Cons.hyps(1) obtain i where i: "StepNumber l = Some i" "i < length (steps sg)"
      "steps sg ! i = st" "valid_step st"
      "Unmarshal C (tl (In (the (CompensateType st)))) (StepPayload l) = Inr vs"
    by (auto simp: log_of_def d)
  obtain r s' where run: "CompensateFunc st vs (env c) = (r, s')"
    by (cases "CompensateFunc st vs (env c)")
  show ?case
  proof (cases r)
    case (Panic e)
    then show ?thesis
      using i run by (simp add: d bindc_def compensateStep_def append_log_eq in_env_def)
  next
    case (Ret err)
    define c1 where "c1 = c\<lparr>logStore := snd (AppendLog St \<lparr>ExecutionID = eid,
       LogName = SagaName sg, Type = SagaStepCompensate, StepNumber = Some i,
       StepName = Some (Name st), StepError = None, StepPayload = []\<rparr> (logStore c)),
       env := s', compensateErrors := compensateErrors c @ (case err of None \<Rightarrow> [] | Some e \<Rightarrow> [e])\<rparr>"
    have step: "compensate_loop C St sg eid (l # ls) c = compensate_loop C St sg eid ls c1"
      using i run Ret by (simp add: bindc_def compensateStep_def append_log_eq in_env_def c1_def)
    have c1: "env c1 = s'" "aborted c1 = aborted c" "executionError c1 = executionError c"
       "compensateErrors c1 = compensateErrors c @ (case err of None \<Rightarrow> [] | Some e \<Rightarrow> [e])"
      by (simp_all add: c1_def)
    from Cons.IH [of c1] show ?thesis
      unfolding step using run Ret
      by (auto simp: d c1 bindc_def split: prod.splits outcome.splits)
  qed
qed

lemma exec_steps_aborted: "aborted c \<Longrightarrow> exec_steps C St sg eid is c = (Ret (), c)"
  by (induction "is") (simp_all add: bindc_def execStep_def)

text \<open>The coordinator between two steps, when no step has failed yet.\<close>

definition running :: "'v codec \<Rightarrow> ('s, 'v) Saga \<Rightarrow> string \<Rightarrow> (('s, 'v) Step \<times> 'v list) list \<Rightarrow>
    ('t, 's) coordinator \<Rightarrow> bool" where
  "running C sg eid ds c \<longleftrightarrow> \<not> aborted c \<and> executionError c = None \<and> compensateErrors c = [] \<and>
     logs (logStore c) eid \<noteq> [] \<and>
     list_all2 (log_of C sg) (rev (filter exec_log (logs (logStore c) eid))) ds"

lemma exec_fail:
  assumes run: "running C sg eid ds c" and i: "i < length (steps sg)"
    and st: "valid_step (steps sg ! i)" "encodable C (steps sg ! i)"
    and f: "Func (steps sg ! i) (env c) = (Ret (vs, Some e), s')"
  shows "seen (exec_steps C St sg eid (i # is) c) =
    (case undo ((steps sg ! i, vs) # ds) s' of
       (Ret es, s'') \<Rightarrow> (Ret \<lparr>ExecutionError = Some e, CompensateErrors = es\<rparr>, s'')
     | (Panic m, s'') \<Rightarrow> (Panic m, s''))"
proof -
  from st(2) f obtain p where p: "Marshal C vs = Inr p"
      "Unmarshal C (tl (In (the (CompensateType (steps sg ! i))))) p = Inr vs"
    by (rule encodableD)
  define l where "l = \<lparr>ExecutionID = eid, LogName = SagaName sg, Type = SagaStepExec,
      StepNumber = Some i, StepName = Some (Name (steps sg ! i)),
      StepError = Some (Error e), StepPayload = p\<rparr>"
  define t where "t = snd (AppendLog St l (logStore c))"
  have lt: "logs t eid = logs (logStore c) eid @ [l]"
    by (simp add: t_def logs_append l_def)
  define ls where "ls = rev (filter exec_log (logs t eid))"
  have ls: "list_all2 (log_of C sg) ls ((steps sg ! i, vs) # ds)"
    using run i st(1) p(2) by (auto simp: ls_def lt running_def l_def log_of_def)
  define c1 where "c1 = c\<lparr>env := s', logStore := t, executionError := Some e,
      logStore := snd (AppendLog St \<lparr>ExecutionID = eid, LogName = SagaName sg, Type = SagaAbort,
        StepNumber = Some (length ls), StepName = None, StepError = None, StepPayload = []\<rparr> t),
      aborted := True\<rparr>"
  have c1: "env c1 = s'" "executionError c1 = Some e" "aborted c1" "compensateErrors c1 = []"
    using run by (simp_all add: c1_def running_def)
  have get: "GetStepLogsToCompensate St eid t = Inr ls"
    using step_logs [of t eid] lt by (simp add: ls_def)
  have ex: "execStep C St sg eid i c = compensate_loop C St sg eid ls c1"
    using run st(1) f p(1) get
    by (simp add: execStep_def bindc_def in_env_def append_log_eq abort_def running_def c1_def
        l_def [symmetric] t_def [symmetric])
  show ?thesis
    using compensate_loop_spec [OF ls, where eid = eid and c = c1] exec_steps_aborted [of _ C sg eid "is"]
    by (auto simp: ex bindc_def seen_def c1 split: prod.splits outcome.splits)
qed

lemma exec_ok:
  assumes run: "running C sg eid ds c" and i: "i < length (steps sg)"
    and st: "valid_step (steps sg ! i)" "encodable C (steps sg ! i)"
    and f: "Func (steps sg ! i) (env c) = (Ret (vs, None), s')"
  shows "\<exists>c'. execStep C St sg eid i c = (Ret (), c') \<and> env c' = s' \<and>
     running C sg eid ((steps sg ! i, vs) # ds) c'"
proof -
  from st(2) f obtain p where p: "Marshal C vs = Inr p"
      "Unmarshal C (tl (In (the (CompensateType (steps sg ! i))))) p = Inr vs"
    by (rule encodableD)
  let ?l = "\<lparr>ExecutionID = eid, LogName = SagaName sg, Type = SagaStepExec,
      StepNumber = Some i, StepName = Some (Name (steps sg ! i)),
      StepError = None, StepPayload = p\<rparr>"
  let ?c = "c\<lparr>env := s', logStore := snd (AppendLog St ?l (logStore c))\<rparr>"
  have "execStep C St sg eid i c = (Ret (), ?c)"
    using run st(1) f p(1)
    by (simp add: execStep_def bindc_def in_env_def append_log_eq running_def)
  moreover have "running C sg eid ((steps sg ! i, vs) # ds) ?c"
    using run i st(1) p(2) by (auto simp: running_def logs_append log_of_def)
  ultimately show ?thesis by auto
qed

lemma exec_steps_spec:
  assumes "running C sg eid ds c" and "i \<le> length (steps sg)"
    and "\<And>st. st \<in> set (steps sg) \<Longrightarrow> valid_step st \<and> encodable C st"
  shows "seen (exec_steps C St sg eid [i..<length (steps sg)] c) =
      saga_spec (drop i (steps sg)) ds (env c)"
  using assms(1,2)
proof (induction "length (steps sg) - i" arbitrary: i c ds)
  case 0
  then show ?case by (simp add: seen_def running_def)
next
  case (Suc n)
  then have i: "i < length (steps sg)" by simp
  let ?st = "steps sg ! i"
  have st: "valid_step ?st" "encodable C ?st" using assms(3) i by auto
  have up: "[i..<length (steps sg)] = i # [Suc i..<length (steps sg)]" using i by (rule upt_conv_Cons)
  have dr: "drop i (steps sg) = ?st # drop (Suc i) (steps sg)" using i by (rule Cons_nth_drop_Suc [symmetric])
  obtain r s' where f: "Func ?st (env c) = (r, s')" by (cases "Func ?st (env c)")
  consider (panic) e where "r = Panic e" | (err) vs e where "r = Ret (vs, Some e)"
    | (ok) vs where "r = Ret (vs, None)"
    by (metis option.exhaust outcome.exhaust surj_pair)
  then show ?case
  proof cases
    case panic
    then show ?thesis using Suc.prems st f
      by (simp add: up dr execStep_def bindc_def in_env_def running_def seen_def)
  next
    case err
    then show ?thesis using exec_fail [OF Suc.prems(1) i st] f
      unfolding up dr by (simp add: bindc_def split: prod.splits outcome.splits)
  next
    case ok
    with exec_ok [OF Suc.prems(1) i st] f obtain c' where
      "execStep C St sg eid i c = (Ret (), c')" "env c' = s'"
      "running C sg eid ((?st, vs) # ds) c'" by metis
    with Suc.hyps(1) [of "Suc i" "(?st, vs) # ds" c'] Suc.hyps(2) i ok f show ?thesis
      unfolding up dr by (simp add: bindc_def)
  qed
qed

theorem Play_refines:
  assumes "\<And>st. st \<in> set (steps sg) \<Longrightarrow> valid_step st \<and> encodable C st"
    and "logs t eid = []"
  shows "(case Play C St sg eid (NewCoordinator t s) of (r, c) \<Rightarrow> (r, env c)) =
      saga_spec (steps sg) [] s"
proof -
  let ?l = "\<lparr>ExecutionID = eid, LogName = SagaName sg, Type = StartSaga,
              StepNumber = None, StepName = None, StepError = None, StepPayload = []\<rparr>"
  define c where "c = NewCoordinator (snd (AppendLog St ?l t)) s"
  have "append_log St ?l (NewCoordinator t s) = (Ret (), c)"
    by (simp add: append_log_eq c_def NewCoordinator_def)
  moreover have "running C sg eid [] c"
    using assms(2) by (simp add: running_def c_def NewCoordinator_def logs_append)
  moreover have "env c = s" by (simp add: c_def NewCoordinator_def)
  ultimately show ?thesis
    using exec_steps_spec [of C sg eid "[]" c 0] assms(1)
    by (auto simp: Play_def bindc_def append_log_eq seen_def split: prod.splits outcome.splits)
qed

end

text \<open>The store of \<open>memory.go\<close> keeps the contract.\<close>

definition memory_logs :: "memory \<Rightarrow> string \<Rightarrow> Log list" where
  "memory_logs m eid = (case m eid of None \<Rightarrow> [] | Some ls \<Rightarrow> ls)"

interpretation memory_log: saga_log_store memory_store memory_logs
proof unfold_locales
  fix l :: Log and t :: memory and eid :: string
  show "fst (AppendLog memory_store l t) = None"
    by (simp add: memory_store_def memory_AppendLog_def)
  show "memory_logs (snd (AppendLog memory_store l t)) eid =
      (if eid = ExecutionID l then memory_logs t eid @ [l] else memory_logs t eid)"
    by (simp add: memory_store_def memory_AppendLog_def memory_logs_def)
  assume "memory_logs t eid \<noteq> []"
  then show "GetStepLogsToCompensate memory_store eid t = Inr (rev (filter exec_log (memory_logs t eid)))"
    by (auto simp: memory_store_def memory_GetStepLogs_def memory_logs_def exec_logs_down_eq
        split: option.splits)
qed

end
