(* ===== verification/World.thy ===== *)
theory World
  imports Bank_Types Saga_Spec
begin

text \<open>
  The environment of the application.  Everything that is not part of this repository -- the
  MongoDB server, the transaction, user, promotion, fee and card services behind gRPC, the bank
  gateway behind HTTP, the MQTT broker, the clock and the random source -- is a field of
  \<open>services\<close>: a function over an arbitrary world \<open>'w\<close>, about which nothing is assumed.
  An answer of a gRPC client is \<open>Inl\<close> of an error (with a nil message) or \<open>Inr\<close> of a message,
  as the generated clients return them.

  \<open>'w st\<close> is the state of one request: the world, the trace of the calls that change something
  outside, the saga log, and the variables that the step closures of the orchestrators share.
\<close>

subsection \<open>Messages of the other services\<close>

record QuotaReq =
  qr_Amount :: int64
  qr_MerchantId :: string
  qr_UserId :: string
  qr_ServiceType :: string
  qr_TransType :: string
  qr_SubTransType :: string
  qr_SourceOfFund :: string
  qr_IsVerify :: bool
  qr_IsLinkedBank :: bool
  qr_ServiceCode :: string
  qr_VoucherCode :: string

record QuotaRes =
  qs_FeeAmount :: int64
  qs_DiscountAmount :: int64

datatype VAType = VA_OPTIONAL | VA_ONETIME | VA_MANYTIME

datatype FeeMethod = FEE_NOW | FEE_LATER | FEE_END_PERIOD

fun FeeMethod_String :: "FeeMethod \<Rightarrow> string" where
  "FeeMethod_String FEE_NOW = ''FEE_NOW''"
| "FeeMethod_String FEE_LATER = ''FEE_LATER''"
| "FeeMethod_String FEE_END_PERIOD = ''FEE_END_PERIOD''"

record MerchantFeeReq =
  mr_Amount :: int64
  mr_ServiceType :: string
  mr_TransType :: string
  mr_SubTransType :: string
  mr_MerchantId :: string
  mr_SourceOfFund :: string
  mr_VaType :: VAType

record MerchantFeeRes =
  ms_FeeAmount :: int64
  ms_FeeMethod :: FeeMethod
  ms_FixedFeeAmount :: int64
  ms_RateFeeAmount :: int64

record UseVoucherRequest =
  uv_Code :: string
  uv_UserId :: string
  uv_TraceId :: string
  uv_Total :: int64
  uv_Amount :: int64
  uv_ServiceCode :: string
  uv_CurrentBalance :: int64
  uv_SourceOfFund :: string

text \<open>\<open>uvr_VoucherId\<close> is \<open>Voucher.Voucher.Id\<close>, \<open>None\<close> when a pointer on the way is nil.\<close>

record UseVoucherResponse =
  uvr_VoucherId :: "string option"
  uvr_DiscountAmount :: int64

record TopupReq =
  tu_Price :: int64
  tu_Telco :: string
  tu_Phone :: string
  tu_UserId :: string
  tu_OrderId :: string
  tu_SubTransType :: string
  tu_TransactionId :: string

record TopupRes =
  tur_Status :: string
  tur_ProviderMerchantId :: string

record CardObjDTO =
  co_Provider :: string
  co_CardNumber :: string
  co_Serial :: string
  co_Price :: string
  co_NameCard :: string
  co_PackageData :: string
  co_Period :: string

record BuyCardReq =
  bc_Price :: int64
  bc_Telco :: string
  bc_Quantity :: int64
  bc_UserId :: string
  bc_OrderId :: string
  bc_TransactionId :: string

record BuyCardRes =
  bcr_Status :: string
  bcr_Cards :: "CardObjDTO list"
  bcr_CardType :: string
  bcr_ProviderMerchant :: string
  bcr_ProviderMerchantId :: string

record PaidBillReq =
  pb_Amount :: int64
  pb_ServiceCode :: string
  pb_CustomerReference :: string
  pb_OrderId :: string
  pb_UserId :: string
  pb_SubTransType :: string
  pb_AreaCode :: string
  pb_TransactionId :: string

record PaidBillRes =
  pbr_Status :: string
  pbr_ProviderMerchantId :: string

record VendorDTO =
  vn_Name :: string
  vn_Type :: string

record InvoiceAttribute =
  ia_InvoiceId :: int64
  ia_InvoiceAttributeTypeId :: string
  ia_Value :: string
  ia_Created :: string

record InvoiceDTO =
  iv_TransactionId :: string
  iv_TransactionDate :: string
  iv_Message :: string
  iv_IsPartialPaymentAllowed :: bool
  iv_Paid :: bool
  iv_Amount :: int64
  iv_InvoiceReference :: string
  iv_BillingCode :: string
  iv_ServiceCode :: string
  iv_InvoiceAttributes :: "InvoiceAttribute list"
  iv_ProviderName :: string

record InvoiceCheckReq =
  ic_ServiceCode :: string
  ic_CustomerReference :: string
  ic_SubTransType :: string
  ic_AreaCode :: string

record InvoiceCheckRes =
  icr_Status :: string
  icr_Invoice :: "InvoiceDTO option"

record VendorDiscountReq =
  vd_Amount :: int64
  vd_ServiceType :: string
  vd_TransType :: string
  vd_SubTransType :: string
  vd_MerchantId :: string
  vd_Provider :: string
  vd_CardName :: string
  vd_CardType :: string

record VendorDiscountRes =
  vdr_MerchantDiscountAmount :: int64
  vdr_VendorDiscountAmount :: int64

datatype RefundType = RT_UNKNOWN | RT_INDIRECT | RT_API

record RefundReq =
  rf_SourceTransactionId :: string
  rf_Amount :: int64
  rf_Reason :: string
  rf_IgnoreFee :: bool
  rf_IgnorePromotion :: bool
  rf_Note :: string
  rf_TypeRefund :: RefundType
  rf_CreateByAdmin :: string
  rf_MerchantId :: string
  rf_BankTransactionId :: string
  rf_RefMerchantRefund :: string

record ConfirmRefundReq =
  cr_RefundId :: string
  cr_BankTransactionId :: string
  cr_IgnoreFee :: bool
  cr_IgnorePromotion :: bool
  cr_ConfirmByAdmin :: string
  cr_TypeRefund :: RefundType
  cr_RefMerchantRefund :: string

record MerchantAccount =
  ma_AmountRevenue :: int64
  ma_AmountCash :: int64

subsection \<open>Virtual accounts, configuration, lucky money and fraud\<close>

text \<open>\<open>entities.VirtualAccounts\<close>, and the fields that the updates of the collection set.\<close>

record VirtualAccounts =
  va_Id :: string
  va_Status :: string
  va_Provider :: string
  va_Balance :: int64
  va_AccountNumber :: string
  va_AccountName :: string
  va_AccountType :: string
  va_BankCode :: string
  va_ExpiredDate :: string
  va_CreatedAt :: gotime
  va_UpdatedAt :: gotime
  va_MerchantId :: string
  va_MerchantCode :: string
  va_MapId :: string
  va_MapType :: string
  va_CloseReason :: string
  va_ReOpenTime :: gotime
  va_LimitAmount :: int64
  va_ClosedBy :: string
  va_IsAutoIncrement :: bool
  va_MerchantIdentifier :: string
  va_ManyAccountTypeLimit :: int64
  va_MinAmount :: int64
  va_MaxAmount :: int64
  va_EqualAmount :: int64

definition VirtualAccounts_zero :: VirtualAccounts where
  "VirtualAccounts_zero = \<lparr>va_Id = [], va_Status = [], va_Provider = [], va_Balance = 0,
     va_AccountNumber = [], va_AccountName = [], va_AccountType = [], va_BankCode = [], va_ExpiredDate =
     [], va_CreatedAt = zero_time, va_UpdatedAt = zero_time, va_MerchantId = [], va_MerchantCode = [], va_MapId = [],
     va_MapType = [], va_CloseReason = [], va_ReOpenTime = zero_time, va_LimitAmount = 0, va_ClosedBy = [],
     va_IsAutoIncrement = False, va_MerchantIdentifier = [], va_ManyAccountTypeLimit = 0, va_MinAmount =
     0, va_MaxAmount = 0, va_EqualAmount = 0\<rparr>"

datatype va_field =
    VF_status string
  | VF_account_name string
  | VF_account_type string
  | VF_updated_at gotime
  | VF_reopen_time gotime
  | VF_min_amount int64
  | VF_max_amount int64
  | VF_equal_amount int64
  | VF_account_type_many_limit int64
  | VF_close_reason string
  | VF_expire_date string
  | VF_closed_by string

datatype va_filter = ByAccountNumber string | ByMap string string string | ByMerchant string

datatype VaFeeType = VA_NEW_OPEN | VA_RE_OPEN

record GetMerchantConfigReq =
  mcq_MerchantId :: string
  mcq_ServiceType :: string
  mcq_TransType :: string
  mcq_SubTransType :: string

record MerchantConfigSetting =
  mcs_ServiceType :: string
  mcs_TransType :: string
  mcs_Provider :: string
  mcs_Status :: string
  mcs_SubTransTypes :: "string list"
  mcs_VACode :: string

record GetMerchantConfigRes =
  mcr_MerchantIds :: "string list"
  mcr_Settings :: "MerchantConfigSetting list"

record GetRefundConfigReq =
  rcq_MerchantId :: string
  rcq_ServiceType :: string
  rcq_TransType :: string
  rcq_SubTransType :: string
  rcq_SourceOfFund :: string

record RefundSetting =
  rs_CreateBy :: string
  rs_SourceOfFunds :: "string list"
  rs_PaymentStatus :: string
  rs_RefundType :: string
  rs_ConfirmType :: string
  rs_RefundCondition :: string
  rs_RefundValue :: int64
  rs_Status :: string

definition RefundSetting_zero :: RefundSetting where
  "RefundSetting_zero = \<lparr>rs_CreateBy = [], rs_SourceOfFunds = [], rs_PaymentStatus = [], rs_RefundType = [],
     rs_ConfirmType = [], rs_RefundCondition = [], rs_RefundValue = 0, rs_Status = []\<rparr>"

record GetRefundConfigRes =
  rcr_ServiceType :: string
  rcr_TransType :: string
  rcr_SubTransType :: "string list"
  rcr_MerchantIds :: "string list"
  rcr_Settings :: "RefundSetting list"

record LixiEntity =
  lx_ID :: string
  lx_Name :: string
  lx_Status :: string
  lx_MerchantID :: string
  lx_Amount :: int64
  lx_MaxUser :: int64
  lx_Method :: string
  lx_AmountRemain :: int64
  lx_AmountUsed :: int64
  lx_NumberScan :: int64
  lx_StartDate :: int64
  lx_FixAmount :: int64
  lx_MaxAmount :: int64
  lx_MinAmount :: int64
  lx_UserIds :: "string list"
  lx_UserPhones :: "string list"
  lx_CreatedAt :: gotime
  lx_UpdatedAt :: gotime

record Fraud =
  fd_Id :: string
  fd_FullName :: string
  fd_CardNumber :: string
  fd_Status :: string
  fd_Reason :: string
  fd_ReasonCode :: string

definition Fraud_zero :: Fraud where
  "Fraud_zero = \<lparr>fd_Id = [], fd_FullName = [], fd_CardNumber = [], fd_Status = [], fd_Reason = [], fd_ReasonCode = []\<rparr>"

subsection \<open>Filters of the order collection\<close>

datatype order_filter =
    ByOrderID string
  | ByOrderIDUnexpired string gotime
  | ByMerchantRef string string
  | ByRefundId string
  | ByUserLucky string string

text \<open>The filter of \<open>GetExpiredOrder\<close>: pending or processing, past its expiry, not a refund.\<close>

record expired_filter =
  ef_Statuses :: "OrderStatus list"
  ef_ExpiredAtLte :: gotime
  ef_OrderTypeNe :: string

text \<open>
  The filters of the configuration: an active setting for a service and a type of a merchant; an active setting for a
  source of funds among the newest configurations of a type, of a merchant if one is given.
\<close>

record merchant_config_filter =
  mf_MerchantId :: string
  mf_ServiceType :: string
  mf_TransType :: string
  mf_Status :: string

record refund_config_filter =
  rff_TransType :: string
  rff_Status :: string
  rff_SourceOfFund :: string
  rff_MerchantId :: "string option"

subsection \<open>The trace\<close>

datatype mqtt_data =
    MUser User | MTrans TransactionDetail | MText string | MTx "ETransactionDTO option" | MVA VirtualAccounts

datatype job =
    JobSuccessTelegram OrderEntity
  | JobNotification ETransactionDTO TransactionDetail
  | JobResendVA string
  | JobCancelMessage TransactionDetail
  | JobMerchantRefund OrderEntity string ETransactionDTO
  | JobRefundNotify ETransactionDTO
  | JobVABalance "ETransactionDTO option"
  | JobOrderFraud OrderEntity ETransactionDTO Fraud

datatype event =
    EvInsertOrder OrderEntity "goerror option"
  | EvReplaceOrder order_filter OrderEntity "goerror + nat"
  | EvInit ETransactionDTO "goerror + ETransactionDTO"
  | EvConfirm ETransactionDTO "goerror + ETransactionDTO"
  | EvCancel ETransactionDTO "goerror + ETransactionDTO"
  | EvUpdate ETransactionDTO "goerror + ETransactionDTO"
  | EvUseVoucher UseVoucherRequest "goerror + UseVoucherResponse"
  | EvReverseWallet string "goerror option"
  | EvTopup TopupReq "goerror + TopupRes"
  | EvBuyCard BuyCardReq "goerror + BuyCardRes"
  | EvPaidBill PaidBillReq "goerror + PaidBillRes"
  | EvBank BankReq BankRes "goerror option"
  | EvRefund RefundReq "goerror + string"
  | EvConfirmRefund ConfirmRefundReq "goerror + string"
  | EvCancelRefund string string string "goerror option"
  | EvInsertVA VirtualAccounts "goerror option"
  | EvDeleteVA string "goerror option"
  | EvUpdateVA string "va_field list" "goerror option"
  | EvIncrementVA string int64 "goerror option"
  | EvLogVAFee string VaFeeType "goerror option"
  | EvReplaceLixi LixiEntity "goerror option"
  | EvSaveFraud string Fraud "goerror option"
  | EvMqtt string string string mqtt_data
  | EvSubmit job

text \<open>Publishing, background jobs and notes on fraud move no money and change no order.\<close>

fun is_key :: "event \<Rightarrow> bool" where
  "is_key (EvMqtt _ _ _ _) = False"
| "is_key (EvSubmit _) = False"
| "is_key (EvSaveFraud _ _ _) = False"
| "is_key _ = True"

abbreviation key :: "event list \<Rightarrow> event list" where
  "key \<equiv> filter is_key"

subsection \<open>The services\<close>

record 'w services =
  sv_now :: "'w \<Rightarrow> gotime \<times> 'w"
  sv_rand :: "'w \<Rightarrow> nat \<times> 'w"
  sv_prefix :: string
  sv_json_detail :: "string \<Rightarrow> string option"
  mg_InsertOrder :: "OrderEntity \<Rightarrow> 'w \<Rightarrow> goerror option \<times> 'w"
  mg_ReplaceOrder :: "order_filter \<Rightarrow> OrderEntity \<Rightarrow> 'w \<Rightarrow> (goerror + nat) \<times> 'w"
  mg_FindOrder :: "order_filter \<Rightarrow> 'w \<Rightarrow> (goerror + OrderEntity) \<times> 'w"
  mg_FindExpired :: "expired_filter \<Rightarrow> nat \<Rightarrow> 'w \<Rightarrow> (goerror + (goerror + OrderEntity) list) \<times> 'w"
  mg_date :: "'w \<Rightarrow> string \<times> 'w"
  mg_IncCounter :: "string \<Rightarrow> 'w \<Rightarrow> (goerror + int64 \<times> int) \<times> 'w"
  mg_InsertCounter :: "string \<Rightarrow> int64 \<Rightarrow> int \<Rightarrow> 'w \<Rightarrow> goerror option \<times> 'w"
  ts_Init :: "ETransactionDTO \<Rightarrow> 'w \<Rightarrow> (goerror + ETransactionDTO) \<times> 'w"
  ts_Confirm :: "ETransactionDTO \<Rightarrow> 'w \<Rightarrow> (goerror + ETransactionDTO) \<times> 'w"
  ts_Cancel :: "ETransactionDTO \<Rightarrow> 'w \<Rightarrow> (goerror + ETransactionDTO) \<times> 'w"
  ts_Update :: "ETransactionDTO \<Rightarrow> 'w \<Rightarrow> (goerror + ETransactionDTO) \<times> 'w"
  ts_FindByID :: "string \<Rightarrow> 'w \<Rightarrow> (goerror + ETransactionDTO) \<times> 'w"
  ts_QuotaFee :: "QuotaReq \<Rightarrow> 'w \<Rightarrow> (goerror + QuotaRes) \<times> 'w"
  ts_Refund :: "RefundReq \<Rightarrow> 'w \<Rightarrow> (goerror + string) \<times> 'w"
  ts_ConfirmRefund :: "ConfirmRefundReq \<Rightarrow> 'w \<Rightarrow> (goerror + string) \<times> 'w"
  ts_CancelRefund :: "string \<Rightarrow> string \<Rightarrow> string \<Rightarrow> 'w \<Rightarrow> goerror option \<times> 'w"
  mf_QuotaFee :: "MerchantFeeReq \<Rightarrow> 'w \<Rightarrow> (goerror + MerchantFeeRes) \<times> 'w"
  ur_Detail :: "string \<Rightarrow> 'w \<Rightarrow> (goerror + User option) \<times> 'w"
  ur_MerchantCode :: "string \<Rightarrow> 'w \<Rightarrow> (goerror + string option) \<times> 'w"
  ur_MerchantAccount :: "string \<Rightarrow> 'w \<Rightarrow> (goerror + MerchantAccount) \<times> 'w"
  pr_UseVoucher :: "UseVoucherRequest \<Rightarrow> 'w \<Rightarrow> (goerror + UseVoucherResponse) \<times> 'w"
  pr_ReverseWallet :: "string \<Rightarrow> 'w \<Rightarrow> goerror option \<times> 'w"
  mf_VendorDiscount :: "VendorDiscountReq \<Rightarrow> 'w \<Rightarrow> (goerror + VendorDiscountRes) \<times> 'w"
  cs_FindVendor :: "string \<Rightarrow> 'w \<Rightarrow> (goerror + VendorDTO option) \<times> 'w"
  cs_InvoiceCheck :: "InvoiceCheckReq \<Rightarrow> 'w \<Rightarrow> (goerror + InvoiceCheckRes) \<times> 'w"
  cs_BuyCard :: "BuyCardReq \<Rightarrow> 'w \<Rightarrow> (goerror + BuyCardRes) \<times> 'w"
  cs_PaidBill :: "PaidBillReq \<Rightarrow> 'w \<Rightarrow> (goerror + PaidBillRes) \<times> 'w"
  cs_Topup :: "TopupReq \<Rightarrow> 'w \<Rightarrow> (goerror + TopupRes) \<times> 'w"
  bk_Do :: "BankReq \<Rightarrow> 'w \<Rightarrow> (goerror + HttpResponse) \<times> 'w"
  bk_Unmarshal :: "string \<Rightarrow> BankRes \<times> goerror option"
  cb_redirect :: "string \<Rightarrow> 'w \<Rightarrow> (goerror + string) \<times> 'w"
  mq_Publish :: "string \<Rightarrow> string \<Rightarrow> string \<Rightarrow> mqtt_data \<Rightarrow> bool \<Rightarrow> 'w \<Rightarrow> goerror option \<times> 'w"
  sv_msb_prefix :: string
  sv_day :: "gotime \<Rightarrow> string"
  sv_json_data :: "BankRes \<Rightarrow> goerror + string"
  sv_json_acs :: "string \<Rightarrow> string \<times> goerror option"
  mg_InsertVA :: "VirtualAccounts \<Rightarrow> 'w \<Rightarrow> goerror option \<times> 'w"
  mg_DeleteVA :: "string \<Rightarrow> 'w \<Rightarrow> goerror option \<times> 'w"
  mg_SetVA :: "string \<Rightarrow> va_field list \<Rightarrow> 'w \<Rightarrow> goerror option \<times> 'w"
  mg_IncVA :: "string \<Rightarrow> int64 \<Rightarrow> 'w \<Rightarrow> goerror option \<times> 'w"
  mg_FindVA :: "va_filter \<Rightarrow> 'w \<Rightarrow> (goerror + VirtualAccounts) \<times> 'w"
  mg_IncMSB :: "'w \<Rightarrow> (goerror + int64 \<times> int) \<times> 'w"
  mg_InsertMSB :: "int64 \<Rightarrow> int \<Rightarrow> 'w \<Rightarrow> goerror option \<times> 'w"
  mg_FindMerchantConfig :: "merchant_config_filter \<Rightarrow> 'w \<Rightarrow> (goerror + GetMerchantConfigRes) \<times> 'w"
  mg_FindRefundConfig :: "refund_config_filter \<Rightarrow> 'w \<Rightarrow> (goerror + GetRefundConfigRes) \<times> 'w"
  mf_LogVAFee :: "string \<Rightarrow> VaFeeType \<Rightarrow> 'w \<Rightarrow> goerror option \<times> 'w"
  mg_FindLixi :: "gotime \<Rightarrow> 'w \<Rightarrow> (goerror + (goerror + LixiEntity) list) \<times> 'w"
  mg_SampleLixi :: "int64 \<Rightarrow> int64 \<Rightarrow> 'w \<Rightarrow> (goerror + (int64 \<times> goerror option) list) \<times> 'w"
  mg_ReplaceLixi :: "LixiEntity \<Rightarrow> 'w \<Rightarrow> goerror option \<times> 'w"
  ur_ByPhone :: "string \<Rightarrow> 'w \<Rightarrow> (goerror + string option) \<times> 'w"
  fr_Get :: "string \<Rightarrow> 'w \<Rightarrow> (goerror + Fraud) \<times> 'w"
  fr_Save :: "string \<Rightarrow> Fraud \<Rightarrow> 'w \<Rightarrow> goerror option \<times> 'w"

subsection \<open>The state of a request\<close>

record 'w st =
  world :: 'w
  trace :: "event list"
  LogSaga :: memory
  ctx_grpc :: bool
  order_dto :: "OrderEntity option"
  trans :: "ETransactionDTO option"
  discount :: int64
  voucherId :: string
  failReason :: string
  providerMerchantId :: string
  providerMerchant :: string
  cardType :: string
  subTransactionType :: string
  isPendingSrvCard :: bool
  isTimeOutBank :: bool
  isFailedOrder :: bool
  isByPassOtp :: bool
  bankTraceId :: string
  bankCode :: string
  bankCodeGpay :: string
  resp_OrderEntity :: "OrderProto option"
  resp_BankTraceId :: string
  resp_LinkId :: int64
  resp_Status :: string
  resp_Cards :: "CardObjDTO list"
  resp_OrderId :: string
  resp_Url :: string
  resp_Data :: string
  resp_PaReq :: string
  resp_Md :: string
  resp_TermUrl :: string
  resp_ExpiredAt :: "gotime option"

text \<open>The variables as an orchestrator declares them.\<close>

definition fresh_vars :: "OrderEntity option \<Rightarrow> 'w st \<Rightarrow> 'w st" where
  "fresh_vars d s = s\<lparr>order_dto := d, trans := None, discount := 0, voucherId := [], failReason := [],
     providerMerchantId := [], providerMerchant := [], cardType := [], subTransactionType := [],
     isPendingSrvCard := False, isTimeOutBank := False,
     isFailedOrder := False, isByPassOtp := False, bankTraceId := [], bankCode := [],
     bankCodeGpay := [], resp_OrderEntity := None, resp_BankTraceId := [], resp_LinkId := 0,
     resp_Status := [], resp_Cards := [], resp_OrderId := [], resp_Url := [], resp_Data := [],
     resp_PaReq := [], resp_Md := [], resp_TermUrl := [], resp_ExpiredAt := None\<rparr>"

text \<open>
  A call that only reads, a call that is recorded in the trace, and an entry of the trace for
  work handed to the pool.
\<close>

definition ask :: "('w \<Rightarrow> 'a \<times> 'w) \<Rightarrow> ('w st, 'a) comp" where
  "ask f = (\<lambda>s. case f (world s) of (a, w) \<Rightarrow> (Ret a, s\<lparr>world := w\<rparr>))"

definition act :: "('w \<Rightarrow> 'a \<times> 'w) \<Rightarrow> ('a \<Rightarrow> event) \<Rightarrow> ('w st, 'a) comp" where
  "act f ev = (\<lambda>s. case f (world s) of (a, w) \<Rightarrow> (Ret a, s\<lparr>world := w, trace := trace s @ [ev a]\<rparr>))"

definition emit :: "event \<Rightarrow> ('w st, unit) comp" where
  "emit e = modify (\<lambda>s. s\<lparr>trace := trace s @ [e]\<rparr>)"

lemma wp_ask:
  "wp (ask f) Q E = (\<lambda>s. \<forall>a w. f (world s) = (a, w) \<longrightarrow> Q a (s\<lparr>world := w\<rparr>))"
  by (auto simp: wp_def ask_def fun_eq_iff split: prod.splits)

lemma wp_act:
  "wp (act f ev) Q E =
     (\<lambda>s. \<forall>a w. f (world s) = (a, w) \<longrightarrow> Q a (s\<lparr>world := w, trace := trace s @ [ev a]\<rparr>))"
  by (auto simp: wp_def act_def fun_eq_iff split: prod.splits)

lemma wp_emit: "wp (emit e) Q E = (\<lambda>s. Q () (s\<lparr>trace := trace s @ [e]\<rparr>))"
  by (simp add: emit_def wp_modify)

lemmas wp_calls [wp_rules] = wp_ask wp_act wp_emit

subsection \<open>Running a saga\<close>

text \<open>
  The steps of the application return nothing but an error, so the list of values to encode is
  empty, and \<open>json.Marshal\<close> of the empty slice is \<open>[]\<close>.
\<close>

definition app_codec :: "unit codec" where
  "app_codec = \<lparr>
     Marshal = (\<lambda>vs. if vs = [] then Inr ''[]'' else Inl (ErrorString ''unsupported'')),
     Unmarshal = (\<lambda>ts p. if ts = [] \<and> p = ''[]'' then Inr [] else Inl (ErrorString ''unsupported''))\<rparr>"

definition step_type :: rtype where
  "step_type = \<lparr>Kind = KFunc, In = [TContext], Out = [TError]\<rparr>"

text \<open>A step as the orchestrators write it: \<open>func(c context.Context) (err error)\<close>, twice.\<close>

definition mk_step ::
    "string \<Rightarrow> ('s, goerror option) comp \<Rightarrow> ('s, goerror option) comp \<Rightarrow> ('s, unit) Step" where
  "mk_step name f g = \<lparr>Name = name, FuncType = Some step_type, CompensateType = Some step_type,
     Func = bindc f (\<lambda>err. ret ([], err)), CompensateFunc = (\<lambda>_. g)\<rparr>"

end
