(* ===== verification/Saga_Run.thy ===== *)
theory Saga_Run
  imports World
begin

text \<open>
  How an orchestrator runs its steps: the \<open>AddStep\<close> calls, \<open>saga.NewCoordinator\<close> and
  \<open>Play\<close>.  Two ways to reason about it are set up here.  \<open>run_steps\<close> is the saga without its
  log, and a run under a fresh execution id is exactly that (\<open>run_saga_eq\<close>).  The locale
  \<open>saga_invariant\<close> lifts an invariant of the steps to the whole run, whatever the execution id.
\<close>

type_synonym 's step_def = "string \<times> ('s, goerror option) comp \<times> ('s, goerror option) comp"

text \<open>The \<open>AddStep\<close> calls, each followed by \<open>if err != nil { return }\<close>.\<close>

fun add_steps :: "('s, unit) Saga \<Rightarrow> 's step_def list \<Rightarrow> ('t, goerror + ('s, unit) Saga) comp" where
  "add_steps sg [] = ret (Inr sg)"
| "add_steps sg ((name, f, g) # sts) =
     bindc (AddStep sg (mk_step name f g)) (\<lambda>(err, sg').
       case err of Some e \<Rightarrow> ret (Inl e) | None \<Rightarrow> add_steps sg' sts)"

text \<open>
  \<open>saga.NewCoordinator(ctx, ctx, sg, us.LogSaga)\<close> draws an execution id; \<open>Play\<close> runs the steps
  on the shared variables; the error of the execution is returned.
\<close>

definition play_saga :: "'w services \<Rightarrow> ('w st, unit) Saga \<Rightarrow> ('w st, goerror option) comp" where
  "play_saga S sg =
     bindc (ask (RandString (sv_rand S))) (\<lambda>eid s.
       case Play app_codec memory_store sg eid (NewCoordinator (LogSaga s) s) of
         (Ret rg, c) \<Rightarrow> (Ret (ExecutionError rg), (env c)\<lparr>LogSaga := logStore c\<rparr>)
       | (Panic e, c) \<Rightarrow> (Panic e, (env c)\<lparr>LogSaga := logStore c\<rparr>))"

definition run_saga ::
    "'w services \<Rightarrow> string \<Rightarrow> 'w st step_def list \<Rightarrow> ('w st, goerror option) comp" where
  "run_saga S name sts =
     bindc (add_steps (NewSaga name) sts) (\<lambda>r. case r of
       Inl e \<Rightarrow> ret (Some e)
     | Inr sg \<Rightarrow> play_saga S sg)"

abbreviation step_of :: "'s step_def \<Rightarrow> ('s, unit) Step" where
  "step_of d \<equiv> mk_step (fst d) (fst (snd d)) (snd (snd d))"

lemma mk_step_valid [simp]: "valid_step (mk_step n f g)"
  by (simp add: valid_step_def mk_step_def step_type_def)

lemma checkStep_mk_step [simp]: "checkStep (mk_step n f g) = ret None"
  by (simp add: checkStep_def mk_step_def step_type_def)

lemma mk_step_encodable [simp]: "encodable app_codec (mk_step n f g)"
  by (auto simp: encodable_def payload_ok_def mk_step_def step_type_def app_codec_def bindc_def
      split: prod.splits outcome.splits)

text \<open>Every step of the application passes \<open>AddStep\<close>.\<close>

lemma add_steps_eq:
  "add_steps sg sts = ret (Inr (sg\<lparr>steps := steps sg @ map step_of sts\<rparr>))"
  by (induction sts arbitrary: sg) (auto simp: AddStep_def)

lemma run_saga_play:
  "run_saga S name sts = play_saga S \<lparr>SagaName = name, steps = map step_of sts\<rparr>"
  by (simp add: run_saga_def add_steps_eq NewSaga_def)

subsection \<open>The saga without its log\<close>

fun unwind :: "('s, goerror option) comp list \<Rightarrow> ('s, unit) comp" where
  "unwind [] = ret ()"
| "unwind (g # gs) = thenc g (unwind gs)"

fun run_steps ::
    "'s step_def list \<Rightarrow> ('s, goerror option) comp list \<Rightarrow> ('s, goerror option) comp" where
  "run_steps [] gs = ret None"
| "run_steps ((n, f, g) # sts) gs =
     bindc f (\<lambda>err. case err of
       None \<Rightarrow> run_steps sts (g # gs)
     | Some e \<Rightarrow> thenc (unwind (g # gs)) (ret (Some e)))"

lemma undo_unwind:
  "bindc (undo (map (\<lambda>d. (step_of d, [])) ds)) (\<lambda>_. k) = thenc (unwind (map (\<lambda>d. snd (snd d)) ds)) k"
  by (induction ds arbitrary: k) (simp_all add: mk_step_def)

lemma saga_spec_run_steps:
  "bindc (saga_spec (map step_of sts) (map (\<lambda>d. (step_of d, [])) ds)) (\<lambda>rg. ret (ExecutionError rg)) =
     run_steps sts (map (\<lambda>d. snd (snd d)) ds)"
proof (induction sts arbitrary: ds)
  case Nil
  then show ?case by simp
next
  case (Cons d sts)
  obtain n f g where d: "d = (n, f, g)" by (cases d)
  have fold: "(mk_step n f g, []) # map (\<lambda>d. (step_of d, [])) ds = map (\<lambda>d. (step_of d, [])) (d # ds)"
    by (simp add: d)
  have un: "bindc (undo ((mk_step n f g, []) # map (\<lambda>d. (step_of d, [])) ds)) (\<lambda>_. ret (Some e)) =
      thenc (unwind (g # map (\<lambda>d. snd (snd d)) ds)) (ret (Some e))" for e
    using undo_unwind [of "d # ds" "ret (Some e)"] by (simp add: d)
  have body: "bindc (case err of
        None \<Rightarrow> saga_spec (map step_of sts) ((mk_step n f g, []) # map (\<lambda>d. (step_of d, [])) ds)
      | Some e \<Rightarrow> bindc (undo ((mk_step n f g, []) # map (\<lambda>d. (step_of d, [])) ds))
                  (\<lambda>es. ret \<lparr>ExecutionError = Some e, CompensateErrors = es\<rparr>))
      (\<lambda>rg. ret (ExecutionError rg)) =
      (case err of
        None \<Rightarrow> run_steps sts (g # map (\<lambda>d. snd (snd d)) ds)
      | Some e \<Rightarrow> thenc (unwind (g # map (\<lambda>d. snd (snd d)) ds)) (ret (Some e)))" for err
    using Cons.IH [of "d # ds"] un by (cases err) (simp_all add: d del: undo.simps unwind.simps)
  show ?case
    by (simp add: d mk_step_def [of n f g, THEN arg_cong [where f = Func]] body
        del: undo.simps unwind.simps)
qed

text \<open>The execution id that the saga would draw is not used by an earlier saga.\<close>

definition fresh_execution :: "'w services \<Rightarrow> 'w st \<Rightarrow> bool" where
  "fresh_execution S s \<longleftrightarrow> LogSaga s (fst (RandString (sv_rand S) (world s))) = None"

lemma run_saga_wp:
  assumes fresh: "fresh_execution S s"
    and w: "\<And>w. w = snd (RandString (sv_rand S) (world s)) \<Longrightarrow>
      wp (run_steps sts []) (\<lambda>err t. \<forall>m. Q err (t\<lparr>LogSaga := m\<rparr>)) (\<lambda>t. \<forall>m. E (t\<lparr>LogSaga := m\<rparr>)) (s\<lparr>world := w\<rparr>)"
  shows "wp (run_saga S name sts) Q E s"
proof -
  obtain eid w' where r: "RandString (sv_rand S) (world s) = (eid, w')" by force
  let ?s = "s\<lparr>world := w'\<rparr>" and ?sg = "\<lparr>SagaName = name, steps = map step_of sts\<rparr>"
  obtain res c where p: "Play app_codec memory_store ?sg eid (NewCoordinator (LogSaga ?s) ?s) = (res, c)"
    by force
  have "memory_logs (LogSaga ?s) eid = []"
    using fresh r by (simp add: fresh_execution_def memory_logs_def)
  then have "saga_spec (map step_of sts) [] ?s = (res, env c)"
    using memory_log.Play_refines [of ?sg app_codec "LogSaga ?s" eid ?s] p by force
  then have "run_steps sts [] ?s = (case res of Ret rg \<Rightarrow> (Ret (ExecutionError rg), env c)
      | Panic e \<Rightarrow> (Panic e, env c))"
    using fun_cong [OF saga_spec_run_steps [of sts "[]"], of ?s]
    by (auto simp: bindc_def ret_def split: outcome.splits)
  then show ?thesis
    using w [of w'] r p
    by (cases res) (auto simp: run_saga_play play_saga_def wp_def ask_def bindc_def)
qed

lemma wp_run_steps_Nil [wp_rules]: "wp (run_steps [] gs) Q E = Q None"
  by (simp add: wp_rules)

lemma wp_run_steps_Cons [wp_rules]:
  "wp (run_steps ((n, f, g) # sts) gs) Q E =
     wp f (\<lambda>err. case err of None \<Rightarrow> wp (run_steps sts (g # gs)) Q E
                    | Some e \<Rightarrow> wp (unwind (g # gs)) (\<lambda>_. Q (Some e)) E) E"
  by (simp add: wp_rules del: unwind.simps cong: option.case_cong)

lemma wp_unwind_Nil [wp_rules]: "wp (unwind []) Q E = Q ()"
  by (simp add: wp_rules)

lemma wp_unwind_Cons [wp_rules]: "wp (unwind (g # gs)) Q E = wp g (\<lambda>_. wp (unwind gs) Q E) E"
  by (simp add: wp_rules)

declare run_steps.simps [simp del] unwind.simps [simp del]

subsection \<open>Invariants of a saga\<close>

text \<open>
  The steps up to the first error.  Whatever is in the log under the execution id, a run does these
  and then, if there was an error, some compensations of the saga, in some order: what they all keep
  still holds at the end.
\<close>

fun run_forward :: "'s step_def list \<Rightarrow> ('s, goerror option) comp" where
  "run_forward [] = ret None"
| "run_forward ((n, f, g) # sts) =
     bindc f (\<lambda>err. case err of None \<Rightarrow> run_forward sts | Some e \<Rightarrow> ret (Some e))"

lemma wp_run_forward [wp_rules]:
  "wp (run_forward []) Q E = Q None"
  "wp (run_forward ((n, f, g) # sts)) Q E =
     wp f (\<lambda>err. case err of None \<Rightarrow> wp (run_forward sts) Q E | Some e \<Rightarrow> Q (Some e)) E"
  by (simp_all add: wp_rules cong: option.case_cong)

declare run_forward.simps [simp del]

lemma wp_append_log:
  "wp (append_log memory_store l) Q E = (\<lambda>c. Q () (c\<lparr>logStore := snd (AppendLog memory_store l (logStore c))\<rparr>))"
  by (simp add: fun_eq_iff wp_def memory_log.append_log_eq)

lemma wp_in_env: "wp (in_env m) Q E = (\<lambda>c. wp m (\<lambda>a s. Q a (c\<lparr>env := s\<rparr>)) (\<lambda>s. E (c\<lparr>env := s\<rparr>)) (env c))"
  by (auto simp: fun_eq_iff wp_def in_env_def split: prod.splits outcome.splits)

text \<open>A compensation does not change the error that is reported.\<close>

lemma compensate_loop_error:
  assumes "executionError c = err" "aborted c"
  shows "wp (compensate_loop C memory_store sg eid ls) (\<lambda>_ c'. executionError c' = err \<and> aborted c') (\<lambda>_. True) c"
  using assms
proof (induction ls arbitrary: c)
  case (Cons l ls)
  have comp: "wp (compensateStep memory_store sg eid i params) (\<lambda>_ c'. executionError c' = err \<and> aborted c') (\<lambda>_. True) c" for i params
    using Cons.prems
    by (auto simp: compensateStep_def wp_bindc wp_append_log wp_in_env wp_def split: prod.splits outcome.splits)
  have tail: "wp (compensate_loop C memory_store sg eid ls) (\<lambda>_ c'. executionError c' = err \<and> aborted c') (\<lambda>_. True)
      (c'\<lparr>compensateErrors := x\<rparr>)" if "executionError c' = err \<and> aborted c'" for c' x
    using Cons.IH that by simp
  show ?case
    unfolding compensate_loop.simps wp_bindc wp_deref
    by (simp add: getFuncValue_def wp_rules split: option.split sum.split, intro allI impI,
        rule wp_mono [OF comp]) (use tail in auto)
qed (simp add: wp_ret)

lemma abort_error:
  "executionError c = err \<Longrightarrow> wp (abort C memory_store sg eid) (\<lambda>_ c'. executionError c' = err \<and> aborted c') (\<lambda>_. True) c"
  unfolding abort_def
  by (auto simp: wp_bindc wp_gets wp_panic wp_modify wp_append_log split: sum.splits intro!: compensate_loop_error)

text \<open>What every compensation of a saga keeps, also when it panics, and that does not look at the log.\<close>

locale saga_compensations =
  fixes sts :: "'w st step_def list"
    and I :: "'w st \<Rightarrow> bool"
  assumes compensate_keeps: "(n, f, g) \<in> set sts \<Longrightarrow> I s \<Longrightarrow> wp g (\<lambda>_. I) I s"
    and log_free: "I (s\<lparr>LogSaga := m\<rparr>) = I s"
begin

abbreviation keeps :: "((memory, 'w st) coordinator, 'a) comp \<Rightarrow> bool" where
  "keeps m \<equiv> \<forall>c. I (env c) \<longrightarrow> wp m (\<lambda>_ c'. I (env c')) (\<lambda>c'. I (env c')) c"

lemma keeps_bindc: "keeps m \<Longrightarrow> (\<And>a. keeps (f a)) \<Longrightarrow> keeps (bindc m f)"
  unfolding wp_bindc by (blast intro: wp_mono)

lemma keeps_in_env: "(\<And>s. I s \<Longrightarrow> wp m (\<lambda>_. I) I s) \<Longrightarrow> keeps (in_env m)"
  by (force simp: wp_def in_env_def split: prod.splits outcome.splits)

lemma keeps_append_log: "keeps (append_log memory_store l)"
  by (simp add: memory_log.append_log_eq wp_def)

lemma keeps_getFuncValue: "keeps (getFuncValue t)"
  by (auto simp: getFuncValue_def wp_rules split: option.splits)

lemma keeps_compensate_loop:
  assumes "steps sg = map step_of sts"
  shows "keeps (compensate_loop C memory_store sg eid ls)"
proof (induction ls)
  case Nil
  then show ?case by (simp add: wp_rules)
next
  case (Cons l ls)
  have comp: "keeps (compensateStep memory_store sg eid i params)" if "i < length sts" for i params
  proof -
    obtain n f g where d: "sts ! i = (n, f, g)" by (cases "sts ! i")
    then have "(n, f, g) \<in> set sts" using that by (metis nth_mem)
    then have "keeps (in_env (CompensateFunc (steps sg ! i) params))"
      using that d by (intro keeps_in_env) (simp add: assms mk_step_def compensate_keeps)
    then show ?thesis unfolding compensateStep_def by (intro keeps_bindc keeps_append_log)
  qed
  have tail: "keeps (thenc (modify (\<lambda>c. c\<lparr>compensateErrors := compensateErrors c @ x\<rparr>))
      (compensate_loop C memory_store sg eid ls))" for x
    by (rule keeps_bindc) (use Cons.IH in \<open>simp_all add: wp_rules\<close>)
  show ?case
  proof (cases "StepNumber l")
    case None
    then show ?thesis by (simp add: wp_rules)
  next
    case (Some i)
    show ?thesis
    proof (cases "i < length sts")
      case True
      have "keeps (case Unmarshal C (tl (In ct)) (StepPayload l) of Inl e \<Rightarrow> panic (Error e)
         | Inr params \<Rightarrow> bindc (compensateStep memory_store sg eid i params) (\<lambda>err.
             thenc (modify (\<lambda>c. c\<lparr>compensateErrors := compensateErrors c @
                (case err of None \<Rightarrow> [] | Some e \<Rightarrow> [e])\<rparr>)) (compensate_loop C memory_store sg eid ls)))" for ct
        using keeps_bindc [OF comp [OF True] tail] by (auto simp: wp_panic split: sum.splits)
      with True Some show ?thesis
        using keeps_bindc [OF keeps_getFuncValue] by (simp add: assms)
    qed (simp add: Some assms wp_rules)
  qed
qed

lemma keeps_abort:
  assumes "steps sg = map step_of sts"
  shows "keeps (abort C memory_store sg eid)"
proof -
  have "keeps (case r of Inl e \<Rightarrow> panic (Error e)
     | Inr ls \<Rightarrow> thenc (append_log memory_store (l ls)) (thenc (modify (\<lambda>c. c\<lparr>aborted := True\<rparr>))
           (compensate_loop C memory_store sg eid ls)))" for r l
    by (cases r) (auto simp: wp_panic wp_modify intro!: keeps_bindc [rule_format] keeps_append_log [rule_format]
        keeps_compensate_loop [OF assms, rule_format])
  then show ?thesis unfolding abort_def by (intro keeps_bindc) (auto simp: wp_gets)
qed

lemma execStep_loose:
  assumes sg: "steps sg = map step_of sts" and i: "i < length sts" and d: "sts ! i = (n, f, g)"
    and c: "\<not> aborted c" "executionError c = None"
    and f: "wp f (\<lambda>err t. if err = None then R t else I t) I (env c)"
  shows "wp (execStep app_codec memory_store sg eid i)
     (\<lambda>_ c'. if executionError c' = None then \<not> aborted c' \<and> R (env c') else aborted c' \<and> I (env c')) (\<lambda>c'. I (env c')) c"
proof -
  obtain r s' where run: "f (env c) = (r, s')" by (cases "f (env c)")
  have st: "steps sg ! i = mk_step n f g" using i d by (simp add: sg)
  have payload: "Marshal app_codec [] = Inr ''[]''" by (simp add: app_codec_def)
  show ?thesis
  proof (cases r)
    case (Panic e)
    with run f c show ?thesis
      by (simp add: wp_def execStep_def bindc_def st in_env_def) (simp add: mk_step_def bindc_def)
  next
    case (Ret err)
    let ?l = "\<lparr>ExecutionID = eid, LogName = SagaName sg, Type = SagaStepExec, StepNumber = Some i,
        StepName = Some n, StepError = map_option Error err, StepPayload = ''[]''\<rparr>"
    let ?c = "c\<lparr>env := s', logStore := snd (AppendLog memory_store ?l (logStore c))\<rparr>"
    have ex: "execStep app_codec memory_store sg eid i c = (case err of None \<Rightarrow> ret ()
        | Some e \<Rightarrow> thenc (modify (\<lambda>c. c\<lparr>executionError := Some e\<rparr>)) (abort app_codec memory_store sg eid)) ?c"
      using run Ret c
      by (simp add: execStep_def bindc_def st in_env_def)
        (simp add: mk_step_def bindc_def ret_def st memory_log.append_log_eq payload)
    show ?thesis
    proof (cases err)
      case None
      with run Ret f c show ?thesis by (simp add: wp_def ex ret_def)
    next
      case (Some e)
      let ?c1 = "?c\<lparr>executionError := Some e\<rparr>"
      have "I s'" using run Ret f Some by (simp add: wp_def)
      then have "wp (abort app_codec memory_store sg eid) (\<lambda>_ c'. I (env c') \<and> executionError c' = Some e \<and> aborted c')
          (\<lambda>c'. I (env c') \<and> True) ?c1"
        using keeps_abort [OF sg, of app_codec eid] by (intro wp_conj abort_error) simp_all
      then show ?thesis using Some by (auto simp: wp_def ex bindc_def modify_def split: prod.splits outcome.splits)
    qed
  qed
qed

lemma exec_steps_loose:
  assumes sg: "steps sg = map step_of sts" and i: "i \<le> length sts"
    and c: "\<not> aborted c" "executionError c = None"
    and f: "wp (run_forward (drop i sts)) (\<lambda>err t. if err = None then R t else I t) I (env c)"
  shows "wp (exec_steps app_codec memory_store sg eid [i..<length sts])
     (\<lambda>_ c'. if executionError c' = None then R (env c') else I (env c')) (\<lambda>c'. I (env c')) c"
  using i c f
proof (induction "length sts - i" arbitrary: i c)
  case 0
  then show ?case by (simp add: wp_rules)
next
  case (Suc k)
  then have i: "i < length sts" by simp
  obtain n f g where d: "sts ! i = (n, f, g)" by (cases "sts ! i")
  have up: "[i..<length sts] = i # [Suc i..<length sts]" using i by (rule upt_conv_Cons)
  have dr: "drop i sts = (n, f, g) # drop (Suc i) sts" using Cons_nth_drop_Suc [OF i] d by simp
  let ?R = "wp (run_forward (drop (Suc i) sts)) (\<lambda>err t. if err = None then R t else I t) I"
  have "wp f (\<lambda>err t. if err = None then ?R t else I t) I (env c)"
    by (rule wp_mono [OF Suc.prems(4) [unfolded dr wp_run_forward]]) (simp_all only: split: option.splits if_split, simp_all)
  note first = execStep_loose [OF sg i d Suc.prems(2,3) this]
  have later: "wp (exec_steps app_codec memory_store sg eid [Suc i..<length sts])
     (\<lambda>_ c'. if executionError c' = None then R (env c') else I (env c')) (\<lambda>c'. I (env c')) c'"
    if "if executionError c' = None then \<not> aborted c' \<and> ?R (env c') else aborted c' \<and> I (env c')" for c'
  proof (cases "executionError c' = None")
    case True
    with that Suc.hyps(1) [of "Suc i" c'] Suc.hyps(2) i show ?thesis by simp
  next
    case False
    with that show ?thesis
      by (auto simp: wp_def memory_log.exec_steps_aborted)
  qed
  show ?case unfolding up exec_steps.simps wp_bindc by (rule wp_mono [OF first]) (use later in auto)
qed

theorem run_saga_loose:
  assumes "\<And>w. wp (run_forward sts) (\<lambda>err t. if err = None then \<forall>m. Q None (t\<lparr>LogSaga := m\<rparr>) else I t) I (s\<lparr>world := w\<rparr>)"
    and "\<And>e t. I t \<Longrightarrow> Q (Some e) t" and "\<And>t. I t \<Longrightarrow> E t"
  shows "wp (run_saga S name sts) Q E s"
proof -
  let ?sg = "\<lparr>SagaName = name, steps = map step_of sts\<rparr>"
  obtain eid w where r: "RandString (sv_rand S) (world s) = (eid, w)" by force
  let ?s = "s\<lparr>world := w\<rparr>"
  have "wp (Play app_codec memory_store ?sg eid) (\<lambda>rg c. if ExecutionError rg = None then \<forall>m. Q None ((env c)\<lparr>LogSaga := m\<rparr>) else I (env c))
      (\<lambda>c. I (env c)) (NewCoordinator (LogSaga ?s) ?s)"
    unfolding Play_def wp_bindc wp_gets
    by (simp add: wp_append_log, rule wp_mono [OF exec_steps_loose [of ?sg 0, where R = "\<lambda>t. \<forall>m. Q None (t\<lparr>LogSaga := m\<rparr>)", simplified]])
      (use assms(1) [of w] in \<open>auto simp: NewCoordinator_def\<close>)
  with r show ?thesis
    by (auto simp: run_saga_play play_saga_def wp_def ask_def bindc_def log_free assms(2,3)
        split: prod.splits outcome.splits if_splits)
qed

end

locale saga_invariant = saga_compensations +
  assumes step_keeps: "(n, f, g) \<in> set sts \<Longrightarrow> I s \<Longrightarrow> wp f (\<lambda>_. I) I s"
    and world_free: "I (s\<lparr>world := w\<rparr>) = I s"
begin

lemma keeps_execStep:
  assumes "steps sg = map step_of sts" and i: "i < length sts"
  shows "keeps (execStep C memory_store sg eid i)"
proof -
  obtain n f g where d: "sts ! i = (n, f, g)" by (cases "sts ! i")
  then have "(n, f, g) \<in> set sts" using i by (metis nth_mem)
  then have f: "keeps (in_env (Func (steps sg ! i)))"
    using i d by (intro keeps_in_env) (simp add: assms(1) mk_step_def wp_rules step_keeps)
  have "keeps (case err of None \<Rightarrow> ret ()
      | Some e \<Rightarrow> thenc (modify (\<lambda>c. c\<lparr>executionError := Some e\<rparr>)) (abort C memory_store sg eid))" for err
    using keeps_abort [OF assms(1)] by (auto simp: wp_rules split: option.splits)
  then have "keeps (case Marshal C resp of Inl e \<Rightarrow> panic (Error e)
      | Inr p \<Rightarrow> thenc (append_log memory_store (l p)) (case err of None \<Rightarrow> ret ()
           | Some e \<Rightarrow> thenc (modify (\<lambda>c. c\<lparr>executionError := Some e\<rparr>)) (abort C memory_store sg eid)))"
    for resp err l
    by (cases "Marshal C resp") (simp add: wp_panic, simp only: sum.case, intro keeps_bindc keeps_append_log)
  then have "keeps (thenc (getFuncValue (FuncType (steps sg ! i)))
     (bindc (in_env (Func (steps sg ! i))) (\<lambda>(resp, err).
       case Marshal C resp of Inl e \<Rightarrow> panic (Error e)
       | Inr p \<Rightarrow> thenc (append_log memory_store (l err p)) (case err of None \<Rightarrow> ret ()
           | Some e \<Rightarrow> thenc (modify (\<lambda>c. c\<lparr>executionError := Some e\<rparr>)) (abort C memory_store sg eid)))))"
    for l
    by (intro keeps_bindc keeps_getFuncValue f) (auto split: prod.splits)
  then show ?thesis unfolding execStep_def by (simp add: wp_bindc [of "gets aborted"] wp_gets wp_ret)
qed

lemma keeps_exec_steps:
  assumes "steps sg = map step_of sts" and "set is \<subseteq> {..<length sts}"
  shows "keeps (exec_steps C memory_store sg eid is)"
  using assms(2)
proof (induction "is")
  case Nil
  then show ?case by (simp add: wp_ret)
next
  case (Cons i "is")
  then show ?case
    by (simp only: exec_steps.simps, intro keeps_bindc keeps_execStep [OF assms(1)]) simp_all
qed

lemma keeps_Play:
  assumes "steps sg = map step_of sts"
  shows "keeps (Play C memory_store sg eid)"
  unfolding Play_def
  by (intro keeps_bindc keeps_append_log keeps_exec_steps [OF assms]) (auto simp: assms wp_gets)

theorem run_saga_keeps:
  assumes "I s"
  shows "wp (run_saga S name sts) (\<lambda>_. I) I s"
proof -
  let ?sg = "\<lparr>SagaName = name, steps = map step_of sts\<rparr>"
  have play: "wp (Play app_codec memory_store ?sg eid) (\<lambda>_ c. I (env c)) (\<lambda>c. I (env c))
      (NewCoordinator (LogSaga t) t)" if "I t" for eid t
    using keeps_Play [of ?sg app_codec eid] that by (simp add: NewCoordinator_def)
  obtain eid w where "RandString (sv_rand S) (world s) = (eid, w)" by force
  with play [of "s\<lparr>world := w\<rparr>" eid] assms show ?thesis
    by (auto simp: run_saga_play play_saga_def wp_def ask_def bindc_def world_free log_free
        split: prod.splits outcome.splits)
qed

end

end
