(* ===== verification/Effects.thy ===== *)
theory Effects
  imports Saga_Run
begin

text \<open>
  What a service function does to the outside.  The functions below the orchestrators touch no
  variable of the request: they use up the world and append to the trace.  \<open>does m P\<close> says so and
  relates the result (\<open>None\<close> for a panic) to the money-relevant events it appended, in order.
  The rules follow the structure of the computation and are collected in \<open>does_rules\<close>.
\<close>

named_theorems does_rules \<open>rules for the effects of computations\<close>

definition appended :: "'w st \<Rightarrow> 'w \<Rightarrow> event list \<Rightarrow> 'w st" where
  "appended s w es = s\<lparr>world := w, trace := trace s @ es\<rparr>"

lemma appended_sel [simp]:
  "world (appended s w es) = w" "trace (appended s w es) = trace s @ es"
  "LogSaga (appended s w es) = LogSaga s" "ctx_grpc (appended s w es) = ctx_grpc s"
  "order_dto (appended s w es) = order_dto s" "trans (appended s w es) = trans s"
  "discount (appended s w es) = discount s" "voucherId (appended s w es) = voucherId s"
  "failReason (appended s w es) = failReason s"
  "providerMerchantId (appended s w es) = providerMerchantId s"
  "providerMerchant (appended s w es) = providerMerchant s"
  "cardType (appended s w es) = cardType s"
  "subTransactionType (appended s w es) = subTransactionType s"
  "isPendingSrvCard (appended s w es) = isPendingSrvCard s"
  "isTimeOutBank (appended s w es) = isTimeOutBank s"
  "isFailedOrder (appended s w es) = isFailedOrder s"
  "isByPassOtp (appended s w es) = isByPassOtp s"
  "bankTraceId (appended s w es) = bankTraceId s" "bankCode (appended s w es) = bankCode s"
  "bankCodeGpay (appended s w es) = bankCodeGpay s"
  "resp_OrderEntity (appended s w es) = resp_OrderEntity s"
  "resp_BankTraceId (appended s w es) = resp_BankTraceId s"
  "resp_LinkId (appended s w es) = resp_LinkId s" "resp_Status (appended s w es) = resp_Status s"
  "resp_Cards (appended s w es) = resp_Cards s"
  "resp_OrderId (appended s w es) = resp_OrderId s"
  "resp_Url (appended s w es) = resp_Url s"
  "resp_Data (appended s w es) = resp_Data s"
  "resp_PaReq (appended s w es) = resp_PaReq s"
  "resp_Md (appended s w es) = resp_Md s"
  "resp_TermUrl (appended s w es) = resp_TermUrl s"
  "resp_ExpiredAt (appended s w es) = resp_ExpiredAt s"
  by (simp_all add: appended_def)

lemma appended_upd [simp]:
  "appended (s\<lparr>world := w'\<rparr>) w es = appended s w es"
  "appended (s\<lparr>LogSaga := x0\<rparr>) w es = (appended s w es)\<lparr>LogSaga := x0\<rparr>"
  "appended (s\<lparr>ctx_grpc := x1\<rparr>) w es = (appended s w es)\<lparr>ctx_grpc := x1\<rparr>"
  "appended (s\<lparr>order_dto := x2\<rparr>) w es = (appended s w es)\<lparr>order_dto := x2\<rparr>"
  "appended (s\<lparr>trans := x3\<rparr>) w es = (appended s w es)\<lparr>trans := x3\<rparr>"
  "appended (s\<lparr>discount := x4\<rparr>) w es = (appended s w es)\<lparr>discount := x4\<rparr>"
  "appended (s\<lparr>voucherId := x5\<rparr>) w es = (appended s w es)\<lparr>voucherId := x5\<rparr>"
  "appended (s\<lparr>failReason := x6\<rparr>) w es = (appended s w es)\<lparr>failReason := x6\<rparr>"
  "appended (s\<lparr>providerMerchantId := x7\<rparr>) w es = (appended s w es)\<lparr>providerMerchantId := x7\<rparr>"
  "appended (s\<lparr>providerMerchant := x8\<rparr>) w es = (appended s w es)\<lparr>providerMerchant := x8\<rparr>"
  "appended (s\<lparr>cardType := x9\<rparr>) w es = (appended s w es)\<lparr>cardType := x9\<rparr>"
  "appended (s\<lparr>subTransactionType := x10\<rparr>) w es = (appended s w es)\<lparr>subTransactionType := x10\<rparr>"
  "appended (s\<lparr>isPendingSrvCard := x11\<rparr>) w es = (appended s w es)\<lparr>isPendingSrvCard := x11\<rparr>"
  "appended (s\<lparr>isTimeOutBank := x12\<rparr>) w es = (appended s w es)\<lparr>isTimeOutBank := x12\<rparr>"
  "appended (s\<lparr>isFailedOrder := x13\<rparr>) w es = (appended s w es)\<lparr>isFailedOrder := x13\<rparr>"
  "appended (s\<lparr>isByPassOtp := x14\<rparr>) w es = (appended s w es)\<lparr>isByPassOtp := x14\<rparr>"
  "appended (s\<lparr>bankTraceId := x15\<rparr>) w es = (appended s w es)\<lparr>bankTraceId := x15\<rparr>"
  "appended (s\<lparr>bankCode := x16\<rparr>) w es = (appended s w es)\<lparr>bankCode := x16\<rparr>"
  "appended (s\<lparr>bankCodeGpay := x17\<rparr>) w es = (appended s w es)\<lparr>bankCodeGpay := x17\<rparr>"
  "appended (s\<lparr>resp_OrderEntity := x18\<rparr>) w es = (appended s w es)\<lparr>resp_OrderEntity := x18\<rparr>"
  "appended (s\<lparr>resp_BankTraceId := x19\<rparr>) w es = (appended s w es)\<lparr>resp_BankTraceId := x19\<rparr>"
  "appended (s\<lparr>resp_LinkId := x20\<rparr>) w es = (appended s w es)\<lparr>resp_LinkId := x20\<rparr>"
  "appended (s\<lparr>resp_Status := x21\<rparr>) w es = (appended s w es)\<lparr>resp_Status := x21\<rparr>"
  "appended (s\<lparr>resp_Cards := x22\<rparr>) w es = (appended s w es)\<lparr>resp_Cards := x22\<rparr>"
  "appended (s\<lparr>resp_OrderId := x23\<rparr>) w es = (appended s w es)\<lparr>resp_OrderId := x23\<rparr>"
  "appended (s\<lparr>resp_Url := x24\<rparr>) w es = (appended s w es)\<lparr>resp_Url := x24\<rparr>"
  "appended (s\<lparr>resp_Data := x25\<rparr>) w es = (appended s w es)\<lparr>resp_Data := x25\<rparr>"
  "appended (s\<lparr>resp_PaReq := x26\<rparr>) w es = (appended s w es)\<lparr>resp_PaReq := x26\<rparr>"
  "appended (s\<lparr>resp_Md := x27\<rparr>) w es = (appended s w es)\<lparr>resp_Md := x27\<rparr>"
  "appended (s\<lparr>resp_TermUrl := x28\<rparr>) w es = (appended s w es)\<lparr>resp_TermUrl := x28\<rparr>"
  "appended (s\<lparr>resp_ExpiredAt := x29\<rparr>) w es = (appended s w es)\<lparr>resp_ExpiredAt := x29\<rparr>"
  by (simp_all add: appended_def)

lemma appended_appended [simp]: "appended (appended s w es) w' es' = appended s w' (es @ es')"
  by (simp add: appended_def)

lemma appended_nil: "P [] \<Longrightarrow> \<exists>w es. s = appended s w es \<and> P (key es)"
  by (rule exI [of _ "world s"], rule exI [of _ "[]"]) (simp add: appended_def)

definition does :: "('w st, 'a) comp \<Rightarrow> ('a option \<Rightarrow> event list \<Rightarrow> bool) \<Rightarrow> bool" where
  "does m P \<longleftrightarrow> (\<forall>s. wp m (\<lambda>a t. \<exists>w es. t = appended s w es \<and> P (Some a) (key es))
                        (\<lambda>t. \<exists>w es. t = appended s w es \<and> P None (key es)) s)"

text \<open>A computation that appends nothing of the kind.\<close>

abbreviation quiet :: "('w st, 'a) comp \<Rightarrow> bool" where
  "quiet m \<equiv> does m (\<lambda>_ es. es = [])"

lemma does_wp:
  assumes "does m P"
    and "\<And>a w es. P (Some a) (key es) \<Longrightarrow> Q a (appended s w es)"
    and "\<And>w es. P None (key es) \<Longrightarrow> E (appended s w es)"
  shows "wp m Q E s"
  using assms(1) [unfolded does_def, rule_format, of s] by (rule wp_mono) (use assms(2,3) in auto)

lemma does_mono: "does m P \<Longrightarrow> (\<And>r es. P r es \<Longrightarrow> Q r es) \<Longrightarrow> does m Q"
  unfolding does_def by (blast intro: wp_mono)

lemma does_ret [does_rules]: "P (Some a) [] \<Longrightarrow> does (ret a) P"
  by (simp add: does_def wp_ret appended_nil)

lemma does_panic [does_rules]: "P None [] \<Longrightarrow> does (panic e) P"
  by (simp add: does_def wp_panic appended_nil)

lemma does_gets [does_rules]: "(\<And>a. P (Some a) []) \<Longrightarrow> does (gets f) P"
  by (simp add: does_def wp_gets appended_nil)

lemma does_ask [does_rules]: "(\<And>a. P (Some a) []) \<Longrightarrow> does (ask f) P"
  by (auto simp: does_def wp_ask appended_def intro!: exI [of _ "[]"])

lemma does_act [does_rules]:
  assumes "\<And>a. P (Some a) (if is_key (ev a) then [ev a] else [])"
  shows "does (act f ev) P"
proof -
  have "\<exists>w' es. s\<lparr>world := w, trace := trace s @ [ev a]\<rparr> = appended s w' es \<and> P (Some a) (key es)" for s a w
    using assms [of a] by (intro exI [of _ w] exI [of _ "[ev a]"]) (auto simp: appended_def)
  then show ?thesis by (auto simp: does_def wp_act)
qed

lemma does_emit [does_rules]:
  assumes "P (Some ()) (if is_key e then [e] else [])"
  shows "does (emit e) P"
proof -
  have "\<exists>w' es. s\<lparr>trace := trace s @ [e]\<rparr> = appended s w' es \<and> P (Some ()) (key es)" for s :: "'w st"
    using assms by (intro exI [of _ "world s"] exI [of _ "[e]"]) (auto simp: appended_def)
  then show ?thesis by (auto simp: does_def wp_emit)
qed

lemma does_bindc:
  assumes m: "does m P"
    and f: "\<And>a es. P (Some a) es \<Longrightarrow> does (f a) (\<lambda>r es'. Q r (es @ es'))"
    and e: "\<And>es. P None es \<Longrightarrow> Q None es"
  shows "does (bindc m f) Q"
  unfolding does_def
proof
  fix s
  show "wp (bindc m f) (\<lambda>a t. \<exists>w es. t = appended s w es \<and> Q (Some a) (key es))
     (\<lambda>t. \<exists>w es. t = appended s w es \<and> Q None (key es)) s"
    unfolding wp_bindc
  proof (rule does_wp [OF m])
    fix a w es
    assume "P (Some a) (key es)"
    then show "wp (f a) (\<lambda>a t. \<exists>w es. t = appended s w es \<and> Q (Some a) (key es))
       (\<lambda>t. \<exists>w es. t = appended s w es \<and> Q None (key es)) (appended s w es)"
      by (rule does_wp [OF f]) (metis appended_appended filter_append)+
  qed (use e in blast)
qed

text \<open>The two common cases: a first part that is quiet, and one that emits exactly one event.\<close>

lemma does_bindc_quiet:
  "quiet m \<Longrightarrow> (\<And>a. does (f a) Q) \<Longrightarrow> Q None [] \<Longrightarrow> does (bindc m f) Q"
  by (rule does_bindc [where P = "\<lambda>_ es. es = []"]) auto

lemma does_ask_bindc [does_rules]: "(\<And>a. does (f a) Q) \<Longrightarrow> does (bindc (ask g) f) Q"
  by (rule does_bindc [where P = "\<lambda>r es. r \<noteq> None \<and> es = []"]) (auto intro: does_ask)

lemma does_gets_bindc [does_rules]: "(\<And>a. does (f a) Q) \<Longrightarrow> does (bindc (gets g) f) Q"
  by (rule does_bindc [where P = "\<lambda>r es. r \<noteq> None \<and> es = []"]) (auto intro: does_gets)

lemma does_deref_bindc [does_rules]:
  "(\<And>a. p = Some a \<Longrightarrow> does (f a) Q) \<Longrightarrow> (p = None \<Longrightarrow> Q None []) \<Longrightarrow> does (bindc (deref p) f) Q"
  by (cases p) (auto intro: does_rules)

lemma does_act_bindc [does_rules]:
  assumes "\<And>a. is_key (ev a) \<Longrightarrow> does (f a) (\<lambda>r es. Q r (ev a # es))"
    and "\<And>a. \<not> is_key (ev a) \<Longrightarrow> does (f a) Q"
  shows "does (bindc (act g ev) f) Q"
proof (rule does_bindc)
  show "does (act g ev) (\<lambda>r es. \<exists>a. r = Some a \<and> es = (if is_key (ev a) then [ev a] else []))"
    by (rule does_act) blast
qed (use assms in auto)

lemma does_act_range:
  assumes "\<And>w. does (f (fst (g w))) (\<lambda>r es. Q r (key [ev (fst (g w))] @ es))"
  shows "does (bindc (act g ev) f) Q"
proof (rule does_bindc)
  show "does (act g ev) (\<lambda>r es. \<exists>w. r = Some (fst (g w)) \<and> es = key [ev (fst (g w))])"
  proof -
    have "\<exists>w' es. s\<lparr>world := w, trace := trace s @ [ev a]\<rparr> = appended s w' es \<and>
        (\<exists>w. Some a = Some (fst (g w)) \<and> key es = key [ev (fst (g w))])" if "g (world s) = (a, w)" for s a w
      by (intro exI [of _ w] exI [of _ "[ev a]"] conjI exI [of _ "world s"]) (simp_all add: appended_def that)
    then show ?thesis by (auto simp: does_def wp_act)
  qed
qed (use assms in auto)

lemma does_emit_bindc [does_rules]:
  "(is_key e \<Longrightarrow> does (f ()) (\<lambda>r es. Q r (e # es))) \<Longrightarrow> (\<not> is_key e \<Longrightarrow> does (f ()) Q) \<Longrightarrow>
   does (bindc (emit e) f) Q"
  by (rule does_bindc [where P = "\<lambda>r es. r = Some () \<and> es = (if is_key e then [e] else [])"])
    (auto intro: does_emit split: if_splits)

lemma does_whenc_bindc [does_rules]:
  "(b \<Longrightarrow> does (bindc m f) Q) \<Longrightarrow> (\<not> b \<Longrightarrow> does (f ()) Q) \<Longrightarrow> does (bindc (whenc b m) f) Q"
  by (auto simp: whenc_def)

lemma does_if [does_rules]: "(b \<Longrightarrow> does m P) \<Longrightarrow> (\<not> b \<Longrightarrow> does n P) \<Longrightarrow> does (if b then m else n) P"
  by simp

lemma does_whenc [does_rules]: "(b \<Longrightarrow> does m P) \<Longrightarrow> (\<not> b \<Longrightarrow> P (Some ()) []) \<Longrightarrow> does (whenc b m) P"
  by (auto simp: whenc_def intro: does_rules)

lemma does_option [does_rules]:
  "(p = None \<Longrightarrow> does m P) \<Longrightarrow> (\<And>a. p = Some a \<Longrightarrow> does (f a) P) \<Longrightarrow>
   does (case p of None \<Rightarrow> m | Some a \<Rightarrow> f a) P"
  by (cases p) auto

lemma does_sum [does_rules]:
  "(\<And>e. p = Inl e \<Longrightarrow> does (f e) P) \<Longrightarrow> (\<And>a. p = Inr a \<Longrightarrow> does (g a) P) \<Longrightarrow>
   does (case p of Inl e \<Rightarrow> f e | Inr a \<Rightarrow> g a) P"
  by (cases p) auto

lemma does_prod [does_rules]:
  "(\<And>a b. p = (a, b) \<Longrightarrow> does (f a b) P) \<Longrightarrow> does (case p of (a, b) \<Rightarrow> f a b) P"
  by (cases p) auto

lemma quiet_bindc [does_rules]: "quiet m \<Longrightarrow> (\<And>a. quiet (f a)) \<Longrightarrow> quiet (bindc m f)"
  by (rule does_bindc_quiet) simp_all

text \<open>A question, with an answer that the service can give.\<close>

lemma does_ask_answer: "does (ask g) (\<lambda>r es. (\<exists>w. r = Some (fst (g w))) \<and> es = [])"
proof -
  have "\<exists>w' es. s\<lparr>world := w\<rparr> = appended s w' es \<and> (\<exists>w. Some a = Some (fst (g w))) \<and> key es = []" if "g (world s) = (a, w)" for s a w
    by (intro exI [of _ w] exI [of _ "[]"] conjI exI [of _ "world s"]) (simp_all add: appended_def that)
  then show ?thesis by (auto simp: does_def wp_ask)
qed

lemma does_ask_range: "(\<And>w. does (f (fst (g w))) Q) \<Longrightarrow> does (bindc (ask g) f) Q"
  by (rule does_bindc [OF does_ask_answer]) auto

subsection \<open>Counting events\<close>

text \<open>
  \<open>atmost A n m\<close>: whatever else \<open>m\<close> does, also when it panics, it only extends the trace, and by
  at most \<open>n\<close> events of the class \<open>A\<close>.
\<close>

named_theorems atmost_rules \<open>rules for counting events\<close>

definition adds :: "(event \<Rightarrow> bool) \<Rightarrow> nat \<Rightarrow> 'w st \<Rightarrow> 'w st \<Rightarrow> bool" where
  "adds A n s t \<longleftrightarrow> (\<exists>es. trace t = trace s @ es \<and> length (filter A (key es)) \<le> n)"

definition atmost :: "(event \<Rightarrow> bool) \<Rightarrow> nat \<Rightarrow> ('w st, 'a) comp \<Rightarrow> bool" where
  "atmost A n m \<longleftrightarrow> (\<forall>s. wp m (\<lambda>_. adds A n s) (adds A n s) s)"

lemma adds_refl: "trace t = trace s \<Longrightarrow> adds A n s t"
  by (auto simp: adds_def)

lemma adds_appended: "key es = k \<Longrightarrow> length (filter A k) \<le> n \<Longrightarrow> adds A n s (appended s w es)"
  by (auto simp: adds_def simp del: filter_filter)

lemma adds_upd [simp]:
  "adds A n s (t\<lparr>LogSaga := x0\<rparr>) = adds A n s t"
  "adds A n s (t\<lparr>ctx_grpc := x1\<rparr>) = adds A n s t"
  "adds A n s (t\<lparr>order_dto := x2\<rparr>) = adds A n s t"
  "adds A n s (t\<lparr>trans := x3\<rparr>) = adds A n s t"
  "adds A n s (t\<lparr>discount := x4\<rparr>) = adds A n s t"
  "adds A n s (t\<lparr>voucherId := x5\<rparr>) = adds A n s t"
  "adds A n s (t\<lparr>failReason := x6\<rparr>) = adds A n s t"
  "adds A n s (t\<lparr>providerMerchantId := x7\<rparr>) = adds A n s t"
  "adds A n s (t\<lparr>providerMerchant := x8\<rparr>) = adds A n s t"
  "adds A n s (t\<lparr>cardType := x9\<rparr>) = adds A n s t"
  "adds A n s (t\<lparr>subTransactionType := x10\<rparr>) = adds A n s t"
  "adds A n s (t\<lparr>isPendingSrvCard := x11\<rparr>) = adds A n s t"
  "adds A n s (t\<lparr>isTimeOutBank := x12\<rparr>) = adds A n s t"
  "adds A n s (t\<lparr>isFailedOrder := x13\<rparr>) = adds A n s t"
  "adds A n s (t\<lparr>isByPassOtp := x14\<rparr>) = adds A n s t"
  "adds A n s (t\<lparr>bankTraceId := x15\<rparr>) = adds A n s t"
  "adds A n s (t\<lparr>bankCode := x16\<rparr>) = adds A n s t"
  "adds A n s (t\<lparr>bankCodeGpay := x17\<rparr>) = adds A n s t"
  "adds A n s (t\<lparr>resp_OrderEntity := x18\<rparr>) = adds A n s t"
  "adds A n s (t\<lparr>resp_BankTraceId := x19\<rparr>) = adds A n s t"
  "adds A n s (t\<lparr>resp_LinkId := x20\<rparr>) = adds A n s t"
  "adds A n s (t\<lparr>resp_Status := x21\<rparr>) = adds A n s t"
  "adds A n s (t\<lparr>resp_Cards := x22\<rparr>) = adds A n s t"
  "adds A n s (t\<lparr>resp_OrderId := x23\<rparr>) = adds A n s t"
  "adds A n s (t\<lparr>resp_Url := x24\<rparr>) = adds A n s t"
  "adds A n s (t\<lparr>resp_Data := x25\<rparr>) = adds A n s t"
  "adds A n s (t\<lparr>resp_PaReq := x26\<rparr>) = adds A n s t"
  "adds A n s (t\<lparr>resp_Md := x27\<rparr>) = adds A n s t"
  "adds A n s (t\<lparr>resp_TermUrl := x28\<rparr>) = adds A n s t"
  "adds A n s (t\<lparr>resp_ExpiredAt := x29\<rparr>) = adds A n s t"
  by (simp_all add: adds_def)

lemma adds_trans:
  assumes "adds A i s t" and "adds A j t u"
  shows "adds A (i + j) s u"
proof -
  from assms obtain es es' where "trace u = trace s @ (es @ es')" "length (filter A (key es)) \<le> i"
    "length (filter A (key es')) \<le> j" by (auto simp: adds_def)
  then show ?thesis unfolding adds_def by (intro exI [of _ "es @ es'"]) simp
qed

lemma atmost_mono: "atmost A i m \<Longrightarrow> i \<le> j \<Longrightarrow> atmost A j m"
  unfolding atmost_def adds_def by (blast intro: wp_mono order_trans)

lemma atmost_ret [atmost_rules]: "atmost A n (ret a)"
  by (simp add: atmost_def wp_ret adds_refl)

lemma atmost_panic [atmost_rules]: "atmost A n (panic e)"
  by (simp add: atmost_def wp_panic adds_refl)

lemma atmost_gets [atmost_rules]: "atmost A n (gets f)"
  by (simp add: atmost_def wp_gets adds_refl)

lemma atmost_deref [atmost_rules]: "atmost A n (deref p)"
  by (cases p) (auto intro: atmost_rules)

lemma atmost_modify [atmost_rules]: "(\<And>s. trace (f s) = trace s) \<Longrightarrow> atmost A n (modify f)"
  by (simp add: atmost_def wp_modify adds_refl)

lemma atmost_ask [atmost_rules]: "atmost A n (ask f)"
  by (simp add: atmost_def wp_ask adds_refl)

lemma adds_mono: "adds A i s t \<Longrightarrow> i \<le> j \<Longrightarrow> adds A j s t"
  by (auto simp: adds_def)

lemma atmost_bindc_add:
  assumes m: "atmost A i m" and f: "\<And>a. atmost A j (f a)"
  shows "atmost A (i + j) (bindc m f)"
  unfolding atmost_def wp_bindc
proof
  fix s
  have "wp (f a) (\<lambda>_. adds A (i + j) s) (adds A (i + j) s) t" if "adds A i s t" for a t
    using f [of a, unfolded atmost_def, rule_format, of t]
    by (rule wp_mono) (blast intro: adds_trans [OF that])+
  then show "wp m (\<lambda>a. wp (f a) (\<lambda>_. adds A (i + j) s) (adds A (i + j) s)) (adds A (i + j) s) s"
    using m [unfolded atmost_def, rule_format, of s]
    by (elim wp_mono) (auto intro: adds_mono)
qed

lemma atmost_bindc [atmost_rules]: "atmost A 0 m \<Longrightarrow> (\<And>a. atmost A n (f a)) \<Longrightarrow> atmost A n (bindc m f)"
  by (rule atmost_bindc_add [where i = 0, simplified])

lemma atmost_bindc_left: "atmost A n m \<Longrightarrow> (\<And>a. atmost A 0 (f a)) \<Longrightarrow> atmost A n (bindc m f)"
  by (rule atmost_bindc_add [where j = 0, simplified])

lemma atmost_wp: "atmost A n m \<Longrightarrow> (\<And>t. adds A n s t \<Longrightarrow> Q t) \<Longrightarrow> wp m (\<lambda>_. Q) Q s"
  unfolding atmost_def by (blast intro: wp_mono)

lemma atmost_does:
  assumes "does m P" and "\<And>r es. P r es \<Longrightarrow> length (filter A es) \<le> n"
  shows "atmost A n m"
  unfolding atmost_def
  by (intro allI, rule does_wp [OF assms(1)]) (auto simp: adds_def dest: assms(2))

lemma atmost_quiet: "quiet m \<Longrightarrow> atmost A n m"
  by (erule atmost_does) simp

lemma atmost_act [atmost_rules]:
  "(\<And>a. length (filter A (key [ev a])) \<le> n) \<Longrightarrow> atmost A n (act f ev)"
  by (rule atmost_does [of _ "\<lambda>r es. \<exists>a. es = key [ev a]"]) (auto intro!: does_act)

lemma atmost_whenc [atmost_rules]: "atmost A n m \<Longrightarrow> atmost A n (whenc b m)"
  by (auto simp: whenc_def intro: atmost_rules)

lemma atmost_if [atmost_rules]: "atmost A n m \<Longrightarrow> atmost A n m' \<Longrightarrow> atmost A n (if b then m else m')"
  by simp

lemma atmost_option [atmost_rules]:
  "atmost A n m \<Longrightarrow> (\<And>a. atmost A n (f a)) \<Longrightarrow> atmost A n (case p of None \<Rightarrow> m | Some a \<Rightarrow> f a)"
  by (cases p) auto

lemma atmost_sum [atmost_rules]:
  "(\<And>e. atmost A n (f e)) \<Longrightarrow> (\<And>a. atmost A n (g a)) \<Longrightarrow> atmost A n (case p of Inl e \<Rightarrow> f e | Inr a \<Rightarrow> g a)"
  by (cases p) auto

lemma atmost_prod [atmost_rules]: "(\<And>a b. atmost A n (f a b)) \<Longrightarrow> atmost A n (case p of (a, b) \<Rightarrow> f a b)"
  by (cases p) auto

text \<open>A saga: the compensations add none, every step adds its own.\<close>

lemma atmost_unwind: "(\<And>g. g \<in> set gs \<Longrightarrow> atmost A 0 g) \<Longrightarrow> atmost A 0 (unwind gs)"
  by (induction gs) (simp_all add: unwind.simps atmost_rules)

lemma atmost_run_steps:
  assumes "length ns = length sts"
    and "\<And>i. i < length sts \<Longrightarrow> atmost A (ns ! i) (fst (snd (sts ! i)))"
    and "\<And>i. i < length sts \<Longrightarrow> atmost A 0 (snd (snd (sts ! i)))"
    and "\<And>g. g \<in> set gs \<Longrightarrow> atmost A 0 g"
  shows "atmost A (sum_list ns) (run_steps sts gs)"
  using assms
proof (induction sts arbitrary: ns gs)
  case Nil
  then show ?case by (simp add: run_steps.simps atmost_rules)
next
  case (Cons st sts)
  obtain nm f g where st: "st = (nm, f, g)" by (cases st)
  obtain k ns' where ns: "ns = k # ns'" using Cons.prems(1) by (cases ns) auto
  have f: "atmost A k f" and g: "atmost A 0 g"
    using Cons.prems(2) [of 0] Cons.prems(3) [of 0] by (simp_all add: st ns)
  have rest: "atmost A (sum_list ns') (run_steps sts (g # gs))"
    using Cons.prems(1) Cons.prems(2) [of "Suc _"] Cons.prems(3) [of "Suc _"] Cons.prems(4) g
    by (intro Cons.IH) (auto simp: ns)
  have "atmost A (sum_list ns') (thenc (unwind (g # gs)) (ret (Some e)))" for e
    using Cons.prems(4) g by (auto intro!: atmost_rules atmost_unwind)
  with rest have "atmost A (k + sum_list ns') (bindc f (\<lambda>err. case err of
       None \<Rightarrow> run_steps sts (g # gs) | Some e \<Rightarrow> thenc (unwind (g # gs)) (ret (Some e))))"
    by (intro atmost_bindc_add f atmost_option)
  then show ?case by (simp add: st ns run_steps.simps)
qed

text \<open>With the weights given by the names of the steps; and for sagas that add nothing.\<close>

lemma atmost_run_named:
  assumes "\<And>n f g. (n, f, g) \<in> set sts \<Longrightarrow> atmost A (k n) f \<and> atmost A 0 g"
    and "\<And>g. g \<in> set gs \<Longrightarrow> atmost A 0 g"
    and "sum_list (map (k \<circ> fst) sts) \<le> m"
  shows "atmost A m (run_steps sts gs)"
proof -
  have step: "atmost A (k (fst st)) (fst (snd st)) \<and> atmost A 0 (snd (snd st))" if "st \<in> set sts" for st
    using assms(1) that by (cases st) auto
  have "atmost A (sum_list (map (k \<circ> fst) sts)) (run_steps sts gs)"
    by (rule atmost_run_steps) (use step assms(2) in auto)
  then show ?thesis using assms(3) by (rule atmost_mono)
qed

lemma atmost_run_none:
  assumes "\<And>n f g. (n, f, g) \<in> set sts \<Longrightarrow> atmost A 0 f \<and> atmost A 0 g"
    and "\<And>g. g \<in> set gs \<Longrightarrow> atmost A 0 g"
  shows "atmost A 0 (run_steps sts gs)"
  by (rule atmost_run_named [where k = "\<lambda>_. 0"]) (use assms in auto)

subsection \<open>The order of events\<close>

text \<open>\<open>preceded A ok es\<close>: no event of the class \<open>A\<close> comes before the first one that is \<open>ok\<close>.\<close>

fun preceded :: "(event \<Rightarrow> bool) \<Rightarrow> (event \<Rightarrow> bool) \<Rightarrow> event list \<Rightarrow> bool" where
  "preceded A ok [] = True"
| "preceded A ok (e # es) = (\<not> A e \<and> (ok e \<or> preceded A ok es))"

lemma preceded_nth: "preceded A ok es \<Longrightarrow> i < length es \<Longrightarrow> A (es ! i) \<Longrightarrow> \<exists>j < i. ok (es ! j)"
proof (induction es arbitrary: i)
  case (Cons e es)
  then obtain i' where i': "i = Suc i'" by (cases i) auto
  show ?case
  proof (cases "ok e")
    case False
    with Cons i' obtain j where "j < i'" "ok (es ! j)" by force
    with i' show ?thesis by (intro exI [of _ "Suc j"]) simp
  qed (use i' in \<open>auto intro!: exI [of _ 0]\<close>)
qed simp

lemma preceded_free: "filter A es = [] \<Longrightarrow> preceded A ok (es @ es') \<longleftrightarrow> (\<exists>e \<in> set es. ok e) \<or> preceded A ok es'"
  by (induction es) (auto split: if_splits)

definition guards :: "(event \<Rightarrow> bool) \<Rightarrow> (event \<Rightarrow> bool) \<Rightarrow> ('w st, goerror option) comp \<Rightarrow> bool" where
  "guards A ok f \<longleftrightarrow> (\<forall>s. wp f
     (\<lambda>err t. \<exists>es. trace t = trace s @ es \<and> filter A (key es) = [] \<and> (err = None \<longrightarrow> (\<exists>e \<in> set (key es). ok e)))
     (adds A 0 s) s)"

definition ordered :: "(event \<Rightarrow> bool) \<Rightarrow> (event \<Rightarrow> bool) \<Rightarrow> 'w st \<Rightarrow> 'w st \<Rightarrow> bool" where
  "ordered A ok s t \<longleftrightarrow> (\<exists>es. trace t = trace s @ es \<and> preceded A ok (key es))"

lemma ordered_free: "adds A 0 s t \<Longrightarrow> ordered A ok s t"
  using preceded_free [of A _ ok "[]"] by (force simp: adds_def ordered_def)

lemma ordered_after_free: "adds A 0 s t \<Longrightarrow> ordered A ok t u \<Longrightarrow> ordered A ok s u"
proof -
  assume "adds A 0 s t" "ordered A ok t u"
  then obtain es es' where "trace u = trace s @ (es @ es')" "filter A (key es) = []" "preceded A ok (key es')"
    by (auto simp: adds_def ordered_def)
  then show ?thesis unfolding ordered_def by (intro exI [of _ "es @ es'"]) (simp add: preceded_free)
qed

text \<open>
  In a saga whose steps before \<open>f\<close> add no event of the class, and whose \<open>f\<close> reports success only
  after an \<open>ok\<close> event, no event of the class comes before such an event: the steps after \<open>f\<close> and
  all compensations of theirs may add them.
\<close>

lemma run_steps_ordered:
  assumes "\<And>n f g. (n, f, g) \<in> set pre \<Longrightarrow> atmost A 0 f \<and> atmost A 0 g"
    and "\<And>g. g \<in> set gs \<Longrightarrow> atmost A 0 g"
    and f: "guards A ok f" and g: "atmost A 0 g"
    and post: "\<And>gs. set gs \<subseteq> G \<union> snd ` snd ` set pre \<union> {g} \<Longrightarrow> atmost (\<lambda>_. False) 0 (run_steps post gs)"
    and "set gs \<subseteq> G"
  shows "wp (run_steps (pre @ (n, f, g) # post) gs) (\<lambda>_. ordered A ok s) (ordered A ok s) s"
  using assms(1,2,5,6)
proof (induction pre arbitrary: s gs G)
  case Nil
  have unwind: "wp (unwind (g # gs)) (\<lambda>_. ordered A ok s) (ordered A ok s) t" if "adds A 0 s t" for t
  proof -
    have "atmost A 0 (unwind (g # gs))" using Nil.prems(2) g by (intro atmost_unwind) auto
    then show ?thesis by (rule atmost_wp) (blast intro: ordered_after_free [OF that] ordered_free)
  qed
  have rest: "wp (run_steps post (g # gs)) (\<lambda>_. ordered A ok s) (ordered A ok s) t"
    if es: "trace t = trace s @ es" "filter A (key es) = []" "x \<in> set es" "is_key x" "ok x" for t es x
  proof -
    have "ordered A ok s u" if "adds (\<lambda>_. False) 0 t u" for u
    proof -
      from that es(1) obtain es' where "trace u = trace s @ (es @ es')" by (auto simp: adds_def)
      then show ?thesis
        unfolding ordered_def using es(2-)
        by (intro exI [of _ "es @ es'"] conjI) (simp, simp only: filter_append preceded_free, auto)
    qed
    with Nil.prems(3) [of "g # gs"] Nil.prems(4) show ?thesis by (auto intro: atmost_wp)
  qed
  show ?case
    unfolding append_Nil wp_run_steps_Cons
    using f [unfolded guards_def, rule_format, of s]
    by (rule wp_mono)
      (auto split: option.split intro: unwind rest ordered_free simp: adds_def simp del: filter_filter)
next
  case (Cons st pre)
  obtain n' f' g' where st: "st = (n', f', g')" by (cases st)
  have f': "atmost A 0 f'" and g': "atmost A 0 g'" using Cons.prems(1) [of n' f' g'] by (simp_all add: st)
  have unwind: "wp (unwind (g' # gs)) (\<lambda>_. ordered A ok s) (ordered A ok s) t" if "adds A 0 s t" for t
  proof -
    have "atmost A 0 (unwind (g' # gs))" using Cons.prems(2) g' by (intro atmost_unwind) auto
    then show ?thesis by (rule atmost_wp) (blast intro: ordered_after_free [OF that] ordered_free)
  qed
  have rest: "wp (run_steps (pre @ (n, f, g) # post) (g' # gs)) (\<lambda>_. ordered A ok s) (ordered A ok s) t"
    if "adds A 0 s t" for t
    by (rule wp_mono [OF Cons.IH [where G = "insert g' G"]])
      (use Cons.prems g' in \<open>auto simp: st intro: ordered_after_free [OF that]\<close>)
  show ?case
    unfolding append_Cons st wp_run_steps_Cons
    using f' [unfolded atmost_def, rule_format, of s]
    by (rule wp_mono) (auto split: option.split intro: unwind rest ordered_free)
qed

text \<open>
  A saga that can only meet an event of the class \<open>P\<close> in its step \<open>f\<close>: a run either has none, or
  \<open>f\<close> has failed with it, and then what the compensations make of it (\<open>Good\<close>) is the result.  The
  steps before \<open>f\<close> have added no event of the class \<open>C\<close>, which \<open>Good\<close> may speak about.
\<close>

lemma run_steps_branch:
  assumes pre: "\<And>n f g. (n, f, g) \<in> set pre \<Longrightarrow> atmost P 0 f \<and> atmost C 0 f \<and> atmost P 0 g"
    and gs: "\<And>g. g \<in> set gs \<Longrightarrow> atmost P 0 g"
    and g: "atmost P 0 g"
    and post: "\<And>n f g. (n, f, g) \<in> set post \<Longrightarrow> atmost P 0 f \<and> atmost P 0 g"
    and f: "\<And>t. wp f (\<lambda>err u. adds P 0 t u \<or> (\<exists>e. err = Some e \<and>
        wp (unwind (g # rev (map (snd \<circ> snd) pre) @ gs)) (\<lambda>_. Good e t) (GoodE t) u)) (adds P 0 t) t"
    and mono: "\<And>s t e v. adds C 0 s t \<Longrightarrow> Good e t v \<Longrightarrow> Good e s v"
    and monoE: "\<And>s t v. adds C 0 s t \<Longrightarrow> GoodE t v \<Longrightarrow> GoodE s v"
  shows "wp (run_steps (pre @ (n, f, g) # post) gs)
     (\<lambda>err u. adds P 0 s u \<or> (\<exists>e. err = Some e \<and> Good e s u)) (\<lambda>u. adds P 0 s u \<or> GoodE s u) s"
  using pre gs f
proof (induction pre arbitrary: s gs)
  case Nil
  have unw: "wp (unwind (g # gs)) (\<lambda>_. adds P 0 s) (adds P 0 s) t" if "adds P 0 s t" for t
    using Nil.prems(2) g
    by (intro atmost_wp [OF atmost_unwind]) (auto intro: adds_trans [OF that, where j = 0, simplified])
  have rest: "wp (run_steps post (g # gs)) (\<lambda>_. adds P 0 s) (adds P 0 s) t" if "adds P 0 s t" for t
  proof -
    have "atmost P (sum_list (replicate (length post) 0)) (run_steps post (g # gs))"
      using post Nil.prems(2) g by (intro atmost_run_steps) (force simp: in_set_conv_nth prod_eq_iff)+
    moreover have "sum_list (replicate (length post) (0 :: nat)) = 0" by (simp add: sum_list_replicate)
    ultimately show ?thesis by (intro atmost_wp) (auto intro: adds_trans [OF that, where j = 0, simplified])
  qed
  show ?case
    unfolding append_Nil wp_run_steps_Cons
  proof (rule wp_mono [OF Nil.prems(3) [of s]], goal_cases)
    case (1 err t)
    show ?case
    proof (cases "adds P 0 s t")
      case True
      then show ?thesis by (auto split: option.split intro: wp_mono [OF unw] wp_mono [OF rest])
    next
      case False
      with 1 show ?thesis by (auto elim: wp_mono)
    qed
  qed simp
next
  case (Cons st pre)
  obtain n' f' g' where st: "st = (n', f', g')" by (cases st)
  have P: "atmost P 0 f'" and C: "atmost C 0 f'" and g': "atmost P 0 g'"
    using Cons.prems(1) [of n' f' g'] by (simp_all add: st)
  have unw: "wp (unwind (g' # gs)) (\<lambda>_. adds P 0 s) (adds P 0 s) t" if "adds P 0 s t" for t
    using Cons.prems(2) g'
    by (intro atmost_wp [OF atmost_unwind]) (auto intro: adds_trans [OF that, where j = 0, simplified])
  have rest: "wp (run_steps (pre @ (n, f, g) # post) (g' # gs))
      (\<lambda>err u. adds P 0 s u \<or> (\<exists>e. err = Some e \<and> Good e s u)) (\<lambda>u. adds P 0 s u \<or> GoodE s u) t"
    if "adds P 0 s t" "adds C 0 s t" for t
    by (rule wp_mono [OF Cons.IH])
      (use Cons.prems g' that mono monoE in \<open>auto simp: st intro: adds_trans [where j = 0, simplified]\<close>)
  have "wp f' (\<lambda>_ t. adds P 0 s t \<and> adds C 0 s t) (\<lambda>t. adds P 0 s t \<and> adds C 0 s t) s"
    using wp_conj [OF P [unfolded atmost_def, rule_format, of s] C [unfolded atmost_def, rule_format, of s]] .
  then show ?case
    unfolding append_Cons st wp_run_steps_Cons
    by (rule wp_mono) (auto split: option.split intro: rest wp_mono [OF unw])
qed

subsection \<open>The last compensation\<close>

text \<open>Whatever step fails, the compensation of the first step runs last.\<close>

lemma unwind_last:
  assumes "\<And>s. wp g (\<lambda>_. Q) (\<lambda>_. True) s"
  shows "wp (unwind (gs @ [g])) (\<lambda>_. Q) (\<lambda>_. True) s"
  by (induction gs arbitrary: s) (simp_all add: wp_rules assms wp_mono [OF wpI])

lemma run_steps_last:
  assumes "\<And>s. wp g (\<lambda>_. Q) (\<lambda>_. True) s"
  shows "wp (run_steps sts (gs @ [g])) (\<lambda>err t. err \<noteq> None \<longrightarrow> Q t) (\<lambda>_. True) s"
proof (induction sts arbitrary: s gs)
  case Nil
  then show ?case by (simp add: wp_rules)
next
  case (Cons st sts)
  obtain n' f' g' where st: "st = (n', f', g')" by (cases st)
  show ?case
    unfolding st wp_run_steps_Cons
    using Cons.IH [of "g' # gs"] unwind_last [OF assms, of "g' # gs"]
    by (intro wpI) (auto split: option.split)
qed

lemma run_steps_first_compensation:
  assumes "\<And>s. wp g (\<lambda>_. Q) (\<lambda>_. True) s"
  shows "wp (run_steps ((n, f, g) # sts) []) (\<lambda>err t. err \<noteq> None \<longrightarrow> Q t) (\<lambda>_. True) s"
  unfolding wp_run_steps_Cons
  using run_steps_last [OF assms, of sts "[]"] unwind_last [OF assms, of "[]"]
  by (intro wpI) (auto split: option.split)

end
