(* ===== verification/Bank_Gateway.thy ===== *)
theory Bank_Gateway
  imports Effects
begin

text \<open>
  The bank gateway client, \<open>infrastructure/service/bank_service/bank_gw.go\<close>: the HTTP round trip
  and the operations on top of it.  Every operation returns the decoded answer and an error;
  which status words count as an answer differs per operation.  The operations that only ask for
  information leave no entry in the trace.
\<close>

definition ClientCode :: string where
  "ClientCode = ''GPAYCORE''"

text \<open>\<open>time.Now().Unix() * 1000\<close>\<close>

definition trans_time :: "gotime \<Rightarrow> int64" where
  "trans_time now = word_of_int (now div 1000000000) * 1000"

text \<open>
  \<open>httpRequest\<close> after \<open>client.Do\<close>: the deferred \<open>Body.Close\<close> decides the error once the body has
  been decoded.
\<close>

definition http_result :: "'w services \<Rightarrow> goerror + HttpResponse \<Rightarrow> BankRes \<times> goerror option" where
  "http_result S r = (case r of
     Inl e \<Rightarrow> (BankRes_zero, Some e)
   | Inr resp \<Rightarrow>
       if StatusCode resp = 500 then (BankRes_zero, Some (ErrorString ''BANK GATEWAY SERVER ERROR''))
       else (case Body resp of
         Inl e \<Rightarrow> (BankRes_zero, Some e)
       | Inr responseByte \<Rightarrow> (case bk_Unmarshal S responseByte of
           (response, Some e) \<Rightarrow> (response, Some e)
         | (response, None) \<Rightarrow> (response, CloseErr resp))))"

definition httpRequest :: "'w services \<Rightarrow> BankReq \<Rightarrow> ('w st, BankRes \<times> goerror option) comp" where
  "httpRequest S req =
     act (\<lambda>w. apfst (http_result S) (bk_Do S req w)) (\<lambda>(response, err). EvBank req response err)"

definition httpQuery :: "'w services \<Rightarrow> BankReq \<Rightarrow> ('w st, BankRes \<times> goerror option) comp" where
  "httpQuery S req = ask (\<lambda>w. apfst (http_result S) (bk_Do S req w))"

text \<open>
  The end of every operation: an error of the round trip is passed on, with the answer
  (\<open>keepErr\<close>) or without it; an answer whose status is not one of the expected is an error made
  of its message, again with the answer (\<open>keepBad\<close>) or without it.
\<close>

definition checked ::
    "bool \<Rightarrow> bool \<Rightarrow> (BankGwStatus \<Rightarrow> bool) \<Rightarrow> BankRes \<times> goerror option \<Rightarrow> BankRes \<times> goerror option" where
  "checked keepErr keepBad ok r = (case r of
     (response, Some e) \<Rightarrow> (if keepErr then response else BankRes_zero, Some e)
   | (response, None) \<Rightarrow>
       if ok (br_ErrorCode response) then (response, None)
       else (if keepBad then response else BankRes_zero, Some (ErrorString (br_Message response))))"

abbreviation envelope :: "string \<Rightarrow> string \<Rightarrow> string \<Rightarrow> gotime \<Rightarrow> BankReqData \<Rightarrow> string \<Rightarrow> BankReq" where
  "envelope path clientCode gpayBankCode now data ip \<equiv>
     \<lparr>bq_Path = path, bq_Method = ''POST'', bq_ClientCode = clientCode, bq_GPayBankCode = gpayBankCode,
      bq_TransTime = trans_time now, bq_Data = data, bq_IpAddress = ip\<rparr>"

subsection \<open>Operations that move money or change a link\<close>

definition bank_VerifyOTP ::
    "'w services \<Rightarrow> string \<Rightarrow> string \<Rightarrow> string \<Rightarrow> int64 \<Rightarrow> string \<Rightarrow> ('w st, BankRes \<times> goerror option) comp" where
  "bank_VerifyOTP S gpayBankCode refBankTraceID orderId linkId otp =
     bindc (ask (sv_now S)) (\<lambda>now.
     bindc (httpRequest S (envelope ''verifyotp'' ClientCode gpayBankCode now
              (VerifyOTPRequestData refBankTraceID linkId otp ''MOBILE'' ''verify OTP'' orderId) ''ip'')) (\<lambda>r.
     ret (checked True True (\<lambda>st. BankGwStatus_IsVerifying st \<or> BankGwStatus_IsSuccess st \<or>
                               BankGwStatus_IsWrongOTP st) r)))"

definition Link :: "'w services \<Rightarrow> LinkRequestData \<Rightarrow> string \<Rightarrow> string \<Rightarrow> ('w st, BankRes \<times> goerror option) comp" where
  "Link S data gpBankCode ip =
     bindc (ask (sv_now S)) (\<lambda>now.
     bindc (httpRequest S (envelope ''link'' ''GPAYWEB'' gpBankCode now (LinkData data) ip)) (\<lambda>r.
     ret (checked True True (\<lambda>st. BankGwStatus_IsSuccess st \<or> BankGwStatus_IsNeedToEnterOTP st) r)))"

definition VerifyOTPLink ::
    "'w services \<Rightarrow> LinkRequestData \<Rightarrow> string \<Rightarrow> string \<Rightarrow> ('w st, BankRes \<times> goerror option) comp" where
  "VerifyOTPLink S data gpBankCode ip =
     bindc (ask (sv_now S)) (\<lambda>now.
     bindc (httpRequest S (envelope ''link'' ''GPAYWEB'' gpBankCode now (LinkData data) ip)) (\<lambda>r.
     ret (checked True True BankGwStatus_IsSuccess r)))"

definition UnLink :: "'w services \<Rightarrow> string \<Rightarrow> int64 \<Rightarrow> ('w st, BankRes \<times> goerror option) comp" where
  "UnLink S bank_code linkId =
     bindc (ask (sv_now S)) (\<lambda>now.
     bindc (httpRequest S (envelope ''unlink'' ClientCode bank_code now
              (UnLinkRequestData linkId ''MOBILE'' []) ''ip'')) (\<lambda>r.
     ret (checked True True BankGwStatus_IsSuccess r)))"

definition bank_CashIn ::
    "'w services \<Rightarrow> string \<Rightarrow> int64 \<Rightarrow> int64 \<Rightarrow> string \<Rightarrow> string \<Rightarrow> ('w st, BankRes \<times> goerror option) comp" where
  "bank_CashIn S gpayBankCode linkId amount gpayOrderId userId =
     bindc (ask (sv_now S)) (\<lambda>now.
     bindc (httpRequest S (envelope ''cashin'' ClientCode gpayBankCode now
              (CashInDataRequest amount gpayOrderId linkId ''MOBILE'' userId ''cash in'') ''ip'')) (\<lambda>r.
     ret (checked True True (\<lambda>st. BankGwStatus_IsNeedToEnterOTP st \<or> BankGwStatus_IsSuccess st) r)))"

definition CashInNapas ::
    "'w services \<Rightarrow> BankReqData \<Rightarrow> string \<Rightarrow> string \<Rightarrow> ('w st, BankRes \<times> goerror option) comp" where
  "CashInNapas S data gpayBankCode ip =
     bindc (ask (sv_now S)) (\<lambda>now.
     bindc (httpRequest S (envelope ''cashin'' ''GPAYWEB'' gpayBankCode now data ip)) (\<lambda>r.
     ret (checked True True (\<lambda>st. \<not> BankGwStatus_IsFail st) r)))"

definition bank_CashOut ::
    "'w services \<Rightarrow> int64 \<Rightarrow> string \<Rightarrow> string \<Rightarrow> int64 \<Rightarrow> string \<Rightarrow> string \<Rightarrow> ('w st, BankRes \<times> goerror option) comp" where
  "bank_CashOut S amount bank_code orderId linkId description userId =
     bindc (ask (sv_now S)) (\<lambda>now.
     bindc (httpRequest S (envelope ''cashout'' ClientCode bank_code now
              (CashOutRequestData amount orderId linkId ''MOBILE'' userId ''Cashout'') ''ip'')) (\<lambda>r.
     ret (checked True True (\<lambda>st. BankGwStatus_IsSuccess st \<or> BankGwStatus_IsVerifying st) r)))"

definition bank_IBFTTransfer ::
    "'w services \<Rightarrow> string \<Rightarrow> string \<Rightarrow> string \<Rightarrow> string \<Rightarrow> string \<Rightarrow> string \<Rightarrow> int64 \<Rightarrow> string \<Rightarrow>
     ('w st, BankRes \<times> goerror option) comp" where
  "bank_IBFTTransfer S accountNumber cardNumber gpayUserId orderId ibftCode description amount bankName =
     bindc (ask (sv_now S)) (\<lambda>now.
     bindc (httpRequest S (envelope ''ibftfundtransfer'' ClientCode GPAY_VCCB now
              (IBFTTransferReqData accountNumber cardNumber gpayUserId orderId amount ibftCode description
                 bankName) ''ip'')) (\<lambda>r.
     ret (checked False True (\<lambda>st. BankGwStatus_IsVerifying st \<or> BankGwStatus_IsSuccess st) r)))"

definition CreditPayment ::
    "'w services \<Rightarrow> CreditPaymentRequestData \<Rightarrow> ('w st, BankRes \<times> goerror option) comp" where
  "CreditPayment S dataReq =
     bindc (ask (sv_now S)) (\<lambda>now.
     bindc (httpRequest S (envelope ''credit/payment3ds'' ''GPAYCORE'' GpayBankCodeCreditPayment now
              (CreditData dataReq) ''ip'')) (\<lambda>r.
     ret (checked False False (\<lambda>st. BankGwStatus_IsVerifying st \<or> BankGwStatus_IsSuccess st) r)))"

definition ReOpenVA ::
    "'w services \<Rightarrow> BankReqData \<Rightarrow> string \<Rightarrow> ('w st, BankRes \<times> goerror option) comp" where
  "ReOpenVA S reqData provider =
     bindc (ask (sv_now S)) (\<lambda>now.
     bindc (httpRequest S (envelope ''va/reopen'' ''GPAYCORE'' provider now reqData ''ip'')) (\<lambda>r.
     ret (checked False False BankGwStatus_IsSuccess r)))"

definition CreateVA ::
    "'w services \<Rightarrow> CreateVARequestData \<Rightarrow> string \<Rightarrow> ('w st, BankRes \<times> goerror option) comp" where
  "CreateVA S req provider =
     bindc (ask (sv_now S)) (\<lambda>now.
     bindc (httpRequest S (envelope ''va/create'' ''GPAYCORE'' provider now (CreateVAData req) ''ip'')) (\<lambda>r.
     ret (checked False False BankGwStatus_IsSuccess r)))"

definition UpdateVA ::
    "'w services \<Rightarrow> CreateVARequestData \<Rightarrow> string \<Rightarrow> ('w st, BankRes \<times> goerror option) comp" where
  "UpdateVA S reqData provider =
     bindc (ask (sv_now S)) (\<lambda>now.
     bindc (httpRequest S (envelope ''va/update'' ''GPAYCORE'' provider now (CreateVAData reqData) ''ip'')) (\<lambda>r.
     ret (checked False False BankGwStatus_IsSuccess r)))"

definition CloseVA ::
    "'w services \<Rightarrow> BankReqData \<Rightarrow> string \<Rightarrow> ('w st, BankRes \<times> goerror option) comp" where
  "CloseVA S reqData provider =
     bindc (ask (sv_now S)) (\<lambda>now.
     bindc (httpRequest S (envelope ''va/close'' ''GPAYCORE'' provider now reqData ''ip'')) (\<lambda>r.
     ret (checked False False BankGwStatus_IsSuccess r)))"

definition PGInitTrans ::
    "'w services \<Rightarrow> string \<Rightarrow> BankReqData \<Rightarrow> ('w st, BankRes \<times> goerror option) comp" where
  "PGInitTrans S bank_code data =
     bindc (ask (sv_now S)) (\<lambda>now.
     bindc (httpRequest S (envelope ''payment-gateway/init-trans'' ClientCode bank_code now data ''ip'')) (\<lambda>r.
     ret (checked False False BankGwStatus_IsSuccess r)))"

definition PGInitOrder :: "'w services \<Rightarrow> BankReq \<Rightarrow> ('w st, BankRes \<times> goerror option) comp" where
  "PGInitOrder S req =
     bindc (ask (sv_now S)) (\<lambda>now.
     bindc (httpRequest S (req\<lparr>bq_Path := ''payment-gateway/init-trans'', bq_Method := ''POST'',
              bq_ClientCode := ClientCode, bq_TransTime := trans_time now\<rparr>)) (\<lambda>r.
     ret (checked False False BankGwStatus_IsSuccess r)))"

definition ReFund :: "'w services \<Rightarrow> string \<Rightarrow> int64 \<Rightarrow> ('w st, BankRes \<times> goerror option) comp" where
  "ReFund S gpayTransactionId amount =
     bindc (ask (sv_now S)) (\<lambda>now.
     bindc (httpRequest S (envelope ''refund'' ClientCode ''gpayBankCode'' now
              (RefundReqData gpayTransactionId (sprint (sint amount))) ''ip'')) (\<lambda>r.
     ret (checked False False BankGwStatus_IsSuccess r)))"

subsection \<open>Operations that only ask\<close>

definition LinkInfo :: "'w services \<Rightarrow> int64 \<Rightarrow> ('w st, BankRes \<times> goerror option) comp" where
  "LinkInfo S linkId =
     bindc (ask (sv_now S)) (\<lambda>now.
     bindc (httpQuery S (envelope ''linkinfo'' ClientCode [] now (LinkInfoRequestData linkId []) ''ip'')) (\<lambda>r.
     ret (checked True True (\<lambda>st. \<not> BankGwStatus_IsFail st) r)))"

definition LinkList :: "'w services \<Rightarrow> string \<Rightarrow> ('w st, BankRes \<times> goerror option) comp" where
  "LinkList S gpayUserId =
     bindc (ask (sv_now S)) (\<lambda>now.
     bindc (httpQuery S (envelope ''linklist'' ClientCode ''B'' now
              (ListLinkRequestData gpayUserId ''get linked list'') ''ip'')) (\<lambda>r.
     ret (checked False False (\<lambda>st. \<not> BankGwStatus_IsFail st) r)))"

definition IBFTInquiry ::
    "'w services \<Rightarrow> string \<Rightarrow> string \<Rightarrow> string \<Rightarrow> ('w st, BankRes \<times> goerror option) comp" where
  "IBFTInquiry S accountNumber cardNumber ibftCode =
     bindc (ask (sv_now S)) (\<lambda>now.
     bindc (httpQuery S (envelope ''ibftinquiry'' ClientCode GPAY_VCCB now
              (IBFTInquiryCheckData accountNumber cardNumber ibftCode []) ''ip'')) (\<lambda>r.
     ret (checked True True BankGwStatus_IsSuccess r)))"

definition CheckGpayBankBalance ::
    "'w services \<Rightarrow> string \<Rightarrow> string \<Rightarrow> ('w st, BankRes \<times> goerror option) comp" where
  "CheckGpayBankBalance S gpayBankCode accountNumber =
     bindc (ask (sv_now S)) (\<lambda>now.
     httpQuery S (envelope ''ibftbalance'' ''GPAYCORE'' gpayBankCode now
       (BalanceCheckRequestData accountNumber ''MOBILE'' ''kiem tra tkdb gpay'') []))"

definition IBFTCheckBalance :: "'w services \<Rightarrow> string \<Rightarrow> ('w st, BankRes \<times> goerror option) comp" where
  "IBFTCheckBalance S accountNumber =
     bindc (ask (sv_now S)) (\<lambda>now.
     httpQuery S (envelope ''balance'' ClientCode ''GPNAPASVCCB'' now
       (IBFTGpayBalanceCheckData accountNumber ''MOBILE'' ''check tai khoan dam bao gpay IBFT'') []))"

definition RetrieveOrderStatus ::
    "'w services \<Rightarrow> string \<Rightarrow> string \<Rightarrow> ('w st, BankRes \<times> goerror option) comp" where
  "RetrieveOrderStatus S orderId gPayBankCode =
     bindc (ask (sv_now S)) (\<lambda>now.
     bindc (httpQuery S (envelope ''retrieve'' ''GPAYCORE'' gPayBankCode now
              (CreditData (CreditPaymentRequestData_zero\<lparr>cp_GpayTransactionId := orderId\<rparr>)) ''ip'')) (\<lambda>r.
     ret (checked False False (\<lambda>st. BankGwStatus_IsSuccess st \<or> BankGwStatus_IsVerifying st \<or>
                                 BankGwStatus_IsFail st) r)))"

definition DetailVA :: "'w services \<Rightarrow> string \<Rightarrow> string \<Rightarrow> ('w st, BankRes \<times> goerror option) comp" where
  "DetailVA S accountNumber provider =
     bindc (ask (sv_now S)) (\<lambda>now.
     bindc (httpQuery S (envelope ''va/detail'' ''GPAYCORE'' provider now (DetailVARequestData accountNumber) ''ip'')) (\<lambda>r.
     ret (checked False False BankGwStatus_IsSuccess r)))"

definition CheckInternationalBankBin ::
    "'w services \<Rightarrow> string \<Rightarrow> ('w st, BankRes \<times> goerror option) comp" where
  "CheckInternationalBankBin S bankbin =
     bindc (httpQuery S (BankReq_zero\<lparr>bq_Path := ''credit/whitelist/bankbin/search'', bq_Method := ''POST'',
              bq_Data := CheckBankBin bankbin 1 ''ACTIVE''\<rparr>)) (\<lambda>r.
     ret (checked False False BankGwStatus_IsSuccess r))"

definition bank_CheckByPassOTP ::
    "'w services \<Rightarrow> BankReqData \<Rightarrow> ('w st, BankRes \<times> goerror option) comp" where
  "bank_CheckByPassOTP S req =
     bindc (httpQuery S (BankReq_zero\<lparr>bq_Path := ''otpLimit/verify'', bq_Method := ''POST'', bq_Data := req\<rparr>))
       (\<lambda>(response, err). case err of
         Some e \<Rightarrow> ret (BankRes_zero, Some e)
       | None \<Rightarrow>
           if \<not> BankGwStatus_IsSuccess (br_ErrorCode response) \<and>
              \<not> BankGwStatus_IsNeedToEnterOTP (br_ErrorCode response)
           then ret (BankRes_zero, Some (ErrorString
                  (if br_Message response = [] then ''Da co loi xay ra , vui long thu lai sau''
                   else br_Message response)))
           else ret (response, None))"

definition GetBanks :: "'w services \<Rightarrow> ('w st, BankRes \<times> goerror option) comp" where
  "GetBanks S =
     bindc (httpQuery S (BankReq_zero\<lparr>bq_Path := ''bank/active'', bq_Method := ''GET''\<rparr>)) (\<lambda>r.
     ret (checked True True BankGwStatus_IsSuccess r))"

subsection \<open>checkByPassOTP.go\<close>

text \<open>\<open>cast.ToString(req.Amount)\<close> of the integer amount; the answer is the flag and its description.\<close>

definition CheckByPassOTP ::
    "'w services \<Rightarrow> int64 \<Rightarrow> string \<Rightarrow> string \<Rightarrow> string \<Rightarrow> ('w st, (bool \<times> string) \<times> goerror option) comp" where
  "CheckByPassOTP S Amount ApiName GpayBankCode UserId =
     bindc (bank_CheckByPassOTP S (CheckByPassOTPDataReq (sprint (sint Amount)) ApiName GpayBankCode UserId))
       (\<lambda>(byPassOTPResp, err). case err of
         Some e \<Rightarrow> ret ((False, []), Some e)
       | None \<Rightarrow>
           (let response = (if BankGwStatus_IsSuccess (br_ErrorCode byPassOTPResp)
                            then (True, ''ByPassOTP'') else (False, []));
                response = (if BankGwStatus_IsNeedToEnterOTP (br_ErrorCode byPassOTPResp)
                            then (False, ''Not ByPassOTP'') else response)
            in ret (response, None)))"

end
