(* ===== verification/Order_Service.thy ===== *)
theory Order_Service
  imports Effects
begin

text \<open>
  Orders: the Mongo repository \<open>infrastructure/database_mgo/order/order_collection.go\<close> and the
  operations of \<open>application/service_order.go\<close>, \<open>get_valid_order.go\<close>, \<open>get_detail_order.go\<close>,
  \<open>init_order_and_trans.go\<close> and \<open>update_order.go\<close>.  An operation that writes through the pointer
  it is given returns the written order first and then the results of the Go function.
\<close>

subsection \<open>order_collection.go\<close>

definition LenID :: int where
  "LenID = 10"

text \<open>The loop that prepends zeros, \<open>n\<close> times.\<close>

fun pad_zeros :: "nat \<Rightarrow> string \<Rightarrow> string" where
  "pad_zeros 0 s = s"
| "pad_zeros (Suc n) s = pad_zeros n (CHR ''0'' # s)"

definition render_id :: "string \<Rightarrow> int64 \<Rightarrow> int \<Rightarrow> string" where
  "render_id prefix i len =
     (let id_string = sprint (sint i)
      in prefix @ pad_zeros (nat (len - int (length id_string))) id_string)"

text \<open>
  The counter of the day; when there is none yet the first one is inserted.
\<close>

definition incrementID :: "'w services \<Rightarrow> string \<Rightarrow> ('w st, goerror + string) comp" where
  "incrementID S prefix =
     bindc (ask (mg_date S)) (\<lambda>date.
     bindc (ask (mg_IncCounter S date)) (\<lambda>r. case r of
       Inr (i, len) \<Rightarrow> ret (Inr (render_id (prefix @ date) i len))
     | Inl e \<Rightarrow>
         if e \<noteq> ErrNoDocuments then ret (Inl e)
         else
         bindc (ask (mg_InsertCounter S date 1 LenID)) (\<lambda>err. case err of
           Some e \<Rightarrow> ret (Inl e)
         | None \<Rightarrow> ret (Inr (render_id (prefix @ date) 1 LenID)))))"

text \<open>On failure the returned pointer is nil.\<close>

definition Create :: "'w services \<Rightarrow> OrderEntity \<Rightarrow> ('w st, OrderEntity option \<times> goerror option) comp" where
  "Create S entity =
     bindc (incrementID S (sv_prefix S @ ''GPOS'')) (\<lambda>r. case r of
       Inl e \<Rightarrow> ret (None, Some e)
     | Inr oid \<Rightarrow>
         (let entity = entity\<lparr>oe_OrderID := oid\<rparr> in
          bindc (act (mg_InsertOrder S entity) (EvInsertOrder entity)) (\<lambda>err. case err of
            None \<Rightarrow> ret (Some entity, None)
          | Some e \<Rightarrow> ret (None, Some e))))"

definition FindByOrderID :: "'w services \<Rightarrow> string \<Rightarrow> ('w st, goerror + OrderEntity) comp" where
  "FindByOrderID S orderID = ask (mg_FindOrder S (ByOrderID orderID))"

definition FindByMerchantIdAndRefId :: "'w services \<Rightarrow> string \<Rightarrow> string \<Rightarrow> ('w st, goerror + OrderEntity) comp" where
  "FindByMerchantIdAndRefId S merchantId refId = ask (mg_FindOrder S (ByMerchantRef merchantId refId))"

definition GetOrderByRefundId :: "'w services \<Rightarrow> string \<Rightarrow> ('w st, goerror + OrderEntity) comp" where
  "GetOrderByRefundId S refundId = ask (mg_FindOrder S (ByRefundId refundId))"

text \<open>Under a gRPC context the order found is dereferenced even when there is none.\<close>

definition CheckLuckyMoney :: "'w services \<Rightarrow> string \<Rightarrow> string \<Rightarrow> ('w st, OrderEntity option) comp" where
  "CheckLuckyMoney S user_id lucky_money_id =
     bindc (ask (mg_FindOrder S (ByUserLucky user_id lucky_money_id))) (\<lambda>r.
     let order_entity = (case r of Inl _ \<Rightarrow> None | Inr e \<Rightarrow> Some e) in
     bindc (gets ctx_grpc) (\<lambda>grpc.
     if grpc then bindc (deref order_entity) (\<lambda>_. ret order_entity) else ret order_entity))"

text \<open>
  The loop over the cursor: \<open>docs\<close> are the decoded documents, \<open>err\<close> the error of the last
  \<open>Decode\<close>, which is what the function returns.
\<close>

fun decode_loop ::
    "(goerror + OrderEntity) list \<Rightarrow> OrderEntity list \<Rightarrow> goerror option \<Rightarrow> OrderEntity list \<times> goerror option" where
  "decode_loop [] res err = (res, err)"
| "decode_loop (Inl e # docs) res err = decode_loop docs res (Some e)"
| "decode_loop (Inr orderEntities # docs) res err = decode_loop docs (res @ [orderEntities]) None"

text \<open>The decodable ones of at most ten expired orders.\<close>

definition GetExpiredOrder :: "'w services \<Rightarrow> ('w st, OrderEntity list \<times> goerror option) comp" where
  "GetExpiredOrder S =
     bindc (ask (sv_now S)) (\<lambda>now.
     bindc (ask (mg_FindExpired S \<lparr>ef_Statuses = [ORDER_PENDING, ORDER_PROCESSING],
                   ef_ExpiredAtLte = now, ef_OrderTypeNe = TRANSTYPE_WALLET_REFUND\<rparr> 10)) (\<lambda>r.
     case r of
       Inl e \<Rightarrow> ret ([], Some e)
     | Inr docs \<Rightarrow> ret (decode_loop docs [] None)))"

definition ReplaceByID :: "'w services \<Rightarrow> OrderEntity \<Rightarrow> ('w st, OrderEntity option \<times> goerror option) comp" where
  "ReplaceByID S order_entity =
     bindc (act (mg_ReplaceOrder S (ByOrderID (oe_OrderID order_entity)) order_entity)
              (EvReplaceOrder (ByOrderID (oe_OrderID order_entity)) order_entity)) (\<lambda>r. case r of
       Inl e \<Rightarrow> ret (None, Some e)
     | Inr modifiedCount \<Rightarrow>
         ret (Some order_entity,
              if modifiedCount = 0
              then Some (ErrorString (''UpdateOrder order_id '' @ oe_OrderID order_entity @ '' not found''))
              else None))"

definition ProcessingOrderByID :: "'w services \<Rightarrow> OrderEntity \<Rightarrow> ('w st, OrderEntity option \<times> goerror option) comp" where
  "ProcessingOrderByID S order_entity =
     bindc (ask (sv_now S)) (\<lambda>now.
     bindc (act (mg_ReplaceOrder S (ByOrderIDUnexpired (oe_OrderID order_entity) now) order_entity)
              (EvReplaceOrder (ByOrderIDUnexpired (oe_OrderID order_entity) now) order_entity)) (\<lambda>r. case r of
       Inl e \<Rightarrow> ret (None, Some e)
     | Inr modifiedCount \<Rightarrow>
         ret (Some order_entity,
              if modifiedCount = 0 then Some (ErrorString ''Giao dich da het han thanh toan'') else None)))"

subsection \<open>service_order.go\<close>

definition GetCurrentTime :: "'w services \<Rightarrow> ('w st, gotime) comp" where
  "GetCurrentTime S = ask (sv_now S)"

text \<open>\<open>time.Duration(e) * time.Millisecond\<close> is a product of 64-bit integers.\<close>

definition expire_duration :: "int64 \<Rightarrow> int64" where
  "expire_duration expireTime =
     (if 0 < sint expireTime then expireTime * 1000000 else 10 * 60000000000)"

definition InitOrder :: "'w services \<Rightarrow> OrderEntity \<Rightarrow> ('w st, OrderEntity option \<times> goerror option) comp" where
  "InitOrder S dto =
     bindc (if oe_LuckyMoneyID dto \<noteq> []
            then CheckLuckyMoney S (oe_ToUserID dto) (oe_LuckyMoneyID dto)
            else ret None) (\<lambda>check.
     if check \<noteq> None then ret (None, Some (StatusError 33 ''Order already exits''))
     else
     bindc (GetCurrentTime S) (\<lambda>now.
       Create S (dto\<lparr>oe_CreatedAt := now, oe_UpdatedAt := now,
                   oe_ExpiredAt := now + sint (expire_duration (oe_ExpireTime dto)),
                   oe_Status := ORDER_PENDING\<rparr>)))"

definition ProcessingOrder ::
    "'w services \<Rightarrow> OrderEntity \<Rightarrow> ('w st, OrderEntity \<times> OrderEntity option \<times> goerror option) comp" where
  "ProcessingOrder S dto =
     bindc (GetCurrentTime S) (\<lambda>now.
     let dto = dto\<lparr>oe_Status := ORDER_PROCESSING, oe_UpdatedAt := now\<rparr> in
     bindc (ProcessingOrderByID S dto) (\<lambda>r. ret (dto, r)))"

definition SuccessOrder ::
    "'w services \<Rightarrow> OrderEntity \<Rightarrow> ('w st, OrderEntity \<times> OrderEntity option \<times> goerror option) comp" where
  "SuccessOrder S dto =
     bindc (GetCurrentTime S) (\<lambda>now.
     bindc (GetCurrentTime S) (\<lambda>now'.
     let dto = dto\<lparr>oe_Status := ORDER_SUCCESS, oe_UpdatedAt := now, oe_SucceedAt := now'\<rparr> in
     bindc (ReplaceByID S dto) (\<lambda>(res, err).
     thenc (whenc (err = None) (emit (EvSubmit (JobSuccessTelegram dto))))
       (ret (dto, res, err)))))"

definition CancelOrder ::
    "'w services \<Rightarrow> OrderEntity \<Rightarrow> ('w st, OrderEntity \<times> OrderEntity option \<times> goerror option) comp" where
  "CancelOrder S dto =
     bindc (GetCurrentTime S) (\<lambda>now.
     let dto = dto\<lparr>oe_Status := ORDER_CANCEL, oe_UpdatedAt := now\<rparr> in
     bindc (ReplaceByID S dto) (\<lambda>r. ret (dto, r)))"

definition FailedOrder ::
    "'w services \<Rightarrow> OrderEntity \<Rightarrow> ('w st, OrderEntity \<times> OrderEntity option \<times> goerror option) comp" where
  "FailedOrder S dto =
     bindc (GetCurrentTime S) (\<lambda>now.
     let dto = dto\<lparr>oe_Status := ORDER_FAILED, oe_UpdatedAt := now\<rparr> in
     bindc (ReplaceByID S dto) (\<lambda>r. ret (dto, r)))"

definition VerifyingOrder ::
    "'w services \<Rightarrow> OrderEntity \<Rightarrow> ('w st, OrderEntity \<times> OrderEntity option \<times> goerror option) comp" where
  "VerifyingOrder S dto =
     (let dto = dto\<lparr>oe_Status := ORDER_VERIFYING\<rparr> in
      bindc (ReplaceByID S dto) (\<lambda>r. ret (dto, r)))"

datatype channel = ChannelQR | ChannelVa

text \<open>What the background job of \<open>SuccessOrder\<close> does: the channel it writes to, if any.\<close>

definition sendSuccessOrderTelegram :: "OrderEntity \<Rightarrow> channel option" where
  "sendSuccessOrderTelegram orderDto =
     (if IsStringSliceContains [SUB_TRANSTYPE_WALLET_QR_STATIC, SUB_TRANSTYPE_WALLET_WEB_TO_APP,
           SUB_TRANSTYPE_WALLET_QR_DYNAMIC, SUB_TRANSTYPE_WALLET_WEB_IN_APP] (oe_SubOrderType orderDto)
      then None
      else if oe_OrderType orderDto \<in> {TRANSTYPE_PAY_TO_MERCHANT, TRANSTYPE_BEHALF_PAY_WALLET_TO_BANK,
                TRANSTYPE_BEHALF_PAY_WALLET_TO_WALLET} then Some ChannelQR
      else if oe_OrderType orderDto = TRANSTYPE_PAY_VA then Some ChannelVa
      else Some ChannelQR)"

subsection \<open>get_valid_order.go, get_detail_order.go, init_order_and_trans.go, update_order.go\<close>

definition GetValidOrder :: "'w services \<Rightarrow> string \<Rightarrow> ('w st, goerror + OrderEntity) comp" where
  "GetValidOrder S order_id =
     bindc (FindByOrderID S order_id) (\<lambda>r. case r of
       Inl _ \<Rightarrow> ret (Inl (ErrorString ''Order khong hop le''))
     | Inr getOrderById \<Rightarrow>
         if IsVerifying (oe_Status getOrderById) then ret (Inl ErrPendingOrder)
         else if IsSuccess (oe_Status getOrderById) then ret (Inl ErrPaidOrder)
         else if IsFailed (oe_Status getOrderById) then ret (Inl ErrFailOrder)
         else if oe_IsExpired getOrderById then ret (Inl ErrExpiredOrder)
         else ret (Inr getOrderById))"

definition GetDetailOrder :: "'w services \<Rightarrow> string \<Rightarrow> ('w st, OrderEntity \<times> goerror option) comp" where
  "GetDetailOrder S orderId =
     bindc (FindByOrderID S orderId) (\<lambda>r. case r of
       Inl _ \<Rightarrow> ret (OrderEntity_zero, Some (ErrorString ''Order is not exist''))
     | Inr e \<Rightarrow> ret (e, None))"

definition GetDetailOrderByMerchantOrderId ::
    "'w services \<Rightarrow> string \<Rightarrow> string \<Rightarrow> ('w st, OrderEntity \<times> goerror option) comp" where
  "GetDetailOrderByMerchantOrderId S merchantId refId =
     bindc (FindByMerchantIdAndRefId S merchantId refId) (\<lambda>r. case r of
       Inl _ \<Rightarrow> ret (OrderEntity_zero, Some (ErrorString ''Order is not exist''))
     | Inr e \<Rightarrow> ret (e, None))"

definition InitOrderAndTrans :: "'w services \<Rightarrow> OrderEntity \<Rightarrow> ('w st, OrderEntity option \<times> goerror option) comp" where
  "InitOrderAndTrans S orderDto =
     InitOrder S (if oe_OrderType orderDto = TRANSTYPE_PG_PAY_BY_PAY_INTERNATIONAL_CARD \<and>
                     oe_MerchantCategoryCode orderDto = []
                  then orderDto\<lparr>oe_MerchantCategoryType := ''2''\<rparr> else orderDto)"

definition OrderUpdate :: "'w services \<Rightarrow> OrderRequest \<Rightarrow> ('w st, goerror option) comp" where
  "OrderUpdate S req =
     bindc (GetValidOrder S (rq_OrderId req)) (\<lambda>r. case r of
       Inl e \<Rightarrow> ret (Some e)
     | Inr orderDto \<Rightarrow>
         bindc (GetCurrentTime S) (\<lambda>now.
         bindc (ReplaceByID S (ProtoToEntity req now orderDto)) (\<lambda>(res, err). case err of
           Some e \<Rightarrow> ret (Some e)
         | None \<Rightarrow>
             bindc (deref res) (\<lambda>orderDto.
             thenc (modify (\<lambda>s. s\<lparr>resp_OrderEntity := Some (ConvertToProto orderDto)\<rparr>)) (ret None)))))"

subsection \<open>Effects of the operations\<close>

text \<open>What a replacement of the stored order answers, given the answer of the database.\<close>

definition replaced :: "OrderEntity \<Rightarrow> goerror \<Rightarrow> goerror + nat \<Rightarrow> OrderEntity option \<times> goerror option" where
  "replaced d e x = (case x of Inl e' \<Rightarrow> (None, Some e') | Inr n \<Rightarrow> (Some d, if n = 0 then Some e else None))"

lemma replaced_ok [simp]: "replaced d e x = (r, None) \<longleftrightarrow> r = Some d \<and> (\<exists>n. x = Inr (Suc n))"
  by (auto simp: replaced_def gr0_conv_Suc split: sum.splits)

lemma snd_replaced_None [simp]: "snd (replaced d e x) = None \<longleftrightarrow> (\<exists>n. x = Inr (Suc n))"
  by (auto simp: replaced_def gr0_conv_Suc split: sum.splits)

lemma replaced_Suc [simp]: "replaced d e (Inr (Suc n)) = (Some d, None)"
  by (simp add: replaced_def)

lemma fst_replaced: "fst (replaced d e x) = None \<or> fst (replaced d e x) = Some d"
  by (auto simp: replaced_def split: sum.splits)

abbreviation not_found :: "OrderEntity \<Rightarrow> goerror" where
  "not_found d \<equiv> ErrorString (''UpdateOrder order_id '' @ oe_OrderID d @ '' not found'')"

lemma ReplaceByID_does:
  "does (ReplaceByID S d) (\<lambda>r es. \<exists>x. es = [EvReplaceOrder (ByOrderID (oe_OrderID d)) d x] \<and>
     r = Some (replaced d (not_found d) x))"
  unfolding ReplaceByID_def by (intro does_rules) (auto simp: replaced_def)

lemma ProcessingOrderByID_does:
  "does (ProcessingOrderByID S d) (\<lambda>r es. \<exists>now x.
     es = [EvReplaceOrder (ByOrderIDUnexpired (oe_OrderID d) now) d x] \<and>
     r = Some (replaced d (ErrorString ''Giao dich da het han thanh toan'') x))"
  unfolding ProcessingOrderByID_def by (intro does_rules) (auto simp: replaced_def)

text \<open>
  Writing an order with a new status: \<open>status_write st d\<close> relates the result of the operations
  below to their one event.
\<close>

definition restamped :: "OrderStatus \<Rightarrow> OrderEntity \<Rightarrow> OrderEntity \<Rightarrow> bool" where
  "restamped st d d' \<longleftrightarrow> (\<exists>u v. d' = d\<lparr>oe_Status := st, oe_UpdatedAt := u, oe_SucceedAt := v\<rparr>)"

lemma restamped_sel:
  assumes "restamped st d d'"
  shows "oe_Status d' = st" "oe_OrderID d' = oe_OrderID d" "oe_Amount d' = oe_Amount d"
    "oe_UserID d' = oe_UserID d" "oe_VoucherCode d' = oe_VoucherCode d" "oe_OrderType d' = oe_OrderType d"
    "oe_TransactionID d' = oe_TransactionID d"
  using assms by (auto simp: restamped_def)

lemma restamped_I [intro]:
  "restamped st d (d\<lparr>oe_Status := st, oe_UpdatedAt := u, oe_SucceedAt := v\<rparr>)"
  "restamped st d (d\<lparr>oe_Status := st, oe_UpdatedAt := u\<rparr>)"
  "restamped st d (d\<lparr>oe_Status := st\<rparr>)"
proof -
  have "d\<lparr>oe_Status := st, oe_UpdatedAt := u\<rparr> =
      d\<lparr>oe_Status := st, oe_UpdatedAt := u, oe_SucceedAt := oe_SucceedAt d\<rparr>"
    "d\<lparr>oe_Status := st\<rparr> =
      d\<lparr>oe_Status := st, oe_UpdatedAt := oe_UpdatedAt d, oe_SucceedAt := oe_SucceedAt d\<rparr>"
    by simp_all
  then show "restamped st d (d\<lparr>oe_Status := st, oe_UpdatedAt := u\<rparr>)" "restamped st d (d\<lparr>oe_Status := st\<rparr>)"
    unfolding restamped_def by blast+
qed (auto simp: restamped_def)

definition status_write ::
    "OrderStatus \<Rightarrow> OrderEntity \<Rightarrow> (OrderEntity \<times> OrderEntity option \<times> goerror option) option \<Rightarrow> event list \<Rightarrow> bool" where
  "status_write st d r es \<longleftrightarrow> (\<exists>d' flt e x. es = [EvReplaceOrder flt d' x] \<and>
     r = Some (d', replaced d' e x) \<and> restamped st d d' \<and>
     (flt = ByOrderID (oe_OrderID d) \<or> st = ORDER_PROCESSING \<and> (\<exists>now. flt = ByOrderIDUnexpired (oe_OrderID d) now)))"

lemma status_writeI:
  "does m (\<lambda>r es. \<exists>x. es = [EvReplaceOrder (ByOrderID (oe_OrderID d')) d' x] \<and> r = Some (replaced d' e x)) \<Longrightarrow>
   restamped st d d' \<Longrightarrow> does (bindc m (\<lambda>r. ret (d', r))) (status_write st d)"
  by (erule does_bindc) (auto simp: status_write_def restamped_sel(2) intro!: does_rules)

lemma ProcessingOrder_does: "does (ProcessingOrder S d) (status_write ORDER_PROCESSING d)"
  unfolding ProcessingOrder_def GetCurrentTime_def Let_def
  by (intro does_rules does_bindc [OF ProcessingOrderByID_does])
    (auto simp: status_write_def intro!: does_rules)

lemma CancelOrder_does: "does (CancelOrder S d) (status_write ORDER_CANCEL d)"
  unfolding CancelOrder_def GetCurrentTime_def Let_def
  by (intro does_rules status_writeI [OF ReplaceByID_does]) blast+

lemma FailedOrder_does: "does (FailedOrder S d) (status_write ORDER_FAILED d)"
  unfolding FailedOrder_def GetCurrentTime_def Let_def
  by (intro does_rules status_writeI [OF ReplaceByID_does]) blast+

lemma VerifyingOrder_does: "does (VerifyingOrder S d) (status_write ORDER_VERIFYING d)"
  unfolding VerifyingOrder_def Let_def
  by (intro status_writeI [OF ReplaceByID_does]) blast

lemma SuccessOrder_does: "does (SuccessOrder S d) (status_write ORDER_SUCCESS d)"
  unfolding SuccessOrder_def GetCurrentTime_def Let_def
  by (intro does_rules does_bindc [OF ReplaceByID_does])
    (auto simp: status_write_def eq_commute [of "(_, None)"] intro!: does_rules)

text \<open>Reading an order is quiet.\<close>

lemma FindByOrderID_quiet [does_rules]: "quiet (FindByOrderID S i)"
  unfolding FindByOrderID_def by (intro does_rules) simp_all

lemma GetValidOrder_does:
  "does (GetValidOrder S i) (\<lambda>r es. es = [] \<and> (case r of
     Some (Inr d) \<Rightarrow> \<not> IsVerifying (oe_Status d) \<and> \<not> IsSuccess (oe_Status d) \<and>
        \<not> IsFailed (oe_Status d) \<and> \<not> oe_IsExpired d
   | _ \<Rightarrow> True))"
  unfolding GetValidOrder_def FindByOrderID_def by (intro does_rules) auto

lemma CheckLuckyMoney_quiet: "quiet (CheckLuckyMoney S u l)"
  unfolding CheckLuckyMoney_def Let_def by (intro does_rules) simp_all

lemma incrementID_quiet: "quiet (incrementID S p)"
  unfolding incrementID_def by (intro does_rules) (auto intro!: does_rules)

text \<open>
  Creating an order: either nothing is written and there is no order, or one insertion of an order
  that is pending; on success it is the one returned.
\<close>

definition order_created :: "(string \<Rightarrow> OrderEntity) \<Rightarrow> (OrderEntity option \<times> goerror option) option \<Rightarrow> event list \<Rightarrow> bool" where
  "order_created d r es \<longleftrightarrow> (es = [] \<and> (r = None \<or> (\<exists>e. r = Some (None, Some e)))) \<or>
     (\<exists>oid x. es = [EvInsertOrder (d oid) x] \<and> r = Some (if x = None then Some (d oid) else None, x))"

lemma Create_does: "does (Create S d) (order_created (\<lambda>oid. d\<lparr>oe_OrderID := oid\<rparr>))"
  unfolding Create_def Let_def
  by (rule does_bindc [OF incrementID_quiet])
    (auto simp: order_created_def split: sum.splits intro!: does_rules)

text \<open>The order as \<open>InitOrder\<close> stores it.\<close>

definition initial_order :: "OrderEntity \<Rightarrow> gotime \<Rightarrow> string \<Rightarrow> OrderEntity" where
  "initial_order d now oid = d\<lparr>oe_CreatedAt := now, oe_UpdatedAt := now,
     oe_ExpiredAt := now + sint (expire_duration (oe_ExpireTime d)), oe_Status := ORDER_PENDING, oe_OrderID := oid\<rparr>"

lemma InitOrder_does: "does (InitOrder S d) (\<lambda>r es. \<exists>now. order_created (initial_order d now) r es)"
proof -
  have "does (Create S (d\<lparr>oe_CreatedAt := now, oe_UpdatedAt := now,
      oe_ExpiredAt := now + sint (expire_duration (oe_ExpireTime d)), oe_Status := ORDER_PENDING\<rparr>))
      (\<lambda>r es. \<exists>now. order_created (initial_order d now) r es)" for now
    by (rule does_mono [OF Create_does]) (auto simp: initial_order_def [abs_def])
  moreover have "quiet (if oe_LuckyMoneyID d \<noteq> [] then CheckLuckyMoney S (oe_ToUserID d) (oe_LuckyMoneyID d)
      else ret None)"
    by (intro does_rules CheckLuckyMoney_quiet) simp
  ultimately show ?thesis
    unfolding InitOrder_def GetCurrentTime_def
    by (intro does_bindc_quiet does_rules) (simp_all add: order_created_def)
qed

end
