(* ===== verification/Transaction_Service.thy ===== *)
theory Transaction_Service
  imports Bank_Gateway Order_Service
begin

text \<open>
  The calls to the transaction, promotion and user services that the orchestrators share:
  \<open>application/service_user.go\<close>, \<open>mqtt.go\<close>, \<open>convert_transaction.go\<close>, \<open>service_transaction.go\<close>,
  \<open>service_promotion.go\<close>, \<open>service_merchant_fee.go\<close> and the mapping of transaction types of
  \<open>utils/helpers/helpers.go\<close>.
\<close>

subsection \<open>service_user.go and mqtt.go\<close>

text \<open>An answer without a user detail is a nil pointer that is dereferenced.\<close>

definition GetProfile :: "'w services \<Rightarrow> string \<Rightarrow> ('w st, goerror + User) comp" where
  "GetProfile S i =
     bindc (ask (ur_Detail S i)) (\<lambda>r. case r of
       Inl e \<Rightarrow> ret (Inl e)
     | Inr entity_user \<Rightarrow> bindc (deref entity_user) (\<lambda>u. ret (Inr u)))"

definition CreateMessageMqtt ::
    "'w services \<Rightarrow> string \<Rightarrow> string \<Rightarrow> string \<Rightarrow> mqtt_data \<Rightarrow> bool \<Rightarrow> ('w st, goerror option) comp" where
  "CreateMessageMqtt S topic ev k data retain =
     act (mq_Publish S topic ev k data retain) (\<lambda>_. EvMqtt topic ev k data)"

definition MqttUpdateProfile :: "'w services \<Rightarrow> string \<Rightarrow> string \<Rightarrow> string \<Rightarrow> ('w st, unit) comp" where
  "MqttUpdateProfile S event payerId payeeId =
     thenc (whenc (payerId \<noteq> [])
       (bindc (GetProfile S payerId) (\<lambda>payer. case payer of
          Inl _ \<Rightarrow> ret ()
        | Inr u \<Rightarrow> thenc (CreateMessageMqtt S (us_Id u) MQTTEventBackground event (MUser u) False) (ret ()))))
     (whenc (payeeId \<noteq> [])
       (bindc (GetProfile S payeeId) (\<lambda>payee. case payee of
          Inl _ \<Rightarrow> ret ()
        | Inr u \<Rightarrow> thenc (CreateMessageMqtt S (us_Id u) MQTTEventBackground event (MUser u) False) (ret ()))))"

subsection \<open>helpers.go and convert_transaction.go\<close>

definition MapETransTypeToOldTrans :: "string \<Rightarrow> string \<Rightarrow> string" where
  "MapETransTypeToOldTrans eTransType eSubTransType =
     (if eSubTransType = SUB_TRANSTYPE_WALLET_PAY_BILL_ELECTRIC then TransactionTypePaidBillElectric
      else if eSubTransType = SUB_TRANSTYPE_WALLET_PAY_BILL_WATTER then TransactionTypePaidBillWater
      else if eSubTransType = SUB_TRANSTYPE_WALLET_PAY_BILL_LOAN then TransactionTypePaidBillCredit
      else if eSubTransType = SUB_TRANSTYPE_WALLET_TOPUP_CARD then TransactionTypeTopup
      else if eSubTransType = SUB_TRANSTYPE_WALLET_BUY_CARD then TransactionTypeBuyCard
      else if eSubTransType = TransactionTypePaidBillMerchantWallet then TRANSTYPE_WALLET_PAY
      else if eSubTransType = SUB_TRANSTYPE_WALLET_BUY_DATA then TransactionTypeBuyData
      else if eTransType = TRANSTYPE_WALLET_TRANSFER then TransactionTypeTransferGpoint
      else if eTransType = TRANSTYPE_WALLET_CASH_OUT then TransactionTypeBalanceChangeWithdraw
      else if eTransType = TRANSTYPE_WALLET_CASH_IN then TransactionTypeBalanceChangeDeposit
      else if eTransType = TRANSTYPE_WALLET_CASHBACK then TransactionTypeCashback
      else if eTransType = TRANSTYPE_WALLET_TRANS2BANK then TRANSTYPE_WALLET_TRANS2BANK
      else if eTransType = TRANSTYPE_BEHALF_PAY_WALLET_TO_WALLET then TRANSTYPE_BEHALF_PAY_WALLET_TO_WALLET
      else if eTransType = TRANSTYPE_WALLET_LIXI then TRANSTYPE_WALLET_LIXI
      else [])"

text \<open>\<open>time.Unix(sec, 0)\<close>\<close>

definition time_Unix :: "int64 \<Rightarrow> gotime" where
  "time_Unix sec = sint sec * 1000000000"

text \<open>The composite literal that \<open>ConvertETransToDetail\<close> returns.\<close>

definition detail_of :: "ETransactionDTO \<Rightarrow> User \<Rightarrow> User \<Rightarrow> string \<Rightarrow> string \<Rightarrow> TransactionDetail" where
  "detail_of transDto payerUser payeeUser merchantCode redirectUrl = TransactionDetail_zero\<lparr>
     td_Id := tx_TransactionId transDto, td_TransactionId := tx_TransactionId transDto,
     td_AppId := tx_AppId transDto, td_Currency := tx_Currency transDto, td_Message := tx_Message transDto,
     td_State := tx_State transDto, td_Status := tx_Status transDto,
     td_ServiceType := tx_ServiceType transDto, td_TransactionType := tx_TransactionType transDto,
     td_SubTransactionType := tx_SubTransactionType transDto, td_TypeWallet := tx_TypeWallet transDto,
     td_Amount := tx_Amount transDto, td_LastAmount := tx_LastAmount transDto,
     td_FeeGpay := tx_AmountFeeGpay transDto, td_DiscountAmount := tx_AmountDiscount transDto,
     td_AmountMerchantFee := tx_AmountMerchantFee transDto,
     td_AmountTransactionCashBack := tx_AmountTransactionCashBack transDto,
     td_VoucherCode := tx_VoucherCode transDto, td_Source := tx_SourceOfFund transDto,
     td_MerchantId := tx_MerchantID transDto, td_MerchantTransactionId := tx_MerchantTransactionId transDto,
     td_TransactionCashback := tx_CashbackTransactionID transDto, td_RefId := tx_RefId transDto,
     td_OrderId := tx_OrderId transDto, td_DeviceId := tx_DeviceId transDto,
     td_PayerId := tx_PayerId transDto, td_PayeeId := tx_PayeeId transDto,
     td_PayerStatusKyc := tx_PayerStatusKyc transDto,
     td_PayerStatusLinkedBank := tx_PayerStatusLinkedBank transDto,
     td_PayeeStatusKyc := tx_PayeeStatusKyc transDto,
     td_PayeeStatusLinkedBank := tx_PayeeStatusLinkedBank transDto,
     td_GpayAccountID := tx_GpayAccountID transDto, td_BankTransactionId := tx_BankTransactionId transDto,
     td_Napas := tx_Napas transDto, td_BankCode := tx_BankCode transDto, td_IbftType := tx_IbftType transDto,
     td_CardNo := tx_CardNo transDto, td_AccountNo := tx_AccountNo transDto,
     td_FailReason := tx_FailReason transDto, td_ReturnCode := tx_ReturnCode transDto,
     td_ReturnMessage := tx_ReturnMessage transDto, td_Exception := tx_Exception transDto,
     td_CreatedAt := time_Unix (tx_CreatedAt transDto), td_UpdatedAt := time_Unix (tx_UpdatedAt transDto),
     td_DeletedAt := time_Unix (tx_DeletedAt transDto),
     td_Type := MapETransTypeToOldTrans (tx_TransactionType transDto) (tx_SubTransactionType transDto),
     td_ProviderMerchantId := tx_ProviderMerchantID transDto, td_MerchantCode := merchantCode,
     td_RedirectUrl := redirectUrl, td_Payer := payerUser, td_Payee := payeeUser\<rparr>"

text \<open>
  The error returned is that of the last assignment to \<open>err\<close>, the redirect request when there is
  one.  The resend of a finished virtual-account transaction runs in a goroutine of its own.
\<close>

definition ConvertETransToDetail ::
    "'w services \<Rightarrow> ETransactionDTO \<Rightarrow> ('w st, TransactionDetail \<times> goerror option) comp" where
  "ConvertETransToDetail S transDto =
     bindc (GetProfile S (tx_PayerId transDto)) (\<lambda>getPayer.
     bindc (GetProfile S (tx_PayeeId transDto)) (\<lambda>getPayee.
     bindc (if tx_MerchantID transDto \<noteq> []
            then bindc (ask (ur_MerchantCode S (tx_MerchantID transDto))) (\<lambda>getMerchant. case getMerchant of
                   Inl _ \<Rightarrow> ret []
                 | Inr p \<Rightarrow> deref p)
            else ret []) (\<lambda>merchantCode.
     bindc (if IsStringSliceContains [SUB_TRANSTYPE_WALLET_WEB_IN_APP, SUB_TRANSTYPE_WALLET_APP_TO_APP,
                 SUB_TRANSTYPE_WALLET_WEB_TO_APP] (tx_SubTransactionType transDto)
            then bindc (ask (cb_redirect S
                   ((if tx_SubTransactionType transDto = SUB_TRANSTYPE_WALLET_WEB_IN_APP
                     then ''/order/web-in-app/get-callback/'' else ''order-qr/get-callback/'') @
                    tx_OrderId transDto))) (\<lambda>r. case r of
                   Inl e \<Rightarrow> ret ([], Some e)
                 | Inr url \<Rightarrow> ret (url, None))
            else ret ([], None)) (\<lambda>(redirectUrl, err).
     thenc (whenc (tx_TransactionType transDto = TRANSTYPE_PAY_VA \<and>
                   tx_Status transDto = TRANSACTION_STATUS_FINISH)
              (emit (EvSubmit (JobResendVA (tx_OrderId transDto)))))
       (ret (detail_of transDto (case getPayer of Inl _ \<Rightarrow> User_zero | Inr u \<Rightarrow> u)
               (case getPayee of Inl _ \<Rightarrow> User_zero | Inr u \<Rightarrow> u) merchantCode redirectUrl, err))))))"

definition SendMqttTransactionByObject :: "'w services \<Rightarrow> string \<Rightarrow> ETransactionDTO \<Rightarrow> ('w st, unit) comp" where
  "SendMqttTransactionByObject S event tr =
     bindc (ConvertETransToDetail S tr) (\<lambda>(transaction, _).
     let send = (\<lambda>b topic ev k. whenc b
           (thenc (CreateMessageMqtt S topic ev k (MTrans transaction) False) (ret ())));
         finished = (td_Status transaction = TRANSACTION_STATUS_FINISH \<and>
                     td_Type transaction \<noteq> TransactionTypeCashback);
         failed = (td_Status transaction = TRANSACTION_STATUS_FAILED)
     in
     thenc (send (tx_PayerId tr \<noteq> []) (td_PayerId transaction) MQTTEventBackground event)
     (thenc (send (tx_PayeeId tr \<noteq> []) (td_PayeeId transaction) MQTTEventBackground event)
     (thenc (send finished (td_PayeeId transaction) MQTTEventNotification MQTTTransactionSuccess)
     (thenc (send finished (td_PayerId transaction) MQTTEventNotification MQTTTransactionSuccess)
     (thenc (send (finished \<and> td_TransactionType transaction = TRANSTYPE_WALLET_REFUND)
               (td_UserReceiveRefund transaction) MQTTEventNotification MQTTTransactionSuccess)
     (thenc (send (failed \<and> tx_PayerId tr \<noteq> []) (td_PayerId transaction) MQTTEventNotification MQTTTransactionFailed)
     (thenc (send (failed \<and> tx_PayeeId tr \<noteq> []) (td_PayeeId transaction) MQTTEventNotification MQTTTransactionFailed)
       (send (td_Type transaction = TRANSTYPE_WALLET_LIXI \<and> td_Status transaction = TRANSACTION_STATUS_FINISH)
          (td_PayeeId transaction) MQTTEventNotification MQTTLIXISuccess))))))))"

subsection \<open>service_transaction.go\<close>

text \<open>The payer: profile, linked banks, KYC, and whether a bank was ever linked.\<close>

definition init_payer :: "'w services \<Rightarrow> ETransactionDTO \<Rightarrow> ('w st, goerror + ETransactionDTO) comp" where
  "init_payer S request =
     (if tx_PayerId request \<noteq> [] then
        bindc (GetProfile S (tx_PayerId request)) (\<lambda>r. case r of
          Inl _ \<Rightarrow> ret (Inr request)
        | Inr u \<Rightarrow>
            bindc (LinkList S (tx_PayerId request)) (\<lambda>(links, _).
            if us_KYC u \<noteq> ''ACTIVE'' then ret (Inl (ErrorString ''Chua xac thuc KYC''))
            else if \<not> tx_Napas request \<and> \<not> us_HasEverLinkedBank u
            then ret (Inl (ErrorString ''Chua tung lien ket ngan hang ''))
            else ret (Inr (request\<lparr>tx_PayerStatusLinkedBank := br_Links links \<noteq> [],
                                   tx_PayerStatusKyc := us_KYC u = ''ACTIVE''\<rparr>))))
      else ret (Inr request))"

definition init_payee :: "'w services \<Rightarrow> ETransactionDTO \<Rightarrow> ('w st, goerror + ETransactionDTO) comp" where
  "init_payee S request =
     (if tx_PayeeId request \<noteq> [] then
        bindc (GetProfile S (tx_PayeeId request)) (\<lambda>r. case r of
          Inl _ \<Rightarrow> ret (Inr request)
        | Inr u \<Rightarrow>
            bindc (LinkList S (tx_PayeeId request)) (\<lambda>(links, _).
            if us_KYC u \<noteq> ''ACTIVE'' then ret (Inl (ErrorString ''Nguoi nhan chua xac thuc KYC''))
            else if \<not> tx_Napas request \<and> \<not> us_HasEverLinkedBank u
            then ret (Inl (ErrorString ''Nguoi nhan chua tung lien ket ngan hang ''))
            else ret (Inr (request\<lparr>tx_PayeeStatusLinkedBank := br_Links links \<noteq> [],
                                   tx_PayeeStatusKyc := us_KYC u = ''ACTIVE''\<rparr>))))
      else ret (Inr request))"

definition quota_request :: "ETransactionDTO \<Rightarrow> QuotaReq" where
  "quota_request request =
     (let payee = IsStringSliceContains [TRANSTYPE_WALLET_CASH_IN, TRANSTYPE_OPENWAL_CASHIN,
                    TRANSTYPE_WALLET_LIXI] (tx_TransactionType request)
      in \<lparr>qr_Amount = tx_Amount request, qr_MerchantId = tx_MerchantID request,
          qr_UserId = (if payee then tx_PayeeId request else tx_PayerId request),
          qr_ServiceType = tx_ServiceType request, qr_TransType = tx_TransactionType request,
          qr_SubTransType = tx_SubTransactionType request, qr_SourceOfFund = tx_SourceOfFund request,
          qr_IsVerify = (if payee then tx_PayeeStatusKyc request else tx_PayerStatusKyc request),
          qr_IsLinkedBank = (if payee then tx_PayeeStatusLinkedBank request else tx_PayerStatusLinkedBank request),
          qr_ServiceCode = tx_AppId request, qr_VoucherCode = []\<rparr>)"

definition va_account_type :: "ETransactionDTO \<Rightarrow> VAType" where
  "va_account_type request =
     (if tx_TransactionType request = TRANSTYPE_PAY_VA then
        (if tx_AccountVAType request = VA_ACCOUNT_TYPE_ONCE then VA_ONETIME
         else if tx_AccountVAType request = VA_ACCOUNT_TYPE_MANY then VA_MANYTIME
         else VA_OPTIONAL)
      else VA_OPTIONAL)"

text \<open>The merchant fee; an error of the fee service stops everything but a VA transaction.\<close>

definition init_merchant_fee :: "'w services \<Rightarrow> ETransactionDTO \<Rightarrow> ('w st, goerror + ETransactionDTO) comp" where
  "init_merchant_fee S request =
     (if tx_MerchantID request \<noteq> [] \<and> tx_AmountMerchantFee request = 0 \<and>
         tx_AmountMerchantFeeGpayTmp request = 0 then
        bindc (ask (mf_QuotaFee S \<lparr>mr_Amount = tx_Amount request, mr_ServiceType = tx_ServiceType request,
                 mr_TransType = tx_TransactionType request, mr_SubTransType = tx_SubTransactionType request,
                 mr_MerchantId = tx_MerchantID request, mr_SourceOfFund = tx_SourceOfFund request,
                 mr_VaType = va_account_type request\<rparr>)) (\<lambda>r. case r of
          Inl e \<Rightarrow>
            if tx_TransactionType request \<noteq> TRANSTYPE_PAY_VA then ret (Inl e)
            else ret (Inr (request\<lparr>tx_Exception := SERVICE_MERCHANT_FEE_ERROR @ Error e\<rparr>))
        | Inr merchantFee \<Rightarrow>
            (let request = request\<lparr>tx_RateFeeAmount := ms_RateFeeAmount merchantFee,
                                   tx_FixedFeeAmount := ms_FixedFeeAmount merchantFee\<rparr>
             in ret (Inr (if ms_FeeMethod merchantFee = FEE_NOW
                          then request\<lparr>tx_AmountMerchantFee := ms_FeeAmount merchantFee\<rparr>
                          else request\<lparr>tx_AmountMerchantFeeGpayTmp := ms_FeeAmount merchantFee,
                                       tx_MerchantFeeMethod := FeeMethod_String (ms_FeeMethod merchantFee)\<rparr>))))
      else ret (Inr request))"

text \<open>After an error of the fee service the transaction returned is empty, but not nil.\<close>

definition serviceTransactionInit ::
    "'w services \<Rightarrow> ETransactionDTO \<Rightarrow> ('w st, ETransactionDTO option \<times> goerror option) comp" where
  "serviceTransactionInit S request =
     bindc (init_payer S request) (\<lambda>r. case r of Inl e \<Rightarrow> ret (None, Some e) | Inr request \<Rightarrow>
     bindc (init_payee S request) (\<lambda>r. case r of Inl e \<Rightarrow> ret (None, Some e) | Inr request \<Rightarrow>
     bindc (ask (ts_QuotaFee S (quota_request request))) (\<lambda>r. case r of Inl e \<Rightarrow> ret (None, Some e) | Inr userFee \<Rightarrow>
     bindc (init_merchant_fee S request) (\<lambda>r. case r of Inl e \<Rightarrow> ret (Some ETransactionDTO_zero, Some e) | Inr request \<Rightarrow>
     let request = request\<lparr>tx_AmountFeeGpay := qs_FeeAmount userFee, tx_Currency := VND,
           tx_Status := TRANSACTION_STATUS_PROCESSING, tx_State := TRANSACTION_STATE_INITIAL,
           tx_TypeWallet := AmountCash\<rparr> in
     bindc (act (ts_Init S request) (EvInit request)) (\<lambda>initTran. case initTran of
       Inl e \<Rightarrow> ret (None, Some e)
     | Inr t \<Rightarrow>
         thenc (MqttUpdateProfile S UPDATE_USER_INFO (tx_PayerId t) (tx_PayeeId t))
        (thenc (SendMqttTransactionByObject S UPDATE_TRANSACTION t) (ret (Some t, None))))))))"

definition serviceTransactionCancel ::
    "'w services \<Rightarrow> ETransactionDTO \<Rightarrow> ('w st, ETransactionDTO option \<times> goerror option) comp" where
  "serviceTransactionCancel S dto =
     bindc (act (ts_Cancel S dto) (EvCancel dto)) (\<lambda>cancelTran. case cancelTran of
       Inl e \<Rightarrow> ret (None, Some e)
     | Inr t \<Rightarrow>
         thenc (MqttUpdateProfile S UPDATE_USER_INFO (tx_PayerId dto) (tx_PayeeId dto))
        (thenc (SendMqttTransactionByObject S UPDATE_TRANSACTION t) (ret (Some t, None))))"

definition serviceTransactionPending ::
    "'w services \<Rightarrow> ETransactionDTO \<Rightarrow> ('w st, ETransactionDTO option \<times> goerror option) comp" where
  "serviceTransactionPending S dto =
     (let dto = dto\<lparr>tx_Status := TRANSACTION_STATUS_PENDING\<rparr> in
      bindc (act (ts_Update S dto) (EvUpdate dto)) (\<lambda>pendingTran. case pendingTran of
        Inl e \<Rightarrow> ret (None, Some e)
      | Inr t \<Rightarrow>
          thenc (MqttUpdateProfile S UPDATE_USER_INFO (tx_PayerId t) (tx_PayeeId t))
         (thenc (SendMqttTransactionByObject S UPDATE_TRANSACTION t) (ret (Some t, None)))))"

definition notificationTransaction :: "'w services \<Rightarrow> ETransactionDTO \<Rightarrow> ('w st, unit) comp" where
  "notificationTransaction S dto =
     bindc (ConvertETransToDetail S dto) (\<lambda>(tran, _). emit (EvSubmit (JobNotification dto tran)))"

definition serviceTransactionConfirm ::
    "'w services \<Rightarrow> ETransactionDTO \<Rightarrow> ('w st, ETransactionDTO option \<times> goerror option) comp" where
  "serviceTransactionConfirm S dto =
     bindc (act (ts_Confirm S dto) (EvConfirm dto)) (\<lambda>confirmTran.
     thenc (case confirmTran of
       Inl e \<Rightarrow> ret ()
     | Inr t \<Rightarrow>
         thenc (MqttUpdateProfile S UPDATE_USER_INFO (tx_PayerId t) (tx_PayeeId t))
         (SendMqttTransactionByObject S UPDATE_TRANSACTION t))
    (thenc (notificationTransaction S dto)
     (ret (case confirmTran of Inl e \<Rightarrow> (None, Some e) | Inr t \<Rightarrow> (Some t, None)))))"

text \<open>
  The job of \<open>notificationTransaction\<close>: the messages it sends, in order.  The two number formats
  are those of the packages \<open>accounting\<close> and \<open>humanize\<close>.
\<close>

datatype message =
    CreateMessage (msg_title: string) (msg_user: string) (msg_content: string)
  | CreateMessageNormal (msg_title: string) (msg_user: string) (msg_content: string)
      (msg_trans: string) (msg_type: string)

definition notification_job ::
    "(int64 \<Rightarrow> string) \<Rightarrow> (int64 \<Rightarrow> string) \<Rightarrow> ETransactionDTO \<Rightarrow> TransactionDetail \<Rightarrow> message list" where
  "notification_job FormatMoney Comma dto tran =
     (if tx_TransactionType dto = TRANSTYPE_WALLET_LIXI
      then [CreateMessage ''Gpay'' (tx_PayeeId dto) (''Chuc mung! Ban vua nhan duoc li xi tu '' @ tx_Message dto)]
      else if tx_TransactionType dto = TRANSTYPE_WALLET_REFUND
      then [CreateMessageNormal ''Hoan tien giao dich thanh cong'' (tx_UserReceiveRefund dto)
              (''Ban vua duoc hoan '' @ FormatMoney (td_Amount tran) @ '' VND tu giao dich '' @
               tx_TransactionSourceRefund dto) (td_TransactionId tran) TRANSTYPE_WALLET_REFUND]
      else []) @
     (if td_Type tran = TransactionTypeTransferGpoint
      then [CreateMessageNormal ''Ban vua nhan tien thanh cong'' (us_Id (td_Payee tran))
              (''Ban vua nhan duoc '' @ FormatMoney (td_Amount tran) @ '' VND tu so dien thoai '')
              (td_TransactionId tran) (td_Type tran)]
      else if td_Type tran = TransactionTypeBalanceChangeDeposit
      then [CreateMessageNormal ''Ban vua nap thanh cong'' (td_PayeeId tran)
              (''Ban vua nap thanh cong '' @ Comma (td_Amount tran) @ '' VND'') (td_TransactionId tran) (td_Type tran)]
      else if td_Type tran = TransactionTypeBalanceChangeWithdraw
      then [CreateMessageNormal ''Ban vua rut thanh cong'' (td_PayerId tran)
              (''Ban vua rut thanh cong '' @ Comma (td_Amount tran) @ '' VND'') (td_TransactionId tran) (td_Type tran)]
      else [])"

subsection \<open>service_promotion.go and service_merchant_fee.go\<close>

text \<open>\<open>user.Balances[0]\<close> panics on a user without balances; the difference wraps at 64 bits.\<close>

definition servicePromotionUsed ::
    "'w services \<Rightarrow> UseVoucherRequest \<Rightarrow> ('w st, goerror + UseVoucherResponse) comp" where
  "servicePromotionUsed S dto =
     bindc (if uv_UserId dto \<noteq> [] then
              bindc (GetProfile S (uv_UserId dto)) (\<lambda>r. case r of
                Inl _ \<Rightarrow> ret dto
              | Inr user \<Rightarrow> (case us_Balances user of
                  [] \<Rightarrow> panic ''index out of range''
                | b # _ \<Rightarrow> ret (dto\<lparr>uv_CurrentBalance := bl_AmountAvailable b - bl_AmountFreeze b\<rparr>)))
            else ret dto) (\<lambda>dto.
     bindc (act (pr_UseVoucher S dto) (EvUseVoucher dto)) (\<lambda>res.
     thenc (CreateMessageMqtt S (uv_UserId dto) MQTTEventBackground ''restart-my-voucher'' (MText ''Success'') False)
       (ret res)))"

definition servicePromotionCompensate :: "'w services \<Rightarrow> string \<Rightarrow> ('w st, goerror option) comp" where
  "servicePromotionCompensate S TraceId = act (pr_ReverseWallet S TraceId) (EvReverseWallet TraceId)"

definition CheckMerchantQuotaAndFee ::
    "'w services \<Rightarrow> MerchantFeeReq \<Rightarrow> ('w st, goerror + MerchantFeeRes) comp" where
  "CheckMerchantQuotaAndFee S req = ask (mf_QuotaFee S req)"

subsection \<open>Effects\<close>

lemma GetProfile_quiet [does_rules]: "quiet (GetProfile S i)"
  unfolding GetProfile_def by (intro does_rules) simp_all

lemma CreateMessageMqtt_quiet [does_rules]: "quiet (CreateMessageMqtt S t e k d b)"
  unfolding CreateMessageMqtt_def by (intro does_rules) simp

lemma MqttUpdateProfile_quiet [does_rules]: "quiet (MqttUpdateProfile S e a b)"
  unfolding MqttUpdateProfile_def by (intro does_rules) simp_all

lemma ConvertETransToDetail_quiet [does_rules]: "quiet (ConvertETransToDetail S t)"
  unfolding ConvertETransToDetail_def deref_def by (intro does_rules) simp_all

lemma SendMqttTransactionByObject_quiet [does_rules]: "quiet (SendMqttTransactionByObject S e t)"
  unfolding SendMqttTransactionByObject_def Let_def by (intro does_rules) simp_all

lemma notificationTransaction_quiet [does_rules]: "quiet (notificationTransaction S t)"
  unfolding notificationTransaction_def by (intro does_rules) simp_all

lemma httpQuery_quiet [does_rules]: "quiet (httpQuery S req)"
  unfolding httpQuery_def by (intro does_rules) simp

lemma LinkList_quiet [does_rules]: "quiet (LinkList S u)"
  unfolding LinkList_def by (intro does_rules) simp

lemma LinkInfo_quiet [does_rules]: "quiet (LinkInfo S l)"
  unfolding LinkInfo_def by (intro does_rules) simp

lemma RetrieveOrderStatus_quiet [does_rules]: "quiet (RetrieveOrderStatus S i c)"
  unfolding RetrieveOrderStatus_def by (intro does_rules) simp

text \<open>The answer of the transaction service as the pair that the Go function returns.\<close>

definition answered :: "goerror + 'a \<Rightarrow> 'a option \<times> goerror option" where
  "answered x = (case x of Inl e \<Rightarrow> (None, Some e) | Inr t \<Rightarrow> (Some t, None))"

lemma answered_simps [simp]: "answered (Inl e) = (None, Some e)" "answered (Inr t) = (Some t, None)"
  by (simp_all add: answered_def)

text \<open>One call to the transaction service, whose answer is returned unless publishing panics.\<close>

definition one_call :: "(goerror + 'a \<Rightarrow> event) \<Rightarrow> ('a option \<times> goerror option) option \<Rightarrow> event list \<Rightarrow> bool" where
  "one_call ev r es \<longleftrightarrow> (\<exists>x. es = [ev x] \<and> (r = Some (answered x) \<or> r = None))"

lemma one_call_cases:
  "one_call ev r es \<longleftrightarrow> (\<exists>e. es = [ev (Inl e)] \<and> (r = Some (None, Some e) \<or> r = None)) \<or>
     (\<exists>t. es = [ev (Inr t)] \<and> (r = Some (Some t, None) \<or> r = None))"
  by (simp add: one_call_def split_sum_ex)

lemma serviceTransactionCancel_does: "does (serviceTransactionCancel S dto) (one_call (EvCancel dto))"
  unfolding serviceTransactionCancel_def
  by (intro does_rules does_bindc_quiet) (auto simp: one_call_def)

lemma serviceTransactionConfirm_does: "does (serviceTransactionConfirm S dto) (one_call (EvConfirm dto))"
  unfolding serviceTransactionConfirm_def
  by (intro does_rules does_bindc_quiet) (auto simp: one_call_def answered_def split: sum.splits)

lemma serviceTransactionPending_does:
  "does (serviceTransactionPending S dto)
     (one_call (EvUpdate (dto\<lparr>tx_Status := TRANSACTION_STATUS_PENDING\<rparr>)))"
  unfolding serviceTransactionPending_def Let_def
  by (intro does_rules does_bindc_quiet) (auto simp: one_call_def)

text \<open>
  The transaction that \<open>serviceTransactionInit\<close> asks for: what it takes over from the request and
  what it sets.
\<close>

definition same_payment :: "ETransactionDTO \<Rightarrow> ETransactionDTO \<Rightarrow> bool" where
  "same_payment a b \<longleftrightarrow> tx_Amount b = tx_Amount a \<and> tx_OrderId b = tx_OrderId a \<and> tx_PayerId b = tx_PayerId a \<and>
     tx_PayeeId b = tx_PayeeId a \<and> tx_TransactionType b = tx_TransactionType a \<and>
     tx_SourceOfFund b = tx_SourceOfFund a \<and> tx_MerchantID b = tx_MerchantID a \<and>
     tx_AmountDiscount b = tx_AmountDiscount a \<and> tx_VoucherID b = tx_VoucherID a"

definition init_request :: "ETransactionDTO \<Rightarrow> ETransactionDTO \<Rightarrow> bool" where
  "init_request request q \<longleftrightarrow> same_payment request q \<and> tx_Status q = TRANSACTION_STATUS_PROCESSING \<and>
     tx_State q = TRANSACTION_STATE_INITIAL \<and> tx_Currency q = VND \<and> tx_TypeWallet q = AmountCash"

definition keeps_payment :: "ETransactionDTO \<Rightarrow> (goerror + ETransactionDTO) option \<Rightarrow> event list \<Rightarrow> bool" where
  "keeps_payment request r es \<longleftrightarrow> es = [] \<and> (\<forall>q. r = Some (Inr q) \<longrightarrow> same_payment request q)"

lemma same_payment_trans: "same_payment a b \<Longrightarrow> same_payment b c \<Longrightarrow> same_payment a c"
  by (simp add: same_payment_def)

lemma init_payer_does: "does (init_payer S request) (keeps_payment request)"
  unfolding init_payer_def
  by (intro does_rules does_bindc_quiet) (auto simp: keeps_payment_def same_payment_def)

lemma init_payee_does: "does (init_payee S request) (keeps_payment request)"
  unfolding init_payee_def
  by (intro does_rules does_bindc_quiet) (auto simp: keeps_payment_def same_payment_def)

lemma init_merchant_fee_does: "does (init_merchant_fee S request) (keeps_payment request)"
  unfolding init_merchant_fee_def Let_def
  by (intro does_rules) (auto simp: keeps_payment_def same_payment_def)

definition initiated :: "ETransactionDTO \<Rightarrow> (ETransactionDTO option \<times> goerror option) option \<Rightarrow> event list \<Rightarrow> bool" where
  "initiated request r es \<longleftrightarrow>
     (es = [] \<and> (r = None \<or> (\<exists>p e. r = Some (p, Some e) \<and> (p = None \<or> p = Some ETransactionDTO_zero)))) \<or>
     (\<exists>q. init_request request q \<and> one_call (EvInit q) r es)"

lemma serviceTransactionInit_does: "does (serviceTransactionInit S request) (initiated request)"
proof -
  have init: "does (bindc (act (ts_Init S q) (EvInit q)) (\<lambda>initTran. case initTran of
       Inl e \<Rightarrow> ret (None, Some e)
     | Inr t \<Rightarrow> thenc (MqttUpdateProfile S UPDATE_USER_INFO (tx_PayerId t) (tx_PayeeId t))
        (thenc (SendMqttTransactionByObject S UPDATE_TRANSACTION t) (ret (Some t, None)))))
     (initiated request)" if "init_request request q" for q
    by (rule does_mono [of _ "one_call (EvInit q)"], intro does_rules does_bindc_quiet)
      (use that in \<open>auto simp: one_call_def initiated_def\<close>)
  have bind: "does (bindc m f) (initiated request)"
    if "does m (keeps_payment q)" "same_payment request q"
      "\<And>e. does (f (Inl e)) (initiated request)"
      "\<And>q'. same_payment request q' \<Longrightarrow> does (f (Inr q')) (initiated request)" for m f q
  proof (rule does_bindc [OF that(1)])
    fix r es
    assume "keeps_payment q (Some r) es"
    then show "does (f r) (\<lambda>r es'. initiated request r (es @ es'))"
      using that(2-4) same_payment_trans by (cases r) (auto simp: keeps_payment_def)
  qed (auto simp: keeps_payment_def initiated_def)
  show ?thesis
    unfolding serviceTransactionInit_def Let_def
  proof (rule bind [OF init_payer_does], goal_cases)
    case 1
    show ?case by (simp add: same_payment_def)
  next
    case (3 q)
    then show ?case
    proof (simp, intro bind [OF init_payee_does], goal_cases)
      case (3 q')
      then show ?case
      proof (simp, intro does_ask_bindc does_sum, goal_cases)
        case (2 r fee)
        then show ?case
        proof (simp, intro bind [OF init_merchant_fee_does], goal_cases)
          case (3 q'')
          then show ?case by (simp, intro init) (auto simp: init_request_def same_payment_def)
        qed (auto simp: initiated_def intro!: does_rules)
      qed (auto simp: initiated_def intro!: does_rules)
    qed (auto simp: initiated_def intro!: does_rules)
  qed (auto simp: initiated_def intro!: does_rules)
qed

end
