(* ===== verification/Steps.thy ===== *)
theory Steps
  imports Transaction_Service
begin

text \<open>
  The statements that the step closures of the orchestrators repeat, over the captured variables
  \<open>order_dto\<close>, \<open>trans\<close>, \<open>failReason\<close> and the others: \<open>x, err = us.Op(ctx, x)\<close>, the guards of the
  compensations, and the voucher step.  Each is written once here and used by every orchestrator
  whose source has it, word for word.
\<close>

subsection \<open>Statements\<close>

definition the_order :: "('w st, OrderEntity) comp" where
  "the_order = bindc (gets order_dto) deref"

definition the_trans :: "('w st, ETransactionDTO) comp" where
  "the_trans = bindc (gets trans) deref"

definition set_order :: "OrderEntity option \<Rightarrow> ('w st, unit) comp" where
  "set_order d = modify (\<lambda>s. s\<lparr>order_dto := d\<rparr>)"

definition set_trans :: "ETransactionDTO option \<Rightarrow> ('w st, unit) comp" where
  "set_trans t = modify (\<lambda>s. s\<lparr>trans := t\<rparr>)"

definition set_failReason :: "string \<Rightarrow> ('w st, unit) comp" where
  "set_failReason r = modify (\<lambda>s. s\<lparr>failReason := r\<rparr>)"

text \<open>\<open>order_dto, err = us.Op(ctx, order_dto)\<close>\<close>

definition assign_order ::
    "(OrderEntity \<Rightarrow> ('w st, OrderEntity \<times> OrderEntity option \<times> goerror option) comp) \<Rightarrow> ('w st, goerror option) comp" where
  "assign_order Op = bindc the_order (\<lambda>d. bindc (Op d) (\<lambda>(_, res, err). thenc (set_order res) (ret err)))"

text \<open>\<open>_, err = us.Op(ctx, order_dto)\<close>: the order is written through the pointer.\<close>

definition through_order ::
    "(OrderEntity \<Rightarrow> ('w st, OrderEntity \<times> OrderEntity option \<times> goerror option) comp) \<Rightarrow> ('w st, goerror option) comp" where
  "through_order Op = bindc the_order (\<lambda>d. bindc (Op d) (\<lambda>(d', _, err). thenc (set_order (Some d')) (ret err)))"

text \<open>\<open>trans, err = us.Op(ctx, trans)\<close>\<close>

definition assign_trans ::
    "(ETransactionDTO \<Rightarrow> ('w st, ETransactionDTO option \<times> goerror option) comp) \<Rightarrow> ('w st, goerror option) comp" where
  "assign_trans Op = bindc the_trans (\<lambda>t. bindc (Op t) (\<lambda>(res, err). thenc (set_trans res) (ret err)))"

text \<open>Assignments to a field through the pointer.\<close>

definition update_order :: "(OrderEntity \<Rightarrow> OrderEntity) \<Rightarrow> ('w st, unit) comp" where
  "update_order f = bindc the_order (\<lambda>d. set_order (Some (f d)))"

definition update_trans :: "(ETransactionDTO \<Rightarrow> ETransactionDTO) \<Rightarrow> ('w st, unit) comp" where
  "update_trans f = bindc the_trans (\<lambda>t. set_trans (Some (f t)))"

subsection \<open>Compensations\<close>

text \<open>
  The compensations assign fields of the transaction or the order before they cancel, park or fail
  it; which ones differs per orchestrator and is the argument \<open>h\<close> (for the transaction, given the
  variables) or \<open>k\<close> (for the order, given \<open>failReason\<close>).
\<close>

abbreviation (input) with_reason :: "'w st \<Rightarrow> ETransactionDTO \<Rightarrow> ETransactionDTO" where
  "with_reason s t \<equiv> t\<lparr>tx_FailReason := failReason s\<rparr>"

abbreviation (input) with_bank_id :: "'w st \<Rightarrow> ETransactionDTO \<Rightarrow> ETransactionDTO" where
  "with_bank_id s t \<equiv> t\<lparr>tx_BankTransactionId := bankTraceId s\<rparr>"

abbreviation (input) with_bank_reason :: "'w st \<Rightarrow> ETransactionDTO \<Rightarrow> ETransactionDTO" where
  "with_bank_reason s t \<equiv> t\<lparr>tx_BankTransactionId := bankTraceId s, tx_FailReason := failReason s\<rparr>"

abbreviation (input) as_is :: "'w st \<Rightarrow> ETransactionDTO \<Rightarrow> ETransactionDTO" where
  "as_is s t \<equiv> t"

abbreviation (input) internal_err :: "string \<Rightarrow> OrderEntity \<Rightarrow> OrderEntity" where
  "internal_err r d \<equiv> d\<lparr>oe_InternalErr := r\<rparr>"

abbreviation (input) order_as_is :: "string \<Rightarrow> OrderEntity \<Rightarrow> OrderEntity" where
  "order_as_is r d \<equiv> d"

text \<open>\<open>if !order_dto.Status.IsVerifying() && !order_dto.Status.IsFailed() { ... us.FailedOrder ... }\<close>\<close>

definition fail_order_unless :: "'w services \<Rightarrow> (string \<Rightarrow> OrderEntity \<Rightarrow> OrderEntity) \<Rightarrow> ('w st, unit) comp" where
  "fail_order_unless S k =
     bindc the_order (\<lambda>d.
     whenc (\<not> IsVerifying (oe_Status d) \<and> \<not> IsFailed (oe_Status d))
       (bindc (gets failReason) (\<lambda>r.
        thenc (update_order (k r)) (thenc (through_order (FailedOrder S)) (ret ())))))"

definition comp_order :: "'w services \<Rightarrow> ('w st, goerror option) comp" where
  "comp_order S = thenc (fail_order_unless S order_as_is) (ret None)"

text \<open>The voucher goes back; then the order fails where the source has that line (\<open>failing\<close>).\<close>

definition comp_voucher :: "'w services \<Rightarrow> bool \<Rightarrow> ('w st, goerror option) comp" where
  "comp_voucher S failing =
     bindc the_order (\<lambda>d.
     bindc (servicePromotionCompensate S (oe_OrderID d)) (\<lambda>err.
     thenc (whenc failing (fail_order_unless S order_as_is)) (ret err)))"

text \<open>\<open>trans.FailReason = failReason; trans, err = us.serviceTransactionCancel(ctx, trans)\<close>\<close>

definition cancel_trans ::
    "'w services \<Rightarrow> ('w st \<Rightarrow> ETransactionDTO \<Rightarrow> ETransactionDTO) \<Rightarrow> ('w st, goerror option) comp" where
  "cancel_trans S h =
     bindc (gets h) (\<lambda>f. thenc (update_trans f) (assign_trans (serviceTransactionCancel S)))"

definition comp_init_payment ::
    "'w services \<Rightarrow> ('w st \<Rightarrow> ETransactionDTO \<Rightarrow> ETransactionDTO) \<Rightarrow> (string \<Rightarrow> OrderEntity \<Rightarrow> OrderEntity) \<Rightarrow>
     ('w st, goerror option) comp" where
  "comp_init_payment S h k =
     bindc (gets trans) (\<lambda>t.
     bindc (case t of
              None \<Rightarrow> ret None
            | Some t \<Rightarrow> if tx_Status t \<noteq> TRANSACTION_STATUS_FAILED \<and> tx_Status t \<noteq> TRANSACTION_STATUS_PENDING
                        then cancel_trans S h else ret None) (\<lambda>err.
     thenc (fail_order_unless S k) (ret err)))"

text \<open>
  \<open>if trans.Status != PENDING { ...; trans, err = us.serviceTransactionPending(ctx, trans) }\<close> and
  \<open>if !order_dto.Status.IsVerifying() { us.VerifyingOrder(ctx, order_dto) }\<close>; \<open>guarded\<close> where the
  source tests \<open>trans != nil\<close> first.
\<close>

definition pending_trans ::
    "'w services \<Rightarrow> bool \<Rightarrow> ('w st \<Rightarrow> ETransactionDTO \<Rightarrow> ETransactionDTO) \<Rightarrow> ('w st, goerror option) comp" where
  "pending_trans S guarded h =
     bindc (gets trans) (\<lambda>p.
     if guarded \<and> p = None then ret None
     else bindc the_trans (\<lambda>t.
       if tx_Status t \<noteq> TRANSACTION_STATUS_PENDING
       then bindc (gets h) (\<lambda>f. thenc (update_trans f) (assign_trans (serviceTransactionPending S)))
       else ret None))"

definition verify_order_unless :: "'w services \<Rightarrow> ('w st, unit) comp" where
  "verify_order_unless S =
     bindc the_order (\<lambda>d.
     whenc (\<not> IsVerifying (oe_Status d)) (thenc (through_order (VerifyingOrder S)) (ret ())))"

definition comp_pending ::
    "'w services \<Rightarrow> bool \<Rightarrow> ('w st \<Rightarrow> ETransactionDTO \<Rightarrow> ETransactionDTO) \<Rightarrow> ('w st, goerror option) comp" where
  "comp_pending S guarded h =
     bindc (pending_trans S guarded h) (\<lambda>err. thenc (verify_order_unless S) (ret err))"

text \<open>
  The compensation of the step that calls a provider or a bank: an open call parks transaction
  and order, anything else cancels and fails them.
\<close>

definition comp_provider ::
    "'w services \<Rightarrow> ('w st \<Rightarrow> bool) \<Rightarrow> ('w st \<Rightarrow> ETransactionDTO \<Rightarrow> ETransactionDTO) \<Rightarrow>
     ('w st \<Rightarrow> ETransactionDTO \<Rightarrow> ETransactionDTO) \<Rightarrow> (string \<Rightarrow> OrderEntity \<Rightarrow> OrderEntity) \<Rightarrow>
     ('w st, goerror option) comp" where
  "comp_provider S open_call h h' k =
     bindc (gets open_call) (\<lambda>b.
     if b then comp_pending S False h
     else
       thenc (cancel_trans S h')
      (bindc (gets failReason) (\<lambda>r.
       thenc (update_order (k r)) (through_order (FailedOrder S)))))"

subsection \<open>Steps\<close>

text \<open>\<open>GetGrpcErrMessage\<close> of \<open>utils/errors\<close>; parsing the detail of a micro error is the parameter.\<close>

definition GetGrpcErrMessage :: "'w services \<Rightarrow> goerror \<Rightarrow> string" where
  "GetGrpcErrMessage S err = (case err of
     StatusError c m \<Rightarrow> m
   | MicroError text c detail \<Rightarrow>
       (case sv_json_detail S detail of None \<Rightarrow> detail | Some d \<Rightarrow> d)
   | _ \<Rightarrow> Error err)"

text \<open>The voucher: \<open>res.Voucher.Voucher.Id\<close> goes through two pointers.\<close>

definition use_voucher :: "'w services \<Rightarrow> string \<Rightarrow> (OrderEntity \<Rightarrow> UseVoucherRequest) \<Rightarrow> ('w st, goerror option) comp" where
  "use_voucher S voucherCode request =
     (if voucherCode \<noteq> [] then
        bindc the_order (\<lambda>d.
        bindc (servicePromotionUsed S (request d)) (\<lambda>r. case r of
          Inl e \<Rightarrow> ret (Some e)
        | Inr res \<Rightarrow>
            bindc (deref (uvr_VoucherId res)) (\<lambda>v.
            thenc (modify (\<lambda>s. s\<lparr>voucherId := v, discount := uvr_DiscountAmount res\<rparr>)) (ret None))))
      else ret None)"

definition voucher_request :: "OrderEntity \<Rightarrow> int64 \<Rightarrow> string \<Rightarrow> string \<Rightarrow> UseVoucherRequest" where
  "voucher_request d amount serviceCode sourceOfFund =
     \<lparr>uv_Code = oe_VoucherCode d, uv_UserId = oe_UserID d, uv_TraceId = oe_OrderID d, uv_Total = 1,
      uv_Amount = amount, uv_ServiceCode = serviceCode, uv_CurrentBalance = 0,
      uv_SourceOfFund = sourceOfFund\<rparr>"

text \<open>
  \<open>trans, err = us.serviceTransactionInit(ctx, dto)\<close>, with \<open>failReason = err.Error()\<close> where the
  source has it (\<open>noting\<close>), and the id of the transaction in the order on success.
\<close>

definition init_trans :: "'w services \<Rightarrow> bool \<Rightarrow> ETransactionDTO \<Rightarrow> ('w st, goerror option) comp" where
  "init_trans S noting dto =
     bindc (serviceTransactionInit S dto) (\<lambda>(t, err).
     thenc (set_trans t)
    (thenc (case err of None \<Rightarrow> ret () | Some e \<Rightarrow> whenc noting (set_failReason (Error e))) (ret err)))"

definition link_order :: "('w st, goerror option) comp \<Rightarrow> ('w st, goerror option) comp" where
  "link_order m =
     bindc m (\<lambda>err. case err of
       Some e \<Rightarrow> ret (Some e)
     | None \<Rightarrow> bindc the_trans (\<lambda>t.
         thenc (update_order (\<lambda>d. d\<lparr>oe_TransactionID := tx_TransactionId t\<rparr>)) (ret None)))"

text \<open>\<open>order_dto, err = us.InitOrder(ctx, d)\<close>\<close>

definition init_order :: "'w services \<Rightarrow> OrderEntity \<Rightarrow> ('w st, goerror option) comp" where
  "init_order S d = bindc (InitOrder S d) (\<lambda>(d, err). thenc (set_order d) (ret err))"

text \<open>\<open>order_dto, err = us.InitOrder(ctx, order_dto)\<close>, where the order is already built.\<close>

definition init_this_order :: "'w services \<Rightarrow> ('w st, goerror option) comp" where
  "init_this_order S = bindc the_order (init_order S)"

text \<open>\<open>trans.F = ...; trans, err = us.serviceTransactionConfirm(ctx, trans)\<close>\<close>

definition confirm_trans ::
    "'w services \<Rightarrow> ('w st \<Rightarrow> ETransactionDTO \<Rightarrow> ETransactionDTO) \<Rightarrow> ('w st, goerror option) comp" where
  "confirm_trans S h =
     bindc (gets h) (\<lambda>f. thenc (update_trans f) (assign_trans (serviceTransactionConfirm S)))"

text \<open>
  A step that asks the bank to move money: the trace id is noted, an error of the call is the fail
  reason, an answer that is still being verified sets \<open>isTimeOutBank\<close> and ends the step with
  \<open>pending\<close>, any other answer goes on with \<open>onOk\<close>.
\<close>

definition bank_step ::
    "('w st, BankRes \<times> goerror option) comp \<Rightarrow> (BankRes \<Rightarrow> ('w st, goerror) comp) \<Rightarrow> (BankRes \<Rightarrow> ('w st, unit) comp) \<Rightarrow>
     ('w st, goerror option) comp" where
  "bank_step call pending onOk =
     bindc call (\<lambda>(res, err).
     thenc (modify (\<lambda>s. s\<lparr>bankTraceId := br_BankTraceId res\<rparr>))
    (case err of
       Some e \<Rightarrow> thenc (set_failReason (Error e)) (ret (Some e))
     | None \<Rightarrow>
         if BankGwStatus_IsVerifying (br_ErrorCode res)
         then thenc (modify (\<lambda>s. s\<lparr>isTimeOutBank := True\<rparr>)) (bindc (pending res) (\<lambda>e. ret (Some e)))
         else thenc (onOk res) (ret None)))"

text \<open>\<open>order_dto, err = us.SuccessOrder(ctx, order_dto); if err == nil { response.OrderEntity = ... }\<close>\<close>

definition success_order :: "'w services \<Rightarrow> ('w st, goerror option) comp" where
  "success_order S =
     bindc (assign_order (SuccessOrder S)) (\<lambda>err.
     thenc (whenc (err = None)
       (bindc the_order (\<lambda>d. modify (\<lambda>s. s\<lparr>resp_OrderEntity := Some (ConvertToProto d)\<rparr>))))
     (ret err))"

text \<open>\<open>order_dto.TransactionID = trans.TransactionId\<close> before it, where the source has that line.\<close>

definition success_linked_order :: "'w services \<Rightarrow> ('w st, goerror option) comp" where
  "success_linked_order S =
     bindc the_trans (\<lambda>t. thenc (update_order (\<lambda>d. d\<lparr>oe_TransactionID := tx_TransactionId t\<rparr>)) (success_order S))"

text \<open>The end of an orchestrator: the saga is played, the order and the error are returned.\<close>

definition orchestrate ::
    "'w services \<Rightarrow> string \<Rightarrow> 'w st step_def list \<Rightarrow> ('w st, OrderEntity option \<times> goerror option) comp" where
  "orchestrate S name sts =
     bindc (run_saga S name sts) (\<lambda>err. bindc (gets order_dto) (\<lambda>d. ret (d, err)))"

text \<open>The order that a payment token stands for, for a payment by bank card.\<close>

definition token_order :: "'w services \<Rightarrow> OrderRequest \<Rightarrow> string option \<Rightarrow> ('w st, goerror + OrderEntity) comp" where
  "token_order S r token =
     (if rq_SourceOfFund r = SOURCE_OF_FUND_BANK_ATM
      then bindc (deref token) (GetValidOrder S) else ret (Inr OrderEntity_zero))"

text \<open>\<open>x, err := lookup(...); if err != nil { return nil, err }\<close> in front of a saga.\<close>

definition with_order ::
    "('w st, goerror + OrderEntity) comp \<Rightarrow> (OrderEntity \<Rightarrow> ('w st, OrderEntity option \<times> goerror option) comp) \<Rightarrow>
     ('w st, OrderEntity option \<times> goerror option) comp" where
  "with_order m body = bindc m (\<lambda>a. case a of Inl e \<Rightarrow> ret (None, Some e) | Inr p \<Rightarrow> body p)"

subsection \<open>Weakest preconditions of the statements\<close>

lemma wp_the_order [wp_rules]: "wp the_order Q E = (\<lambda>s. case order_dto s of None \<Rightarrow> E s | Some d \<Rightarrow> Q d s)"
  by (auto simp: the_order_def wp_rules fun_eq_iff split: option.splits)

lemma wp_the_trans [wp_rules]: "wp the_trans Q E = (\<lambda>s. case trans s of None \<Rightarrow> E s | Some d \<Rightarrow> Q d s)"
  by (auto simp: the_trans_def wp_rules fun_eq_iff split: option.splits)

lemma wp_sets [wp_rules]:
  "wp (set_order d) Q E = (\<lambda>s. Q () (s\<lparr>order_dto := d\<rparr>))"
  "wp (set_trans t) Q E = (\<lambda>s. Q () (s\<lparr>trans := t\<rparr>))"
  "wp (set_failReason r) Q E = (\<lambda>s. Q () (s\<lparr>failReason := r\<rparr>))"
  by (simp_all add: set_order_def set_trans_def set_failReason_def wp_rules)

lemma wp_updates [wp_rules]:
  "wp (update_order f) Q E =
     (\<lambda>s. case order_dto s of None \<Rightarrow> E s | Some d \<Rightarrow> Q () (s\<lparr>order_dto := Some (f d)\<rparr>))"
  "wp (update_trans g) Q E =
     (\<lambda>s. case trans s of None \<Rightarrow> E s | Some t \<Rightarrow> Q () (s\<lparr>trans := Some (g t)\<rparr>))"
  by (auto simp: update_order_def update_trans_def wp_rules fun_eq_iff split: option.splits)

lemma wp_assign_order:
  assumes "\<And>d. does (Op d) (status_write st d)"
    and "order_dto s = None \<Longrightarrow> E s"
    and "\<And>d d' flt e x w es. order_dto s = Some d \<Longrightarrow> key es = [EvReplaceOrder flt d' x] \<Longrightarrow>
      restamped st d d' \<Longrightarrow>
      Q (snd (replaced d' e x)) ((appended s w es)\<lparr>order_dto := fst (replaced d' e x)\<rparr>)"
  shows "wp (assign_order Op) Q E s"
  unfolding assign_order_def wp_bindc wp_the_order
  using assms(2,3)
  by (auto simp: wp_rules status_write_def split: option.split prod.splits intro!: does_wp [OF assms(1)])
    (metis fst_conv snd_conv)+

lemma wp_through_order:
  assumes "\<And>d. does (Op d) (status_write st d)"
    and "order_dto s = None \<Longrightarrow> E s"
    and "\<And>d d' flt e x w es. order_dto s = Some d \<Longrightarrow> key es = [EvReplaceOrder flt d' x] \<Longrightarrow>
      restamped st d d' \<Longrightarrow>
      Q (snd (replaced d' e x)) ((appended s w es)\<lparr>order_dto := Some d'\<rparr>)"
  shows "wp (through_order Op) Q E s"
  unfolding through_order_def wp_bindc wp_the_order
  using assms(2,3)
  by (auto simp: wp_rules status_write_def split: option.split prod.splits intro!: does_wp [OF assms(1)])
    (metis fst_conv snd_conv)+

lemma wp_assign_trans:
  assumes "\<And>t. does (Op t) (one_call (ev t))"
    and "trans s = None \<Longrightarrow> E s"
    and "\<And>t x w es. trans s = Some t \<Longrightarrow> key es = [ev t x] \<Longrightarrow>
      Q (snd (answered x)) ((appended s w es)\<lparr>trans := fst (answered x)\<rparr>)"
    and "\<And>t x w es. trans s = Some t \<Longrightarrow> key es = [ev t x] \<Longrightarrow> E (appended s w es)"
  shows "wp (assign_trans Op) Q E s"
  unfolding assign_trans_def wp_bindc wp_the_trans
  using assms(2-)
  by (auto simp: wp_rules one_call_def split: option.split prod.splits intro!: does_wp [OF assms(1)])
    (metis fst_conv snd_conv)

subsection \<open>Runs that succeed\<close>

text \<open>
  \<open>succeeds f R s\<close>: if the step \<open>f\<close> returns without an error, it leaves a state with \<open>R\<close>.  The
  lemmas below give, for the steps that the orchestrators share, the state and the events of a
  step that went well; \<open>succeeds_Cons\<close> chains them along a saga.
\<close>

abbreviation succeeds :: "('w st, goerror option) comp \<Rightarrow> ('w st \<Rightarrow> bool) \<Rightarrow> 'w st \<Rightarrow> bool" where
  "succeeds f R s \<equiv> wp f (\<lambda>err t. err = None \<longrightarrow> R t) (\<lambda>_. True) s"

lemma wp_True [simp]: "wp m (\<lambda>_ _. True) (\<lambda>_. True) s"
  by (simp add: wp_def split: prod.split outcome.split)

lemma succeeds_Cons:
  "succeeds f (succeeds (run_steps sts (g # gs)) R) s \<Longrightarrow> succeeds (run_steps ((n, f, g) # sts) gs) R s"
  unfolding wp_run_steps_Cons by (erule wp_mono) (auto split: option.split)

lemma succeeds_Nil: "R s \<Longrightarrow> succeeds (run_steps [] gs) R s"
  by (simp add: wp_rules)

lemma succeeds_gets: "succeeds (g (f s)) R s \<Longrightarrow> succeeds (bindc (gets f) g) R s"
  by (simp add: wp_bindc wp_gets)

lemma orchestrate_succeeds:
  assumes "fresh_execution S s"
    and "\<And>w. succeeds (run_steps sts []) (\<lambda>t. \<forall>m. R (order_dto t) (t\<lparr>LogSaga := m\<rparr>)) (s\<lparr>world := w\<rparr>)"
    and "orchestrate S name sts s = (Ret (d, None), t)"
  shows "R d t"
proof -
  have "wp (run_saga S name sts) (\<lambda>err t. err = None \<longrightarrow> R (order_dto t) t) (\<lambda>_. True) s"
    by (rule run_saga_wp [OF assms(1)]) (rule wp_mono [OF assms(2)], auto)
  then have "wp (orchestrate S name sts) (\<lambda>(d, err) t. err = None \<longrightarrow> R d t) (\<lambda>_. True) s"
    by (auto simp: orchestrate_def wp_rules elim: wp_mono)
  from wp_Ret [OF this assms(3)] show ?thesis by simp
qed

lemma init_order_succeeds:
  assumes "\<And>now oid w es. key es = [EvInsertOrder (initial_order d now oid) None] \<Longrightarrow>
    R ((appended s w es)\<lparr>order_dto := Some (initial_order d now oid)\<rparr>)"
  shows "succeeds (init_order S d) R s"
  unfolding init_order_def wp_bindc
  by (rule does_wp [OF InitOrder_does]) (auto simp: order_created_def wp_rules split: prod.splits if_splits intro: assms)

lemma assign_order_succeeds:
  assumes "\<And>d. does (Op d) (status_write st d)"
    and "\<And>d d' flt n w es. order_dto s = Some d \<Longrightarrow> key es = [EvReplaceOrder flt d' (Inr (Suc n))] \<Longrightarrow>
      restamped st d d' \<Longrightarrow> R ((appended s w es)\<lparr>order_dto := Some d'\<rparr>)"
  shows "succeeds (assign_order Op) R s"
proof (rule wp_assign_order [OF assms(1)])
  fix d d' flt e x w es
  assume *: "order_dto s = Some d" "key es = [EvReplaceOrder flt d' x]" "restamped st d d'"
  show "snd (replaced d' e x) = None \<longrightarrow> R ((appended s w es)\<lparr>order_dto := fst (replaced d' e x)\<rparr>)"
    using assms(2) [of d es flt d'] * by auto
qed simp

lemma assign_trans_succeeds:
  assumes "\<And>t. does (Op t) (one_call (ev t))"
    and "\<And>t t' w es. trans s = Some t \<Longrightarrow> key es = [ev t (Inr t')] \<Longrightarrow> R ((appended s w es)\<lparr>trans := Some t'\<rparr>)"
  shows "succeeds (assign_trans Op) R s"
proof (rule wp_assign_trans [OF assms(1)])
  fix t x w es
  assume "trans s = Some t" "key es = [ev t x]"
  then show "snd (answered x) = None \<longrightarrow> R ((appended s w es)\<lparr>trans := fst (answered x)\<rparr>)"
    using assms(2) [of t es] by (cases x) auto
qed simp_all

lemma success_order_succeeds:
  assumes "\<And>d d' flt n w es. order_dto s = Some d \<Longrightarrow> key es = [EvReplaceOrder flt d' (Inr (Suc n))] \<Longrightarrow>
      restamped ORDER_SUCCESS d d' \<Longrightarrow>
      R ((appended s w es)\<lparr>order_dto := Some d', resp_OrderEntity := Some (ConvertToProto d')\<rparr>)"
  shows "succeeds (success_order S) R s"
  unfolding success_order_def wp_bindc
proof (rule wp_assign_order [OF SuccessOrder_does])
  fix d d' flt e x w es
  assume *: "order_dto s = Some d" "key es = [EvReplaceOrder flt d' x]" "restamped ORDER_SUCCESS d d'"
  show "wp (whenc (snd (replaced d' e x) = None)
          (bindc the_order (\<lambda>d. modify (\<lambda>s. s\<lparr>resp_OrderEntity := Some (ConvertToProto d)\<rparr>))))
       (\<lambda>a. wp (ret (snd (replaced d' e x))) (\<lambda>err t. err = None \<longrightarrow> R t) (\<lambda>_. True)) (\<lambda>_. True)
       ((appended s w es)\<lparr>order_dto := fst (replaced d' e x)\<rparr>)"
    using assms [of d es flt d'] * by (auto simp: wp_rules)
qed simp

lemma init_trans_succeeds:
  assumes "\<And>q t w es. init_request dto q \<Longrightarrow> key es = [EvInit q (Inr t)] \<Longrightarrow> R ((appended s w es)\<lparr>trans := Some t\<rparr>)"
  shows "succeeds (init_trans S noting dto) R s"
  unfolding init_trans_def wp_bindc
  by (rule does_wp [OF serviceTransactionInit_does])
    (auto simp: initiated_def one_call_cases wp_rules intro: assms)

lemma link_order_succeeds:
  assumes "succeeds m (\<lambda>t. \<forall>x d. trans t = Some x \<longrightarrow> order_dto t = Some d \<longrightarrow>
     R (t\<lparr>order_dto := Some (d\<lparr>oe_TransactionID := tx_TransactionId x\<rparr>)\<rparr>)) s"
  shows "succeeds (link_order m) R s"
  unfolding link_order_def wp_bindc
  by (rule wp_mono [OF assms]) (auto simp: wp_rules split: option.split)

lemma confirm_trans_succeeds:
  assumes "\<And>t t' w es. trans s = Some t \<Longrightarrow> key es = [EvConfirm (h s t) (Inr t')] \<Longrightarrow>
     R ((appended s w es)\<lparr>trans := Some t'\<rparr>)"
  shows "succeeds (confirm_trans S h) R s"
  unfolding confirm_trans_def wp_bindc wp_gets wp_updates
  by (auto split: option.split intro!: assign_trans_succeeds [OF serviceTransactionConfirm_does] assms)

lemma servicePromotionUsed_does:
  "does (servicePromotionUsed S dto) (\<lambda>r es. (es = [] \<and> r = None) \<or>
     (\<exists>b x. es = [EvUseVoucher (dto\<lparr>uv_CurrentBalance := b\<rparr>) x] \<and> (r = Some x \<or> r = None)))"
proof -
  have same: "\<exists>b. dto = dto\<lparr>uv_CurrentBalance := b\<rparr>"
    by (rule exI [of _ "uv_CurrentBalance dto"]) simp
  have bal: "does (if uv_UserId dto \<noteq> [] then bindc (GetProfile S (uv_UserId dto)) (\<lambda>r. case r of
                Inl _ \<Rightarrow> ret dto
              | Inr user \<Rightarrow> (case us_Balances user of
                  [] \<Rightarrow> panic ''index out of range''
                | b # _ \<Rightarrow> ret (dto\<lparr>uv_CurrentBalance := bl_AmountAvailable b - bl_AmountFreeze b\<rparr>)))
            else ret dto) (\<lambda>r es. es = [] \<and> (\<forall>a. r = Some a \<longrightarrow> (\<exists>b. a = dto\<lparr>uv_CurrentBalance := b\<rparr>)))"
    by (intro does_rules does_bindc_quiet)
      (auto simp: same split: list.splits intro!: does_rules)
  show ?thesis
    unfolding servicePromotionUsed_def
    by (rule does_bindc [OF bal]) (auto intro!: does_rules does_bindc_quiet)
qed

lemma use_voucher_succeeds:
  assumes "code = [] \<Longrightarrow> R s"
    and "\<And>d b res v w es. code \<noteq> [] \<Longrightarrow> order_dto s = Some d \<Longrightarrow> uvr_VoucherId res = Some v \<Longrightarrow>
      key es = [EvUseVoucher ((req d)\<lparr>uv_CurrentBalance := b\<rparr>) (Inr res)] \<Longrightarrow>
      R ((appended s w es)\<lparr>voucherId := v, discount := uvr_DiscountAmount res\<rparr>)"
  shows "succeeds (use_voucher S code req) R s"
proof (cases "code = []")
  case False
  have "succeeds (bindc (servicePromotionUsed S (req d)) (\<lambda>r. case r of
          Inl e \<Rightarrow> ret (Some e)
        | Inr res \<Rightarrow> bindc (deref (uvr_VoucherId res)) (\<lambda>v.
            thenc (modify (\<lambda>s. s\<lparr>voucherId := v, discount := uvr_DiscountAmount res\<rparr>)) (ret None)))) R s"
    if "order_dto s = Some d" for d
    unfolding wp_bindc
    by (rule does_wp [OF servicePromotionUsed_does])
      (use False that in \<open>auto simp: wp_rules split: sum.splits option.splits intro: assms(2)\<close>)
  with False show ?thesis by (simp add: use_voucher_def wp_bindc wp_the_order split: option.split)
qed (simp add: use_voucher_def wp_rules assms(1))

lemma init_this_order_succeeds:
  assumes "\<And>d now oid w es. order_dto s = Some d \<Longrightarrow> key es = [EvInsertOrder (initial_order d now oid) None] \<Longrightarrow>
    R ((appended s w es)\<lparr>order_dto := Some (initial_order d now oid)\<rparr>)"
  shows "succeeds (init_this_order S) R s"
  unfolding init_this_order_def wp_bindc wp_the_order
  by (auto split: option.split intro!: init_order_succeeds assms)

lemma success_linked_order_succeeds:
  assumes "\<And>d t d' flt n w es. order_dto s = Some d \<Longrightarrow> trans s = Some t \<Longrightarrow>
      key es = [EvReplaceOrder flt d' (Inr (Suc n))] \<Longrightarrow>
      restamped ORDER_SUCCESS (d\<lparr>oe_TransactionID := tx_TransactionId t\<rparr>) d' \<Longrightarrow>
      R ((appended s w es)\<lparr>order_dto := Some d', resp_OrderEntity := Some (ConvertToProto d')\<rparr>)"
  shows "succeeds (success_linked_order S) R s"
  unfolding success_linked_order_def wp_bindc wp_the_trans wp_updates
  by (auto split: option.split intro!: success_order_succeeds assms)

text \<open>What the voucher step leaves: nothing without a code, else one use of the voucher for the order.\<close>

definition voucher_used :: "string \<Rightarrow> OrderEntity \<Rightarrow> int64 \<Rightarrow> string \<Rightarrow> event list \<Rightarrow> bool" where
  "voucher_used code d disc v vs \<longleftrightarrow>
     (if code = [] then vs = [] \<and> disc = 0 \<and> v = []
      else \<exists>u res. vs = [EvUseVoucher u (Inr res)] \<and> uv_TraceId u = oe_OrderID d \<and>
             disc = uvr_DiscountAmount res \<and> uvr_VoucherId res = Some v)"

text \<open>The order that the saga works on, and what creating it has left in the trace.\<close>

definition opened :: "OrderEntity \<Rightarrow> event list \<Rightarrow> OrderEntity \<Rightarrow> bool" where
  "opened d ops d0 \<longleftrightarrow>
     (if oe_OrderID d = [] then (\<exists>now oid. d0 = initial_order d now oid) \<and> ops = [EvInsertOrder d0 None]
      else d0 = d \<and> ops = [])"

text \<open>A token stands for an order that can still be paid.\<close>

definition payable :: "OrderEntity \<Rightarrow> bool" where
  "payable d \<longleftrightarrow> \<not> IsVerifying (oe_Status d) \<and> \<not> IsSuccess (oe_Status d) \<and> \<not> IsFailed (oe_Status d) \<and>
     \<not> oe_IsExpired d"

definition token_answer :: "OrderRequest \<Rightarrow> OrderEntity \<Rightarrow> bool" where
  "token_answer r p \<longleftrightarrow> (if rq_SourceOfFund r = SOURCE_OF_FUND_BANK_ATM then payable p else p = OrderEntity_zero)"

lemma token_order_does:
  "does (token_order S r token) (\<lambda>a es. es = [] \<and> (\<forall>p. a = Some (Inr p) \<longrightarrow> token_answer r p))"
  unfolding token_order_def
  by (intro does_rules, rule does_mono [OF GetValidOrder_does])
    (auto simp: token_answer_def payable_def intro: does_rules)

lemma with_order_wp:
  assumes "does m (\<lambda>a es. es = [] \<and> (\<forall>p. a = Some (Inr p) \<longrightarrow> K p))"
    and "\<And>p w es. K p \<Longrightarrow> key es = [] \<Longrightarrow> wp (body p) Q E (appended s w es)"
    and "\<And>e w es. key es = [] \<Longrightarrow> Q (None, Some e) (appended s w es)"
    and "\<And>w es. key es = [] \<Longrightarrow> E (appended s w es)"
  shows "wp (with_order m body) Q E s"
  unfolding with_order_def wp_bindc
proof (rule does_wp [OF assms(1)], goal_cases)
  case (1 a w es)
  then show ?case by (cases a) (auto simp: wp_ret intro: assms)
qed (auto intro: assms)

text \<open>The order that the collection holds under an id, at a time when it can still be paid.\<close>

definition payable_order :: "'w services \<Rightarrow> string \<Rightarrow> OrderEntity \<Rightarrow> bool" where
  "payable_order S i d \<longleftrightarrow> payable d \<and> (\<exists>w. fst (mg_FindOrder S (ByOrderID i) w) = Inr d)"

lemma valid_order_does: "does (GetValidOrder S i) (\<lambda>a es. es = [] \<and> (\<forall>p. a = Some (Inr p) \<longrightarrow> payable_order S i p))"
  unfolding GetValidOrder_def FindByOrderID_def
  by (rule does_bindc [OF does_ask_answer])
    (auto simp: payable_order_def payable_def split: sum.split intro!: does_rules intro: sym)

text \<open>
  What the bank answers to a request for information: the decoded answer of one round trip and its error.  \<open>bank_told\<close> is
  an answer without an error, \<open>link_told\<close> such an answer to the question after a link, and \<open>order_reply\<close> any answer
  to the question what has become of an order.
\<close>

definition bank_replied :: "'w services \<Rightarrow> BankReq \<Rightarrow> BankRes \<times> goerror option \<Rightarrow> bool" where
  "bank_replied S q r \<longleftrightarrow> (\<exists>w. http_result S (fst (bk_Do S q w)) = r)"

abbreviation bank_told :: "'w services \<Rightarrow> BankReq \<Rightarrow> BankRes \<Rightarrow> bool" where
  "bank_told S q res \<equiv> bank_replied S q (res, None)"

definition link_told :: "'w services \<Rightarrow> int64 \<Rightarrow> BankRes \<Rightarrow> bool" where
  "link_told S i info \<longleftrightarrow> (\<exists>now. bank_told S (envelope ''linkinfo'' ClientCode [] now (LinkInfoRequestData i []) ''ip'') info)"

definition order_reply :: "'w services \<Rightarrow> string \<Rightarrow> string \<Rightarrow> BankRes \<times> goerror option \<Rightarrow> bool" where
  "order_reply S i bank r \<longleftrightarrow> (\<exists>now. bank_replied S (envelope ''retrieve'' ''GPAYCORE'' bank now
     (CreditData (CreditPaymentRequestData_zero\<lparr>cp_GpayTransactionId := i\<rparr>)) ''ip'') r)"

lemma checked_ok: "checked a b ok (res, err) = (r, None) \<longleftrightarrow> err = None \<and> r = res \<and> ok (br_ErrorCode res)"
  by (auto simp: checked_def split: option.splits if_splits)

lemma httpQuery_does: "does (httpQuery S q) (\<lambda>a es. es = [] \<and> (\<forall>r. a = Some r \<longrightarrow> bank_replied S q r))"
  unfolding httpQuery_def by (rule does_mono [OF does_ask_answer]) (auto simp: bank_replied_def)

lemma LinkInfo_does: "does (LinkInfo S i) (\<lambda>a es. es = [] \<and> (\<forall>res. a = Some (res, None) \<longrightarrow> link_told S i res))"
  unfolding LinkInfo_def
proof (rule does_ask_bindc, rule does_bindc [OF httpQuery_does], rule does_ret, goal_cases)
  case (1 now r es)
  then show ?case by (cases r) (auto simp: checked_ok link_told_def)
qed simp

lemma RetrieveOrderStatus_does:
  "does (RetrieveOrderStatus S i bank) (\<lambda>a es. es = [] \<and> (\<forall>x. a = Some x \<longrightarrow> (\<exists>r. order_reply S i bank r \<and>
     x = checked False False (\<lambda>st. BankGwStatus_IsSuccess st \<or> BankGwStatus_IsVerifying st \<or> BankGwStatus_IsFail st) r)))"
  unfolding RetrieveOrderStatus_def
  by (rule does_ask_bindc, rule does_bindc [OF httpQuery_does], rule does_ret) (auto simp: order_reply_def)

subsection \<open>Calls of the bank\<close>

text \<open>One request, and the checked answer.\<close>

definition bank_call ::
    "(gotime \<Rightarrow> BankReq) \<Rightarrow> bool \<Rightarrow> bool \<Rightarrow> (BankGwStatus \<Rightarrow> bool) \<Rightarrow> (BankRes \<times> goerror option) option \<Rightarrow> event list \<Rightarrow> bool" where
  "bank_call q a b ok r es \<longleftrightarrow> (\<exists>now res err. es = [EvBank (q now) res err] \<and> r = Some (checked a b ok (res, err)))"

lemma bank_request_does:
  "does (bindc (ask (sv_now S)) (\<lambda>now. bindc (httpRequest S (q now)) (\<lambda>r. ret (checked a b ok r)))) (bank_call q a b ok)"
  unfolding httpRequest_def
  by (intro does_rules does_bindc_quiet) (auto simp: bank_call_def split: prod.splits)

abbreviation answers :: "BankGwStatus \<Rightarrow> bool" where
  "answers st \<equiv> BankGwStatus_IsVerifying st \<or> BankGwStatus_IsSuccess st"

lemma bank_IBFTTransfer_does:
  "does (bank_IBFTTransfer S a c u i ib de am bn) (bank_call (\<lambda>now. envelope ''ibftfundtransfer'' ClientCode GPAY_VCCB now
     (IBFTTransferReqData a c u i am ib de bn) ''ip'') False True answers)"
  unfolding bank_IBFTTransfer_def by (rule bank_request_does)

lemma bank_CashOut_does:
  "does (bank_CashOut S am b i l de u) (bank_call (\<lambda>now. envelope ''cashout'' ClientCode b now
     (CashOutRequestData am i l ''MOBILE'' u ''Cashout'') ''ip'') True True (\<lambda>st. BankGwStatus_IsSuccess st \<or> BankGwStatus_IsVerifying st))"
  unfolding bank_CashOut_def by (rule bank_request_does)

lemma bank_step_succeeds:
  assumes "does call (bank_call q a b ok)" "\<And>st. ok st \<Longrightarrow> answers st"
    and "\<And>now res w es. key es = [EvBank (q now) res None] \<Longrightarrow> BankGwStatus_IsSuccess (br_ErrorCode res) \<Longrightarrow>
      wp (onOk res) (\<lambda>_. R) (\<lambda>_. True) ((appended s w es)\<lparr>bankTraceId := br_BankTraceId res\<rparr>)"
  shows "succeeds (bank_step call pending onOk) R s"
  unfolding bank_step_def wp_bindc
proof (rule does_wp [OF assms(1)], goal_cases)
  case (1 r w es)
  then obtain now res err where es: "key es = [EvBank (q now) res err]" "r = checked a b ok (res, err)"
    by (auto simp: bank_call_def)
  obtain r1 r2 where r: "r = (r1, r2)" by force
  show ?case
  proof (cases r2)
    case None
    then have ok: "err = None" "r1 = res" "ok (br_ErrorCode res)" using es(2) r checked_ok [of a b ok res err r1] by auto
    show ?thesis
      using ok es(1) assms(2) [OF ok(3)] None assms(3) [of es now res w]
      by (auto simp: r wp_rules)
  qed (simp add: r wp_rules)
qed simp

end
