(* ===== verification/Step_Effects.thy ===== *)
theory Step_Effects
  imports Steps
begin

text \<open>
  What the shared statements and compensations may do outside: how often an event of a class can
  occur, in which state a failed run leaves the order, and that a call which is still open is
  never given up.
\<close>

subsection \<open>Events of the shared steps\<close>

text \<open>Classes of events.\<close>

fun is_insert :: "event \<Rightarrow> bool" where
  "is_insert (EvInsertOrder _ _) = True" | "is_insert _ = False"

fun is_init :: "event \<Rightarrow> bool" where
  "is_init (EvInit _ _) = True" | "is_init _ = False"

fun is_confirm :: "event \<Rightarrow> bool" where
  "is_confirm (EvConfirm _ _) = True" | "is_confirm _ = False"

fun is_voucher :: "event \<Rightarrow> bool" where
  "is_voucher (EvUseVoucher _ _) = True" | "is_voucher _ = False"

fun is_provider :: "event \<Rightarrow> bool" where
  "is_provider (EvTopup _ _) = True" | "is_provider (EvBuyCard _ _) = True"
| "is_provider (EvPaidBill _ _) = True" | "is_provider _ = False"

fun is_bank :: "event \<Rightarrow> bool" where
  "is_bank (EvBank _ _ _) = True" | "is_bank _ = False"

text \<open>Those of the compensations.\<close>

fun compensating :: "event \<Rightarrow> bool" where
  "compensating (EvReplaceOrder _ _ _) = True" | "compensating (EvCancel _ _) = True"
| "compensating (EvUpdate _ _) = True" | "compensating (EvReverseWallet _ _) = True"
| "compensating _ = False"

definition foreign :: "(event \<Rightarrow> bool) \<Rightarrow> bool" where
  "foreign A \<longleftrightarrow> (\<forall>e. compensating e \<longrightarrow> \<not> A e)"

lemma foreignD: "foreign A \<Longrightarrow> A e \<Longrightarrow> \<not> compensating e"
  by (auto simp: foreign_def)

text \<open>Calls that no compensation makes, for they are not among them or mark an order as successful.\<close>

fun success_write :: "event \<Rightarrow> bool" where
  "success_write (EvReplaceOrder f d x) \<longleftrightarrow> oe_Status d = ORDER_SUCCESS"
| "success_write _ \<longleftrightarrow> False"

definition late :: "(event \<Rightarrow> bool) \<Rightarrow> bool" where
  "late A \<longleftrightarrow> (\<forall>e. compensating e \<longrightarrow> A e \<longrightarrow> success_write e)"

lemma foreign_late: "foreign A \<Longrightarrow> late A"
  by (simp add: foreign_def late_def)

lemma lateD:
  assumes "late A"
  shows "A (EvCancel t x) \<Longrightarrow> False" "A (EvUpdate t x) \<Longrightarrow> False" "A (EvReverseWallet i y) \<Longrightarrow> False"
    "A (EvReplaceOrder f d z) \<Longrightarrow> oe_Status d = ORDER_SUCCESS"
  using assms unfolding late_def by (metis compensating.simps success_write.simps)+

lemma foreign_classes [simp]:
  "foreign is_insert" "foreign is_init" "foreign is_confirm" "foreign is_voucher" "foreign is_provider"
  "foreign is_bank" "foreign (\<lambda>_. False)"
  by (auto simp: foreign_def elim: compensating.elims)

lemma atmost_statements [atmost_rules]:
  "atmost A n the_order" "atmost A n the_trans" "atmost A n (set_order d)" "atmost A n (set_trans t)"
  "atmost A n (set_failReason r)" "atmost A n (update_order f)" "atmost A n (update_trans g)"
  unfolding the_order_def the_trans_def set_order_def set_trans_def set_failReason_def update_order_def
    update_trans_def
  by (intro atmost_rules; simp)+

lemma atmost_status_write:
  "does m (status_write st d) \<Longrightarrow> foreign A \<Longrightarrow> atmost A 0 m"
  by (erule atmost_does) (auto simp: status_write_def foreign_def)

lemma late_status_write:
  assumes "does m (status_write st d)" "late A" "st \<noteq> ORDER_SUCCESS"
  shows "atmost A 0 m"
proof -
  have "\<not> A (EvReplaceOrder f d' x)" if "restamped st d d'" for f d' x
    using lateD(4) [OF assms(2)] restamped_sel(1) [OF that] assms(3) by blast
  then show ?thesis by (intro atmost_does [OF assms(1)]) (auto simp: status_write_def)
qed

lemma late_order_ops:
  assumes "late A"
  shows "atmost A 0 (assign_order (ProcessingOrder S))"
    "atmost A 0 (through_order (FailedOrder S))" "atmost A 0 (through_order (VerifyingOrder S))"
    "atmost A 0 (through_order (CancelOrder S))" "atmost A 0 (through_order (ProcessingOrder S))"
  unfolding assign_order_def through_order_def using assms
  by (intro atmost_rules late_status_write [OF ProcessingOrder_does] late_status_write [OF FailedOrder_does]
      late_status_write [OF VerifyingOrder_does] late_status_write [OF CancelOrder_does]; simp)+

lemma atmost_order_ops [atmost_rules]:
  assumes "foreign A"
  shows "atmost A 0 (assign_order (ProcessingOrder S))" "atmost A 0 (assign_order (SuccessOrder S))"
    "atmost A 0 (through_order (FailedOrder S))" "atmost A 0 (through_order (VerifyingOrder S))"
    "atmost A 0 (through_order (CancelOrder S))" "atmost A 0 (through_order (SuccessOrder S))"
    "atmost A 0 (through_order (ProcessingOrder S))"
proof -
  show "atmost A 0 (assign_order (SuccessOrder S))" "atmost A 0 (through_order (SuccessOrder S))"
    unfolding assign_order_def through_order_def using assms
    by (intro atmost_rules atmost_status_write [OF SuccessOrder_does]; simp)+
qed (rule late_order_ops [OF foreign_late [OF assms]])+

lemma atmost_one_call:
  "does m (one_call ev) \<Longrightarrow> (\<And>x. A (ev x) \<Longrightarrow> 0 < n) \<Longrightarrow> atmost A n m"
  by (erule atmost_does) (auto simp: one_call_def Suc_le_eq)

lemma late_trans_ops:
  assumes "late A"
  shows "atmost A 0 (assign_trans (serviceTransactionCancel S))" "atmost A 0 (assign_trans (serviceTransactionPending S))"
  unfolding assign_trans_def using assms
  by (intro atmost_rules atmost_one_call [OF serviceTransactionCancel_does]
      atmost_one_call [OF serviceTransactionPending_does]; auto dest: lateD)+

lemmas atmost_trans_ops [atmost_rules] = late_trans_ops [OF foreign_late]

lemma atmost_confirm [atmost_rules]:
  assumes "\<And>t x. A (EvConfirm t x) \<Longrightarrow> 0 < n"
  shows "atmost A n (assign_trans (serviceTransactionConfirm S))"
  unfolding assign_trans_def
  by (rule atmost_bindc, rule atmost_statements, rule atmost_bindc_left,
      rule atmost_one_call [OF serviceTransactionConfirm_does]) (auto intro!: atmost_rules dest: assms)

lemma late_compensations:
  assumes "late A"
  shows "atmost A 0 (fail_order_unless S k)" "atmost A 0 (comp_order S)" "atmost A 0 (comp_voucher S b)"
    "atmost A 0 (cancel_trans S h)" "atmost A 0 (comp_init_payment S h k)" "atmost A 0 (pending_trans S b h)"
    "atmost A 0 (verify_order_unless S)" "atmost A 0 (comp_pending S b h)" "atmost A 0 (comp_provider S p h h' k)"
proof -
  have f: "\<not> A (EvReverseWallet i x)" for i x using lateD(3) [OF assms] by blast
  show 1: "atmost A 0 (fail_order_unless S k)" for k
    unfolding fail_order_unless_def by (intro atmost_rules late_order_ops late_trans_ops assms)
  show "atmost A 0 (comp_order S)" unfolding comp_order_def by (intro atmost_rules 1)
  show "atmost A 0 (comp_voucher S b)"
    unfolding comp_voucher_def servicePromotionCompensate_def by (intro atmost_rules 1) (simp add: f)
  show 2: "atmost A 0 (cancel_trans S h)" for h unfolding cancel_trans_def by (intro atmost_rules late_order_ops late_trans_ops assms)
  show "atmost A 0 (comp_init_payment S h k)" unfolding comp_init_payment_def by (intro atmost_rules 1 2)
  show 3: "atmost A 0 (pending_trans S b h)" for b h unfolding pending_trans_def by (intro atmost_rules late_order_ops late_trans_ops assms)
  show 4: "atmost A 0 (verify_order_unless S)" unfolding verify_order_unless_def by (intro atmost_rules late_order_ops late_trans_ops assms)
  show 5: "atmost A 0 (comp_pending S b h)" for b h unfolding comp_pending_def by (intro atmost_rules 3 4)
  show "atmost A 0 (comp_provider S p h h' k)"
    unfolding comp_provider_def by (intro atmost_rules 2 5 late_order_ops assms)
qed

lemmas atmost_compensations [atmost_rules] = late_compensations [OF foreign_late]

lemma atmost_init_order [atmost_rules]:
  "(\<And>d x. A (EvInsertOrder d x) \<Longrightarrow> 0 < n) \<Longrightarrow> atmost A n (init_order S d)"
  unfolding init_order_def
  by (rule atmost_bindc_left, rule atmost_does [OF InitOrder_does])
    (auto simp: order_created_def Suc_le_eq intro!: atmost_rules)

lemma atmost_init_this_order [atmost_rules]:
  "(\<And>d x. A (EvInsertOrder d x) \<Longrightarrow> 0 < n) \<Longrightarrow> atmost A n (init_this_order S)"
  unfolding init_this_order_def by (intro atmost_rules)

lemma atmost_confirm_trans [atmost_rules]:
  "(\<And>t x. A (EvConfirm t x) \<Longrightarrow> 0 < n) \<Longrightarrow> atmost A n (confirm_trans S h)"
  unfolding confirm_trans_def by (intro atmost_rules)

lemma atmost_link_order [atmost_rules]: "atmost A n m \<Longrightarrow> atmost A n (link_order m)"
  unfolding link_order_def by (erule atmost_bindc_left) (intro atmost_rules)

lemma atmost_use_voucher [atmost_rules]:
  assumes "\<And>u x. A (EvUseVoucher u x) \<Longrightarrow> 0 < n"
  shows "atmost A n (use_voucher S c r)"
  unfolding use_voucher_def
  by (rule atmost_if, rule atmost_bindc, rule atmost_statements, rule atmost_bindc_left,
      rule atmost_does [OF servicePromotionUsed_does]) (auto intro!: atmost_rules dest: assms simp: Suc_le_eq)

lemma atmost_init_trans [atmost_rules]:
  assumes "\<And>q x. A (EvInit q x) \<Longrightarrow> 0 < n"
  shows "atmost A n (init_trans S noting dto)"
  unfolding init_trans_def
  by (intro atmost_bindc_left atmost_does [OF serviceTransactionInit_does])
    (auto simp: initiated_def one_call_def Suc_le_eq dest: assms intro!: atmost_rules)

lemma atmost_success_order [atmost_rules]: "foreign A \<Longrightarrow> atmost A 0 (success_order S)"
  unfolding success_order_def by (intro atmost_rules) simp_all

lemma atmost_success_linked_order [atmost_rules]: "foreign A \<Longrightarrow> atmost A 0 (success_linked_order S)"
  unfolding success_linked_order_def by (intro atmost_rules)

subsection \<open>Whole runs\<close>

lemma adds_vars [simp]:
  "adds A n (s\<lparr>world := w\<rparr>) = adds A n s"
  by (simp add: adds_def fun_eq_iff)

lemma ordered_vars [simp]:
  "ordered A ok (s\<lparr>world := w\<rparr>) = ordered A ok s" "ordered A ok s (t\<lparr>LogSaga := m\<rparr>) = ordered A ok s t"
  by (simp_all add: ordered_def fun_eq_iff)

lemma orchestrate_wp:
  assumes "fresh_execution S s"
    and "\<And>w. wp (run_steps sts []) (\<lambda>err t. \<forall>m. Q (order_dto t, err) (t\<lparr>LogSaga := m\<rparr>)) (\<lambda>t. \<forall>m. E (t\<lparr>LogSaga := m\<rparr>))
           (s\<lparr>world := w\<rparr>)"
  shows "wp (orchestrate S name sts) Q E s"
  unfolding orchestrate_def wp_bindc wp_gets wp_ret
  by (rule run_saga_wp [OF assms(1)]) (rule wp_mono [OF assms(2)], simp_all)

lemma orchestrate_atmost:
  assumes "fresh_execution S s" and "atmost A n (run_steps sts [])"
  shows "wp (orchestrate S name sts) (\<lambda>_. adds A n s) (adds A n s) s"
proof (rule orchestrate_wp [OF assms(1)])
  fix w
  show "wp (run_steps sts []) (\<lambda>err t. \<forall>m. adds A n s (t\<lparr>LogSaga := m\<rparr>)) (\<lambda>t. \<forall>m. adds A n s (t\<lparr>LogSaga := m\<rparr>))
     (s\<lparr>world := w\<rparr>)"
    using assms(2) [unfolded atmost_def, rule_format, of "s\<lparr>world := w\<rparr>"] by simp
qed

lemma orchestrate_ordered:
  assumes "fresh_execution S s"
    and "\<And>n f g. (n, f, g) \<in> set pre \<Longrightarrow> atmost A 0 f \<and> atmost A 0 g"
    and "guards A ok f" and "atmost A 0 g"
    and all: "\<And>n f g. (n, f, g) \<in> set post \<Longrightarrow> atmost (\<lambda>_. False) 0 f \<and> atmost (\<lambda>_. False) 0 g"
      "atmost (\<lambda>_. False) 0 g" "\<And>n f g. (n, f, g) \<in> set pre \<Longrightarrow> atmost (\<lambda>_. False) 0 g"
  shows "wp (orchestrate S name (pre @ (n, f, g) # post)) (\<lambda>_. ordered A ok s) (ordered A ok s) s"
proof (rule orchestrate_wp [OF assms(1)])
  fix w
  have "atmost (\<lambda>_. False) 0 (run_steps post gs)" if "set gs \<subseteq> {} \<union> snd ` snd ` set pre \<union> {g}" for gs
  proof (rule atmost_run_none)
    fix g' assume "g' \<in> set gs"
    then have "g' = g \<or> (\<exists>n f. (n, f, g') \<in> set pre)" using that by force
    then show "atmost (\<lambda>_. False) 0 g'" using all by auto
  qed (use all in blast)+
  then have "wp (run_steps (pre @ (n, f, g) # post) []) (\<lambda>_. ordered A ok (s\<lparr>world := w\<rparr>)) (ordered A ok (s\<lparr>world := w\<rparr>)) (s\<lparr>world := w\<rparr>)"
    by (intro run_steps_ordered [where G = "{}"]) (use assms(2-4) in auto)
  then show "wp (run_steps (pre @ (n, f, g) # post) []) (\<lambda>err t. \<forall>m. ordered A ok s (t\<lparr>LogSaga := m\<rparr>))
      (\<lambda>t. \<forall>m. ordered A ok s (t\<lparr>LogSaga := m\<rparr>)) (s\<lparr>world := w\<rparr>)" by simp
qed

lemma fresh_execution_vars [simp]: "fresh_execution S (fresh_vars d s) = fresh_execution S s"
  by (simp add: fresh_execution_def fresh_vars_def)

text \<open>
  An orchestrator that looks something up before its saga draws the id in a later world:
  \<open>fresh_saga\<close> says that no id the random source could draw is in use.
\<close>

definition fresh_saga :: "'w services \<Rightarrow> 'w st \<Rightarrow> bool" where
  "fresh_saga S s \<longleftrightarrow> (\<forall>w. LogSaga s (fst (RandString (sv_rand S) w)) = None)"

lemma fresh_saga_execution: "fresh_saga S s \<Longrightarrow> LogSaga t = LogSaga s \<Longrightarrow> fresh_execution S t"
  by (simp add: fresh_saga_def fresh_execution_def)

lemma LogSaga_fresh_vars [simp]: "LogSaga (fresh_vars d s) = LogSaga s"
  by (simp add: fresh_vars_def)

lemma trace_fresh_vars [simp]: "trace (fresh_vars d s) = trace s" "world (fresh_vars d s) = world s"
  "order_dto (fresh_vars d s) = d" "trans (fresh_vars d s) = None"
  by (simp_all add: fresh_vars_def)

lemma fresh_vars_start [simp]: "discount (fresh_vars d s) = 0" "voucherId (fresh_vars d s) = []"
  by (simp_all add: fresh_vars_def)

lemma adds_fresh_vars [simp]: "adds A n (fresh_vars d s) = adds A n s"
  by (simp add: adds_def fun_eq_iff)

lemma ordered_fresh_vars [simp]: "ordered A ok (fresh_vars d s) = ordered A ok s"
  by (simp add: ordered_def fun_eq_iff)

text \<open>An order that nobody will pay any more: failed, or in the hands of the operators.\<close>

definition settled :: "OrderEntity \<Rightarrow> bool" where
  "settled d \<longleftrightarrow> IsFailed (oe_Status d) \<or> IsVerifying (oe_Status d)"

lemma fail_order_unless_settles:
  "wp (fail_order_unless S k) (\<lambda>_ t. \<exists>d. order_dto t = Some d \<and> settled d) (\<lambda>_. True) s"
  unfolding fail_order_unless_def
  by (auto simp: wp_rules settled_def whenc_def split: option.split
      intro!: wp_through_order [OF FailedOrder_does] dest: restamped_sel(1) simp: IsFailed_def)

lemma comp_order_settles: "wp (comp_order S) (\<lambda>_ t. \<exists>d. order_dto t = Some d \<and> settled d) (\<lambda>_. True) s"
  unfolding comp_order_def wp_bindc wp_ret by (rule fail_order_unless_settles)

subsection \<open>A call that stays open\<close>

text \<open>
  When the provider or the bank has not decided yet, nothing may be given up: no transaction
  cancelled, no order failed.  The compensations tell by the status of the transaction that the transaction
  service has answered its update with, so there is one exception: an update that is answered with another status than it was sent.
\<close>

fun contradicts :: "event \<Rightarrow> bool" where
  "contradicts (EvUpdate q (Inr t)) = (tx_Status t \<noteq> tx_Status q)"
| "contradicts _ = False"

definition contradicted :: "'w st \<Rightarrow> 'w st \<Rightarrow> bool" where
  "contradicted s t \<longleftrightarrow> (\<exists>es. trace t = trace s @ es \<and> (\<exists>e \<in> set (key es). contradicts e))"

lemma contradicted_upd [simp]:
  "contradicted s (t\<lparr>LogSaga := m\<rparr>) = contradicted s t" "contradicted (s\<lparr>world := w\<rparr>) t = contradicted s t"
  "contradicted s (t\<lparr>trans := x\<rparr>) = contradicted s t" "contradicted s (t\<lparr>order_dto := d\<rparr>) = contradicted s t"
  "contradicted (s\<lparr>trans := x\<rparr>) t = contradicted s t"
  by (simp_all add: contradicted_def)

lemma contradicted_left: "adds A n s t \<Longrightarrow> contradicted t u \<Longrightarrow> contradicted s u"
  by (force simp: contradicted_def adds_def)

lemma contradicted_right: "contradicted s t \<Longrightarrow> adds A n t u \<Longrightarrow> contradicted s u"
  by (force simp: contradicted_def adds_def)

fun gives_up :: "event \<Rightarrow> bool" where
  "gives_up (EvCancel _ _) = True"
| "gives_up (EvReplaceOrder _ d _) = IsFailed (oe_Status d)"
| "gives_up _ = False"

definition kept_open :: "'w st \<Rightarrow> bool" where
  "kept_open s \<longleftrightarrow> (\<exists>d. order_dto s = Some d \<and> IsVerifying (oe_Status d)) \<and>
     (\<forall>t. trans s = Some t \<longrightarrow> tx_Status t = TRANSACTION_STATUS_PENDING)"

text \<open>Nothing has been given up since \<open>s\<close>, but for the exception.\<close>

definition still :: "'w st \<Rightarrow> 'w st \<Rightarrow> bool" where
  "still s t \<longleftrightarrow> contradicted s t \<or> adds gives_up 0 s t"

lemma still_upd [simp]: "still s (t\<lparr>LogSaga := m\<rparr>) = still s t" "still (s\<lparr>world := w\<rparr>) t = still s t"
  by (simp_all add: still_def)

lemma still_left: "adds gives_up 0 s t \<Longrightarrow> still t u \<Longrightarrow> still s u"
  by (auto simp: still_def intro: contradicted_left adds_trans [where i = 0 and j = 0, simplified])

definition patient :: "('w st, goerror option) comp \<Rightarrow> bool" where
  "patient g \<longleftrightarrow> atmost (\<lambda>_. False) 0 g \<and> (\<forall>s. kept_open s \<longrightarrow>
     wp g (\<lambda>_ t. adds gives_up 0 s t \<and> kept_open t) (adds gives_up 0 s) s)"

lemma patient_unwind:
  assumes "\<And>g. g \<in> set gs \<Longrightarrow> patient g" and "kept_open s"
  shows "wp (unwind gs) (\<lambda>_ t. adds gives_up 0 s t \<and> kept_open t) (adds gives_up 0 s) s"
  using assms
proof (induction gs arbitrary: s)
  case Nil
  then show ?case by (simp add: wp_rules adds_refl)
next
  case (Cons g gs)
  have rest: "wp (unwind gs) (\<lambda>_ t. adds gives_up 0 s t \<and> kept_open t) (adds gives_up 0 s) t"
    if "adds gives_up 0 s t" "kept_open t" for t
    using Cons.prems(1) that
    by (intro wp_mono [OF Cons.IH]) (auto intro: adds_trans [where j = 0, simplified])
  have "patient g" using Cons.prems(1) by simp
  with Cons.prems(2) show ?case
    unfolding wp_unwind_Cons by (auto simp: patient_def intro: wp_mono rest)
qed

lemma verifying_not_failed: "IsVerifying st \<Longrightarrow> \<not> IsFailed st"
  by (auto simp: IsVerifying_def IsFailed_def)

lemma fail_order_unless_open:
  "kept_open s \<Longrightarrow> wp (fail_order_unless S k) (\<lambda>_. Q) E s = Q s"
  by (auto simp: fail_order_unless_def wp_rules kept_open_def)

lemma kept_open_appended [simp]: "kept_open (appended s w es) = kept_open s"
  by (simp add: kept_open_def)

lemma adds_reverse: "key es = [EvReverseWallet i x] \<Longrightarrow> adds gives_up 0 s (appended s w es)"
  by (erule adds_appended) simp

lemma adds_update: "key es = [EvUpdate t x] \<Longrightarrow> adds gives_up 0 s (appended s w es)"
  by (erule adds_appended) simp

lemma adds_verify:
  "key es = [EvReplaceOrder flt d' x] \<Longrightarrow> restamped st d d' \<Longrightarrow> \<not> IsFailed st \<Longrightarrow>
   adds gives_up 0 s (appended s w es)"
  by (erule adds_appended) (simp add: restamped_sel)

lemma patient_comps:
  "patient (comp_order S)" "patient (comp_voucher S b)" "patient (comp_init_payment S h k)" "patient (ret None)"
proof -
  show "patient (comp_order S)"
    unfolding patient_def by (intro conjI atmost_rules) (simp_all add: comp_order_def wp_bindc wp_ret fail_order_unless_open adds_refl)
  have "atmost (\<lambda>_. False) 0 (comp_voucher S b)" by (intro atmost_rules) simp
  moreover have "\<forall>s. kept_open s \<longrightarrow> wp (comp_voucher S b) (\<lambda>_ t. adds gives_up 0 s t \<and> kept_open t) (adds gives_up 0 s) s"
    unfolding comp_voucher_def servicePromotionCompensate_def wp_bindc wp_the_order
  proof (intro allI impI)
    fix s :: "'a st"
    assume s: "kept_open s"
    then obtain d where d: "order_dto s = Some d" by (auto simp: kept_open_def)
    have "wp (act (pr_ReverseWallet S i) (EvReverseWallet i)) (\<lambda>a. wp (whenc b (fail_order_unless S order_as_is))
        (\<lambda>_. wp (ret a) (\<lambda>_ t. adds gives_up 0 s t \<and> kept_open t) (adds gives_up 0 s)) (adds gives_up 0 s))
        (adds gives_up 0 s) s" for i
    proof (rule does_wp [where P = "\<lambda>r es. \<exists>x. es = [EvReverseWallet i x]"])
      show "does (act (pr_ReverseWallet S i) (EvReverseWallet i)) (\<lambda>r es. \<exists>x. es = [EvReverseWallet i x])"
        by (intro does_rules) simp
    qed (use s adds_reverse in \<open>auto simp: wp_whenc wp_ret fail_order_unless_open\<close>)
    with d show "case order_dto s of None \<Rightarrow> adds gives_up 0 s s
       | Some d \<Rightarrow> wp (act (pr_ReverseWallet S (oe_OrderID d)) (EvReverseWallet (oe_OrderID d)))
           (\<lambda>a. wp (whenc b (fail_order_unless S order_as_is))
              (\<lambda>aa. wp (ret a) (\<lambda>_ t. adds gives_up 0 s t \<and> kept_open t) (adds gives_up 0 s)) (adds gives_up 0 s))
           (adds gives_up 0 s) s" by simp
  qed
  ultimately show "patient (comp_voucher S b)" by (simp add: patient_def)
  show "patient (comp_init_payment S h k)"
    unfolding patient_def
    by (rule conjI, intro atmost_rules, simp)
      (auto simp: comp_init_payment_def wp_bindc wp_gets wp_ret fail_order_unless_open adds_refl
        kept_open_def split: option.split intro: adds_refl)
  show "patient (ret None)" by (simp add: patient_def wp_ret adds_refl atmost_ret)
qed

lemma serviceTransactionPending_echo:
  "does (serviceTransactionPending S dto) (\<lambda>r es. \<exists>x. es = [EvUpdate (dto\<lparr>tx_Status := TRANSACTION_STATUS_PENDING\<rparr>) x] \<and>
     (\<forall>t' err. r = Some (Some t', err) \<longrightarrow> x = Inr t'))"
  unfolding serviceTransactionPending_def Let_def
  by (rule does_act_range, rule does_sum) (auto intro!: does_rules does_bindc_quiet)

text \<open>From there on the transaction is pending, but for the exception, and the order is being verified.\<close>

lemma pending_trans_opens:
  "wp (pending_trans S b h) (\<lambda>_ t. adds gives_up 0 s t \<and> order_dto t = order_dto s \<and>
     (contradicted s t \<or> (\<forall>x. trans t = Some x \<longrightarrow> tx_Status x = TRANSACTION_STATUS_PENDING))) (adds gives_up 0 s) s"
proof -
  have assign: "wp (assign_trans (serviceTransactionPending S)) (\<lambda>_ t. adds gives_up 0 s t \<and> order_dto t = order_dto s \<and>
     (contradicted s t \<or> (\<forall>x. trans t = Some x \<longrightarrow> tx_Status x = TRANSACTION_STATUS_PENDING))) (adds gives_up 0 s) (s\<lparr>trans := y\<rparr>)" for y
  proof (cases y)
    case (Some q)
    show ?thesis
      unfolding assign_trans_def wp_bindc wp_the_trans Some
    proof (simp, rule does_wp [OF serviceTransactionPending_echo], goal_cases)
      case (1 r w es)
      then obtain x where x: "key es = [EvUpdate (q\<lparr>tx_Status := TRANSACTION_STATUS_PENDING\<rparr>) x]"
        "\<And>t' err. r = (Some t', err) \<Longrightarrow> x = Inr t'" by auto
      obtain p err where r: "r = (p, err)" by force
      have "contradicted s (appended s w es) \<or> (\<forall>t'. p = Some t' \<longrightarrow> tx_Status t' = TRANSACTION_STATUS_PENDING)"
      proof (cases p)
        case (Some t')
        then have "key es = [EvUpdate (q\<lparr>tx_Status := TRANSACTION_STATUS_PENDING\<rparr>) (Inr t')]" using x(1) x(2) [of t' err] by (simp only: r)
        then have "tx_Status t' \<noteq> TRANSACTION_STATUS_PENDING \<longrightarrow> (\<exists>e \<in> set (key es). contradicts e)" by (simp del: set_filter)
        then show ?thesis
          unfolding contradicted_def using Some by (intro disjCI exI [of _ es]) auto
      qed simp
      moreover have "adds gives_up 0 s (appended s w es)" by (rule adds_update [OF x(1)])
      ultimately show ?case
        by (auto simp: r wp_rules contradicted_def adds_def simp del: filter_filter)
    next
      case (2 w es)
      then show ?case by (auto simp: adds_def simp del: filter_filter)
    qed
  qed (simp add: assign_trans_def wp_bindc wp_the_trans adds_refl)
  then show ?thesis
    by (auto simp: pending_trans_def wp_rules adds_refl split: option.split)
qed

lemma verify_order_opens:
  "wp (verify_order_unless S) (\<lambda>_ t. adds gives_up 0 s t \<and> trans t = trans s \<and>
     (\<exists>d. order_dto t = Some d \<and> IsVerifying (oe_Status d))) (adds gives_up 0 s) s"
  unfolding verify_order_unless_def
  by (auto simp: wp_rules adds_refl IsVerifying_def IsFailed_def dest: restamped_sel(1) split: option.split
      intro!: wp_through_order [OF VerifyingOrder_does] elim!: adds_verify)

lemma comp_pending_opens:
  "wp (comp_pending S b h) (\<lambda>_ t. adds gives_up 0 s t \<and> (contradicted s t \<or> kept_open t)) (adds gives_up 0 s) s"
  unfolding comp_pending_def wp_bindc wp_ret
proof (rule wp_mono [OF pending_trans_opens], goal_cases)
  case (1 err t)
  show ?case
    by (rule wp_mono [OF verify_order_opens])
      (use 1 in \<open>auto simp: kept_open_def intro: adds_trans [where i = 0 and j = 0, simplified] contradicted_right\<close>)
qed

lemma comp_provider_opens:
  assumes "open_call s"
  shows "wp (comp_provider S open_call h h' k) (\<lambda>_ t. adds gives_up 0 s t \<and> (contradicted s t \<or> kept_open t)) (adds gives_up 0 s) s"
  using assms comp_pending_opens by (simp add: comp_provider_def wp_bindc wp_gets)

lemma unwind_opens:
  assumes "wp g (\<lambda>_ t. adds gives_up 0 s t \<and> (contradicted s t \<or> kept_open t)) (adds gives_up 0 s) s" and "\<And>g. g \<in> set gs \<Longrightarrow> patient g"
  shows "wp (unwind (g # gs)) (\<lambda>_. still s) (still s) s"
  unfolding wp_unwind_Cons
proof (rule wp_mono [OF assms(1)], goal_cases)
  case (1 err t)
  show ?case
  proof (cases "contradicted s t")
    case True
    have "atmost (\<lambda>_. False) 0 (unwind gs)" by (rule atmost_unwind) (use assms(2) in \<open>simp add: patient_def\<close>)
    then show ?thesis by (rule atmost_wp) (auto simp: still_def intro: contradicted_right [OF True])
  next
    case False
    with 1 show ?thesis
      by (intro wp_mono [OF patient_unwind [OF assms(2)]])
        (auto simp: still_def intro: adds_trans [where i = 0 and j = 0, simplified])
  qed
qed (simp add: still_def)

text \<open>A compensation that parks what the step left open.\<close>

definition parks :: "('w st \<Rightarrow> bool) \<Rightarrow> ('w st, goerror option) comp \<Rightarrow> bool" where
  "parks open_call g \<longleftrightarrow> (\<forall>s. open_call s \<longrightarrow>
     wp g (\<lambda>_ t. adds gives_up 0 s t \<and> (contradicted s t \<or> kept_open t)) (adds gives_up 0 s) s)"

lemma comp_provider_parks: "parks open_call (comp_provider S open_call h h' k)"
  by (simp add: parks_def comp_provider_opens)

text \<open>Answers of a provider.\<close>

fun provider_pending :: "event \<Rightarrow> bool" where
  "provider_pending (EvTopup _ (Inr p)) = (tur_Status p = TRANSACTION_STATUS_PENDING)"
| "provider_pending (EvBuyCard _ (Inr p)) = (bcr_Status p = TRANSACTION_STATUS_PENDING)"
| "provider_pending (EvPaidBill _ (Inr p)) = (pbr_Status p = TRANSACTION_STATUS_PENDING)"
| "provider_pending _ = False"

fun provider_accepted :: "event \<Rightarrow> bool" where
  "provider_accepted (EvTopup _ (Inr p)) = (tur_Status p \<noteq> TRANSACTION_STATUS_PENDING)"
| "provider_accepted (EvBuyCard _ (Inr p)) = (bcr_Status p \<noteq> TRANSACTION_STATUS_PENDING)"
| "provider_accepted (EvPaidBill _ (Inr p)) = (pbr_Status p \<noteq> TRANSACTION_STATUS_PENDING)"
| "provider_accepted _ = False"

lemma foreign_pending [simp]: "foreign provider_pending"
  by (auto simp: foreign_def elim: compensating.elims)

lemma atmost_processing [atmost_rules]: "atmost gives_up 0 (assign_order (ProcessingOrder S))"
  unfolding assign_order_def
  by (intro atmost_rules, rule atmost_does [OF ProcessingOrder_does])
    (auto simp: status_write_def IsFailed_def dest: restamped_sel(1))

lemma adds_None: "adds A 0 s t \<longleftrightarrow> (\<exists>es. trace t = trace s @ es \<and> filter A (key es) = [])"
  by (simp add: adds_def)

lemma wp_both: "wp m (\<lambda>_. Q) Q s \<longleftrightarrow> Q (snd (m s))"
  by (simp add: wp_def split: prod.split outcome.split)

text \<open>
  The saga of a wallet payment through a provider: steps that reserve, the call, steps that
  finish.  If the provider answers that it has not decided, nothing is given up.
\<close>

lemma orchestrate_stays_open:
  assumes fresh: "fresh_execution S s" and park: "parks open_call g"
    and pre: "\<And>n f g. (n, f, g) \<in> set pre \<Longrightarrow> atmost P 0 f \<and> atmost gives_up 0 f \<and> atmost P 0 g \<and> patient g"
    and post: "\<And>n f g. (n, f, g) \<in> set post \<Longrightarrow> atmost P 0 f \<and> atmost P 0 g"
    and P: "foreign P" and g: "atmost P 0 g"
    and f: "\<And>t. wp f (\<lambda>err u. adds P 0 t u \<or> (\<exists>e. err = Some e \<and> Pe e \<and> open_call u \<and> adds gives_up 0 t u)) (adds P 0 t) t"
  shows "wp (orchestrate S name (pre @ (n, f, g) # post))
     (\<lambda>(p, err) u. adds P 0 s u \<or> (\<exists>e. err = Some e \<and> Pe e \<and> still s u)) (\<lambda>u. adds P 0 s u \<or> still s u) s"
proof (rule orchestrate_wp [OF fresh])
  fix w
  let ?Good = "\<lambda>e' t u. Pe e' \<and> still t u"
  have unw: "wp (unwind (g # rev (map (snd \<circ> snd) pre) @ [])) (\<lambda>_. ?Good e t) (still t) u"
    if "Pe e" "open_call u" "adds gives_up 0 t u" for e t u
    unfolding append_Nil2
    by (rule wp_mono [OF unwind_opens [OF park [unfolded parks_def, rule_format, OF that(2)]]])
      (use pre that(1,3) in \<open>force intro: still_left\<close>)+
  have "wp (run_steps (pre @ (n, f, g) # post) []) (\<lambda>err u. adds P 0 (s\<lparr>world := w\<rparr>) u \<or> (\<exists>e'. err = Some e' \<and> ?Good e' (s\<lparr>world := w\<rparr>) u))
      (\<lambda>u. adds P 0 (s\<lparr>world := w\<rparr>) u \<or> still (s\<lparr>world := w\<rparr>) u) (s\<lparr>world := w\<rparr>)"
  proof (rule run_steps_branch [where C = gives_up])
    fix t
    show "wp f (\<lambda>err u. adds P 0 t u \<or> (\<exists>e'. err = Some e' \<and>
        wp (unwind (g # rev (map (snd \<circ> snd) pre) @ [])) (\<lambda>_. ?Good e' t) (still t) u)) (adds P 0 t) t"
      by (rule wp_mono [OF f]) (use unw in auto)
  qed (use pre post P g in \<open>auto intro: atmost_rules still_left adds_trans [where i = 0 and j = 0, simplified]\<close>)
  then show "wp (run_steps (pre @ (n, f, g) # post) []) (\<lambda>err u. \<forall>m. (case (order_dto u, err) of
      (p, err) \<Rightarrow> \<lambda>u. adds P 0 s u \<or> (\<exists>e. err = Some e \<and> Pe e \<and> still s u)) (u\<lparr>LogSaga := m\<rparr>))
      (\<lambda>u. \<forall>m. adds P 0 s (u\<lparr>LogSaga := m\<rparr>) \<or> still s (u\<lparr>LogSaga := m\<rparr>)) (s\<lparr>world := w\<rparr>)"
    by (rule wp_mono) auto
qed

subsection \<open>Where an orchestrator starts its saga\<close>

text \<open>
  The captured variables have their initial values, the order is the one built from the request
  (or nil), and nothing has been written yet.
\<close>

definition started :: "OrderEntity option \<Rightarrow> 'w st \<Rightarrow> 'w st \<Rightarrow> bool" where
  "started p s s' \<longleftrightarrow> (\<exists>w es. s' = appended (fresh_vars p s) w es \<and> key es = [])"

lemma started_refl: "started p s (fresh_vars p s)"
  unfolding started_def by (intro exI [of _ "world s"] exI [of _ "[]"]) (simp add: appended_def fresh_vars_def)

lemma started_appended: "started p s s' \<Longrightarrow> key es = [] \<Longrightarrow> started p s (appended s' w es)"
  unfolding started_def by (metis appended_appended append_Nil2 filter_append)

lemma started_world: "started p s s' \<Longrightarrow> started p s (s'\<lparr>world := w\<rparr>)"
proof -
  have eq: "s'\<lparr>world := w\<rparr> = appended s' w []" by (simp add: appended_def)
  show "started p s s' \<Longrightarrow> started p s (s'\<lparr>world := w\<rparr>)" unfolding eq by (simp add: started_appended)
qed

lemma started_order: "started p s s' \<Longrightarrow> started q s (s'\<lparr>order_dto := q\<rparr>)"
proof -
  have "(appended (fresh_vars p s) w es)\<lparr>order_dto := q\<rparr> = appended (fresh_vars q s) w es" for w es
    by (rule st.equality) (simp_all add: fresh_vars_def appended_def)
  then show "started p s s' \<Longrightarrow> started q s (s'\<lparr>order_dto := q\<rparr>)"
    unfolding started_def by metis
qed

lemma started_sel:
  assumes "started p s s'"
  shows "order_dto s' = p" "trans s' = None" "discount s' = 0" "voucherId s' = []" "failReason s' = []"
    "isPendingSrvCard s' = False" "isTimeOutBank s' = False" "isFailedOrder s' = False" "isByPassOtp s' = False"
    "bankTraceId s' = []" "subTransactionType s' = []" "key (trace s') = key (trace s)" "LogSaga s' = LogSaga s"
  using assms by (auto simp: started_def fresh_vars_def appended_def)

lemma started_adds: "started p s s' \<Longrightarrow> adds A n s s'"
  unfolding started_def adds_def by (auto simp: fresh_vars_def appended_def simp del: filter_filter)

lemma started_fresh: "fresh_saga S s \<Longrightarrow> started p s s' \<Longrightarrow> fresh_execution S s'"
  by (erule fresh_saga_execution) (simp add: started_sel)

lemma orchestrate_started_atmost:
  assumes "started p s s'" "fresh_execution S s'" "atmost A n (run_steps sts [])"
  shows "wp (orchestrate S name sts) (\<lambda>_. adds A n s) (adds A n s) s'"
  by (rule wp_mono [OF orchestrate_atmost [OF assms(2,3)]])
    (auto dest: adds_trans [where i = 0, simplified, OF started_adds [OF assms(1)]])

lemma orchestrate_started_ordered:
  assumes "started p s s'" "fresh_execution S s'" "sts = pre @ (n, f, g) # post"
    and "\<And>n f g. (n, f, g) \<in> set pre \<Longrightarrow> atmost A 0 f \<and> atmost A 0 g"
    and "guards A ok f" and "atmost A 0 g"
    and "\<And>n f g. (n, f, g) \<in> set post \<Longrightarrow> atmost (\<lambda>_. False) 0 f \<and> atmost (\<lambda>_. False) 0 g"
      "atmost (\<lambda>_. False) 0 g" "\<And>n f g. (n, f, g) \<in> set pre \<Longrightarrow> atmost (\<lambda>_. False) 0 g"
  shows "wp (orchestrate S name sts) (\<lambda>_. ordered A ok s) (ordered A ok s) s'"
  unfolding assms(3)
  by (rule wp_mono [OF orchestrate_ordered [OF assms(2,4-)]])
    (auto intro: ordered_after_free [OF started_adds [OF assms(1)]])

lemma orchestrate_started_open:
  assumes "started p s s'" "fresh_execution S s'" "sts = pre @ (n, f, g) # post" "parks open_call g"
    and "\<And>n f g. (n, f, g) \<in> set pre \<Longrightarrow> atmost P 0 f \<and> atmost gives_up 0 f \<and> atmost P 0 g \<and> patient g"
    and "\<And>n f g. (n, f, g) \<in> set post \<Longrightarrow> atmost P 0 f \<and> atmost P 0 g"
    and "foreign P" "atmost P 0 g"
    and "\<And>t. wp f (\<lambda>err u. adds P 0 t u \<or> (\<exists>e. err = Some e \<and> Pe e \<and> open_call u \<and> adds gives_up 0 t u)) (adds P 0 t) t"
  shows "wp (orchestrate S name sts)
     (\<lambda>(p, err) u. adds P 0 s u \<or> (\<exists>e. err = Some e \<and> Pe e \<and> still s u)) (\<lambda>u. adds P 0 s u \<or> still s u) s'"
  unfolding assms(3)
  by (rule wp_mono [OF orchestrate_stays_open [where open_call = open_call and Pe = Pe, OF assms(2,4-)]])
    (auto dest: adds_trans [where i = 0 and j = 0, simplified, OF started_adds [OF assms(1)]] still_left [OF started_adds [OF assms(1)]])

lemma orchestrate_settles:
  assumes "fresh_execution S s" "sts = (n, f, g) # sts'"
    and "\<And>s. wp g (\<lambda>_ t. \<exists>d. order_dto t = Some d \<and> settled d) (\<lambda>_. True) s"
  shows "wp (orchestrate S name sts) (\<lambda>(p, err) _. err \<noteq> None \<longrightarrow> (\<exists>d. p = Some d \<and> settled d)) (\<lambda>_. True) s"
  unfolding assms(2)
  by (rule orchestrate_wp [OF assms(1)]) (use run_steps_first_compensation [OF assms(3), of n f sts'] in simp)

lemma orchestrate_started_succeeds:
  assumes "started p s s'" "fresh_execution S s'"
    and "\<And>u. started p s u \<Longrightarrow> succeeds (run_steps sts []) (\<lambda>t. \<forall>m. R (order_dto t) (t\<lparr>LogSaga := m\<rparr>)) u"
  shows "wp (orchestrate S name sts) (\<lambda>(d, err) t. err = None \<longrightarrow> R d t) (\<lambda>_. True) s'"
  by (rule orchestrate_wp [OF assms(2)], rule wp_mono, rule assms(3)) (auto intro: started_world assms(1))

text \<open>With a lookup in front.\<close>

lemma with_order_started:
  assumes "fresh_saga S s" "does m (\<lambda>a es. es = [] \<and> (\<forall>p. a = Some (Inr p) \<longrightarrow> K p))"
    and "\<And>p s'. K p \<Longrightarrow> started (Some (order_of p)) s s' \<Longrightarrow> fresh_execution S s' \<Longrightarrow> wp (body p) Q E s'"
    and "\<And>e s'. started None s s' \<Longrightarrow> Q (None, Some e) s'"
    and "\<And>s'. started None s s' \<Longrightarrow> E s'"
  shows "wp (thenc (modify (fresh_vars None)) (with_order m (\<lambda>p. thenc (set_order (Some (order_of p))) (body p)))) Q E s"
  unfolding wp_bindc wp_modify
  by (rule with_order_wp [OF assms(2)])
    (auto simp: wp_bindc wp_sets intro!: assms(3-) started_appended started_refl started_fresh [OF assms(1)]
      started_order [where p = None])

lemma wp_result: "wp m (\<lambda>_. Q) Q s \<Longrightarrow> m s = (r, t) \<Longrightarrow> Q t"
  by (simp add: wp_both)

subsection \<open>Bank steps\<close>

lemma guards_order: "(\<And>d. guards A ok (f d)) \<Longrightarrow> guards A ok (bindc the_order f)"
  by (auto simp: guards_def wp_bindc wp_the_order adds_refl split: option.split)

lemma guards_gets: "(\<And>x. guards A ok (f x)) \<Longrightarrow> guards A ok (bindc (gets g) f)"
  by (auto simp: guards_def wp_bindc wp_gets)

fun bank_accepted :: "event \<Rightarrow> bool" where
  "bank_accepted (EvBank _ res None) = BankGwStatus_IsSuccess (br_ErrorCode res)"
| "bank_accepted _ = False"

fun bank_open :: "event \<Rightarrow> bool" where
  "bank_open (EvBank _ res None) = BankGwStatus_IsVerifying (br_ErrorCode res)"
| "bank_open _ = False"

lemma foreign_bank_open [simp]: "foreign bank_open"
  by (auto simp: foreign_def elim: compensating.elims)

lemma bank_call_cases:
  assumes "bank_call q a b ok (Some r) (key es)"
  obtains now res err where "key es = [EvBank (q now) res err]" "r = checked a b ok (res, err)"
  using assms by (auto simp: bank_call_def)

lemma atmost_bank_step:
  assumes "does call (bank_call q a b ok)" "\<And>r. atmost A 0 (pending r)" "\<And>r. atmost A 0 (onOk r)"
    and "\<And>r x e. A (EvBank r x e) \<Longrightarrow> 0 < n"
  shows "atmost A n (bank_step call pending onOk)"
  unfolding bank_step_def
proof (rule atmost_bindc_left)
  show "atmost A n call" using assms(1) by (rule atmost_does) (use assms(4) in \<open>auto simp: bank_call_def Suc_le_eq\<close>)
qed (auto intro!: atmost_rules assms(2,3))

lemma bank_step_guards:
  fixes call :: "('w st, BankRes \<times> goerror option) comp"
  assumes "does call (bank_call q a b ok)" "\<And>st. ok st \<Longrightarrow> answers st"
    and "\<And>r. atmost is_confirm 0 (pending r)" "\<And>r. atmost is_confirm 0 (onOk r)"
  shows "guards is_confirm bank_accepted (bank_step call pending onOk)"
  unfolding guards_def
proof
  fix s :: "'w st"
  let ?Q = "\<lambda>err t. \<exists>es. trace t = trace s @ es \<and> filter is_confirm (key es) = [] \<and> (err = None \<longrightarrow> (\<exists>e \<in> set (key es). bank_accepted e))"
  have tail: "\<exists>es'. trace t = trace s @ es' \<and> filter is_confirm (key es') = [] \<and> (x \<longrightarrow> (\<exists>e \<in> set (key es'). bank_accepted e))"
    if "adds is_confirm 0 u t" "trace u = trace s @ es" "key es = [EvBank q' res err']"
      "x \<longrightarrow> bank_accepted (EvBank q' res err')" for es t u x q' res err'
  proof -
    from that(1) obtain es' where "trace t = trace u @ es'" "filter is_confirm (key es') = []" by (auto simp: adds_def)
    with that show ?thesis by (intro exI [of _ "es @ es'"]) (simp del: filter_filter)
  qed
  show "wp (bank_step call pending onOk) ?Q (adds is_confirm 0 s) s"
    unfolding bank_step_def wp_bindc
  proof (rule does_wp [OF assms(1)], goal_cases)
    case (1 r w es)
    then obtain now res err where es: "key es = [EvBank (q now) res err]" "r = checked a b ok (res, err)"
      by (rule bank_call_cases)
    obtain r1 r2 where r: "r = (r1, r2)" by force
    have free: "adds is_confirm 0 s t" if "adds is_confirm 0 u t" "trace u = trace s @ es" for t u
      using tail [OF that es(1), of False] by (auto simp: adds_def)
    show ?case
    proof (cases r2)
      case (Some e)
      have "?Q (Some e) ((appended s w es)\<lparr>bankTraceId := x, failReason := y\<rparr>)" for x y
        using es(1) by (intro exI [of _ es]) (simp del: filter_filter)
      with Some show ?thesis by (simp add: r wp_rules)
    next
      case None
      then have ok: "err = None" "r1 = res" "ok (br_ErrorCode res)" using es(2) r checked_ok [of a b ok res err r1] by auto
      have acc: "\<not> BankGwStatus_IsVerifying (br_ErrorCode res) \<Longrightarrow> bank_accepted (EvBank (q now) res err)"
        using ok assms(2) [OF ok(3)] by auto
      have p: "wp (pending res) (\<lambda>e. ?Q (Some e)) (adds is_confirm 0 s) u" if "trace u = trace s @ es" for u
        by (rule wp_mono [OF assms(3) [unfolded atmost_def, rule_format]], erule tail [OF _ that es(1)], simp, erule free [OF _ that])
      have o: "wp (onOk res) (\<lambda>_. ?Q None) (adds is_confirm 0 s) u"
        if "trace u = trace s @ es" "\<not> BankGwStatus_IsVerifying (br_ErrorCode res)" for u
        by (rule wp_mono [OF assms(4) [unfolded atmost_def, rule_format]], erule tail [OF _ that(1) es(1)],
            simp add: acc that(2), erule free [OF _ that(1)])
      show ?thesis
        unfolding r None ok(2) wp_bindc wp_case_prod wp_modify wp_ret wp_if option.case prod.case
        using p o by simp
    qed
  qed (use assms(1) in \<open>auto simp: bank_call_def\<close>)
qed

lemma bank_step_opens:
  fixes call :: "('w st, BankRes \<times> goerror option) comp"
  assumes "does call (bank_call q a b ok)" "\<And>st. BankGwStatus_IsVerifying st \<Longrightarrow> ok st"
    and "\<And>u r. isTimeOutBank u \<Longrightarrow> order_dto u = order_dto t \<Longrightarrow>
      wp (pending r) (\<lambda>e u'. Pe e \<and> adds gives_up 0 u u' \<and> isTimeOutBank u') (\<lambda>_. False) u"
    and "\<And>r. atmost bank_open 0 (onOk r)"
  shows "wp (bank_step call pending onOk) (\<lambda>err u. adds bank_open 0 t u \<or>
     (\<exists>e. err = Some e \<and> Pe e \<and> isTimeOutBank u \<and> adds gives_up 0 t u)) (adds bank_open 0 t) t"
  unfolding bank_step_def wp_bindc
proof (rule does_wp [OF assms(1)], goal_cases)
  case (1 r w es)
  then obtain now res err where es: "key es = [EvBank (q now) res err]" "r = checked a b ok (res, err)"
    by (rule bank_call_cases)
  obtain r1 r2 where r: "r = (r1, r2)" by force
  show ?case
  proof (cases r2)
    case (Some e)
    then have "\<not> bank_open (EvBank (q now) res err)"
      using es(2) assms(2) [of "br_ErrorCode res"] by (cases err) (auto simp: r checked_def split: if_splits)
    then have "adds bank_open 0 t (appended t w es)" by (intro adds_appended [OF es(1)]) simp
    with Some show ?thesis by (simp add: r wp_rules)
  next
    case None
    then have ok: "err = None" "r1 = res" "ok (br_ErrorCode res)" using es(2) r checked_ok [of a b ok res err r1] by auto
    have p: "wp (pending res) (\<lambda>e u'. Pe e \<and> isTimeOutBank u' \<and> adds gives_up 0 t u') (adds bank_open 0 t)
        ((appended t w es)\<lparr>bankTraceId := x, isTimeOutBank := True\<rparr>)" for x
    proof -
      have "adds gives_up 0 t ((appended t w es)\<lparr>bankTraceId := x, isTimeOutBank := True\<rparr>)"
        using adds_appended [OF es(1), of gives_up 0 t w] by simp
      from adds_trans [where i = 0 and j = 0, simplified, OF this] show ?thesis
        by (intro wp_mono [OF assms(3)]) simp_all
    qed
    have o: "wp (onOk res) (\<lambda>_. adds bank_open 0 t) (adds bank_open 0 t) ((appended t w es)\<lparr>bankTraceId := x\<rparr>)"
      if "\<not> BankGwStatus_IsVerifying (br_ErrorCode res)" for x
    proof -
      have "adds bank_open 0 t ((appended t w es)\<lparr>bankTraceId := x\<rparr>)"
        using adds_appended [OF es(1), of bank_open 0 t w] that ok(1) by simp
      then show ?thesis
        by (intro atmost_wp [OF assms(4)]) (blast intro: adds_trans [where i = 0 and j = 0, simplified])
    qed
    have p': "wp (pending res) (\<lambda>e u. adds bank_open 0 t u \<or> (\<exists>e'. Some e = Some e' \<and> Pe e' \<and> isTimeOutBank u \<and> adds gives_up 0 t u))
       (adds bank_open 0 t) ((appended t w es)\<lparr>bankTraceId := x, isTimeOutBank := True\<rparr>)" for x
      by (rule wp_mono [OF p]) auto
    have o': "wp (onOk res) (\<lambda>_ u. adds bank_open 0 t u \<or> (\<exists>e. None = Some e \<and> Pe e \<and> isTimeOutBank u \<and> adds gives_up 0 t u))
       (adds bank_open 0 t) ((appended t w es)\<lparr>bankTraceId := x\<rparr>)"
      if "\<not> BankGwStatus_IsVerifying (br_ErrorCode res)" for x
      by (rule wp_mono [OF o [OF that]]) auto
    show ?thesis
      unfolding r None ok(2) wp_bindc wp_case_prod wp_modify wp_ret wp_if option.case prod.case
      using p' o' by simp
  qed
qed (use assms(1) in \<open>auto simp: bank_call_def\<close>)

text \<open>
  \<open>opens P open_call f\<close>: if the step meets an answer of the class \<open>P\<close>, it fails with \<open>open_call\<close> set and
  has given nothing up.
\<close>

definition opens :: "(event \<Rightarrow> bool) \<Rightarrow> ('w st \<Rightarrow> bool) \<Rightarrow> ('w st, goerror option) comp \<Rightarrow> bool" where
  "opens P open_call f \<longleftrightarrow> (\<forall>t. wp f (\<lambda>err u. adds P 0 t u \<or> (err \<noteq> None \<and> open_call u \<and> adds gives_up 0 t u)) (adds P 0 t) t)"

lemma opens_order: "(\<And>d. opens P c (f d)) \<Longrightarrow> opens P c (bindc the_order f)"
  by (auto simp: opens_def wp_bindc wp_the_order adds_refl split: option.split)

lemma opens_gets: "(\<And>x. opens P c (f x)) \<Longrightarrow> opens P c (bindc (gets g) f)"
  by (auto simp: opens_def wp_bindc wp_gets)

lemma bank_step_opens_call:
  assumes "does call (bank_call q a b ok)" "\<And>st. BankGwStatus_IsVerifying st \<Longrightarrow> ok st"
    and "\<And>r. \<exists>e. pending r = ret e" and "\<And>r. atmost bank_open 0 (onOk r)"
  shows "opens bank_open isTimeOutBank (bank_step call pending onOk)"
  unfolding opens_def
proof
  fix t
  have p: "wp (pending r) (\<lambda>e u'. True \<and> adds gives_up 0 u u' \<and> isTimeOutBank u') (\<lambda>_. False) u" if "isTimeOutBank u" for u r
    using assms(3) [of r] that by (auto simp: wp_ret adds_refl)
  show "wp (bank_step call pending onOk) (\<lambda>err u. adds bank_open 0 t u \<or> (err \<noteq> None \<and> isTimeOutBank u \<and> adds gives_up 0 t u))
     (adds bank_open 0 t) t"
    by (rule wp_mono [OF bank_step_opens [where Pe = "\<lambda>_. True", OF assms(1,2) p assms(4)]]) auto
qed

lemma orchestrate_opens:
  assumes "started p s s'" "fresh_execution S s'" "sts = pre @ (n, f, g) # post" "parks open_call g"
    and "\<And>n f g. (n, f, g) \<in> set pre \<Longrightarrow> atmost P 0 f \<and> atmost gives_up 0 f \<and> atmost P 0 g \<and> patient g"
    and "\<And>n f g. (n, f, g) \<in> set post \<Longrightarrow> atmost P 0 f \<and> atmost P 0 g"
    and "foreign P" "atmost P 0 g" and "opens P open_call f"
  shows "wp (orchestrate S name sts)
     (\<lambda>(p, err) u. adds P 0 s u \<or> (err \<noteq> None \<and> still s u)) (\<lambda>u. adds P 0 s u \<or> still s u) s'"
proof -
  have f: "wp f (\<lambda>err u. adds P 0 t u \<or> (\<exists>e. err = Some e \<and> True \<and> open_call u \<and> adds gives_up 0 t u)) (adds P 0 t) t" for t
    using assms(9) by (auto simp: opens_def)
  show ?thesis
    by (rule wp_mono [OF orchestrate_started_open [where Pe = "\<lambda>_. True" and open_call = open_call, OF assms(1-8) f]]) auto
qed

end
