(* ===== verification/Cooperation.thy ===== *)
theory Cooperation
  imports Step_Effects
begin

text \<open>
  Progress.  \<open>obliging S\<close> collects what the other services do on a good day: the database
  stores, the transaction, promotion and fee services accept, users are verified, the bank can be
  asked; \<open>cooperative S\<close> says besides that the card service and the bank accept what they are asked
  to do.  Under these the service functions return without an error and
  without a panic (\<open>fine\<close>), and so do the steps built on them (\<open>goes\<close>).
\<close>

definition cooperative_user :: "User \<Rightarrow> bool" where
  "cooperative_user u \<longleftrightarrow> us_KYC u = ''ACTIVE'' \<and> us_HasEverLinkedBank u \<and> us_Balances u \<noteq> []"

definition obliging :: "'w services \<Rightarrow> bool" where
  "obliging S \<longleftrightarrow> (\<forall>w.
     (\<forall>d. fst (mg_InsertOrder S d w) = None) \<and>
     (\<forall>f d. \<exists>n. fst (mg_ReplaceOrder S f d w) = Inr (Suc n)) \<and>
     (\<forall>date. \<exists>c n. fst (mg_IncCounter S date w) = Inr (c, n)) \<and>
     (\<forall>t. \<exists>t'. fst (ts_Init S t w) = Inr t') \<and>
     (\<forall>t. \<exists>t'. fst (ts_Confirm S t w) = Inr t') \<and>
     (\<forall>q. \<exists>r. fst (ts_QuotaFee S q w) = Inr r) \<and>
     (\<forall>q. \<exists>r. fst (mf_QuotaFee S q w) = Inr r) \<and>
     (\<forall>i. \<exists>u. fst (ur_Detail S i w) = Inr (Some u) \<and> cooperative_user u) \<and>
     (\<forall>i. \<exists>c. fst (ur_MerchantCode S i w) = Inr (Some c)) \<and>
     (\<forall>q. \<exists>r v. fst (pr_UseVoucher S q w) = Inr r \<and> uvr_VoucherId r = Some v) \<and>
     (\<forall>c. \<exists>v. fst (cs_FindVendor S c w) = Inr (Some v)) \<and>
     (\<forall>q. \<exists>r. fst (mf_VendorDiscount S q w) = Inr r) \<and>
     (\<forall>q. \<exists>r. http_result S (fst (bk_Do S q w)) = (r, None) \<and> \<not> BankGwStatus_IsFail (br_ErrorCode r)))"

definition cooperative :: "'w services \<Rightarrow> bool" where
  "cooperative S \<longleftrightarrow> obliging S \<and> (\<forall>w.
     (\<forall>q. \<exists>r. fst (cs_Topup S q w) = Inr r \<and> tur_Status r \<noteq> TRANSACTION_STATUS_PENDING) \<and>
     (\<forall>q. \<exists>r. fst (cs_BuyCard S q w) = Inr r \<and> bcr_Status r \<noteq> TRANSACTION_STATUS_PENDING) \<and>
     (\<forall>q. \<exists>r. fst (cs_PaidBill S q w) = Inr r \<and> pbr_Status r \<noteq> TRANSACTION_STATUS_PENDING) \<and>
     (\<forall>q. \<exists>r. http_result S (fst (bk_Do S q w)) = (r, None) \<and> BankGwStatus_IsSuccess (br_ErrorCode r)))"

lemma obligingD:
  assumes "obliging S"
  shows "fst (mg_InsertOrder S d w) = None"
    and "\<exists>n. fst (mg_ReplaceOrder S f d w) = Inr (Suc n)"
    and "\<exists>c n. fst (mg_IncCounter S date w) = Inr (c, n)"
    and "\<exists>t'. fst (ts_Init S t w) = Inr t'"
    and "\<exists>t'. fst (ts_Confirm S t w) = Inr t'"
    and "\<exists>r. fst (ts_QuotaFee S q w) = Inr r"
    and "\<exists>r. fst (mf_QuotaFee S m w) = Inr r"
    and "\<exists>u. fst (ur_Detail S i w) = Inr (Some u) \<and> cooperative_user u"
    and "\<exists>c. fst (ur_MerchantCode S i w) = Inr (Some c)"
    and "\<exists>r v. fst (pr_UseVoucher S u w) = Inr r \<and> uvr_VoucherId r = Some v"
    and "\<exists>v. fst (cs_FindVendor S c w) = Inr (Some v)"
    and "\<exists>r. fst (mf_VendorDiscount S vd w) = Inr r"
    and "\<exists>r. http_result S (fst (bk_Do S b w)) = (r, None) \<and> \<not> BankGwStatus_IsFail (br_ErrorCode r)"
  using assms unfolding obliging_def by blast+

lemma cooperativeD:
  assumes "cooperative S"
  shows "obliging S"
    and "\<exists>r. fst (cs_Topup S tu w) = Inr r \<and> tur_Status r \<noteq> TRANSACTION_STATUS_PENDING"
    and "\<exists>r. fst (cs_BuyCard S bc w) = Inr r \<and> bcr_Status r \<noteq> TRANSACTION_STATUS_PENDING"
    and "\<exists>r. fst (cs_PaidBill S pb w) = Inr r \<and> pbr_Status r \<noteq> TRANSACTION_STATUS_PENDING"
    and "\<exists>r. http_result S (fst (bk_Do S b w)) = (r, None) \<and> BankGwStatus_IsSuccess (br_ErrorCode r)"
  using assms unfolding cooperative_def by blast+

subsection \<open>Service functions\<close>

named_theorems fine_rules \<open>rules for computations that end well\<close>

definition fine :: "('w st, 'a) comp \<Rightarrow> ('a \<Rightarrow> bool) \<Rightarrow> bool" where
  "fine m P \<longleftrightarrow> (\<forall>s. wp m (\<lambda>a t. (\<exists>w es. t = appended s w es) \<and> P a) (\<lambda>_. False) s)"

lemma fine_wp: "fine m P \<Longrightarrow> (\<And>a w es. P a \<Longrightarrow> Q a (appended s w es)) \<Longrightarrow> wp m Q E s"
  unfolding fine_def by (blast intro: wp_mono)

lemma fine_mono: "fine m P \<Longrightarrow> (\<And>a. P a \<Longrightarrow> Q a) \<Longrightarrow> fine m Q"
  unfolding fine_def by (blast intro: wp_mono)

lemma appended_same: "\<exists>w es. s = appended s w es"
  by (rule exI [of _ "world s"], rule exI [of _ "[]"]) (simp add: appended_def)

lemma fine_ret [fine_rules]: "P a \<Longrightarrow> fine (ret a) P"
  by (simp add: fine_def wp_ret appended_same)

lemma fine_gets: "fine (gets f) (\<lambda>_. True)"
  by (simp add: fine_def wp_gets appended_same)

lemma asked: "\<exists>w' es. s\<lparr>world := w\<rparr> = appended s w' es"
  by (rule exI [of _ w], rule exI [of _ "[]"]) (simp add: appended_def)

lemma acted: "\<exists>w' es. s\<lparr>world := w, trace := trace s @ [e]\<rparr> = appended s w' es"
  by (rule exI [of _ w], rule exI [of _ "[e]"]) (simp add: appended_def)

lemma fine_ask: "(\<And>w. P (fst (f w))) \<Longrightarrow> fine (ask f) P"
  unfolding fine_def wp_ask using asked by (metis fst_conv)

lemma fine_act: "(\<And>w. P (fst (f w))) \<Longrightarrow> fine (act f ev) P"
  unfolding fine_def wp_act using acted by (metis fst_conv)

lemma emitted: "\<exists>w es. s\<lparr>trace := trace s @ [e]\<rparr> = appended s w es"
  by (rule exI [of _ "world s"], rule exI [of _ "[e]"]) (simp add: appended_def)

lemma fine_emit [fine_rules]: "P () \<Longrightarrow> fine (emit e) P"
  by (simp add: fine_def wp_emit emitted)

lemma fine_bindc: "fine m P \<Longrightarrow> (\<And>a. P a \<Longrightarrow> fine (f a) Q) \<Longrightarrow> fine (bindc m f) Q"
proof -
  assume m: "fine m P" and f: "\<And>a. P a \<Longrightarrow> fine (f a) Q"
  have "wp (f a) (\<lambda>a t. (\<exists>w es. t = appended s w es) \<and> Q a) (\<lambda>_. False) (appended s w es)"
    if "P a" for a s w es
    by (rule fine_wp [OF f [OF that]]) auto
  then show ?thesis
    unfolding fine_def [of "bindc m f"] wp_bindc by (blast intro: fine_wp [OF m])
qed

lemma fine_thenc [fine_rules]: "fine m (\<lambda>_. True) \<Longrightarrow> fine n P \<Longrightarrow> fine (thenc m n) P"
  by (rule fine_bindc)

lemma fine_ask_any [fine_rules]: "(\<And>a. fine (f a) Q) \<Longrightarrow> fine (bindc (ask g) f) Q"
  by (rule fine_bindc [OF fine_ask [of "\<lambda>_. True"]]) auto

lemma fine_gets_any [fine_rules]: "(\<And>a. fine (f a) Q) \<Longrightarrow> fine (bindc (gets g) f) Q"
  by (rule fine_bindc [OF fine_gets]) auto

lemma fine_if [fine_rules]: "(b \<Longrightarrow> fine m P) \<Longrightarrow> (\<not> b \<Longrightarrow> fine n P) \<Longrightarrow> fine (if b then m else n) P"
  by simp

lemma fine_whenc [fine_rules]: "(b \<Longrightarrow> fine m P) \<Longrightarrow> (\<not> b \<Longrightarrow> P ()) \<Longrightarrow> fine (whenc b m) P"
  by (auto simp: whenc_def intro: fine_rules)

lemma fine_prod [fine_rules]: "(\<And>a b. p = (a, b) \<Longrightarrow> fine (f a b) P) \<Longrightarrow> fine (case p of (a, b) \<Rightarrow> f a b) P"
  by (cases p) auto

lemma fine_Mqtt [fine_rules]: "fine (CreateMessageMqtt S t e k d b) (\<lambda>_. True)"
  unfolding CreateMessageMqtt_def by (rule fine_act) simp

lemma GetProfile_fine: "obliging S \<Longrightarrow> fine (GetProfile S i) (\<lambda>r. \<exists>u. r = Inr u \<and> cooperative_user u)"
  unfolding GetProfile_def
  by (rule fine_bindc [OF fine_ask [of "\<lambda>r. \<exists>u. r = Inr (Some u) \<and> cooperative_user u"]])
    (auto simp: obligingD intro!: fine_rules)

lemma MqttUpdateProfile_fine: "obliging S \<Longrightarrow> fine (MqttUpdateProfile S e a b) (\<lambda>_. True)"
  unfolding MqttUpdateProfile_def
  by (intro fine_thenc fine_whenc fine_bindc [OF GetProfile_fine]) (auto intro!: fine_rules)

lemma ConvertETransToDetail_fine: "obliging S \<Longrightarrow> fine (ConvertETransToDetail S t) (\<lambda>_. True)"
proof -
  assume S: "obliging S"
  have m: "fine (if tx_MerchantID t \<noteq> []
      then bindc (ask (ur_MerchantCode S (tx_MerchantID t))) (\<lambda>g. case g of Inl _ \<Rightarrow> ret [] | Inr p \<Rightarrow> deref p)
      else ret []) (\<lambda>_. True)"
    by (intro fine_rules fine_bindc [OF fine_ask [of "\<lambda>r. \<exists>c. r = Inr (Some c)"]])
      (use S in \<open>auto simp: obligingD intro!: fine_rules\<close>)
  have u: "fine (if b then bindc (ask f) (\<lambda>r. case r of Inl e \<Rightarrow> ret ([], Some e) | Inr url \<Rightarrow> ret (url, None))
      else ret ([], None)) (\<lambda>_. True)" for b and f :: "'a \<Rightarrow> (goerror + string) \<times> 'a"
    by (intro fine_rules) (auto split: sum.split intro: fine_rules)
  show ?thesis
    unfolding ConvertETransToDetail_def
    by (rule fine_bindc [OF GetProfile_fine [OF S]], rule fine_bindc [OF GetProfile_fine [OF S]],
        rule fine_bindc [OF m], rule fine_bindc [OF u])
      (auto split: prod.split intro!: fine_rules fine_bindc [of _ "\<lambda>_. True"])
qed

lemma SendMqttTransactionByObject_fine: "obliging S \<Longrightarrow> fine (SendMqttTransactionByObject S e t) (\<lambda>_. True)"
  unfolding SendMqttTransactionByObject_def Let_def
  by (rule fine_bindc [OF ConvertETransToDetail_fine], assumption)
    (intro fine_rules TrueI)

lemma notificationTransaction_fine: "obliging S \<Longrightarrow> fine (notificationTransaction S t) (\<lambda>_. True)"
  unfolding notificationTransaction_def
  by (rule fine_bindc [OF ConvertETransToDetail_fine], assumption) (auto split: prod.split intro!: fine_rules)

lemma published_fine:
  assumes "obliging S" and "P a"
  shows "fine (thenc (MqttUpdateProfile S e x y) (thenc (SendMqttTransactionByObject S e' t) (ret a))) P"
  by (rule fine_bindc [OF MqttUpdateProfile_fine [OF assms(1)]],
      rule fine_bindc [OF SendMqttTransactionByObject_fine [OF assms(1)]]) (use assms in \<open>auto intro: fine_rules\<close>)

lemma checked_fine:
  assumes "cooperative S" and "\<And>st. BankGwStatus_IsSuccess st \<Longrightarrow> ok st"
  shows "fine (bindc (httpRequest S q) (\<lambda>r. ret (checked a b ok r))) (\<lambda>(r, err). err = None \<and> BankGwStatus_IsSuccess (br_ErrorCode r))"
  unfolding httpRequest_def
  by (rule fine_bindc [OF fine_act [of "\<lambda>p. \<exists>r. p = (r, None) \<and> BankGwStatus_IsSuccess (br_ErrorCode r)"]])
    (auto simp: checked_def cooperativeD(5) [OF assms(1)] assms(2) intro!: fine_rules)

lemma queried_fine:
  assumes "obliging S" and "\<And>st. \<not> BankGwStatus_IsFail st \<Longrightarrow> ok st"
  shows "fine (bindc (httpQuery S q) (\<lambda>r. ret (checked a b ok r))) (\<lambda>(r, err). err = None)"
  unfolding httpQuery_def
  by (rule fine_bindc [OF fine_ask [of "\<lambda>p. \<exists>r. p = (r, None) \<and> \<not> BankGwStatus_IsFail (br_ErrorCode r)"]])
    (auto simp: checked_def obligingD(13) [OF assms(1)] assms(2) intro!: fine_rules)

lemma LinkList_fine: "obliging S \<Longrightarrow> fine (LinkList S u) (\<lambda>(r, err). err = None)"
  unfolding LinkList_def by (rule fine_ask_any, rule queried_fine)

lemma init_parties_fine:
  assumes "obliging S"
  shows "fine (init_payer S q) (\<lambda>r. \<exists>q'. r = Inr q')" "fine (init_payee S q) (\<lambda>r. \<exists>q'. r = Inr q')"
proof -
  have "fine (bindc (LinkList S i) (\<lambda>(links, _). if us_KYC u \<noteq> ''ACTIVE'' then ret (Inl e1)
      else if \<not> tx_Napas q \<and> \<not> us_HasEverLinkedBank u then ret (Inl e2)
      else ret (Inr (f links)))) (\<lambda>r. \<exists>q'. r = Inr q')"
    if "cooperative_user u" for u i e1 e2 and f :: "BankRes \<Rightarrow> ETransactionDTO"
    by (rule fine_bindc [OF LinkList_fine [OF assms]])
      (use that in \<open>auto simp: cooperative_user_def split: prod.split intro!: fine_rules\<close>)
  note * = this
  show "fine (init_payer S q) (\<lambda>r. \<exists>q'. r = Inr q')"
    unfolding init_payer_def
    by (intro fine_rules fine_bindc [OF GetProfile_fine [OF assms]]) (auto intro: * )
  show "fine (init_payee S q) (\<lambda>r. \<exists>q'. r = Inr q')"
    unfolding init_payee_def
    by (intro fine_rules fine_bindc [OF GetProfile_fine [OF assms]]) (auto intro: * )
qed

lemma init_merchant_fee_fine: "obliging S \<Longrightarrow> fine (init_merchant_fee S q) (\<lambda>r. \<exists>q'. r = Inr q')"
  unfolding init_merchant_fee_def Let_def
  by (intro fine_rules fine_bindc [OF fine_ask [of "\<lambda>r. \<exists>a. r = Inr a"]])
    (auto simp: obligingD intro!: fine_rules)

lemma serviceTransactionInit_fine:
  assumes S: "obliging S"
  shows "fine (serviceTransactionInit S q) (\<lambda>(t, err). err = None \<and> t \<noteq> None)"
proof -
  have bind: "fine m (\<lambda>r. \<exists>q'. r = Inr q') \<Longrightarrow> (\<And>q'. fine (f q') P) \<Longrightarrow>
      fine (bindc m (\<lambda>r. case r of Inl e \<Rightarrow> g e | Inr q' \<Rightarrow> f q')) P"
    for m :: "('b st, 'c + 'd) comp" and f :: "'d \<Rightarrow> ('b st, 'e) comp" and g P
    by (erule fine_bindc) auto
  have fee: "fine (ask (ts_QuotaFee S x)) (\<lambda>r. \<exists>q'. r = Inr q')" for x
    by (rule fine_ask) (use S in \<open>simp add: obligingD\<close>)
  have init: "fine (act (ts_Init S x) ev) (\<lambda>r. \<exists>q'. r = Inr q')" for x ev
    by (rule fine_act) (use S in \<open>simp add: obligingD\<close>)
  show ?thesis
    unfolding serviceTransactionInit_def Let_def
    by (intro bind init_parties_fine S fee init_merchant_fee_fine init published_fine) simp
qed

lemma serviceTransactionConfirm_fine:
  assumes S: "obliging S"
  shows "fine (serviceTransactionConfirm S q) (\<lambda>(t, err). err = None \<and> t \<noteq> None)"
proof -
  have "fine (act (ts_Confirm S q) (EvConfirm q)) (\<lambda>r. \<exists>q'. r = Inr q')"
    by (rule fine_act) (use S in \<open>simp add: obligingD\<close>)
  then show ?thesis
    unfolding serviceTransactionConfirm_def
    by (rule fine_bindc)
      (auto intro!: fine_bindc [OF MqttUpdateProfile_fine [OF S]] SendMqttTransactionByObject_fine [OF S]
        fine_bindc [OF notificationTransaction_fine [OF S]] fine_rules)
qed

lemma servicePromotionUsed_fine:
  assumes S: "obliging S"
  shows "fine (servicePromotionUsed S q) (\<lambda>r. \<exists>a v. r = Inr a \<and> uvr_VoucherId a = Some v)"
proof -
  have bal: "fine (if uv_UserId q \<noteq> [] then bindc (GetProfile S (uv_UserId q)) (\<lambda>r. case r of
                Inl _ \<Rightarrow> ret q
              | Inr user \<Rightarrow> (case us_Balances user of
                  [] \<Rightarrow> panic ''index out of range''
                | b # _ \<Rightarrow> ret (q\<lparr>uv_CurrentBalance := bl_AmountAvailable b - bl_AmountFreeze b\<rparr>)))
            else ret q) (\<lambda>_. True)"
    by (intro fine_rules fine_bindc [OF GetProfile_fine [OF S]])
      (auto simp: cooperative_user_def split: list.split intro!: fine_rules)
  have use: "fine (act (pr_UseVoucher S u) (EvUseVoucher u)) (\<lambda>r. \<exists>a v. r = Inr a \<and> uvr_VoucherId a = Some v)" for u
    by (rule fine_act) (rule obligingD(10) [OF S])
  show ?thesis
    unfolding servicePromotionUsed_def CreateMessageMqtt_def
    by (rule fine_bindc [OF bal], rule fine_bindc [OF use], rule fine_bindc [OF fine_act [of "\<lambda>_. True"]])
      (auto intro: fine_rules)
qed

text \<open>The order operations.\<close>

lemma ReplaceByID_fine: "obliging S \<Longrightarrow> fine (ReplaceByID S d) (\<lambda>r. r = (Some d, None))"
  unfolding ReplaceByID_def
  by (rule fine_bindc [OF fine_act [of "\<lambda>r. \<exists>n. r = Inr (Suc n)"]]) (auto simp: obligingD intro!: fine_rules)

lemma order_ops_fine:
  assumes S: "obliging S"
  shows "fine (ProcessingOrder S d) (\<lambda>(d', res, err). err = None \<and> res = Some d' \<and> restamped ORDER_PROCESSING d d')"
    and "fine (SuccessOrder S d) (\<lambda>(d', res, err). err = None \<and> res = Some d' \<and> restamped ORDER_SUCCESS d d')"
proof -
  have p: "fine (ProcessingOrderByID S d) (\<lambda>r. r = (Some d, None))" for d
    unfolding ProcessingOrderByID_def
    by (rule fine_ask_any, rule fine_bindc [OF fine_act [of "\<lambda>r. \<exists>n. r = Inr (Suc n)"]])
      (auto simp: obligingD [OF S] intro!: fine_rules)
  show "fine (ProcessingOrder S d) (\<lambda>(d', res, err). err = None \<and> res = Some d' \<and> restamped ORDER_PROCESSING d d')"
    unfolding ProcessingOrder_def GetCurrentTime_def Let_def
    by (intro fine_ask_any fine_bindc [OF p]) (auto intro!: fine_rules)
  show "fine (SuccessOrder S d) (\<lambda>(d', res, err). err = None \<and> res = Some d' \<and> restamped ORDER_SUCCESS d d')"
    unfolding SuccessOrder_def GetCurrentTime_def Let_def
    by (intro fine_ask_any fine_bindc [OF ReplaceByID_fine [OF S]]) (auto intro!: fine_rules)
qed

lemma Create_fine:
  assumes S: "obliging S"
  shows "fine (Create S x) (\<lambda>(p, err). err = None \<and> p \<noteq> None)"
proof -
  have id: "fine (incrementID S x) (\<lambda>r. \<exists>i. r = Inr i)" for x
    unfolding incrementID_def
    by (rule fine_ask_any, rule fine_bindc [OF fine_ask [of "\<lambda>r. \<exists>c. r = Inr c"]])
      (auto simp: obligingD [OF S] split: prod.split intro!: fine_rules)
  have ins: "fine (act (mg_InsertOrder S x) ev) (\<lambda>r. r = None)" for x ev
    by (rule fine_act) (simp add: obligingD(1) [OF S])
  show ?thesis
    unfolding Create_def Let_def
    by (rule fine_bindc [OF id]) (auto intro!: fine_bindc [OF ins] fine_rules)
qed

lemma InitOrder_fine:
  assumes "obliging S" and "oe_LuckyMoneyID d = []"
  shows "fine (InitOrder S d) (\<lambda>(p, err). err = None \<and> p \<noteq> None)"
  unfolding InitOrder_def GetCurrentTime_def
  using Create_fine [OF assms(1)] by (simp add: assms(2) fine_ask_any)

subsection \<open>Steps\<close>

abbreviation goes :: "('w st, goerror option) comp \<Rightarrow> ('w st \<Rightarrow> bool) \<Rightarrow> 'w st \<Rightarrow> bool" where
  "goes f R s \<equiv> wp f (\<lambda>err t. err = None \<and> R t) (\<lambda>_. False) s"

lemma goes_Cons: "goes f (goes (run_steps sts (g # gs)) R) s \<Longrightarrow> goes (run_steps ((n, f, g) # sts) gs) R s"
  unfolding wp_run_steps_Cons by (erule wp_mono) auto

lemma goes_Nil: "R s \<Longrightarrow> goes (run_steps [] gs) R s"
  by (simp add: wp_rules)

lemma goes_gets: "goes (g (f s)) R s \<Longrightarrow> goes (bindc (gets f) g) R s"
  by (simp add: wp_bindc wp_gets)

lemma orchestrate_goes:
  assumes "fresh_execution S s"
    and "\<And>w. goes (run_steps sts []) (\<lambda>t. order_dto t \<noteq> None) (s\<lparr>world := w\<rparr>)"
  shows "\<exists>d t. orchestrate S name sts s = (Ret (Some d, None), t)"
proof -
  have "wp (orchestrate S name sts) (\<lambda>(p, err) _. err = None \<and> p \<noteq> None) (\<lambda>_. False) s"
    by (rule orchestrate_wp [OF assms(1)]) (rule wp_mono [OF assms(2)], auto)
  then show ?thesis by (auto simp: wp_def split: prod.splits outcome.splits)
qed

lemma init_order_goes:
  assumes "obliging S" "oe_LuckyMoneyID d = []"
    and "\<And>d' w es. R ((appended s w es)\<lparr>order_dto := Some d'\<rparr>)"
  shows "goes (init_order S d) R s"
  unfolding init_order_def wp_bindc
  by (rule fine_wp [OF InitOrder_fine [OF assms(1,2)]]) (auto simp: wp_rules split: prod.split intro: assms(3))

lemma assign_order_goes:
  assumes "\<And>d. fine (Op d) (\<lambda>(d', res, err). err = None \<and> res = Some d' \<and> restamped st d d')"
    and "order_dto s \<noteq> None"
    and "\<And>d' w es. R ((appended s w es)\<lparr>order_dto := Some d'\<rparr>)"
  shows "goes (assign_order Op) R s"
  using assms(2,3) unfolding assign_order_def wp_bindc wp_the_order
  by (auto simp: wp_rules split: option.split prod.split intro!: fine_wp [OF assms(1)])

lemma success_order_goes:
  assumes "obliging S" "order_dto s \<noteq> None"
    and "\<And>d' w es r. R ((appended s w es)\<lparr>order_dto := Some d', resp_OrderEntity := r\<rparr>)"
  shows "goes (success_order S) R s"
  unfolding success_order_def wp_bindc
  by (rule wp_mono [where E = "\<lambda>_. False", OF assign_order_goes
        [where R = "\<lambda>t. \<exists>d' w es. t = (appended s w es)\<lparr>order_dto := Some d'\<rparr>", OF order_ops_fine(2) [OF assms(1)] assms(2)]])
    (auto simp: wp_rules assms(3))

lemma assign_trans_goes:
  assumes "\<And>t. fine (Op t) (\<lambda>(t, err). err = None \<and> t \<noteq> None)"
    and "trans s \<noteq> None"
    and "\<And>t w es. R ((appended s w es)\<lparr>trans := Some t\<rparr>)"
  shows "goes (assign_trans Op) R s"
  using assms(2,3) unfolding assign_trans_def wp_bindc wp_the_trans
  by (auto simp: wp_rules split: option.split prod.split intro!: fine_wp [OF assms(1)])

lemma init_trans_goes:
  assumes "obliging S" and "\<And>t w es. R ((appended s w es)\<lparr>trans := Some t\<rparr>)"
  shows "goes (init_trans S noting dto) R s"
  unfolding init_trans_def wp_bindc
  by (rule fine_wp [OF serviceTransactionInit_fine [OF assms(1)]])
    (auto simp: wp_rules split: prod.split intro: assms(2))

lemma link_order_goes:
  assumes "goes m (\<lambda>t. trans t \<noteq> None \<and> order_dto t \<noteq> None \<and> (\<forall>d. R (t\<lparr>order_dto := Some d\<rparr>))) s"
  shows "goes (link_order m) R s"
  unfolding link_order_def wp_bindc
  by (rule wp_mono [OF assms]) (auto simp: wp_rules split: option.split)

lemma confirm_trans_goes:
  assumes "obliging S" "trans s \<noteq> None" and "\<And>t w es. R ((appended s w es)\<lparr>trans := Some t\<rparr>)"
  shows "goes (confirm_trans S h) R s"
  unfolding confirm_trans_def wp_bindc wp_gets wp_updates
  using assms by (auto split: option.split intro!: assign_trans_goes [OF serviceTransactionConfirm_fine])

lemma use_voucher_goes:
  assumes "obliging S" "order_dto s \<noteq> None" "R s"
    and "\<And>v x w es. R ((appended s w es)\<lparr>voucherId := v, discount := x\<rparr>)"
  shows "goes (use_voucher S code req) R s"
  unfolding use_voucher_def wp_if wp_bindc wp_the_order
  using assms(2-) by (auto simp: wp_rules split: option.split intro!: fine_wp [OF servicePromotionUsed_fine [OF assms(1)]])

lemma init_this_order_goes:
  assumes "obliging S" "order_dto s \<noteq> None" "\<And>d. order_dto s = Some d \<Longrightarrow> oe_LuckyMoneyID d = []"
    and "\<And>d' w es. R ((appended s w es)\<lparr>order_dto := Some d'\<rparr>)"
  shows "goes (init_this_order S) R s"
  unfolding init_this_order_def wp_bindc wp_the_order
  using assms by (auto split: option.split intro!: init_order_goes)

lemma success_linked_order_goes:
  assumes "obliging S" "order_dto s \<noteq> None" "trans s \<noteq> None"
    and "\<And>d' w es r. R ((appended s w es)\<lparr>order_dto := Some d', resp_OrderEntity := r\<rparr>)"
  shows "goes (success_linked_order S) R s"
  unfolding success_linked_order_def wp_bindc wp_the_trans wp_updates
  using assms by (auto split: option.split intro!: success_order_goes)

lemma orchestrate_goes_on:
  assumes "fresh_execution S s" "\<And>u. started (Some d) s u \<Longrightarrow> goes (run_steps sts []) (\<lambda>t. order_dto t \<noteq> None) u"
  shows "\<exists>d' t. orchestrate S name sts ((fresh_vars None s)\<lparr>order_dto := Some d\<rparr>) = (Ret (Some d', None), t)"
proof (rule orchestrate_goes)
  show "fresh_execution S ((fresh_vars None s)\<lparr>order_dto := Some d\<rparr>)" using assms(1) by (simp add: fresh_execution_def)
qed (intro assms(2) started_world started_order [OF started_refl])

lemma bank_ops_fine:
  assumes "cooperative S"
  shows "fine (bank_IBFTTransfer S ac ca u i ib de am bn) (\<lambda>(r, err). err = None \<and> BankGwStatus_IsSuccess (br_ErrorCode r))"
    and "fine (bank_CashOut S am b i l de u) (\<lambda>(r, err). err = None \<and> BankGwStatus_IsSuccess (br_ErrorCode r))"
  unfolding bank_IBFTTransfer_def bank_CashOut_def
  by (rule fine_ask_any, rule checked_fine [OF assms], simp)+

lemma bank_step_goes:
  assumes "fine call (\<lambda>(r, err). err = None \<and> BankGwStatus_IsSuccess (br_ErrorCode r))"
    and "\<And>res w es. wp (onOk res) (\<lambda>_. R) (\<lambda>_. False) ((appended s w es)\<lparr>bankTraceId := br_BankTraceId res\<rparr>)"
  shows "goes (bank_step call pending onOk) R s"
  unfolding bank_step_def wp_bindc
  by (rule fine_wp [OF assms(1)]) (use assms(2) in \<open>auto simp: wp_rules dest: BankGwStatus_success_exclusive\<close>)

end
