(* ===== verification/Runs.thy ===== *)
theory Runs
  imports Cooperation
begin

text \<open>
  Runs that do not go well, in an environment that is otherwise obliging: the compensations come
  to an end without a panic, and what a step has met stays in the trace.
\<close>

lemma goes_then:
  "goes f (wp (run_steps sts (g # gs)) Q E) s \<Longrightarrow> wp (run_steps ((n, f, g) # sts) gs) Q E s"
  unfolding wp_run_steps_Cons by (erule wp_mono) auto

definition meets :: "(event \<Rightarrow> bool) \<Rightarrow> 'w st \<Rightarrow> 'w st \<Rightarrow> bool" where
  "meets P s t \<longleftrightarrow> (\<exists>es. trace t = trace s @ es \<and> (\<exists>e \<in> set (key es). P e))"

lemma meets_grows: "meets P s t \<Longrightarrow> adds (\<lambda>_. False) 0 t u \<Longrightarrow> meets P s u"
  by (auto simp: meets_def adds_def)

lemma meets_step:
  assumes "wp f (\<lambda>err t. err \<noteq> None \<and> meets P s0 t) (meets P s0) s" "\<And>h. h \<in> set (g # gs) \<Longrightarrow> atmost (\<lambda>_. False) 0 h"
  shows "wp (run_steps ((n, f, g) # sts) gs) (\<lambda>_. meets P s0) (meets P s0) s"
  unfolding wp_run_steps_Cons
proof (rule wp_mono [OF assms(1)], goal_cases)
  case (1 err t)
  then obtain e where "err = Some e" by auto
  moreover have "atmost (\<lambda>_. False) 0 (unwind (g # gs))" by (rule atmost_unwind) (rule assms(2))
  then have "wp (unwind (g # gs)) (\<lambda>_. meets P s0) (meets P s0) t"
    by (rule atmost_wp) (use 1 meets_grows in blast)
  ultimately show ?case by simp
qed

lemma meets_fresh_vars [simp]: "meets P (fresh_vars d s) = meets P s"
  by (simp add: meets_def fun_eq_iff)

lemma meets_started: "started p s s' \<Longrightarrow> meets P s' t \<Longrightarrow> meets P s t"
  by (auto simp: meets_def started_def appended_def fresh_vars_def)

lemma meets_upd [simp]:
  "meets P (s\<lparr>world := w\<rparr>) t = meets P s t" "meets P s (t\<lparr>LogSaga := m\<rparr>) = meets P s t"
  by (simp_all add: meets_def)

lemma orchestrate_meets:
  assumes "fresh_execution S s" "\<And>w. wp (run_steps sts []) (\<lambda>_. meets P s) (meets P s) (s\<lparr>world := w\<rparr>)"
  shows "wp (orchestrate S name sts) (\<lambda>_. meets P s) (meets P s) s"
  by (rule orchestrate_wp [OF assms(1)]) (use assms(2) in simp)

subsection \<open>Compensations come to an end\<close>

abbreviation returns :: "('w st, 'a) comp \<Rightarrow> ('w st \<Rightarrow> bool) \<Rightarrow> 'w st \<Rightarrow> bool" where
  "returns m R s \<equiv> wp m (\<lambda>_. R) (\<lambda>_. False) s"

lemma serviceTransactionCancel_fine:
  assumes "obliging S"
  shows "fine (serviceTransactionCancel S t) (\<lambda>_. True)"
  unfolding serviceTransactionCancel_def
  by (rule fine_bindc [OF fine_act [of "\<lambda>_. True"]])
    (auto split: sum.split intro!: fine_rules published_fine [OF assms])

lemma FailedOrder_fine: "fine (FailedOrder S d) (\<lambda>_. True)"
proof -
  have "fine (ReplaceByID S d) (\<lambda>_. True)" for d
    unfolding ReplaceByID_def
    by (rule fine_bindc [OF fine_act [of "\<lambda>_. True"]]) (auto split: sum.split intro!: fine_rules)
  then show ?thesis
    unfolding FailedOrder_def GetCurrentTime_def Let_def
    by (intro fine_ask_any) (auto split: prod.split intro!: fine_rules fine_bindc)
qed

lemma fail_order_returns:
  assumes "order_dto s \<noteq> None" "\<And>d t. R (t\<lparr>order_dto := Some d\<rparr>)"
  shows "returns (through_order (FailedOrder S)) R s"
  unfolding through_order_def wp_bindc wp_the_order
  using assms by (auto split: option.split prod.split simp: wp_rules intro!: fine_wp [OF FailedOrder_fine])

lemma fail_order_unless_returns:
  assumes "order_dto s \<noteq> None" "\<And>d t. R (t\<lparr>order_dto := Some d\<rparr>)" "R s"
  shows "returns (fail_order_unless S k) R s"
  unfolding fail_order_unless_def wp_bindc wp_the_order wp_whenc
  using assms by (auto split: option.split simp: wp_rules intro!: fail_order_returns)

lemma cancel_trans_returns:
  assumes "obliging S" "trans s \<noteq> None" "\<And>t w es. R ((appended s w es)\<lparr>trans := t\<rparr>)"
  shows "returns (cancel_trans S h) R s"
  unfolding cancel_trans_def assign_trans_def wp_bindc wp_gets wp_updates wp_the_trans
  using assms(2,3)
  by (auto split: option.split prod.split simp: wp_rules intro!: fine_wp [OF serviceTransactionCancel_fine [OF assms(1)]])

definition has_order :: "'w st \<Rightarrow> bool" where
  "has_order s \<longleftrightarrow> order_dto s \<noteq> None"

lemma has_order_upd [simp]: "has_order (t\<lparr>order_dto := Some d\<rparr>)" "has_order (t\<lparr>trans := x\<rparr>) = has_order t"
  "has_order (appended t w es) = has_order t"
  by (simp_all add: has_order_def)

lemma comps_return:
  assumes "obliging S" "has_order s"
  shows "returns (comp_order S) has_order s" "returns (comp_voucher S b) has_order s"
    "returns (comp_init_payment S h k) has_order s" "returns (ret None) has_order s"
proof -
  note fail = fail_order_unless_returns [where R = has_order]
  have d: "order_dto s \<noteq> None" using assms(2) by (simp add: has_order_def)
  show "returns (comp_order S) has_order s"
    unfolding comp_order_def wp_bindc wp_ret using d assms(2) by (intro fail) simp_all
  have rev: "fine (act (pr_ReverseWallet S i) ev) (\<lambda>_. True)" for i ev by (rule fine_act) simp
  show "returns (comp_voucher S b) has_order s"
    unfolding comp_voucher_def servicePromotionCompensate_def wp_bindc wp_the_order wp_whenc wp_ret
    using d assms(2) by (auto split: option.split intro!: fail fine_wp [OF rev])
  have "returns (cancel_trans S h) (\<lambda>t. wp (fail_order_unless S k) (\<lambda>_. has_order) (\<lambda>_. False) t) s" if "trans s \<noteq> None"
    using d assms(2) by (intro cancel_trans_returns [OF assms(1) that] fail) (simp_all add: has_order_def)
  then show "returns (comp_init_payment S h k) has_order s"
    unfolding comp_init_payment_def wp_bindc wp_gets wp_ret
    using d assms(2) by (auto split: option.split simp: wp_ret wp_if intro!: fail)
  show "returns (ret None) has_order s" using assms(2) by (simp add: wp_ret)
qed

lemma comp_provider_returns:
  assumes "obliging S" "has_order s" "trans s \<noteq> None" "\<not> open_call s"
  shows "returns (comp_provider S open_call h h' k) has_order s"
proof -
  have "returns (update_order (k r)) (returns (through_order (FailedOrder S)) has_order) t" if "has_order t" for r t
    using that by (auto simp: has_order_def wp_rules split: option.split intro!: fail_order_returns)
  then show ?thesis
    unfolding comp_provider_def wp_bindc wp_gets wp_if using assms
    by (auto intro!: cancel_trans_returns)
qed

lemma unwind_returns:
  assumes "\<And>g s. g \<in> set gs \<Longrightarrow> has_order s \<Longrightarrow> returns g has_order s" "has_order s"
  shows "returns (unwind gs) has_order s"
  using assms
proof (induction gs arbitrary: s)
  case (Cons g gs)
  then show ?case unfolding wp_unwind_Cons by (intro wp_mono [OF Cons.prems(1)]) (auto intro: wp_mono [OF Cons.IH])
qed (simp add: wp_rules)

text \<open>A step that fails after the others went well: the saga returns the order and the error.\<close>

lemma refused_step:
  assumes "obliging S"
    "wp f (\<lambda>err t. (\<exists>e. err = Some e) \<and> has_order t \<and> trans t \<noteq> None \<and> \<not> open_call t) (\<lambda>_. False) s"
    and "\<And>h s. h \<in> set gs \<Longrightarrow> has_order s \<Longrightarrow> returns h has_order s"
  shows "wp (run_steps ((n, f, comp_provider S open_call h h' k) # sts) gs) (\<lambda>err t. err \<noteq> None \<and> has_order t) (\<lambda>_. False) s"
  unfolding wp_run_steps_Cons
proof (rule wp_mono [OF assms(2)], goal_cases)
  case (1 err t)
  then obtain e where e: "err = Some e" "has_order t" "trans t \<noteq> None" "\<not> open_call t" by blast
  have "returns (unwind (comp_provider S open_call h h' k # gs)) has_order t"
    unfolding wp_unwind_Cons
    by (rule wp_mono [OF comp_provider_returns [where open_call = open_call, OF assms(1) e(2-)]]) (auto intro: unwind_returns assms(3))
  then show ?case unfolding e(1) option.case by (rule wp_mono) simp_all
qed simp

lemma orchestrate_refused:
  assumes "fresh_execution S s"
    and "\<And>w. wp (run_steps sts []) (\<lambda>err t. err \<noteq> None \<and> has_order t) (\<lambda>_. False) (s\<lparr>world := w\<rparr>)"
  shows "\<exists>d e t. orchestrate S name sts s = (Ret (Some d, Some e), t)"
proof -
  have "wp (orchestrate S name sts) (\<lambda>(p, err) _. err \<noteq> None \<and> p \<noteq> None) (\<lambda>_. False) s"
    by (rule orchestrate_wp [OF assms(1)]) (rule wp_mono [OF assms(2)], auto simp: has_order_def)
  then show ?thesis by (auto simp: wp_def split: prod.splits outcome.splits)
qed

subsection \<open>Whole runs\<close>

lemma settled_statuses: "settled d \<longleftrightarrow> oe_Status d \<in> {ORDER_FAILED, ORDER_VERIFYING}"
  by (simp add: settled_def IsFailed_def IsVerifying_def)

text \<open>What the weakest preconditions say of one run, about the events that the run added to the trace.\<close>

lemma run_disciplined:
  assumes "m s = (r, t)" "\<And>B. B \<in> As \<Longrightarrow> wp m (\<lambda>_. adds B 1 s) (adds B 1 s) s"
    and "wp m (\<lambda>_. ordered A ok s) (ordered A ok s) s"
  shows "\<exists>es. trace t = trace s @ es \<and> (\<forall>B \<in> As. length (filter B (key es)) \<le> 1) \<and>
     (\<forall>i < length (key es). A (key es ! i) \<longrightarrow> (\<exists>j < i. ok (key es ! j)))"
proof -
  have "ordered A ok s t" using assms(3,1) by (rule wp_result)
  then obtain es where es: "trace t = trace s @ es" "preceded A ok (key es)" by (auto simp: ordered_def)
  have "length (filter B (key es)) \<le> 1" if "B \<in> As" for B
    using wp_result [OF assms(2) [OF that] assms(1)] es(1) by (auto simp: adds_def)
  then show ?thesis using es preceded_nth by blast
qed

lemma run_once:
  assumes "m s = (r, t)" "\<And>B. B \<in> As \<Longrightarrow> wp m (\<lambda>_. adds B 1 s) (adds B 1 s) s" "As \<noteq> {}"
  shows "\<exists>es. trace t = trace s @ es \<and> (\<forall>B \<in> As. length (filter B (key es)) \<le> 1)"
proof -
  obtain A where "A \<in> As" using assms(3) by blast
  then obtain es where es: "trace t = trace s @ es"
    using wp_result [OF assms(2) assms(1)] by (auto simp: adds_def)
  have "length (filter B (key es)) \<le> 1" if "B \<in> As" for B
    using wp_result [OF assms(2) [OF that] assms(1)] es by (auto simp: adds_def)
  with es show ?thesis by blast
qed

lemma run_stays_open:
  assumes "wp m (\<lambda>(p, err) u. adds P 0 s u \<or> (\<exists>e. err = Some e \<and> Pe e \<and> still s u))
      (\<lambda>u. adds P 0 s u \<or> still s u) s"
    and "m s = (r, t)" "trace t = trace s @ es" "\<exists>e \<in> set (key es). P e"
  shows "((\<exists>e \<in> set (key es). contradicts e) \<or> (\<forall>e \<in> set (key es). \<not> gives_up e)) \<and>
    (\<forall>p err. r = Ret (p, err) \<longrightarrow> (\<exists>e. err = Some e \<and> Pe e))"
proof -
  have "\<not> adds P 0 s t" using assms(3,4) by (auto simp: adds_def filter_empty_conv)
  then have "still s t \<and> (\<forall>p err. r = Ret (p, err) \<longrightarrow> (\<exists>e. err = Some e \<and> Pe e))"
    using assms(1,2) by (auto simp: wp_def split: outcome.splits)
  then show ?thesis using assms(3) by (auto simp: still_def contradicted_def adds_def filter_empty_conv)
qed

lemma run_stays_open_any:
  assumes "wp m (\<lambda>(p, err) u. adds P 0 s u \<or> (err \<noteq> None \<and> still s u))
      (\<lambda>u. adds P 0 s u \<or> still s u) s"
    and "m s = (r, t)" "trace t = trace s @ es" "\<exists>e \<in> set (key es). P e"
  shows "((\<exists>e \<in> set (key es). contradicts e) \<or> (\<forall>e \<in> set (key es). \<not> gives_up e)) \<and> (\<forall>p err. r = Ret (p, err) \<longrightarrow> err \<noteq> None)"
proof -
  have "wp m (\<lambda>(p, err) u. adds P 0 s u \<or> (\<exists>e. err = Some e \<and> True \<and> still s u))
      (\<lambda>u. adds P 0 s u \<or> still s u) s" using assms(1) by (rule wp_mono) auto
  from run_stays_open [OF this assms(2-4)] show ?thesis by auto
qed

lemma run_meets: "wp m (\<lambda>_. meets P s) (meets P s) s \<Longrightarrow>
    \<exists>r t es. m s = (r, t) \<and> trace t = trace s @ es \<and> (\<exists>e \<in> set (key es). P e)"
  by (auto simp: wp_def meets_def split: prod.splits outcome.splits)

end
