(* ===== verification/Examples.thy ===== *)
theory Examples
  imports Runs
begin

text \<open>
  A concrete environment in which every service answers, for evaluating the model: the world is a
  counter that the random source advances, the clock stands still, users are verified and have a
  balance, and the transaction service answers with the transaction it was sent, under the id
  \<open>''T1''\<close> when it is new.
\<close>

definition example_user :: User where
  "example_user = \<lparr>us_Id = ''U1'', us_KYC = ''ACTIVE'', us_HasEverLinkedBank = True,
     us_Balances = [\<lparr>bl_AmountAvailable = 900000, bl_AmountFreeze = 0\<rparr>]\<rparr>"

definition example_order :: OrderEntity where
  "example_order = OrderEntity_zero\<lparr>oe_OrderID := ''O7'', oe_UserID := ''U1'', oe_Amount := 50000,
     oe_Status := ORDER_PENDING\<rparr>"

definition example_request :: OrderRequest where
  "example_request = OrderRequest_zero\<lparr>rq_UserID := ''U1'', rq_MerchantID := ''M1'', rq_Amount := 50000, rq_Quantity := 1,
     rq_PhoneTopup := ''0901234567'', rq_VoucherCode := ''V9'', rq_SourceOfFund := SOURCE_OF_FUND_BALANCE_WALLET\<rparr>"

definition example_va :: VirtualAccounts where
  "example_va = VirtualAccounts_zero\<lparr>va_AccountNumber := ''9001'', va_AccountName := ''Shop'', va_AccountType := ''MANY'',
     va_Provider := ''MSB'', va_Status := ''OPEN'', va_MerchantId := ''M1'', va_MerchantCode := ''M'', va_MapId := ''R1''\<rparr>"

definition example_setting :: MerchantConfigSetting where
  "example_setting = \<lparr>mcs_ServiceType = [], mcs_TransType = TRANSTYPE_PAY_VA, mcs_Provider = ''MSB'', mcs_Status = ''ACTIVE'',
     mcs_SubTransTypes = [], mcs_VACode = ''01''\<rparr>"

definition example_services :: "nat services" where
  "example_services = \<lparr>
     sv_now = (\<lambda>w. (1600000000000000000, w)), sv_rand = (\<lambda>w. (w, Suc w)), sv_prefix = ''D'',
     sv_json_detail = (\<lambda>_. None),
     mg_InsertOrder = (\<lambda>_ w. (None, w)), mg_ReplaceOrder = (\<lambda>_ _ w. (Inr 1, w)),
     mg_FindOrder = (\<lambda>_ w. (Inr example_order, w)), mg_FindExpired = (\<lambda>_ _ w. (Inr [], w)),
     mg_date = (\<lambda>w. (''20210301'', w)), mg_IncCounter = (\<lambda>_ w. (Inr (7, 10), w)),
     mg_InsertCounter = (\<lambda>_ _ _ w. (None, w)),
     ts_Init = (\<lambda>t w. (Inr (t\<lparr>tx_TransactionId := ''T1''\<rparr>), w)),
     ts_Confirm = (\<lambda>t w. (Inr (t\<lparr>tx_Status := TRANSACTION_STATUS_FINISH\<rparr>), w)),
     ts_Cancel = (\<lambda>t w. (Inr (t\<lparr>tx_Status := TRANSACTION_STATUS_FAILED\<rparr>), w)),
     ts_Update = (\<lambda>t w. (Inr t, w)),
     ts_FindByID = (\<lambda>i w. (Inr (ETransactionDTO_zero\<lparr>tx_TransactionId := i\<rparr>), w)),
     ts_QuotaFee = (\<lambda>_ w. (Inr \<lparr>qs_FeeAmount = 0, qs_DiscountAmount = 0\<rparr>, w)),
     ts_Refund = (\<lambda>_ w. (Inr ''R1'', w)), ts_ConfirmRefund = (\<lambda>_ w. (Inr ''R1'', w)),
     ts_CancelRefund = (\<lambda>_ _ _ w. (None, w)),
     mf_QuotaFee = (\<lambda>_ w. (Inr \<lparr>ms_FeeAmount = 100, ms_FeeMethod = FEE_NOW, ms_FixedFeeAmount = 100,
                               ms_RateFeeAmount = 0\<rparr>, w)),
     ur_Detail = (\<lambda>_ w. (Inr (Some example_user), w)), ur_MerchantCode = (\<lambda>_ w. (Inr (Some ''M''), w)),
     ur_MerchantAccount = (\<lambda>_ w. (Inr \<lparr>ma_AmountRevenue = 1000000, ma_AmountCash = 0\<rparr>, w)),
     pr_UseVoucher = (\<lambda>_ w. (Inr \<lparr>uvr_VoucherId = Some ''V1'', uvr_DiscountAmount = 1000\<rparr>, w)),
     pr_ReverseWallet = (\<lambda>_ w. (None, w)),
     mf_VendorDiscount = (\<lambda>_ w. (Inr \<lparr>vdr_MerchantDiscountAmount = 0, vdr_VendorDiscountAmount = 0\<rparr>, w)),
     cs_FindVendor = (\<lambda>_ w. (Inr (Some \<lparr>vn_Name = ''EVN'', vn_Type = ''electric''\<rparr>), w)),
     cs_InvoiceCheck = (\<lambda>_ w. (Inl (ErrorString ''no invoice''), w)),
     cs_BuyCard = (\<lambda>_ w. (Inr \<lparr>bcr_Status = ''SUCCESS'', bcr_Cards = [], bcr_CardType = [],
                              bcr_ProviderMerchant = ''P'', bcr_ProviderMerchantId = ''P1''\<rparr>, w)),
     cs_PaidBill = (\<lambda>_ w. (Inr \<lparr>pbr_Status = ''SUCCESS'', pbr_ProviderMerchantId = ''P1''\<rparr>, w)),
     cs_Topup = (\<lambda>_ w. (Inr \<lparr>tur_Status = ''SUCCESS'', tur_ProviderMerchantId = ''P1''\<rparr>, w)),
     bk_Do = (\<lambda>_ w. (Inr \<lparr>StatusCode = 200, Body = Inr [], CloseErr = None\<rparr>, w)),
     bk_Unmarshal = (\<lambda>_. (BankRes_zero\<lparr>br_ErrorCode := ''200'', br_BankTraceId := ''B1'', br_Links := [ListLinked_zero], br_GpayUserID := ''U1'',
       br_CardNumber := ''4111111111111111'', br_Bins := [\<lparr>bb_CardType = ''CREDIT'', bb_BankName = ''VISA''\<rparr>]\<rparr>, None)),
     cb_redirect = (\<lambda>_ w. (Inr [], w)),
     mq_Publish = (\<lambda>_ _ _ _ _ w. (None, w)),
     sv_msb_prefix = ''GP'', sv_day = (\<lambda>_. ''01-03-2021''), sv_json_data = (\<lambda>_. Inr ''{}''), sv_json_acs = (\<lambda>_. ([], None)),
     mg_InsertVA = (\<lambda>_ w. (None, w)), mg_DeleteVA = (\<lambda>_ w. (None, w)), mg_SetVA = (\<lambda>_ _ w. (None, w)),
     mg_IncVA = (\<lambda>_ _ w. (None, w)), mg_FindVA = (\<lambda>_ w. (Inr example_va, w)),
     mg_IncMSB = (\<lambda>w. (Inr (7, 7), w)), mg_InsertMSB = (\<lambda>_ _ w. (None, w)),
     mg_FindMerchantConfig = (\<lambda>_ w. (Inr \<lparr>mcr_MerchantIds = [''M1''], mcr_Settings = [example_setting]\<rparr>, w)),
     mg_FindRefundConfig = (\<lambda>_ w. (Inl (ErrorString ''no documents''), w)),
     mf_LogVAFee = (\<lambda>_ _ w. (None, w)),
     mg_FindLixi = (\<lambda>_ w. (Inr [], w)), mg_SampleLixi = (\<lambda>lo _ w. (Inr [(lo, None)], w)), mg_ReplaceLixi = (\<lambda>_ w. (None, w)),
     ur_ByPhone = (\<lambda>_ w. (Inr (Some ''U1''), w)),
     fr_Get = (\<lambda>_ w. (Inr Fraud_zero, w)), fr_Save = (\<lambda>_ _ w. (None, w))\<rparr>"

definition example_state :: "nat st" where
  "example_state = \<lparr>world = 0, trace = [], LogSaga = (\<lambda>_. None), ctx_grpc = False, order_dto = None,
     trans = None, discount = 0, voucherId = [], failReason = [], providerMerchantId = [],
     providerMerchant = [], cardType = [], subTransactionType = [], isPendingSrvCard = False,
     isTimeOutBank = False, isFailedOrder = False, isByPassOtp = False, bankTraceId = [], bankCode = [],
     bankCodeGpay = [], resp_OrderEntity = None, resp_BankTraceId = [], resp_LinkId = 0, resp_Status = [],
     resp_Cards = [], resp_OrderId = [], resp_Url = [], resp_Data = [], resp_PaReq = [], resp_Md = [], resp_TermUrl = [],
     resp_ExpiredAt = None\<rparr>"

lemma example_fresh: "fresh_execution S example_state"
  by (simp add: fresh_execution_def example_state_def)

lemma example_fresh_saga: "fresh_saga S example_state"
  by (simp add: fresh_saga_def example_state_def)

lemma example_cooperative: "cooperative example_services"
  by (simp add: cooperative_def obliging_def example_services_def cooperative_user_def example_user_def http_result_def
      BankGwStatus_defs go_consts BankRes_zero_def)

subsection \<open>Other days\<close>

text \<open>The same environment with a card service that declines, and with a card service and a bank that have not decided.\<close>

definition declining_services :: "nat services" where
  "declining_services = example_services\<lparr>
     cs_Topup := \<lambda>_ w. (Inl (ErrorString ''declined''), w),
     cs_BuyCard := \<lambda>_ w. (Inl (ErrorString ''declined''), w),
     cs_PaidBill := \<lambda>_ w. (Inl (ErrorString ''declined''), w)\<rparr>"

definition pending_services :: "nat services" where
  "pending_services = example_services\<lparr>
     cs_Topup := \<lambda>_ w. (Inr \<lparr>tur_Status = TRANSACTION_STATUS_PENDING, tur_ProviderMerchantId = []\<rparr>, w),
     cs_BuyCard := \<lambda>_ w. (Inr \<lparr>bcr_Status = TRANSACTION_STATUS_PENDING, bcr_Cards = [], bcr_CardType = [],
                               bcr_ProviderMerchant = [], bcr_ProviderMerchantId = []\<rparr>, w),
     cs_PaidBill := \<lambda>_ w. (Inr \<lparr>pbr_Status = TRANSACTION_STATUS_PENDING, pbr_ProviderMerchantId = []\<rparr>, w),
     bk_Unmarshal := \<lambda>_. (BankRes_zero\<lparr>br_ErrorCode := ''102'', br_GpayUserID := ''U1''\<rparr>, None)\<rparr>"

lemma other_days_obliging: "obliging declining_services" "obliging pending_services"
  by (simp_all add: obliging_def declining_services_def pending_services_def example_services_def
      cooperative_user_def example_user_def http_result_def BankGwStatus_defs go_consts BankRes_zero_def)

end
