(* ===== verification/Services.thy ===== *)
theory Services
  imports Examples
begin

text \<open>
  Properties of what the orchestrators are built on: the saga coordinator over the store of
  \<open>memory.go\<close>, order ids and expiry, the lookup of a payable order, creating an order, opening a
  payment, and the status words of the bank.
\<close>

subsection \<open>The saga library\<close>

text \<open>
  \<open>AddStep\<close> accepts a step, without a panic, exactly when both functions are functions, the action
  takes one context and ends in an error, and the compensation takes the context followed by the
  other results of the action and returns one value; it then appends the step to the saga.
\<close>

theorem AddStep_accepts:
  "AddStep sg st s = (Ret (None, sg'), t) \<longleftrightarrow>
     valid_step st \<and> sg' = sg\<lparr>steps := steps sg @ [st]\<rparr> \<and> t = s"
proof -
  have state: "snd (checkStep st s) = s"
    by (auto simp: checkStep_def deref_def bindc_def ret_def panic_def split: option.splits)
  show ?thesis
    using checkStep_ok_iff [of st s] state
    by (cases "checkStep st s") (auto simp: AddStep_def bindc_def ret_def split: outcome.splits option.splits)
qed

text \<open>A saga over lists of numbers, whose second step fails.\<close>

definition noting_step :: "string \<Rightarrow> int \<Rightarrow> goerror option \<Rightarrow> (int list, unit) Step" where
  "noting_step n i err = mk_step n (\<lambda>s. (Ret err, s @ [i])) (\<lambda>s. (Ret None, s @ [- i]))"

definition failing_saga :: "(int list, unit) Saga" where
  "failing_saga = \<lparr>SagaName = ''demo'',
     steps = [noting_step ''a'' 1 None, noting_step ''b'' 2 (Some ErrFailOrder), noting_step ''c'' 3 None]\<rparr>"

text \<open>
  C1: over the store of \<open>memory.go\<close> the coordinator implements \<open>saga_spec\<close>: a saga whose steps passed the type check and
  whose results survive the encoding, played under an execution id that the store does not know, runs its steps in order,
  and at the first error runs the compensations of the failing step and of all
  steps before it, newest first, each once and with the values its step returned, and reports the
  first error; panics of the steps included.
\<close>

theorem Play_refines_saga:
  assumes "\<forall>st \<in> set (steps sg). valid_step st \<and> encodable C st" and "m eid = None"
  shows "(case Play C memory_store sg eid (NewCoordinator m s) of (r, c) \<Rightarrow> (r, env c)) =
     saga_spec (steps sg) [] s"
  using assms by (intro memory_log.Play_refines) (auto simp: memory_logs_def)

theorem Play_refines_saga_witness:
  "(case Play app_codec memory_store failing_saga ''e1'' (NewCoordinator memory_New [0]) of (r, c) \<Rightarrow> (r, env c)) =
     (Ret \<lparr>ExecutionError = Some ErrFailOrder, CompensateErrors = []\<rparr>, [0, 1, 2, - 2, - 1])"
proof -
  have "(case Play app_codec memory_store failing_saga ''e1'' (NewCoordinator memory_New [0]) of (r, c) \<Rightarrow> (r, env c)) =
      saga_spec (steps failing_saga) [] [0]"
    by (rule Play_refines_saga) (auto simp: failing_saga_def noting_step_def memory_New_def)
  then show ?thesis by (simp add: failing_saga_def noting_step_def mk_step_def bindc_def ret_def)
qed

lemma rand_letters_letters:
  "rand_letters rand n w = (cs, w') \<Longrightarrow> length cs = n \<and> set cs \<subseteq> set letters"
proof (induction n arbitrary: w cs)
  case (Suc n)
  have "0 < length letters" by (simp add: letters_def)
  then have "letters ! (k mod length letters) \<in> set letters" for k by simp
  then show ?case using Suc by (fastforce split: prod.splits)
qed simp

text \<open>An execution id is always ten of the 52 letters, whatever the random source yields.\<close>

theorem RandString_letters:
  "length (fst (RandString rand w)) = 10 \<and> set (fst (RandString rand w)) \<subseteq> set letters"
  unfolding RandString_def using rand_letters_letters by (metis prod.collapse)

subsection \<open>Order ids and expiry\<close>

lemma pad_zeros_eq: "pad_zeros n s = replicate n (CHR ''0'') @ s"
  by (induction n arbitrary: s) (simp_all add: replicate_app_Cons_same)

lemma digits_value_zeros: "digits_value (replicate n (CHR ''0'') @ s) = digits_value s"
  by (induction n) (simp_all add: digits_value_def)

text \<open>
  C40: the id of an order is the prefix and the counter of the day padded with zeros to ten digits, as
  long as the counter has at most ten; the counter can be read back, so two orders of a day differ in their id.
\<close>

theorem render_id_roundtrip:
  assumes "0 \<le> sint i" and "sint i < 10 ^ 10"
  shows "length (render_id prefix i LenID) = length prefix + 10 \<and>
     take (length prefix) (render_id prefix i LenID) = prefix \<and>
     int (digits_value (drop (length prefix) (render_id prefix i LenID))) = sint i"
proof -
  have "length (nat_digits (nat (sint i))) \<le> 10"
    by (rule length_nat_digits_le) (use assms in \<open>auto simp: nat_less_iff\<close>)
  then show ?thesis
    using assms by (simp add: render_id_def sprint_def pad_zeros_eq digits_value_zeros LenID_def Let_def)
qed

theorem render_id_roundtrip_witness:
  "length (render_id ''DGPOS20210301'' 7 LenID) = 23 \<and> digits_value (drop (length ''DGPOS20210301'') (render_id ''DGPOS20210301'' 7 LenID)) = 7"
  using render_id_roundtrip [of 7 "''DGPOS20210301''"] by simp

text \<open>
  The expiry that a request asks for, in milliseconds, is turned into that many milliseconds of
  nanoseconds exactly when it is at most 9223372036854; above that the product wraps around.
\<close>

theorem expire_duration_exact:
  assumes "0 < sint e"
  shows "sint (expire_duration e) = sint e * 1000000 \<longleftrightarrow> sint e \<le> 9223372036854"
proof -
  have s: "sint (e * 1000000) = signed_take_bit 63 (sint e * 1000000)"
    by (simp add: sint_word_ariths(3))
  show ?thesis
  proof (cases "sint e \<le> 9223372036854")
    case True
    then have "signed_take_bit 63 (sint e * 1000000) = sint e * 1000000"
      using assms by (intro signed_take_bit_int_eq_self) auto
    then show ?thesis using True assms s by (simp add: expire_duration_def)
  next
    case False
    have "signed_take_bit 63 (sint e * 1000000) < 2 ^ 63" by (rule signed_take_bit_int_less_exp)
    moreover have "2 ^ 63 \<le> sint e * 1000000" using False by simp
    ultimately show ?thesis using False assms s by (simp add: expire_duration_def)
  qed
qed

theorem expire_duration_exact_witness:
  "sint (expire_duration 60000) = 60000000000 \<and> sint (expire_duration 9223372036855) \<noteq> 9223372036855000000"
  using expire_duration_exact [of 60000] expire_duration_exact [of 9223372036855] by simp

subsection \<open>Orders\<close>

text \<open>
  The lookup of an order to pay: an order that is verifying, successful, failed or expired is
  refused with the error for its case, in this order of precedence, every other one is returned
  as stored, a lookup that fails is reported as an invalid order, and nothing is written.
\<close>

theorem GetValidOrder_decides:
  "\<exists>w. GetValidOrder S i s = (Ret (case fst (mg_FindOrder S (ByOrderID i) (world s)) of
       Inl _ \<Rightarrow> Inl (ErrorString ''Order khong hop le'')
     | Inr d \<Rightarrow>
         if oe_Status d = ORDER_VERIFYING then Inl ErrPendingOrder
         else if oe_Status d = ORDER_SUCCESS then Inl ErrPaidOrder
         else if oe_Status d = ORDER_FAILED then Inl ErrFailOrder
         else if oe_IsExpired d then Inl ErrExpiredOrder else Inr d), s\<lparr>world := w\<rparr>)"
  by (cases "mg_FindOrder S (ByOrderID i) (world s)")
    (auto simp: GetValidOrder_def FindByOrderID_def bindc_def ask_def ret_def status_defs split: sum.split)

text \<open>
  An order that was cancelled and has not expired is still handed out for payment; the error for
  cancelled orders is never returned.
\<close>

theorem GetValidOrder_cancelled:
  assumes "mg_FindOrder S (ByOrderID i) (world s) = (Inr d, w)" "oe_Status d = ORDER_CANCEL" "\<not> oe_IsExpired d"
  shows "GetValidOrder S i s = (Ret (Inr d), s\<lparr>world := w\<rparr>)"
  using assms by (simp add: GetValidOrder_def FindByOrderID_def bindc_def ask_def ret_def status_defs)

theorem GetValidOrder_cancelled_witness:
  "GetValidOrder (example_services\<lparr>mg_FindOrder := \<lambda>_ w. (Inr (example_order\<lparr>oe_Status := ORDER_CANCEL\<rparr>), w)\<rparr>)
     ''O7'' example_state = (Ret (Inr (example_order\<lparr>oe_Status := ORDER_CANCEL\<rparr>)), example_state)"
  using GetValidOrder_cancelled [of "example_services\<lparr>mg_FindOrder := \<lambda>_ w. (Inr (example_order\<lparr>oe_Status := ORDER_CANCEL\<rparr>), w)\<rparr>"
      "''O7''" example_state "example_order\<lparr>oe_Status := ORDER_CANCEL\<rparr>" "world example_state"]
  by (simp add: example_order_def OrderEntity_zero_def)

lemma does_run:
  assumes "does m P" "m s = (Ret a, t)"
  shows "\<exists>w es. t = appended s w es \<and> P (Some a) (key es)"
  using assms(1)[unfolded does_def, rule_format, of s] assms(2) by (simp add: wp_def)

lemma fine_run: "fine m P \<Longrightarrow> \<exists>a w es. m s = (Ret a, appended s w es) \<and> P a"
  unfolding fine_def wp_def by (cases "m s"; cases "fst (m s)") (auto dest!: spec [of _ s])

lemma initial_order_status [simp]: "oe_Status (initial_order d now oid) = ORDER_PENDING"
  by (simp add: initial_order_def)

text \<open>
  Creating an order without an error stores exactly one order, pending, created now, expiring after
  the duration that the request asks for, under the new id, and otherwise as requested; the stored order is the
  one returned.
\<close>

theorem InitOrder_stores:
  assumes "InitOrder S d s = (Ret (p, None), t)"
  shows "\<exists>now oid es. p = Some (initial_order d now oid) \<and> trace t = trace s @ es \<and>
     key es = [EvInsertOrder (initial_order d now oid) None] \<and> oe_Status (initial_order d now oid) = ORDER_PENDING"
  using does_run [OF InitOrder_does assms]
  by (auto simp: order_created_def split: if_splits) blast

theorem InitOrder_stores_witness:
  "\<exists>p t now oid es. InitOrder example_services example_order example_state = (Ret (p, None), t) \<and>
     p = Some (initial_order example_order now oid) \<and> trace t = trace example_state @ es \<and>
     key es = [EvInsertOrder (initial_order example_order now oid) None]"
proof -
  have "fine (InitOrder example_services example_order) (\<lambda>(p, err). err = None \<and> p \<noteq> None)"
    by (rule InitOrder_fine [OF cooperativeD(1) [OF example_cooperative]]) (simp add: example_order_def OrderEntity_zero_def)
  from fine_run [OF this, of example_state] obtain p t
    where run: "InitOrder example_services example_order example_state = (Ret (p, None), t)" by auto
  from InitOrder_stores [OF this] run show ?thesis by blast
qed

subsection \<open>Payments\<close>

text \<open>
  A party of a payment that does not stand in its way: there is none, or the lookup of its profile fails (which the code lets pass), or the
  profile is of a user with verified identity who has linked a bank before, unless the payment is a Napas deposit.
\<close>

definition vetted :: "'w services \<Rightarrow> bool \<Rightarrow> string \<Rightarrow> bool" where
  "vetted S napas i \<longleftrightarrow> i = [] \<or> (\<exists>w. case fst (ur_Detail S i w) of
     Inl _ \<Rightarrow> True
   | Inr None \<Rightarrow> False
   | Inr (Some u) \<Rightarrow> us_KYC u = ''ACTIVE'' \<and> (napas \<or> us_HasEverLinkedBank u))"

definition vets :: "'w services \<Rightarrow> ETransactionDTO \<Rightarrow> string \<Rightarrow> (goerror + ETransactionDTO) option \<Rightarrow> event list \<Rightarrow> bool" where
  "vets S q i r es \<longleftrightarrow> es = [] \<and> (\<forall>q'. r = Some (Inr q') \<longrightarrow>
     tx_PayeeId q' = tx_PayeeId q \<and> tx_Napas q' = tx_Napas q \<and> vetted S (tx_Napas q) i)"

lemma GetProfile_told:
  "does (GetProfile S i) (\<lambda>r es. es = [] \<and> (\<forall>a. r = Some a \<longrightarrow> (\<exists>w. fst (ur_Detail S i w) = map_sum id Some a)))"
  unfolding GetProfile_def
proof (rule does_ask_range, goal_cases)
  case (1 w)
  show ?case
  proof (cases "fst (ur_Detail S i w)")
    case (Inr p)
    then show ?thesis by (auto intro!: does_deref_bindc does_ret exI [of _ w])
  qed (auto intro!: does_ret exI [of _ w])
qed

lemma vetted_told:
  "fst (ur_Detail S i w) = Inl e \<Longrightarrow> vetted S napas i"
  "fst (ur_Detail S i w) = Inr (Some u) \<Longrightarrow> us_KYC u = ''ACTIVE'' \<Longrightarrow> napas \<or> us_HasEverLinkedBank u \<Longrightarrow> vetted S napas i"
  unfolding vetted_def by (auto intro!: exI [of _ w])

lemma init_payer_vets: "does (init_payer S q) (vets S q (tx_PayerId q))"
  unfolding init_payer_def
  by (intro does_if does_bindc [OF GetProfile_told])
    (auto split: sum.splits intro!: does_rules does_bindc_quiet LinkList_quiet simp: vets_def, auto simp: vetted_def [of _ _ "[]"] intro: vetted_told)

lemma init_payee_vets: "does (init_payee S q) (vets S q (tx_PayeeId q))"
  unfolding init_payee_def
  by (intro does_if does_bindc [OF GetProfile_told])
    (auto split: sum.splits intro!: does_rules does_bindc_quiet LinkList_quiet simp: vets_def, auto simp: vetted_def [of _ _ "[]"] intro: vetted_told)

lemma serviceTransactionInit_vets:
  "wp (serviceTransactionInit S q) (\<lambda>_ t. key (trace t) \<noteq> key (trace s) \<longrightarrow> vetted S (tx_Napas q) (tx_PayerId q) \<and> vetted S (tx_Napas q) (tx_PayeeId q))
     (\<lambda>t. key (trace t) \<noteq> key (trace s) \<longrightarrow> vetted S (tx_Napas q) (tx_PayerId q) \<and> vetted S (tx_Napas q) (tx_PayeeId q)) s"
  unfolding serviceTransactionInit_def wp_bindc [of "init_payer _ _"]
proof (rule does_wp [OF init_payer_vets], goal_cases)
  case (1 r w es)
  show ?case
  proof (cases r)
    case (Inr q')
    with 1 have q': "key es = []" "tx_PayeeId q' = tx_PayeeId q" "tx_Napas q' = tx_Napas q" "vetted S (tx_Napas q) (tx_PayerId q)"
      by (simp_all add: vets_def)
    show ?thesis
      unfolding Inr sum.case wp_bindc [of "init_payee _ _"]
    proof (rule does_wp [OF init_payee_vets], goal_cases)
      case (1 r' w' es')
      then have ok: "vetted S (tx_Napas q) (tx_PayeeId q)" if "r' = Inr q''" for q'' using that q' by (simp add: vets_def)
      show ?case
      proof (cases r')
        case (Inr q'')
        then show ?thesis using ok q'(4) by (auto simp: wp_def split: prod.split outcome.split)
      qed (use 1 q' in \<open>simp add: wp_ret vets_def\<close>)
    qed (use q' in \<open>simp add: vets_def\<close>)
  qed (use 1 in \<open>simp add: wp_ret vets_def\<close>)
qed (simp add: vets_def)

text \<open>
  C37: opening a payment checks its parties.  The transaction service is only called for a payment whose payer and payee are \<open>vetted\<close>: each, if named, is
  at the time of a lookup a user with verified identity who has linked a bank before (this last not asked of a Napas deposit), or the lookup of its profile
  fails, in which case the code skips the check.  In particular, when the lookup of the payer's profile, the first call, answers with a user
  whose identity is not verified, nothing is changed anywhere and the caller gets the error about the identity and no transaction.
\<close>

theorem no_payment_without_kyc:
  assumes "serviceTransactionInit S q s = (r, t)"
  shows "(key (trace t) \<noteq> key (trace s) \<longrightarrow> vetted S (tx_Napas q) (tx_PayerId q) \<and> vetted S (tx_Napas q) (tx_PayeeId q)) \<and>
     (\<forall>u. tx_PayerId q \<noteq> [] \<and> fst (ur_Detail S (tx_PayerId q) (world s)) = Inr (Some u) \<and> us_KYC u \<noteq> ''ACTIVE'' \<longrightarrow>
        r = Ret (None, Some (ErrorString ''Chua xac thuc KYC'')) \<and> trace t = trace s)"
proof (intro conjI allI, goal_cases)
  case 1
  show ?case using serviceTransactionInit_vets [of S q s] assms by (cases r) (auto simp: wp_def)
next
  case (2 u)
  obtain x w where "ur_Detail S (tx_PayerId q) (world s) = (x, w)" by fastforce
  with assms show ?case
    by (auto simp: serviceTransactionInit_def init_payer_def GetProfile_def LinkList_def httpQuery_def bindc_def ask_def ret_def
        split: prod.splits)
qed

theorem no_payment_without_kyc_witness:
  "(\<exists>r t. serviceTransactionInit example_services (ETransactionDTO_zero\<lparr>tx_PayerId := ''U1'', tx_PayeeId := ''U2''\<rparr>) example_state = (r, t) \<and>
     key (trace t) \<noteq> key (trace example_state) \<and> vetted example_services False ''U1'' \<and> vetted example_services False ''U2'') \<and>
   (\<exists>t. serviceTransactionInit (example_services\<lparr>ur_Detail := \<lambda>_ w. (Inr (Some (example_user\<lparr>us_KYC := ''PENDING''\<rparr>)), w)\<rparr>)
       (ETransactionDTO_zero\<lparr>tx_PayerId := ''U1''\<rparr>) example_state = (Ret (None, Some (ErrorString ''Chua xac thuc KYC'')), t) \<and>
     trace t = trace example_state)"
proof
  let ?q = "ETransactionDTO_zero\<lparr>tx_PayerId := ''U1'', tx_PayeeId := ''U2''\<rparr>"
  from fine_run [OF serviceTransactionInit_fine [OF cooperativeD(1) [OF example_cooperative]], of ?q example_state] obtain p t
    where run: "serviceTransactionInit example_services ?q example_state = (Ret (p, None), t)" by auto
  obtain w es where t: "t = appended example_state w es" "initiated ?q (Some (p, None)) (key es)"
    using does_run [OF serviceTransactionInit_does run] by blast
  then have "key (trace t) \<noteq> key (trace example_state)" by (auto simp: initiated_def one_call_def appended_def)
  with run no_payment_without_kyc [OF run] show "\<exists>r t. serviceTransactionInit example_services ?q example_state = (r, t) \<and>
     key (trace t) \<noteq> key (trace example_state) \<and> vetted example_services False ''U1'' \<and> vetted example_services False ''U2''"
    by (simp add: ETransactionDTO_zero_def)
next
  let ?S = "example_services\<lparr>ur_Detail := \<lambda>_ w. (Inr (Some (example_user\<lparr>us_KYC := ''PENDING''\<rparr>)), w)\<rparr>"
  let ?q = "ETransactionDTO_zero\<lparr>tx_PayerId := ''U1''\<rparr>"
  obtain r t where "serviceTransactionInit ?S ?q example_state = (r, t)" by fastforce
  with no_payment_without_kyc [of ?S ?q example_state r t]
  show "\<exists>t. serviceTransactionInit ?S ?q example_state = (Ret (None, Some (ErrorString ''Chua xac thuc KYC'')), t) \<and> trace t = trace example_state"
    by simp
qed

text \<open>
  Opening a payment calls the transaction service at most once, also when publishing the result
  panics, and with the amount, parties, order, voucher, discount, type and source of funds of the request, in
  status PROCESSING; a transaction is returned without an error only when the transaction service
  created it.
\<close>

theorem payment_opened_once:
  assumes "serviceTransactionInit S q s = (r, t)"
  shows "\<exists>es. trace t = trace s @ es \<and>
     (key es = [] \<and> (\<forall>p. r \<noteq> Ret (p, None)) \<or>
      (\<exists>q' x. key es = [EvInit q' x] \<and> init_request q q' \<and> (\<forall>p. r = Ret (p, None) \<longrightarrow> (\<exists>t'. x = Inr t' \<and> p = Some t'))))"
proof (cases r)
  case (Ret a)
  from does_run [OF serviceTransactionInit_does assms [unfolded Ret]] obtain w es
    where es: "t = appended s w es" "initiated q (Some a) (key es)" by blast
  show ?thesis
  proof (cases "key es = []")
    case True
    with es Ret show ?thesis by (auto simp: initiated_def one_call_def)
  next
    case False
    with es obtain q' x where "init_request q q'" "key es = [EvInit q' x]" "a = answered x"
      by (auto simp: initiated_def one_call_def)
    with es(1) Ret show ?thesis by (cases x) auto
  qed
next
  case (Panic e)
  then show ?thesis
    using serviceTransactionInit_does [of S q, unfolded does_def, rule_format, of s] assms
    by (fastforce simp: wp_def initiated_def one_call_def)
qed

theorem payment_opened_once_witness:
  "\<exists>r t es. serviceTransactionInit example_services (ETransactionDTO_zero\<lparr>tx_PayerId := ''U1'', tx_Amount := 50000\<rparr>) example_state = (r, t) \<and>
     trace t = trace example_state @ es \<and> length (key es) \<le> 1"
proof -
  obtain r t where "serviceTransactionInit example_services (ETransactionDTO_zero\<lparr>tx_PayerId := ''U1'', tx_Amount := 50000\<rparr>) example_state = (r, t)"
    by fastforce
  moreover from payment_opened_once [OF this] have "\<exists>es. trace t = trace example_state @ es \<and> length (key es) \<le> 1"
    by fastforce
  ultimately show ?thesis by blast
qed

end
