(* ===== verification/TopUp.thy ===== *)
theory TopUp
  imports Examples
begin

text \<open>
  Phone top-up from the wallet, \<open>application/topup_orchestrator.go\<close>: one definition per step
  closure, in the order of the \<open>AddStep\<close> calls.
\<close>

record OrderTopUpRequest =
  tor_OrderRequest :: OrderRequest
  tor_Telco :: string

definition TopUp_order :: "OrderTopUpRequest \<Rightarrow> OrderEntity" where
  "TopUp_order request = (let r = tor_OrderRequest request in OrderEntity_zero\<lparr>
     oe_ServiceID := rq_ServiceID r, oe_UserID := rq_UserID r, oe_SubscribeMerchantID := rq_MerchantID r,
     oe_OrderType := rq_TransType r, oe_SubOrderType := rq_SubTransType r, oe_Amount := rq_Amount r,
     oe_Quantity := rq_Quantity r, oe_SourceOfFund := rq_SourceOfFund r, oe_VoucherCode := rq_VoucherCode r,
     oe_DeviceID := rq_DeviceID r, oe_PhoneTopUp := rq_PhoneTopup r, oe_MerchantCode := rq_MerchantCode r\<rparr>)"

definition TopUp_init_order :: "'w services \<Rightarrow> OrderTopUpRequest \<Rightarrow> ('w st, goerror option) comp" where
  "TopUp_init_order S request = init_order S (TopUp_order request)"

definition TopUp_voucher :: "'w services \<Rightarrow> OrderTopUpRequest \<Rightarrow> ('w st, goerror option) comp" where
  "TopUp_voucher S request = (let r = tor_OrderRequest request in
     use_voucher S (rq_VoucherCode r) (\<lambda>d.
       voucher_request d (rq_Amount r) (rq_SubTransType r) (rq_SourceOfFund r)))"

definition TopUp_payment :: "OrderTopUpRequest \<Rightarrow> OrderEntity \<Rightarrow> int64 \<Rightarrow> string \<Rightarrow> ETransactionDTO" where
  "TopUp_payment request d disc voucher = (let r = tor_OrderRequest request;
     dto = ETransactionDTO_zero\<lparr>
       tx_TransactionType := rq_TransType r, tx_SubTransactionType := SUB_TRANSTYPE_WALLET_TOPUP_CARD,
       tx_ServiceType := SERVICE_TYPE_WALLET, tx_Amount := rq_Amount r, tx_DeviceId := rq_DeviceID r,
       tx_LastAmount := rq_Amount r, tx_VoucherCode := rq_VoucherCode r, tx_AmountDiscount := disc,
       tx_SourceOfFund := rq_SourceOfFund r, tx_PayerId := rq_UserID r, tx_GpayAccountID := GPAY_ACCOUNT_ID,
       tx_GpayTypeWallet := AmountWal, tx_AppId := SUB_TRANSTYPE_WALLET_TOPUP_CARD, tx_VoucherID := voucher,
       tx_OrderId := oe_OrderID d, tx_RefId := rq_RefID r\<rparr>
     in if rq_MerchantID r \<noteq> []
        then dto\<lparr>tx_SubscriberMerchantID := rq_MerchantID r, tx_SubscriberMerchantTypeWallet := AmountCash\<rparr>
        else dto)"

definition TopUp_init_payment :: "'w services \<Rightarrow> OrderTopUpRequest \<Rightarrow> ('w st, goerror option) comp" where
  "TopUp_init_payment S request =
     bindc the_order (\<lambda>d. bindc (gets discount) (\<lambda>disc. bindc (gets voucherId) (\<lambda>v.
       init_trans S True (TopUp_payment request d disc v))))"

definition TopUp_req :: "OrderTopUpRequest \<Rightarrow> OrderEntity \<Rightarrow> ETransactionDTO \<Rightarrow> TopupReq" where
  "TopUp_req request d t = (let r = tor_OrderRequest request in
     \<lparr>tu_Price = rq_Amount r, tu_Telco = tor_Telco request, tu_Phone = rq_PhoneTopup r,
      tu_UserId = rq_UserID r, tu_OrderId = oe_OrderID d, tu_SubTransType = rq_SubTransType r,
      tu_TransactionId = tx_TransactionId t\<rparr>)"

definition TopUp_provider :: "'w services \<Rightarrow> OrderTopUpRequest \<Rightarrow> ('w st, goerror option) comp" where
  "TopUp_provider S request =
     bindc the_order (\<lambda>d. bindc the_trans (\<lambda>t.
     bindc (act (cs_Topup S (TopUp_req request d t)) (EvTopup (TopUp_req request d t))) (\<lambda>r. case r of
       Inl e \<Rightarrow> thenc (set_failReason (Error e)) (ret (Some ErrFailOrder))
     | Inr topUpRes \<Rightarrow>
         thenc (modify (\<lambda>s. s\<lparr>providerMerchantId := tur_ProviderMerchantId topUpRes\<rparr>))
         (if tur_Status topUpRes = TRANSACTION_STATUS_PENDING
          then thenc (modify (\<lambda>s. s\<lparr>isPendingSrvCard := True\<rparr>)) (ret (Some ErrPendingOrder))
          else ret None))))"

definition TopUp_confirm :: "'w services \<Rightarrow> ('w st, goerror option) comp" where
  "TopUp_confirm S = confirm_trans S (\<lambda>s t. t\<lparr>tx_ProviderMerchantID := providerMerchantId s\<rparr>)"

definition TopUp_steps :: "'w services \<Rightarrow> OrderTopUpRequest \<Rightarrow> 'w st step_def list" where
  "TopUp_steps S request =
     [(''INIT_ORDER'', TopUp_init_order S request, comp_order S),
      (''PROCESSING_ORDER'', assign_order (ProcessingOrder S), comp_order S),
      (''ACCOUNT_VOUCHER'', TopUp_voucher S request, comp_voucher S True),
      (''INIT_PAYMENT'', TopUp_init_payment S request, comp_init_payment S with_reason internal_err),
      (''TOP_UP'', TopUp_provider S request, comp_provider S isPendingSrvCard as_is with_reason internal_err),
      (''FINALIZATION_PAYMENT'', TopUp_confirm S, comp_pending S True as_is),
      (''SUCCESS_ORDER'', success_order S, comp_pending S False as_is)]"

definition TopUp :: "'w services \<Rightarrow> OrderTopUpRequest \<Rightarrow> ('w st, OrderEntity option \<times> goerror option) comp" where
  "TopUp S request =
     thenc (modify (fresh_vars None)) (orchestrate S ''TopUpActionAccount'' (TopUp_steps S request))"

subsection \<open>A top-up that succeeds\<close>

lemma TopUp_init_payment_succeeds:
  assumes "\<And>d q t w es. order_dto s = Some d \<Longrightarrow> init_request (TopUp_payment request d (discount s) (voucherId s)) q \<Longrightarrow>
     key es = [EvInit q (Inr t)] \<Longrightarrow> R ((appended s w es)\<lparr>trans := Some t\<rparr>)"
  shows "succeeds (TopUp_init_payment S request) R s"
  unfolding TopUp_init_payment_def wp_bindc wp_the_order wp_gets
  by (auto split: option.split intro!: init_trans_succeeds assms)

lemma TopUp_provider_succeeds:
  assumes "\<And>d t p w es. order_dto s = Some d \<Longrightarrow> trans s = Some t \<Longrightarrow> tur_Status p \<noteq> TRANSACTION_STATUS_PENDING \<Longrightarrow>
     es = [EvTopup (TopUp_req request d t) (Inr p)] \<Longrightarrow>
     R ((appended s w es)\<lparr>providerMerchantId := tur_ProviderMerchantId p\<rparr>)"
  shows "succeeds (TopUp_provider S request) R s"
  using assms by (auto simp: TopUp_provider_def wp_rules appended_def split: option.split sum.split)

text \<open>What the outside has seen of a top-up that went well, and the order that is returned.\<close>

definition TopUp_done :: "OrderTopUpRequest \<Rightarrow> event list \<Rightarrow> OrderEntity \<Rightarrow> bool" where
  "TopUp_done request evs d \<longleftrightarrow> (\<exists>d0 d1 f1 n1 vs q t p c c' f2 n2 disc v.
     evs = EvInsertOrder d0 None # EvReplaceOrder f1 d1 (Inr (Suc n1)) # vs @
       [EvInit q (Inr t), EvTopup (TopUp_req request d1 t) (Inr p), EvConfirm c (Inr c'),
        EvReplaceOrder f2 d (Inr (Suc n2))] \<and>
     (\<exists>now oid. d0 = initial_order (TopUp_order request) now oid) \<and>
     restamped ORDER_PROCESSING d0 d1 \<and> restamped ORDER_SUCCESS d1 d \<and>
     init_request (TopUp_payment request d1 disc v) q \<and>
     tur_Status p \<noteq> TRANSACTION_STATUS_PENDING \<and>
     c = t\<lparr>tx_ProviderMerchantID := tur_ProviderMerchantId p\<rparr> \<and>
     voucher_used (rq_VoucherCode (tor_OrderRequest request)) d1 disc v vs)"

lemma TopUp_steps_succeed:
  "started None s s' \<Longrightarrow> succeeds (run_steps (TopUp_steps S request) [])
     (\<lambda>t. \<exists>d evs. order_dto t = Some d \<and> key (trace t) = key (trace s) @ evs \<and> TopUp_done request evs d \<and>
        resp_OrderEntity t = Some (ConvertToProto d)) s'"
  unfolding TopUp_steps_def TopUp_init_order_def TopUp_voucher_def TopUp_confirm_def Let_def
  by (intro succeeds_Cons succeeds_Nil init_order_succeeds assign_order_succeeds [OF ProcessingOrder_does]
      use_voucher_succeeds TopUp_init_payment_succeeds TopUp_provider_succeeds confirm_trans_succeeds
      success_order_succeeds)
    (auto simp: TopUp_done_def voucher_used_def started_sel voucher_request_def)

lemma TopUp_wp:
  assumes "fresh_execution S s"
    and "\<And>s'. started None s s' \<Longrightarrow> fresh_execution S s' \<Longrightarrow>
      wp (orchestrate S ''TopUpActionAccount'' (TopUp_steps S request)) Q E s'"
  shows "wp (TopUp S request) Q E s"
  unfolding TopUp_def wp_bindc wp_modify by (rule assms(2) [OF started_refl]) (simp add: assms(1))

subsection \<open>At most once, and in order\<close>

lemma TopUp_atmost_steps [atmost_rules]:
  "(\<And>d x. A (EvInsertOrder d x) \<Longrightarrow> 0 < n) \<Longrightarrow> atmost A n (TopUp_init_order S request)"
  "(\<And>u x. A (EvUseVoucher u x) \<Longrightarrow> 0 < n) \<Longrightarrow> atmost A n (TopUp_voucher S request)"
  "(\<And>q x. A (EvInit q x) \<Longrightarrow> 0 < n) \<Longrightarrow> atmost A n (TopUp_init_payment S request)"
  "(\<And>t x. A (EvConfirm t x) \<Longrightarrow> 0 < n) \<Longrightarrow> atmost A n (TopUp_confirm S)"
  unfolding TopUp_init_order_def TopUp_voucher_def TopUp_init_payment_def TopUp_confirm_def Let_def
  by (intro atmost_rules; simp)+

lemma TopUp_atmost_provider [atmost_rules]:
  "(\<And>u x. A (EvTopup u x) \<Longrightarrow> 0 < n) \<Longrightarrow> atmost A n (TopUp_provider S request)"
  unfolding TopUp_provider_def
  by (rule atmost_bindc, rule atmost_statements, rule atmost_bindc, rule atmost_statements, rule atmost_bindc_left)
    (auto simp: Suc_le_eq intro!: atmost_rules)

lemma TopUp_run_once:
  "atmost is_insert 1 (run_steps (TopUp_steps S request) [])"
  "atmost is_provider 1 (run_steps (TopUp_steps S request) [])"
  "atmost is_init 1 (run_steps (TopUp_steps S request) [])"
  "atmost is_confirm 1 (run_steps (TopUp_steps S request) [])"
  "atmost is_voucher 1 (run_steps (TopUp_steps S request) [])"
  unfolding TopUp_steps_def
      apply (rule atmost_run_named [where k = "\<lambda>n. of_bool (n = ''INIT_ORDER'')"]; auto intro!: atmost_rules)
     apply (rule atmost_run_named [where k = "\<lambda>n. of_bool (n = ''TOP_UP'')"]; auto intro!: atmost_rules)
    apply (rule atmost_run_named [where k = "\<lambda>n. of_bool (n = ''INIT_PAYMENT'')"]; auto intro!: atmost_rules)
   apply (rule atmost_run_named [where k = "\<lambda>n. of_bool (n = ''FINALIZATION_PAYMENT'')"]; auto intro!: atmost_rules)
  apply (rule atmost_run_named [where k = "\<lambda>n. of_bool (n = ''ACCOUNT_VOUCHER'')"]; auto intro!: atmost_rules)
  done

lemma TopUp_once:
  assumes "fresh_execution S s" and "A \<in> {is_insert, is_provider, is_init, is_confirm, is_voucher}"
  shows "wp (TopUp S request) (\<lambda>_. adds A 1 s) (adds A 1 s) s"
  by (rule TopUp_wp [OF assms(1)], erule (1) orchestrate_started_atmost) (use assms(2) TopUp_run_once in auto)

lemma TopUp_provider_guards: "guards is_confirm provider_accepted (TopUp_provider S request)"
  unfolding guards_def TopUp_provider_def
  by (auto simp: wp_rules adds_def split: option.split sum.split)

lemma TopUp_split: "TopUp_steps S request =
     take 4 (TopUp_steps S request) @
     (''TOP_UP'', TopUp_provider S request, comp_provider S isPendingSrvCard as_is with_reason internal_err) #
     drop 5 (TopUp_steps S request)"
  by (simp add: TopUp_steps_def)

lemma TopUp_confirm_ordered:
  assumes "fresh_execution S s"
  shows "wp (TopUp S request) (\<lambda>_. ordered is_confirm provider_accepted s) (ordered is_confirm provider_accepted s) s"
  by (rule TopUp_wp [OF assms], erule (1) orchestrate_started_ordered, rule TopUp_split)
    (auto simp: TopUp_provider_guards TopUp_steps_def intro!: atmost_rules)

lemma TopUp_error_settles:
  assumes "fresh_execution S s"
  shows "wp (TopUp S request) (\<lambda>(p, err) _. err \<noteq> None \<longrightarrow> (\<exists>d. p = Some d \<and> settled d)) (\<lambda>_. True) s"
  by (rule TopUp_wp [OF assms], erule orchestrate_settles, rule TopUp_steps_def, rule comp_order_settles)

subsection \<open>Progress\<close>

lemma TopUp_provider_goes:
  assumes "cooperative S" "order_dto s \<noteq> None" "trans s \<noteq> None"
    and "\<And>m w es. R ((appended s w es)\<lparr>providerMerchantId := m\<rparr>)"
  shows "goes (TopUp_provider S request) R s"
proof -
  have call: "fine (act (cs_Topup S q) ev) (\<lambda>r. \<exists>p. r = Inr p \<and> tur_Status p \<noteq> TRANSACTION_STATUS_PENDING)" for q ev
    by (rule fine_act) (rule cooperativeD(2) [OF assms(1)])
  show ?thesis
    unfolding TopUp_provider_def wp_bindc wp_the_order wp_the_trans using assms(2-)
    by (auto split: option.split intro!: fine_wp [OF call]) (simp add: wp_rules)
qed

lemma TopUp_init_payment_goes:
  assumes "obliging S" "order_dto s \<noteq> None" and "\<And>t w es. R ((appended s w es)\<lparr>trans := Some t\<rparr>)"
  shows "goes (TopUp_init_payment S request) R s"
  unfolding TopUp_init_payment_def wp_bindc wp_the_order wp_gets
  using assms by (auto split: option.split intro!: init_trans_goes)

lemma TopUp_steps_go:
  assumes "cooperative S"
  shows "goes (run_steps (TopUp_steps S request) []) (\<lambda>t. order_dto t \<noteq> None) s"
  unfolding TopUp_steps_def TopUp_init_order_def TopUp_voucher_def TopUp_confirm_def Let_def
  by (intro goes_Cons goes_Nil init_order_goes assign_order_goes [OF order_ops_fine(1)] use_voucher_goes
      TopUp_init_payment_goes TopUp_provider_goes confirm_trans_goes success_order_goes assms cooperativeD(1) [OF assms(1)])
    (simp_all add: TopUp_order_def OrderEntity_zero_def Let_def)

lemma TopUp_progress:
  assumes "cooperative S" and "fresh_execution S s"
  shows "\<exists>d t. TopUp S request s = (Ret (Some d, None), t)"
proof -
  have "\<exists>d t. orchestrate S ''TopUpActionAccount'' (TopUp_steps S request) (fresh_vars None s) = (Ret (Some d, None), t)"
    by (rule orchestrate_goes) (simp add: assms, rule TopUp_steps_go [OF assms(1)])
  then show ?thesis by (simp add: TopUp_def bindc_def)
qed

subsection \<open>A provider that has not decided\<close>

lemma TopUp_provider_pending:
  "wp (TopUp_provider S request) (\<lambda>err u. adds provider_pending 0 t u \<or>
     (err = Some ErrPendingOrder \<and> isPendingSrvCard u \<and> adds gives_up 0 t u)) (adds provider_pending 0 t) t"
  by (auto simp: TopUp_provider_def wp_rules adds_def split: option.split sum.split)

lemma TopUp_stays_open:
  assumes "fresh_execution S s"
  shows "wp (TopUp S request) (\<lambda>(p, err) u. adds provider_pending 0 s u \<or> (\<exists>e. err = Some e \<and> e = ErrPendingOrder \<and> still s u))
     (\<lambda>u. adds provider_pending 0 s u \<or> still s u) s"
  by (rule TopUp_wp [OF assms], erule (1) orchestrate_started_open [where Pe = "\<lambda>e. e = ErrPendingOrder"], rule TopUp_split, rule comp_provider_parks)
    (use TopUp_provider_pending in \<open>auto simp: TopUp_steps_def intro!: atmost_rules patient_comps\<close>)

subsection \<open>Runs on other days\<close>

lemma TopUp_provider_refused:
  assumes "order_dto s \<noteq> None" "trans s \<noteq> None" "\<not> isPendingSrvCard s"
  shows "wp (TopUp_provider declining_services request)
     (\<lambda>err t. (\<exists>e. err = Some e) \<and> has_order t \<and> trans t \<noteq> None \<and> \<not> isPendingSrvCard t) (\<lambda>_. False) s"
  using assms by (auto simp: TopUp_provider_def wp_rules has_order_def declining_services_def split: option.split)

lemma TopUp_provider_meets:
  assumes "order_dto s \<noteq> None" "trans s \<noteq> None" "\<exists>es. trace s = trace s0 @ es"
  shows "wp (TopUp_provider pending_services request)
     (\<lambda>err t. err \<noteq> None \<and> meets provider_pending s0 t) (meets provider_pending s0) s"
  using assms by (auto simp: TopUp_provider_def wp_rules meets_def pending_services_def conj_disj_distribR ex_disj_distrib
      split: option.split)

lemma TopUp_declined:
  "\<exists>d e t. TopUp declining_services request example_state = (Ret (Some d, Some e), t)"
proof -
  note S = other_days_obliging(1)
  have "wp (run_steps (TopUp_steps declining_services request) []) (\<lambda>err t. err \<noteq> None \<and> has_order t) (\<lambda>_. False)
      ((fresh_vars None example_state)\<lparr>world := w\<rparr>)" for w
    unfolding TopUp_steps_def TopUp_init_order_def TopUp_voucher_def Let_def
    by (intro goes_then init_order_goes assign_order_goes [OF order_ops_fine(1)] use_voucher_goes
        TopUp_init_payment_goes refused_step TopUp_provider_refused S)
      (auto simp: TopUp_order_def OrderEntity_zero_def Let_def fresh_vars_def intro!: comps_return [OF S])
  from orchestrate_refused [OF _ this] show ?thesis
    by (auto simp: TopUp_def bindc_def example_fresh)
qed

lemma TopUp_undecided:
  "\<exists>r t es. TopUp pending_services request example_state = (r, t) \<and> trace t = trace example_state @ es \<and>
     (\<exists>e \<in> set (key es). provider_pending e)"
proof (rule run_meets, rule TopUp_wp [OF example_fresh])
  fix s' assume s': "started None example_state s'" "fresh_execution pending_services s'"
  note S = other_days_obliging(2)
  have "wp (run_steps (TopUp_steps pending_services request) []) (\<lambda>_. meets provider_pending s') (meets provider_pending s') (s'\<lparr>world := w\<rparr>)" for w
    unfolding TopUp_steps_def TopUp_init_order_def TopUp_voucher_def Let_def
    by (intro goes_then init_order_goes assign_order_goes [OF order_ops_fine(1)] use_voucher_goes
        TopUp_init_payment_goes meets_step TopUp_provider_meets S)
      (auto simp: TopUp_order_def OrderEntity_zero_def Let_def intro!: atmost_rules)
  from orchestrate_meets [OF s'(2) this]
  show "wp (orchestrate pending_services ''TopUpActionAccount'' (TopUp_steps pending_services request))
     (\<lambda>_. meets provider_pending example_state) (meets provider_pending example_state) s'"
    by (rule wp_mono) (auto intro: meets_started [OF s'(1)])
qed

subsection \<open>Properties\<close>

definition example_topup :: OrderTopUpRequest where
  "example_topup = \<lparr>tor_OrderRequest = example_request, tor_Telco = ''viettel''\<rparr>"



text \<open>
  C6: whatever the other services answer, a run of the top-up, also one that panics, stores at most one new
  order, uses at most one voucher, opens at most one payment, asks the provider at most once and
  confirms at most once, and it confirms only after the provider has accepted.  Nothing is said of how often the transaction
  is updated or cancelled and the order replaced: several compensations do so.
\<close>

theorem TopUp_disciplined:
  assumes "fresh_execution S s" and "TopUp S request s = (r, t)"
  shows "\<exists>es. trace t = trace s @ es \<and>
     (\<forall>A \<in> {is_insert, is_provider, is_init, is_confirm, is_voucher}. length (filter A (key es)) \<le> 1) \<and>
     (\<forall>i < length (key es). is_confirm (key es ! i) \<longrightarrow> (\<exists>j < i. provider_accepted (key es ! j)))"
  by (rule run_disciplined [OF assms(2) TopUp_once [OF assms(1)] TopUp_confirm_ordered [OF assms(1)]])

theorem TopUp_disciplined_witness:
  "\<exists>r t es. TopUp declining_services example_topup example_state = (r, t) \<and> trace t = trace example_state @ es \<and>
     (\<forall>i < length (key es). is_confirm (key es ! i) \<longrightarrow> (\<exists>j < i. provider_accepted (key es ! j)))"
  using TopUp_declined [of example_topup] TopUp_disciplined [OF example_fresh] by meson

text \<open>
  C7: a top-up that returns an error returns the order, and that order has been failed, or is kept for
  verification: it is never left pending, processing or successful.
\<close>

theorem TopUp_settles:
  assumes "fresh_execution S s" and "TopUp S request s = (Ret (p, Some e), t)"
  shows "\<exists>d. p = Some d \<and> oe_Status d \<in> {ORDER_FAILED, ORDER_VERIFYING}"
  using wp_Ret [OF TopUp_error_settles [OF assms(1)] assms(2)] by (auto simp: settled_statuses)

theorem TopUp_settles_witness:
  "\<exists>p e t d. TopUp declining_services example_topup example_state = (Ret (p, Some e), t) \<and>
     p = Some d \<and> oe_Status d \<in> {ORDER_FAILED, ORDER_VERIFYING}"
  using TopUp_declined [of example_topup] TopUp_settles [OF example_fresh] by meson

text \<open>
  C8: when the provider answers that the top-up is still pending, the run returns the pending error, and neither cancels the
  payment nor fails the order, unless the transaction service has answered an update of the transaction with another status than
  it was sent: the compensations go by the status in that answer.
\<close>

theorem TopUp_stays_pending:
  assumes "fresh_execution S s" "TopUp S request s = (r, t)"
    and "trace t = trace s @ es" "\<exists>e \<in> set (key es). provider_pending e"
  shows "((\<exists>e \<in> set (key es). contradicts e) \<or> (\<forall>e \<in> set (key es). \<not> gives_up e)) \<and>
     (\<forall>p err. r = Ret (p, err) \<longrightarrow> err = Some ErrPendingOrder)"
  using run_stays_open [OF TopUp_stays_open [OF assms(1)] assms(2-)] by auto

theorem TopUp_stays_pending_witness:
  "\<exists>r t es. TopUp pending_services example_topup example_state = (r, t) \<and> trace t = trace example_state @ es \<and>
     (\<exists>e \<in> set (key es). provider_pending e) \<and> ((\<exists>e \<in> set (key es). contradicts e) \<or> (\<forall>e \<in> set (key es). \<not> gives_up e))"
  using TopUp_undecided [of example_topup] TopUp_stays_pending [OF example_fresh] by meson

text \<open>
  C9: when the database stores, the other services accept and the user is verified, every top-up request
  succeeds: no step fails and nothing panics.
\<close>

theorem TopUp_progresses:
  assumes "cooperative S" and "fresh_execution S s"
  shows "\<exists>d t. TopUp S request s = (Ret (Some d, None), t)"
  using assms by (rule TopUp_progress)

theorem TopUp_progresses_witness:
  "\<exists>d t. TopUp example_services example_topup example_state = (Ret (Some d, None), t)"
  by (rule TopUp_progresses [OF example_cooperative example_fresh])

end
