(* ===== verification/Transfers.thy ===== *)
theory Transfers
  imports Examples
begin

text \<open>
  Transfers out of a wallet: to a bank account by the user (\<open>application/ibft_transfer_orchestrator.go\<close>)
  or on behalf of a merchant (\<open>fund_wal2bank_orchestrator.go\<close>), and to another wallet
  (\<open>fund_wal2wal_orchestrator.go\<close>).  The bank transfers share the step around \<open>IBFTTransfer\<close>.
\<close>

text \<open>\<open>errors.New\<close> for a transfer that the bank is still verifying.\<close>

definition transfer_pending :: "BankRes \<Rightarrow> ('w st, goerror) comp" where
  "transfer_pending _ = ret (ErrorString ''Giao dich dang cho xu li'')"

definition ibft_type :: "string \<Rightarrow> string" where
  "ibft_type cardNo = (if cardNo = [] then ''ACCOUNT'' else ''CARD'')"

subsection \<open>IBFTransfer\<close>

record IBFTTransferRequest =
  itr_OrderRequest :: OrderRequest
  itr_AccountNo :: string
  itr_CardNo :: string
  itr_IbftCode :: string
  itr_Description :: string

definition IBFTransfer_order :: "IBFTTransferRequest \<Rightarrow> OrderEntity" where
  "IBFTransfer_order request = (let r = itr_OrderRequest request in OrderEntity_zero\<lparr>
     oe_ServiceID := rq_ServiceID r, oe_UserID := rq_UserID r, oe_OrderType := rq_TransType r,
     oe_SubOrderType := rq_SubTransType r, oe_Amount := rq_Amount r, oe_SourceOfFund := rq_SourceOfFund r,
     oe_VoucherCode := rq_VoucherCode r, oe_DeviceID := rq_DeviceID r, oe_BankCode := GPAY_VCCB\<rparr>)"

definition IBFTransfer_voucher :: "'w services \<Rightarrow> IBFTTransferRequest \<Rightarrow> ('w st, goerror option) comp" where
  "IBFTransfer_voucher S request = (let r = itr_OrderRequest request in
     use_voucher S (rq_VoucherCode r) (\<lambda>d. voucher_request d (rq_Amount r) (rq_ServiceID r) []))"

definition IBFTransfer_payment :: "IBFTTransferRequest \<Rightarrow> OrderEntity \<Rightarrow> int64 \<Rightarrow> string \<Rightarrow> ETransactionDTO" where
  "IBFTransfer_payment request d disc voucher = (let r = itr_OrderRequest request in ETransactionDTO_zero\<lparr>
     tx_TransactionType := TRANSTYPE_WALLET_TRANS2BANK, tx_ServiceType := SERVICE_TYPE_WALLET,
     tx_TypeWallet := AmountCash, tx_Amount := rq_Amount r, tx_DeviceId := rq_DeviceID r,
     tx_LastAmount := rq_Amount r, tx_SourceOfFund := SOURCE_OF_FUND_BALANCE_WALLET,
     tx_PayerId := rq_UserID r, tx_GpayAccountID := GPAY_ACCOUNT_ID, tx_GpayTypeWallet := AmountWal,
     tx_AppId := TRANSTYPE_WALLET_TRANS2BANK, tx_OrderId := oe_OrderID d, tx_VoucherCode := voucher,
     tx_BankCode := VCCB, tx_AmountDiscount := disc, tx_BankTypeWallet := AmountCollectionPay,
     tx_Message := itr_Description request, tx_CardNo := itr_CardNo request,
     tx_AccountNo := itr_AccountNo request, tx_IbftType := ibft_type (itr_CardNo request)\<rparr>)"

definition IBFTransfer_init_payment :: "'w services \<Rightarrow> IBFTTransferRequest \<Rightarrow> ('w st, goerror option) comp" where
  "IBFTransfer_init_payment S request =
     bindc the_order (\<lambda>d. bindc (gets discount) (\<lambda>disc. bindc (gets voucherId) (\<lambda>v.
       init_trans S False (IBFTransfer_payment request d disc v))))"

definition IBFTransfer_bank :: "'w services \<Rightarrow> IBFTTransferRequest \<Rightarrow> ('w st, goerror option) comp" where
  "IBFTransfer_bank S request =
     bindc the_order (\<lambda>d.
     bank_step (bank_IBFTTransfer S (itr_AccountNo request) (itr_CardNo request)
         (rq_UserID (itr_OrderRequest request)) (oe_OrderID d) (itr_IbftCode request)
         (itr_Description request) (rq_Amount (itr_OrderRequest request)) [])
       transfer_pending (\<lambda>_. ret ()))"

definition IBFTransfer_reserve :: "'w services \<Rightarrow> IBFTTransferRequest \<Rightarrow> 'w st step_def list" where
  "IBFTransfer_reserve S request =
     [(''INIT_ORDER'', init_order S (IBFTransfer_order request), comp_order S),
      (''PROCESSING_ORDER'', assign_order (ProcessingOrder S), comp_order S),
      (''ACCOUNT_VOUCHER'', IBFTransfer_voucher S request, comp_voucher S True),
      (''INIT_PAYMENT'', IBFTransfer_init_payment S request, comp_init_payment S with_reason internal_err)]"

definition IBFTransfer_finish :: "'w services \<Rightarrow> 'w st step_def list" where
  "IBFTransfer_finish S =
     [(''FINALIZATION_PAYMENT'', confirm_trans S with_bank_id, comp_pending S False with_bank_id),
      (''SUCCESS_ORDER'', success_order S, comp_pending S False as_is)]"

definition IBFTransfer_steps :: "'w services \<Rightarrow> IBFTTransferRequest \<Rightarrow> 'w st step_def list" where
  "IBFTransfer_steps S request =
     IBFTransfer_reserve S request @
     (''IBFT TRANSFER'', IBFTransfer_bank S request,
        comp_provider S isTimeOutBank with_bank_id with_bank_reason internal_err) #
     IBFTransfer_finish S"

definition IBFTransfer :: "'w services \<Rightarrow> IBFTTransferRequest \<Rightarrow> ('w st, OrderEntity option \<times> goerror option) comp" where
  "IBFTransfer S request =
     thenc (modify (fresh_vars None)) (orchestrate S ''IBFT TRANSFER Action'' (IBFTransfer_steps S request))"

subsection \<open>FundWal2Bank\<close>

record FundWallet2BankRequest =
  fwb_OrderRequest :: OrderRequest
  fwb_BankCode :: string
  fwb_BankName :: string
  fwb_AccountNo :: string
  fwb_CardNo :: string
  fwb_IbftCode :: string
  fwb_Description :: string

definition FundWal2Bank_order :: "FundWallet2BankRequest \<Rightarrow> OrderEntity" where
  "FundWal2Bank_order request = (let r = fwb_OrderRequest request in OrderEntity_zero\<lparr>
     oe_ServiceID := rq_ServiceID r, oe_UserID := rq_UserID r, oe_SubscribeMerchantID := rq_MerchantID r,
     oe_OrderType := rq_TransType r, oe_SubOrderType := rq_SubTransType r, oe_Amount := rq_Amount r,
     oe_Quantity := rq_Quantity r, oe_SourceOfFund := rq_SourceOfFund r, oe_VoucherCode := rq_VoucherCode r,
     oe_DeviceID := rq_DeviceID r, oe_PhoneTopUp := rq_PhoneTopup r, oe_BankCode := fwb_BankCode request,
     oe_MerchantCode := rq_MerchantCode r\<rparr>)"

definition FundWal2Bank_payment :: "FundWallet2BankRequest \<Rightarrow> OrderEntity \<Rightarrow> int64 \<Rightarrow> string \<Rightarrow> ETransactionDTO" where
  "FundWal2Bank_payment request d disc voucher = (let r = fwb_OrderRequest request;
     dto = ETransactionDTO_zero\<lparr>
       tx_TransactionType := TRANSTYPE_BEHALF_PAY_WALLET_TO_BANK, tx_ServiceType := SERVICE_TYPE_COLLECTION_AND_PAY,
       tx_Amount := rq_Amount r, tx_DeviceId := rq_DeviceID r, tx_LastAmount := rq_Amount r,
       tx_VoucherCode := rq_VoucherCode r, tx_SourceOfFund := SOURCE_OF_FUND_BALANCE_WALLET,
       tx_GpayAccountID := GPAY_ACCOUNT_ID, tx_GpayTypeWallet := AmountWal,
       tx_AppId := TRANSTYPE_BEHALF_PAY_WALLET_TO_BANK, tx_VoucherID := voucher, tx_AmountDiscount := disc,
       tx_OrderId := oe_OrderID d, tx_RefId := rq_RefID r, tx_Message := fwb_Description request,
       tx_CardNo := fwb_CardNo request, tx_AccountNo := fwb_AccountNo request, tx_BankCode := VCCB,
       tx_BankTypeWallet := AmountCollectionPay, tx_IbftReceiveBank := fwb_BankCode request,
       tx_IbftType := ibft_type (fwb_CardNo request)\<rparr>
     in if rq_MerchantID r \<noteq> [] then dto\<lparr>tx_MerchantID := rq_MerchantID r, tx_MerchantTypeWallet := AmountCash\<rparr>
        else dto)"

definition FundWal2Bank_init_payment :: "'w services \<Rightarrow> FundWallet2BankRequest \<Rightarrow> ('w st, goerror option) comp" where
  "FundWal2Bank_init_payment S request =
     link_order (bindc the_order (\<lambda>d. bindc (gets discount) (\<lambda>disc. bindc (gets voucherId) (\<lambda>v.
       init_trans S False (FundWal2Bank_payment request d disc v)))))"

definition FundWal2Bank_bank :: "'w services \<Rightarrow> FundWallet2BankRequest \<Rightarrow> ('w st, goerror option) comp" where
  "FundWal2Bank_bank S request =
     bindc the_order (\<lambda>d.
     bank_step (bank_IBFTTransfer S (fwb_AccountNo request) (fwb_CardNo request)
         (rq_MerchantID (fwb_OrderRequest request)) (oe_OrderID d) (fwb_IbftCode request)
         (fwb_Description request) (rq_Amount (fwb_OrderRequest request)) (fwb_BankName request))
       transfer_pending (\<lambda>_. ret ()))"

definition FundWal2Bank_reserve :: "'w services \<Rightarrow> FundWallet2BankRequest \<Rightarrow> 'w st step_def list" where
  "FundWal2Bank_reserve S request =
     [(''INIT_ORDER'', init_order S (FundWal2Bank_order request), comp_order S),
      (''PROCESSING_ORDER'', assign_order (ProcessingOrder S), comp_order S),
      (''INIT_PAYMENT'', FundWal2Bank_init_payment S request, comp_init_payment S with_bank_reason order_as_is)]"

definition FundWal2Bank_finish :: "'w services \<Rightarrow> 'w st step_def list" where
  "FundWal2Bank_finish S =
     [(''FINALIZATION_PAYMENT'', confirm_trans S with_bank_id, comp_pending S False as_is),
      (''SUCCESS_ORDER'', success_order S, comp_pending S False as_is)]"

definition FundWal2Bank_steps :: "'w services \<Rightarrow> FundWallet2BankRequest \<Rightarrow> 'w st step_def list" where
  "FundWal2Bank_steps S request =
     FundWal2Bank_reserve S request @
     (''IBFT TRANSFER'', FundWal2Bank_bank S request,
        comp_provider S isTimeOutBank with_bank_id with_bank_reason internal_err) #
     FundWal2Bank_finish S"

definition FundWal2Bank :: "'w services \<Rightarrow> FundWallet2BankRequest \<Rightarrow> ('w st, OrderEntity option \<times> goerror option) comp" where
  "FundWal2Bank S request =
     thenc (modify (fresh_vars None)) (orchestrate S ''Fund WAL2BANK'' (FundWal2Bank_steps S request))"

subsection \<open>FundWal2Wal\<close>

record FundWallet2WalletRequest =
  fww_OrderRequest :: OrderRequest
  fww_Description :: string

definition FundWal2Wal_order :: "FundWallet2WalletRequest \<Rightarrow> OrderEntity" where
  "FundWal2Wal_order request = (let r = fww_OrderRequest request in OrderEntity_zero\<lparr>
     oe_ServiceID := rq_ServiceID r, oe_UserID := rq_UserID r, oe_SubscribeMerchantID := rq_MerchantID r,
     oe_OrderType := rq_TransType r, oe_SubOrderType := rq_SubTransType r, oe_Amount := rq_Amount r,
     oe_Quantity := rq_Quantity r, oe_SourceOfFund := rq_SourceOfFund r, oe_VoucherCode := rq_VoucherCode r,
     oe_DeviceID := rq_DeviceID r, oe_MerchantCode := rq_MerchantCode r\<rparr>)"

definition FundWal2Wal_voucher :: "'w services \<Rightarrow> FundWallet2WalletRequest \<Rightarrow> ('w st, goerror option) comp" where
  "FundWal2Wal_voucher S request = (let r = fww_OrderRequest request in
     use_voucher S (rq_VoucherCode r) (\<lambda>d. voucher_request d (rq_Amount r) (rq_ServiceID r) []))"

definition FundWal2Wal_payment :: "FundWallet2WalletRequest \<Rightarrow> OrderEntity \<Rightarrow> string \<Rightarrow> ETransactionDTO" where
  "FundWal2Wal_payment request d voucher = (let r = fww_OrderRequest request;
     dto = ETransactionDTO_zero\<lparr>
       tx_TransactionType := TRANSTYPE_BEHALF_PAY_WALLET_TO_WALLET, tx_ServiceType := SERVICE_TYPE_COLLECTION_AND_PAY,
       tx_Amount := rq_Amount r, tx_DeviceId := rq_DeviceID r, tx_LastAmount := rq_Amount r,
       tx_VoucherCode := rq_VoucherCode r, tx_SourceOfFund := SOURCE_OF_FUND_BALANCE_WALLET,
       tx_GpayAccountID := GPAY_ACCOUNT_ID, tx_TypeWallet := AmountCash,
       tx_AppId := TRANSTYPE_BEHALF_PAY_WALLET_TO_WALLET, tx_VoucherID := voucher,
       tx_OrderId := oe_OrderID d, tx_RefId := rq_RefID r, tx_Message := fww_Description request,
       tx_PayeeId := rq_UserID r\<rparr>
     in if rq_MerchantID r \<noteq> [] then dto\<lparr>tx_MerchantID := rq_MerchantID r, tx_MerchantTypeWallet := AmountCash\<rparr>
        else dto)"

definition FundWal2Wal_init_payment :: "'w services \<Rightarrow> FundWallet2WalletRequest \<Rightarrow> ('w st, goerror option) comp" where
  "FundWal2Wal_init_payment S request =
     link_order (bindc the_order (\<lambda>d. bindc (gets voucherId) (\<lambda>v.
       init_trans S False (FundWal2Wal_payment request d v))))"

definition FundWal2Wal_steps :: "'w services \<Rightarrow> FundWallet2WalletRequest \<Rightarrow> 'w st step_def list" where
  "FundWal2Wal_steps S request =
     [(''INIT_ORDER'', init_order S (FundWal2Wal_order request), comp_order S),
      (''PROCESSING_ORDER'', assign_order (ProcessingOrder S), comp_order S),
      (''ACCOUNT_VOUCHER'', FundWal2Wal_voucher S request, comp_voucher S True),
      (''INIT_PAYMENT'', FundWal2Wal_init_payment S request, comp_init_payment S as_is order_as_is),
      (''FINALIZATION_PAYMENT'', confirm_trans S as_is, comp_pending S False as_is),
      (''SUCCESS_ORDER'', success_order S, comp_pending S False as_is)]"

definition FundWal2Wal :: "'w services \<Rightarrow> FundWallet2WalletRequest \<Rightarrow> ('w st, OrderEntity option \<times> goerror option) comp" where
  "FundWal2Wal S request =
     thenc (modify (fresh_vars None)) (orchestrate S ''Fund WAL2WAL'' (FundWal2Wal_steps S request))"

subsection \<open>The steps around the bank\<close>

lemma transfer_pending_rules [atmost_rules]: "atmost A n (transfer_pending r)"
  unfolding transfer_pending_def by (intro atmost_rules)

lemma IBFTransfer_bank_succeeds:
  assumes "\<And>d now res w es. order_dto s = Some d \<Longrightarrow> BankGwStatus_IsSuccess (br_ErrorCode res) \<Longrightarrow>
     key es = [EvBank (envelope ''ibftfundtransfer'' ClientCode GPAY_VCCB now
       (IBFTTransferReqData (itr_AccountNo request) (itr_CardNo request) (rq_UserID (itr_OrderRequest request)) (oe_OrderID d)
         (rq_Amount (itr_OrderRequest request)) (itr_IbftCode request) (itr_Description request) []) ''ip'') res None] \<Longrightarrow>
     R ((appended s w es)\<lparr>bankTraceId := br_BankTraceId res\<rparr>)"
  shows "succeeds (IBFTransfer_bank S request) R s"
  unfolding IBFTransfer_bank_def wp_bindc wp_the_order
  by (auto split: option.split simp: wp_ret intro!: bank_step_succeeds [OF bank_IBFTTransfer_does] assms)

lemma FundWal2Bank_bank_succeeds:
  assumes "\<And>d now res w es. order_dto s = Some d \<Longrightarrow> BankGwStatus_IsSuccess (br_ErrorCode res) \<Longrightarrow>
     key es = [EvBank (envelope ''ibftfundtransfer'' ClientCode GPAY_VCCB now
       (IBFTTransferReqData (fwb_AccountNo request) (fwb_CardNo request) (rq_MerchantID (fwb_OrderRequest request)) (oe_OrderID d)
         (rq_Amount (fwb_OrderRequest request)) (fwb_IbftCode request) (fwb_Description request) (fwb_BankName request)) ''ip'')
       res None] \<Longrightarrow>
     R ((appended s w es)\<lparr>bankTraceId := br_BankTraceId res\<rparr>)"
  shows "succeeds (FundWal2Bank_bank S request) R s"
  unfolding FundWal2Bank_bank_def wp_bindc wp_the_order
  by (auto split: option.split simp: wp_ret intro!: bank_step_succeeds [OF bank_IBFTTransfer_does] assms)

lemma transfer_steps_atmost [atmost_rules]:
  "(\<And>u x. A (EvUseVoucher u x) \<Longrightarrow> 0 < n) \<Longrightarrow> atmost A n (IBFTransfer_voucher S r1)"
  "(\<And>u x. A (EvUseVoucher u x) \<Longrightarrow> 0 < n) \<Longrightarrow> atmost A n (FundWal2Wal_voucher S r3)"
  "(\<And>q x. A (EvInit q x) \<Longrightarrow> 0 < n) \<Longrightarrow> atmost A n (IBFTransfer_init_payment S r1)"
  "(\<And>q x. A (EvInit q x) \<Longrightarrow> 0 < n) \<Longrightarrow> atmost A n (FundWal2Bank_init_payment S r2)"
  "(\<And>q x. A (EvInit q x) \<Longrightarrow> 0 < n) \<Longrightarrow> atmost A n (FundWal2Wal_init_payment S r3)"
  unfolding IBFTransfer_voucher_def FundWal2Wal_voucher_def IBFTransfer_init_payment_def FundWal2Bank_init_payment_def
    FundWal2Wal_init_payment_def Let_def
  by (intro atmost_rules; simp)+

lemma transfer_bank_atmost [atmost_rules]:
  "(\<And>q x e. A (EvBank q x e) \<Longrightarrow> 0 < n) \<Longrightarrow> atmost A n (IBFTransfer_bank S r1)"
  "(\<And>q x e. A (EvBank q x e) \<Longrightarrow> 0 < n) \<Longrightarrow> atmost A n (FundWal2Bank_bank S r2)"
  unfolding IBFTransfer_bank_def FundWal2Bank_bank_def
  by (intro atmost_bindc atmost_statements atmost_bank_step [OF bank_IBFTTransfer_does] transfer_pending_rules atmost_ret; assumption)+

lemma transfer_bank_guards:
  "guards is_confirm bank_accepted (IBFTransfer_bank S r1)" "guards is_confirm bank_accepted (FundWal2Bank_bank S r2)"
  unfolding IBFTransfer_bank_def FundWal2Bank_bank_def
  by (rule guards_order, rule bank_step_guards [OF bank_IBFTTransfer_does]; simp add: atmost_rules)+

lemma transfer_bank_opens:
  "opens bank_open isTimeOutBank (IBFTransfer_bank S r1)" "opens bank_open isTimeOutBank (FundWal2Bank_bank S r2)"
  unfolding IBFTransfer_bank_def FundWal2Bank_bank_def
  by (rule opens_order, rule bank_step_opens_call [OF bank_IBFTTransfer_does];
      auto simp: transfer_pending_def intro: atmost_rules)+

lemma transfer_bank_goes:
  assumes "cooperative S" "order_dto s \<noteq> None" "\<And>t w es. R ((appended s w es)\<lparr>bankTraceId := t\<rparr>)"
  shows "goes (IBFTransfer_bank S r1) R s" "goes (FundWal2Bank_bank S r2) R s"
  unfolding IBFTransfer_bank_def FundWal2Bank_bank_def wp_bindc wp_the_order
  using assms by (auto split: option.split simp: wp_ret intro!: bank_step_goes [OF bank_ops_fine(1)])

lemma transfer_init_goes:
  assumes "obliging S" "order_dto s \<noteq> None"
  shows "(\<And>t w es. R ((appended s w es)\<lparr>trans := Some t\<rparr>)) \<Longrightarrow> goes (IBFTransfer_init_payment S r1) R s"
    and "(\<And>d t w es. R ((appended s w es)\<lparr>trans := Some t, order_dto := Some d\<rparr>)) \<Longrightarrow> goes (FundWal2Bank_init_payment S r2) R s"
    and "(\<And>d t w es. R ((appended s w es)\<lparr>trans := Some t, order_dto := Some d\<rparr>)) \<Longrightarrow> goes (FundWal2Wal_init_payment S r3) R s"
  unfolding IBFTransfer_init_payment_def FundWal2Bank_init_payment_def FundWal2Wal_init_payment_def
  using assms by (auto split: option.split simp: wp_bindc wp_the_order wp_gets intro!: link_order_goes init_trans_goes)

lemma transfer_init_succeeds:
  assumes "\<And>d q t w es. order_dto s = Some d \<Longrightarrow> init_request (IBFTransfer_payment request d (discount s) (voucherId s)) q \<Longrightarrow>
     key es = [EvInit q (Inr t)] \<Longrightarrow> R ((appended s w es)\<lparr>trans := Some t\<rparr>)"
  shows "succeeds (IBFTransfer_init_payment S request) R s"
  unfolding IBFTransfer_init_payment_def wp_bindc wp_the_order wp_gets
  by (auto split: option.split intro!: init_trans_succeeds assms)

lemma fund_bank_init_succeeds:
  assumes "\<And>d q t w es. order_dto s = Some d \<Longrightarrow> init_request (FundWal2Bank_payment request d (discount s) (voucherId s)) q \<Longrightarrow>
     key es = [EvInit q (Inr t)] \<Longrightarrow>
     R ((appended s w es)\<lparr>trans := Some t, order_dto := Some (d\<lparr>oe_TransactionID := tx_TransactionId t\<rparr>)\<rparr>)"
  shows "succeeds (FundWal2Bank_init_payment S request) R s"
  unfolding FundWal2Bank_init_payment_def
  by (rule link_order_succeeds) (auto split: option.split simp: wp_bindc wp_the_order wp_gets intro!: init_trans_succeeds assms)

lemma fund_wallet_init_succeeds:
  assumes "\<And>d q t w es. order_dto s = Some d \<Longrightarrow> init_request (FundWal2Wal_payment request d (voucherId s)) q \<Longrightarrow>
     key es = [EvInit q (Inr t)] \<Longrightarrow>
     R ((appended s w es)\<lparr>trans := Some t, order_dto := Some (d\<lparr>oe_TransactionID := tx_TransactionId t\<rparr>)\<rparr>)"
  shows "succeeds (FundWal2Wal_init_payment S request) R s"
  unfolding FundWal2Wal_init_payment_def
  by (rule link_order_succeeds) (auto split: option.split simp: wp_bindc wp_the_order wp_gets intro!: init_trans_succeeds assms)

subsection \<open>Runs of IBFTransfer\<close>

definition IBFTransfer_done :: "IBFTTransferRequest \<Rightarrow> event list \<Rightarrow> OrderEntity \<Rightarrow> bool" where
  "IBFTransfer_done request evs d \<longleftrightarrow> (\<exists>d0 d1 f1 n1 vs q t bq res c' f2 n2 disc v.
     evs = EvInsertOrder d0 None # EvReplaceOrder f1 d1 (Inr (Suc n1)) # vs @
       [EvInit q (Inr t), EvBank bq res None, EvConfirm (t\<lparr>tx_BankTransactionId := br_BankTraceId res\<rparr>) (Inr c'),
        EvReplaceOrder f2 d (Inr (Suc n2))] \<and>
     (\<exists>now oid. d0 = initial_order (IBFTransfer_order request) now oid) \<and>
     restamped ORDER_PROCESSING d0 d1 \<and> restamped ORDER_SUCCESS d1 d \<and>
     init_request (IBFTransfer_payment request d1 disc v) q \<and>
     bq_Data bq = IBFTTransferReqData (itr_AccountNo request) (itr_CardNo request)
       (rq_UserID (itr_OrderRequest request)) (oe_OrderID d1) (rq_Amount (itr_OrderRequest request))
       (itr_IbftCode request) (itr_Description request) [] \<and>
     BankGwStatus_IsSuccess (br_ErrorCode res) \<and>
     voucher_used (rq_VoucherCode (itr_OrderRequest request)) d1 disc v vs)"

lemma IBFTransfer_steps_succeed:
  "started None s s' \<Longrightarrow> succeeds (run_steps (IBFTransfer_steps S request) [])
     (\<lambda>t. \<exists>d evs. order_dto t = Some d \<and> key (trace t) = key (trace s) @ evs \<and> IBFTransfer_done request evs d \<and>
        resp_OrderEntity t = Some (ConvertToProto d)) s'"
  unfolding IBFTransfer_steps_def IBFTransfer_reserve_def IBFTransfer_finish_def append.simps IBFTransfer_voucher_def Let_def
  by (intro succeeds_Cons succeeds_Nil init_order_succeeds assign_order_succeeds [OF ProcessingOrder_does]
      use_voucher_succeeds transfer_init_succeeds IBFTransfer_bank_succeeds confirm_trans_succeeds success_order_succeeds)
    (auto simp: IBFTransfer_done_def voucher_used_def started_sel voucher_request_def)

lemma IBFTransfer_steps_go:
  assumes "cooperative S"
  shows "goes (run_steps (IBFTransfer_steps S request) []) (\<lambda>t. order_dto t \<noteq> None) s"
  unfolding IBFTransfer_steps_def IBFTransfer_reserve_def IBFTransfer_finish_def append.simps IBFTransfer_voucher_def Let_def
  by (intro goes_Cons goes_Nil init_order_goes assign_order_goes [OF order_ops_fine(1)] use_voucher_goes
      transfer_init_goes transfer_bank_goes confirm_trans_goes success_order_goes assms cooperativeD(1) [OF assms(1)])
    (simp_all add: IBFTransfer_order_def OrderEntity_zero_def Let_def)

lemma IBFTransfer_wp:
  assumes "fresh_execution S s"
    and "\<And>s'. started None s s' \<Longrightarrow> fresh_execution S s' \<Longrightarrow>
      wp (orchestrate S ''IBFT TRANSFER Action'' (IBFTransfer_steps S request)) Q E s'"
  shows "wp (IBFTransfer S request) Q E s"
  unfolding IBFTransfer_def wp_bindc wp_modify by (rule assms(2) [OF started_refl]) (simp add: assms(1))

lemma IBFTransfer_run_once:
  "atmost is_insert 1 (run_steps (IBFTransfer_steps S request) [])"
  "atmost is_bank 1 (run_steps (IBFTransfer_steps S request) [])"
  "atmost is_init 1 (run_steps (IBFTransfer_steps S request) [])"
  "atmost is_confirm 1 (run_steps (IBFTransfer_steps S request) [])"
  unfolding IBFTransfer_steps_def IBFTransfer_reserve_def IBFTransfer_finish_def
     apply (rule atmost_run_named [where k = "\<lambda>n. of_bool (n = ''INIT_ORDER'')"]; auto intro!: atmost_rules)
    apply (rule atmost_run_named [where k = "\<lambda>n. of_bool (n = ''IBFT TRANSFER'')"]; auto intro!: atmost_rules)
   apply (rule atmost_run_named [where k = "\<lambda>n. of_bool (n = ''INIT_PAYMENT'')"]; auto intro!: atmost_rules)
  apply (rule atmost_run_named [where k = "\<lambda>n. of_bool (n = ''FINALIZATION_PAYMENT'')"]; auto intro!: atmost_rules)
  done

lemma IBFTransfer_once:
  assumes "fresh_execution S s" and "A \<in> {is_insert, is_bank, is_init, is_confirm}"
  shows "wp (IBFTransfer S request) (\<lambda>_. adds A 1 s) (adds A 1 s) s"
  by (rule IBFTransfer_wp [OF assms(1)], erule (1) orchestrate_started_atmost) (use assms(2) IBFTransfer_run_once in auto)

lemma IBFTransfer_confirm_ordered:
  assumes "fresh_execution S s"
  shows "wp (IBFTransfer S request) (\<lambda>_. ordered is_confirm bank_accepted s) (ordered is_confirm bank_accepted s) s"
  by (rule IBFTransfer_wp [OF assms], erule (1) orchestrate_started_ordered, rule IBFTransfer_steps_def)
    (auto simp: transfer_bank_guards IBFTransfer_reserve_def IBFTransfer_finish_def intro!: atmost_rules)

lemma IBFTransfer_error_settles:
  assumes "fresh_execution S s"
  shows "wp (IBFTransfer S request) (\<lambda>(p, err) _. err \<noteq> None \<longrightarrow> (\<exists>d. p = Some d \<and> settled d)) (\<lambda>_. True) s"
  by (rule IBFTransfer_wp [OF assms], erule orchestrate_settles, simp add: IBFTransfer_steps_def IBFTransfer_reserve_def IBFTransfer_finish_def, blast?, rule comp_order_settles)

lemma IBFTransfer_stays_open:
  assumes "fresh_execution S s"
  shows "wp (IBFTransfer S request) (\<lambda>(p, err) u. adds bank_open 0 s u \<or> (err \<noteq> None \<and> still s u))
     (\<lambda>u. adds bank_open 0 s u \<or> still s u) s"
  by (rule IBFTransfer_wp [OF assms], erule (1) orchestrate_opens, rule IBFTransfer_steps_def, rule comp_provider_parks)
    (use transfer_bank_opens in \<open>auto simp: IBFTransfer_reserve_def IBFTransfer_finish_def intro!: atmost_rules patient_comps\<close>)

lemma IBFTransfer_progress:
  assumes "cooperative S" and "fresh_execution S s"
  shows "\<exists>d t. IBFTransfer S request s = (Ret (Some d, None), t)"
proof -
  have "\<exists>d t. orchestrate S ''IBFT TRANSFER Action'' (IBFTransfer_steps S request) (fresh_vars None s) = (Ret (Some d, None), t)"
    by (rule orchestrate_goes) (simp add: assms, rule IBFTransfer_steps_go [OF assms(1)])
  then show ?thesis by (simp add: IBFTransfer_def bindc_def)
qed

subsection \<open>Runs of FundWal2Bank\<close>

definition FundWal2Bank_done :: "FundWallet2BankRequest \<Rightarrow> event list \<Rightarrow> OrderEntity \<Rightarrow> bool" where
  "FundWal2Bank_done request evs d \<longleftrightarrow> (\<exists>d0 d1 f1 n1 q t bq res c' f2 n2.
     evs = [EvInsertOrder d0 None, EvReplaceOrder f1 d1 (Inr (Suc n1)), EvInit q (Inr t), EvBank bq res None,
        EvConfirm (t\<lparr>tx_BankTransactionId := br_BankTraceId res\<rparr>) (Inr c'), EvReplaceOrder f2 d (Inr (Suc n2))] \<and>
     (\<exists>now oid. d0 = initial_order (FundWal2Bank_order request) now oid) \<and>
     restamped ORDER_PROCESSING d0 d1 \<and> restamped ORDER_SUCCESS (d1\<lparr>oe_TransactionID := tx_TransactionId t\<rparr>) d \<and>
     init_request (FundWal2Bank_payment request d1 0 []) q \<and>
     bq_Data bq = IBFTTransferReqData (fwb_AccountNo request) (fwb_CardNo request)
       (rq_MerchantID (fwb_OrderRequest request)) (oe_OrderID d1) (rq_Amount (fwb_OrderRequest request))
       (fwb_IbftCode request) (fwb_Description request) (fwb_BankName request) \<and>
     BankGwStatus_IsSuccess (br_ErrorCode res))"

lemma FundWal2Bank_steps_succeed:
  "started None s s' \<Longrightarrow> succeeds (run_steps (FundWal2Bank_steps S request) [])
     (\<lambda>t. \<exists>d evs. order_dto t = Some d \<and> key (trace t) = key (trace s) @ evs \<and> FundWal2Bank_done request evs d \<and>
        resp_OrderEntity t = Some (ConvertToProto d)) s'"
  unfolding FundWal2Bank_steps_def FundWal2Bank_reserve_def FundWal2Bank_finish_def append.simps
  by (intro succeeds_Cons succeeds_Nil init_order_succeeds assign_order_succeeds [OF ProcessingOrder_does]
      fund_bank_init_succeeds FundWal2Bank_bank_succeeds confirm_trans_succeeds success_order_succeeds)
    (auto simp: FundWal2Bank_done_def started_sel)

lemma FundWal2Bank_steps_go:
  assumes "cooperative S"
  shows "goes (run_steps (FundWal2Bank_steps S request) []) (\<lambda>t. order_dto t \<noteq> None) s"
  unfolding FundWal2Bank_steps_def FundWal2Bank_reserve_def FundWal2Bank_finish_def append.simps
  by (intro goes_Cons goes_Nil init_order_goes assign_order_goes [OF order_ops_fine(1)]
      transfer_init_goes transfer_bank_goes confirm_trans_goes success_order_goes assms cooperativeD(1) [OF assms(1)])
    (simp_all add: FundWal2Bank_order_def OrderEntity_zero_def Let_def)

lemma FundWal2Bank_wp:
  assumes "fresh_execution S s"
    and "\<And>s'. started None s s' \<Longrightarrow> fresh_execution S s' \<Longrightarrow>
      wp (orchestrate S ''Fund WAL2BANK'' (FundWal2Bank_steps S request)) Q E s'"
  shows "wp (FundWal2Bank S request) Q E s"
  unfolding FundWal2Bank_def wp_bindc wp_modify by (rule assms(2) [OF started_refl]) (simp add: assms(1))

lemma FundWal2Bank_run_once:
  "atmost is_insert 1 (run_steps (FundWal2Bank_steps S request) [])"
  "atmost is_bank 1 (run_steps (FundWal2Bank_steps S request) [])"
  "atmost is_init 1 (run_steps (FundWal2Bank_steps S request) [])"
  "atmost is_confirm 1 (run_steps (FundWal2Bank_steps S request) [])"
  unfolding FundWal2Bank_steps_def FundWal2Bank_reserve_def FundWal2Bank_finish_def
     apply (rule atmost_run_named [where k = "\<lambda>n. of_bool (n = ''INIT_ORDER'')"]; auto intro!: atmost_rules)
    apply (rule atmost_run_named [where k = "\<lambda>n. of_bool (n = ''IBFT TRANSFER'')"]; auto intro!: atmost_rules)
   apply (rule atmost_run_named [where k = "\<lambda>n. of_bool (n = ''INIT_PAYMENT'')"]; auto intro!: atmost_rules)
  apply (rule atmost_run_named [where k = "\<lambda>n. of_bool (n = ''FINALIZATION_PAYMENT'')"]; auto intro!: atmost_rules)
  done

lemma FundWal2Bank_once:
  assumes "fresh_execution S s" and "A \<in> {is_insert, is_bank, is_init, is_confirm}"
  shows "wp (FundWal2Bank S request) (\<lambda>_. adds A 1 s) (adds A 1 s) s"
  by (rule FundWal2Bank_wp [OF assms(1)], erule (1) orchestrate_started_atmost) (use assms(2) FundWal2Bank_run_once in auto)

lemma FundWal2Bank_confirm_ordered:
  assumes "fresh_execution S s"
  shows "wp (FundWal2Bank S request) (\<lambda>_. ordered is_confirm bank_accepted s) (ordered is_confirm bank_accepted s) s"
  by (rule FundWal2Bank_wp [OF assms], erule (1) orchestrate_started_ordered, rule FundWal2Bank_steps_def)
    (auto simp: transfer_bank_guards FundWal2Bank_reserve_def FundWal2Bank_finish_def intro!: atmost_rules)

lemma FundWal2Bank_error_settles:
  assumes "fresh_execution S s"
  shows "wp (FundWal2Bank S request) (\<lambda>(p, err) _. err \<noteq> None \<longrightarrow> (\<exists>d. p = Some d \<and> settled d)) (\<lambda>_. True) s"
  by (rule FundWal2Bank_wp [OF assms], erule orchestrate_settles, simp add: FundWal2Bank_steps_def FundWal2Bank_reserve_def FundWal2Bank_finish_def, blast?, rule comp_order_settles)

lemma FundWal2Bank_stays_open:
  assumes "fresh_execution S s"
  shows "wp (FundWal2Bank S request) (\<lambda>(p, err) u. adds bank_open 0 s u \<or> (err \<noteq> None \<and> still s u))
     (\<lambda>u. adds bank_open 0 s u \<or> still s u) s"
  by (rule FundWal2Bank_wp [OF assms], erule (1) orchestrate_opens, rule FundWal2Bank_steps_def, rule comp_provider_parks)
    (use transfer_bank_opens in \<open>auto simp: FundWal2Bank_reserve_def FundWal2Bank_finish_def intro!: atmost_rules patient_comps\<close>)

lemma FundWal2Bank_progress:
  assumes "cooperative S" and "fresh_execution S s"
  shows "\<exists>d t. FundWal2Bank S request s = (Ret (Some d, None), t)"
proof -
  have "\<exists>d t. orchestrate S ''Fund WAL2BANK'' (FundWal2Bank_steps S request) (fresh_vars None s) = (Ret (Some d, None), t)"
    by (rule orchestrate_goes) (simp add: assms, rule FundWal2Bank_steps_go [OF assms(1)])
  then show ?thesis by (simp add: FundWal2Bank_def bindc_def)
qed

subsection \<open>Runs of FundWal2Wal\<close>

definition FundWal2Wal_done :: "FundWallet2WalletRequest \<Rightarrow> event list \<Rightarrow> OrderEntity \<Rightarrow> bool" where
  "FundWal2Wal_done request evs d \<longleftrightarrow> (\<exists>d0 d1 f1 n1 vs q t c' f2 n2 disc v.
     evs = EvInsertOrder d0 None # EvReplaceOrder f1 d1 (Inr (Suc n1)) # vs @
       [EvInit q (Inr t), EvConfirm t (Inr c'), EvReplaceOrder f2 d (Inr (Suc n2))] \<and>
     (\<exists>now oid. d0 = initial_order (FundWal2Wal_order request) now oid) \<and>
     restamped ORDER_PROCESSING d0 d1 \<and> restamped ORDER_SUCCESS (d1\<lparr>oe_TransactionID := tx_TransactionId t\<rparr>) d \<and>
     init_request (FundWal2Wal_payment request d1 v) q \<and>
     voucher_used (rq_VoucherCode (fww_OrderRequest request)) d1 disc v vs)"

lemma FundWal2Wal_steps_succeed:
  "started None s s' \<Longrightarrow> succeeds (run_steps (FundWal2Wal_steps S request) [])
     (\<lambda>t. \<exists>d evs. order_dto t = Some d \<and> key (trace t) = key (trace s) @ evs \<and> FundWal2Wal_done request evs d \<and>
        resp_OrderEntity t = Some (ConvertToProto d)) s'"
  unfolding FundWal2Wal_steps_def FundWal2Wal_voucher_def Let_def
  by (intro succeeds_Cons succeeds_Nil init_order_succeeds assign_order_succeeds [OF ProcessingOrder_does]
      use_voucher_succeeds fund_wallet_init_succeeds confirm_trans_succeeds success_order_succeeds)
    (auto simp: FundWal2Wal_done_def voucher_used_def started_sel voucher_request_def)

lemma FundWal2Wal_steps_go:
  assumes "cooperative S"
  shows "goes (run_steps (FundWal2Wal_steps S request) []) (\<lambda>t. order_dto t \<noteq> None) s"
  unfolding FundWal2Wal_steps_def FundWal2Wal_voucher_def Let_def
  by (intro goes_Cons goes_Nil init_order_goes assign_order_goes [OF order_ops_fine(1)] use_voucher_goes
      transfer_init_goes confirm_trans_goes success_order_goes assms cooperativeD(1) [OF assms(1)])
    (simp_all add: FundWal2Wal_order_def OrderEntity_zero_def Let_def)

lemma FundWal2Wal_wp:
  assumes "fresh_execution S s"
    and "\<And>s'. started None s s' \<Longrightarrow> fresh_execution S s' \<Longrightarrow>
      wp (orchestrate S ''Fund WAL2WAL'' (FundWal2Wal_steps S request)) Q E s'"
  shows "wp (FundWal2Wal S request) Q E s"
  unfolding FundWal2Wal_def wp_bindc wp_modify by (rule assms(2) [OF started_refl]) (simp add: assms(1))

lemma FundWal2Wal_run_once:
  "atmost is_insert 1 (run_steps (FundWal2Wal_steps S request) [])"
  "atmost is_voucher 1 (run_steps (FundWal2Wal_steps S request) [])"
  "atmost is_init 1 (run_steps (FundWal2Wal_steps S request) [])"
  "atmost is_confirm 1 (run_steps (FundWal2Wal_steps S request) [])"
  unfolding FundWal2Wal_steps_def 
     apply (rule atmost_run_named [where k = "\<lambda>n. of_bool (n = ''INIT_ORDER'')"]; auto intro!: atmost_rules)
    apply (rule atmost_run_named [where k = "\<lambda>n. of_bool (n = ''ACCOUNT_VOUCHER'')"]; auto intro!: atmost_rules)
   apply (rule atmost_run_named [where k = "\<lambda>n. of_bool (n = ''INIT_PAYMENT'')"]; auto intro!: atmost_rules)
  apply (rule atmost_run_named [where k = "\<lambda>n. of_bool (n = ''FINALIZATION_PAYMENT'')"]; auto intro!: atmost_rules)
  done

lemma FundWal2Wal_once:
  assumes "fresh_execution S s" and "A \<in> {is_insert, is_voucher, is_init, is_confirm}"
  shows "wp (FundWal2Wal S request) (\<lambda>_. adds A 1 s) (adds A 1 s) s"
  by (rule FundWal2Wal_wp [OF assms(1)], erule (1) orchestrate_started_atmost) (use assms(2) FundWal2Wal_run_once in auto)

lemma FundWal2Wal_error_settles:
  assumes "fresh_execution S s"
  shows "wp (FundWal2Wal S request) (\<lambda>(p, err) _. err \<noteq> None \<longrightarrow> (\<exists>d. p = Some d \<and> settled d)) (\<lambda>_. True) s"
  by (rule FundWal2Wal_wp [OF assms], erule orchestrate_settles, rule FundWal2Wal_steps_def, rule comp_order_settles)

lemma FundWal2Wal_progress:
  assumes "cooperative S" and "fresh_execution S s"
  shows "\<exists>d t. FundWal2Wal S request s = (Ret (Some d, None), t)"
proof -
  have "\<exists>d t. orchestrate S ''Fund WAL2WAL'' (FundWal2Wal_steps S request) (fresh_vars None s) = (Ret (Some d, None), t)"
    by (rule orchestrate_goes) (simp add: assms, rule FundWal2Wal_steps_go [OF assms(1)])
  then show ?thesis by (simp add: FundWal2Wal_def bindc_def)
qed

subsection \<open>A bank that has not decided\<close>

lemma IBFTransfer_bank_meets:
  assumes "order_dto s \<noteq> None" "\<exists>es. trace s = trace s0 @ es"
  shows "wp (IBFTransfer_bank pending_services request)
     (\<lambda>err t. err \<noteq> None \<and> meets bank_open s0 t) (meets bank_open s0) s"
  using assms by (auto simp: IBFTransfer_bank_def Let_def bank_step_def bank_IBFTTransfer_def httpRequest_def transfer_pending_def
      http_result_def checked_def wp_rules meets_def pending_services_def example_services_def BankRes_zero_def BankGwStatus_defs
      conj_disj_distribR ex_disj_distrib split: option.split)

lemma IBFTransfer_undecided:
  "\<exists>r t es. IBFTransfer pending_services request example_state = (r, t) \<and> trace t = trace example_state @ es \<and>
     (\<exists>e \<in> set (key es). bank_open e)"
proof (rule run_meets, rule IBFTransfer_wp [OF example_fresh])
  fix s' assume s': "started None example_state s'" "fresh_execution pending_services s'"
  note S = other_days_obliging(2)
  have "wp (run_steps (IBFTransfer_steps pending_services request) []) (\<lambda>_. meets bank_open s') (meets bank_open s') (s'\<lparr>world := w\<rparr>)" for w
    unfolding IBFTransfer_steps_def IBFTransfer_reserve_def IBFTransfer_finish_def append.simps IBFTransfer_voucher_def Let_def
    by (intro goes_then init_order_goes assign_order_goes [OF order_ops_fine(1)] use_voucher_goes
        transfer_init_goes meets_step IBFTransfer_bank_meets S)
      (auto simp: IBFTransfer_order_def OrderEntity_zero_def Let_def intro!: atmost_rules)
  from orchestrate_meets [OF s'(2) this]
  show "wp (orchestrate pending_services ''IBFT TRANSFER Action'' (IBFTransfer_steps pending_services request))
     (\<lambda>_. meets bank_open example_state) (meets bank_open example_state) s'"
    by (rule wp_mono) (auto intro: meets_started [OF s'(1)])
qed

subsection \<open>Properties\<close>

definition example_ibft :: IBFTTransferRequest where
  "example_ibft = \<lparr>itr_OrderRequest = example_request, itr_AccountNo = ''0123'', itr_CardNo = [], itr_IbftCode = ''970436'',
     itr_Description = ''rent''\<rparr>"

definition example_fund_bank :: FundWallet2BankRequest where
  "example_fund_bank = \<lparr>fwb_OrderRequest = example_request, fwb_BankCode = ''VCB'', fwb_BankName = ''VCB'', fwb_AccountNo = ''0123'',
     fwb_CardNo = [], fwb_IbftCode = ''970436'', fwb_Description = ''salary''\<rparr>"

definition example_fund_wallet :: FundWallet2WalletRequest where
  "example_fund_wallet = \<lparr>fww_OrderRequest = example_request, fww_Description = ''bonus''\<rparr>"

text \<open>
  A transfer to a bank account without an error: the order is stored and marked as processing, the voucher is used, the
  payment is opened, the bank is asked to transfer the amount of the request to the account or card of the request and
  accepts, the transaction is confirmed under the trace id of the bank, and the order is marked as
  successful: these money-relevant calls and no others.
\<close>

theorem IBFTransfer_completes:
  assumes "fresh_execution S s" and "IBFTransfer S request s = (Ret (p, None), t)"
  shows "\<exists>d evs. p = Some d \<and> key (trace t) = key (trace s) @ evs \<and> IBFTransfer_done request evs d \<and>
     resp_OrderEntity t = Some (ConvertToProto d)"
proof -
  have "wp (IBFTransfer S request) (\<lambda>(p, err) t. err = None \<longrightarrow> (\<exists>d evs. p = Some d \<and> key (trace t) = key (trace s) @ evs \<and>
     IBFTransfer_done request evs d \<and> resp_OrderEntity t = Some (ConvertToProto d))) (\<lambda>_. True) s"
    by (rule IBFTransfer_wp [OF assms(1)], erule (1) orchestrate_started_succeeds, rule wp_mono, erule IBFTransfer_steps_succeed) auto
  from wp_Ret [OF this assms(2)] show ?thesis by simp
qed

theorem IBFTransfer_completes_witness:
  "\<exists>p t d evs. IBFTransfer example_services example_ibft example_state = (Ret (p, None), t) \<and> p = Some d \<and>
     key (trace t) = key (trace example_state) @ evs \<and> IBFTransfer_done example_ibft evs d"
proof -
  obtain p t where run: "IBFTransfer example_services example_ibft example_state = (Ret (p, None), t)"
    using IBFTransfer_progress [OF example_cooperative example_fresh] by blast
  from IBFTransfer_completes [OF example_fresh run] run show ?thesis by blast
qed

text \<open>
  When the bank answers that a transfer is still being verified, the run does not report success, and it neither cancels the
  payment nor fails the order unless an update of the transaction was answered with another status than it was sent.
\<close>

theorem IBFTransfer_stays_verifying:
  assumes "fresh_execution S s" "IBFTransfer S request s = (r, t)"
    and "trace t = trace s @ es" "\<exists>e \<in> set (key es). bank_open e"
  shows "((\<exists>e \<in> set (key es). contradicts e) \<or> (\<forall>e \<in> set (key es). \<not> gives_up e)) \<and> (\<forall>p err. r = Ret (p, err) \<longrightarrow> err \<noteq> None)"
  using run_stays_open_any [OF IBFTransfer_stays_open [OF assms(1)] assms(2-)] by blast

theorem IBFTransfer_stays_verifying_witness:
  "\<exists>r t es. IBFTransfer pending_services example_ibft example_state = (r, t) \<and> trace t = trace example_state @ es \<and>
     (\<exists>e \<in> set (key es). bank_open e) \<and> ((\<exists>e \<in> set (key es). contradicts e) \<or> (\<forall>e \<in> set (key es). \<not> gives_up e))"
  using IBFTransfer_undecided [of example_ibft] IBFTransfer_stays_verifying [OF example_fresh] by meson

text \<open>
  A merchant's transfer to a bank without an error makes the calls of a bank transfer, for the amount, account and merchant of the request, in
  order and no others.
\<close>

theorem FundWal2Bank_completes:
  assumes "fresh_execution S s" and "FundWal2Bank S request s = (Ret (p, None), t)"
  shows "\<exists>d evs. p = Some d \<and> key (trace t) = key (trace s) @ evs \<and> FundWal2Bank_done request evs d \<and>
     resp_OrderEntity t = Some (ConvertToProto d)"
proof -
  have "wp (FundWal2Bank S request) (\<lambda>(p, err) t. err = None \<longrightarrow> (\<exists>d evs. p = Some d \<and> key (trace t) = key (trace s) @ evs \<and>
     FundWal2Bank_done request evs d \<and> resp_OrderEntity t = Some (ConvertToProto d))) (\<lambda>_. True) s"
    by (rule FundWal2Bank_wp [OF assms(1)], erule (1) orchestrate_started_succeeds, rule wp_mono, erule FundWal2Bank_steps_succeed) auto
  from wp_Ret [OF this assms(2)] show ?thesis by simp
qed

theorem FundWal2Bank_completes_witness:
  "\<exists>p t d evs. FundWal2Bank example_services example_fund_bank example_state = (Ret (p, None), t) \<and> p = Some d \<and>
     key (trace t) = key (trace example_state) @ evs \<and> FundWal2Bank_done example_fund_bank evs d"
proof -
  obtain p t where run: "FundWal2Bank example_services example_fund_bank example_state = (Ret (p, None), t)"
    using FundWal2Bank_progress [OF example_cooperative example_fresh] by blast
  from FundWal2Bank_completes [OF example_fresh run] run show ?thesis by blast
qed

text \<open>
  Whatever the bank and the other services answer, a merchant's transfer stores at most one order, asks the bank to move money at
  most once, opens and confirms at most one payment, and confirms only after the bank has accepted.
\<close>

theorem FundWal2Bank_disciplined:
  assumes "fresh_execution S s" and "FundWal2Bank S request s = (r, t)"
  shows "\<exists>es. trace t = trace s @ es \<and>
     (\<forall>A \<in> {is_insert, is_bank, is_init, is_confirm}. length (filter A (key es)) \<le> 1) \<and>
     (\<forall>i < length (key es). is_confirm (key es ! i) \<longrightarrow> (\<exists>j < i. bank_accepted (key es ! j)))"
  by (rule run_disciplined [OF assms(2) FundWal2Bank_once [OF assms(1)] FundWal2Bank_confirm_ordered [OF assms(1)]])

theorem FundWal2Bank_disciplined_witness:
  "\<exists>d t es. FundWal2Bank example_services example_fund_bank example_state = (Ret (Some d, None), t) \<and>
     trace t = trace example_state @ es \<and> length (filter is_confirm (key es)) \<le> 1"
proof -
  obtain d t where run: "FundWal2Bank example_services example_fund_bank example_state = (Ret (Some d, None), t)"
    using FundWal2Bank_progress [OF example_cooperative example_fresh] by blast
  from FundWal2Bank_disciplined [OF example_fresh run] run show ?thesis by blast
qed

text \<open>
  A merchant's transfer to a wallet without an error: the order is stored and marked as processing, the voucher is
  used, the payment is opened and confirmed, and the order, with the id of the transaction, is marked as successful.
\<close>

theorem FundWal2Wal_completes:
  assumes "fresh_execution S s" and "FundWal2Wal S request s = (Ret (p, None), t)"
  shows "\<exists>d evs. p = Some d \<and> key (trace t) = key (trace s) @ evs \<and> FundWal2Wal_done request evs d \<and>
     resp_OrderEntity t = Some (ConvertToProto d)"
proof -
  have "wp (FundWal2Wal S request) (\<lambda>(p, err) t. err = None \<longrightarrow> (\<exists>d evs. p = Some d \<and> key (trace t) = key (trace s) @ evs \<and>
     FundWal2Wal_done request evs d \<and> resp_OrderEntity t = Some (ConvertToProto d))) (\<lambda>_. True) s"
    by (rule FundWal2Wal_wp [OF assms(1)], erule (1) orchestrate_started_succeeds, rule wp_mono, erule FundWal2Wal_steps_succeed) auto
  from wp_Ret [OF this assms(2)] show ?thesis by simp
qed

theorem FundWal2Wal_completes_witness:
  "\<exists>p t d evs. FundWal2Wal example_services example_fund_wallet example_state = (Ret (p, None), t) \<and> p = Some d \<and>
     key (trace t) = key (trace example_state) @ evs \<and> FundWal2Wal_done example_fund_wallet evs d"
proof -
  obtain p t where run: "FundWal2Wal example_services example_fund_wallet example_state = (Ret (p, None), t)"
    using FundWal2Wal_progress [OF example_cooperative example_fresh] by blast
  from FundWal2Wal_completes [OF example_fresh run] run show ?thesis by blast
qed

end
