(* ===== verification/StaticQR.thy ===== *)
theory StaticQR
  imports Examples
begin

text \<open>
  Paying a merchant by a static QR code, \<open>application/static_qr_orchestrator.go\<close>: the money goes
  from wallet to wallet, no provider or bank is involved.
\<close>

record PaymentMerchantRequest =
  pmr_OrderRequest :: OrderRequest
  pmr_Message :: string

definition StaticQR_order :: "PaymentMerchantRequest \<Rightarrow> OrderEntity" where
  "StaticQR_order request = (let r = pmr_OrderRequest request in OrderEntity_zero\<lparr>
     oe_ServiceID := rq_ServiceID r, oe_UserID := rq_UserID r, oe_SubscribeMerchantID := rq_MerchantID r,
     oe_OrderType := rq_TransType r, oe_SubOrderType := rq_SubTransType r, oe_Amount := rq_Amount r,
     oe_SourceOfFund := rq_SourceOfFund r, oe_VoucherCode := rq_VoucherCode r, oe_DeviceID := rq_DeviceID r,
     oe_MerchantCode := rq_MerchantCode r\<rparr>)"

definition StaticQR_voucher :: "'w services \<Rightarrow> PaymentMerchantRequest \<Rightarrow> ('w st, goerror option) comp" where
  "StaticQR_voucher S request = (let r = pmr_OrderRequest request in
     use_voucher S (rq_VoucherCode r) (\<lambda>d.
       voucher_request d (rq_Amount r) (rq_SubTransType r) (rq_SourceOfFund r)))"

definition StaticQR_payment :: "PaymentMerchantRequest \<Rightarrow> OrderEntity \<Rightarrow> int64 \<Rightarrow> string \<Rightarrow> ETransactionDTO" where
  "StaticQR_payment request d disc voucher = (let r = pmr_OrderRequest request;
     dto = ETransactionDTO_zero\<lparr>
       tx_TransactionType := rq_TransType r, tx_SubTransactionType := rq_SubTransType r,
       tx_ServiceType := SERVICE_TYPE_WALLET, tx_Amount := rq_Amount r, tx_DeviceId := rq_DeviceID r,
       tx_LastAmount := rq_Amount r, tx_VoucherCode := rq_VoucherCode r, tx_AmountDiscount := disc,
       tx_SourceOfFund := rq_SourceOfFund r, tx_PayerId := rq_UserID r, tx_AppId := rq_SubTransType r,
       tx_VoucherID := voucher, tx_OrderId := oe_OrderID d, tx_MerchantTypeWallet := AmountRevenue,
       tx_Message := pmr_Message request, tx_MerchantID := rq_MerchantID r\<rparr>
     in if rq_MerchantID r \<noteq> [] then dto\<lparr>tx_ProviderMerchantID := rq_MerchantID r\<rparr> else dto)"

definition StaticQR_init_payment :: "'w services \<Rightarrow> PaymentMerchantRequest \<Rightarrow> ('w st, goerror option) comp" where
  "StaticQR_init_payment S request =
     bindc the_order (\<lambda>d. bindc (gets discount) (\<lambda>disc. bindc (gets voucherId) (\<lambda>v.
       init_trans S True (StaticQR_payment request d disc v))))"

definition StaticQR_steps :: "'w services \<Rightarrow> PaymentMerchantRequest \<Rightarrow> 'w st step_def list" where
  "StaticQR_steps S request =
     [(''INIT_ORDER'', init_order S (StaticQR_order request), comp_order S),
      (''PROCESSING_ORDER'', assign_order (ProcessingOrder S), comp_order S),
      (''ACCOUNT_VOUCHER'', StaticQR_voucher S request, comp_voucher S True),
      (''INIT_PAYMENT'', StaticQR_init_payment S request, comp_init_payment S with_reason order_as_is),
      (''FINALIZATION_PAYMENT'', confirm_trans S as_is, comp_pending S True as_is),
      (''SUCCESS_ORDER'', success_order S, comp_pending S False as_is)]"

definition StaticQR :: "'w services \<Rightarrow> PaymentMerchantRequest \<Rightarrow> ('w st, OrderEntity option \<times> goerror option) comp" where
  "StaticQR S request =
     thenc (modify (fresh_vars None)) (orchestrate S ''Payment Merchant'' (StaticQR_steps S request))"

subsection \<open>The steps\<close>

lemma StaticQR_init_succeeds:
  assumes "\<And>d q t w es. order_dto s = Some d \<Longrightarrow> init_request (StaticQR_payment request d (discount s) (voucherId s)) q \<Longrightarrow>
     key es = [EvInit q (Inr t)] \<Longrightarrow> R ((appended s w es)\<lparr>trans := Some t\<rparr>)"
  shows "succeeds (StaticQR_init_payment S request) R s"
  unfolding StaticQR_init_payment_def wp_bindc wp_the_order wp_gets
  by (auto split: option.split intro!: init_trans_succeeds assms)

lemma StaticQR_init_goes:
  assumes "obliging S" "order_dto s \<noteq> None" "\<And>t w es. R ((appended s w es)\<lparr>trans := Some t\<rparr>)"
  shows "goes (StaticQR_init_payment S request) R s"
  unfolding StaticQR_init_payment_def wp_bindc wp_the_order wp_gets
  using assms by (auto split: option.split intro!: init_trans_goes)

lemma StaticQR_atmost_steps [atmost_rules]:
  "(\<And>u x. A (EvUseVoucher u x) \<Longrightarrow> 0 < n) \<Longrightarrow> atmost A n (StaticQR_voucher S request)"
  "(\<And>q x. A (EvInit q x) \<Longrightarrow> 0 < n) \<Longrightarrow> atmost A n (StaticQR_init_payment S request)"
  unfolding StaticQR_voucher_def StaticQR_init_payment_def Let_def
  by (intro atmost_rules; simp)+

subsection \<open>Runs\<close>

definition StaticQR_done :: "PaymentMerchantRequest \<Rightarrow> event list \<Rightarrow> OrderEntity \<Rightarrow> bool" where
  "StaticQR_done request evs d \<longleftrightarrow> (\<exists>d0 d1 f1 n1 vs q t c' f2 n2 disc v.
     evs = EvInsertOrder d0 None # EvReplaceOrder f1 d1 (Inr (Suc n1)) # vs @
       [EvInit q (Inr t), EvConfirm t (Inr c'), EvReplaceOrder f2 d (Inr (Suc n2))] \<and>
     (\<exists>now oid. d0 = initial_order (StaticQR_order request) now oid) \<and>
     restamped ORDER_PROCESSING d0 d1 \<and> restamped ORDER_SUCCESS d1 d \<and>
     init_request (StaticQR_payment request d1 disc v) q \<and>
     voucher_used (rq_VoucherCode (pmr_OrderRequest request)) d1 disc v vs)"

lemma StaticQR_steps_succeed:
  "started None s s' \<Longrightarrow> succeeds (run_steps (StaticQR_steps S request) [])
     (\<lambda>t. \<exists>d evs. order_dto t = Some d \<and> key (trace t) = key (trace s) @ evs \<and> StaticQR_done request evs d \<and>
        resp_OrderEntity t = Some (ConvertToProto d)) s'"
  unfolding StaticQR_steps_def StaticQR_voucher_def Let_def
  by (intro succeeds_Cons succeeds_Nil init_order_succeeds assign_order_succeeds [OF ProcessingOrder_does]
      use_voucher_succeeds StaticQR_init_succeeds confirm_trans_succeeds success_order_succeeds)
    (auto simp: StaticQR_done_def voucher_used_def started_sel voucher_request_def)

lemma StaticQR_steps_go:
  assumes "cooperative S"
  shows "goes (run_steps (StaticQR_steps S request) []) (\<lambda>t. order_dto t \<noteq> None) s"
  unfolding StaticQR_steps_def StaticQR_voucher_def Let_def
  by (intro goes_Cons goes_Nil init_order_goes assign_order_goes [OF order_ops_fine(1)] use_voucher_goes
      StaticQR_init_goes confirm_trans_goes success_order_goes assms cooperativeD(1) [OF assms(1)])
    (simp_all add: StaticQR_order_def OrderEntity_zero_def Let_def)

lemma StaticQR_wp:
  assumes "fresh_execution S s"
    and "\<And>s'. started None s s' \<Longrightarrow> fresh_execution S s' \<Longrightarrow>
      wp (orchestrate S ''Payment Merchant'' (StaticQR_steps S request)) Q E s'"
  shows "wp (StaticQR S request) Q E s"
  unfolding StaticQR_def wp_bindc wp_modify by (rule assms(2) [OF started_refl]) (simp add: assms(1))

lemma StaticQR_run_once:
  "atmost is_insert 1 (run_steps (StaticQR_steps S request) [])"
  "atmost is_voucher 1 (run_steps (StaticQR_steps S request) [])"
  "atmost is_init 1 (run_steps (StaticQR_steps S request) [])"
  "atmost is_confirm 1 (run_steps (StaticQR_steps S request) [])"
  unfolding StaticQR_steps_def 
     apply (rule atmost_run_named [where k = "\<lambda>n. of_bool (n = ''INIT_ORDER'')"]; auto intro!: atmost_rules)
    apply (rule atmost_run_named [where k = "\<lambda>n. of_bool (n = ''ACCOUNT_VOUCHER'')"]; auto intro!: atmost_rules)
   apply (rule atmost_run_named [where k = "\<lambda>n. of_bool (n = ''INIT_PAYMENT'')"]; auto intro!: atmost_rules)
  apply (rule atmost_run_named [where k = "\<lambda>n. of_bool (n = ''FINALIZATION_PAYMENT'')"]; auto intro!: atmost_rules)
  done

lemma StaticQR_once:
  assumes "fresh_execution S s" and "A \<in> {is_insert, is_voucher, is_init, is_confirm}"
  shows "wp (StaticQR S request) (\<lambda>_. adds A 1 s) (adds A 1 s) s"
  by (rule StaticQR_wp [OF assms(1)], erule (1) orchestrate_started_atmost) (use assms(2) StaticQR_run_once in auto)

lemma StaticQR_error_settles:
  assumes "fresh_execution S s"
  shows "wp (StaticQR S request) (\<lambda>(p, err) _. err \<noteq> None \<longrightarrow> (\<exists>d. p = Some d \<and> settled d)) (\<lambda>_. True) s"
  by (rule StaticQR_wp [OF assms], erule orchestrate_settles, rule StaticQR_steps_def, rule comp_order_settles)

lemma StaticQR_progress:
  assumes "cooperative S" and "fresh_execution S s"
  shows "\<exists>d t. StaticQR S request s = (Ret (Some d, None), t)"
proof -
  have "\<exists>d t. orchestrate S ''Payment Merchant'' (StaticQR_steps S request) (fresh_vars None s) = (Ret (Some d, None), t)"
    by (rule orchestrate_goes) (simp add: assms, rule StaticQR_steps_go [OF assms(1)])
  then show ?thesis by (simp add: StaticQR_def bindc_def)
qed

subsection \<open>Properties\<close>

definition example_qr :: PaymentMerchantRequest where
  "example_qr = \<lparr>pmr_OrderRequest = example_request, pmr_Message = ''tea''\<rparr>"

text \<open>
  A payment by static QR code without an error: the order is stored and marked as processing, the voucher is used, the payment to the
  merchant is opened and confirmed, and the order is marked as successful: these money-relevant calls and no others.
\<close>

theorem StaticQR_completes:
  assumes "fresh_execution S s" and "StaticQR S request s = (Ret (p, None), t)"
  shows "\<exists>d evs. p = Some d \<and> key (trace t) = key (trace s) @ evs \<and> StaticQR_done request evs d \<and>
     resp_OrderEntity t = Some (ConvertToProto d)"
proof -
  have "wp (StaticQR S request) (\<lambda>(p, err) t. err = None \<longrightarrow> (\<exists>d evs. p = Some d \<and> key (trace t) = key (trace s) @ evs \<and>
     StaticQR_done request evs d \<and> resp_OrderEntity t = Some (ConvertToProto d))) (\<lambda>_. True) s"
    by (rule StaticQR_wp [OF assms(1)], erule (1) orchestrate_started_succeeds, rule wp_mono, erule StaticQR_steps_succeed) auto
  from wp_Ret [OF this assms(2)] show ?thesis by simp
qed

theorem StaticQR_completes_witness:
  "\<exists>p t d evs. StaticQR example_services example_qr example_state = (Ret (p, None), t) \<and> p = Some d \<and>
     key (trace t) = key (trace example_state) @ evs \<and> StaticQR_done example_qr evs d"
proof -
  obtain p t where run: "StaticQR example_services example_qr example_state = (Ret (p, None), t)"
    using StaticQR_progress [OF example_cooperative example_fresh] by blast
  from StaticQR_completes [OF example_fresh run] run show ?thesis by blast
qed

end
