(* ===== verification/Terms.thy ===== *)
theory Terms
  imports TopUp Transfers StaticQR
begin

text \<open>
  An invariant of the sagas that needs no assumption on the execution id: whatever is written to
  the order collection during a run, by steps and by compensations, also when the coordinator
  compensates for records of another saga under the same id, carries the amount, the user and the
  type of the order that the request asks for.  The invariant is kept by the shared statements and lifted to whole
  runs by the locale \<open>saga_invariant\<close>, interpreted on the steps of each orchestrator.
\<close>

type_synonym terms = "int64 \<times> string \<times> string"

definition order_terms :: "OrderEntity \<Rightarrow> terms" where
  "order_terms d = (oe_Amount d, oe_UserID d, oe_OrderType d)"

fun written :: "event \<Rightarrow> OrderEntity option" where
  "written (EvInsertOrder d _) = Some d"
| "written (EvReplaceOrder _ d _) = Some d"
| "written _ = None"

definition terms_kept :: "terms \<Rightarrow> event list \<Rightarrow> 'w st \<Rightarrow> bool" where
  "terms_kept x pre s \<longleftrightarrow> (\<forall>d. order_dto s = Some d \<longrightarrow> order_terms d = x) \<and>
     (\<exists>es. trace s = pre @ es \<and> (\<forall>e \<in> set es. \<forall>d. written e = Some d \<longrightarrow> order_terms d = x))"

named_theorems kept_rules \<open>computations that keep the terms\<close>

definition kept :: "terms \<Rightarrow> event list \<Rightarrow> ('w st, 'a) comp \<Rightarrow> bool" where
  "kept x pre m \<longleftrightarrow> (\<forall>s. terms_kept x pre s \<longrightarrow> wp m (\<lambda>_. terms_kept x pre) (terms_kept x pre) s)"

lemma order_terms_stamps [simp]:
  "order_terms (d\<lparr>oe_Status := a\<rparr>) = order_terms d" "order_terms (d\<lparr>oe_UpdatedAt := b\<rparr>) = order_terms d"
  "order_terms (d\<lparr>oe_SucceedAt := b\<rparr>) = order_terms d" "order_terms (d\<lparr>oe_InternalErr := r\<rparr>) = order_terms d"
  "order_terms (d\<lparr>oe_FailReason := r\<rparr>) = order_terms d" "order_terms (d\<lparr>oe_TransactionID := r\<rparr>) = order_terms d"
  "order_terms (initial_order d now oid) = order_terms d"
  by (simp_all add: order_terms_def initial_order_def)

lemma restamped_terms: "restamped st d d' \<Longrightarrow> order_terms d' = order_terms d"
  by (auto simp: order_terms_def restamped_sel)

lemma written_key: "written e \<noteq> None \<Longrightarrow> is_key e"
  by (cases e) auto

lemma terms_appended:
  assumes "terms_kept x pre s" "\<And>e d. e \<in> set (key es) \<Longrightarrow> written e = Some d \<Longrightarrow> order_terms d = x"
  shows "terms_kept x pre (appended s w es)"
proof -
  obtain es0 where "trace s = pre @ es0" "\<forall>e \<in> set es0. \<forall>d. written e = Some d \<longrightarrow> order_terms d = x"
    using assms(1) by (auto simp: terms_kept_def)
  moreover have "order_terms d = x" if "e \<in> set es" "written e = Some d" for e d
    using assms(2) [of e d] that written_key [of e] by simp
  ultimately show ?thesis using assms(1) by (auto simp: terms_kept_def)
qed

lemma terms_event:
  assumes "terms_kept x pre s" "key es = [e]" "\<And>d. written e = Some d \<Longrightarrow> order_terms d = x"
  shows "terms_kept x pre (appended s w es)"
  by (rule terms_appended [OF assms(1)]) (simp only: assms(2), use assms(3) in auto)

lemma terms_quiet: "terms_kept x pre s \<Longrightarrow> key es = [] \<Longrightarrow> terms_kept x pre (appended s w es)"
  by (rule terms_appended, assumption) (simp only:, simp)

lemma terms_upd [simp]:
  "terms_kept x pre (s\<lparr>world := w\<rparr>) = terms_kept x pre s" "terms_kept x pre (s\<lparr>LogSaga := m\<rparr>) = terms_kept x pre s"
  "terms_kept x pre (s\<lparr>trans := t\<rparr>) = terms_kept x pre s" "terms_kept x pre (s\<lparr>failReason := r\<rparr>) = terms_kept x pre s"
  "terms_kept x pre (s\<lparr>voucherId := v\<rparr>) = terms_kept x pre s" "terms_kept x pre (s\<lparr>discount := c\<rparr>) = terms_kept x pre s"
  "terms_kept x pre (s\<lparr>providerMerchantId := p\<rparr>) = terms_kept x pre s"
  "terms_kept x pre (s\<lparr>isPendingSrvCard := b\<rparr>) = terms_kept x pre s"
  "terms_kept x pre (s\<lparr>isTimeOutBank := b\<rparr>) = terms_kept x pre s" "terms_kept x pre (s\<lparr>bankTraceId := p\<rparr>) = terms_kept x pre s"
  "terms_kept x pre (s\<lparr>resp_OrderEntity := o'\<rparr>) = terms_kept x pre s"
  by (simp_all add: terms_kept_def)

lemma terms_order: "terms_kept x pre s \<Longrightarrow> (\<And>d. p = Some d \<Longrightarrow> order_terms d = x) \<Longrightarrow> terms_kept x pre (s\<lparr>order_dto := p\<rparr>)"
  by (simp add: terms_kept_def)

subsection \<open>Rules\<close>

lemma kept_ret [kept_rules]: "kept x pre (ret a)" "kept x pre (panic e)"
  by (simp_all add: kept_def wp_rules)

lemma kept_bindc: "kept x pre m \<Longrightarrow> (\<And>a. kept x pre (f a)) \<Longrightarrow> kept x pre (bindc m f)"
  unfolding kept_def wp_bindc by (blast intro: wp_mono)

lemma kept_gets [kept_rules]: "(\<And>a. kept x pre (f a)) \<Longrightarrow> kept x pre (bindc (gets g) f)"
  by (simp add: kept_def wp_rules)

lemma kept_the_order [kept_rules]:
  "(\<And>d. order_terms d = x \<Longrightarrow> kept x pre (f d)) \<Longrightarrow> kept x pre (bindc the_order f)"
  by (auto simp: kept_def wp_rules terms_kept_def split: option.split)

lemma kept_the_trans [kept_rules]: "(\<And>t. kept x pre (f t)) \<Longrightarrow> kept x pre (bindc the_trans f)"
  by (auto simp: kept_def wp_rules split: option.split)

lemma kept_if [kept_rules]: "kept x pre m \<Longrightarrow> kept x pre n \<Longrightarrow> kept x pre (if b then m else n)"
  by simp

lemma kept_whenc [kept_rules]: "kept x pre m \<Longrightarrow> kept x pre (whenc b m)"
  by (auto simp: whenc_def intro: kept_rules)

lemma kept_case [kept_rules]:
  "kept x pre m \<Longrightarrow> (\<And>a. kept x pre (f a)) \<Longrightarrow> kept x pre (case p of None \<Rightarrow> m | Some a \<Rightarrow> f a)"
  by (cases p) auto

lemma kept_sum [kept_rules]:
  "(\<And>e. kept x pre (f e)) \<Longrightarrow> (\<And>a. kept x pre (g a)) \<Longrightarrow> kept x pre (case r of Inl e \<Rightarrow> f e | Inr a \<Rightarrow> g a)"
  by (cases r) auto

lemma kept_prod [kept_rules]: "(\<And>a b. kept x pre (f a b)) \<Longrightarrow> kept x pre (case p of (a, b) \<Rightarrow> f a b)"
  by (cases p) auto

lemma kept_modify [kept_rules]: "(\<And>s. terms_kept x pre (f s) = terms_kept x pre s) \<Longrightarrow> kept x pre (modify f)"
  by (simp add: kept_def wp_rules)

lemma kept_does: "does m P \<Longrightarrow> (\<And>r es e. P r es \<Longrightarrow> e \<in> set es \<Longrightarrow> written e = None) \<Longrightarrow> kept x pre m"
  unfolding kept_def by (auto intro!: does_wp [of m P] terms_appended)

lemma kept_update_order [kept_rules]: "(\<And>d. order_terms (f d) = order_terms d) \<Longrightarrow> kept x pre (update_order f)"
  by (auto simp: kept_def wp_rules terms_kept_def split: option.split)

lemma kept_update_trans [kept_rules]: "kept x pre (update_trans f)"
  by (auto simp: kept_def wp_rules split: option.split)

lemma kept_failReason [kept_rules]: "kept x pre (set_failReason r)"
  by (simp add: kept_def wp_rules)

lemma kept_order_ops:
  assumes "\<And>d. does (Op d) (status_write st d)"
  shows "kept x pre (assign_order Op)" "kept x pre (through_order Op)"
proof -
  have t: "terms_kept x pre (appended s w es)" "order_terms d' = x"
    if "terms_kept x pre s" "order_dto s = Some d" "key es = [EvReplaceOrder flt d' y]" "restamped st d d'"
    for s :: "'a st" and d d' flt y w es
  proof -
    show "order_terms d' = x" using that(1,2) restamped_terms [OF that(4)] by (simp add: terms_kept_def)
    then show "terms_kept x pre (appended s w es)" by (intro terms_event [OF that(1,3)]) simp
  qed
  have a: "terms_kept x pre ((appended s w es)\<lparr>order_dto := fst (replaced d' e y)\<rparr>)"
    if "terms_kept x pre s" "order_dto s = Some d" "key es = [EvReplaceOrder flt d' y]" "restamped st d d'"
    for s :: "'a st" and d d' flt y w es e
    using t [OF that] fst_replaced [of d' e y] by (auto intro!: terms_order)
  show "kept x pre (assign_order Op)"
    unfolding kept_def by (intro allI impI wp_assign_order [OF assms]) (assumption, rule a)
  show "kept x pre (through_order Op)"
    unfolding kept_def
    by (intro allI impI wp_through_order [OF assms]) (assumption, rule terms_order, erule (3) t(1), use t(2) in blast)
qed

lemma kept_assign_trans:
  assumes "\<And>t. does (Op t) (one_call (ev t))" "\<And>t y. written (ev t y) = None"
  shows "kept x pre (assign_trans Op)"
  unfolding kept_def
  by (intro allI impI wp_assign_trans [OF assms(1)]) (auto simp: assms(2) intro: terms_event)

lemmas kept_ops [kept_rules] =
  kept_order_ops [OF ProcessingOrder_does] kept_order_ops [OF SuccessOrder_does] kept_order_ops [OF FailedOrder_does]
  kept_order_ops [OF VerifyingOrder_does] kept_assign_trans [OF serviceTransactionCancel_does, simplified]
  kept_assign_trans [OF serviceTransactionConfirm_does, simplified] kept_assign_trans [OF serviceTransactionPending_does, simplified]

lemma kept_init_order [kept_rules]: "order_terms d = x \<Longrightarrow> kept x pre (init_order S d)"
  unfolding kept_def init_order_def wp_bindc
proof (intro allI impI does_wp [OF InitOrder_does], goal_cases)
  case (1 s a w es)
  from 1 obtain now where "order_created (initial_order d now) (Some a) (key es)" by blast
  then consider e where "key es = []" "a = (None, Some e)"
    | oid y where "key es = [EvInsertOrder (initial_order d now oid) y]" "a = (if y = None then Some (initial_order d now oid) else None, y)"
    by (auto simp: order_created_def)
  then show ?case
  proof cases
    case (1 e)
    then show ?thesis using \<open>terms_kept x pre s\<close> by (auto simp: wp_rules intro!: terms_order intro: terms_quiet)
  next
    case (2 oid y)
    have "terms_kept x pre (appended s w es)"
      by (rule terms_event [OF \<open>terms_kept x pre s\<close> 2(1)]) (use \<open>order_terms d = x\<close> in simp)
    with 2(2) \<open>order_terms d = x\<close> show ?thesis by (auto simp: wp_rules intro!: terms_order)
  qed
next
  case (2 s w es)
  then show ?case by (auto simp: order_created_def intro: terms_quiet terms_event)
qed

lemma kept_init_trans [kept_rules]: "kept x pre (init_trans S b dto)"
  unfolding init_trans_def
  by (intro kept_bindc kept_does [OF serviceTransactionInit_does] kept_rules)
    (auto simp: initiated_def one_call_def kept_def wp_rules)

lemma kept_promotion [kept_rules]: "kept x pre (servicePromotionUsed S q)" "kept x pre (servicePromotionCompensate S i)"
  by (rule kept_does [OF servicePromotionUsed_does], force,
      rule kept_does [of _ "\<lambda>r es. \<exists>y. es = [EvReverseWallet i y]"])
    (auto simp: servicePromotionCompensate_def intro!: does_act)

lemma kept_voucher [kept_rules]: "kept x pre (use_voucher S code req)"
  unfolding use_voucher_def
  by (intro kept_rules kept_bindc) (auto simp: deref_def intro!: kept_rules split: option.split)

lemma kept_confirm [kept_rules]: "kept x pre (confirm_trans S h)"
  unfolding confirm_trans_def by (intro kept_gets kept_bindc kept_rules)

lemma kept_success [kept_rules]: "kept x pre (success_order S)"
  unfolding success_order_def by (intro kept_bindc kept_rules) simp

lemma kept_link [kept_rules]: "kept x pre m \<Longrightarrow> kept x pre (link_order m)"
  unfolding link_order_def by (intro kept_bindc kept_rules) simp_all

lemma kept_comps [kept_rules]:
  assumes "\<And>r d. order_terms (k r d) = order_terms d"
  shows "kept x pre (comp_order S)" "kept x pre (comp_voucher S b)" "kept x pre (comp_init_payment S h k)"
    "kept x pre (comp_pending S g h)" "kept x pre (comp_provider S oc h h' k)"
proof -
  have fail: "kept x pre (fail_order_unless S k')" if "\<And>r d. order_terms (k' r d) = order_terms d" for k'
    unfolding fail_order_unless_def using that by (intro kept_rules kept_bindc)
  have cancel: "kept x pre (cancel_trans S h)" for h :: "'a st \<Rightarrow> ETransactionDTO \<Rightarrow> ETransactionDTO"
    unfolding cancel_trans_def by (intro kept_gets kept_bindc kept_rules)
  have pending: "kept x pre (comp_pending S g h)" for g and h :: "'a st \<Rightarrow> ETransactionDTO \<Rightarrow> ETransactionDTO"
    unfolding comp_pending_def pending_trans_def verify_order_unless_def by (intro kept_bindc kept_rules)
  show "kept x pre (comp_order S)" unfolding comp_order_def by (intro kept_bindc fail kept_rules) simp
  show "kept x pre (comp_voucher S b)"
    unfolding comp_voucher_def by (intro kept_the_order kept_bindc kept_whenc fail kept_rules) simp
  show "kept x pre (comp_init_payment S h k)"
    unfolding comp_init_payment_def using assms by (intro kept_gets kept_bindc kept_case kept_if cancel fail kept_ret)
  show "kept x pre (comp_pending S g h)" by (rule pending)
  show "kept x pre (comp_provider S oc h h' k)"
    unfolding comp_provider_def using assms by (intro kept_gets kept_if pending kept_bindc cancel kept_rules)
qed

text \<open>The bank and the provider write no order.\<close>

lemma kept_act [kept_rules]: "(\<And>a. written (ev a) = None) \<Longrightarrow> kept x pre (act g ev)"
  by (rule kept_does [of _ "\<lambda>r es. \<exists>a. es = key [ev a]"]) (auto intro!: does_act split: if_splits)

lemma kept_ask [kept_rules]: "kept x pre (ask g)"
  by (simp add: kept_def wp_rules)

subsection \<open>The sagas\<close>

lemma saga_invariantI:
  assumes "\<And>n f g. (n, f, g) \<in> set sts \<Longrightarrow> kept x pre f \<and> kept x pre g"
  shows "saga_invariant sts (terms_kept x pre)"
  by unfold_locales (use assms in \<open>auto simp: kept_def\<close>)

lemma kept_TopUp: "(n, f, g) \<in> set (TopUp_steps S request) \<Longrightarrow>
    kept (order_terms (TopUp_order request)) pre f \<and> kept (order_terms (TopUp_order request)) pre g"
  unfolding TopUp_steps_def
  by (auto simp: TopUp_init_order_def TopUp_voucher_def TopUp_init_payment_def TopUp_provider_def TopUp_confirm_def Let_def
      intro!: kept_rules kept_bindc)

lemma kept_bank_step: "kept x pre call \<Longrightarrow> (\<And>r. kept x pre (p r)) \<Longrightarrow> (\<And>r. kept x pre (k r)) \<Longrightarrow> kept x pre (bank_step call p k)"
  unfolding bank_step_def by (intro kept_bindc kept_rules) (simp_all)

lemma kept_IBFTTransfer [kept_rules]: "kept x pre (bank_IBFTTransfer S a c u i ib de am bn)"
  unfolding bank_IBFTTransfer_def httpRequest_def by (intro kept_bindc kept_rules) (simp split: prod.split)

lemma kept_IBFTransfer: "(n, f, g) \<in> set (IBFTransfer_steps S request) \<Longrightarrow>
    kept (order_terms (IBFTransfer_order request)) pre f \<and> kept (order_terms (IBFTransfer_order request)) pre g"
  unfolding IBFTransfer_steps_def IBFTransfer_reserve_def IBFTransfer_finish_def
  by (auto simp: IBFTransfer_voucher_def IBFTransfer_init_payment_def IBFTransfer_bank_def transfer_pending_def Let_def
      intro!: kept_rules kept_bank_step kept_bindc)

lemma kept_StaticQR: "(n, f, g) \<in> set (StaticQR_steps S request) \<Longrightarrow>
    kept (order_terms (StaticQR_order request)) pre f \<and> kept (order_terms (StaticQR_order request)) pre g"
  unfolding StaticQR_steps_def
  by (auto simp: StaticQR_voucher_def StaticQR_init_payment_def Let_def intro!: kept_rules kept_bindc)

interpretation topup_terms: saga_invariant "TopUp_steps S request" "terms_kept (order_terms (TopUp_order request)) pre"
  for S :: "'w services" and request pre
  by (rule saga_invariantI) (rule kept_TopUp)

interpretation transfer_terms: saga_invariant "IBFTransfer_steps S request" "terms_kept (order_terms (IBFTransfer_order request)) pre"
  for S :: "'w services" and request pre
  by (rule saga_invariantI) (rule kept_IBFTransfer)

interpretation qr_terms: saga_invariant "StaticQR_steps S request" "terms_kept (order_terms (StaticQR_order request)) pre"
  for S :: "'w services" and request pre
  by (rule saga_invariantI) (rule kept_StaticQR)

lemma terms_start: "terms_kept x (trace s) (fresh_vars None s)"
  by (simp add: terms_kept_def fresh_vars_def)

lemma orchestrate_terms:
  assumes "\<And>s. terms_kept x pre s \<Longrightarrow> wp (run_saga S name sts) (\<lambda>_. terms_kept x pre) (terms_kept x pre) s" "terms_kept x pre s"
  shows "wp (orchestrate S name sts) (\<lambda>_. terms_kept x pre) (terms_kept x pre) s"
  unfolding orchestrate_def wp_bindc by (rule wp_mono [OF assms(1) [OF assms(2)]]) (simp_all add: wp_rules)

text \<open>
  C10: whatever execution id the saga draws, and however the run ends, every order that a top-up writes to the
  collection has the amount, the user and the type of the request.
\<close>

theorem TopUp_keeps_terms:
  assumes "TopUp S request s = (r, t)"
  shows "\<exists>es. trace t = trace s @ es \<and> (\<forall>e \<in> set es. \<forall>d. written e = Some d \<longrightarrow>
     oe_Amount d = rq_Amount (tor_OrderRequest request) \<and> oe_UserID d = rq_UserID (tor_OrderRequest request) \<and>
     oe_OrderType d = rq_TransType (tor_OrderRequest request))"
proof -
  let ?x = "order_terms (TopUp_order request)"
  have "wp (TopUp S request) (\<lambda>_. terms_kept ?x (trace s)) (terms_kept ?x (trace s)) s"
    unfolding TopUp_def wp_bindc wp_modify by (intro orchestrate_terms topup_terms.run_saga_keeps terms_start)
  from wp_result [OF this assms] show ?thesis
    by (simp add: terms_kept_def order_terms_def TopUp_order_def Let_def)
qed

theorem TopUp_keeps_terms_witness:
  "\<exists>r t es. TopUp declining_services example_topup example_state = (r, t) \<and> trace t = trace example_state @ es \<and>
     (\<forall>e \<in> set es. \<forall>d. written e = Some d \<longrightarrow> oe_Amount d = 50000)"
proof -
  obtain r t where run: "TopUp declining_services example_topup example_state = (r, t)" by fastforce
  from TopUp_keeps_terms [OF run] run show ?thesis
    by (auto simp: example_topup_def example_request_def)
qed

text \<open>
  The same for a transfer to a bank account: no step and no compensation changes the amount, the user or the
  type of the order it writes.
\<close>

theorem IBFTransfer_keeps_terms:
  assumes "IBFTransfer S request s = (r, t)"
  shows "\<exists>es. trace t = trace s @ es \<and> (\<forall>e \<in> set es. \<forall>d. written e = Some d \<longrightarrow>
     oe_Amount d = rq_Amount (itr_OrderRequest request) \<and> oe_UserID d = rq_UserID (itr_OrderRequest request) \<and>
     oe_OrderType d = rq_TransType (itr_OrderRequest request))"
proof -
  let ?x = "order_terms (IBFTransfer_order request)"
  have "wp (IBFTransfer S request) (\<lambda>_. terms_kept ?x (trace s)) (terms_kept ?x (trace s)) s"
    unfolding IBFTransfer_def wp_bindc wp_modify by (intro orchestrate_terms transfer_terms.run_saga_keeps terms_start)
  from wp_result [OF this assms] show ?thesis
    by (simp add: terms_kept_def order_terms_def IBFTransfer_order_def Let_def)
qed

theorem IBFTransfer_keeps_terms_witness:
  "\<exists>r t es. IBFTransfer pending_services example_ibft example_state = (r, t) \<and> trace t = trace example_state @ es \<and>
     (\<forall>e \<in> set es. \<forall>d. written e = Some d \<longrightarrow> oe_Amount d = 50000)"
proof -
  obtain r t where run: "IBFTransfer pending_services example_ibft example_state = (r, t)" by fastforce
  from IBFTransfer_keeps_terms [OF run] run show ?thesis
    by (auto simp: example_ibft_def example_request_def)
qed

end
