(* ===== verification/BuyCard.thy ===== *)
theory BuyCard
  imports Examples
begin

text \<open>
  Buying phone cards from the wallet or with a payment token, \<open>application/buycard_orchestrator.go\<close>.
  An order paid by a linked bank card exists already and is looked up first; any other order is
  created by the first step.
\<close>

text \<open>\<open>bcq_PaymentToken\<close> is the \<open>OrderId\<close> of the \<open>ConfirmPaymentTokenRequest\<close>, \<open>None\<close> when that is nil.\<close>

record OrderBuyCardRequest =
  bcq_OrderRequest :: OrderRequest
  bcq_Telco :: string
  bcq_PaymentToken :: "string option"
  bcq_LongLifeOrderId :: string

definition BuyCard_order :: "OrderBuyCardRequest \<Rightarrow> OrderEntity \<Rightarrow> OrderEntity" where
  "BuyCard_order request paymentTokenOrder = (let r = bcq_OrderRequest request in OrderEntity_zero\<lparr>
     oe_OrderID := oe_OrderID paymentTokenOrder, oe_ServiceID := rq_ServiceID r, oe_UserID := rq_UserID r,
     oe_SubscribeMerchantID := rq_MerchantID r, oe_OrderType := rq_TransType r,
     oe_SubOrderType := rq_SubTransType r, oe_Amount := rq_Amount r, oe_Quantity := rq_Quantity r,
     oe_SourceOfFund := rq_SourceOfFund r, oe_VoucherCode := rq_VoucherCode r, oe_DeviceID := rq_DeviceID r,
     oe_PhoneTopUp := rq_PhoneTopup r, oe_CreatedAt := oe_CreatedAt paymentTokenOrder,
     oe_UpdatedAt := oe_UpdatedAt paymentTokenOrder, oe_PaymentOrderId := bcq_LongLifeOrderId request\<rparr>)"

definition cardNameMerchantQuotaCheck :: "OrderBuyCardRequest \<Rightarrow> string" where
  "cardNameMerchantQuotaCheck request =
     (if strings_Contains (bcq_Telco request) ''DT_'' then strings_Remove ''DT_'' (bcq_Telco request)
      else bcq_Telco request)"

definition BuyCard_voucher :: "'w services \<Rightarrow> OrderBuyCardRequest \<Rightarrow> ('w st, goerror option) comp" where
  "BuyCard_voucher S request = (let r = bcq_OrderRequest request in
     use_voucher S (rq_VoucherCode r) (\<lambda>d.
       voucher_request d (rq_Quantity r * rq_Amount r) (rq_SubTransType r) (rq_SourceOfFund r)))"

definition BuyCard_payment :: "OrderBuyCardRequest \<Rightarrow> OrderEntity \<Rightarrow> int64 \<Rightarrow> string \<Rightarrow> ETransactionDTO" where
  "BuyCard_payment request d disc voucher = (let r = bcq_OrderRequest request;
     dto = ETransactionDTO_zero\<lparr>
       tx_TransactionType := rq_TransType r, tx_SubTransactionType := rq_SubTransType r,
       tx_ServiceType := SERVICE_TYPE_WALLET, tx_Amount := rq_Amount r * rq_Quantity r,
       tx_DeviceId := rq_DeviceID r, tx_LastAmount := rq_Amount r * rq_Quantity r,
       tx_VoucherCode := rq_VoucherCode r, tx_AmountDiscount := disc,
       tx_SourceOfFund := rq_SourceOfFund r, tx_PayerId := rq_UserID r, tx_GpayAccountID := GPAY_ACCOUNT_ID,
       tx_GpayTypeWallet := AmountWal, tx_AppId := rq_SubTransType r, tx_VoucherID := voucher,
       tx_OrderId := oe_OrderID d, tx_RefId := rq_RefID r\<rparr>
     in if rq_MerchantID r \<noteq> []
        then dto\<lparr>tx_SubscriberMerchantID := rq_MerchantID r, tx_SubscriberMerchantTypeWallet := AmountCash\<rparr>
        else dto)"

definition BuyCard_init_payment :: "'w services \<Rightarrow> OrderBuyCardRequest \<Rightarrow> ('w st, goerror option) comp" where
  "BuyCard_init_payment S request =
     bindc the_order (\<lambda>d. bindc (gets discount) (\<lambda>disc. bindc (gets voucherId) (\<lambda>v.
       init_trans S True (BuyCard_payment request d disc v))))"

definition BuyCard_req :: "OrderBuyCardRequest \<Rightarrow> OrderEntity \<Rightarrow> ETransactionDTO \<Rightarrow> BuyCardReq" where
  "BuyCard_req request d t = (let r = bcq_OrderRequest request in
     \<lparr>bc_Price = rq_Amount r, bc_Telco = bcq_Telco request, bc_Quantity = rq_Quantity r,
      bc_UserId = rq_UserID r, bc_OrderId = oe_OrderID d, bc_TransactionId = tx_TransactionId t\<rparr>)"

definition BuyCard_provider :: "'w services \<Rightarrow> OrderBuyCardRequest \<Rightarrow> ('w st, goerror option) comp" where
  "BuyCard_provider S request =
     bindc the_order (\<lambda>d. bindc the_trans (\<lambda>t.
     bindc (act (cs_BuyCard S (BuyCard_req request d t)) (EvBuyCard (BuyCard_req request d t))) (\<lambda>r.
     thenc (modify (\<lambda>s. s\<lparr>resp_Cards := []\<rparr>))
    (case r of
       Inl e \<Rightarrow> thenc (set_failReason (GetGrpcErrMessage S e)) (ret (Some (ErrorString (GetGrpcErrMessage S e))))
     | Inr buycardRes \<Rightarrow>
         thenc (modify (\<lambda>s. s\<lparr>resp_Cards := bcr_Cards buycardRes,
           providerMerchantId := bcr_ProviderMerchantId buycardRes,
           providerMerchant := bcr_ProviderMerchant buycardRes, cardType := bcr_CardType buycardRes\<rparr>))
         (if bcr_Status buycardRes = TRANSACTION_STATUS_PENDING
          then thenc (modify (\<lambda>s. s\<lparr>isPendingSrvCard := True\<rparr>)) (ret (Some ErrPendingOrder))
          else ret None)))))"

definition BuyCard_discount_req ::
    "OrderBuyCardRequest \<Rightarrow> ETransactionDTO \<Rightarrow> string \<Rightarrow> string \<Rightarrow> VendorDiscountReq" where
  "BuyCard_discount_req request t provider ctype = (let r = bcq_OrderRequest request in
     \<lparr>vd_Amount = rq_Amount r, vd_ServiceType = tx_ServiceType t, vd_TransType = tx_TransactionType t,
      vd_SubTransType = tx_SubTransactionType t, vd_MerchantId = rq_MerchantID r, vd_Provider = provider,
      vd_CardName = cardNameMerchantQuotaCheck request, vd_CardType = ctype\<rparr>)"

definition BuyCard_fee :: "'w services \<Rightarrow> OrderBuyCardRequest \<Rightarrow> ('w st, goerror option) comp" where
  "BuyCard_fee S request =
     bindc the_trans (\<lambda>t. bindc (gets providerMerchant) (\<lambda>p. bindc (gets cardType) (\<lambda>c.
     bindc (ask (mf_VendorDiscount S (BuyCard_discount_req request t p c))) (\<lambda>x. case x of
       Inl e \<Rightarrow> thenc (set_failReason (Error e)) (ret (Some e))
     | Inr merchantFee \<Rightarrow> (let q = rq_Quantity (bcq_OrderRequest request) in
         thenc (update_trans (\<lambda>t. t\<lparr>
           tx_DiscountForMerchantSubscriber := q * vdr_MerchantDiscountAmount merchantFee,
           tx_DiscountOfMerchantProvider := q * vdr_VendorDiscountAmount merchantFee\<rparr>)) (ret None))))))"

definition BuyCard_confirm :: "'w services \<Rightarrow> ('w st, goerror option) comp" where
  "BuyCard_confirm S = confirm_trans S (\<lambda>s t. t\<lparr>tx_ProviderMerchantID := providerMerchantId s\<rparr>)"

definition BuyCard_reserve :: "'w services \<Rightarrow> OrderBuyCardRequest \<Rightarrow> OrderEntity \<Rightarrow> 'w st step_def list" where
  "BuyCard_reserve S request orderDto =
     (if oe_OrderID orderDto = [] then [(''INIT_ORDER'', init_this_order S, comp_order S)] else []) @
     [(''PROCESSING_ORDER'', assign_order (ProcessingOrder S), comp_order S),
      (''ACCOUNT_VOUCHER'', BuyCard_voucher S request, comp_voucher S True),
      (''INIT_PAYMENT'', BuyCard_init_payment S request, comp_init_payment S with_reason internal_err)]"

definition BuyCard_finish :: "'w services \<Rightarrow> OrderBuyCardRequest \<Rightarrow> 'w st step_def list" where
  "BuyCard_finish S request =
     [(''PROVIDER CARD FEE'', BuyCard_fee S request, ret None),
      (''FINALIZATION_PAYMENT'', BuyCard_confirm S, comp_pending S False as_is),
      (''SUCCESS_ORDER'', success_linked_order S, comp_pending S False as_is)]"

definition BuyCard_steps :: "'w services \<Rightarrow> OrderBuyCardRequest \<Rightarrow> OrderEntity \<Rightarrow> 'w st step_def list" where
  "BuyCard_steps S request orderDto =
     BuyCard_reserve S request orderDto @
     (''BUY_CARD'', BuyCard_provider S request, comp_provider S isPendingSrvCard as_is with_reason internal_err) #
     BuyCard_finish S request"

definition BuyCard :: "'w services \<Rightarrow> OrderBuyCardRequest \<Rightarrow> ('w st, OrderEntity option \<times> goerror option) comp" where
  "BuyCard S request =
     thenc (modify (fresh_vars None))
    (with_order (token_order S (bcq_OrderRequest request) (bcq_PaymentToken request)) (\<lambda>paymentTokenOrder.
       thenc (set_order (Some (BuyCard_order request paymentTokenOrder)))
         (orchestrate S ''BuyCardActionAccount''
           (BuyCard_steps S request (BuyCard_order request paymentTokenOrder)))))"

subsection \<open>A purchase that succeeds\<close>

lemma BuyCard_init_payment_succeeds:
  assumes "\<And>d q t w es. order_dto s = Some d \<Longrightarrow> init_request (BuyCard_payment request d (discount s) (voucherId s)) q \<Longrightarrow>
     key es = [EvInit q (Inr t)] \<Longrightarrow> R ((appended s w es)\<lparr>trans := Some t\<rparr>)"
  shows "succeeds (BuyCard_init_payment S request) R s"
  unfolding BuyCard_init_payment_def wp_bindc wp_the_order wp_gets
  by (auto split: option.split intro!: init_trans_succeeds assms)

lemma BuyCard_provider_succeeds:
  assumes "\<And>d t p w es. order_dto s = Some d \<Longrightarrow> trans s = Some t \<Longrightarrow> bcr_Status p \<noteq> TRANSACTION_STATUS_PENDING \<Longrightarrow>
     es = [EvBuyCard (BuyCard_req request d t) (Inr p)] \<Longrightarrow>
     R ((appended s w es)\<lparr>resp_Cards := bcr_Cards p, providerMerchantId := bcr_ProviderMerchantId p,
           providerMerchant := bcr_ProviderMerchant p, cardType := bcr_CardType p\<rparr>)"
  shows "succeeds (BuyCard_provider S request) R s"
  using assms by (auto simp: BuyCard_provider_def wp_rules appended_def split: option.split sum.split)

lemma BuyCard_fee_succeeds:
  assumes "\<And>t (f :: VendorDiscountRes) w. trans s = Some t \<Longrightarrow> R ((appended s w [])\<lparr>trans := Some (t\<lparr>
      tx_DiscountForMerchantSubscriber := rq_Quantity (bcq_OrderRequest request) * vdr_MerchantDiscountAmount f,
      tx_DiscountOfMerchantProvider := rq_Quantity (bcq_OrderRequest request) * vdr_VendorDiscountAmount f\<rparr>)\<rparr>)"
  shows "succeeds (BuyCard_fee S request) R s"
  using assms by (auto simp: BuyCard_fee_def Let_def wp_rules appended_def split: option.split sum.split)

text \<open>What the outside has seen of a purchase that went well, the cards and the order that are returned.\<close>

definition BuyCard_done ::
    "OrderBuyCardRequest \<Rightarrow> OrderEntity \<Rightarrow> event list \<Rightarrow> CardObjDTO list \<Rightarrow> OrderEntity \<Rightarrow> bool" where
  "BuyCard_done request token evs cards d \<longleftrightarrow> (\<exists>ops d0 d1 f1 n1 vs q t p c c' f2 n2 disc v (fee :: VendorDiscountRes).
     evs = ops @ EvReplaceOrder f1 d1 (Inr (Suc n1)) # vs @
       [EvInit q (Inr t), EvBuyCard (BuyCard_req request d1 t) (Inr p), EvConfirm c (Inr c'),
        EvReplaceOrder f2 d (Inr (Suc n2))] \<and>
     opened (BuyCard_order request token) ops d0 \<and> restamped ORDER_PROCESSING d0 d1 \<and>
     restamped ORDER_SUCCESS (d1\<lparr>oe_TransactionID := tx_TransactionId c'\<rparr>) d \<and>
     init_request (BuyCard_payment request d1 disc v) q \<and>
     bcr_Status p \<noteq> TRANSACTION_STATUS_PENDING \<and> cards = bcr_Cards p \<and>
     c = t\<lparr>
       tx_DiscountForMerchantSubscriber := rq_Quantity (bcq_OrderRequest request) * vdr_MerchantDiscountAmount fee,
       tx_DiscountOfMerchantProvider := rq_Quantity (bcq_OrderRequest request) * vdr_VendorDiscountAmount fee,
       tx_ProviderMerchantID := bcr_ProviderMerchantId p\<rparr> \<and>
     voucher_used (rq_VoucherCode (bcq_OrderRequest request)) d1 disc v vs)"

abbreviation BuyCard_result :: "OrderBuyCardRequest \<Rightarrow> OrderEntity \<Rightarrow> 'w st \<Rightarrow> 'w st \<Rightarrow> bool" where
  "BuyCard_result request token s t \<equiv> \<exists>d evs. order_dto t = Some d \<and> key (trace t) = key (trace s) @ evs \<and>
     BuyCard_done request token evs (resp_Cards t) d \<and> resp_OrderEntity t = Some (ConvertToProto d)"

lemma BuyCard_steps_succeed:
  assumes "order_dto s = Some (BuyCard_order request token)" "discount s = 0" "voucherId s = []"
  shows "succeeds (run_steps (BuyCard_steps S request (BuyCard_order request token)) []) (BuyCard_result request token s) s"
proof (cases "oe_OrderID (BuyCard_order request token) = []")
  case True
  show ?thesis
    unfolding BuyCard_steps_def BuyCard_reserve_def BuyCard_finish_def append.simps if_P [OF True]
      BuyCard_voucher_def BuyCard_confirm_def Let_def
    by (intro succeeds_Cons succeeds_Nil init_this_order_succeeds assign_order_succeeds [OF ProcessingOrder_does]
      use_voucher_succeeds BuyCard_init_payment_succeeds BuyCard_provider_succeeds BuyCard_fee_succeeds
      confirm_trans_succeeds success_linked_order_succeeds)
    (use assms True in \<open>auto simp: BuyCard_done_def opened_def voucher_used_def voucher_request_def\<close>)
next
  case False
  show ?thesis
    unfolding BuyCard_steps_def BuyCard_reserve_def BuyCard_finish_def append.simps if_not_P [OF False]
      BuyCard_voucher_def BuyCard_confirm_def Let_def
    by (intro succeeds_Cons succeeds_Nil assign_order_succeeds [OF ProcessingOrder_does]
      use_voucher_succeeds BuyCard_init_payment_succeeds BuyCard_provider_succeeds BuyCard_fee_succeeds
      confirm_trans_succeeds success_linked_order_succeeds)
    (use assms False in \<open>auto simp: BuyCard_done_def opened_def voucher_used_def voucher_request_def\<close>)
qed

lemma BuyCard_wp:
  assumes "fresh_saga S s"
    and "\<And>token s'. token_answer (bcq_OrderRequest request) token \<Longrightarrow> started (Some (BuyCard_order request token)) s s' \<Longrightarrow>
      fresh_execution S s' \<Longrightarrow>
      wp (orchestrate S ''BuyCardActionAccount'' (BuyCard_steps S request (BuyCard_order request token))) Q E s'"
    and "\<And>e s'. started None s s' \<Longrightarrow> Q (None, Some e) s'"
    and "\<And>s'. started None s s' \<Longrightarrow> E s'"
  shows "wp (BuyCard S request) Q E s"
  unfolding BuyCard_def by (rule with_order_started [OF assms(1) token_order_does assms(2-)])

subsection \<open>At most once, and in order\<close>

lemma BuyCard_atmost_steps [atmost_rules]:
  "(\<And>u x. A (EvUseVoucher u x) \<Longrightarrow> 0 < n) \<Longrightarrow> atmost A n (BuyCard_voucher S request)"
  "(\<And>q x. A (EvInit q x) \<Longrightarrow> 0 < n) \<Longrightarrow> atmost A n (BuyCard_init_payment S request)"
  "(\<And>t x. A (EvConfirm t x) \<Longrightarrow> 0 < n) \<Longrightarrow> atmost A n (BuyCard_confirm S)"
  "atmost A n (BuyCard_fee S request)"
  unfolding BuyCard_voucher_def BuyCard_init_payment_def BuyCard_confirm_def BuyCard_fee_def Let_def
  by (intro atmost_rules; simp)+

lemma BuyCard_atmost_provider [atmost_rules]:
  "(\<And>u x. A (EvBuyCard u x) \<Longrightarrow> 0 < n) \<Longrightarrow> atmost A n (BuyCard_provider S request)"
  unfolding BuyCard_provider_def
  by (rule atmost_bindc, rule atmost_statements, rule atmost_bindc, rule atmost_statements, rule atmost_bindc_left)
    (auto simp: Suc_le_eq intro!: atmost_rules)

lemma BuyCard_run_once:
  "atmost is_provider 1 (run_steps (BuyCard_steps S request d) [])"
  "atmost is_init 1 (run_steps (BuyCard_steps S request d) [])"
  "atmost is_confirm 1 (run_steps (BuyCard_steps S request d) [])"
  "atmost is_voucher 1 (run_steps (BuyCard_steps S request d) [])"
  unfolding BuyCard_steps_def BuyCard_reserve_def BuyCard_finish_def
     apply (rule atmost_run_named [where k = "\<lambda>n. of_bool (n = ''BUY_CARD'')"]; auto intro!: atmost_rules split: if_splits)
    apply (rule atmost_run_named [where k = "\<lambda>n. of_bool (n = ''INIT_PAYMENT'')"]; auto intro!: atmost_rules split: if_splits)
   apply (rule atmost_run_named [where k = "\<lambda>n. of_bool (n = ''FINALIZATION_PAYMENT'')"]; auto intro!: atmost_rules split: if_splits)
  apply (rule atmost_run_named [where k = "\<lambda>n. of_bool (n = ''ACCOUNT_VOUCHER'')"]; auto intro!: atmost_rules split: if_splits)
  done

lemma BuyCard_provider_guards: "guards is_confirm provider_accepted (BuyCard_provider S request)"
  unfolding guards_def BuyCard_provider_def
  by (auto simp: wp_rules adds_def split: option.split sum.split)

lemma BuyCard_confirm_ordered:
  assumes "fresh_saga S s"
  shows "wp (BuyCard S request) (\<lambda>_. ordered is_confirm provider_accepted s) (ordered is_confirm provider_accepted s) s"
  by (rule BuyCard_wp [OF assms], erule (1) orchestrate_started_ordered, rule BuyCard_steps_def)
    (auto simp: BuyCard_provider_guards BuyCard_reserve_def BuyCard_finish_def
      intro!: atmost_rules ordered_free started_adds split: if_splits)

lemma BuyCard_once:
  assumes "fresh_saga S s" and "A \<in> {is_provider, is_init, is_confirm, is_voucher}"
  shows "wp (BuyCard S request) (\<lambda>_. adds A 1 s) (adds A 1 s) s"
  by (rule BuyCard_wp [OF assms(1)], erule (1) orchestrate_started_atmost)
    (use assms(2) BuyCard_run_once in \<open>auto intro: started_adds\<close>)

subsection \<open>Failed runs\<close>

lemma BuyCard_error_settles:
  assumes "fresh_saga S s"
  shows "wp (BuyCard S request) (\<lambda>(p, err) _. err \<noteq> None \<and> p \<noteq> None \<longrightarrow> (\<exists>d. p = Some d \<and> settled d)) (\<lambda>_. True) s"
proof (rule BuyCard_wp [OF assms(1)])
  fix token s'
  assume "fresh_execution S s'"
  moreover have "\<exists>n f sts. BuyCard_steps S request (BuyCard_order request token) = (n, f, comp_order S) # sts"
    by (simp add: BuyCard_steps_def BuyCard_reserve_def)
  ultimately show "wp (orchestrate S ''BuyCardActionAccount'' (BuyCard_steps S request (BuyCard_order request token)))
     (\<lambda>(p, err) _. err \<noteq> None \<and> p \<noteq> None \<longrightarrow> (\<exists>d. p = Some d \<and> settled d)) (\<lambda>_. True) s'"
    by (auto intro: wp_mono orchestrate_settles comp_order_settles)
qed simp_all

lemma BuyCard_provider_pending:
  "wp (BuyCard_provider S request) (\<lambda>err u. adds provider_pending 0 t u \<or>
     (err = Some ErrPendingOrder \<and> isPendingSrvCard u \<and> adds gives_up 0 t u)) (adds provider_pending 0 t) t"
  by (auto simp: BuyCard_provider_def wp_rules adds_def split: option.split sum.split)

lemma BuyCard_stays_open:
  assumes "fresh_saga S s"
  shows "wp (BuyCard S request) (\<lambda>(p, err) u. adds provider_pending 0 s u \<or> (\<exists>e. err = Some e \<and> e = ErrPendingOrder \<and> still s u))
     (\<lambda>u. adds provider_pending 0 s u \<or> still s u) s"
  by (rule BuyCard_wp [OF assms], erule (1) orchestrate_started_open [where Pe = "\<lambda>e. e = ErrPendingOrder"], rule BuyCard_steps_def, rule comp_provider_parks)
    (use BuyCard_provider_pending in
      \<open>auto simp: BuyCard_reserve_def BuyCard_finish_def intro!: atmost_rules patient_comps started_adds split: if_splits\<close>)

subsection \<open>Progress\<close>

lemma BuyCard_provider_goes:
  assumes "cooperative S" "order_dto s \<noteq> None" "trans s \<noteq> None"
    and "\<And>c i m t w es. R ((appended s w es)\<lparr>resp_Cards := c, providerMerchantId := i, providerMerchant := m, cardType := t\<rparr>)"
  shows "goes (BuyCard_provider S request) R s"
proof -
  have call: "fine (act (cs_BuyCard S q) ev) (\<lambda>r. \<exists>p. r = Inr p \<and> bcr_Status p \<noteq> TRANSACTION_STATUS_PENDING)" for q ev
    by (rule fine_act) (rule cooperativeD(3) [OF assms(1)])
  show ?thesis
    unfolding BuyCard_provider_def wp_bindc wp_the_order wp_the_trans using assms(2-)
    by (auto split: option.split intro!: fine_wp [OF call]) (simp add: wp_rules)
qed

lemma BuyCard_fee_goes:
  assumes "obliging S" "trans s \<noteq> None" and "\<And>t w es. R ((appended s w es)\<lparr>trans := Some t\<rparr>)"
  shows "goes (BuyCard_fee S request) R s"
proof -
  have call: "fine (ask (mf_VendorDiscount S q)) (\<lambda>r. \<exists>p. r = Inr p)" for q
    by (rule fine_ask) (rule obligingD(12) [OF assms(1)])
  show ?thesis
    unfolding BuyCard_fee_def wp_bindc wp_the_trans wp_gets Let_def using assms(2-)
    by (auto split: option.split intro!: fine_wp [OF call]) (simp add: wp_rules)
qed

lemma BuyCard_init_payment_goes:
  assumes "obliging S" "order_dto s \<noteq> None" and "\<And>t w es. R ((appended s w es)\<lparr>trans := Some t\<rparr>)"
  shows "goes (BuyCard_init_payment S request) R s"
  unfolding BuyCard_init_payment_def wp_bindc wp_the_order wp_gets
  using assms by (auto split: option.split intro!: init_trans_goes)

lemma BuyCard_steps_go:
  assumes "cooperative S" "order_dto s = Some (BuyCard_order request OrderEntity_zero)"
  shows "goes (run_steps (BuyCard_steps S request (BuyCard_order request OrderEntity_zero)) []) (\<lambda>t. order_dto t \<noteq> None) s"
proof -
  have new: "oe_OrderID (BuyCard_order request OrderEntity_zero) = []" "oe_LuckyMoneyID (BuyCard_order request OrderEntity_zero) = []"
    by (simp_all add: BuyCard_order_def OrderEntity_zero_def Let_def)
  show ?thesis
    unfolding BuyCard_steps_def BuyCard_reserve_def BuyCard_finish_def if_P [OF new(1)] append.simps
      BuyCard_voucher_def BuyCard_confirm_def Let_def
    by (intro goes_Cons goes_Nil init_this_order_goes assign_order_goes [OF order_ops_fine(1)] use_voucher_goes
        BuyCard_init_payment_goes BuyCard_provider_goes BuyCard_fee_goes confirm_trans_goes success_linked_order_goes assms cooperativeD(1) [OF assms(1)])
      (use assms(2) new(2) in simp_all)
qed

lemma BuyCard_progress:
  assumes "cooperative S" "fresh_execution S s" "rq_SourceOfFund (bcq_OrderRequest request) \<noteq> SOURCE_OF_FUND_BANK_ATM"
  shows "\<exists>d t. BuyCard S request s = (Ret (Some d, None), t)"
proof -
  let ?d = "BuyCard_order request OrderEntity_zero"
  have "\<exists>d t. orchestrate S ''BuyCardActionAccount'' (BuyCard_steps S request ?d) ((fresh_vars None s)\<lparr>order_dto := Some ?d\<rparr>)
      = (Ret (Some d, None), t)"
    by (rule orchestrate_goes_on [OF assms(2)], rule BuyCard_steps_go) (simp_all add: assms(1) started_sel)
  then show ?thesis
    using assms(3) by (simp add: BuyCard_def with_order_def token_order_def bindc_def set_order_def)
qed

subsection \<open>Properties\<close>

definition example_buycard :: OrderBuyCardRequest where
  "example_buycard = \<lparr>bcq_OrderRequest = example_request, bcq_Telco = ''DT_viettel'', bcq_PaymentToken = None,
     bcq_LongLifeOrderId = []\<rparr>"

lemma example_buycard_wallet: "rq_SourceOfFund (bcq_OrderRequest example_buycard) \<noteq> SOURCE_OF_FUND_BANK_ATM"
  by (simp add: example_buycard_def example_request_def go_consts)



text \<open>
  Whatever the other services answer, buying cards asks the provider at most once, uses at most one
  voucher, opens and confirms at most one payment, and confirms only after the provider has
  accepted.
\<close>

theorem BuyCard_disciplined:
  assumes "fresh_saga S s" and "BuyCard S request s = (r, t)"
  shows "\<exists>es. trace t = trace s @ es \<and>
     (\<forall>A \<in> {is_provider, is_init, is_confirm, is_voucher}. length (filter A (key es)) \<le> 1) \<and>
     (\<forall>i < length (key es). is_confirm (key es ! i) \<longrightarrow> (\<exists>j < i. provider_accepted (key es ! j)))"
  by (rule run_disciplined [OF assms(2) BuyCard_once [OF assms(1)] BuyCard_confirm_ordered [OF assms(1)]])

theorem BuyCard_disciplined_witness:
  "\<exists>d t es. BuyCard example_services example_buycard example_state = (Ret (Some d, None), t) \<and>
     trace t = trace example_state @ es \<and> length (filter is_provider (key es)) \<le> 1"
proof -
  obtain d t where run: "BuyCard example_services example_buycard example_state = (Ret (Some d, None), t)"
    using BuyCard_progress [OF example_cooperative example_fresh example_buycard_wallet] by blast
  from BuyCard_disciplined [OF example_fresh_saga run] run show ?thesis by blast
qed

end
