(* ===== verification/PayBill.thy ===== *)
theory PayBill
  imports Examples
begin

text \<open>
  Paying a bill through the card service, \<open>application/paid_bill_orchestrator.go\<close>.  The kind of
  the bill is looked up by the service code first and names the type of the transaction.
\<close>

record OrderPayBillRequest =
  pbq_OrderRequest :: OrderRequest
  pbq_ServiceCode :: string
  pbq_BillingCode :: string
  pbq_AreaCode :: string
  pbq_PaymentToken :: "string option"

text \<open>The \<open>switch vendorInfo.Vendor.Type\<close>; another type leaves the variable as it is.\<close>

definition bill_type :: "string \<Rightarrow> string \<Rightarrow> string" where
  "bill_type vendorType old =
     (if vendorType = ''electric'' then SUB_TRANSTYPE_WALLET_PAY_BILL_ELECTRIC
      else if vendorType = ''water'' then SUB_TRANSTYPE_WALLET_PAY_BILL_WATTER
      else if vendorType = ''home_credit'' then SUB_TRANSTYPE_WALLET_PAY_BILL_LOAN
      else if vendorType = ''tv'' then SUB_TRANSTYPE_WALLET_PAY_BILL_TV
      else if vendorType = ''internet'' then SUB_TRANSTYPE_WALLET_PAY_BILL_INTERNET
      else if vendorType = ''telephone'' then SUB_TRANSTYPE_WALLET_PAY_BILL_TELEPHONE
      else old)"

definition PayBill_vendor :: "'w services \<Rightarrow> OrderPayBillRequest \<Rightarrow> ('w st, goerror option) comp" where
  "PayBill_vendor S request =
     bindc (ask (cs_FindVendor S (pbq_ServiceCode request))) (\<lambda>r. case r of
       Inl e \<Rightarrow> ret (Some (if e = ErrNoDocuments then ErrorString ''Ma dich vu khong hop le'' else e))
     | Inr vendorInfo \<Rightarrow> bindc (deref vendorInfo) (\<lambda>vendor.
         thenc (modify (\<lambda>s. s\<lparr>subTransactionType := bill_type (vn_Type vendor) (subTransactionType s)\<rparr>)) (ret None)))"

definition PayBill_order :: "OrderPayBillRequest \<Rightarrow> OrderEntity \<Rightarrow> OrderEntity" where
  "PayBill_order request paymentTokenOrder = (let r = pbq_OrderRequest request in OrderEntity_zero\<lparr>
     oe_OrderID := oe_OrderID paymentTokenOrder, oe_ServiceID := rq_ServiceID r, oe_UserID := rq_UserID r,
     oe_SubscribeMerchantID := rq_MerchantID r, oe_OrderType := rq_TransType r,
     oe_SubOrderType := rq_SubTransType r, oe_Amount := rq_Amount r, oe_Quantity := rq_Quantity r,
     oe_SourceOfFund := rq_SourceOfFund r, oe_VoucherCode := rq_VoucherCode r, oe_DeviceID := rq_DeviceID r,
     oe_PhoneTopUp := rq_PhoneTopup r\<rparr>)"

definition PayBill_voucher :: "'w services \<Rightarrow> OrderPayBillRequest \<Rightarrow> ('w st, goerror option) comp" where
  "PayBill_voucher S request = (let r = pbq_OrderRequest request in
     bindc (gets subTransactionType) (\<lambda>ty.
     use_voucher S (rq_VoucherCode r) (\<lambda>d. voucher_request d (rq_Amount r) ty (rq_SourceOfFund r))))"

definition PayBill_payment ::
    "OrderPayBillRequest \<Rightarrow> OrderEntity \<Rightarrow> string \<Rightarrow> OrderEntity \<Rightarrow> int64 \<Rightarrow> string \<Rightarrow> ETransactionDTO" where
  "PayBill_payment request paymentTokenOrder ty d disc voucher = (let r = pbq_OrderRequest request;
     dto = ETransactionDTO_zero\<lparr>
       tx_TransactionType := rq_TransType r, tx_SubTransactionType := ty,
       tx_ServiceType := SERVICE_TYPE_WALLET, tx_Amount := rq_Amount r,
       tx_DeviceId := rq_DeviceID r, tx_LastAmount := rq_Amount r,
       tx_VoucherCode := rq_VoucherCode r, tx_AmountDiscount := disc,
       tx_SourceOfFund := rq_SourceOfFund r, tx_PayerId := rq_UserID r, tx_GpayAccountID := GPAY_ACCOUNT_ID,
       tx_GpayTypeWallet := AmountWal, tx_AppId := ty, tx_VoucherID := voucher,
       tx_OrderId := oe_OrderID d, tx_RefId := rq_RefID r\<rparr>;
     dto = (if rq_SourceOfFund r = SOURCE_OF_FUND_BANK_ATM
            then dto\<lparr>tx_BankCode := oe_BankCode paymentTokenOrder\<rparr> else dto)
     in if rq_MerchantID r \<noteq> []
        then dto\<lparr>tx_SubscriberMerchantID := rq_MerchantID r, tx_SubscriberMerchantTypeWallet := AmountCash\<rparr>
        else dto)"

definition PayBill_init_payment ::
    "'w services \<Rightarrow> OrderPayBillRequest \<Rightarrow> OrderEntity \<Rightarrow> ('w st, goerror option) comp" where
  "PayBill_init_payment S request paymentTokenOrder =
     bindc (gets subTransactionType) (\<lambda>ty.
     thenc (update_order (\<lambda>d. d\<lparr>oe_SubOrderType := ty\<rparr>))
    (bindc the_order (\<lambda>d. bindc (gets discount) (\<lambda>disc. bindc (gets voucherId) (\<lambda>v.
       init_trans S True (PayBill_payment request paymentTokenOrder ty d disc v))))))"

definition PayBill_req :: "OrderPayBillRequest \<Rightarrow> string \<Rightarrow> OrderEntity \<Rightarrow> ETransactionDTO \<Rightarrow> PaidBillReq" where
  "PayBill_req request ty d t = (let r = pbq_OrderRequest request in
     \<lparr>pb_Amount = rq_Amount r, pb_ServiceCode = pbq_ServiceCode request,
      pb_CustomerReference = pbq_BillingCode request, pb_OrderId = oe_OrderID d, pb_UserId = rq_UserID r,
      pb_SubTransType = ty, pb_AreaCode = pbq_AreaCode request, pb_TransactionId = tx_TransactionId t\<rparr>)"

definition PayBill_provider :: "'w services \<Rightarrow> OrderPayBillRequest \<Rightarrow> ('w st, goerror option) comp" where
  "PayBill_provider S request =
     bindc the_order (\<lambda>d. bindc the_trans (\<lambda>t. bindc (gets subTransactionType) (\<lambda>ty.
     bindc (act (cs_PaidBill S (PayBill_req request ty d t)) (EvPaidBill (PayBill_req request ty d t))) (\<lambda>r. case r of
       Inl e \<Rightarrow> thenc (set_failReason (Error e)) (ret (Some ErrFailOrder))
     | Inr payBillResponse \<Rightarrow>
         thenc (modify (\<lambda>s. s\<lparr>providerMerchantId := pbr_ProviderMerchantId payBillResponse\<rparr>))
         (if pbr_Status payBillResponse = TRANSACTION_STATUS_PENDING
          then thenc (modify (\<lambda>s. s\<lparr>isPendingSrvCard := True\<rparr>)) (ret (Some ErrPendingOrder))
          else ret None)))))"

definition PayBill_confirm :: "'w services \<Rightarrow> ('w st, goerror option) comp" where
  "PayBill_confirm S = confirm_trans S (\<lambda>s t. t\<lparr>tx_ProviderMerchantID := providerMerchantId s\<rparr>)"

definition PayBill_reserve :: "'w services \<Rightarrow> OrderPayBillRequest \<Rightarrow> OrderEntity \<Rightarrow> 'w st step_def list" where
  "PayBill_reserve S request paymentTokenOrder =
     (''Check Valid service code of bill'', PayBill_vendor S request, ret None) #
     (if oe_OrderID paymentTokenOrder = [] then [(''INIT_ORDER'', init_this_order S, comp_order S)] else []) @
     [(''PROCESSING_ORDER'', assign_order (ProcessingOrder S), comp_order S),
      (''ACCOUNT_VOUCHER'', PayBill_voucher S request, comp_voucher S True),
      (''INIT_PAYMENT'', PayBill_init_payment S request paymentTokenOrder,
         comp_init_payment S with_reason internal_err)]"

definition PayBill_finish :: "'w services \<Rightarrow> 'w st step_def list" where
  "PayBill_finish S =
     [(''FINALIZATION_PAYMENT'', PayBill_confirm S, comp_pending S False as_is),
      (''SUCCESS_ORDER'', success_order S, comp_pending S False as_is)]"

definition PayBill_steps :: "'w services \<Rightarrow> OrderPayBillRequest \<Rightarrow> OrderEntity \<Rightarrow> 'w st step_def list" where
  "PayBill_steps S request paymentTokenOrder =
     PayBill_reserve S request paymentTokenOrder @
     (''PAY_BILL'', PayBill_provider S request, comp_provider S isPendingSrvCard as_is with_reason order_as_is) #
     PayBill_finish S"

definition PayBill :: "'w services \<Rightarrow> OrderPayBillRequest \<Rightarrow> ('w st, OrderEntity option \<times> goerror option) comp" where
  "PayBill S request =
     thenc (modify (fresh_vars None))
    (with_order (token_order S (pbq_OrderRequest request) (pbq_PaymentToken request)) (\<lambda>paymentTokenOrder.
       thenc (set_order (Some (PayBill_order request paymentTokenOrder)))
         (orchestrate S ''PayBillActionAccount'' (PayBill_steps S request paymentTokenOrder))))"

subsection \<open>A payment that succeeds\<close>

lemma PayBill_vendor_succeeds:
  assumes "\<And>ty w. R ((appended s w [])\<lparr>subTransactionType := bill_type ty (subTransactionType s)\<rparr>)"
  shows "succeeds (PayBill_vendor S request) R s"
  using assms by (auto simp: PayBill_vendor_def wp_rules appended_def split: option.split sum.split)

lemma PayBill_init_payment_succeeds:
  assumes "\<And>d q t w es. order_dto s = Some d \<Longrightarrow>
     init_request (PayBill_payment request p (subTransactionType s) (d\<lparr>oe_SubOrderType := subTransactionType s\<rparr>)
       (discount s) (voucherId s)) q \<Longrightarrow>
     key es = [EvInit q (Inr t)] \<Longrightarrow>
     R ((appended s w es)\<lparr>order_dto := Some (d\<lparr>oe_SubOrderType := subTransactionType s\<rparr>), trans := Some t\<rparr>)"
  shows "succeeds (PayBill_init_payment S request p) R s"
  unfolding PayBill_init_payment_def wp_bindc wp_the_order wp_gets wp_updates
  using assms by (auto split: option.split intro!: init_trans_succeeds)

lemma PayBill_provider_succeeds:
  assumes "\<And>d t p w es. order_dto s = Some d \<Longrightarrow> trans s = Some t \<Longrightarrow> pbr_Status p \<noteq> TRANSACTION_STATUS_PENDING \<Longrightarrow>
     es = [EvPaidBill (PayBill_req request (subTransactionType s) d t) (Inr p)] \<Longrightarrow>
     R ((appended s w es)\<lparr>providerMerchantId := pbr_ProviderMerchantId p\<rparr>)"
  shows "succeeds (PayBill_provider S request) R s"
  using assms by (auto simp: PayBill_provider_def wp_rules appended_def split: option.split sum.split)

text \<open>What the outside has seen of a bill that was paid, and the order that is returned.\<close>

definition PayBill_done ::
    "OrderPayBillRequest \<Rightarrow> OrderEntity \<Rightarrow> event list \<Rightarrow> OrderEntity \<Rightarrow> bool" where
  "PayBill_done request token evs d \<longleftrightarrow> (\<exists>ops vendorType ty d0 d1 d2 f1 n1 vs q t p c c' f2 n2 disc v.
     ty = bill_type vendorType [] \<and>
     evs = ops @ EvReplaceOrder f1 d1 (Inr (Suc n1)) # vs @
       [EvInit q (Inr t), EvPaidBill (PayBill_req request ty d2 t) (Inr p), EvConfirm c (Inr c'),
        EvReplaceOrder f2 d (Inr (Suc n2))] \<and>
     (if oe_OrderID token = []
      then (\<exists>now oid. d0 = initial_order (PayBill_order request token) now oid) \<and> ops = [EvInsertOrder d0 None]
      else d0 = PayBill_order request token \<and> ops = []) \<and>
     restamped ORDER_PROCESSING d0 d1 \<and> d2 = d1\<lparr>oe_SubOrderType := ty\<rparr> \<and> restamped ORDER_SUCCESS d2 d \<and>
     init_request (PayBill_payment request token ty d2 disc v) q \<and>
     pbr_Status p \<noteq> TRANSACTION_STATUS_PENDING \<and>
     c = t\<lparr>tx_ProviderMerchantID := pbr_ProviderMerchantId p\<rparr> \<and>
     voucher_used (rq_VoucherCode (pbq_OrderRequest request)) d1 disc v vs)"

abbreviation PayBill_result :: "OrderPayBillRequest \<Rightarrow> OrderEntity \<Rightarrow> 'w st \<Rightarrow> 'w st \<Rightarrow> bool" where
  "PayBill_result request token s t \<equiv> \<exists>d evs. order_dto t = Some d \<and> key (trace t) = key (trace s) @ evs \<and>
     PayBill_done request token evs d \<and> resp_OrderEntity t = Some (ConvertToProto d)"

lemma PayBill_steps_succeed:
  assumes "started (Some (PayBill_order request token)) s s'"
  shows "succeeds (run_steps (PayBill_steps S request token) []) (PayBill_result request token s) s'"
proof (cases "oe_OrderID token = []")
  case True
  show ?thesis
    unfolding PayBill_steps_def PayBill_reserve_def PayBill_finish_def append.simps if_P [OF True]
      PayBill_voucher_def PayBill_confirm_def Let_def
    by (intro succeeds_Cons succeeds_Nil succeeds_gets init_this_order_succeeds assign_order_succeeds [OF ProcessingOrder_does]
      PayBill_vendor_succeeds use_voucher_succeeds PayBill_init_payment_succeeds PayBill_provider_succeeds
      confirm_trans_succeeds success_order_succeeds)
    (use assms True in \<open>auto simp: PayBill_done_def started_sel voucher_used_def voucher_request_def\<close>)
next
  case False
  show ?thesis
    unfolding PayBill_steps_def PayBill_reserve_def PayBill_finish_def append.simps if_not_P [OF False]
      PayBill_voucher_def PayBill_confirm_def Let_def
    by (intro succeeds_Cons succeeds_Nil succeeds_gets assign_order_succeeds [OF ProcessingOrder_does]
      PayBill_vendor_succeeds use_voucher_succeeds PayBill_init_payment_succeeds PayBill_provider_succeeds
      confirm_trans_succeeds success_order_succeeds)
    (use assms False in \<open>auto simp: PayBill_done_def started_sel voucher_used_def voucher_request_def\<close>)
qed

lemma PayBill_wp:
  assumes "fresh_saga S s"
    and "\<And>token s'. token_answer (pbq_OrderRequest request) token \<Longrightarrow> started (Some (PayBill_order request token)) s s' \<Longrightarrow>
      fresh_execution S s' \<Longrightarrow>
      wp (orchestrate S ''PayBillActionAccount'' (PayBill_steps S request token)) Q E s'"
    and "\<And>e s'. started None s s' \<Longrightarrow> Q (None, Some e) s'"
    and "\<And>s'. started None s s' \<Longrightarrow> E s'"
  shows "wp (PayBill S request) Q E s"
  unfolding PayBill_def by (rule with_order_started [OF assms(1) token_order_does assms(2-)])

subsection \<open>At most once, and in order\<close>

lemma PayBill_atmost_steps [atmost_rules]:
  "atmost A n (PayBill_vendor S request)"
  "(\<And>u x. A (EvUseVoucher u x) \<Longrightarrow> 0 < n) \<Longrightarrow> atmost A n (PayBill_voucher S request)"
  "(\<And>q x. A (EvInit q x) \<Longrightarrow> 0 < n) \<Longrightarrow> atmost A n (PayBill_init_payment S request p)"
  "(\<And>t x. A (EvConfirm t x) \<Longrightarrow> 0 < n) \<Longrightarrow> atmost A n (PayBill_confirm S)"
  unfolding PayBill_vendor_def PayBill_voucher_def PayBill_init_payment_def PayBill_confirm_def Let_def
  by (intro atmost_rules; simp)+

lemma PayBill_atmost_provider [atmost_rules]:
  "(\<And>u x. A (EvPaidBill u x) \<Longrightarrow> 0 < n) \<Longrightarrow> atmost A n (PayBill_provider S request)"
  unfolding PayBill_provider_def
  by (rule atmost_bindc, rule atmost_statements, rule atmost_bindc, rule atmost_statements, rule atmost_bindc,
      rule atmost_gets, rule atmost_bindc_left)
    (auto simp: Suc_le_eq intro!: atmost_rules)

lemma PayBill_run_once:
  "atmost is_provider 1 (run_steps (PayBill_steps S request p) [])"
  "atmost is_init 1 (run_steps (PayBill_steps S request p) [])"
  "atmost is_confirm 1 (run_steps (PayBill_steps S request p) [])"
  "atmost is_voucher 1 (run_steps (PayBill_steps S request p) [])"
  unfolding PayBill_steps_def PayBill_reserve_def PayBill_finish_def
     apply (rule atmost_run_named [where k = "\<lambda>n. of_bool (n = ''PAY_BILL'')"]; auto intro!: atmost_rules split: if_splits)
    apply (rule atmost_run_named [where k = "\<lambda>n. of_bool (n = ''INIT_PAYMENT'')"]; auto intro!: atmost_rules split: if_splits)
   apply (rule atmost_run_named [where k = "\<lambda>n. of_bool (n = ''FINALIZATION_PAYMENT'')"]; auto intro!: atmost_rules split: if_splits)
  apply (rule atmost_run_named [where k = "\<lambda>n. of_bool (n = ''ACCOUNT_VOUCHER'')"]; auto intro!: atmost_rules split: if_splits)
  done

lemma PayBill_provider_guards: "guards is_confirm provider_accepted (PayBill_provider S request)"
  unfolding guards_def PayBill_provider_def
  by (auto simp: wp_rules adds_def split: option.split sum.split)

lemma PayBill_confirm_ordered:
  assumes "fresh_saga S s"
  shows "wp (PayBill S request) (\<lambda>_. ordered is_confirm provider_accepted s) (ordered is_confirm provider_accepted s) s"
  by (rule PayBill_wp [OF assms], erule (1) orchestrate_started_ordered, rule PayBill_steps_def)
    (auto simp: PayBill_provider_guards PayBill_reserve_def PayBill_finish_def
      intro!: atmost_rules ordered_free started_adds split: if_splits)

lemma PayBill_once:
  assumes "fresh_saga S s" and "A \<in> {is_provider, is_init, is_confirm, is_voucher}"
  shows "wp (PayBill S request) (\<lambda>_. adds A 1 s) (adds A 1 s) s"
  by (rule PayBill_wp [OF assms(1)], erule (1) orchestrate_started_atmost)
    (use assms(2) PayBill_run_once in \<open>auto intro: started_adds\<close>)

subsection \<open>A provider that has not decided\<close>

lemma PayBill_provider_pending:
  "wp (PayBill_provider S request) (\<lambda>err u. adds provider_pending 0 t u \<or>
     (err = Some ErrPendingOrder \<and> isPendingSrvCard u \<and> adds gives_up 0 t u)) (adds provider_pending 0 t) t"
  by (auto simp: PayBill_provider_def wp_rules adds_def split: option.split sum.split)

lemma PayBill_stays_open:
  assumes "fresh_saga S s"
  shows "wp (PayBill S request) (\<lambda>(p, err) u. adds provider_pending 0 s u \<or> (\<exists>e. err = Some e \<and> e = ErrPendingOrder \<and> still s u))
     (\<lambda>u. adds provider_pending 0 s u \<or> still s u) s"
  by (rule PayBill_wp [OF assms], erule (1) orchestrate_started_open [where Pe = "\<lambda>e. e = ErrPendingOrder"], rule PayBill_steps_def, rule comp_provider_parks)
    (use PayBill_provider_pending in
      \<open>auto simp: PayBill_reserve_def PayBill_finish_def intro!: atmost_rules patient_comps started_adds split: if_splits\<close>)

subsection \<open>Progress\<close>

lemma PayBill_vendor_goes:
  assumes "obliging S" and "\<And>t w es. R ((appended s w es)\<lparr>subTransactionType := t\<rparr>)"
  shows "goes (PayBill_vendor S request) R s"
proof -
  have call: "fine (ask (cs_FindVendor S q)) (\<lambda>r. \<exists>p. r = Inr (Some p))" for q
    by (rule fine_ask) (rule obligingD(11) [OF assms(1)])
  show ?thesis
    unfolding PayBill_vendor_def wp_bindc
    by (rule fine_wp [OF call]) (use assms(2) in \<open>auto simp: wp_rules\<close>)
qed

lemma PayBill_provider_goes:
  assumes "cooperative S" "order_dto s \<noteq> None" "trans s \<noteq> None"
    and "\<And>m w es. R ((appended s w es)\<lparr>providerMerchantId := m\<rparr>)"
  shows "goes (PayBill_provider S request) R s"
proof -
  have call: "fine (act (cs_PaidBill S q) ev) (\<lambda>r. \<exists>p. r = Inr p \<and> pbr_Status p \<noteq> TRANSACTION_STATUS_PENDING)" for q ev
    by (rule fine_act) (rule cooperativeD(4) [OF assms(1)])
  show ?thesis
    unfolding PayBill_provider_def wp_bindc wp_the_order wp_the_trans wp_gets using assms(2-)
    by (auto split: option.split intro!: fine_wp [OF call]) (simp add: wp_rules)
qed

lemma PayBill_init_payment_goes:
  assumes "obliging S" "order_dto s \<noteq> None" and "\<And>d t w es. R ((appended s w es)\<lparr>order_dto := Some d, trans := Some t\<rparr>)"
  shows "goes (PayBill_init_payment S request p) R s"
  unfolding PayBill_init_payment_def wp_bindc wp_the_order wp_gets wp_updates
  using assms by (auto split: option.split intro!: init_trans_goes)

lemma PayBill_steps_go:
  assumes "cooperative S" "order_dto s = Some (PayBill_order request OrderEntity_zero)"
  shows "goes (run_steps (PayBill_steps S request OrderEntity_zero) []) (\<lambda>t. order_dto t \<noteq> None) s"
proof -
  have new: "oe_OrderID OrderEntity_zero = []" "oe_LuckyMoneyID (PayBill_order request OrderEntity_zero) = []"
    by (simp_all add: PayBill_order_def OrderEntity_zero_def Let_def)
  show ?thesis
    unfolding PayBill_steps_def PayBill_reserve_def PayBill_finish_def if_P [OF new(1)] append.simps
      PayBill_voucher_def PayBill_confirm_def Let_def
    by (intro goes_Cons goes_Nil goes_gets init_this_order_goes assign_order_goes [OF order_ops_fine(1)] use_voucher_goes
        PayBill_vendor_goes PayBill_init_payment_goes PayBill_provider_goes confirm_trans_goes success_order_goes assms cooperativeD(1) [OF assms(1)])
      (use assms(2) new(2) in simp_all)
qed

lemma PayBill_progress:
  assumes "cooperative S" "fresh_execution S s" "rq_SourceOfFund (pbq_OrderRequest request) \<noteq> SOURCE_OF_FUND_BANK_ATM"
  shows "\<exists>d t. PayBill S request s = (Ret (Some d, None), t)"
proof -
  let ?d = "PayBill_order request OrderEntity_zero"
  have "\<exists>d t. orchestrate S ''PayBillActionAccount'' (PayBill_steps S request OrderEntity_zero) ((fresh_vars None s)\<lparr>order_dto := Some ?d\<rparr>)
      = (Ret (Some d, None), t)"
    by (rule orchestrate_goes_on [OF assms(2)], rule PayBill_steps_go) (simp_all add: assms(1) started_sel)
  then show ?thesis
    using assms(3) by (simp add: PayBill_def with_order_def token_order_def bindc_def set_order_def)
qed

subsection \<open>Properties\<close>

definition example_paybill :: OrderPayBillRequest where
  "example_paybill = \<lparr>pbq_OrderRequest = example_request, pbq_ServiceCode = ''EVN'', pbq_BillingCode = ''PE01'',
     pbq_AreaCode = [], pbq_PaymentToken = None\<rparr>"

lemma example_paybill_wallet: "rq_SourceOfFund (pbq_OrderRequest example_paybill) \<noteq> SOURCE_OF_FUND_BANK_ATM"
  by (simp add: example_paybill_def example_request_def go_consts)

text \<open>
  Paying a bill without an error: the order is stored (unless a payment token stands for one) and marked as processing, the voucher is used,
  the payment is opened under the sub-type that the vendor of the bill has, the bill is paid under the id of the
  transaction, the same transaction is confirmed under the provider's merchant id, and the order is marked as
  successful: these money-relevant calls and no others.
\<close>

theorem PayBill_completes:
  assumes "fresh_saga S s" and "PayBill S request s = (Ret (p, None), t)"
  shows "\<exists>token d evs. token_answer (pbq_OrderRequest request) token \<and> p = Some d \<and>
     key (trace t) = key (trace s) @ evs \<and> PayBill_done request token evs d \<and>
     resp_OrderEntity t = Some (ConvertToProto d)"
proof -
  let ?R = "\<lambda>p t. \<exists>token d evs. token_answer (pbq_OrderRequest request) token \<and> p = Some d \<and>
     key (trace t) = key (trace s) @ evs \<and> PayBill_done request token evs d \<and>
     resp_OrderEntity t = Some (ConvertToProto d)"
  have "wp (PayBill S request) (\<lambda>(p, err) t. err = None \<longrightarrow> ?R p t) (\<lambda>_. True) s"
    by (rule PayBill_wp [OF assms(1)], erule (1) orchestrate_started_succeeds, rule wp_mono, erule PayBill_steps_succeed)
      auto
  from wp_Ret [OF this assms(2)] show ?thesis by simp
qed

theorem PayBill_completes_witness:
  "\<exists>p t token d evs. PayBill example_services example_paybill example_state = (Ret (p, None), t) \<and> p = Some d \<and>
     key (trace t) = key (trace example_state) @ evs \<and> PayBill_done example_paybill token evs d"
proof -
  obtain p t where run: "PayBill example_services example_paybill example_state = (Ret (p, None), t)"
    using PayBill_progress [OF example_cooperative example_fresh example_paybill_wallet] by blast
  from PayBill_completes [OF example_fresh_saga run] run show ?thesis by blast
qed

text \<open>
  Whatever the other services answer, paying a bill asks the provider at most once, uses at most one
  voucher, opens and confirms at most one payment, and confirms only after the provider has accepted.
\<close>

theorem PayBill_disciplined:
  assumes "fresh_saga S s" and "PayBill S request s = (r, t)"
  shows "\<exists>es. trace t = trace s @ es \<and>
     (\<forall>A \<in> {is_provider, is_init, is_confirm, is_voucher}. length (filter A (key es)) \<le> 1) \<and>
     (\<forall>i < length (key es). is_confirm (key es ! i) \<longrightarrow> (\<exists>j < i. provider_accepted (key es ! j)))"
  by (rule run_disciplined [OF assms(2) PayBill_once [OF assms(1)] PayBill_confirm_ordered [OF assms(1)]])

theorem PayBill_disciplined_witness:
  "\<exists>d t es. PayBill example_services example_paybill example_state = (Ret (Some d, None), t) \<and>
     trace t = trace example_state @ es \<and> length (filter is_confirm (key es)) \<le> 1"
proof -
  obtain d t where run: "PayBill example_services example_paybill example_state = (Ret (Some d, None), t)"
    using PayBill_progress [OF example_cooperative example_fresh example_paybill_wallet] by blast
  from PayBill_disciplined [OF example_fresh_saga run] run show ?thesis by blast
qed

end
