(* ===== verification/CashOut.thy ===== *)
theory CashOut
  imports Examples
begin

text \<open>
  Withdrawing from the wallet to a linked bank account, \<open>application/cash_out_orchestrator.go\<close>.
\<close>

record CashOutRequest =
  cor_OrderRequest :: OrderRequest
  cor_LinkId :: int64
  cor_Description :: string

definition CashOut_check :: "'w services \<Rightarrow> CashOutRequest \<Rightarrow> ('w st, goerror option) comp" where
  "CashOut_check S request =
     bindc (LinkInfo S (cor_LinkId request)) (\<lambda>(getLinkIdInfo, err). case err of
       Some e \<Rightarrow> ret (Some e)
     | None \<Rightarrow>
         if br_GpayUserID getLinkIdInfo \<noteq> rq_UserID (cor_OrderRequest request)
         then ret (Some (ErrorString ''INVALID UserId''))
         else thenc (modify (\<lambda>s. s\<lparr>bankCode := br_BankCode getLinkIdInfo,
                       bankCodeGpay := br_GpayBankCode getLinkIdInfo\<rparr>)) (ret None))"

definition CashOut_order :: "CashOutRequest \<Rightarrow> string \<Rightarrow> OrderEntity" where
  "CashOut_order request bank = (let r = cor_OrderRequest request in OrderEntity_zero\<lparr>
     oe_ServiceID := rq_ServiceID r, oe_UserID := rq_UserID r, oe_OrderType := rq_TransType r,
     oe_SubOrderType := rq_SubTransType r, oe_Amount := rq_Amount r,
     oe_SourceOfFund := SOURCE_OF_FUND_BALANCE_WALLET, oe_VoucherCode := rq_VoucherCode r,
     oe_DeviceID := rq_DeviceID r, oe_BankCode := bank,
     oe_ServiceType := (if rq_ServiceType r = [] then SERVICE_TYPE_WALLET else rq_ServiceType r),
     oe_SubscribeMerchantID := rq_MerchantID r, oe_RefID := rq_RefID r, oe_ServiceCode := rq_ServiceCode r\<rparr>)"

definition CashOut_init_order :: "'w services \<Rightarrow> CashOutRequest \<Rightarrow> ('w st, goerror option) comp" where
  "CashOut_init_order S request = bindc (gets bankCode) (\<lambda>b. init_order S (CashOut_order request b))"

definition CashOut_payment :: "OrderEntity \<Rightarrow> ETransactionDTO" where
  "CashOut_payment d = ETransactionDTO_zero\<lparr>
     tx_TransactionType := oe_OrderType d, tx_SubTransactionType := oe_SubOrderType d,
     tx_ServiceType := oe_ServiceType d, tx_Amount := oe_Amount d, tx_SourceOfFund := oe_SourceOfFund d,
     tx_PayerId := oe_UserID d, tx_AppId := oe_ServiceCode d, tx_OrderId := oe_OrderID d,
     tx_BankCode := oe_BankCode d, tx_RefId := oe_RefID d, tx_MerchantID := oe_SubscribeMerchantID d\<rparr>"

definition CashOut_init_payment :: "'w services \<Rightarrow> ('w st, goerror option) comp" where
  "CashOut_init_payment S = link_order (bindc the_order (\<lambda>d. init_trans S True (CashOut_payment d)))"

text \<open>The trace id of the bank identifies the payout; without one the id of the order does.\<close>

definition CashOut_note :: "BankRes \<Rightarrow> ('w st, unit) comp" where
  "CashOut_note res =
     update_order (\<lambda>d. d\<lparr>oe_BankTransactionId := (if br_BankTraceId res = [] then oe_OrderID d else br_BankTraceId res)\<rparr>)"

definition CashOut_bank :: "'w services \<Rightarrow> CashOutRequest \<Rightarrow> ('w st, goerror option) comp" where
  "CashOut_bank S request = (let r = cor_OrderRequest request in
     bindc (gets bankCodeGpay) (\<lambda>b.
     bindc the_order (\<lambda>d.
     bank_step (bank_CashOut S (rq_Amount r) b (oe_OrderID d) (cor_LinkId request) (cor_Description request) (rq_UserID r))
       (\<lambda>res. ret (ErrorString (br_Message res))) CashOut_note)))"

definition CashOut_confirm :: "'w services \<Rightarrow> ('w st, goerror option) comp" where
  "CashOut_confirm S =
     bindc the_order (\<lambda>d. confirm_trans S (\<lambda>_ t. t\<lparr>tx_BankTransactionId := oe_BankTransactionId d\<rparr>))"

definition CashOut_reserve :: "'w services \<Rightarrow> CashOutRequest \<Rightarrow> 'w st step_def list" where
  "CashOut_reserve S request =
     [(''Check VALID LinkID and User ID'', CashOut_check S request, ret None),
      (''INIT_ORDER'', CashOut_init_order S request, comp_order S),
      (''PROCESSING_ORDER'', assign_order (ProcessingOrder S), comp_order S),
      (''INIT_PAYMENT'', CashOut_init_payment S, comp_init_payment S with_reason internal_err)]"

definition CashOut_finish :: "'w services \<Rightarrow> 'w st step_def list" where
  "CashOut_finish S =
     [(''FINALIZATION_PAYMENT'', CashOut_confirm S, comp_pending S False with_bank_id),
      (''SUCCESS_ORDER'', success_order S, comp_pending S False as_is)]"

definition CashOut_steps :: "'w services \<Rightarrow> CashOutRequest \<Rightarrow> 'w st step_def list" where
  "CashOut_steps S request =
     CashOut_reserve S request @
     (''Cash out'', CashOut_bank S request,
        comp_provider S isTimeOutBank with_bank_id with_bank_reason (\<lambda>r d. d\<lparr>oe_FailReason := r\<rparr>)) #
     CashOut_finish S"

definition CashOut :: "'w services \<Rightarrow> CashOutRequest \<Rightarrow> ('w st, OrderEntity option \<times> goerror option) comp" where
  "CashOut S request =
     thenc (modify (fresh_vars (Some OrderEntity_zero))) (orchestrate S ''CashOut Action'' (CashOut_steps S request))"

subsection \<open>The steps\<close>

lemma CashOut_check_succeeds:
  assumes "\<And>b c w es. key es = [] \<Longrightarrow> R ((appended s w es)\<lparr>bankCode := b, bankCodeGpay := c\<rparr>)"
  shows "succeeds (CashOut_check S request) R s"
  unfolding CashOut_check_def wp_bindc
  by (rule does_wp [OF LinkInfo_quiet]) (auto simp: wp_rules split: prod.split option.split intro: assms)

lemma CashOut_init_succeeds:
  assumes "\<And>d q t w es. order_dto s = Some d \<Longrightarrow> init_request (CashOut_payment d) q \<Longrightarrow>
     key es = [EvInit q (Inr t)] \<Longrightarrow>
     R ((appended s w es)\<lparr>trans := Some t, order_dto := Some (d\<lparr>oe_TransactionID := tx_TransactionId t\<rparr>)\<rparr>)"
  shows "succeeds (CashOut_init_payment S) R s"
  unfolding CashOut_init_payment_def
  by (rule link_order_succeeds) (auto split: option.split simp: wp_bindc wp_the_order intro!: init_trans_succeeds assms)

definition CashOut_id :: "OrderEntity \<Rightarrow> BankRes \<Rightarrow> string" where
  "CashOut_id d res = (if br_BankTraceId res = [] then oe_OrderID d else br_BankTraceId res)"

lemma CashOut_bank_succeeds:
  assumes "\<And>d now res w es. order_dto s = Some d \<Longrightarrow> BankGwStatus_IsSuccess (br_ErrorCode res) \<Longrightarrow>
     key es = [EvBank (envelope ''cashout'' ClientCode (bankCodeGpay s) now
       (CashOutRequestData (rq_Amount (cor_OrderRequest request)) (oe_OrderID d) (cor_LinkId request) ''MOBILE''
         (rq_UserID (cor_OrderRequest request)) ''Cashout'') ''ip'') res None] \<Longrightarrow>
     R ((appended s w es)\<lparr>bankTraceId := br_BankTraceId res, order_dto := Some (d\<lparr>oe_BankTransactionId := CashOut_id d res\<rparr>)\<rparr>)"
  shows "succeeds (CashOut_bank S request) R s"
  unfolding CashOut_bank_def Let_def wp_bindc wp_the_order wp_gets
  by (auto split: option.split simp: wp_ret wp_updates CashOut_note_def CashOut_id_def [symmetric]
      intro!: bank_step_succeeds [OF bank_CashOut_does] assms)

lemma CashOut_confirm_succeeds:
  assumes "\<And>d t t' w es. order_dto s = Some d \<Longrightarrow> trans s = Some t \<Longrightarrow>
     key es = [EvConfirm (t\<lparr>tx_BankTransactionId := oe_BankTransactionId d\<rparr>) (Inr t')] \<Longrightarrow>
     R ((appended s w es)\<lparr>trans := Some t'\<rparr>)"
  shows "succeeds (CashOut_confirm S) R s"
  unfolding CashOut_confirm_def wp_bindc wp_the_order
  by (auto split: option.split intro!: confirm_trans_succeeds assms)

lemma CashOut_atmost_steps [atmost_rules]:
  "atmost A n (CashOut_check S request)" "atmost A n (CashOut_note res)"
  "(\<And>d x. A (EvInsertOrder d x) \<Longrightarrow> 0 < n) \<Longrightarrow> atmost A n (CashOut_init_order S request)"
  "(\<And>q x. A (EvInit q x) \<Longrightarrow> 0 < n) \<Longrightarrow> atmost A n (CashOut_init_payment S)"
  "(\<And>t x. A (EvConfirm t x) \<Longrightarrow> 0 < n) \<Longrightarrow> atmost A n (CashOut_confirm S)"
  unfolding CashOut_check_def CashOut_note_def CashOut_init_order_def CashOut_init_payment_def CashOut_confirm_def
  by (intro atmost_rules atmost_quiet [OF LinkInfo_quiet]; simp)+

lemma CashOut_atmost_bank [atmost_rules]:
  "(\<And>q x e. A (EvBank q x e) \<Longrightarrow> 0 < n) \<Longrightarrow> atmost A n (CashOut_bank S request)"
  unfolding CashOut_bank_def Let_def
  by (intro atmost_bindc atmost_gets atmost_statements atmost_bank_step [OF bank_CashOut_does] CashOut_atmost_steps atmost_ret; assumption)

lemma CashOut_bank_guards: "guards is_confirm bank_accepted (CashOut_bank S request)"
  unfolding CashOut_bank_def Let_def
  by (rule guards_gets, rule guards_order, rule bank_step_guards [OF bank_CashOut_does]) (auto intro: atmost_rules)

lemma CashOut_bank_opens: "opens bank_open isTimeOutBank (CashOut_bank S request)"
  unfolding CashOut_bank_def Let_def
  by (rule opens_gets, rule opens_order, rule bank_step_opens_call [OF bank_CashOut_does]) (auto intro: atmost_rules)

subsection \<open>Runs\<close>

definition CashOut_done :: "CashOutRequest \<Rightarrow> event list \<Rightarrow> OrderEntity \<Rightarrow> bool" where
  "CashOut_done request evs d \<longleftrightarrow> (\<exists>bank d0 d1 f1 n1 q t bq res i c' f2 n2.
     evs = [EvInsertOrder d0 None, EvReplaceOrder f1 d1 (Inr (Suc n1)), EvInit q (Inr t), EvBank bq res None,
        EvConfirm (t\<lparr>tx_BankTransactionId := i\<rparr>) (Inr c'), EvReplaceOrder f2 d (Inr (Suc n2))] \<and>
     (\<exists>now oid. d0 = initial_order (CashOut_order request bank) now oid) \<and>
     restamped ORDER_PROCESSING d0 d1 \<and>
     restamped ORDER_SUCCESS (d1\<lparr>oe_TransactionID := tx_TransactionId t, oe_BankTransactionId := i\<rparr>) d \<and>
     init_request (CashOut_payment d1) q \<and>
     bq_Data bq = CashOutRequestData (rq_Amount (cor_OrderRequest request)) (oe_OrderID d1) (cor_LinkId request)
       ''MOBILE'' (rq_UserID (cor_OrderRequest request)) ''Cashout'' \<and>
     BankGwStatus_IsSuccess (br_ErrorCode res) \<and> i = CashOut_id d1 res)"

lemma CashOut_steps_succeed:
  "started (Some OrderEntity_zero) s s' \<Longrightarrow> succeeds (run_steps (CashOut_steps S request) [])
     (\<lambda>t. \<exists>d evs. order_dto t = Some d \<and> key (trace t) = key (trace s) @ evs \<and> CashOut_done request evs d \<and>
        resp_OrderEntity t = Some (ConvertToProto d)) s'"
  unfolding CashOut_steps_def CashOut_reserve_def CashOut_finish_def append.simps CashOut_init_order_def
  by (intro succeeds_Cons succeeds_Nil succeeds_gets CashOut_check_succeeds init_order_succeeds
      assign_order_succeeds [OF ProcessingOrder_does]
      CashOut_init_succeeds CashOut_bank_succeeds CashOut_confirm_succeeds success_order_succeeds)
    (auto simp: CashOut_done_def started_sel CashOut_id_def)

lemma CashOut_wp:
  assumes "fresh_execution S s"
    and "\<And>s'. started (Some OrderEntity_zero) s s' \<Longrightarrow> fresh_execution S s' \<Longrightarrow>
      wp (orchestrate S ''CashOut Action'' (CashOut_steps S request)) Q E s'"
  shows "wp (CashOut S request) Q E s"
  unfolding CashOut_def wp_bindc wp_modify by (rule assms(2) [OF started_refl]) (simp add: assms(1))

lemma CashOut_run_once:
  "atmost is_insert 1 (run_steps (CashOut_steps S request) [])"
  "atmost is_bank 1 (run_steps (CashOut_steps S request) [])"
  "atmost is_init 1 (run_steps (CashOut_steps S request) [])"
  "atmost is_confirm 1 (run_steps (CashOut_steps S request) [])"
  unfolding CashOut_steps_def CashOut_reserve_def CashOut_finish_def
     apply (rule atmost_run_named [where k = "\<lambda>n. of_bool (n = ''INIT_ORDER'')"]; auto intro!: atmost_rules)
    apply (rule atmost_run_named [where k = "\<lambda>n. of_bool (n = ''Cash out'')"]; auto intro!: atmost_rules)
   apply (rule atmost_run_named [where k = "\<lambda>n. of_bool (n = ''INIT_PAYMENT'')"]; auto intro!: atmost_rules)
  apply (rule atmost_run_named [where k = "\<lambda>n. of_bool (n = ''FINALIZATION_PAYMENT'')"]; auto intro!: atmost_rules)
  done

lemma CashOut_once:
  assumes "fresh_execution S s" and "A \<in> {is_insert, is_bank, is_init, is_confirm}"
  shows "wp (CashOut S request) (\<lambda>_. adds A 1 s) (adds A 1 s) s"
  by (rule CashOut_wp [OF assms(1)], erule (1) orchestrate_started_atmost) (use assms(2) CashOut_run_once in auto)

lemma CashOut_confirm_ordered:
  assumes "fresh_execution S s"
  shows "wp (CashOut S request) (\<lambda>_. ordered is_confirm bank_accepted s) (ordered is_confirm bank_accepted s) s"
  by (rule CashOut_wp [OF assms], erule (1) orchestrate_started_ordered, rule CashOut_steps_def)
    (auto simp: CashOut_bank_guards CashOut_reserve_def CashOut_finish_def intro!: atmost_rules)

lemma CashOut_stays_open:
  assumes "fresh_execution S s"
  shows "wp (CashOut S request) (\<lambda>(p, err) u. adds bank_open 0 s u \<or> (err \<noteq> None \<and> still s u))
     (\<lambda>u. adds bank_open 0 s u \<or> still s u) s"
  by (rule CashOut_wp [OF assms], erule (1) orchestrate_opens, rule CashOut_steps_def, rule comp_provider_parks)
    (use CashOut_bank_opens in \<open>auto simp: CashOut_reserve_def CashOut_finish_def intro!: atmost_rules patient_comps\<close>)

text \<open>A link that belongs to somebody else stops the saga before anything happens.\<close>

lemma CashOut_foreign_link:
  assumes "LinkInfo S (cor_LinkId request) s = (Ret (info, None), t)"
    and "br_GpayUserID info \<noteq> rq_UserID (cor_OrderRequest request)"
  shows "CashOut_check S request s = (Ret (Some (ErrorString ''INVALID UserId'')), t)"
  using assms by (simp add: CashOut_check_def bindc_def ret_def)

subsection \<open>Progress\<close>

text \<open>The bank knows the user of the request as the owner of the link.\<close>

definition own_link :: "'w services \<Rightarrow> CashOutRequest \<Rightarrow> bool" where
  "own_link S request \<longleftrightarrow> (\<forall>q w. br_GpayUserID (fst (http_result S (fst (bk_Do S q w)))) = rq_UserID (cor_OrderRequest request))"

lemma CashOut_check_goes:
  assumes "obliging S" "own_link S request" and "\<And>b c w es. R ((appended s w es)\<lparr>bankCode := b, bankCodeGpay := c\<rparr>)"
  shows "goes (CashOut_check S request) R s"
proof -
  have "fine (LinkInfo S i) (\<lambda>(r, err). err = None \<and> br_GpayUserID r = rq_UserID (cor_OrderRequest request))" for i
    unfolding LinkInfo_def httpQuery_def
    by (rule fine_ask_any, rule fine_bindc [OF fine_ask [of "\<lambda>p. \<exists>r. p = (r, None) \<and> \<not> BankGwStatus_IsFail (br_ErrorCode r) \<and>
          br_GpayUserID r = rq_UserID (cor_OrderRequest request)"]])
      (use obligingD(13) [OF assms(1)] assms(2) in \<open>auto simp: checked_def own_link_def intro!: fine_rules\<close>, metis fst_conv)
  note link = this
  show ?thesis
    unfolding CashOut_check_def wp_bindc
    by (rule fine_wp [OF link]) (auto simp: wp_rules split: prod.split intro: assms(3))
qed

lemma CashOut_init_goes:
  assumes "obliging S" "order_dto s \<noteq> None"
    and "\<And>d t w es. R ((appended s w es)\<lparr>trans := Some t, order_dto := Some d\<rparr>)"
  shows "goes (CashOut_init_payment S) R s"
  using assms unfolding CashOut_init_payment_def
  by (intro link_order_goes) (auto simp: wp_bindc wp_the_order split: option.split intro!: init_trans_goes)

lemma CashOut_steps_go:
  assumes "cooperative S" "own_link S request"
  shows "goes (run_steps (CashOut_steps S request) []) (\<lambda>t. order_dto t \<noteq> None) s"
proof -
  note S = cooperativeD(1) [OF assms(1)]
  have bank: "goes (CashOut_bank S request) R s" if "order_dto s \<noteq> None"
    "\<And>d w es x. R ((appended s w es)\<lparr>bankTraceId := x, order_dto := Some d\<rparr>)" for R s
    using that unfolding CashOut_bank_def Let_def wp_bindc wp_gets wp_the_order
    by (auto split: option.split simp: CashOut_note_def wp_updates intro!: bank_step_goes [OF bank_ops_fine(2) [OF assms(1)]])
  have conf: "goes (CashOut_confirm S) R s" if "order_dto s \<noteq> None" "trans s \<noteq> None"
    "\<And>t w es. R ((appended s w es)\<lparr>trans := Some t\<rparr>)" for R s
    using that unfolding CashOut_confirm_def wp_bindc wp_the_order
    by (auto split: option.split intro!: confirm_trans_goes S)
  show ?thesis
    unfolding CashOut_steps_def CashOut_reserve_def CashOut_finish_def append.simps CashOut_init_order_def
    by (intro goes_Cons goes_Nil goes_gets CashOut_check_goes init_order_goes assign_order_goes [OF order_ops_fine(1)] CashOut_init_goes bank conf
        success_order_goes S assms)
      (simp_all add: CashOut_order_def OrderEntity_zero_def Let_def)
qed

lemma CashOut_progress:
  assumes "cooperative S" "fresh_execution S s" "own_link S request"
  shows "\<exists>d t. CashOut S request s = (Ret (Some d, None), t)"
proof -
  have "\<exists>d t. orchestrate S ''CashOut Action'' (CashOut_steps S request) (fresh_vars (Some OrderEntity_zero) s) = (Ret (Some d, None), t)"
    by (rule orchestrate_goes) (use assms(2) in \<open>simp add: fresh_execution_def\<close>, rule CashOut_steps_go [OF assms(1,3)])
  then show ?thesis by (simp add: CashOut_def bindc_def)
qed

subsection \<open>Properties\<close>

definition example_cashout :: CashOutRequest where
  "example_cashout = \<lparr>cor_OrderRequest = example_request, cor_LinkId = 5, cor_Description = ''withdraw''\<rparr>"

lemma example_own_link: "own_link example_services example_cashout" "own_link pending_services example_cashout"
  by (simp_all add: own_link_def example_services_def pending_services_def http_result_def example_cashout_def example_request_def)

lemma CashOut_bank_meets:
  assumes "order_dto s \<noteq> None" "\<exists>es. trace s = trace s0 @ es"
  shows "wp (CashOut_bank pending_services request)
     (\<lambda>err t. err \<noteq> None \<and> meets bank_open s0 t) (meets bank_open s0) s"
  using assms by (auto simp: CashOut_bank_def Let_def bank_step_def bank_CashOut_def httpRequest_def
      http_result_def checked_def wp_rules meets_def pending_services_def example_services_def BankRes_zero_def BankGwStatus_defs
      conj_disj_distribR ex_disj_distrib split: option.split)

lemma CashOut_undecided:
  "\<exists>r t es. CashOut pending_services example_cashout example_state = (r, t) \<and> trace t = trace example_state @ es \<and>
     (\<exists>e \<in> set (key es). bank_open e)"
proof (rule run_meets, rule CashOut_wp [OF example_fresh])
  fix s' assume s': "started (Some OrderEntity_zero) example_state s'" "fresh_execution pending_services s'"
  note S = other_days_obliging(2)
  have "wp (run_steps (CashOut_steps pending_services example_cashout) []) (\<lambda>_. meets bank_open s') (meets bank_open s') (s'\<lparr>world := w\<rparr>)" for w
    unfolding CashOut_steps_def CashOut_reserve_def CashOut_finish_def append.simps CashOut_init_order_def
    by (intro goes_then goes_gets CashOut_check_goes init_order_goes assign_order_goes [OF order_ops_fine(1)]
        CashOut_init_goes meets_step CashOut_bank_meets S example_own_link)
      (auto simp: CashOut_order_def OrderEntity_zero_def Let_def intro!: atmost_rules)
  from orchestrate_meets [OF s'(2) this]
  show "wp (orchestrate pending_services ''CashOut Action'' (CashOut_steps pending_services example_cashout))
     (\<lambda>_. meets bank_open example_state) (meets bank_open example_state) s'"
    by (rule wp_mono) (auto intro: meets_started [OF s'(1)])
qed

text \<open>
  C14: a withdrawal without an error: the order is stored and marked as processing, the payment is opened, the bank is asked to pay out the
  amount of the request to the link of the request and accepts, the transaction is confirmed under the trace id of the bank (or the id of
  the order, when the bank gives none), and the order, with both ids, is marked as successful: these money-relevant
  calls and no others.
\<close>

theorem CashOut_completes:
  assumes "fresh_execution S s" and "CashOut S request s = (Ret (p, None), t)"
  shows "\<exists>d evs. p = Some d \<and> key (trace t) = key (trace s) @ evs \<and> CashOut_done request evs d \<and>
     resp_OrderEntity t = Some (ConvertToProto d)"
proof -
  have "wp (CashOut S request) (\<lambda>(p, err) t. err = None \<longrightarrow> (\<exists>d evs. p = Some d \<and> key (trace t) = key (trace s) @ evs \<and>
     CashOut_done request evs d \<and> resp_OrderEntity t = Some (ConvertToProto d))) (\<lambda>_. True) s"
    by (rule CashOut_wp [OF assms(1)], erule (1) orchestrate_started_succeeds, rule wp_mono, erule CashOut_steps_succeed) auto
  from wp_Ret [OF this assms(2)] show ?thesis by simp
qed

theorem CashOut_completes_witness:
  "\<exists>p t d evs. CashOut example_services example_cashout example_state = (Ret (p, None), t) \<and> p = Some d \<and>
     key (trace t) = key (trace example_state) @ evs \<and> CashOut_done example_cashout evs d"
proof -
  obtain p t where run: "CashOut example_services example_cashout example_state = (Ret (p, None), t)"
    using CashOut_progress [OF example_cooperative example_fresh example_own_link(1)] by blast
  from CashOut_completes [OF example_fresh run] run show ?thesis by blast
qed

text \<open>
  Whatever the bank and the other services answer, a withdrawal stores at most one order, asks the bank to pay out at most once, opens and
  confirms at most one payment, and confirms only after the bank has accepted.
\<close>

theorem CashOut_disciplined:
  assumes "fresh_execution S s" and "CashOut S request s = (r, t)"
  shows "\<exists>es. trace t = trace s @ es \<and>
     (\<forall>A \<in> {is_insert, is_bank, is_init, is_confirm}. length (filter A (key es)) \<le> 1) \<and>
     (\<forall>i < length (key es). is_confirm (key es ! i) \<longrightarrow> (\<exists>j < i. bank_accepted (key es ! j)))"
  by (rule run_disciplined [OF assms(2) CashOut_once [OF assms(1)] CashOut_confirm_ordered [OF assms(1)]])

theorem CashOut_disciplined_witness:
  "\<exists>d t es. CashOut example_services example_cashout example_state = (Ret (Some d, None), t) \<and>
     trace t = trace example_state @ es \<and> length (filter is_confirm (key es)) \<le> 1"
proof -
  obtain d t where run: "CashOut example_services example_cashout example_state = (Ret (Some d, None), t)"
    using CashOut_progress [OF example_cooperative example_fresh example_own_link(1)] by blast
  from CashOut_disciplined [OF example_fresh run] run show ?thesis by blast
qed

text \<open>
  When the bank answers that a withdrawal is still being verified, the run does not report success, and it neither cancels the
  payment nor fails the order unless an update of the transaction was answered with another status than it was sent.
\<close>

theorem CashOut_stays_verifying:
  assumes "fresh_execution S s" "CashOut S request s = (r, t)"
    and "trace t = trace s @ es" "\<exists>e \<in> set (key es). bank_open e"
  shows "((\<exists>e \<in> set (key es). contradicts e) \<or> (\<forall>e \<in> set (key es). \<not> gives_up e)) \<and> (\<forall>p err. r = Ret (p, err) \<longrightarrow> err \<noteq> None)"
  using run_stays_open_any [OF CashOut_stays_open [OF assms(1)] assms(2-)] by blast

theorem CashOut_stays_verifying_witness:
  "\<exists>r t es. CashOut pending_services example_cashout example_state = (r, t) \<and> trace t = trace example_state @ es \<and>
     (\<exists>e \<in> set (key es). bank_open e) \<and> ((\<exists>e \<in> set (key es). contradicts e) \<or> (\<forall>e \<in> set (key es). \<not> gives_up e))"
  using CashOut_undecided CashOut_stays_verifying [OF example_fresh] by meson

end
