(* ===== verification/ConfirmOrder.thy ===== *)
theory ConfirmOrder
  imports Examples
begin

text \<open>
  Confirming an order that was created earlier, \<open>application/confirm_order.go\<close>.  The order is
  looked up and must still be payable; an open-wallet transfer is then executed by the bank.
\<close>

record ConfirmOrderRequest =
  cfr_OrderId :: string
  cfr_OrderRequest :: "OrderRequest option"

text \<open>What the request overrides in the stored order.\<close>

definition ConfirmOrder_override :: "ConfirmOrderRequest \<Rightarrow> OrderEntity \<Rightarrow> OrderEntity" where
  "ConfirmOrder_override request d = (case cfr_OrderRequest request of
     None \<Rightarrow> d
   | Some r \<Rightarrow>
       (let d = (if rq_SubTransType r \<noteq> [] \<and> oe_SubOrderType d \<noteq> SUB_TRANSTYPE_WALLET_APP_TO_APP
                 then d\<lparr>oe_ServiceCode := rq_SubTransType r\<rparr> else d);
            d = (if rq_VoucherCode r \<noteq> [] then d\<lparr>oe_VoucherCode := rq_VoucherCode r\<rparr> else d);
            d = (if rq_UserID r \<noteq> [] then d\<lparr>oe_UserID := rq_UserID r\<rparr> else d)
        in d\<lparr>oe_DeviceID := rq_DeviceID r\<rparr>))"

text \<open>An open-wallet transfer is paid out through VCCB.\<close>

definition ConfirmOrder_route :: "OrderEntity \<Rightarrow> OrderEntity" where
  "ConfirmOrder_route d =
     (if oe_OrderType d = TRANSTYPE_OPENWAL_TRANSFERTOBANK
      then d\<lparr>oe_BankReceived := oe_BankCode d, oe_BankCode := VCCB\<rparr> else d)"

definition ConfirmOrder_processing :: "'w services \<Rightarrow> ('w st, goerror option) comp" where
  "ConfirmOrder_processing S = thenc (update_order ConfirmOrder_route) (assign_order (ProcessingOrder S))"

text \<open>\<open>code\<close> is \<open>getOrderById.VoucherCode\<close>: the entity that the lookup returned, with its overrides.\<close>

definition ConfirmOrder_voucher :: "'w services \<Rightarrow> string \<Rightarrow> ('w st, goerror option) comp" where
  "ConfirmOrder_voucher S code =
     use_voucher S code (\<lambda>d. voucher_request d (oe_Amount d) (oe_SubOrderType d) (oe_SourceOfFund d))"

definition ConfirmOrder_dto :: "OrderEntity \<Rightarrow> int64 \<Rightarrow> string \<Rightarrow> ETransactionDTO" where
  "ConfirmOrder_dto d disc voucher = (let
     dto = ETransactionDTO_zero\<lparr>
       tx_AppId := oe_ServiceCode d, tx_ServiceType := oe_ServiceType d, tx_TransactionType := oe_OrderType d,
       tx_SubTransactionType := oe_SubOrderType d, tx_Amount := oe_Amount d, tx_LastAmount := oe_Amount d,
       tx_AmountDiscount := disc, tx_VoucherCode := oe_VoucherCode d, tx_SourceOfFund := oe_SourceOfFund d,
       tx_RefId := oe_RefID d, tx_OrderId := oe_OrderID d, tx_DeviceId := oe_DeviceID d,
       tx_PayerId := oe_UserID d, tx_PayeeId := oe_ToUserID d, tx_BankCode := oe_BankCode d,
       tx_VoucherID := voucher, tx_Napas := oe_Napas d, tx_BankTransactionId := oe_BankTransactionId d,
       tx_MerchantID := oe_SubscribeMerchantID d, tx_AmountMerchantFee := oe_AmountMerchantFee d,
       tx_AmountMerchantFeeGpayTmp := oe_AmountMerchantFeeGpayTmp d,
       tx_MerchantTypeWallet := oe_MerchantTypeWallet d, tx_FixedFeeAmount := oe_FixedFeeAmount d,
       tx_RateFeeAmount := oe_RateFeeAmount d, tx_MerchantFeeMethod := oe_MerchantFeeMethod d,
       tx_IbftReceiveBank := oe_BankReceived d, tx_AccountNo := oe_AccountNo d, tx_CardNo := oe_CardNumber d\<rparr>;
     dto = (if oe_ServiceType d = [] then dto\<lparr>tx_ServiceType := SERVICE_TYPE_WALLET\<rparr> else dto)
     in if oe_OrderType d = TRANSTYPE_PAY_TO_MERCHANT
        then dto\<lparr>tx_ProviderMerchantID := oe_SubscribeMerchantID d, tx_MerchantTypeWallet := AmountRevenue\<rparr>
        else if oe_OrderType d = TRANSTYPE_PG_PAY then dto\<lparr>tx_SubscriberMerchantID := []\<rparr>
        else if oe_OrderType d = TRANSTYPE_PG_PAY_BY_PAY_INTERNATIONAL_CARD
        then dto\<lparr>tx_MerchantTypeWallet := AmountRevenue\<rparr>
        else dto)"

text \<open>The sub-type that the request asks for, when it may change the one of the order.\<close>

definition ConfirmOrder_subtype :: "ConfirmOrderRequest \<Rightarrow> OrderEntity \<Rightarrow> string option" where
  "ConfirmOrder_subtype request d = (case cfr_OrderRequest request of
     None \<Rightarrow> None
   | Some r \<Rightarrow> if rq_SubTransType r \<noteq> [] \<and> oe_SubOrderType d \<noteq> SUB_TRANSTYPE_WALLET_APP_TO_APP
               then Some (rq_SubTransType r) else None)"

definition ConfirmOrder_payment :: "ConfirmOrderRequest \<Rightarrow> OrderEntity \<Rightarrow> int64 \<Rightarrow> string \<Rightarrow> ETransactionDTO" where
  "ConfirmOrder_payment request d disc voucher = (case ConfirmOrder_subtype request d of
     None \<Rightarrow> ConfirmOrder_dto d disc voucher
   | Some ty \<Rightarrow> (ConfirmOrder_dto d disc voucher)\<lparr>tx_SubTransactionType := ty\<rparr>)"

definition ConfirmOrder_retype :: "ConfirmOrderRequest \<Rightarrow> OrderEntity \<Rightarrow> OrderEntity" where
  "ConfirmOrder_retype request d = (case ConfirmOrder_subtype request d of
     None \<Rightarrow> d | Some ty \<Rightarrow> d\<lparr>oe_SubOrderType := ty\<rparr>)"

definition ConfirmOrder_init_payment :: "'w services \<Rightarrow> ConfirmOrderRequest \<Rightarrow> ('w st, goerror option) comp" where
  "ConfirmOrder_init_payment S request =
     bindc the_order (\<lambda>d. bindc (gets discount) (\<lambda>disc. bindc (gets voucherId) (\<lambda>v.
     thenc (update_order (ConfirmOrder_retype request))
    (bindc (init_trans S False (ConfirmOrder_payment request d disc v)) (\<lambda>err. case err of
       None \<Rightarrow> ret None
     | Some e \<Rightarrow> thenc (set_failReason (GetGrpcErrMessage S e)) (ret (Some (ErrorString (GetGrpcErrMessage S e)))))))))"

definition ConfirmOrder_pending :: "BankRes \<Rightarrow> ('w st, goerror) comp" where
  "ConfirmOrder_pending _ =
     thenc (update_order (\<lambda>d. d\<lparr>oe_InternalErr := SERVICE_BANKGW_ERROR @ ''Giao dich dang cho xu li''\<rparr>))
       (ret (ErrorString ''Giao dich dang cho xu li''))"

definition ConfirmOrder_bank :: "'w services \<Rightarrow> ('w st, goerror option) comp" where
  "ConfirmOrder_bank S =
     bindc the_order (\<lambda>d.
     if oe_OrderType d = TRANSTYPE_OPENWAL_TRANSFERTOBANK
     then bank_step (bank_IBFTTransfer S (oe_AccountNo d) (oe_CardNumber d) (oe_SubscribeMerchantID d)
              (oe_OrderID d) [] (oe_Description d) (oe_Amount d) (oe_BankCode d))
            ConfirmOrder_pending (\<lambda>_. ret ())
     else ret None)"

definition ConfirmOrder_confirm :: "'w services \<Rightarrow> ('w st, goerror option) comp" where
  "ConfirmOrder_confirm S =
     bindc the_trans (\<lambda>t.
     thenc (update_order (\<lambda>d. d\<lparr>oe_TransactionID := tx_TransactionId t\<rparr>)) (confirm_trans S as_is))"

definition ConfirmOrder_reserve :: "'w services \<Rightarrow> ConfirmOrderRequest \<Rightarrow> string \<Rightarrow> 'w st step_def list" where
  "ConfirmOrder_reserve S request code =
     [(''PROCESSING_ORDER'', ConfirmOrder_processing S, comp_order S),
      (''ACCOUNT_VOUCHER'', ConfirmOrder_voucher S code, comp_voucher S False),
      (''INIT_PAYMENT'', ConfirmOrder_init_payment S request, comp_init_payment S with_reason internal_err)]"

definition ConfirmOrder_finish :: "'w services \<Rightarrow> 'w st step_def list" where
  "ConfirmOrder_finish S =
     [(''FINALIZATION_PAYMENT'', ConfirmOrder_confirm S, comp_pending S True as_is),
      (''SUCCESS_ORDER'', success_order S, comp_pending S False as_is)]"

definition ConfirmOrder_steps :: "'w services \<Rightarrow> ConfirmOrderRequest \<Rightarrow> string \<Rightarrow> 'w st step_def list" where
  "ConfirmOrder_steps S request code =
     ConfirmOrder_reserve S request code @
     (''OPEN WALLET'', ConfirmOrder_bank S,
        comp_provider S isTimeOutBank as_is with_bank_reason internal_err) #
     ConfirmOrder_finish S"

definition ConfirmOrder :: "'w services \<Rightarrow> ConfirmOrderRequest \<Rightarrow> ('w st, OrderEntity option \<times> goerror option) comp" where
  "ConfirmOrder S request =
     thenc (modify (fresh_vars None))
    (with_order (GetValidOrder S (cfr_OrderId request)) (\<lambda>getOrderById.
       thenc (set_order (Some (ConfirmOrder_override request getOrderById)))
         (orchestrate S ''Confirm Order''
           (ConfirmOrder_steps S request (oe_VoucherCode (ConfirmOrder_override request getOrderById))))))"

subsection \<open>The steps\<close>

lemma ConfirmOrder_processing_succeeds:
  assumes "\<And>d d' flt n w es. order_dto s = Some d \<Longrightarrow> key es = [EvReplaceOrder flt d' (Inr (Suc n))] \<Longrightarrow>
      restamped ORDER_PROCESSING (ConfirmOrder_route d) d' \<Longrightarrow> R ((appended s w es)\<lparr>order_dto := Some d'\<rparr>)"
  shows "succeeds (ConfirmOrder_processing S) R s"
  unfolding ConfirmOrder_processing_def wp_bindc wp_updates
  by (auto split: option.split intro!: assign_order_succeeds [OF ProcessingOrder_does] assms)

lemma ConfirmOrder_init_succeeds:
  assumes "\<And>d q t w es. order_dto s = Some d \<Longrightarrow> init_request (ConfirmOrder_payment request d (discount s) (voucherId s)) q \<Longrightarrow>
     key es = [EvInit q (Inr t)] \<Longrightarrow>
     R ((appended s w es)\<lparr>order_dto := Some (ConfirmOrder_retype request d), trans := Some t\<rparr>)"
  shows "succeeds (ConfirmOrder_init_payment S request) R s"
proof -
  have "wp (init_trans S False (ConfirmOrder_payment request d (discount s) (voucherId s)))
      (\<lambda>err. wp (case err of None \<Rightarrow> ret None
        | Some e \<Rightarrow> thenc (set_failReason (GetGrpcErrMessage S e)) (ret (Some (ErrorString (GetGrpcErrMessage S e)))))
        (\<lambda>err t. err = None \<longrightarrow> R t) (\<lambda>_. True)) (\<lambda>_. True)
      (s\<lparr>order_dto := Some (ConfirmOrder_retype request d)\<rparr>)" if "order_dto s = Some d" for d
    by (rule wp_mono [OF init_trans_succeeds [where R = R]]) (auto simp: wp_rules split: option.split intro!: assms that)
  then show ?thesis
    unfolding ConfirmOrder_init_payment_def wp_bindc wp_the_order wp_gets wp_updates by (auto split: option.split)
qed

lemma ConfirmOrder_bank_succeeds:
  assumes "\<And>d. order_dto s = Some d \<Longrightarrow> oe_OrderType d \<noteq> TRANSTYPE_OPENWAL_TRANSFERTOBANK \<Longrightarrow> R s"
    and "\<And>d now res w es. order_dto s = Some d \<Longrightarrow> oe_OrderType d = TRANSTYPE_OPENWAL_TRANSFERTOBANK \<Longrightarrow>
     BankGwStatus_IsSuccess (br_ErrorCode res) \<Longrightarrow>
     key es = [EvBank (envelope ''ibftfundtransfer'' ClientCode GPAY_VCCB now
       (IBFTTransferReqData (oe_AccountNo d) (oe_CardNumber d) (oe_SubscribeMerchantID d) (oe_OrderID d)
         (oe_Amount d) [] (oe_Description d) (oe_BankCode d)) ''ip'') res None] \<Longrightarrow>
     R ((appended s w es)\<lparr>bankTraceId := br_BankTraceId res\<rparr>)"
  shows "succeeds (ConfirmOrder_bank S) R s"
  unfolding ConfirmOrder_bank_def wp_bindc wp_the_order wp_if
  using assms by (auto split: option.split simp: wp_ret intro!: bank_step_succeeds [OF bank_IBFTTransfer_does])

lemma ConfirmOrder_confirm_succeeds:
  assumes "\<And>d t t' w es. order_dto s = Some d \<Longrightarrow> trans s = Some t \<Longrightarrow> key es = [EvConfirm t (Inr t')] \<Longrightarrow>
     R ((appended s w es)\<lparr>order_dto := Some (d\<lparr>oe_TransactionID := tx_TransactionId t\<rparr>), trans := Some t'\<rparr>)"
  shows "succeeds (ConfirmOrder_confirm S) R s"
  unfolding ConfirmOrder_confirm_def wp_bindc wp_the_trans wp_updates
  using assms by (auto split: option.split intro!: confirm_trans_succeeds)

lemma ConfirmOrder_atmost_steps [atmost_rules]:
  "foreign A \<Longrightarrow> atmost A 0 (ConfirmOrder_processing S)" "atmost gives_up 0 (ConfirmOrder_processing S)"
  "atmost A n (ConfirmOrder_pending res)"
  "(\<And>u x. A (EvUseVoucher u x) \<Longrightarrow> 0 < n) \<Longrightarrow> atmost A n (ConfirmOrder_voucher S code)"
  "(\<And>t x. A (EvConfirm t x) \<Longrightarrow> 0 < n) \<Longrightarrow> atmost A n (ConfirmOrder_confirm S)"
  unfolding ConfirmOrder_processing_def ConfirmOrder_pending_def ConfirmOrder_voucher_def ConfirmOrder_confirm_def
  by (intro atmost_rules; simp)+

lemma ConfirmOrder_atmost_init [atmost_rules]:
  "(\<And>q x. A (EvInit q x) \<Longrightarrow> 0 < n) \<Longrightarrow> atmost A n (ConfirmOrder_init_payment S request)"
  unfolding ConfirmOrder_init_payment_def
  by (rule atmost_bindc, rule atmost_statements, rule atmost_bindc, rule atmost_gets, rule atmost_bindc, rule atmost_gets,
      rule atmost_bindc, rule atmost_statements, rule atmost_bindc_left) (auto intro!: atmost_rules)

lemma ConfirmOrder_atmost_bank [atmost_rules]:
  "(\<And>q x e. A (EvBank q x e) \<Longrightarrow> 0 < n) \<Longrightarrow> atmost A n (ConfirmOrder_bank S)"
  unfolding ConfirmOrder_bank_def
  by (intro atmost_bindc atmost_if atmost_statements atmost_bank_step [OF bank_IBFTTransfer_does] ConfirmOrder_atmost_steps(3) atmost_ret;
      assumption)

text \<open>For an open-wallet transfer the bank step lets the saga go on only after the bank has accepted.\<close>

lemma ConfirmOrder_bank_opens: "opens bank_open isTimeOutBank (ConfirmOrder_bank S)"
  unfolding opens_def
proof
  fix t
  have p: "wp (ConfirmOrder_pending r) (\<lambda>e u'. True \<and> adds gives_up 0 u u' \<and> isTimeOutBank u') (\<lambda>_. False) u"
    if "isTimeOutBank u" "order_dto u = Some d" for u r d
    using that by (auto simp: ConfirmOrder_pending_def wp_rules adds_refl)
  show "wp (ConfirmOrder_bank S) (\<lambda>err u. adds bank_open 0 t u \<or> (err \<noteq> None \<and> isTimeOutBank u \<and> adds gives_up 0 t u))
     (adds bank_open 0 t) t"
    unfolding ConfirmOrder_bank_def wp_bindc wp_the_order wp_if wp_ret
    by (auto split: option.split simp: adds_refl
        intro!: wp_mono [OF bank_step_opens [where Pe = "\<lambda>_. True", OF bank_IBFTTransfer_does]] p atmost_rules)
qed

subsection \<open>Runs\<close>

definition ConfirmOrder_done :: "ConfirmOrderRequest \<Rightarrow> OrderEntity \<Rightarrow> event list \<Rightarrow> OrderEntity \<Rightarrow> bool" where
  "ConfirmOrder_done request d0 evs d \<longleftrightarrow> (\<exists>d1 d2 f1 n1 vs q t bs c' f2 n2 disc v.
     evs = EvReplaceOrder f1 d1 (Inr (Suc n1)) # vs @ EvInit q (Inr t) # bs @
       [EvConfirm t (Inr c'), EvReplaceOrder f2 d (Inr (Suc n2))] \<and>
     restamped ORDER_PROCESSING (ConfirmOrder_route d0) d1 \<and> d2 = ConfirmOrder_retype request d1 \<and>
     restamped ORDER_SUCCESS (d2\<lparr>oe_TransactionID := tx_TransactionId t\<rparr>) d \<and>
     init_request (ConfirmOrder_payment request d1 disc v) q \<and>
     (if oe_OrderType d2 = TRANSTYPE_OPENWAL_TRANSFERTOBANK
      then \<exists>bq res. bs = [EvBank bq res None] \<and> BankGwStatus_IsSuccess (br_ErrorCode res) \<and>
        bq_Data bq = IBFTTransferReqData (oe_AccountNo d2) (oe_CardNumber d2) (oe_SubscribeMerchantID d2)
          (oe_OrderID d2) (oe_Amount d2) [] (oe_Description d2) (oe_BankCode d2)
      else bs = []) \<and>
     voucher_used (oe_VoucherCode d0) d1 disc v vs)"

lemma ConfirmOrder_steps_succeed:
  "started (Some d0) s s' \<Longrightarrow> succeeds (run_steps (ConfirmOrder_steps S request (oe_VoucherCode d0)) [])
     (\<lambda>t. \<exists>d evs. order_dto t = Some d \<and> key (trace t) = key (trace s) @ evs \<and> ConfirmOrder_done request d0 evs d \<and>
        resp_OrderEntity t = Some (ConvertToProto d)) s'"
  unfolding ConfirmOrder_steps_def ConfirmOrder_reserve_def ConfirmOrder_finish_def append.simps ConfirmOrder_voucher_def
  by (intro succeeds_Cons succeeds_Nil ConfirmOrder_processing_succeeds use_voucher_succeeds ConfirmOrder_init_succeeds
      ConfirmOrder_bank_succeeds ConfirmOrder_confirm_succeeds success_order_succeeds)
    (auto simp: ConfirmOrder_done_def voucher_used_def started_sel voucher_request_def Cons_eq_append_conv)

lemma ConfirmOrder_wp:
  assumes "fresh_saga S s"
    and "\<And>p s'. payable_order S (cfr_OrderId request) p \<Longrightarrow> started (Some (ConfirmOrder_override request p)) s s' \<Longrightarrow> fresh_execution S s' \<Longrightarrow>
      wp (orchestrate S ''Confirm Order'' (ConfirmOrder_steps S request (oe_VoucherCode (ConfirmOrder_override request p)))) Q E s'"
    and "\<And>e s'. started None s s' \<Longrightarrow> Q (None, Some e) s'"
    and "\<And>s'. started None s s' \<Longrightarrow> E s'"
  shows "wp (ConfirmOrder S request) Q E s"
  unfolding ConfirmOrder_def by (rule with_order_started [OF assms(1) valid_order_does assms(2-)])

lemma ConfirmOrder_error_settles:
  assumes "fresh_saga S s"
  shows "wp (ConfirmOrder S request) (\<lambda>(p, err) _. err \<noteq> None \<and> p \<noteq> None \<longrightarrow> (\<exists>d. p = Some d \<and> settled d)) (\<lambda>_. True) s"
  by (rule ConfirmOrder_wp [OF assms], rule wp_mono, erule orchestrate_settles,
      simp add: ConfirmOrder_steps_def ConfirmOrder_reserve_def, blast?, rule comp_order_settles) auto

lemma ConfirmOrder_run_once:
  "atmost is_bank 1 (run_steps (ConfirmOrder_steps S request code) [])"
  "atmost is_init 1 (run_steps (ConfirmOrder_steps S request code) [])"
  "atmost is_confirm 1 (run_steps (ConfirmOrder_steps S request code) [])"
  "atmost is_voucher 1 (run_steps (ConfirmOrder_steps S request code) [])"
  unfolding ConfirmOrder_steps_def ConfirmOrder_reserve_def ConfirmOrder_finish_def
     apply (rule atmost_run_named [where k = "\<lambda>n. of_bool (n = ''OPEN WALLET'')"]; auto intro!: atmost_rules)
    apply (rule atmost_run_named [where k = "\<lambda>n. of_bool (n = ''INIT_PAYMENT'')"]; auto intro!: atmost_rules)
   apply (rule atmost_run_named [where k = "\<lambda>n. of_bool (n = ''FINALIZATION_PAYMENT'')"]; auto intro!: atmost_rules)
  apply (rule atmost_run_named [where k = "\<lambda>n. of_bool (n = ''ACCOUNT_VOUCHER'')"]; auto intro!: atmost_rules)
  done

lemma ConfirmOrder_once:
  assumes "fresh_saga S s" and "A \<in> {is_bank, is_init, is_confirm, is_voucher}"
  shows "wp (ConfirmOrder S request) (\<lambda>_. adds A 1 s) (adds A 1 s) s"
  by (rule ConfirmOrder_wp [OF assms(1)], erule (1) orchestrate_started_atmost)
    (use assms(2) ConfirmOrder_run_once in \<open>auto intro: started_adds\<close>)

lemma ConfirmOrder_stays_open:
  assumes "fresh_saga S s"
  shows "wp (ConfirmOrder S request) (\<lambda>(p, err) u. adds bank_open 0 s u \<or> (err \<noteq> None \<and> still s u))
     (\<lambda>u. adds bank_open 0 s u \<or> still s u) s"
  by (rule ConfirmOrder_wp [OF assms], erule (1) orchestrate_opens, rule ConfirmOrder_steps_def, rule comp_provider_parks)
    (use ConfirmOrder_bank_opens in
      \<open>auto simp: ConfirmOrder_reserve_def ConfirmOrder_finish_def intro!: atmost_rules patient_comps started_adds\<close>)

subsection \<open>Progress\<close>

lemma ConfirmOrder_steps_go:
  assumes "cooperative S" "order_dto s \<noteq> None"
  shows "goes (run_steps (ConfirmOrder_steps S request code) []) (\<lambda>t. order_dto t \<noteq> None) s"
proof -
  note S = cooperativeD(1) [OF assms(1)]
  have processing: "goes (ConfirmOrder_processing S) R s" if "order_dto s \<noteq> None"
    "\<And>d w es. R ((appended s w es)\<lparr>order_dto := Some d\<rparr>)" for R s
    using that unfolding ConfirmOrder_processing_def wp_bindc wp_updates
    by (auto split: option.split intro!: assign_order_goes [OF order_ops_fine(1) [OF S]])
  have init: "goes (ConfirmOrder_init_payment S request) R s" if "order_dto s \<noteq> None"
    "\<And>d t w es. R ((appended s w es)\<lparr>order_dto := Some d, trans := Some t\<rparr>)" for R s
    using that unfolding ConfirmOrder_init_payment_def wp_bindc wp_gets wp_the_order wp_updates
    by (auto split: option.split simp: wp_ret intro!: wp_mono [OF init_trans_goes [OF S, where R = R]])
  have bank: "goes (ConfirmOrder_bank S) R s" if "order_dto s \<noteq> None" "R s"
    "\<And>w es x. R ((appended s w es)\<lparr>bankTraceId := x\<rparr>)" for R s
    using that unfolding ConfirmOrder_bank_def wp_bindc wp_the_order wp_if wp_ret
    by (auto split: option.split simp: wp_ret intro!: bank_step_goes [OF bank_ops_fine(1) [OF assms(1)]])
  have conf: "goes (ConfirmOrder_confirm S) R s" if "order_dto s \<noteq> None" "trans s \<noteq> None"
    "\<And>d t w es. R ((appended s w es)\<lparr>order_dto := Some d, trans := Some t\<rparr>)" for R s
    using that unfolding ConfirmOrder_confirm_def wp_bindc wp_the_trans wp_updates
    by (auto split: option.split intro!: confirm_trans_goes S)
  show ?thesis
    unfolding ConfirmOrder_steps_def ConfirmOrder_reserve_def ConfirmOrder_finish_def append.simps ConfirmOrder_voucher_def
    by (intro goes_Cons goes_Nil processing use_voucher_goes init bank conf success_order_goes S assms) simp_all
qed

lemma ConfirmOrder_progress:
  assumes "cooperative S" "fresh_saga S s" and "\<And>w. \<exists>d. fst (mg_FindOrder S (ByOrderID (cfr_OrderId request)) w) = Inr d \<and> payable d"
  shows "\<exists>d t. ConfirmOrder S request s = (Ret (Some d, None), t)"
proof -
  obtain d0 w where found: "mg_FindOrder S (ByOrderID (cfr_OrderId request)) (world s) = (Inr d0, w)" "payable d0"
    using assms(3) by (metis prod.collapse)
  let ?d = "ConfirmOrder_override request d0" and ?s = "(fresh_vars None s)\<lparr>world := w\<rparr>"
  have look: "GetValidOrder S (cfr_OrderId request) (fresh_vars None s) = (Ret (Inr d0), ?s)"
    using found by (simp add: GetValidOrder_def FindByOrderID_def bindc_def ask_def payable_def ret_def)
  have "\<exists>d t. orchestrate S ''Confirm Order'' (ConfirmOrder_steps S request (oe_VoucherCode ?d)) (?s\<lparr>order_dto := Some ?d\<rparr>) = (Ret (Some d, None), t)"
    by (rule orchestrate_goes) (rule fresh_saga_execution [OF assms(2)], simp, intro ConfirmOrder_steps_go assms(1), simp)
  then show ?thesis by (simp add: ConfirmOrder_def with_order_def bindc_def look set_order_def)
qed

subsection \<open>Properties\<close>

definition example_confirm :: ConfirmOrderRequest where
  "example_confirm = \<lparr>cfr_OrderId = ''O7'', cfr_OrderRequest = Some example_request\<rparr>"

lemma example_payable: "\<exists>d. fst (mg_FindOrder example_services (ByOrderID (cfr_OrderId example_confirm)) w) = Inr d \<and> payable d"
  by (simp add: example_services_def payable_def example_order_def OrderEntity_zero_def status_defs)

text \<open>
  C15: confirming a stored order without an error: the order is the one that the collection holds under the id of the request and could still be paid, it is marked as processing, its voucher is used, the payment
  is opened, for an open-wallet transfer the bank is asked to transfer the amount of the order and accepts, the transaction is
  confirmed and the order, with the id of the transaction, is marked as successful: these
  money-relevant calls and no others.
\<close>

theorem ConfirmOrder_completes:
  assumes "fresh_saga S s" and "ConfirmOrder S request s = (Ret (p, None), t)"
  shows "\<exists>stored d evs. payable_order S (cfr_OrderId request) stored \<and> p = Some d \<and> key (trace t) = key (trace s) @ evs \<and>
     ConfirmOrder_done request (ConfirmOrder_override request stored) evs d \<and> resp_OrderEntity t = Some (ConvertToProto d)"
proof -
  let ?R = "\<lambda>p t. \<exists>stored d evs. payable_order S (cfr_OrderId request) stored \<and> p = Some d \<and> key (trace t) = key (trace s) @ evs \<and>
     ConfirmOrder_done request (ConfirmOrder_override request stored) evs d \<and> resp_OrderEntity t = Some (ConvertToProto d)"
  have "wp (ConfirmOrder S request) (\<lambda>(p, err) t. err = None \<longrightarrow> ?R p t) (\<lambda>_. True) s"
    by (rule ConfirmOrder_wp [OF assms(1)], erule (1) orchestrate_started_succeeds, rule wp_mono, erule ConfirmOrder_steps_succeed)
      auto
  from wp_Ret [OF this assms(2)] show ?thesis by simp
qed

theorem ConfirmOrder_completes_witness:
  "\<exists>p t stored d evs. ConfirmOrder example_services example_confirm example_state = (Ret (p, None), t) \<and> p = Some d \<and>
     payable_order example_services ''O7'' stored \<and> key (trace t) = key (trace example_state) @ evs \<and>
     ConfirmOrder_done example_confirm (ConfirmOrder_override example_confirm stored) evs d"
proof -
  obtain p t where run: "ConfirmOrder example_services example_confirm example_state = (Ret (p, None), t)"
    using ConfirmOrder_progress [OF example_cooperative example_fresh_saga example_payable] by blast
  from ConfirmOrder_completes [OF example_fresh_saga run] run show ?thesis by (auto simp: example_confirm_def)
qed


text \<open>
  Whatever the bank and the other services answer, confirming an order asks the bank to move money at most once, uses at most
  one voucher, and opens and confirms at most one payment.
\<close>

theorem ConfirmOrder_at_most_once:
  assumes "fresh_saga S s" and "ConfirmOrder S request s = (r, t)"
  shows "\<exists>es. trace t = trace s @ es \<and>
     (\<forall>A \<in> {is_bank, is_init, is_confirm, is_voucher}. length (filter A (key es)) \<le> 1)"
  by (rule run_once [OF assms(2) ConfirmOrder_once [OF assms(1)]]) auto

theorem ConfirmOrder_at_most_once_witness:
  "\<exists>d t es. ConfirmOrder example_services example_confirm example_state = (Ret (Some d, None), t) \<and>
     trace t = trace example_state @ es \<and> length (filter is_confirm (key es)) \<le> 1"
proof -
  obtain d t where run: "ConfirmOrder example_services example_confirm example_state = (Ret (Some d, None), t)"
    using ConfirmOrder_progress [OF example_cooperative example_fresh_saga example_payable] by blast
  from ConfirmOrder_at_most_once [OF example_fresh_saga run] run show ?thesis by blast
qed

end
