(* ===== verification/Cancellation.thy ===== *)
theory Cancellation
  imports Services
begin

text \<open>
  Cancelling an order on request (\<open>application/cancel_order.go\<close>) and the job that fails expired
  orders (\<open>application/job_expired_order.go\<close>).
\<close>

subsection \<open>cancel_order.go\<close>

definition OrderCancel_message :: "OrderEntity \<Rightarrow> TransactionDetail" where
  "OrderCancel_message d = TransactionDetail_zero\<lparr>td_OrderId := oe_OrderID d, td_TransactionType := oe_OrderType d,
     td_SubTransactionType := oe_SubOrderType d, td_SourceOfFund := oe_SourceOfFund d, td_ServiceType := oe_ServiceType d\<rparr>"

text \<open>The transaction of the order goes too, as long as it has only been opened.\<close>

definition OrderCancel_trans :: "'w services \<Rightarrow> OrderEntity \<Rightarrow> ('w st, unit) comp" where
  "OrderCancel_trans S d =
     whenc (oe_TransactionID d \<noteq> [])
       (bindc (ask (ts_FindByID S (oe_TransactionID d))) (\<lambda>findTrans. case findTrans of
          Inl _ \<Rightarrow> ret ()
        | Inr t \<Rightarrow> whenc (tx_State t = TRANSACTION_STATE_INITIAL)
            (thenc (serviceTransactionCancel S (t\<lparr>tx_OrderId := oe_OrderID d\<rparr>)) (ret ()))))"

definition OrderCancel :: "'w services \<Rightarrow> string \<Rightarrow> ('w st, OrderEntity option \<times> goerror option) comp" where
  "OrderCancel S orderId =
     bindc (GetValidOrder S orderId) (\<lambda>r. case r of
       Inl e \<Rightarrow> ret (None, Some e)
     | Inr getOrderById \<Rightarrow>
         bindc (CancelOrder S getOrderById) (\<lambda>(_, orderDto, err). case err of
           Some e \<Rightarrow> ret (orderDto, Some e)
         | None \<Rightarrow>
             bindc (deref orderDto) (\<lambda>d.
             thenc (OrderCancel_trans S d)
            (thenc (modify (\<lambda>s. s\<lparr>resp_OrderEntity := Some (ConvertToProto d)\<rparr>))
            (thenc (emit (EvSubmit (JobCancelMessage (OrderCancel_message d)))) (ret (Some d, None)))))))"

subsection \<open>job_expired_order.go\<close>

text \<open>A deposit through Napas: the bank is asked what became of it.\<close>

definition expire_napas :: "'w services \<Rightarrow> OrderEntity \<Rightarrow> ('w st, unit) comp" where
  "expire_napas S v =
     bindc (RetrieveOrderStatus S (oe_OrderID v) GPNAPASGPBANK) (\<lambda>(getBankRetrieve, err). case err of
       Some _ \<Rightarrow>
         thenc (FailedOrder S (v\<lparr>oe_IsRetrievedOrder := True, oe_FailReason := br_Message getBankRetrieve\<rparr>))
        (bindc (ask (ts_FindByID S (oe_TransactionID v))) (\<lambda>getTranById. case getTranById of
           Inl _ \<Rightarrow> ret ()
         | Inr t \<Rightarrow> thenc (serviceTransactionCancel S (t\<lparr>tx_FailReason := br_Message getBankRetrieve\<rparr>)) (ret ())))
     | None \<Rightarrow>
         (let v = v\<lparr>oe_IsRetrievedOrder := True\<rparr> in
          bindc (ask (ts_FindByID S (oe_TransactionID v))) (\<lambda>getTranById. case getTranById of
            Inl _ \<Rightarrow> ret ()
          | Inr t \<Rightarrow>
              thenc (whenc (BankGwStatus_IsSuccess (br_ErrorCode getBankRetrieve))
                (thenc (serviceTransactionConfirm S t) (thenc (SuccessOrder S v) (ret ()))))
               (whenc (BankGwStatus_IsFail (br_ErrorCode getBankRetrieve))
                (thenc (serviceTransactionCancel S t) (thenc (FailedOrder S v) (ret ())))))))"

definition expired_message :: "OrderEntity \<Rightarrow> TransactionDetail" where
  "expired_message v = TransactionDetail_zero\<lparr>td_OrderId := oe_OrderID v,
     td_ProviderMerchantId := oe_SubscribeMerchantID v, td_Status := TRANSACTION_STATUS_FAILED, td_RefId := oe_RefID v,
     td_SubTransactionType := oe_SubOrderType v, td_SourceOfFund := oe_SourceOfFund v,
     td_TransactionType := oe_OrderType v, td_ServiceType := oe_ServiceType v\<rparr>"

definition expire_trans :: "'w services \<Rightarrow> OrderEntity \<Rightarrow> ('w st, unit) comp" where
  "expire_trans S v =
     whenc (oe_TransactionID v \<noteq> [])
       (bindc (ask (ts_FindByID S (oe_TransactionID v))) (\<lambda>getTranById. case getTranById of
          Inl _ \<Rightarrow> ret ()
        | Inr t \<Rightarrow> whenc (tx_State t = TRANSACTION_STATE_INITIAL)
            (thenc (serviceTransactionCancel S (t\<lparr>tx_FailReason := MsgExpiredOrder,
                tx_OrderId := (if tx_OrderId t = [] then oe_OrderID v else tx_OrderId t)\<rparr>)) (ret ()))))"

definition expire_order :: "'w services \<Rightarrow> OrderEntity \<Rightarrow> ('w st, unit) comp" where
  "expire_order S v =
     bindc (FailedOrder S (v\<lparr>oe_IsExpired := True, oe_FailReason := MsgExpiredOrder @ '' - job''\<rparr>)) (\<lambda>(v, _, err).
     whenc (err = None)
       (thenc (expire_trans S v)
       (thenc (CreateMessageMqtt S TopicMQTTUpdateExpiredOrder MQTTEventBackground TopicMQTTUpdateExpiredOrder
                (MTrans (expired_message v)) False) (ret ()))))"

definition napas_deposit :: "OrderEntity \<Rightarrow> bool" where
  "napas_deposit v \<longleftrightarrow> oe_OrderType v = TRANSTYPE_WALLET_CASH_IN \<and> oe_BankCode v = GPNAPASGPBANK \<and> \<not> oe_IsRetrievedOrder v"

fun expire_all :: "'w services \<Rightarrow> OrderEntity list \<Rightarrow> ('w st, unit) comp" where
  "expire_all S [] = ret ()"
| "expire_all S (v # vs) =
     thenc (if napas_deposit v then expire_napas S v else expire_order S v) (expire_all S vs)"

definition JobCancelExpiredOrder :: "'w services \<Rightarrow> ('w st, unit) comp" where
  "JobCancelExpiredOrder S =
     bindc (GetExpiredOrder S) (\<lambda>(getExpiredOrder, err). case err of
       Some _ \<Rightarrow> ret ()
     | None \<Rightarrow> expire_all S getExpiredOrder)"

subsection \<open>What they do\<close>

text \<open>
  Cancelling the payment of an order: the transaction that the order names, when it is found and has been opened and nothing more;
  \<open>h\<close> is what is written into it first.
\<close>

definition trans_cancelled :: "'w services \<Rightarrow> OrderEntity \<Rightarrow> (ETransactionDTO \<Rightarrow> ETransactionDTO) \<Rightarrow> event list \<Rightarrow> bool" where
  "trans_cancelled S d h es \<longleftrightarrow>
     (if oe_TransactionID d = [] then es = []
      else \<exists>w. case fst (ts_FindByID S (oe_TransactionID d) w) of
        Inl _ \<Rightarrow> es = []
      | Inr t \<Rightarrow> if tx_State t = TRANSACTION_STATE_INITIAL then \<exists>x. es = [EvCancel (h t) x] else es = [])"

lemma cancel_bindc_does:
  "does (thenc (serviceTransactionCancel S q) (ret ())) (\<lambda>r es. \<exists>x. es = [EvCancel q x])"
  by (rule does_bindc [OF serviceTransactionCancel_does]) (auto simp: one_call_def intro!: does_rules)

lemma cancel_initial_does:
  "does (whenc (oe_TransactionID d \<noteq> []) (bindc (ask (ts_FindByID S (oe_TransactionID d))) (\<lambda>r. case r of
      Inl _ \<Rightarrow> ret ()
    | Inr t \<Rightarrow> whenc (tx_State t = TRANSACTION_STATE_INITIAL) (thenc (serviceTransactionCancel S (h t)) (ret ())))))
    (\<lambda>_. trans_cancelled S d h)"
proof (rule does_whenc, rule does_ask_range, goal_cases)
  case (1 w)
  then show ?case
    by (intro does_sum does_whenc does_mono [OF cancel_bindc_does] does_ret)
      (auto simp: trans_cancelled_def intro!: exI [of _ w])
qed (simp add: trans_cancelled_def)

lemmas OrderCancel_trans_does = cancel_initial_does [where h = "\<lambda>t. t\<lparr>tx_OrderId := oe_OrderID d\<rparr>" and d = d, folded OrderCancel_trans_def] for d

text \<open>What a cancellation that goes well has done, and the message for the merchant that it leaves for the background.\<close>

definition order_cancelled :: "'w services \<Rightarrow> string \<Rightarrow> OrderEntity \<Rightarrow> event list \<Rightarrow> bool" where
  "order_cancelled S orderId d' es \<longleftrightarrow> (\<exists>d n cs es0. payable_order S orderId d \<and> restamped ORDER_CANCEL d d' \<and>
     es = es0 @ [EvSubmit (JobCancelMessage (OrderCancel_message d'))] \<and>
     key es0 = EvReplaceOrder (ByOrderID (oe_OrderID d)) d' (Inr (Suc n)) # cs \<and>
     trans_cancelled S d (\<lambda>t. t\<lparr>tx_OrderId := oe_OrderID d\<rparr>) cs)"

text \<open>
  What the job does to an order.  A deposit through Napas goes by the answer of the bank to the question what has become of it:
  success confirms its transaction and then stores the order as successful, failure cancels the transaction and then stores the
  order as failed, a deposit that the bank is still verifying is left alone, and when there is no such answer the order is
  failed first and its transaction, if it is found, cancelled.  Any other order is failed and marked as expired, and
  when that was written its payment is cancelled as above.
\<close>

definition napas_decided :: "'w services \<Rightarrow> OrderEntity \<Rightarrow> (ETransactionDTO \<Rightarrow> goerror + ETransactionDTO \<Rightarrow> event) \<Rightarrow> OrderStatus \<Rightarrow> event list \<Rightarrow> bool" where
  "napas_decided S v ev st es \<longleftrightarrow> (\<exists>w. case fst (ts_FindByID S (oe_TransactionID v) w) of
     Inl _ \<Rightarrow> es = []
   | Inr t \<Rightarrow> \<exists>x d y. es = [ev t x, EvReplaceOrder (ByOrderID (oe_OrderID v)) d y] \<and> restamped st (v\<lparr>oe_IsRetrievedOrder := True\<rparr>) d)"

definition napas_lost :: "'w services \<Rightarrow> OrderEntity \<Rightarrow> event list \<Rightarrow> bool" where
  "napas_lost S v es \<longleftrightarrow> (\<exists>d x cs w. es = EvReplaceOrder (ByOrderID (oe_OrderID v)) d x # cs \<and>
     restamped ORDER_FAILED (v\<lparr>oe_IsRetrievedOrder := True, oe_FailReason := []\<rparr>) d \<and>
     (case fst (ts_FindByID S (oe_TransactionID v) w) of
        Inl _ \<Rightarrow> cs = []
      | Inr t \<Rightarrow> \<exists>y. cs = [EvCancel (t\<lparr>tx_FailReason := []\<rparr>) y]))"

definition napas_events :: "'w services \<Rightarrow> OrderEntity \<Rightarrow> event list \<Rightarrow> bool" where
  "napas_events S v es \<longleftrightarrow> (\<exists>res err. order_reply S (oe_OrderID v) GPNAPASGPBANK (res, err) \<and>
     (if err = None \<and> BankGwStatus_IsSuccess (br_ErrorCode res) then napas_decided S v EvConfirm ORDER_SUCCESS es
      else if err = None \<and> BankGwStatus_IsFail (br_ErrorCode res) then napas_decided S v EvCancel ORDER_FAILED es
      else if err = None \<and> BankGwStatus_IsVerifying (br_ErrorCode res) then es = []
      else napas_lost S v es))"

definition expired_events :: "'w services \<Rightarrow> OrderEntity \<Rightarrow> event list \<Rightarrow> bool" where
  "expired_events S v es \<longleftrightarrow>
     (if napas_deposit v then napas_events S v es
      else (\<exists>d x cs. es = EvReplaceOrder (ByOrderID (oe_OrderID v)) d x # cs \<and>
        restamped ORDER_FAILED (v\<lparr>oe_IsExpired := True, oe_FailReason := MsgExpiredOrder @ '' - job''\<rparr>) d \<and>
        (if \<exists>n. x = Inr (Suc n)
         then trans_cancelled S d (\<lambda>t. t\<lparr>tx_FailReason := MsgExpiredOrder,
           tx_OrderId := (if tx_OrderId t = [] then oe_OrderID d else tx_OrderId t)\<rparr>) cs
         else cs = [])))"

lemma write_bindc_does:
  assumes "does m (status_write st d)" "st \<noteq> ORDER_PROCESSING"
    and "\<And>d' e x. restamped st d d' \<Longrightarrow> does (k (d', replaced d' e x)) (\<lambda>r es. Q r (EvReplaceOrder (ByOrderID (oe_OrderID d)) d' x # es))"
  shows "does (bindc m k) Q"
  by (rule does_bindc [OF assms(1)]) (use assms(2) in \<open>auto simp: status_write_def intro: assms(3)\<close>)

lemma expire_order_does:
  assumes "\<not> napas_deposit v"
  shows "does (expire_order S v) (\<lambda>r. expired_events S v)"
  unfolding expire_order_def
proof (rule write_bindc_does [OF FailedOrder_does], simp, goal_cases)
  case (1 d e x)
  note events = expired_events_def assms 1
  show ?case
    unfolding prod.case expire_trans_def
  proof (rule does_prod, rule does_whenc, rule does_bindc [OF cancel_initial_does], rule does_bindc_quiet [OF CreateMessageMqtt_quiet], rule does_ret)
  qed (auto simp: events)
qed

lemma one_call_bindc_does:
  assumes "does m (one_call ev)" "\<And>x r. does (k r) (\<lambda>r es. Q r (ev x # es))" "\<And>x. Q None [ev x]"
  shows "does (bindc m k) Q"
  by (rule does_bindc [OF assms(1)]) (auto simp: one_call_def intro: assms(2,3))

lemma expire_napas_does: "does (expire_napas S v) (\<lambda>r es. r = Some () \<longrightarrow> napas_events S v es)"
proof -
  let ?v = "v\<lparr>oe_IsRetrievedOrder := True\<rparr>"
  have lostI: "napas_lost S v (EvReplaceOrder (ByOrderID (oe_OrderID v)) d x # cs)"
    if "restamped ORDER_FAILED (v\<lparr>oe_IsRetrievedOrder := True, oe_FailReason := []\<rparr>) d"
      "case fst (ts_FindByID S (oe_TransactionID v) w) of Inl _ \<Rightarrow> cs = [] | Inr t \<Rightarrow> \<exists>y. cs = [EvCancel (t\<lparr>tx_FailReason := []\<rparr>) y]" for d x cs w
    unfolding napas_lost_def using that by blast
  have lost: "does (thenc (FailedOrder S (v\<lparr>oe_IsRetrievedOrder := True, oe_FailReason := []\<rparr>))
      (bindc (ask (ts_FindByID S (oe_TransactionID v))) (\<lambda>r. case r of Inl _ \<Rightarrow> ret ()
         | Inr t \<Rightarrow> thenc (serviceTransactionCancel S (t\<lparr>tx_FailReason := []\<rparr>)) (ret ())))) (\<lambda>r es. r = Some () \<longrightarrow> napas_lost S v es)"
  proof (rule write_bindc_does [OF FailedOrder_does], simp, rule does_ask_range, goal_cases)
    case (1 d e x w)
    then show ?case
      by (intro does_sum does_mono [OF cancel_bindc_does] does_ret) (auto intro!: lostI [where w = w])
  qed
  have decide: "does (thenc m (thenc n (ret ()))) (\<lambda>r es. r = Some () \<longrightarrow> napas_decided S v ev st es)"
    if "fst (ts_FindByID S (oe_TransactionID v) w) = Inr t" "does m (one_call (ev t))" "does n (status_write st ?v)" "st \<noteq> ORDER_PROCESSING"
    for m :: "('a st, ETransactionDTO option \<times> goerror option) comp" and n w t ev st
    by (rule one_call_bindc_does [OF that(2)], rule write_bindc_does [OF that(3,4)], rule does_ret)
      (use that(1) in \<open>auto simp: napas_decided_def intro!: exI [of _ w]\<close>)
  note decisions = decide [OF _ serviceTransactionConfirm_does SuccessOrder_does] decide [OF _ serviceTransactionCancel_does FailedOrder_does]
  have skip: "napas_decided S v ev st []" if "fst (ts_FindByID S (oe_TransactionID v) w) = Inl e" for w e ev st
    unfolding napas_decided_def using that by (intro exI [of _ w]) simp
  show ?thesis
    unfolding expire_napas_def Let_def
  proof (rule does_bindc [OF RetrieveOrderStatus_does], goal_cases)
    case (1 a es)
    then obtain res err where r: "order_reply S (oe_OrderID v) GPNAPASGPBANK (res, err)"
      "a = checked False False (\<lambda>st. BankGwStatus_IsSuccess st \<or> BankGwStatus_IsVerifying st \<or> BankGwStatus_IsFail st) (res, err)" "es = []"
      by force
    let ?c = "br_ErrorCode res"
    show ?case
    proof (cases "err = None \<and> (BankGwStatus_IsSuccess ?c \<or> BankGwStatus_IsVerifying ?c \<or> BankGwStatus_IsFail ?c)")
      case True
      then have a: "a = (res, None)" by (simp add: r(2) checked_def)
      show ?thesis
        unfolding a prod.case option.case
      proof (rule does_ask_range, goal_cases)
        case (1 w)
        consider (missing) e where "fst (ts_FindByID S (oe_TransactionID v) w) = Inl e" | (found) t where "fst (ts_FindByID S (oe_TransactionID v) w) = Inr t"
          by (cases "fst (ts_FindByID S (oe_TransactionID v) w)")
        then show ?case
        proof cases
          case missing
          then show ?thesis
            using True r(1,3) skip [OF missing] by (auto simp: napas_events_def intro!: does_rules)
        next
          case found
          then have found_v: "fst (ts_FindByID S (oe_TransactionID ?v) w) = Inr t" by simp
          consider "BankGwStatus_IsSuccess ?c" "\<not> BankGwStatus_IsFail ?c" | "\<not> BankGwStatus_IsSuccess ?c" "BankGwStatus_IsFail ?c"
            | "\<not> BankGwStatus_IsSuccess ?c" "\<not> BankGwStatus_IsFail ?c" "BankGwStatus_IsVerifying ?c"
            using True BankGwStatus_success_exclusive [of ?c] by blast
          then show ?thesis
          proof cases
            case 1
            then have "napas_events S v es" if "napas_decided S v EvConfirm ORDER_SUCCESS es" for es
              using that True r(1) unfolding napas_events_def by auto
            then show ?thesis
              unfolding found_v sum.case whenc_def if_P [OF 1(1)] if_not_P [OF 1(2)] r(3) append_Nil
              by (intro does_bindc [OF decisions(1) [OF found]] does_ret) auto
          next
            case 2
            then have "napas_events S v es" if "napas_decided S v EvCancel ORDER_FAILED es" for es
              using that True r(1) unfolding napas_events_def by auto
            then show ?thesis
              unfolding found_v sum.case whenc_def if_P [OF 2(2)] if_not_P [OF 2(1)] r(3) append_Nil ret_bindc
              by (intro does_mono [OF decisions(2) [OF found]]) auto
          next
            case 3
            then have "napas_events S v []" using True r(1) unfolding napas_events_def by auto
            then show ?thesis
              unfolding found_v sum.case whenc_def if_not_P [OF 3(1)] if_not_P [OF 3(2)] r(3) append_Nil ret_bindc
              by (intro does_ret) simp
          qed
        qed
      qed
    next
      case False
      then have "\<exists>e. a = (BankRes_zero, Some e)" by (cases err) (auto simp: r(2) checked_def)
      then obtain e where a: "a = (BankRes_zero, Some e)" by blast
      have "br_Message BankRes_zero = []" by (simp add: BankRes_zero_def)
      with False show ?thesis
        unfolding a prod.case option.case r(3) append_Nil using r(1)
        by (simp, intro does_mono [OF lost]) (auto simp: napas_events_def)
    qed
  qed (simp add: napas_events_def)
qed

lemma expire_all_does: "does (expire_all S vs) (\<lambda>r es. r = Some () \<longrightarrow> (\<exists>ess. es = concat ess \<and> list_all2 (expired_events S) vs ess))"
proof (induction vs)
  case Nil
  then show ?case by (auto intro!: does_rules)
next
  case (Cons v vs)
  have one: "does (if napas_deposit v then expire_napas S v else expire_order S v) (\<lambda>r es. r = Some () \<longrightarrow> expired_events S v es)"
    using expire_napas_does [of S v] does_mono [OF expire_order_does [of v S]] by (auto simp: expired_events_def)
  show ?case
    unfolding expire_all.simps
  proof (rule does_bindc [OF one])
    fix a :: unit and es
    assume es: "Some a = Some () \<longrightarrow> expired_events S v es"
    show "does (expire_all S vs) (\<lambda>r es'. r = Some () \<longrightarrow> (\<exists>ess. es @ es' = concat ess \<and> list_all2 (expired_events S) (v # vs) ess))"
    proof (rule does_mono [OF Cons.IH])
      fix r es'
      assume "r = Some () \<longrightarrow> (\<exists>ess. es' = concat ess \<and> list_all2 (expired_events S) vs ess)"
      with es show "r = Some () \<longrightarrow> (\<exists>ess. es @ es' = concat ess \<and> list_all2 (expired_events S) (v # vs) ess)"
        by (force intro: exI [of _ "es # _"])
    qed
  qed simp
qed

text \<open>
  The batch of the job: the documents of one query for at most ten orders that are pending or being processed, no refunds, and expired
  by now.  Documents that cannot be decoded are left out; when the last one cannot, or the query fails, the batch is empty.
\<close>

fun decoded :: "(goerror + OrderEntity) list \<Rightarrow> OrderEntity list" where
  "decoded [] = []"
| "decoded (Inl e # docs) = decoded docs"
| "decoded (Inr v # docs) = v # decoded docs"

lemma decode_loop_eq:
  "decode_loop docs res err = (res @ decoded docs, if docs = [] then err else case last docs of Inl e \<Rightarrow> Some e | Inr _ \<Rightarrow> None)"
  by (induction docs res err rule: decode_loop.induct) (auto split: sum.split)

lemma decode_loop_results:
  "fst (decode_loop docs [] None) = decoded docs" "snd (decode_loop docs [] None) = None \<longleftrightarrow> \<not> (docs \<noteq> [] \<and> isl (last docs))"
  by (auto simp: decode_loop_eq split: sum.split)

definition expired_batch :: "'w services \<Rightarrow> OrderEntity list \<Rightarrow> bool" where
  "expired_batch S vs \<longleftrightarrow> (\<exists>now w. vs = (case fst (mg_FindExpired S \<lparr>ef_Statuses = [ORDER_PENDING, ORDER_PROCESSING],
       ef_ExpiredAtLte = now, ef_OrderTypeNe = TRANSTYPE_WALLET_REFUND\<rparr> 10 w) of
     Inl _ \<Rightarrow> []
   | Inr docs \<Rightarrow> if docs \<noteq> [] \<and> isl (last docs) then [] else decoded docs))"

lemma GetExpiredOrder_does: "does (GetExpiredOrder S) (\<lambda>r es. es = [] \<and> (\<exists>vs err. r = Some (vs, err) \<and>
     expired_batch S (if err = None then vs else [])))"
  unfolding GetExpiredOrder_def
proof (rule does_ask_bindc, rule does_ask_range, goal_cases)
  case (1 now w)
  have "expired_batch S (case fst (mg_FindExpired S \<lparr>ef_Statuses = [ORDER_PENDING, ORDER_PROCESSING],
       ef_ExpiredAtLte = now, ef_OrderTypeNe = TRANSTYPE_WALLET_REFUND\<rparr> 10 w) of
     Inl _ \<Rightarrow> [] | Inr docs \<Rightarrow> if docs \<noteq> [] \<and> isl (last docs) then [] else decoded docs)"
    unfolding expired_batch_def by blast
  then show ?case
  proof (cases "fst (mg_FindExpired S \<lparr>ef_Statuses = [ORDER_PENDING, ORDER_PROCESSING], ef_ExpiredAtLte = now,
          ef_OrderTypeNe = TRANSTYPE_WALLET_REFUND\<rparr> 10 w)")
    case (Inr docs)
    obtain vs err where loop: "decode_loop docs [] None = (vs, err)" by force
    have "vs = decoded docs" "err = None \<longleftrightarrow> \<not> (docs \<noteq> [] \<and> isl (last docs))"
      using decode_loop_results [of docs] by (simp_all only: loop fst_conv snd_conv)
    with 1 Inr show ?thesis
      unfolding Inr sum.case loop using \<open>expired_batch S _\<close> by (intro does_ret) (auto simp: Inr)
  qed (auto intro!: does_ret)
qed

lemma JobCancelExpiredOrder_does: "does (JobCancelExpiredOrder S) (\<lambda>r es. r = Some () \<longrightarrow>
    (\<exists>vs ess. expired_batch S vs \<and> es = concat ess \<and> list_all2 (expired_events S) vs ess))"
  unfolding JobCancelExpiredOrder_def
proof (rule does_bindc [OF GetExpiredOrder_does], goal_cases)
  case (1 a es)
  then obtain vs err where a: "a = (vs, err)" "es = []" "expired_batch S (if err = None then vs else [])" by auto
  show ?case
  proof (cases err)
    case None
    with a show ?thesis by (auto intro!: does_mono [OF expire_all_does])
  next
    case (Some e)
    with a show ?thesis by (auto intro!: does_ret exI [of _ "[]"])
  qed
qed simp

subsection \<open>Properties\<close>

text \<open>
  C35: cancelling an order without an error: the order is the one that the collection holds under the given id and could still be
  paid; it is stored as cancelled under its id and returned; the transaction that it names is cancelled, under the id of the order, exactly when it is
  found and has been opened and nothing more; no other call moves money or writes an order; and last, one message
  about the order is handed to the background for the merchant.
\<close>

theorem OrderCancel_cancels:
  assumes "OrderCancel S orderId s = (Ret (p, None), t)"
  shows "\<exists>d' es. p = Some d' \<and> trace t = trace s @ es \<and> order_cancelled S orderId d' es \<and> resp_OrderEntity t = Some (ConvertToProto d')"
proof -
  let ?Q = "\<lambda>(p, err) t. err = None \<longrightarrow> (\<exists>d' es. p = Some d' \<and> trace t = trace s @ es \<and> order_cancelled S orderId d' es \<and>
     resp_OrderEntity t = Some (ConvertToProto d'))"
  have "wp (OrderCancel S orderId) ?Q (\<lambda>_. True) s"
    unfolding OrderCancel_def wp_bindc
  proof (rule does_wp [OF valid_order_does], goal_cases)
    case (1 r w es)
    show ?case
    proof (cases r)
      case (Inr d)
      with 1 have d: "payable_order S orderId d" "key es = []" by auto
      show ?thesis
        unfolding Inr sum.case wp_bindc
      proof (rule does_wp [OF CancelOrder_does], goal_cases)
        case (1 a w' es')
        then obtain d' e x where a: "a = (d', replaced d' e x)" "key es' = [EvReplaceOrder (ByOrderID (oe_OrderID d)) d' x]" "restamped ORDER_CANCEL d d'"
          by (auto simp: status_write_def)
        show ?case
        proof (cases "snd (replaced d' e x)")
          case None
          then obtain n where x: "x = Inr (Suc n)" by auto
          have d': "oe_TransactionID d' = oe_TransactionID d" "oe_OrderID d' = oe_OrderID d" using a(3) by (simp_all add: restamped_sel)
          have "order_cancelled S orderId d' (es @ es' @ es0 @ [EvSubmit (JobCancelMessage (OrderCancel_message d'))])"
            if c: "trans_cancelled S d' (\<lambda>t. t\<lparr>tx_OrderId := oe_OrderID d'\<rparr>) (key es0)" for es0
          proof -
            from c have "trans_cancelled S d (\<lambda>t. t\<lparr>tx_OrderId := oe_OrderID d\<rparr>) (key es0)" by (simp only: trans_cancelled_def d')
            with d a(2,3) x show ?thesis
              unfolding order_cancelled_def
              by (intro exI [of _ d] exI [of _ n] exI [of _ "key es0"] exI [of _ "es @ es' @ es0"]) simp
          qed
          then show ?thesis
            unfolding a(1) x by (auto simp: wp_rules intro!: does_wp [OF OrderCancel_trans_does])
        qed (auto simp: a(1) wp_rules split: prod.split option.split)
      qed simp
    qed (simp add: wp_rules)
  qed simp
  from wp_Ret [OF this assms] show ?thesis by simp
qed

theorem OrderCancel_cancels_witness:
  "\<exists>p t d' es. OrderCancel example_services ''O7'' example_state = (Ret (p, None), t) \<and> p = Some d' \<and>
     trace t = es \<and> order_cancelled example_services ''O7'' d' es"
proof -
  have "OrderCancel example_services ''O7'' example_state = (Ret (p, None), t) \<longrightarrow> ?thesis" for p t
    using OrderCancel_cancels [of example_services "''O7''" example_state p t]
    by (auto simp: example_state_def)
  moreover have "\<exists>p t. OrderCancel example_services ''O7'' example_state = (Ret (p, None), t)"
    by (simp add: OrderCancel_def GetValidOrder_def FindByOrderID_def CancelOrder_def GetCurrentTime_def ReplaceByID_def
        OrderCancel_trans_def whenc_def emit_def bindc_def ask_def act_def example_services_def example_order_def OrderEntity_zero_def
        status_defs Let_def ret_def)
  ultimately show ?thesis by blast
qed

text \<open>
  C36: when the job ends, it has handled its batch, one order after the other.  The batch is what the database returns for the query of expired orders
  with the limit of ten and can be decoded, and it is empty when the query fails or the last document cannot be decoded.  An order that is not a Napas
  deposit is stored as failed and expired, and when that was written, its payment is cancelled if it has only been opened.  For a Napas deposit the
  bank is asked about the order: after success its payment is confirmed and the order stored as successful, after failure the payment is cancelled and the
  order stored as failed (neither is done when the payment is not found), while the bank is verifying nothing happens, and without such an answer the order is stored as failed
  and its payment, if found, cancelled.  No other call moves money or writes an order.
\<close>

theorem expired_orders_handled:
  assumes "JobCancelExpiredOrder S s = (Ret (), t)"
  shows "\<exists>vs ess. expired_batch S vs \<and> key (trace t) = key (trace s) @ concat ess \<and> list_all2 (expired_events S) vs ess"
proof -
  obtain w es vs ess where "t = appended s w es" "expired_batch S vs" "key es = concat ess" "list_all2 (expired_events S) vs ess"
    using does_run [OF JobCancelExpiredOrder_does assms] by auto
  then show ?thesis by (intro exI [of _ vs] exI [of _ ess]) simp
qed

theorem expired_orders_handled_witness:
  "\<exists>t vs ess. JobCancelExpiredOrder (example_services\<lparr>mg_FindExpired := \<lambda>_ _ w. (Inr [Inr example_order], w)\<rparr>) example_state = (Ret (), t) \<and>
     vs = [example_order] \<and> key (trace t) = concat ess \<and>
     list_all2 (expired_events (example_services\<lparr>mg_FindExpired := \<lambda>_ _ w. (Inr [Inr example_order], w)\<rparr>)) vs ess"
proof -
  let ?S = "example_services\<lparr>mg_FindExpired := \<lambda>_ _ w. (Inr [Inr example_order], w)\<rparr>"
  have "\<exists>t. JobCancelExpiredOrder ?S example_state = (Ret (), t)"
    by (simp add: JobCancelExpiredOrder_def GetExpiredOrder_def expire_order_def FailedOrder_def GetCurrentTime_def ReplaceByID_def
        expire_trans_def CreateMessageMqtt_def whenc_def bindc_def ask_def act_def example_services_def example_order_def OrderEntity_zero_def
        napas_deposit_def go_consts Let_def ret_def)
  then obtain t where run: "JobCancelExpiredOrder ?S example_state = (Ret (), t)" by blast
  have "expired_batch ?S vs \<Longrightarrow> vs = [example_order]" for vs by (auto simp: expired_batch_def)
  with expired_orders_handled [OF run] run show ?thesis by (auto simp: example_state_def)
qed

end
