(* ===== verification/CashIn.thy ===== *)
theory CashIn
  imports Services
begin

text \<open>
  Depositing from a linked bank account, \<open>application/cash_in_orchestrator.go\<close>.  The bank either
  takes the money at once or asks for a one-time password; in the second case the order stays
  in processing until \<open>VerifyOTP\<close>.
\<close>

record OrderCashInRequest =
  cir_LinkId :: int64
  cir_Description :: string
  cir_OrderRequest :: OrderRequest

definition CashIn_check :: "'w services \<Rightarrow> OrderCashInRequest \<Rightarrow> ('w st, goerror option) comp" where
  "CashIn_check S request =
     bindc (LinkInfo S (cir_LinkId request)) (\<lambda>(getLinkIdInfo, err). case err of
       Some e \<Rightarrow> ret (Some e)
     | None \<Rightarrow>
         if br_GpayUserID getLinkIdInfo \<noteq> rq_ToUserID (cir_OrderRequest request)
         then ret (Some (ErrorString ''Invalid link id ''))
         else thenc (modify (\<lambda>s. s\<lparr>bankCode := br_BankCode getLinkIdInfo,
                       bankCodeGpay := br_GpayBankCode getLinkIdInfo\<rparr>)) (ret None))"

definition CashIn_order :: "OrderCashInRequest \<Rightarrow> string \<Rightarrow> OrderEntity" where
  "CashIn_order request bank = (let r = cir_OrderRequest request in OrderEntity_zero\<lparr>
     oe_ServiceID := rq_ServiceID r, oe_UserID := rq_UserID r, oe_SubscribeMerchantID := rq_MerchantID r,
     oe_ServiceType := (if rq_ServiceType r = [] then SERVICE_TYPE_WALLET else rq_ServiceType r),
     oe_OrderType := (if rq_TransType r = [] then TRANSTYPE_WALLET_CASH_IN else rq_TransType r),
     oe_SubOrderType := rq_SubTransType r, oe_Amount := rq_Amount r, oe_Quantity := rq_Quantity r,
     oe_SourceOfFund := SOURCE_OF_FUND_BANK_ATM, oe_VoucherCode := rq_VoucherCode r, oe_DeviceID := rq_DeviceID r,
     oe_BankCode := bank, oe_ToUserID := rq_ToUserID r, oe_ServiceCode := TRANSTYPE_WALLET_CASH_IN,
     oe_RefID := rq_RefID r\<rparr>)"

text \<open>\<open>if err == nil { response.OrderEntity = order_dto.ConvertToProto() }\<close>\<close>

definition respond_order :: "('w st, goerror option) comp \<Rightarrow> ('w st, goerror option) comp" where
  "respond_order m =
     bindc m (\<lambda>err.
     thenc (whenc (err = None)
       (bindc the_order (\<lambda>d. modify (\<lambda>s. s\<lparr>resp_OrderEntity := Some (ConvertToProto d)\<rparr>))))
     (ret err))"

definition CashIn_init_order :: "'w services \<Rightarrow> OrderCashInRequest \<Rightarrow> ('w st, goerror option) comp" where
  "CashIn_init_order S request =
     bindc (gets bankCode) (\<lambda>b. respond_order (init_order S (CashIn_order request b)))"

definition CashIn_payment :: "OrderEntity \<Rightarrow> ETransactionDTO" where
  "CashIn_payment d = (let dto = ETransactionDTO_zero\<lparr>
     tx_TransactionType := oe_OrderType d, tx_ServiceType := oe_ServiceType d, tx_Amount := oe_Amount d,
     tx_SourceOfFund := oe_SourceOfFund d, tx_PayeeId := oe_ToUserID d, tx_AppId := oe_ServiceCode d,
     tx_OrderId := oe_OrderID d, tx_BankCode := oe_BankCode d, tx_RefId := oe_RefID d,
     tx_MerchantID := oe_SubscribeMerchantID d\<rparr>
     in if tx_ServiceType dto = [] then dto\<lparr>tx_ServiceType := SERVICE_TYPE_WALLET\<rparr> else dto)"

definition CashIn_init_payment :: "'w services \<Rightarrow> ('w st, goerror option) comp" where
  "CashIn_init_payment S = link_order (bindc the_order (\<lambda>d. init_trans S True (CashIn_payment d)))"

definition CashIn_processing :: "'w services \<Rightarrow> ('w st, goerror option) comp" where
  "CashIn_processing S = respond_order (assign_order (ProcessingOrder S))"

text \<open>The compensation of that step cancels the order instead of failing it.\<close>

definition comp_cancel_order :: "'w services \<Rightarrow> ('w st, goerror option) comp" where
  "comp_cancel_order S =
     thenc (bindc the_order (\<lambda>d.
       whenc (\<not> IsVerifying (oe_Status d) \<and> \<not> IsFailed (oe_Status d))
         (thenc (through_order (CancelOrder S)) (ret ())))) (ret None)"

definition CashIn_bank :: "'w services \<Rightarrow> OrderCashInRequest \<Rightarrow> ('w st, goerror option) comp" where
  "CashIn_bank S request = (let r = cir_OrderRequest request in
     bindc (gets bankCodeGpay) (\<lambda>b.
     bindc the_order (\<lambda>d.
     bindc (bank_CashIn S b (cir_LinkId request) (rq_Amount r) (oe_OrderID d) (rq_ToUserID r)) (\<lambda>(cashinRes, err).
     case err of
       Some e \<Rightarrow> thenc (set_failReason (Error e)) (ret (Some e))
     | None \<Rightarrow>
         thenc (modify (\<lambda>s. s\<lparr>bankTraceId := br_BankTraceId cashinRes, resp_BankTraceId := br_BankTraceId cashinRes,
                  resp_LinkId := cir_LinkId request\<rparr>))
        (thenc (update_order (\<lambda>d. d\<lparr>oe_BankTransactionId :=
                  (if br_BankTraceId cashinRes = [] then oe_OrderID d else br_BankTraceId cashinRes)\<rparr>))
        (thenc (if BankGwStatus_IsNeedToEnterOTP (br_ErrorCode cashinRes)
                then modify (\<lambda>s. s\<lparr>resp_Status := ''NeedToVerifyOtp''\<rparr>)
                else whenc (BankGwStatus_IsSuccess (br_ErrorCode cashinRes))
                  (modify (\<lambda>s. s\<lparr>resp_Status := ''Success'', isByPassOtp := True\<rparr>)))
         (ret None)))))))"

definition comp_CashIn_bank :: "'w services \<Rightarrow> ('w st, goerror option) comp" where
  "comp_CashIn_bank S =
     bindc (gets isTimeOutBank) (\<lambda>b.
     if b then thenc (verify_order_unless S) (ret None) else through_order (FailedOrder S))"

definition if_bypass :: "('w st, goerror option) comp \<Rightarrow> ('w st, goerror option) comp" where
  "if_bypass m = bindc (gets isByPassOtp) (\<lambda>b. if b then m else ret None)"

definition CashIn_confirm :: "'w services \<Rightarrow> ('w st, goerror option) comp" where
  "CashIn_confirm S =
     if_bypass (bindc the_order (\<lambda>d. confirm_trans S (\<lambda>_ t. t\<lparr>tx_BankTransactionId := oe_BankTransactionId d\<rparr>)))"

definition CashIn_steps :: "'w services \<Rightarrow> OrderCashInRequest \<Rightarrow> 'w st step_def list" where
  "CashIn_steps S request =
     [(''Check VALID LinkID and User ID'', CashIn_check S request, ret None),
      (''INIT_ORDER'', CashIn_init_order S request, comp_order S),
      (''INIT_PAYMENT'', CashIn_init_payment S, comp_init_payment S with_reason order_as_is),
      (''PROCESSING_ORDER'', CashIn_processing S, comp_cancel_order S),
      (''CASH IN REQUEST'', CashIn_bank S request, comp_CashIn_bank S),
      (''CONFIRM TRANS IF BY PASS OTP'', CashIn_confirm S, comp_pending S False as_is),
      (''SUCCESS_ORDER'', if_bypass (success_order S), comp_pending S False as_is)]"

definition CashIn :: "'w services \<Rightarrow> OrderCashInRequest \<Rightarrow> ('w st, OrderEntity option \<times> goerror option) comp" where
  "CashIn S request =
     thenc (modify (fresh_vars (Some OrderEntity_zero))) (orchestrate S ''CashInRequest'' (CashIn_steps S request))"

subsection \<open>The steps\<close>

lemma CashIn_check_succeeds:
  assumes "\<And>b c w es. key es = [] \<Longrightarrow> R ((appended s w es)\<lparr>bankCode := b, bankCodeGpay := c\<rparr>)"
  shows "succeeds (CashIn_check S request) R s"
  unfolding CashIn_check_def wp_bindc
  by (rule does_wp [OF LinkInfo_quiet]) (auto simp: wp_rules split: prod.split option.split intro: assms)

lemma respond_order_succeeds:
  assumes "succeeds m (\<lambda>t. \<forall>d. order_dto t = Some d \<longrightarrow> R (t\<lparr>resp_OrderEntity := Some (ConvertToProto d)\<rparr>)) s"
  shows "succeeds (respond_order m) R s"
  unfolding respond_order_def wp_bindc
  by (rule wp_mono [OF assms]) (auto simp: wp_rules split: option.split)

lemma CashIn_init_succeeds:
  assumes "\<And>d q t w es. order_dto s = Some d \<Longrightarrow> init_request (CashIn_payment d) q \<Longrightarrow>
     key es = [EvInit q (Inr t)] \<Longrightarrow>
     R ((appended s w es)\<lparr>trans := Some t, order_dto := Some (d\<lparr>oe_TransactionID := tx_TransactionId t\<rparr>)\<rparr>)"
  shows "succeeds (CashIn_init_payment S) R s"
  unfolding CashIn_init_payment_def
  by (rule link_order_succeeds) (auto split: option.split simp: wp_bindc wp_the_order intro!: init_trans_succeeds assms)

lemma bank_CashIn_does:
  "does (bank_CashIn S b l am i u) (bank_call (\<lambda>now. envelope ''cashin'' ClientCode b now
     (CashInDataRequest am i l ''MOBILE'' u ''cash in'') ''ip'') True True
     (\<lambda>st. BankGwStatus_IsNeedToEnterOTP st \<or> BankGwStatus_IsSuccess st))"
  unfolding bank_CashIn_def by (rule bank_request_does)

definition CashIn_id :: "OrderEntity \<Rightarrow> BankRes \<Rightarrow> string" where
  "CashIn_id d res = (if br_BankTraceId res = [] then oe_OrderID d else br_BankTraceId res)"

abbreviation (input) cashin_call :: "OrderCashInRequest \<Rightarrow> string \<Rightarrow> OrderEntity \<Rightarrow> gotime \<Rightarrow> BankReq" where
  "cashin_call request b d now \<equiv> envelope ''cashin'' ClientCode b now
     (CashInDataRequest (rq_Amount (cir_OrderRequest request)) (oe_OrderID d) (cir_LinkId request) ''MOBILE''
       (rq_ToUserID (cir_OrderRequest request)) ''cash in'') ''ip''"

lemma CashIn_bank_succeeds:
  assumes "\<And>d now res w es. order_dto s = Some d \<Longrightarrow> key es = [EvBank (cashin_call request (bankCodeGpay s) d now) res None] \<Longrightarrow>
     BankGwStatus_IsNeedToEnterOTP (br_ErrorCode res) \<Longrightarrow>
     R ((appended s w es)\<lparr>bankTraceId := br_BankTraceId res, resp_BankTraceId := br_BankTraceId res,
        resp_LinkId := cir_LinkId request, order_dto := Some (d\<lparr>oe_BankTransactionId := CashIn_id d res\<rparr>),
        resp_Status := ''NeedToVerifyOtp''\<rparr>)"
    and "\<And>d now res w es. order_dto s = Some d \<Longrightarrow> key es = [EvBank (cashin_call request (bankCodeGpay s) d now) res None] \<Longrightarrow>
     BankGwStatus_IsSuccess (br_ErrorCode res) \<Longrightarrow>
     R ((appended s w es)\<lparr>bankTraceId := br_BankTraceId res, resp_BankTraceId := br_BankTraceId res,
        resp_LinkId := cir_LinkId request, order_dto := Some (d\<lparr>oe_BankTransactionId := CashIn_id d res\<rparr>),
        resp_Status := ''Success'', isByPassOtp := True\<rparr>)"
  shows "succeeds (CashIn_bank S request) R s"
proof (cases "order_dto s")
  case (Some d)
  show ?thesis
    unfolding CashIn_bank_def Let_def wp_bindc wp_gets wp_the_order Some option.case
  proof (rule does_wp [OF bank_CashIn_does], goal_cases)
    case (1 r w es)
    then obtain now res err where es: "key es = [EvBank (cashin_call request (bankCodeGpay s) d now) res err]"
      "r = checked True True (\<lambda>st. BankGwStatus_IsNeedToEnterOTP st \<or> BankGwStatus_IsSuccess st) (res, err)"
      unfolding bank_call_def by blast
    obtain r1 r2 where r: "r = (r1, r2)" by force
    show ?case
    proof (cases r2)
      case None
      then have ok: "err = None" "r1 = res" "BankGwStatus_IsNeedToEnterOTP (br_ErrorCode res) \<or> BankGwStatus_IsSuccess (br_ErrorCode res)"
        using es(2) r checked_ok [of True True "\<lambda>st. BankGwStatus_IsNeedToEnterOTP st \<or> BankGwStatus_IsSuccess st" res err r1]
        by simp_all
      show ?thesis
      proof (cases "BankGwStatus_IsNeedToEnterOTP (br_ErrorCode res)")
        case True
        show ?thesis
          using assms(1) [OF Some es(1) [unfolded ok(1)] True, of w]
          by (simp add: r None ok(2) wp_rules CashIn_id_def Some True)
      next
        case False
        then have "BankGwStatus_IsSuccess (br_ErrorCode res)" using ok(3) by simp
        then show ?thesis
          using assms(2) [OF Some es(1) [unfolded ok(1)], of w]
          by (simp add: r None ok(2) wp_rules CashIn_id_def Some False)
      qed
    qed (simp add: r wp_rules)
  qed simp
qed (simp add: CashIn_bank_def Let_def wp_rules)

lemma if_bypass_succeeds:
  "(isByPassOtp s \<Longrightarrow> succeeds m R s) \<Longrightarrow> (\<not> isByPassOtp s \<Longrightarrow> R s) \<Longrightarrow> succeeds (if_bypass m) R s"
  by (simp add: if_bypass_def wp_rules)

lemma CashIn_confirm_succeeds:
  assumes "\<And>d t t' w es. isByPassOtp s \<Longrightarrow> order_dto s = Some d \<Longrightarrow> trans s = Some t \<Longrightarrow>
     key es = [EvConfirm (t\<lparr>tx_BankTransactionId := oe_BankTransactionId d\<rparr>) (Inr t')] \<Longrightarrow>
     R ((appended s w es)\<lparr>trans := Some t'\<rparr>)"
    and "\<not> isByPassOtp s \<Longrightarrow> R s"
  shows "succeeds (CashIn_confirm S) R s"
  unfolding CashIn_confirm_def
  by (rule if_bypass_succeeds) (auto simp: wp_bindc wp_the_order split: option.split intro!: confirm_trans_succeeds assms)

subsection \<open>Runs\<close>

text \<open>
  A deposit that went well: the order and the payment are opened, and then the bank takes the money
  at once or waits for the one-time password.
\<close>

definition CashIn_opened :: "OrderCashInRequest \<Rightarrow> event list \<Rightarrow> ETransactionDTO \<Rightarrow> OrderEntity \<Rightarrow> bool" where
  "CashIn_opened request evs t d1 \<longleftrightarrow> (\<exists>bank d0 q f1 n1 now oid.
     evs = [EvInsertOrder d0 None, EvInit q (Inr t), EvReplaceOrder f1 d1 (Inr (Suc n1))] \<and>
     d0 = initial_order (CashIn_order request bank) now oid \<and> init_request (CashIn_payment d0) q \<and>
     restamped ORDER_PROCESSING (d0\<lparr>oe_TransactionID := tx_TransactionId t\<rparr>) d1)"

definition CashIn_asked :: "OrderCashInRequest \<Rightarrow> event list \<Rightarrow> OrderEntity \<Rightarrow> BankRes \<Rightarrow> bool" where
  "CashIn_asked request evs d res \<longleftrightarrow> (\<exists>b now. evs = [EvBank (cashin_call request b d now) res None])"

definition CashIn_confirmed :: "event list \<Rightarrow> ETransactionDTO \<Rightarrow> OrderEntity \<Rightarrow> OrderEntity \<Rightarrow> bool" where
  "CashIn_confirmed evs t d2 d \<longleftrightarrow> restamped ORDER_SUCCESS d2 d \<and>
     (\<exists>c f n. evs = [EvConfirm (t\<lparr>tx_BankTransactionId := oe_BankTransactionId d2\<rparr>) (Inr c), EvReplaceOrder f d (Inr (Suc n))])"

definition CashIn_done :: "OrderCashInRequest \<Rightarrow> event list \<Rightarrow> OrderEntity \<Rightarrow> string \<Rightarrow> bool" where
  "CashIn_done request evs d status \<longleftrightarrow> (\<exists>opn call fin t d1 d2 res.
     evs = opn @ call @ fin \<and> CashIn_opened request opn t d1 \<and> CashIn_asked request call d1 res \<and>
     d2 = d1\<lparr>oe_BankTransactionId := CashIn_id d1 res\<rparr> \<and>
     (BankGwStatus_IsNeedToEnterOTP (br_ErrorCode res) \<and> fin = [] \<and> d = d2 \<and> status = ''NeedToVerifyOtp'' \<or>
      BankGwStatus_IsSuccess (br_ErrorCode res) \<and> CashIn_confirmed fin t d2 d \<and> status = ''Success''))"

lemma CashIn_finish_waits:
  assumes "\<not> isByPassOtp s" "R s"
  shows "succeeds (run_steps [(n6, CashIn_confirm S, g6), (n7, if_bypass (success_order S), g7)] gs) R s"
  by (intro succeeds_Cons succeeds_Nil CashIn_confirm_succeeds if_bypass_succeeds) (use assms in auto)

lemma CashIn_finish_confirms:
  assumes "isByPassOtp s" "order_dto s = Some d2" "trans s = Some t"
    and "\<And>evs d s1. CashIn_confirmed evs t d2 d \<Longrightarrow> order_dto s1 = Some d \<Longrightarrow> key (trace s1) = key (trace s) @ evs \<Longrightarrow>
      resp_Status s1 = resp_Status s \<Longrightarrow> R s1"
  shows "succeeds (run_steps [(n6, CashIn_confirm S, g6), (n7, if_bypass (success_order S), g7)] gs) R s"
  by (intro succeeds_Cons succeeds_Nil CashIn_confirm_succeeds if_bypass_succeeds success_order_succeeds)
    (use assms(1-3) in \<open>auto simp: CashIn_confirmed_def intro!: assms(4)\<close>)

lemma CashIn_opens_payment:
  assumes "\<And>d t evs s1. CashIn_opened request evs t d \<Longrightarrow> order_dto s1 = Some d \<Longrightarrow> trans s1 = Some t \<Longrightarrow>
     key (trace s1) = key (trace s) @ evs \<Longrightarrow> isByPassOtp s1 = isByPassOtp s \<Longrightarrow> succeeds (run_steps sts [g4, g3, g2, g1]) R s1"
  shows "succeeds (run_steps
     ((n1, CashIn_check S request, g1) # (n2, CashIn_init_order S request, g2) # (n3, CashIn_init_payment S, g3) #
      (n4, CashIn_processing S, g4) # sts) []) R s"
  unfolding CashIn_init_order_def CashIn_processing_def
  by (intro succeeds_Cons succeeds_gets CashIn_check_succeeds respond_order_succeeds init_order_succeeds
      assign_order_succeeds [OF ProcessingOrder_does] CashIn_init_succeeds allI impI assms)
    (auto simp: CashIn_opened_def)

lemma CashIn_done_waiting:
  assumes "CashIn_opened request opn t d1" "CashIn_asked request call d1 res" "BankGwStatus_IsNeedToEnterOTP (br_ErrorCode res)"
  shows "CashIn_done request (opn @ call) (d1\<lparr>oe_BankTransactionId := CashIn_id d1 res\<rparr>) ''NeedToVerifyOtp''"
  unfolding CashIn_done_def using assms by (intro exI [of _ opn] exI [of _ call] exI [of _ "[]"]) auto

lemma CashIn_done_taken:
  assumes "CashIn_opened request opn t d1" "CashIn_asked request call d1 res" "BankGwStatus_IsSuccess (br_ErrorCode res)"
    and "CashIn_confirmed fin t (d1\<lparr>oe_BankTransactionId := CashIn_id d1 res\<rparr>) d"
  shows "CashIn_done request (opn @ call @ fin) d ''Success''"
  unfolding CashIn_done_def using assms by blast

lemma CashIn_steps_succeed:
  assumes "started (Some OrderEntity_zero) s s'"
  shows "succeeds (run_steps (CashIn_steps S request) [])
     (\<lambda>t. \<exists>d evs. order_dto t = Some d \<and> key (trace t) = key (trace s) @ evs \<and> CashIn_done request evs d (resp_Status t)) s'"
  unfolding CashIn_steps_def
proof (rule CashIn_opens_payment, rule succeeds_Cons, rule CashIn_bank_succeeds, goal_cases)
  case (1 d1 t opn s1 d now res w es)
  then have "CashIn_asked request (key es) d1 res" by (auto simp: CashIn_asked_def)
  from CashIn_done_waiting [OF 1(1) this 1(8)] 1 assms show ?case
    by (intro CashIn_finish_waits) (auto simp: started_sel simp del: filter_filter)
next
  case (2 d1 t opn s1 d now res w es)
  then have "CashIn_asked request (key es) d1 res" by (auto simp: CashIn_asked_def)
  from CashIn_done_taken [OF 2(1) this 2(8)] 2 assms show ?case
    by (intro CashIn_finish_confirms) (auto simp: started_sel simp del: filter_filter)
qed

lemma CashIn_wp:
  assumes "fresh_execution S s"
    and "\<And>s'. started (Some OrderEntity_zero) s s' \<Longrightarrow> fresh_execution S s' \<Longrightarrow>
      wp (orchestrate S ''CashInRequest'' (CashIn_steps S request)) Q E s'"
  shows "wp (CashIn S request) Q E s"
  unfolding CashIn_def wp_bindc wp_modify by (rule assms(2) [OF started_refl]) (simp add: assms(1))

lemma respond_order_atmost [atmost_rules]: "atmost A n m \<Longrightarrow> atmost A n (respond_order m)"
  unfolding respond_order_def by (rule atmost_bindc_left) (auto intro!: atmost_rules)

lemma if_bypass_atmost [atmost_rules]: "atmost A n m \<Longrightarrow> atmost A n (if_bypass m)"
  unfolding if_bypass_def by (intro atmost_bindc atmost_gets atmost_if atmost_ret)

lemma CashIn_atmost_steps [atmost_rules]:
  "atmost A n (CashIn_check S request)"
  "(\<And>d x. A (EvInsertOrder d x) \<Longrightarrow> 0 < n) \<Longrightarrow> atmost A n (CashIn_init_order S request)"
  "(\<And>q x. A (EvInit q x) \<Longrightarrow> 0 < n) \<Longrightarrow> atmost A n (CashIn_init_payment S)"
  "(\<And>t x. A (EvConfirm t x) \<Longrightarrow> 0 < n) \<Longrightarrow> atmost A n (CashIn_confirm S)"
  "foreign A \<Longrightarrow> atmost A 0 (CashIn_processing S)"
  "foreign A \<Longrightarrow> atmost A 0 (comp_cancel_order S)" "foreign A \<Longrightarrow> atmost A 0 (comp_CashIn_bank S)"
  unfolding CashIn_check_def CashIn_init_order_def CashIn_init_payment_def CashIn_confirm_def CashIn_processing_def
    comp_cancel_order_def comp_CashIn_bank_def
  by (intro atmost_rules atmost_quiet [OF LinkInfo_quiet]; simp)+

lemma CashIn_atmost_bank [atmost_rules]:
  assumes "\<And>q x e. A (EvBank q x e) \<Longrightarrow> 0 < n"
  shows "atmost A n (CashIn_bank S request)"
proof -
  have call: "atmost A n (bank_CashIn S b l am i u)" for b l am i u
    by (rule atmost_does [OF bank_CashIn_does]) (use assms in \<open>auto simp: bank_call_def Suc_le_eq\<close>)
  show ?thesis
    unfolding CashIn_bank_def Let_def
    by (rule atmost_bindc, rule atmost_gets, rule atmost_bindc, rule atmost_statements, rule atmost_bindc_left [OF call])
      (auto intro!: atmost_rules split: option.split)
qed

lemma CashIn_run_once:
  "atmost is_insert 1 (run_steps (CashIn_steps S request) [])"
  "atmost is_bank 1 (run_steps (CashIn_steps S request) [])"
  "atmost is_init 1 (run_steps (CashIn_steps S request) [])"
  "atmost is_confirm 1 (run_steps (CashIn_steps S request) [])"
  unfolding CashIn_steps_def
     apply (rule atmost_run_named [where k = "\<lambda>n. of_bool (n = ''INIT_ORDER'')"]; auto intro!: atmost_rules)
    apply (rule atmost_run_named [where k = "\<lambda>n. of_bool (n = ''CASH IN REQUEST'')"]; auto intro!: atmost_rules)
   apply (rule atmost_run_named [where k = "\<lambda>n. of_bool (n = ''INIT_PAYMENT'')"]; auto intro!: atmost_rules)
  apply (rule atmost_run_named [where k = "\<lambda>n. of_bool (n = ''CONFIRM TRANS IF BY PASS OTP'')"]; auto intro!: atmost_rules)
  done

lemma CashIn_once:
  assumes "fresh_execution S s" and "A \<in> {is_insert, is_bank, is_init, is_confirm}"
  shows "wp (CashIn S request) (\<lambda>_. adds A 1 s) (adds A 1 s) s"
  by (rule CashIn_wp [OF assms(1)], erule (1) orchestrate_started_atmost) (use assms(2) CashIn_run_once in auto)

subsection \<open>Progress\<close>

text \<open>The bank knows the user who receives the money as the owner of the link.\<close>

definition link_of_payee :: "'w services \<Rightarrow> OrderCashInRequest \<Rightarrow> bool" where
  "link_of_payee S request \<longleftrightarrow>
     (\<forall>q w. br_GpayUserID (fst (http_result S (fst (bk_Do S q w)))) = rq_ToUserID (cir_OrderRequest request))"

lemma CashIn_check_goes:
  assumes "obliging S" "link_of_payee S request" and "\<And>b c w es. R ((appended s w es)\<lparr>bankCode := b, bankCodeGpay := c\<rparr>)"
  shows "goes (CashIn_check S request) R s"
proof -
  have "fine (LinkInfo S i) (\<lambda>(r, err). err = None \<and> br_GpayUserID r = rq_ToUserID (cir_OrderRequest request))" for i
    unfolding LinkInfo_def httpQuery_def
    by (rule fine_ask_any, rule fine_bindc [OF fine_ask [of "\<lambda>p. \<exists>r. p = (r, None) \<and> \<not> BankGwStatus_IsFail (br_ErrorCode r) \<and>
          br_GpayUserID r = rq_ToUserID (cir_OrderRequest request)"]])
      (use obligingD(13) [OF assms(1)] assms(2) in \<open>auto simp: checked_def link_of_payee_def intro!: fine_rules\<close>, metis fst_conv)
  note link = this
  show ?thesis
    unfolding CashIn_check_def wp_bindc
    by (rule fine_wp [OF link]) (auto simp: wp_rules split: prod.split intro: assms(3))
qed

lemma respond_order_goes:
  assumes "goes m (\<lambda>t. order_dto t \<noteq> None \<and> (\<forall>p. R (t\<lparr>resp_OrderEntity := p\<rparr>))) s"
  shows "goes (respond_order m) R s"
  unfolding respond_order_def wp_bindc by (rule wp_mono [OF assms]) (auto simp: wp_rules)

lemma CashIn_bank_goes:
  assumes "cooperative S" "order_dto s \<noteq> None"
    and "\<And>d t w es x. R ((appended s w es)\<lparr>bankTraceId := x, resp_BankTraceId := x, resp_LinkId := cir_LinkId request,
      order_dto := Some d, resp_Status := ''Success'', isByPassOtp := True\<rparr>)"
  shows "goes (CashIn_bank S request) R s"
proof -
  have call: "fine (bank_CashIn S b l am i u) (\<lambda>(r, err). err = None \<and> BankGwStatus_IsSuccess (br_ErrorCode r))" for b l am i u
    unfolding bank_CashIn_def by (rule fine_ask_any, rule checked_fine [OF assms(1)], simp)
  show ?thesis
    using assms(2,3) unfolding CashIn_bank_def Let_def wp_bindc wp_gets wp_the_order
    by (auto split: option.split prod.split intro!: fine_wp [OF call] simp: wp_rules dest: BankGwStatus_success_exclusive)
qed

lemma CashIn_steps_go:
  assumes "cooperative S" "link_of_payee S request"
  shows "goes (run_steps (CashIn_steps S request) []) (\<lambda>t. order_dto t \<noteq> None) s"
proof -
  note S = cooperativeD(1) [OF assms(1)]
  have init: "goes (CashIn_init_payment S) R s" if "order_dto s \<noteq> None"
    "\<And>d t w es. R ((appended s w es)\<lparr>trans := Some t, order_dto := Some d\<rparr>)" for R s
    using that S unfolding CashIn_init_payment_def
    by (intro link_order_goes) (auto simp: wp_bindc wp_the_order split: option.split intro!: init_trans_goes)
  have bypass: "goes (if_bypass m) R s" if "isByPassOtp s" "goes m R s" for m R s
    using that by (simp add: if_bypass_def wp_rules)
  have conf: "goes (CashIn_confirm S) R s" if "isByPassOtp s" "order_dto s \<noteq> None" "trans s \<noteq> None"
    "\<And>t w es. R ((appended s w es)\<lparr>trans := Some t\<rparr>)" for R s
    unfolding CashIn_confirm_def using that
    by (intro bypass) (auto simp: wp_bindc wp_the_order split: option.split intro!: confirm_trans_goes S)
  show ?thesis
    unfolding CashIn_steps_def CashIn_init_order_def CashIn_processing_def
    by (intro goes_Cons goes_Nil goes_gets CashIn_check_goes respond_order_goes init_order_goes assign_order_goes [OF order_ops_fine(1)]
        init CashIn_bank_goes conf bypass success_order_goes S assms conjI allI)
      (simp_all add: CashIn_order_def OrderEntity_zero_def Let_def)
qed

lemma CashIn_progress:
  assumes "cooperative S" "fresh_execution S s" "link_of_payee S request"
  shows "\<exists>d t. CashIn S request s = (Ret (Some d, None), t)"
proof -
  have "\<exists>d t. orchestrate S ''CashInRequest'' (CashIn_steps S request) (fresh_vars (Some OrderEntity_zero) s) = (Ret (Some d, None), t)"
    by (rule orchestrate_goes) (use assms(2) in \<open>simp add: fresh_execution_def\<close>, rule CashIn_steps_go [OF assms(1,3)])
  then show ?thesis by (simp add: CashIn_def bindc_def)
qed

subsection \<open>Properties\<close>

definition example_cashin :: OrderCashInRequest where
  "example_cashin = \<lparr>cir_LinkId = 5, cir_Description = ''deposit'', cir_OrderRequest = example_request\<lparr>rq_ToUserID := ''U1''\<rparr>\<rparr>"

lemma example_link_of_payee: "link_of_payee example_services example_cashin"
  by (simp add: link_of_payee_def example_services_def http_result_def example_cashin_def)

text \<open>
  A deposit without an error: the order and the payment are opened, the order is marked as processing and
  the bank is asked to take the amount of the request from the link of the request.  Either the bank asks for a
  one-time password, and then nothing is confirmed and the order stays in processing; or it took the money, and
  the transaction is confirmed under the trace id of the bank and the order is marked as successful.
\<close>

theorem CashIn_completes:
  assumes "fresh_execution S s" and "CashIn S request s = (Ret (p, None), t)"
  shows "\<exists>d evs. p = Some d \<and> key (trace t) = key (trace s) @ evs \<and> CashIn_done request evs d (resp_Status t)"
proof -
  have "wp (CashIn S request) (\<lambda>(p, err) t. err = None \<longrightarrow> (\<exists>d evs. p = Some d \<and> key (trace t) = key (trace s) @ evs \<and>
     CashIn_done request evs d (resp_Status t))) (\<lambda>_. True) s"
    by (rule CashIn_wp [OF assms(1)], erule (1) orchestrate_started_succeeds, rule wp_mono, erule CashIn_steps_succeed) auto
  from wp_Ret [OF this assms(2)] show ?thesis by simp
qed

theorem CashIn_completes_witness:
  "\<exists>d t evs. CashIn example_services example_cashin example_state = (Ret (Some d, None), t) \<and>
     key (trace t) = key (trace example_state) @ evs \<and> CashIn_done example_cashin evs d (resp_Status t)"
proof -
  obtain d t where run: "CashIn example_services example_cashin example_state = (Ret (Some d, None), t)"
    using CashIn_progress [OF example_cooperative example_fresh example_link_of_payee] by blast
  from CashIn_completes [OF example_fresh run] run show ?thesis by blast
qed

text \<open>
  Whatever the bank and the other services answer, a deposit stores at most one order, asks the bank to take
  money at most once, and opens and confirms at most one payment.
\<close>

theorem CashIn_at_most_once:
  assumes "fresh_execution S s" and "CashIn S request s = (r, t)"
  shows "\<exists>es. trace t = trace s @ es \<and>
     (\<forall>A \<in> {is_insert, is_bank, is_init, is_confirm}. length (filter A (key es)) \<le> 1)"
  by (rule run_once [OF assms(2) CashIn_once [OF assms(1)]]) auto

theorem CashIn_at_most_once_witness:
  "\<exists>d t es. CashIn example_services example_cashin example_state = (Ret (Some d, None), t) \<and>
     trace t = trace example_state @ es \<and> length (filter is_bank (key es)) \<le> 1"
proof -
  obtain d t where run: "CashIn example_services example_cashin example_state = (Ret (Some d, None), t)"
    using CashIn_progress [OF example_cooperative example_fresh example_link_of_payee] by blast
  from CashIn_at_most_once [OF example_fresh run] run show ?thesis by blast
qed

end
