(* ===== verification/VerifyOTP.thy ===== *)
theory VerifyOTP
  imports CashIn
begin

text \<open>
  The second half of a deposit, \<open>application/verify_otp_orchestrator.go\<close>: the user has entered the
  one-time password, and the bank is asked to accept it.  A wrong password changes nothing, so
  that the user can try again.
\<close>

record OrderCashOTPRequest =
  otp_OrderId :: string
  otp_RefBankTraceID :: string
  otp_LinkId :: int64
  otp_Otp :: string

definition VerifyOTP_find :: "'w services \<Rightarrow> OrderCashOTPRequest \<Rightarrow> ('w st, goerror option) comp" where
  "VerifyOTP_find S request =
     bindc (GetValidOrder S (otp_OrderId request)) (\<lambda>r. case r of
       Inl e \<Rightarrow> ret (Some e)
     | Inr findOrder \<Rightarrow> thenc (set_order (Some findOrder)) (ret None))"

definition VerifyOTP_trans :: "'w services \<Rightarrow> ('w st, goerror option) comp" where
  "VerifyOTP_trans S =
     bindc the_order (\<lambda>d.
     bindc (ask (ts_FindByID S (oe_TransactionID d))) (\<lambda>r. case r of
       Inl e \<Rightarrow> ret (Some e)
     | Inr findTranById \<Rightarrow> thenc (set_trans (Some findTranById)) (ret None)))"

definition VerifyOTP_bank :: "'w services \<Rightarrow> OrderCashOTPRequest \<Rightarrow> ('w st, goerror option) comp" where
  "VerifyOTP_bank S request =
     bindc the_order (\<lambda>d.
     bindc (bank_VerifyOTP S (oe_GPayBankCode d) (otp_RefBankTraceID request) (otp_OrderId request)
              (otp_LinkId request) (otp_Otp request)) (\<lambda>(cashInVerifyOTP, err).
     case err of
       Some e \<Rightarrow>
         thenc (modify (\<lambda>s. s\<lparr>isFailedOrder := True, bankTraceId := br_BankTraceId cashInVerifyOTP, failReason := Error e\<rparr>))
           (ret (Some e))
     | None \<Rightarrow>
         thenc (modify (\<lambda>s. s\<lparr>bankTraceId := br_BankTraceId cashInVerifyOTP\<rparr>))
        (if BankGwStatus_IsVerifying (br_ErrorCode cashInVerifyOTP)
         then thenc (modify (\<lambda>s. s\<lparr>isTimeOutBank := True\<rparr>)) (ret (Some (ErrorString (br_Message cashInVerifyOTP))))
         else if BankGwStatus_IsWrongOTP (br_ErrorCode cashInVerifyOTP)
         then thenc (modify (\<lambda>s. s\<lparr>isFailedOrder := False\<rparr>)) (ret (Some (ErrorString (br_Message cashInVerifyOTP))))
         else ret None)))"

definition comp_VerifyOTP_bank :: "'w services \<Rightarrow> ('w st, goerror option) comp" where
  "comp_VerifyOTP_bank S =
     bindc (gets isTimeOutBank) (\<lambda>timedOut.
     if timedOut then thenc (verify_order_unless S) (pending_trans S False with_bank_id)
     else bindc (gets isFailedOrder) (\<lambda>failed.
       if failed then
         bindc (gets with_bank_reason) (\<lambda>f.
         thenc (update_trans f)
        (bindc the_trans (\<lambda>t.
         if tx_Status t \<noteq> TRANSACTION_STATUS_PENDING \<and> tx_Status t \<noteq> TRANSACTION_STATUS_FINISH \<and>
            tx_Status t \<noteq> TRANSACTION_STATUS_FAILED
         then bindc (assign_trans (serviceTransactionCancel S)) (\<lambda>err.
           bindc (gets failReason) (\<lambda>r.
           thenc (update_order (\<lambda>d. d\<lparr>oe_InternalErr := r\<rparr>))
          (thenc (through_order (FailedOrder S)) (ret err))))
         else ret None)))
       else ret None))"

definition VerifyOTP_steps :: "'w services \<Rightarrow> OrderCashOTPRequest \<Rightarrow> 'w st step_def list" where
  "VerifyOTP_steps S request =
     [(''FIND_ORDER_BY_ID'', VerifyOTP_find S request, ret None),
      (''GET INIT TRANSACTION'', VerifyOTP_trans S, ret None)] @
     (''VERIFY OTP'', VerifyOTP_bank S request, comp_VerifyOTP_bank S) #
     [(''FINALIZATION_PAYMENT'', confirm_trans S with_bank_id, comp_pending S False as_is),
      (''SUCCESS_ORDER'', success_linked_order S, comp_pending S False as_is)]"

definition VerifyOTP :: "'w services \<Rightarrow> OrderCashOTPRequest \<Rightarrow> ('w st, OrderEntity option \<times> goerror option) comp" where
  "VerifyOTP S request =
     thenc (modify (fresh_vars (Some OrderEntity_zero))) (orchestrate S ''VERIFY OTP ACTION'' (VerifyOTP_steps S request))"

subsection \<open>The steps\<close>

lemma VerifyOTP_find_wp:
  assumes "\<And>d w es. key es = [] \<Longrightarrow> payable_order S (otp_OrderId request) d \<Longrightarrow> Q None ((appended s w es)\<lparr>order_dto := Some d\<rparr>)"
    and "\<And>e w es. key es = [] \<Longrightarrow> Q (Some e) (appended s w es)"
    and "\<And>w es. key es = [] \<Longrightarrow> E (appended s w es)"
  shows "wp (VerifyOTP_find S request) Q E s"
  unfolding VerifyOTP_find_def wp_bindc
  by (rule does_wp [OF valid_order_does]) (auto simp: wp_rules split: sum.split intro: assms)

lemma VerifyOTP_trans_wp:
  assumes "order_dto s = Some d"
    and "\<And>t w. fst (ts_FindByID S (oe_TransactionID d) (world s)) = Inr t \<Longrightarrow> Q None (s\<lparr>world := w, trans := Some t\<rparr>)" and "\<And>e w. Q (Some e) (s\<lparr>world := w\<rparr>)"
  shows "wp (VerifyOTP_trans S) Q E s"
  using assms by (auto simp: VerifyOTP_trans_def wp_rules split: sum.split)

abbreviation (input) otp_call :: "OrderCashOTPRequest \<Rightarrow> OrderEntity \<Rightarrow> gotime \<Rightarrow> BankReq" where
  "otp_call request d now \<equiv> envelope ''verifyotp'' ClientCode (oe_GPayBankCode d) now
     (VerifyOTPRequestData (otp_RefBankTraceID request) (otp_LinkId request) (otp_Otp request) ''MOBILE'' ''verify OTP''
       (otp_OrderId request)) ''ip''"

lemma bank_VerifyOTP_does:
  "does (bank_VerifyOTP S b r i l otp) (bank_call (\<lambda>now. envelope ''verifyotp'' ClientCode b now
     (VerifyOTPRequestData r l otp ''MOBILE'' ''verify OTP'' i) ''ip'') True True
     (\<lambda>st. BankGwStatus_IsVerifying st \<or> BankGwStatus_IsSuccess st \<or> BankGwStatus_IsWrongOTP st))"
  unfolding bank_VerifyOTP_def by (rule bank_request_does)

text \<open>The four ways a check of the password can go, and the refusal.\<close>

fun wrong_otp :: "event \<Rightarrow> bool" where
  "wrong_otp (EvBank _ res None) = BankGwStatus_IsWrongOTP (br_ErrorCode res)"
| "wrong_otp _ = False"

lemma otp_exclusive:
  "BankGwStatus_IsWrongOTP st \<Longrightarrow> \<not> BankGwStatus_IsVerifying st \<and> \<not> BankGwStatus_IsSuccess st"
  "BankGwStatus_IsVerifying st \<Longrightarrow> \<not> BankGwStatus_IsSuccess st"
  by (auto simp: BankGwStatus_defs)

lemma VerifyOTP_bank_wp:
  assumes d: "order_dto s = Some d"
    and refused: "\<And>now res err e x w es. key es = [EvBank (otp_call request d now) res err] \<Longrightarrow>
      \<not> wrong_otp (EvBank (otp_call request d now) res err) \<Longrightarrow> \<not> bank_open (EvBank (otp_call request d now) res err) \<Longrightarrow>
      Q (Some e) ((appended s w es)\<lparr>isFailedOrder := True, bankTraceId := x, failReason := Error e\<rparr>)"
    and open_call: "\<And>now res e w es. key es = [EvBank (otp_call request d now) res None] \<Longrightarrow>
      bank_open (EvBank (otp_call request d now) res None) \<Longrightarrow>
      Q (Some e) ((appended s w es)\<lparr>bankTraceId := br_BankTraceId res, isTimeOutBank := True\<rparr>)"
    and wrong: "\<And>now res w es. key es = [EvBank (otp_call request d now) res None] \<Longrightarrow>
      wrong_otp (EvBank (otp_call request d now) res None) \<Longrightarrow>
      Q (Some (ErrorString (br_Message res))) ((appended s w es)\<lparr>bankTraceId := br_BankTraceId res, isFailedOrder := False\<rparr>)"
    and good: "\<And>now res w es. key es = [EvBank (otp_call request d now) res None] \<Longrightarrow>
      bank_accepted (EvBank (otp_call request d now) res None) \<Longrightarrow>
      Q None ((appended s w es)\<lparr>bankTraceId := br_BankTraceId res\<rparr>)"
  shows "wp (VerifyOTP_bank S request) Q E s"
  unfolding VerifyOTP_bank_def wp_bindc wp_the_order d option.case
proof (rule does_wp [OF bank_VerifyOTP_does], goal_cases)
  case (1 r w es)
  let ?ok = "\<lambda>st. BankGwStatus_IsVerifying st \<or> BankGwStatus_IsSuccess st \<or> BankGwStatus_IsWrongOTP st"
  from 1 obtain now res err where es: "key es = [EvBank (otp_call request d now) res err]" "r = checked True True ?ok (res, err)"
    by (rule bank_call_cases)
  obtain r1 r2 where r: "r = (r1, r2)" by force
  show ?case
  proof (cases r2)
    case (Some e)
    then have "err = None \<Longrightarrow> \<not> ?ok (br_ErrorCode res)" using es(2) r by (auto simp: checked_def split: if_splits)
    then have "\<not> wrong_otp (EvBank (otp_call request d now) res err)" "\<not> bank_open (EvBank (otp_call request d now) res err)"
      by (cases err; simp)+
    from refused [OF es(1) this] show ?thesis by (simp add: r Some wp_rules)
  next
    case None
    then have ok: "err = None" "r1 = res" "?ok (br_ErrorCode res)" using es(2) r checked_ok [of True True ?ok res err r1] by simp_all
    note es = es(1) [unfolded ok(1)]
    from ok(3) consider "BankGwStatus_IsVerifying (br_ErrorCode res)" | "BankGwStatus_IsWrongOTP (br_ErrorCode res)"
      | "BankGwStatus_IsSuccess (br_ErrorCode res)" by blast
    then show ?thesis
    proof cases
      case 1
      then show ?thesis using open_call [OF es] by (simp add: r None ok(2) wp_rules)
    next
      case 2
      then show ?thesis using wrong [OF es] otp_exclusive [of "br_ErrorCode res"] by (simp add: r None ok(2) wp_rules)
    next
      case 3
      then have "\<not> BankGwStatus_IsVerifying (br_ErrorCode res)" "\<not> BankGwStatus_IsWrongOTP (br_ErrorCode res)"
        using otp_exclusive [of "br_ErrorCode res"] by blast+
      with 3 show ?thesis using good [OF es] by (simp add: r None ok(2) wp_rules)
    qed
  qed
qed (simp add: bank_call_def)

subsection \<open>Runs\<close>

lemma run_step_wp:
  assumes "wp f (\<lambda>err t. (err = None \<longrightarrow> wp (run_steps sts (g # gs)) Q E t) \<and>
     (\<forall>e. err = Some e \<longrightarrow> wp (unwind (g # gs)) (\<lambda>_. Q (Some e)) E t)) E s"
  shows "wp (run_steps ((n, f, g) # sts) gs) Q E s"
  unfolding wp_run_steps_Cons by (rule wp_mono [OF assms]) (auto split: option.split)

definition VerifyOTP_done :: "'w services \<Rightarrow> OrderCashOTPRequest \<Rightarrow> OrderEntity \<Rightarrow> event list \<Rightarrow> OrderEntity \<Rightarrow> bool" where
  "VerifyOTP_done S request stored evs d \<longleftrightarrow> (\<exists>now res w t c f n.
     evs = [EvBank (otp_call request stored now) res None, EvConfirm (t\<lparr>tx_BankTransactionId := br_BankTraceId res\<rparr>) (Inr c),
       EvReplaceOrder f d (Inr (Suc n))] \<and>
     BankGwStatus_IsSuccess (br_ErrorCode res) \<and> fst (ts_FindByID S (oe_TransactionID stored) w) = Inr t \<and>
     restamped ORDER_SUCCESS (stored\<lparr>oe_TransactionID := tx_TransactionId c\<rparr>) d)"

lemma VerifyOTP_steps_succeed:
  assumes "started (Some OrderEntity_zero) s s'"
  shows "succeeds (run_steps (VerifyOTP_steps S request) [])
     (\<lambda>t. \<exists>stored d evs. payable_order S (otp_OrderId request) stored \<and> order_dto t = Some d \<and> key (trace t) = key (trace s) @ evs \<and>
        VerifyOTP_done S request stored evs d \<and> resp_OrderEntity t = Some (ConvertToProto d)) s'"
  unfolding VerifyOTP_steps_def append.simps
  by (intro succeeds_Cons VerifyOTP_find_wp impI VerifyOTP_trans_wp VerifyOTP_bank_wp confirm_trans_succeeds
      success_linked_order_succeeds succeeds_Nil)
    (use assms in \<open>auto simp: started_sel VerifyOTP_done_def\<close>, blast)

lemma VerifyOTP_wp:
  assumes "fresh_execution S s"
    and "\<And>s'. started (Some OrderEntity_zero) s s' \<Longrightarrow> fresh_execution S s' \<Longrightarrow>
      wp (orchestrate S ''VERIFY OTP ACTION'' (VerifyOTP_steps S request)) Q E s'"
  shows "wp (VerifyOTP S request) Q E s"
  unfolding VerifyOTP_def wp_bindc wp_modify by (rule assms(2) [OF started_refl]) (simp add: assms(1))

text \<open>A wrong password: nothing but the question to the bank, and the order is the stored one.\<close>

definition otp_retry :: "'w services \<Rightarrow> OrderCashOTPRequest \<Rightarrow> 'w st \<Rightarrow> OrderEntity option \<Rightarrow> goerror option \<Rightarrow> 'w st \<Rightarrow> bool" where
  "otp_retry S request s p err t \<longleftrightarrow> (\<exists>d now res es. p = Some d \<and> payable_order S (otp_OrderId request) d \<and> err = Some (ErrorString (br_Message res)) \<and>
     trace t = trace s @ es \<and> key es = [EvBank (otp_call request d now) res None])"

lemma otp_retry_upd [simp]:
  "otp_retry S request s p err (t\<lparr>LogSaga := m\<rparr>) = otp_retry S request s p err t"
  by (simp add: otp_retry_def)

lemma VerifyOTP_atmost [atmost_rules]:
  "atmost A n (VerifyOTP_find S request)" "atmost A n (VerifyOTP_trans S)"
  "(\<And>q x e. A (EvBank q x e) \<Longrightarrow> 0 < n) \<Longrightarrow> atmost A n (VerifyOTP_bank S request)"
  "foreign A \<Longrightarrow> atmost A 0 (comp_VerifyOTP_bank S)"
proof -
  have "atmost A n (GetValidOrder S i)" for i
    by (rule atmost_does [OF valid_order_does]) simp
  then show "atmost A n (VerifyOTP_find S request)"
    unfolding VerifyOTP_find_def by (rule atmost_bindc_left) (auto intro!: atmost_rules split: sum.split)
  show "atmost A n (VerifyOTP_trans S)"
    unfolding VerifyOTP_trans_def by (intro atmost_rules)
  show "atmost A n (VerifyOTP_bank S request)" if "\<And>q x e. A (EvBank q x e) \<Longrightarrow> 0 < n"
  proof -
    have call: "atmost A n (bank_VerifyOTP S b r i l otp)" for b r i l otp
      by (rule atmost_does [OF bank_VerifyOTP_does]) (use that in \<open>auto simp: bank_call_def Suc_le_eq\<close>)
    show ?thesis
      unfolding VerifyOTP_bank_def
      by (rule atmost_bindc, rule atmost_statements, rule atmost_bindc_left [OF call]) (auto intro!: atmost_rules split: option.split)
  qed
  show "atmost A 0 (comp_VerifyOTP_bank S)" if "foreign A"
    unfolding comp_VerifyOTP_bank_def by (intro atmost_rules that)
qed

lemma adds_world [simp]: "adds A n s (t\<lparr>world := w\<rparr>) = adds A n s t"
  by (simp add: adds_def)

lemma foreign_wrong_otp [simp]: "foreign wrong_otp"
  by (auto simp: foreign_def elim: compensating.elims)

lemma VerifyOTP_unwound:
  "\<not> isTimeOutBank t \<Longrightarrow> \<not> isFailedOrder t \<Longrightarrow> wp (unwind [comp_VerifyOTP_bank S, ret None, ret None]) (\<lambda>_. Q) E t = Q t"
  by (simp add: comp_VerifyOTP_bank_def wp_rules)

lemma VerifyOTP_check_retry:
  assumes s1: "order_dto s1 = Some d" "payable_order S (otp_OrderId request) d" "\<not> isTimeOutBank s1" "trace s1 = trace s @ es0" "key es0 = []"
    and post: "atmost wrong_otp 0 (run_steps post [comp_VerifyOTP_bank S, ret None, ret None])"
  shows "wp (run_steps ((n, VerifyOTP_bank S request, comp_VerifyOTP_bank S) # post) [ret None, ret None])
     (\<lambda>err t. adds wrong_otp 0 s t \<or> otp_retry S request s (order_dto t) err t) (adds wrong_otp 0 s) s1"
proof -
  have un: "atmost wrong_otp 0 (unwind [comp_VerifyOTP_bank S, ret None, ret None])"
    by (rule atmost_unwind) (auto intro!: atmost_rules)
  have after: "wp m (\<lambda>a t. adds wrong_otp 0 s t \<or> Z a t) (adds wrong_otp 0 s) t"
    if "atmost wrong_otp 0 m" "trace t = trace s1 @ es" "key es = [e]" "\<not> wrong_otp e"
    for m :: "('a st, 'b) comp" and t es e Z
  proof -
    have "adds wrong_otp 0 s t"
      unfolding adds_def using that(2-) s1(4,5) by (intro exI [of _ "es0 @ es"]) (simp del: filter_filter)
    from adds_trans [where i = 0 and j = 0, simplified, OF this] show ?thesis
      by (intro wp_mono [OF atmost_wp [OF that(1), where Q = "adds wrong_otp 0 s"]]) simp_all
  qed
  show ?thesis
  proof (rule run_step_wp, rule VerifyOTP_bank_wp [OF s1(1)], goal_cases)
    case (1 now res err e x w es)
    then show ?case by (auto intro!: after [OF un _ 1(1)])
  next
    case (2 now res e w es)
    then have "\<not> wrong_otp (EvBank (otp_call request d now) res None)" using otp_exclusive(1) by auto
    then show ?case by (auto intro!: after [OF un _ 2(1)])
  next
    case (3 now res w es)
    have "otp_retry S request s (Some d) (Some (ErrorString (br_Message res)))
        ((appended s1 w es)\<lparr>bankTraceId := br_BankTraceId res, isFailedOrder := False\<rparr>)"
      unfolding otp_retry_def using s1 3
      by (intro exI [of _ d] exI [of _ now] exI [of _ res] exI [of _ "es0 @ es"]) (simp del: filter_filter)
    then show ?case using s1 by (simp add: VerifyOTP_unwound)
  next
    case (4 now res w es)
    then have "\<not> wrong_otp (EvBank (otp_call request d now) res None)" using otp_exclusive(1) by auto
    then show ?case by (auto intro!: after [OF post _ 4(1)])
  qed
qed

lemma VerifyOTP_steps_retry:
  assumes "started p s s'"
  shows "wp (run_steps (VerifyOTP_steps S request) []) (\<lambda>err t. adds wrong_otp 0 s t \<or> otp_retry S request s (order_dto t) err t)
     (adds wrong_otp 0 s) s'"
proof -
  have quiet: "adds wrong_otp 0 s (appended s' w es)" if "key es = []" for w es
    using started_adds [OF started_appended [OF assms that]] .
  have fin: "atmost wrong_otp 0 (run_steps [(''FINALIZATION_PAYMENT'', confirm_trans S with_bank_id, comp_pending S False as_is),
      (''SUCCESS_ORDER'', success_linked_order S, comp_pending S False as_is)] [comp_VerifyOTP_bank S, ret None, ret None])"
    by (rule atmost_run_none) (auto intro!: atmost_rules)
  show ?thesis
    unfolding VerifyOTP_steps_def append.simps
  proof (rule run_step_wp, rule VerifyOTP_find_wp, goal_cases)
    case (1 d w es)
    obtain es0 where s': "trace s' = trace s @ es0" "key es0 = []" using assms by (auto simp: started_def)
    have "wp (run_steps ((''GET INIT TRANSACTION'', VerifyOTP_trans S, ret None) #
        (''VERIFY OTP'', VerifyOTP_bank S request, comp_VerifyOTP_bank S) # post) [ret None])
       (\<lambda>err t. adds wrong_otp 0 s t \<or> otp_retry S request s (order_dto t) err t) (adds wrong_otp 0 s) ((appended s' w es)\<lparr>order_dto := Some d\<rparr>)"
      if "atmost wrong_otp 0 (run_steps post [comp_VerifyOTP_bank S, ret None, ret None])" for post
      by (rule run_step_wp, rule VerifyOTP_trans_wp [where d = d], simp, intro conjI impI allI VerifyOTP_check_retry [where d = d and ?es0.0 = "es0 @ es", OF _ _ _ _ _ that])
        (use 1 s' quiet [OF 1(1)] started_sel [OF assms] in \<open>simp_all add: wp_rules del: filter_filter\<close>)
    with fin show ?case by simp
  qed (use quiet in \<open>simp_all add: wp_rules\<close>)
qed

lemma VerifyOTP_retries:
  assumes "fresh_execution S s"
  shows "wp (VerifyOTP S request) (\<lambda>(p, err) t. adds wrong_otp 0 s t \<or> otp_retry S request s p err t) (adds wrong_otp 0 s) s"
proof (rule VerifyOTP_wp [OF assms], rule orchestrate_wp, assumption, goal_cases)
  case (1 s' w)
  show ?case by (rule wp_mono [OF VerifyOTP_steps_retry [OF started_world [OF 1(1)]]]) auto
qed

lemma VerifyOTP_run_once:
  "atmost is_bank 1 (run_steps (VerifyOTP_steps S request) [])"
  "atmost is_confirm 1 (run_steps (VerifyOTP_steps S request) [])"
  "atmost is_init 0 (run_steps (VerifyOTP_steps S request) [])"
  "atmost is_insert 0 (run_steps (VerifyOTP_steps S request) [])"
  unfolding VerifyOTP_steps_def
     apply (rule atmost_run_named [where k = "\<lambda>n. of_bool (n = ''VERIFY OTP'')"]; auto intro!: atmost_rules)
    apply (rule atmost_run_named [where k = "\<lambda>n. of_bool (n = ''FINALIZATION_PAYMENT'')"]; auto intro!: atmost_rules)
   apply (rule atmost_run_named [where k = "\<lambda>_. 0"]; auto intro!: atmost_rules)
  apply (rule atmost_run_named [where k = "\<lambda>_. 0"]; auto intro!: atmost_rules)
  done

lemma VerifyOTP_once:
  assumes "fresh_execution S s"
  shows "A \<in> {is_bank, is_confirm} \<Longrightarrow> wp (VerifyOTP S request) (\<lambda>_. adds A 1 s) (adds A 1 s) s"
    and "A \<in> {is_insert, is_init} \<Longrightarrow> wp (VerifyOTP S request) (\<lambda>_. adds A 0 s) (adds A 0 s) s"
proof -
  have all: "wp (VerifyOTP S request) (\<lambda>_. adds A n s) (adds A n s) s"
    if "atmost A n (run_steps (VerifyOTP_steps S request) [])" for n
    by (rule VerifyOTP_wp [OF assms], erule (1) orchestrate_started_atmost) (rule that)
  show "A \<in> {is_bank, is_confirm} \<Longrightarrow> wp (VerifyOTP S request) (\<lambda>_. adds A 1 s) (adds A 1 s) s"
    by (rule all) (use VerifyOTP_run_once in auto)
  show "A \<in> {is_insert, is_init} \<Longrightarrow> wp (VerifyOTP S request) (\<lambda>_. adds A 0 s) (adds A 0 s) s"
    by (rule all) (use VerifyOTP_run_once in auto)
qed

lemma VerifyOTP_bank_guards: "guards is_confirm bank_accepted (VerifyOTP_bank S request)"
  unfolding guards_def
proof (intro allI)
  fix s :: "'a st"
  let ?Q = "\<lambda>err t. \<exists>es. trace t = trace s @ es \<and> filter is_confirm (key es) = [] \<and> (err = None \<longrightarrow> (\<exists>e \<in> set (key es). bank_accepted e))"
  show "wp (VerifyOTP_bank S request) ?Q (adds is_confirm 0 s) s"
  proof (cases "order_dto s")
    case None
    then show ?thesis by (simp add: VerifyOTP_bank_def wp_rules adds_refl)
  next
    case (Some d)
    have seen: "?Q err t" if "trace t = trace s @ es" "key es = [EvBank q res e]" "err = None \<longrightarrow> bank_accepted (EvBank q res e)"
      for err t es q res e
      using that by (intro exI [of _ es]) (simp del: filter_filter bank_accepted.simps)
    show ?thesis
      by (rule VerifyOTP_bank_wp [OF Some]; rule seen, simp, assumption) (simp_all del: bank_accepted.simps)
  qed
qed

lemma VerifyOTP_confirm_ordered:
  assumes "fresh_execution S s"
  shows "wp (VerifyOTP S request) (\<lambda>_. ordered is_confirm bank_accepted s) (ordered is_confirm bank_accepted s) s"
  by (rule VerifyOTP_wp [OF assms], erule (1) orchestrate_started_ordered, rule VerifyOTP_steps_def)
    (auto simp: VerifyOTP_bank_guards intro!: atmost_rules)

lemma VerifyOTP_bank_opens: "opens bank_open isTimeOutBank (VerifyOTP_bank S request)"
  unfolding opens_def
proof (intro allI)
  fix s :: "'a st"
  show "wp (VerifyOTP_bank S request) (\<lambda>err u. adds bank_open 0 s u \<or> (err \<noteq> None \<and> isTimeOutBank u \<and> adds gives_up 0 s u)) (adds bank_open 0 s) s"
  proof (cases "order_dto s")
    case None
    then show ?thesis by (simp add: VerifyOTP_bank_def wp_rules adds_refl)
  next
    case (Some d)
    have closed: "adds bank_open 0 s (appended s w es)" if "key es = [e]" "\<not> bank_open e" for w es e
      by (rule adds_appended [OF that(1)]) (use that(2) in simp)
    have quiet: "adds gives_up 0 s (appended s w es)" if "key es = [EvBank q res err]" for w es q res err
      by (rule adds_appended [OF that]) simp
    show ?thesis
      by (rule VerifyOTP_bank_wp [OF Some])
        (use closed quiet otp_exclusive in \<open>fastforce simp del: filter_filter\<close>)+
  qed
qed

lemma comp_VerifyOTP_parks: "parks isTimeOutBank (comp_VerifyOTP_bank S)"
  unfolding parks_def comp_VerifyOTP_bank_def wp_bindc wp_gets
proof (intro allI impI, simp add: wp_bindc, rule wp_mono [OF verify_order_opens], goal_cases)
  case (1 s u t)
  show ?case
    by (rule wp_mono [OF pending_trans_opens])
      (use 1 in \<open>auto simp: kept_open_def intro: adds_trans [where i = 0 and j = 0, simplified] contradicted_left\<close>)
qed auto

lemma VerifyOTP_stays_open:
  assumes "fresh_execution S s"
  shows "wp (VerifyOTP S request) (\<lambda>(p, err) u. adds bank_open 0 s u \<or> (err \<noteq> None \<and> still s u))
     (\<lambda>u. adds bank_open 0 s u \<or> still s u) s"
  by (rule VerifyOTP_wp [OF assms], erule (1) orchestrate_opens, rule VerifyOTP_steps_def, rule comp_VerifyOTP_parks)
    (use VerifyOTP_bank_opens in \<open>auto intro!: atmost_rules patient_comps\<close>)

subsection \<open>Progress\<close>

definition order_on_file :: "'w services \<Rightarrow> string \<Rightarrow> bool" where
  "order_on_file S i \<longleftrightarrow> (\<forall>w. \<exists>d. fst (mg_FindOrder S (ByOrderID i) w) = Inr d \<and> payable d) \<and>
     (\<forall>j w. \<exists>t. fst (ts_FindByID S j w) = Inr t)"

lemma VerifyOTP_lookups_go:
  assumes "order_on_file S (otp_OrderId request)"
    and "\<And>d t w. wp (run_steps sts [g2, g1]) Q E (s\<lparr>order_dto := Some d, world := w, trans := Some t\<rparr>)"
  shows "wp (run_steps ((n1, VerifyOTP_find S request, g1) # (n2, VerifyOTP_trans S, g2) # sts) []) Q E s"
proof -
  obtain d w where d: "mg_FindOrder S (ByOrderID (otp_OrderId request)) (world s) = (Inr d, w)" "payable d"
    using assms(1) unfolding order_on_file_def by (metis prod.collapse)
  obtain t v where t: "ts_FindByID S (oe_TransactionID d) w = (Inr t, v)"
    using assms(1) unfolding order_on_file_def by (metis prod.collapse)
  show ?thesis
    by (rule goes_then, unfold VerifyOTP_find_def GetValidOrder_def FindByOrderID_def, simp add: d d(2) [unfolded payable_def] wp_bindc wp_ask wp_ret wp_sets,
        rule goes_then, simp add: VerifyOTP_trans_def t wp_rules assms(2))
qed

lemma VerifyOTP_bank_goes:
  assumes "cooperative S" "order_dto s = Some d" "\<And>w es x. R ((appended s w es)\<lparr>bankTraceId := x\<rparr>)"
  shows "goes (VerifyOTP_bank S request) R s"
proof -
  have call: "fine (bank_VerifyOTP S b r i l otp) (\<lambda>(r, err). err = None \<and> BankGwStatus_IsSuccess (br_ErrorCode r))" for b r i l otp
    unfolding bank_VerifyOTP_def by (rule fine_ask_any, rule checked_fine [OF assms(1)], simp)
  show ?thesis
    unfolding VerifyOTP_bank_def wp_bindc wp_the_order assms(2) option.case
    by (rule fine_wp [OF call]) (auto simp: wp_rules assms(3) dest: otp_exclusive)
qed

lemma VerifyOTP_progress:
  assumes "cooperative S" "fresh_execution S s" "order_on_file S (otp_OrderId request)"
  shows "\<exists>d t. VerifyOTP S request s = (Ret (Some d, None), t)"
proof -
  note S = cooperativeD(1) [OF assms(1)]
  have "goes (run_steps (VerifyOTP_steps S request) []) (\<lambda>t. order_dto t \<noteq> None) u" for u
    unfolding VerifyOTP_steps_def append.simps
    by (rule VerifyOTP_lookups_go [OF assms(3)], rule goes_Cons, rule VerifyOTP_bank_goes [OF assms(1)])
      (simp, intro goes_Cons confirm_trans_goes success_linked_order_goes goes_Nil S, simp_all)
  then have "\<exists>d t. orchestrate S ''VERIFY OTP ACTION'' (VerifyOTP_steps S request) (fresh_vars (Some OrderEntity_zero) s) = (Ret (Some d, None), t)"
    by (intro orchestrate_goes) (use assms(2) in \<open>simp add: fresh_execution_def\<close>)
  then show ?thesis by (simp add: VerifyOTP_def bindc_def)
qed

subsection \<open>Properties\<close>

definition example_otp :: OrderCashOTPRequest where
  "example_otp = \<lparr>otp_OrderId = ''O7'', otp_RefBankTraceID = ''B1'', otp_LinkId = 5, otp_Otp = ''123456''\<rparr>"

text \<open>The bank does not know this password.\<close>

definition wrong_otp_services :: "nat services" where
  "wrong_otp_services = example_services\<lparr>
     bk_Unmarshal := \<lambda>_. (BankRes_zero\<lparr>br_ErrorCode := ''449'', br_Message := ''wrong otp''\<rparr>, None)\<rparr>"

lemma example_on_file:
  "order_on_file example_services (otp_OrderId example_otp)" "order_on_file pending_services (otp_OrderId example_otp)"
  "order_on_file wrong_otp_services (otp_OrderId example_otp)"
  by (simp_all add: order_on_file_def example_services_def pending_services_def wrong_otp_services_def payable_def example_order_def
      OrderEntity_zero_def status_defs)

lemma VerifyOTP_meets:
  assumes "order_on_file S (otp_OrderId request)"
    and "\<And>s s0. order_dto s \<noteq> None \<Longrightarrow> \<exists>es. trace s = trace s0 @ es \<Longrightarrow>
      wp (VerifyOTP_bank S request) (\<lambda>err t. err \<noteq> None \<and> meets P s0 t) (meets P s0) s"
  shows "\<exists>r t es. VerifyOTP S request example_state = (r, t) \<and> trace t = trace example_state @ es \<and> (\<exists>e \<in> set (key es). P e)"
proof (rule run_meets, rule VerifyOTP_wp [OF example_fresh])
  fix s' assume s': "started (Some OrderEntity_zero) example_state s'" "fresh_execution S s'"
  have "wp (run_steps (VerifyOTP_steps S request) []) (\<lambda>_. meets P s') (meets P s') (s'\<lparr>world := w\<rparr>)" for w
    unfolding VerifyOTP_steps_def append.simps
    by (rule VerifyOTP_lookups_go [OF assms(1)], rule meets_step, rule assms(2)) (auto intro!: atmost_rules)
  from orchestrate_meets [OF s'(2) this]
  show "wp (orchestrate S ''VERIFY OTP ACTION'' (VerifyOTP_steps S request)) (\<lambda>_. meets P example_state) (meets P example_state) s'"
    by (rule wp_mono) (auto intro: meets_started [OF s'(1)])
qed

lemma VerifyOTP_bank_meets:
  assumes "order_dto s \<noteq> None" "\<exists>es. trace s = trace s0 @ es"
  shows "wp (VerifyOTP_bank wrong_otp_services request) (\<lambda>err t. err \<noteq> None \<and> meets wrong_otp s0 t) (meets wrong_otp s0) s"
    and "wp (VerifyOTP_bank pending_services request) (\<lambda>err t. err \<noteq> None \<and> meets bank_open s0 t) (meets bank_open s0) s"
  using assms by (auto simp: VerifyOTP_bank_def bank_VerifyOTP_def httpRequest_def http_result_def checked_def wp_rules meets_def
      wrong_otp_services_def pending_services_def example_services_def BankRes_zero_def BankGwStatus_defs
      conj_disj_distribR ex_disj_distrib split: option.split)

text \<open>
  C16: a password check without an error: the order is the one that the collection holds under the id of the request and could still be paid, the bank was asked about the password for
  the link and the trace id of the request and accepted it, the transaction that the order names was confirmed under the trace id of the
  bank, and the order, with the id of the transaction, was marked as successful: these money-relevant calls and no others.
\<close>

theorem VerifyOTP_completes:
  assumes "fresh_execution S s" and "VerifyOTP S request s = (Ret (p, None), t)"
  shows "\<exists>stored d evs. payable_order S (otp_OrderId request) stored \<and> p = Some d \<and> key (trace t) = key (trace s) @ evs \<and>
     VerifyOTP_done S request stored evs d \<and> resp_OrderEntity t = Some (ConvertToProto d)"
proof -
  let ?R = "\<lambda>p t. \<exists>stored d evs. payable_order S (otp_OrderId request) stored \<and> p = Some d \<and> key (trace t) = key (trace s) @ evs \<and>
     VerifyOTP_done S request stored evs d \<and> resp_OrderEntity t = Some (ConvertToProto d)"
  have "wp (VerifyOTP S request) (\<lambda>(p, err) t. err = None \<longrightarrow> ?R p t) (\<lambda>_. True) s"
    by (rule VerifyOTP_wp [OF assms(1)], erule (1) orchestrate_started_succeeds, rule wp_mono, erule VerifyOTP_steps_succeed) auto
  from wp_Ret [OF this assms(2)] show ?thesis by simp
qed

theorem VerifyOTP_completes_witness:
  "\<exists>d t stored evs. VerifyOTP example_services example_otp example_state = (Ret (Some d, None), t) \<and> payable_order example_services ''O7'' stored \<and>
     key (trace t) = key (trace example_state) @ evs \<and> VerifyOTP_done example_services example_otp stored evs d"
proof -
  obtain d t where run: "VerifyOTP example_services example_otp example_state = (Ret (Some d, None), t)"
    using VerifyOTP_progress [OF example_cooperative example_fresh example_on_file(1)] by blast
  from VerifyOTP_completes [OF example_fresh run] run show ?thesis by (auto simp: example_otp_def)
qed

text \<open>
  C17: when the bank says that the password is wrong, asking the bank is the only money-relevant call of the run: nothing is
  confirmed, cancelled or written, the run returns the message of the bank as its error and the order as it is stored under the id of the
  request, which can still be paid, so that the user can try again.
\<close>

theorem VerifyOTP_wrong_retry:
  assumes "fresh_execution S s" "VerifyOTP S request s = (r, t)"
    and "trace t = trace s @ es" "\<exists>e \<in> set (key es). wrong_otp e"
  shows "\<exists>d now res. r = Ret (Some d, Some (ErrorString (br_Message res))) \<and> payable_order S (otp_OrderId request) d \<and>
     key es = [EvBank (otp_call request d now) res None]"
proof -
  have not: "\<not> adds wrong_otp 0 s t" using assms(3,4) by (auto simp: adds_def filter_empty_conv)
  then obtain p err where r: "r = Ret (p, err)" "otp_retry S request s p err t"
    using VerifyOTP_retries [OF assms(1), of request] assms(2) by (auto simp: wp_def split: outcome.splits)
  then show ?thesis using assms(3) by (auto simp: otp_retry_def)
qed

theorem VerifyOTP_wrong_retry_witness:
  "\<exists>r t es d (res :: BankRes). VerifyOTP wrong_otp_services example_otp example_state = (r, t) \<and> trace t = trace example_state @ es \<and>
     (\<exists>e \<in> set (key es). wrong_otp e) \<and> r = Ret (Some d, Some (ErrorString (br_Message res))) \<and> length (key es) = 1"
proof -
  obtain r t es where run: "VerifyOTP wrong_otp_services example_otp example_state = (r, t)" "trace t = trace example_state @ es"
    "\<exists>e \<in> set (key es). wrong_otp e"
    using VerifyOTP_meets [OF example_on_file(3) VerifyOTP_bank_meets(1)] by blast
  from VerifyOTP_wrong_retry [OF example_fresh run] obtain d now res where
    "r = Ret (Some d, Some (ErrorString (br_Message res)))" "key es = [EvBank (otp_call example_otp d now) res None]" by blast
  then have "r = Ret (Some d, Some (ErrorString (br_Message res)))" "length (key es) = 1" by simp_all
  with run show ?thesis by (intro exI [of _ r] exI [of _ t] exI [of _ es] exI [of _ d] exI [of _ res]) (simp del: filter_filter)
qed

text \<open>
  Whatever the bank and the other services answer, a password check asks the bank at most once, confirms at most one payment, and
  confirms it only after the bank has accepted; it never opens a payment or stores a new order.
\<close>

theorem VerifyOTP_disciplined:
  assumes "fresh_execution S s" and "VerifyOTP S request s = (r, t)"
  shows "\<exists>es. trace t = trace s @ es \<and>
     (\<forall>A \<in> {is_bank, is_confirm}. length (filter A (key es)) \<le> 1) \<and>
     (\<forall>i < length (key es). is_confirm (key es ! i) \<longrightarrow> (\<exists>j < i. bank_accepted (key es ! j))) \<and>
     (\<forall>A \<in> {is_insert, is_init}. filter A (key es) = [])"
proof -
  obtain es where es: "trace t = trace s @ es" "\<forall>A \<in> {is_bank, is_confirm}. length (filter A (key es)) \<le> 1"
    "\<forall>i < length (key es). is_confirm (key es ! i) \<longrightarrow> (\<exists>j < i. bank_accepted (key es ! j))"
    using run_disciplined [OF assms(2) VerifyOTP_once(1) [OF assms(1)] VerifyOTP_confirm_ordered [OF assms(1)]] by blast
  moreover have "filter A (key es) = []" if "A \<in> {is_insert, is_init}" for A
    using wp_result [OF VerifyOTP_once(2) [OF assms(1) that] assms(2)] es(1) unfolding adds_def by simp
  ultimately show ?thesis by blast
qed

theorem VerifyOTP_disciplined_witness:
  "\<exists>d t es. VerifyOTP example_services example_otp example_state = (Ret (Some d, None), t) \<and>
     trace t = trace example_state @ es \<and> length (filter is_confirm (key es)) \<le> 1"
proof -
  obtain d t where run: "VerifyOTP example_services example_otp example_state = (Ret (Some d, None), t)"
    using VerifyOTP_progress [OF example_cooperative example_fresh example_on_file(1)] by blast
  from VerifyOTP_disciplined [OF example_fresh run] run show ?thesis by blast
qed

text \<open>
  When the bank is still verifying, the payment is neither cancelled nor is the order failed, unless an update of the transaction
  was answered with another status than it was sent.
\<close>

lemma VerifyOTP_stays_verifying:
  assumes "fresh_execution S s" "VerifyOTP S request s = (r, t)"
    and "trace t = trace s @ es" "\<exists>e \<in> set (key es). bank_open e"
  shows "((\<exists>e \<in> set (key es). contradicts e) \<or> (\<forall>e \<in> set (key es). \<not> gives_up e)) \<and> (\<forall>p err. r = Ret (p, err) \<longrightarrow> err \<noteq> None)"
  using run_stays_open_any [OF VerifyOTP_stays_open [OF assms(1)] assms(2-)] by blast

lemma VerifyOTP_undecided:
  "\<exists>r t es. VerifyOTP pending_services example_otp example_state = (r, t) \<and> trace t = trace example_state @ es \<and>
     (\<exists>e \<in> set (key es). bank_open e) \<and> ((\<exists>e \<in> set (key es). contradicts e) \<or> (\<forall>e \<in> set (key es). \<not> gives_up e))"
proof -
  obtain r t es where run: "VerifyOTP pending_services example_otp example_state = (r, t)" "trace t = trace example_state @ es"
    "\<exists>e \<in> set (key es). bank_open e"
    using VerifyOTP_meets [OF example_on_file(2) VerifyOTP_bank_meets(2)] by blast
  from VerifyOTP_stays_verifying [OF example_fresh run] run show ?thesis by blast
qed

end
