(* ===== verification/Napas.thy ===== *)
theory Napas
  imports VerifyOTP
begin

text \<open>
  Deposits through Napas: the order and the payment are opened and the user is sent to the bank
  (\<open>application/napas_init_cash_in.go\<close>, and \<open>NapasInitLink\<close> of \<open>application/link_bank.go\<close>, where the
  first deposit links the bank); the outcome arrives later with \<open>CashInNAPAS\<close>
  (\<open>application/deposit_napas_orchestrator.go\<close>).
\<close>

record NapasInitCashInRequest =
  nci_Amount :: int64
  nci_LinkId :: int64
  nci_UserId :: string
  nci_GpayBankCode :: string
  nci_ClientIP :: string
  nci_ServiceType :: string
  nci_RefId :: string
  nci_TransType :: string
  nci_SubTransType :: string
  nci_MerchantId :: string

definition NapasInitCashIn_order :: "NapasInitCashInRequest \<Rightarrow> OrderEntity" where
  "NapasInitCashIn_order request = OrderEntity_zero\<lparr>
     oe_ToUserID := nci_UserId request,
     oe_OrderType := (if nci_TransType request = [] then TRANSTYPE_WALLET_CASH_IN else nci_TransType request),
     oe_Amount := nci_Amount request, oe_SubOrderType := nci_SubTransType request,
     oe_ServiceType := (if nci_ServiceType request = [] then SERVICE_TYPE_WALLET else nci_ServiceType request),
     oe_SourceOfFund := SOURCE_OF_FUND_BANK_ATM, oe_BankCode := nci_GpayBankCode request, oe_Napas := True,
     oe_Description := ''NAPAS CASHIN'', oe_ServiceCode := TRANSTYPE_WALLET_CASH_IN,
     oe_SubscribeMerchantID := nci_MerchantId request, oe_RefID := nci_RefId request\<rparr>"

definition NapasInitCashIn_payment :: "OrderEntity \<Rightarrow> ETransactionDTO" where
  "NapasInitCashIn_payment d = ETransactionDTO_zero\<lparr>
     tx_OrderId := oe_OrderID d, tx_Napas := True, tx_SourceOfFund := oe_SourceOfFund d,
     tx_Message := oe_Description d, tx_BankCode := oe_BankCode d, tx_Amount := oe_Amount d,
     tx_TransactionType := oe_OrderType d, tx_ServiceType := oe_ServiceType d, tx_PayeeId := oe_ToUserID d,
     tx_SubTransactionType := oe_SubOrderType d, tx_BankTransactionId := oe_OrderID d,
     tx_AppId := oe_ServiceCode d, tx_RefId := oe_RefID d, tx_MerchantID := oe_SubscribeMerchantID d\<rparr>"

definition NapasInitCashIn_init :: "'w services \<Rightarrow> ('w st, goerror option) comp" where
  "NapasInitCashIn_init S = link_order (bindc the_order (\<lambda>d. init_trans S False (NapasInitCashIn_payment d)))"

text \<open>
  On an error of the bank the reason is noted and the order gets the id of the transaction; else the
  answer goes back to the client as JSON.
\<close>

definition napas_bank_error :: "goerror \<Rightarrow> ('w st, goerror option) comp" where
  "napas_bank_error e =
     bindc the_trans (\<lambda>t.
     thenc (update_order (\<lambda>d. d\<lparr>oe_TransactionID := tx_TransactionId t\<rparr>))
    (thenc (set_failReason (Error e)) (ret (Some e))))"

definition NapasInitCashIn_bank :: "'w services \<Rightarrow> NapasInitCashInRequest \<Rightarrow> ('w st, goerror option) comp" where
  "NapasInitCashIn_bank S request =
     bindc the_order (\<lambda>d.
     bindc (CashInNapas S (NapasCashInDataRequest (nci_Amount request) (oe_OrderID d) (nci_LinkId request) ''WEB''
              (nci_UserId request) ''NAPAS CASHIN'') (nci_GpayBankCode request) (nci_ClientIP request)) (\<lambda>(napasCashInResp, err).
     case err of
       Some e \<Rightarrow> napas_bank_error e
     | None \<Rightarrow> (case sv_json_data S napasCashInResp of
         Inl e \<Rightarrow> ret (Some e)
       | Inr bRes \<Rightarrow> (case sv_json_acs S bRes of (url, err) \<Rightarrow>
           thenc (modify (\<lambda>s. s\<lparr>resp_Data := bRes, resp_Url := url\<rparr>)) (ret err)))))"

definition napas_process :: "'w services \<Rightarrow> ('w st, goerror option) comp" where
  "napas_process S =
     bindc the_trans (\<lambda>t.
     thenc (update_order (\<lambda>d. d\<lparr>oe_TransactionID := tx_TransactionId t, oe_BankTransactionId := oe_OrderID d\<rparr>))
       (through_order (ProcessingOrder S)))"

definition NapasInitCashIn_steps :: "'w services \<Rightarrow> NapasInitCashInRequest \<Rightarrow> 'w st step_def list" where
  "NapasInitCashIn_steps S request =
     [(''INIT_ORDER'', init_order S (NapasInitCashIn_order request), ret None),
      (''INIT_TRANS'', NapasInitCashIn_init S, ret None),
      (''CALL_BANK_SERVICE'', NapasInitCashIn_bank S request, comp_init_payment S with_reason internal_err),
      (''PROCESS_ORDER'', napas_process S, ret None)]"

text \<open>The response is in the state; the function returns it with the error.\<close>

definition NapasInitCashIn :: "'w services \<Rightarrow> NapasInitCashInRequest \<Rightarrow> ('w st, goerror option) comp" where
  "NapasInitCashIn S request =
     thenc (modify (fresh_vars (Some OrderEntity_zero)))
       (bindc (orchestrate S ''BuyCardActionAccount'' (NapasInitCashIn_steps S request)) (\<lambda>(_, err). ret err))"

subsection \<open>Linking a bank\<close>

record LinkRequest =
  lkr_GpayBankCode :: string
  lkr_UserId :: string
  lkr_PhoneNumber :: string
  lkr_CardHolderName :: string
  lkr_CardNumber :: string
  lkr_IdentifyNumber :: string
  lkr_IssueDate :: string
  lkr_Cvv :: string
  lkr_ExpireDate :: string
  lkr_Gender :: string
  lkr_Distric :: string
  lkr_City :: string
  lkr_Email :: string
  lkr_FirstName :: string
  lkr_LastName :: string
  lkr_Address :: string
  lkr_ReturnUrl :: string
  lkr_CancelUrl :: string

definition Fraud_IsFail :: "string \<Rightarrow> bool" where
  "Fraud_IsFail status \<longleftrightarrow> status = ''FAIL''"

definition Fraud_IsSuccess :: "string \<Rightarrow> bool" where
  "Fraud_IsSuccess status \<longleftrightarrow> status = ''SUCCESS''"

definition LinkBank_data :: "LinkRequest \<Rightarrow> LinkRequestData" where
  "LinkBank_data req = \<lparr>
     lr_GPayUserInfo = \<lparr>gu_CustomerId = lkr_IdentifyNumber req, gu_Gender = lkr_Gender req,
       gu_PhoneNumber = lkr_PhoneNumber req, gu_FullName = lkr_CardHolderName req, gu_District = lkr_Distric req,
       gu_City = lkr_City req, gu_Email = lkr_Email req, gu_FirstName = lkr_FirstName req,
       gu_LastName = lkr_LastName req, gu_Address = lkr_Address req\<rparr>,
     lr_GpayTransactionId = [], lr_GpayUserId = lkr_UserId req, lr_Channel = [],
     lr_ReturnUrl = lkr_ReturnUrl req, lr_CancelUrl = lkr_CancelUrl req, lr_Amount = 0,
     lr_Description = ''Link bank '' @ lkr_GpayBankCode req,
     lr_CustomerCardInfo = \<lparr>cc_CardNumber = lkr_CardNumber req, cc_CardHolderName = lkr_CardHolderName req,
       cc_Cvv = lkr_Cvv req, cc_IssueDate = lkr_IssueDate req, cc_ExpireDate = lkr_ExpireDate req\<rparr>\<rparr>"

definition LinkBank_call ::
    "'w services \<Rightarrow> LinkRequest \<Rightarrow> ('w st, (string \<times> string) option \<times> goerror option) comp" where
  "LinkBank_call S req =
     bindc (Link S (LinkBank_data req) (lkr_GpayBankCode req) ''core.ip'') (\<lambda>(linkBankResponse, err). case err of
       Some e \<Rightarrow> ret (None, Some e)
     | None \<Rightarrow>
         (let bRes = (case sv_json_data S linkBankResponse of Inl _ \<Rightarrow> [] | Inr b \<Rightarrow> b) in
          case sv_json_acs S bRes of (url, err) \<Rightarrow> ret (Some (bRes, url), err)))"

text \<open>An international card has a security code: it is looked up in the black list first.\<close>

definition LinkBank :: "'w services \<Rightarrow> LinkRequest \<Rightarrow> ('w st, (string \<times> string) option \<times> goerror option) comp" where
  "LinkBank S req =
     (if lkr_Cvv req \<noteq> []
      then bindc (ask (fr_Get S (lkr_CardNumber req))) (\<lambda>r. case r of
        Inl _ \<Rightarrow> ret (None, Some (ErrorString ''He thong chua ho tro lien ket the tren''))
      | Inr checkFraudRes \<Rightarrow>
          if Fraud_IsFail (fd_Status checkFraudRes)
          then ret (None, Some (ErrorString ''He thong chua ho tro lien ket the tren''))
          else LinkBank_call S req)
      else LinkBank_call S req)"

definition VerifyOTPLinkBank :: "'w services \<Rightarrow> string \<Rightarrow> int64 \<Rightarrow> string \<Rightarrow> ('w st, goerror option) comp" where
  "VerifyOTPLinkBank S gpayBankCode linkId otp =
     bindc (bank_VerifyOTP S gpayBankCode [] [] linkId otp) (\<lambda>(cashInVerifyOTP, err). case err of
       Some e \<Rightarrow> ret (Some e)
     | None \<Rightarrow> if \<not> BankGwStatus_IsSuccess (br_ErrorCode cashInVerifyOTP)
               then ret (Some (ErrorString (br_Message cashInVerifyOTP))) else ret None)"

definition app_UnLink :: "'w services \<Rightarrow> int64 \<Rightarrow> ('w st, goerror option) comp" where
  "app_UnLink S linkId =
     bindc (LinkInfo S linkId) (\<lambda>(linkDetail, err). case err of
       Some e \<Rightarrow> ret (Some e)
     | None \<Rightarrow>
         bindc (UnLink S (br_GpayBankCode linkDetail) linkId) (\<lambda>(_, err). case err of
           Some e \<Rightarrow> ret (Some e)
         | None \<Rightarrow> thenc (modify (\<lambda>s. s\<lparr>resp_Status := ''Success''\<rparr>)) (ret None)))"

text \<open>The conversion of the amount (\<open>cast.ToInt64\<close>) is the parameter \<open>toInt64\<close>.\<close>

record NapasInitLinkRequest =
  nil_Amount :: string
  nil_UserId :: string
  nil_GpayBankCode :: string
  nil_PhoneNumber :: string
  nil_ClientIP :: string
  nil_ServiceType :: string
  nil_TransType :: string
  nil_SubTransType :: string
  nil_MerchantId :: string
  nil_RefId :: string

definition NapasInitLink_order :: "NapasInitLinkRequest \<Rightarrow> int64 \<Rightarrow> OrderEntity" where
  "NapasInitLink_order request amount = OrderEntity_zero\<lparr>
     oe_ToUserID := nil_UserId request,
     oe_OrderType := (if nil_TransType request = [] then TRANSTYPE_WALLET_CASH_IN else nil_TransType request),
     oe_Amount := amount, oe_SubOrderType := nil_SubTransType request,
     oe_SourceOfFund := SOURCE_OF_FUND_BANK_ATM, oe_BankCode := nil_GpayBankCode request, oe_Napas := True,
     oe_Description := ''NAPAS LINK''\<rparr>"

definition NapasInitLink_payment :: "NapasInitLinkRequest \<Rightarrow> OrderEntity \<Rightarrow> ETransactionDTO" where
  "NapasInitLink_payment request d = ETransactionDTO_zero\<lparr>
     tx_OrderId := oe_OrderID d, tx_Napas := True, tx_SourceOfFund := oe_SourceOfFund d,
     tx_Message := oe_Description d, tx_BankCode := nil_GpayBankCode request, tx_Amount := oe_Amount d,
     tx_ServiceType := SERVICE_TYPE_WALLET, tx_TransactionType := oe_OrderType d, tx_PayeeId := oe_ToUserID d,
     tx_SubTransactionType := oe_SubOrderType d, tx_BankTransactionId := oe_OrderID d,
     tx_AppId := TRANSTYPE_WALLET_CASH_IN\<rparr>"

definition NapasInitLink_init :: "'w services \<Rightarrow> NapasInitLinkRequest \<Rightarrow> ('w st, goerror option) comp" where
  "NapasInitLink_init S request = bindc the_order (\<lambda>d. init_trans S False (NapasInitLink_payment request d))"

definition NapasInitLink_data :: "NapasInitLinkRequest \<Rightarrow> int64 \<Rightarrow> OrderEntity \<Rightarrow> LinkRequestData" where
  "NapasInitLink_data request amount d = \<lparr>
     lr_GPayUserInfo = \<lparr>gu_CustomerId = [], gu_Gender = [], gu_PhoneNumber = [], gu_FullName = [], gu_District = [],
       gu_City = [], gu_Email = [], gu_FirstName = [], gu_LastName = [], gu_Address = []\<rparr>,
     lr_GpayTransactionId = oe_OrderID d, lr_GpayUserId = nil_UserId request, lr_Channel = [], lr_ReturnUrl = [],
     lr_CancelUrl = [], lr_Amount = amount, lr_Description = ''NAPAS link'',
     lr_CustomerCardInfo = \<lparr>cc_CardNumber = [], cc_CardHolderName = [], cc_Cvv = [], cc_IssueDate = [], cc_ExpireDate = []\<rparr>\<rparr>"

definition NapasInitLink_bank :: "'w services \<Rightarrow> NapasInitLinkRequest \<Rightarrow> int64 \<Rightarrow> ('w st, goerror option) comp" where
  "NapasInitLink_bank S request amount =
     bindc the_order (\<lambda>d.
     bindc (Link S (NapasInitLink_data request amount d) (nil_GpayBankCode request) (nil_ClientIP request)) (\<lambda>(linkResp, err).
     case err of
       Some e \<Rightarrow> napas_bank_error e
     | None \<Rightarrow> (case sv_json_data S linkResp of
         Inl e \<Rightarrow> ret (Some e)
       | Inr bRes \<Rightarrow> thenc (modify (\<lambda>s. s\<lparr>resp_Data := bRes\<rparr>)) (ret None))))"

definition NapasInitLink_steps :: "'w services \<Rightarrow> NapasInitLinkRequest \<Rightarrow> int64 \<Rightarrow> 'w st step_def list" where
  "NapasInitLink_steps S request amount =
     [(''INIT_ORDER'', init_order S (NapasInitLink_order request amount), ret None),
      (''INIT_TRANS'', NapasInitLink_init S request, ret None),
      (''CALL_BANK_SERVICE'', NapasInitLink_bank S request amount, comp_init_payment S with_reason internal_err),
      (''PROCESS_ORDER'', napas_process S, ret None)]"

definition NapasInitLink :: "'w services \<Rightarrow> (string \<Rightarrow> int64) \<Rightarrow> NapasInitLinkRequest \<Rightarrow> ('w st, goerror option) comp" where
  "NapasInitLink S toInt64 request =
     thenc (modify (fresh_vars (Some OrderEntity_zero)))
       (bindc (orchestrate S ''NAPAS LINK'' (NapasInitLink_steps S request (toInt64 (nil_Amount request)))) (\<lambda>(_, err). ret err))"

subsection \<open>The outcome of a deposit\<close>

record CashInNapasRequest =
  cnr_OrderRequest :: OrderRequest
  cnr_ErrorCode :: string

definition CashInNAPAS_find :: "'w services \<Rightarrow> CashInNapasRequest \<Rightarrow> ('w st, goerror option) comp" where
  "CashInNAPAS_find S request = (let r = cnr_OrderRequest request in
     bindc (GetValidOrder S (rq_BankTransactionId r)) (\<lambda>a. case a of
       Inl e \<Rightarrow> thenc (set_order None) (ret (Some e))
     | Inr d \<Rightarrow> thenc (set_order (Some (d\<lparr>oe_BankCode := rq_BankCode r\<rparr>))) (ret None)))"

definition CashInNAPAS_trans :: "'w services \<Rightarrow> CashInNapasRequest \<Rightarrow> ('w st, goerror option) comp" where
  "CashInNAPAS_trans S request =
     bindc the_order (\<lambda>d.
     bindc (ask (ts_FindByID S (oe_TransactionID d))) (\<lambda>a. case a of
       Inl e \<Rightarrow> thenc (set_trans None) (ret (Some e))
     | Inr t \<Rightarrow> thenc (set_trans (Some (t\<lparr>tx_BankCode := rq_GPayBankCode (cnr_OrderRequest request)\<rparr>))) (ret None)))"

text \<open>A different amount makes the deposit suspicious: the payment is parked and the order verified.\<close>

definition CashInNAPAS_suspect :: "'w services \<Rightarrow> ('w st, goerror option) comp" where
  "CashInNAPAS_suspect S = (let desc = ''GD nghi van '' in
     bindc the_trans (\<lambda>t.
     bindc (if tx_Status t \<noteq> TRANSACTION_STATUS_PENDING
            then thenc (update_trans (\<lambda>t. t\<lparr>tx_Message := desc\<rparr>)) (assign_trans (serviceTransactionPending S))
            else ret None) (\<lambda>err.
     bindc the_order (\<lambda>d.
     thenc (whenc (\<not> IsVerifying (oe_Status d))
       (thenc (update_order (\<lambda>d. d\<lparr>oe_Description := desc\<rparr>)) (thenc (through_order (VerifyingOrder S)) (ret ()))))
     (ret err)))))"

definition CashInNAPAS_amount :: "'w services \<Rightarrow> CashInNapasRequest \<Rightarrow> ('w st, goerror option) comp" where
  "CashInNAPAS_amount S request =
     bindc the_order (\<lambda>d.
     if rq_Amount (cnr_OrderRequest request) \<noteq> oe_Amount d then CashInNAPAS_suspect S else ret None)"

definition CashInNAPAS_paid :: "'w services \<Rightarrow> ('w st, goerror option) comp" where
  "CashInNAPAS_paid S =
     bindc (confirm_trans S as_is) (\<lambda>err. case err of
       Some e \<Rightarrow> ret (Some e)
     | None \<Rightarrow> through_order (SuccessOrder S))"

definition CashInNAPAS_refused :: "'w services \<Rightarrow> string \<Rightarrow> ('w st, goerror option) comp" where
  "CashInNAPAS_refused S message =
     bindc (gets trans) (\<lambda>t.
     bindc (case t of
              None \<Rightarrow> ret None
            | Some t \<Rightarrow> if tx_Status t \<noteq> TRANSACTION_STATUS_FAILED \<and> tx_Status t \<noteq> TRANSACTION_STATUS_PENDING
                        then cancel_trans S (\<lambda>_ t. t\<lparr>tx_FailReason := message\<rparr>) else ret None) (\<lambda>err.
     bindc the_order (\<lambda>d.
     thenc (whenc (\<not> IsVerifying (oe_Status d) \<and> \<not> IsFailed (oe_Status d))
       (thenc (update_order (\<lambda>d. d\<lparr>oe_FailReason := message\<rparr>))
       (bindc (through_order (FailedOrder S)) (\<lambda>e.
        whenc (e = None) (bindc the_order (\<lambda>d. modify (\<lambda>s. s\<lparr>resp_OrderEntity := Some (ConvertToProto d)\<rparr>)))))))
     (ret err))))"

definition CashInNAPAS_final :: "'w services \<Rightarrow> CashInNapasRequest \<Rightarrow> ('w st, goerror option) comp" where
  "CashInNAPAS_final S request =
     (if cnr_ErrorCode request = ''200'' then CashInNAPAS_paid S
      else CashInNAPAS_refused S (rq_Message (cnr_OrderRequest request)))"

definition CashInNAPAS_steps :: "'w services \<Rightarrow> CashInNapasRequest \<Rightarrow> 'w st step_def list" where
  "CashInNAPAS_steps S request =
     [(''INIT_ORDER'', CashInNAPAS_find S request, ret None),
      (''GET TRANSACTION '', CashInNAPAS_trans S request, ret None),
      (''CHECK AMOUNT ORDER WITH REQUEST'', CashInNAPAS_amount S request, ret None),
      (''FINALIZATION_PAYMENT'', CashInNAPAS_final S request, ret None)]"

definition CashInNAPAS :: "'w services \<Rightarrow> CashInNapasRequest \<Rightarrow> ('w st, OrderEntity option \<times> goerror option) comp" where
  "CashInNAPAS S request =
     thenc (modify (fresh_vars None)) (orchestrate S ''NAPAS CASH IN ACTION'' (CashInNAPAS_steps S request))"

subsection \<open>The steps\<close>

lemma CashInNAPAS_find_succeeds:
  assumes "\<And>d w es. key es = [] \<Longrightarrow> payable_order S (rq_BankTransactionId (cnr_OrderRequest request)) d \<Longrightarrow>
     R ((appended s w es)\<lparr>order_dto := Some (d\<lparr>oe_BankCode := rq_BankCode (cnr_OrderRequest request)\<rparr>)\<rparr>)"
  shows "succeeds (CashInNAPAS_find S request) R s"
  unfolding CashInNAPAS_find_def Let_def wp_bindc
  by (rule does_wp [OF valid_order_does]) (auto simp: wp_rules split: sum.split intro: assms)

lemma CashInNAPAS_trans_succeeds:
  assumes "\<And>d t w. order_dto s = Some d \<Longrightarrow> fst (ts_FindByID S (oe_TransactionID d) (world s)) = Inr t \<Longrightarrow>
     R (s\<lparr>world := w, trans := Some (t\<lparr>tx_BankCode := rq_GPayBankCode (cnr_OrderRequest request)\<rparr>)\<rparr>)"
  shows "succeeds (CashInNAPAS_trans S request) R s"
  using assms by (auto simp: CashInNAPAS_trans_def wp_rules split: option.split sum.split)

lemma verify_described:
  assumes "order_dto s = Some d"
    and "\<And>d' f x w es. key es = [EvReplaceOrder f d' x] \<Longrightarrow> restamped ORDER_VERIFYING (d\<lparr>oe_Description := m\<rparr>) d' \<Longrightarrow>
      Q () ((appended s w es)\<lparr>order_dto := Some d'\<rparr>)"
  shows "wp (thenc (update_order (\<lambda>d. d\<lparr>oe_Description := m\<rparr>)) (thenc (through_order (VerifyingOrder S)) (ret ()))) Q E s"
  unfolding wp_bindc wp_updates wp_ret assms(1) option.case
  by (rule wp_through_order [OF VerifyingOrder_does]) (auto intro: assms(2))

text \<open>What the check of the amount leaves.\<close>

definition suspected ::
    "CashInNapasRequest \<Rightarrow> OrderEntity \<Rightarrow> ETransactionDTO \<Rightarrow> event list \<Rightarrow> OrderEntity \<Rightarrow> ETransactionDTO \<Rightarrow> bool" where
  "suspected request d t evs d' t' \<longleftrightarrow>
     (if rq_Amount (cnr_OrderRequest request) = oe_Amount d then evs = [] \<and> d' = d \<and> t' = t
      else \<exists>us f x. evs = us @ [EvReplaceOrder f d' x] \<and>
        restamped ORDER_VERIFYING (d\<lparr>oe_Description := ''GD nghi van ''\<rparr>) d' \<and>
        (if tx_Status t = TRANSACTION_STATUS_PENDING then us = [] \<and> t' = t
         else us = [EvUpdate (t\<lparr>tx_Message := ''GD nghi van '', tx_Status := TRANSACTION_STATUS_PENDING\<rparr>) (Inr t')]))"

lemma CashInNAPAS_suspect_succeeds:
  assumes s: "order_dto s = Some d" "trans s = Some t" "\<not> IsVerifying (oe_Status d)"
    and d: "rq_Amount (cnr_OrderRequest request) \<noteq> oe_Amount d"
    and R: "\<And>s1 evs d' t'. suspected request d t evs d' t' \<Longrightarrow> order_dto s1 = Some d' \<Longrightarrow> trans s1 = Some t' \<Longrightarrow>
      key (trace s1) = key (trace s) @ evs \<Longrightarrow> R s1"
  shows "succeeds (CashInNAPAS_suspect S) R s"
proof -
  let ?m = "''GD nghi van ''"
  have verify: "wp (whenc (\<not> IsVerifying (oe_Status d)) (thenc (update_order (\<lambda>d. d\<lparr>oe_Description := ?m\<rparr>))
      (thenc (through_order (VerifyingOrder S)) (ret ())))) (\<lambda>_ t. R t) (\<lambda>_. True) s1"
    if "order_dto s1 = Some d" "trans s1 = Some t'" "key (trace s1) = key (trace s) @ us"
      "if tx_Status t = TRANSACTION_STATUS_PENDING then us = [] \<and> t' = t
       else us = [EvUpdate (t\<lparr>tx_Message := ?m, tx_Status := TRANSACTION_STATUS_PENDING\<rparr>) (Inr t')]" for s1 t' us
    unfolding wp_whenc
  proof (simp only: s(3) not_False_eq_True if_True, rule verify_described [OF that(1)], goal_cases)
    case (1 d' f x w es)
    have "suspected request d t (us @ [EvReplaceOrder f d' x]) d' t'"
      unfolding suspected_def using d 1(2) that(4) by (simp only: if_False) blast
    from R [OF this] show ?case using 1(1) that(2,3) by (simp del: filter_filter)
  qed
  show ?thesis
  proof (cases "tx_Status t = TRANSACTION_STATUS_PENDING")
    case True
    then show ?thesis
      using verify [of s t "[]"] s by (simp add: CashInNAPAS_suspect_def Let_def wp_bindc wp_the_trans wp_the_order wp_ret)
  next
    case False
    have "wp (assign_trans (serviceTransactionPending S)) (\<lambda>err. wp (bindc the_order (\<lambda>d.
        thenc (whenc (\<not> IsVerifying (oe_Status d)) (thenc (update_order (\<lambda>d. d\<lparr>oe_Description := ?m\<rparr>))
          (thenc (through_order (VerifyingOrder S)) (ret ())))) (ret err))) (\<lambda>err t. err = None \<longrightarrow> R t) (\<lambda>_. True)) (\<lambda>_. True)
        (s\<lparr>trans := Some (t\<lparr>tx_Message := ?m\<rparr>)\<rparr>)"
    proof (rule wp_assign_trans [OF serviceTransactionPending_does], simp, goal_cases)
      case (1 t0 x w es)
      then show ?case
      proof (cases x)
        case (Inr t')
        with 1 False verify [of "(appended s w es)\<lparr>trans := Some t'\<rparr>" t' "key es"] s show ?thesis
          by (simp add: wp_bindc wp_the_order wp_ret del: filter_filter)
      qed (auto simp: wp_bindc wp_the_order wp_ret split: option.split)
    qed simp
    with False s show ?thesis
      by (simp add: CashInNAPAS_suspect_def Let_def wp_bindc wp_the_trans wp_updates)
  qed
qed

lemma CashInNAPAS_amount_succeeds:
  assumes s: "order_dto s = Some d" "trans s = Some t" "\<not> IsVerifying (oe_Status d)"
    and R: "\<And>s1 evs d' t'. suspected request d t evs d' t' \<Longrightarrow> order_dto s1 = Some d' \<Longrightarrow> trans s1 = Some t' \<Longrightarrow>
      key (trace s1) = key (trace s) @ evs \<Longrightarrow> R s1"
  shows "succeeds (CashInNAPAS_amount S request) R s"
proof (cases "rq_Amount (cnr_OrderRequest request) = oe_Amount d")
  case True
  then have "suspected request d t [] d t" by (simp add: suspected_def)
  from R [OF this, of s] True s show ?thesis by (simp add: CashInNAPAS_amount_def wp_rules)
next
  case False
  from CashInNAPAS_suspect_succeeds [OF s this R] False s show ?thesis
    by (simp add: CashInNAPAS_amount_def wp_bindc wp_the_order)
qed

text \<open>The end of a deposit: paid, or refused by the bank.\<close>

definition napas_paid :: "OrderEntity \<Rightarrow> ETransactionDTO \<Rightarrow> event list \<Rightarrow> OrderEntity \<Rightarrow> bool" where
  "napas_paid d t evs p \<longleftrightarrow> (\<exists>c f n. evs = [EvConfirm t (Inr c), EvReplaceOrder f p (Inr (Suc n))]) \<and> restamped ORDER_SUCCESS d p"

definition napas_refused :: "string \<Rightarrow> OrderEntity \<Rightarrow> ETransactionDTO \<Rightarrow> event list \<Rightarrow> OrderEntity \<Rightarrow> bool" where
  "napas_refused m d t evs p \<longleftrightarrow> (\<exists>cs fs. evs = cs @ fs \<and>
     (if tx_Status t = TRANSACTION_STATUS_FAILED \<or> tx_Status t = TRANSACTION_STATUS_PENDING then cs = []
      else \<exists>c. cs = [EvCancel (t\<lparr>tx_FailReason := m\<rparr>) (Inr c)]) \<and>
     (if IsVerifying (oe_Status d) \<or> IsFailed (oe_Status d) then fs = [] \<and> p = d
      else \<exists>f x. fs = [EvReplaceOrder f p x] \<and> restamped ORDER_FAILED (d\<lparr>oe_FailReason := m\<rparr>) p))"

lemma CashInNAPAS_paid_succeeds:
  assumes s: "order_dto s = Some d" "trans s = Some t"
    and R: "\<And>s1 evs p. napas_paid d t evs p \<Longrightarrow> order_dto s1 = Some p \<Longrightarrow> key (trace s1) = key (trace s) @ evs \<Longrightarrow> R s1"
  shows "succeeds (CashInNAPAS_paid S) R s"
proof -
  have "wp (through_order (SuccessOrder S)) (\<lambda>err u. err = None \<longrightarrow> R u) (\<lambda>_. True) s1"
    if "order_dto s1 = Some d" "key (trace s1) = key (trace s) @ [EvConfirm t (Inr c)]" for s1 c
  proof (rule wp_through_order [OF SuccessOrder_does], simp, goal_cases)
    case (1 d0 p f e x w es)
    then have "napas_paid d t [EvConfirm t (Inr c), EvReplaceOrder f p (Inr (Suc n))] p" for n
      unfolding napas_paid_def using that(1) by auto
    from R [OF this] show ?case using 1 that(2) by (auto simp del: filter_filter)
  qed
  note fin = this
  show ?thesis
    unfolding CashInNAPAS_paid_def wp_bindc
    by (rule wp_mono [OF confirm_trans_succeeds [where R = "\<lambda>u. order_dto u = Some d \<and> (\<exists>c. key (trace u) = key (trace s) @ [EvConfirm t (Inr c)])"]])
      (use s fin in \<open>auto simp: wp_ret split: option.split\<close>)
qed

lemma CashInNAPAS_refused_succeeds:
  assumes s: "order_dto s = Some d" "trans s = Some t"
    and R: "\<And>s1 evs p. napas_refused m d t evs p \<Longrightarrow> order_dto s1 = Some p \<Longrightarrow> key (trace s1) = key (trace s) @ evs \<Longrightarrow> R s1"
  shows "succeeds (CashInNAPAS_refused S m) R s"
proof -
  let ?fail = "whenc (\<not> IsVerifying (oe_Status d) \<and> \<not> IsFailed (oe_Status d))
       (thenc (update_order (\<lambda>d. d\<lparr>oe_FailReason := m\<rparr>))
       (bindc (through_order (FailedOrder S)) (\<lambda>e.
        whenc (e = None) (bindc the_order (\<lambda>d. modify (\<lambda>s. s\<lparr>resp_OrderEntity := Some (ConvertToProto d)\<rparr>))))))"
  have fail: "wp ?fail (\<lambda>_. R) (\<lambda>_. True) s1"
    if "order_dto s1 = Some d" "key (trace s1) = key (trace s) @ cs"
      "if tx_Status t = TRANSACTION_STATUS_FAILED \<or> tx_Status t = TRANSACTION_STATUS_PENDING then cs = []
       else \<exists>c. cs = [EvCancel (t\<lparr>tx_FailReason := m\<rparr>) (Inr c)]" for s1 cs
  proof (cases "IsVerifying (oe_Status d) \<or> IsFailed (oe_Status d)")
    case True
    then have "napas_refused m d t cs d" unfolding napas_refused_def using that(3) by auto
    from R [OF this that(1,2)] True show ?thesis by (auto simp: wp_rules)
  next
    case False
    have "wp (through_order (FailedOrder S)) (\<lambda>e. wp (whenc (e = None) (bindc the_order (\<lambda>d. modify (\<lambda>s. s\<lparr>resp_OrderEntity := Some (ConvertToProto d)\<rparr>))))
        (\<lambda>_. R) (\<lambda>_. True)) (\<lambda>_. True) (s1\<lparr>order_dto := Some (d\<lparr>oe_FailReason := m\<rparr>)\<rparr>)"
    proof (rule wp_through_order [OF FailedOrder_does], simp, goal_cases)
      case (1 d0 p f e x w es)
      then have "napas_refused m d t (cs @ [EvReplaceOrder f p x]) p"
        unfolding napas_refused_def using that(3) False by (intro exI [of _ cs] exI [of _ "[EvReplaceOrder f p x]"]) auto
      from R [OF this] show ?case using 1 that(2) by (simp add: wp_rules del: filter_filter)
    qed
    with False that(1) show ?thesis by (simp add: wp_rules)
  qed
  show ?thesis
  proof (cases "tx_Status t = TRANSACTION_STATUS_FAILED \<or> tx_Status t = TRANSACTION_STATUS_PENDING")
    case True
    with fail [of s "[]"] s show ?thesis
      by (auto simp: CashInNAPAS_refused_def wp_bindc wp_gets wp_the_order wp_ret)
  next
    case False
    have "wp (cancel_trans S (\<lambda>_ t. t\<lparr>tx_FailReason := m\<rparr>)) (\<lambda>err. wp (bindc the_order (\<lambda>d. thenc (whenc (\<not> IsVerifying (oe_Status d) \<and> \<not> IsFailed (oe_Status d))
       (thenc (update_order (\<lambda>d. d\<lparr>oe_FailReason := m\<rparr>))
       (bindc (through_order (FailedOrder S)) (\<lambda>e.
        whenc (e = None) (bindc the_order (\<lambda>d. modify (\<lambda>s. s\<lparr>resp_OrderEntity := Some (ConvertToProto d)\<rparr>))))))) (ret err)))
       (\<lambda>err t. err = None \<longrightarrow> R t) (\<lambda>_. True)) (\<lambda>_. True) s"
      unfolding cancel_trans_def wp_bindc wp_gets wp_updates s(2) option.case
    proof (rule wp_assign_trans [OF serviceTransactionCancel_does], simp, goal_cases)
      case (1 t0 x w es)
      show ?case
      proof (cases x)
        case (Inr c)
        with 1 False fail [of "(appended s w es)\<lparr>trans := Some c\<rparr>" "key es"] s show ?thesis
          by (simp add: wp_the_order wp_bindc wp_ret del: filter_filter)
      qed (use s in \<open>simp add: wp_bindc wp_the_order wp_ret\<close>)
    qed simp
    with False s show ?thesis by (simp add: CashInNAPAS_refused_def wp_bindc wp_gets)
  qed
qed

subsection \<open>Runs\<close>

definition CashInNAPAS_done :: "'w services \<Rightarrow> CashInNapasRequest \<Rightarrow> OrderEntity \<Rightarrow> event list \<Rightarrow> OrderEntity \<Rightarrow> bool" where
  "CashInNAPAS_done S request stored evs p \<longleftrightarrow> (let r = cnr_OrderRequest request in \<exists>w t sus fin d1 t1.
     evs = sus @ fin \<and> fst (ts_FindByID S (oe_TransactionID stored) w) = Inr t \<and>
     suspected request (stored\<lparr>oe_BankCode := rq_BankCode r\<rparr>) (t\<lparr>tx_BankCode := rq_GPayBankCode r\<rparr>) sus d1 t1 \<and>
     (if cnr_ErrorCode request = ''200'' then napas_paid d1 t1 fin p else napas_refused (rq_Message r) d1 t1 fin p))"

lemma CashInNAPAS_final_succeeds:
  assumes s: "order_dto s = Some d" "trans s = Some t"
    and R: "\<And>s1 evs p. (if cnr_ErrorCode request = ''200'' then napas_paid d t evs p
        else napas_refused (rq_Message (cnr_OrderRequest request)) d t evs p) \<Longrightarrow>
      order_dto s1 = Some p \<Longrightarrow> key (trace s1) = key (trace s) @ evs \<Longrightarrow> R s1"
  shows "succeeds (CashInNAPAS_final S request) R s"
  unfolding CashInNAPAS_final_def
  using CashInNAPAS_paid_succeeds [OF s, of R S] CashInNAPAS_refused_succeeds [OF s, of "rq_Message (cnr_OrderRequest request)" R S] R by simp

lemma CashInNAPAS_steps_succeed:
  assumes "started None s s'"
  shows "succeeds (run_steps (CashInNAPAS_steps S request) [])
     (\<lambda>t. \<exists>stored p evs. payable_order S (rq_BankTransactionId (cnr_OrderRequest request)) stored \<and> order_dto t = Some p \<and> key (trace t) = key (trace s) @ evs \<and>
        CashInNAPAS_done S request stored evs p) s'"
  unfolding CashInNAPAS_steps_def
proof (intro succeeds_Cons CashInNAPAS_find_succeeds CashInNAPAS_trans_succeeds, goal_cases)
  case (1 stored w es d t v)
  let ?d = "stored\<lparr>oe_BankCode := rq_BankCode (cnr_OrderRequest request)\<rparr>"
    and ?t = "t\<lparr>tx_BankCode := rq_GPayBankCode (cnr_OrderRequest request)\<rparr>"
  have t: "fst (ts_FindByID S (oe_TransactionID stored) w) = Inr t" using 1 by auto
  have base: "key (trace s') @ key es = key (trace s)" using started_sel(12) [OF assms] 1(1) by simp
  show ?case
  proof (rule CashInNAPAS_amount_succeeds [where d = ?d and t = ?t], goal_cases)
    case (4 s1 sus d1 t1)
    show ?case
    proof (rule succeeds_Cons, rule CashInNAPAS_final_succeeds [OF 4(2,3)], rule succeeds_Nil, goal_cases)
      case (1 s2 fin p)
      have "CashInNAPAS_done S request stored (sus @ fin) p"
        unfolding CashInNAPAS_done_def Let_def using t 4(1) 1(1) by blast
      then show ?case using 1(2,3) 4(4) base \<open>payable_order S (rq_BankTransactionId (cnr_OrderRequest request)) stored\<close> by (auto simp del: filter_filter)
    qed
  qed (use 1 in \<open>auto simp: payable_order_def payable_def\<close>)
qed

lemma CashInNAPAS_wp:
  assumes "fresh_execution S s"
    and "\<And>s'. started None s s' \<Longrightarrow> fresh_execution S s' \<Longrightarrow>
      wp (orchestrate S ''NAPAS CASH IN ACTION'' (CashInNAPAS_steps S request)) Q E s'"
  shows "wp (CashInNAPAS S request) Q E s"
  unfolding CashInNAPAS_def wp_bindc wp_modify by (rule assms(2) [OF started_refl]) (simp add: assms(1))

subsection \<open>Progress\<close>

definition updates_answered :: "'w services \<Rightarrow> bool" where
  "updates_answered S \<longleftrightarrow> (\<forall>t w. \<exists>t'. fst (ts_Update S t w) = Inr t')"

lemma serviceTransactionPending_fine:
  assumes "obliging S" "updates_answered S"
  shows "fine (serviceTransactionPending S q) (\<lambda>(t, err). err = None \<and> t \<noteq> None)"
proof -
  have "fine (act (ts_Update S q) (EvUpdate q)) (\<lambda>r. \<exists>q'. r = Inr q')" for q
    by (rule fine_act) (use assms(2) in \<open>simp add: updates_answered_def\<close>)
  then show ?thesis
    unfolding serviceTransactionPending_def Let_def
    by (rule fine_bindc)
      (auto intro!: fine_bindc [OF MqttUpdateProfile_fine [OF assms(1)]] fine_bindc [OF SendMqttTransactionByObject_fine [OF assms(1)]] fine_rules)
qed

lemma VerifyingOrder_fine: "fine (VerifyingOrder S d) (\<lambda>_. True)"
  unfolding VerifyingOrder_def ReplaceByID_def Let_def
  by (rule fine_bindc [of _ "\<lambda>_. True"], rule fine_bindc [OF fine_act [of "\<lambda>_. True"]])
    (auto split: sum.split intro!: fine_rules)

lemma CashInNAPAS_lookups_go:
  assumes "order_on_file S (rq_BankTransactionId (cnr_OrderRequest request))"
    and "\<And>d t w. \<not> IsVerifying (oe_Status d) \<Longrightarrow> wp (run_steps sts [g2, g1]) Q E (s\<lparr>order_dto := Some d, world := w, trans := Some t\<rparr>)"
  shows "wp (run_steps ((n1, CashInNAPAS_find S request, g1) # (n2, CashInNAPAS_trans S request, g2) # sts) []) Q E s"
proof -
  obtain d w where d: "mg_FindOrder S (ByOrderID (rq_BankTransactionId (cnr_OrderRequest request))) (world s) = (Inr d, w)" "payable d"
    using assms(1) unfolding order_on_file_def by (metis prod.collapse)
  obtain t v where t: "ts_FindByID S (oe_TransactionID d) w = (Inr t, v)"
    using assms(1) unfolding order_on_file_def by (metis prod.collapse)
  show ?thesis
    by (rule goes_then, unfold CashInNAPAS_find_def Let_def GetValidOrder_def FindByOrderID_def,
        simp add: d d(2) [unfolded payable_def] wp_bindc wp_ask wp_ret wp_sets,
        rule goes_then, use d(2) in \<open>simp add: CashInNAPAS_trans_def t wp_rules assms(2) payable_def\<close>)
qed

lemma verify_returns:
  assumes "order_dto s \<noteq> None" "\<And>d w es. R ((appended s w es)\<lparr>order_dto := Some d\<rparr>)"
  shows "returns (through_order (VerifyingOrder S)) R s"
  unfolding through_order_def wp_bindc wp_the_order
  using assms by (auto split: option.split prod.split simp: wp_rules intro!: fine_wp [OF VerifyingOrder_fine])

lemma CashInNAPAS_amount_goes:
  assumes "obliging S" "updates_answered S" "order_dto s = Some d" "trans s = Some t"
    and "\<And>s1 d t. order_dto s1 = Some d \<Longrightarrow> trans s1 = Some t \<Longrightarrow> R s1"
  shows "goes (CashInNAPAS_amount S request) R s"
proof -
  let ?m = "''GD nghi van ''"
  have rest: "goes (bindc the_order (\<lambda>d. thenc (whenc (\<not> IsVerifying (oe_Status d))
        (thenc (update_order (\<lambda>d. d\<lparr>oe_Description := ?m\<rparr>)) (thenc (through_order (VerifyingOrder S)) (ret ())))) (ret None))) R s1"
    if "order_dto s1 = Some d" "trans s1 = Some t" for s1 d t
    using that by (auto simp: wp_bindc wp_the_order wp_ret wp_whenc wp_updates intro!: verify_returns assms(5))
  have "goes (CashInNAPAS_suspect S) R s"
  proof (cases "tx_Status t = TRANSACTION_STATUS_PENDING")
    case True
    with rest [OF assms(3,4)] assms(4) show ?thesis by (simp add: CashInNAPAS_suspect_def Let_def wp_bindc wp_the_trans wp_ret)
  next
    case False
    have "wp (assign_trans (serviceTransactionPending S)) (\<lambda>err u. err = None \<and> (\<exists>d t. order_dto u = Some d \<and> trans u = Some t)) (\<lambda>_. False)
        (s\<lparr>trans := Some (t\<lparr>tx_Message := ?m\<rparr>)\<rparr>)"
      by (rule assign_trans_goes [OF serviceTransactionPending_fine [OF assms(1,2)]]) (use assms(3) in auto)
    then have "wp (assign_trans (serviceTransactionPending S)) (\<lambda>err. goes (bindc the_order (\<lambda>d. thenc (whenc (\<not> IsVerifying (oe_Status d))
        (thenc (update_order (\<lambda>d. d\<lparr>oe_Description := ?m\<rparr>)) (thenc (through_order (VerifyingOrder S)) (ret ())))) (ret err))) R) (\<lambda>_. False)
        (s\<lparr>trans := Some (t\<lparr>tx_Message := ?m\<rparr>)\<rparr>)"
      by (rule wp_mono) (use rest in auto)
    with False assms(4) show ?thesis by (simp add: CashInNAPAS_suspect_def Let_def wp_bindc wp_the_trans wp_updates)
  qed
  then show ?thesis using assms(3,4) assms(5) [of s] by (simp add: CashInNAPAS_amount_def wp_rules)
qed

lemma CashInNAPAS_progress:
  assumes "obliging S" "updates_answered S" "fresh_execution S s" "order_on_file S (rq_BankTransactionId (cnr_OrderRequest request))"
    and "cnr_ErrorCode request = ''200''"
  shows "\<exists>d t. CashInNAPAS S request s = (Ret (Some d, None), t)"
proof -
  have success: "goes (through_order (SuccessOrder S)) (\<lambda>t. order_dto t \<noteq> None) u" if "order_dto u \<noteq> None" for u
    using that unfolding through_order_def wp_bindc wp_the_order
    by (auto simp: wp_rules split: option.split prod.split intro!: fine_wp [OF order_ops_fine(2) [OF assms(1)]])
  have paid: "goes (CashInNAPAS_final S request) (\<lambda>t. order_dto t \<noteq> None) u" if "order_dto u = Some d" "trans u = Some t" for u d t
  proof -
    have "wp (confirm_trans S as_is) (\<lambda>err t. err = None \<and> order_dto t \<noteq> None) (\<lambda>_. False) u"
      by (rule confirm_trans_goes [OF assms(1)]) (use that in auto)
    then have "wp (confirm_trans S as_is) (\<lambda>err. goes (case err of Some e \<Rightarrow> ret (Some e) | None \<Rightarrow> through_order (SuccessOrder S))
        (\<lambda>t. order_dto t \<noteq> None)) (\<lambda>_. False) u"
      by (rule wp_mono) (use success in auto)
    then show ?thesis using assms(5) by (simp add: CashInNAPAS_final_def CashInNAPAS_paid_def wp_bindc)
  qed
  have "goes (run_steps (CashInNAPAS_steps S request) []) (\<lambda>t. order_dto t \<noteq> None) u" for u
    unfolding CashInNAPAS_steps_def
    by (rule CashInNAPAS_lookups_go [OF assms(4)], rule goes_Cons, rule CashInNAPAS_amount_goes [OF assms(1,2)])
      (simp_all, intro goes_Cons goes_Nil, rule wp_mono [OF paid], auto simp: wp_rules)
  then have "\<exists>d t. orchestrate S ''NAPAS CASH IN ACTION'' (CashInNAPAS_steps S request) (fresh_vars None s) = (Ret (Some d, None), t)"
    by (intro orchestrate_goes) (use assms(3) in \<open>simp add: fresh_execution_def\<close>)
  then show ?thesis by (simp add: CashInNAPAS_def bindc_def)
qed

subsection \<open>Properties\<close>

text \<open>The bank reports 40000 for an order of 50000.\<close>

definition example_napas :: CashInNapasRequest where
  "example_napas = \<lparr>cnr_OrderRequest = OrderRequest_zero\<lparr>rq_BankTransactionId := ''O7'', rq_Amount := 40000\<rparr>, cnr_ErrorCode = ''200''\<rparr>"

lemma example_napas_runs: "\<exists>d t. CashInNAPAS example_services example_napas example_state = (Ret (Some d, None), t)"
proof (rule CashInNAPAS_progress)
  show "order_on_file example_services (rq_BankTransactionId (cnr_OrderRequest example_napas))"
    by (simp add: order_on_file_def example_services_def payable_def example_order_def OrderEntity_zero_def status_defs)
  show "updates_answered example_services" by (simp add: updates_answered_def example_services_def)
qed (simp_all add: cooperativeD(1) [OF example_cooperative] example_fresh example_napas_def)

lemma CashInNAPAS_outcome:
  assumes "fresh_execution S s" and "CashInNAPAS S request s = (Ret (p, None), t)"
  shows "\<exists>stored d evs. payable_order S (rq_BankTransactionId (cnr_OrderRequest request)) stored \<and> p = Some d \<and> key (trace t) = key (trace s) @ evs \<and> CashInNAPAS_done S request stored evs d"
proof -
  let ?R = "\<lambda>p t. \<exists>stored d evs. payable_order S (rq_BankTransactionId (cnr_OrderRequest request)) stored \<and> p = Some d \<and> key (trace t) = key (trace s) @ evs \<and> CashInNAPAS_done S request stored evs d"
  have "wp (CashInNAPAS S request) (\<lambda>(p, err) t. err = None \<longrightarrow> ?R p t) (\<lambda>_. True) s"
    by (rule CashInNAPAS_wp [OF assms(1)], erule (1) orchestrate_started_succeeds, rule wp_mono, erule CashInNAPAS_steps_succeed) auto
  from wp_Ret [OF this assms(2)] show ?thesis by simp
qed

text \<open>
  C38: the outcome of a Napas deposit, without an error.  The order is the one that the request names and could still be paid.  When the amount that the bank reports is not
  the amount of the order, the transaction is parked as suspicious and the order is put into verification; then, whether suspicious or not, the
  code 200 confirms the transaction and marks the order as successful, and any other code cancels the transaction, unless it is pending or failed, and fails the
  order, unless it is in verification: these money-relevant calls and no others.
\<close>

theorem CashInNAPAS_settles:
  assumes "fresh_execution S s" and "CashInNAPAS S request s = (Ret (p, None), t)"
  shows "\<exists>stored d evs. payable_order S (rq_BankTransactionId (cnr_OrderRequest request)) stored \<and> p = Some d \<and> key (trace t) = key (trace s) @ evs \<and> CashInNAPAS_done S request stored evs d"
  using assms by (rule CashInNAPAS_outcome)

theorem CashInNAPAS_settles_witness:
  "\<exists>p t stored d evs. CashInNAPAS example_services example_napas example_state = (Ret (p, None), t) \<and> p = Some d \<and>
     key (trace t) = key (trace example_state) @ evs \<and> CashInNAPAS_done example_services example_napas stored evs d"
proof -
  obtain p t where run: "CashInNAPAS example_services example_napas example_state = (Ret (p, None), t)"
    using example_napas_runs by blast
  from CashInNAPAS_settles [OF example_fresh run] run show ?thesis by blast
qed

end
