(* ===== verification/Any_Execution.thy ===== *)
theory Any_Execution
  imports Services
begin

text \<open>
  Runs under an arbitrary execution id, also one that an earlier saga has used: the steps run in order up to the
  first error (\<open>run_forward\<close>), so what a run without an error has done, and what neither the steps nor the
  compensations do, needs no assumption on the id.
\<close>

interpretation any_compensations: saga_compensations sts "\<lambda>_. True" for sts :: "'w st step_def list"
  by unfold_locales simp_all

lemma succeeds_forward: "succeeds (run_steps sts gs) R s \<Longrightarrow> succeeds (run_forward sts) R s"
proof (induction sts arbitrary: gs s)
  case Nil
  then show ?case by (simp add: wp_rules)
next
  case (Cons d sts)
  obtain n f g where d: "d = (n, f, g)" by (cases d)
  from Cons.prems show ?case
    unfolding d wp_run_forward wp_run_steps_Cons by (rule wp_mono) (auto split: option.splits intro: Cons.IH)
qed

lemma orchestrate_any:
  assumes "started p s s'"
    and "\<And>u. started p s u \<Longrightarrow> succeeds (run_steps sts []) (\<lambda>t. \<forall>m. R (order_dto t) (t\<lparr>LogSaga := m\<rparr>)) u"
  shows "wp (orchestrate S name sts) (\<lambda>(d, err) t. err = None \<longrightarrow> R d t) (\<lambda>_. True) s'"
proof -
  have "succeeds (run_forward sts) (\<lambda>t. \<forall>m. R (order_dto t) (t\<lparr>LogSaga := m\<rparr>)) (s'\<lparr>world := w\<rparr>)" for w
    by (rule succeeds_forward, rule assms(2)) (rule started_world [OF assms(1)])
  then have "succeeds (run_saga S name sts) (\<lambda>t. R (order_dto t) t) s'"
    by (intro any_compensations.run_saga_loose) (auto elim: wp_mono)
  then show ?thesis unfolding orchestrate_def wp_bindc by (rule wp_mono) (auto simp: wp_rules)
qed

text \<open>Events that neither the steps nor the compensations make.\<close>

lemma run_saga_none:
  assumes "\<And>n f g. (n, f, g) \<in> set sts \<Longrightarrow> atmost A 0 f \<and> atmost A 0 g"
  shows "wp (run_saga S name sts) (\<lambda>_. adds A 0 s) (adds A 0 s) (s :: 'w st)"
proof -
  have keep: "adds A 0 s t \<Longrightarrow> wp m (\<lambda>_. adds A 0 s) (adds A 0 s) t" if "atmost A 0 m" for m :: "('w st, goerror option) comp" and t
    using that [unfolded atmost_def, rule_format, of t] by (auto elim!: wp_mono dest: adds_trans [of A 0 s t 0])
  have "saga_invariant sts (adds A 0 s)"
    by unfold_locales (use assms keep in \<open>auto simp: adds_def\<close>)
  from saga_invariant.run_saga_keeps [OF this, of s] show ?thesis by (simp add: adds_def)
qed

lemma orchestrate_none:
  assumes "\<And>n f g. (n, f, g) \<in> set sts \<Longrightarrow> atmost A 0 f \<and> atmost A 0 g"
  shows "wp (orchestrate S name sts) (\<lambda>_. adds A 0 s) (adds A 0 s) s"
  unfolding orchestrate_def wp_bindc by (rule wp_mono [OF run_saga_none [OF assms]]) (simp_all add: wp_rules)

text \<open>Events that only the last step makes, and only when it goes well.\<close>

definition on_error :: "('w st \<Rightarrow> bool) \<Rightarrow> goerror option \<Rightarrow> 'w st \<Rightarrow> bool" where
  "on_error P err u \<longleftrightarrow> err = None \<or> P u"

lemma on_error_simps [simp]: "on_error P None u" "on_error P (Some e) u = P u"
  by (simp_all add: on_error_def)

lemma forward_none:
  assumes "\<And>n f g. (n, f, g) \<in> set pre \<Longrightarrow> atmost A 0 f"
    and "\<And>t. adds A 0 s t \<Longrightarrow> wp f (on_error (adds A 0 s)) (adds A 0 s) t"
    and "adds A 0 s t"
  shows "wp (run_forward (pre @ [(n, f, g)])) (on_error (adds A 0 s)) (adds A 0 s) t"
  using assms(1,3)
proof (induction pre arbitrary: t)
  case Nil
  show ?case
    unfolding append_Nil wp_run_forward by (rule wp_mono [OF assms(2) [OF Nil(2)]]) (auto split: option.split)
next
  case (Cons d pre)
  obtain n' f' g' where d: "d = (n', f', g')" by (cases d)
  have "atmost A 0 f'" using Cons.prems(1) d by auto
  then have "wp f' (\<lambda>_. adds A 0 s) (adds A 0 s) t"
    by (rule atmost_wp) (use adds_trans [OF Cons.prems(2)] in force)
  moreover have "wp (run_forward (pre @ [(n, f, g)])) (on_error (adds A 0 s)) (adds A 0 s) u" if "adds A 0 s u" for u
    by (rule Cons.IH) (use Cons.prems(1) that in auto)
  ultimately show ?case
    unfolding d append_Cons wp_run_forward by (elim wp_mono) (auto split: option.split)
qed

lemma orchestrate_last:
  assumes "sts = pre @ [(n, f, g)]" and "\<And>n f g. (n, f, g) \<in> set pre \<Longrightarrow> atmost A 0 f"
    and "\<And>n f g. (n, f, g) \<in> set sts \<Longrightarrow> atmost A 0 g"
    and "\<And>t. adds A 0 s t \<Longrightarrow> wp f (on_error (adds A 0 s)) (adds A 0 s) t"
  shows "wp (orchestrate S name sts) (\<lambda>(p, err). on_error (adds A 0 s) err) (adds A 0 s) s"
proof -
  have "saga_compensations sts (adds A 0 s)"
    by unfold_locales (auto intro!: atmost_wp [OF assms(3)] dest: adds_trans [where i = 0 and j = 0, simplified])
  moreover have "wp (run_forward sts) (\<lambda>err u. if err = None then \<forall>m. on_error (adds A 0 s) None (u\<lparr>LogSaga := m\<rparr>) else adds A 0 s u) (adds A 0 s) (s\<lparr>world := w\<rparr>)" for w
    unfolding assms(1) by (rule wp_mono [OF forward_none [OF assms(2,4)]]) (auto simp: adds_refl)
  ultimately have "wp (run_saga S name sts) (on_error (adds A 0 s)) (adds A 0 s) s"
    by (rule saga_compensations.run_saga_loose [of sts "adds A 0 s"]) auto
  then show ?thesis unfolding orchestrate_def wp_bindc by (rule wp_mono) (auto simp: wp_rules)
qed

text \<open>A step that always ends in an error: what comes after it never happens.\<close>

lemma forward_stopped:
  assumes "\<And>n f g. (n, f, g) \<in> set pre \<Longrightarrow> atmost A 0 f"
    and "\<And>t. adds A 0 s t \<Longrightarrow> wp f (\<lambda>err u. err \<noteq> None \<and> adds A 0 s u) (adds A 0 s) t"
    and "adds A 0 s t"
  shows "wp (run_forward (pre @ (n, f, g) # post)) (\<lambda>err u. err \<noteq> None \<and> adds A 0 s u) (adds A 0 s) t"
  using assms(1,3)
proof (induction pre arbitrary: t)
  case Nil
  show ?case
    unfolding append_Nil wp_run_forward by (rule wp_mono [OF assms(2) [OF Nil(2)]]) (auto split: option.split)
next
  case (Cons d pre)
  obtain n' f' g' where d: "d = (n', f', g')" by (cases d)
  have "atmost A 0 f'" using Cons.prems(1) d by auto
  then have "wp f' (\<lambda>_. adds A 0 s) (adds A 0 s) t"
    by (rule atmost_wp) (use adds_trans [OF Cons.prems(2)] in force)
  moreover have "wp (run_forward (pre @ (n, f, g) # post)) (\<lambda>err u. err \<noteq> None \<and> adds A 0 s u) (adds A 0 s) u" if "adds A 0 s u" for u
    by (rule Cons.IH) (use Cons.prems(1) that in auto)
  ultimately show ?case
    unfolding d append_Cons wp_run_forward by (elim wp_mono) (auto split: option.split)
qed

lemma orchestrate_stopped:
  assumes "sts = pre @ (n, f, g) # post" and "\<And>n f g. (n, f, g) \<in> set pre \<Longrightarrow> atmost A 0 f"
    and "\<And>n f g. (n, f, g) \<in> set sts \<Longrightarrow> atmost A 0 g"
    and "\<And>t. adds A 0 s t \<Longrightarrow> wp f (\<lambda>err u. err \<noteq> None \<and> adds A 0 s u) (adds A 0 s) t"
  shows "wp (orchestrate S name sts) (\<lambda>(p, err) u. err \<noteq> None \<and> adds A 0 s u) (adds A 0 s) s"
proof -
  have "saga_compensations sts (adds A 0 s)"
    by unfold_locales (auto intro!: atmost_wp [OF assms(3)] dest: adds_trans [where i = 0 and j = 0, simplified])
  moreover have "wp (run_forward sts) (\<lambda>err u. if err = None then \<forall>m. None \<noteq> None \<and> adds A 0 s (u\<lparr>LogSaga := m\<rparr>) else adds A 0 s u) (adds A 0 s) (s\<lparr>world := w\<rparr>)" for w
    unfolding assms(1) by (rule wp_mono [OF forward_stopped [OF assms(2,4)]]) (auto simp: adds_refl)
  ultimately have "wp (run_saga S name sts) (\<lambda>err u. err \<noteq> None \<and> adds A 0 s u) (adds A 0 s) s"
    by (rule saga_compensations.run_saga_loose [of sts "adds A 0 s"]) auto
  then show ?thesis unfolding orchestrate_def wp_bindc by (rule wp_mono) (auto simp: wp_rules)
qed

subsection \<open>Steps in front of steps\<close>

lemma wp_run_forward_append:
  "wp (run_forward (xs @ ys)) Q E =
     wp (run_forward xs) (\<lambda>err. case err of None \<Rightarrow> wp (run_forward ys) Q E | Some e \<Rightarrow> Q (Some e)) E"
proof (induction xs)
  case Nil
  then show ?case by (simp add: wp_rules)
next
  case (Cons d xs)
  obtain n f g where d: "d = (n, f, g)" by (cases d)
  show ?case
    unfolding d append_Cons wp_run_forward Cons.IH
    by (rule arg_cong [where f = "\<lambda>F. wp f F E"]) (auto split: option.split)
qed

lemma forward_append_succeeds:
  assumes "succeeds (run_forward xs) (succeeds (run_forward ys) R) s"
  shows "succeeds (run_forward (xs @ ys)) R s"
  unfolding wp_run_forward_append by (rule wp_mono [OF assms]) (auto split: option.split)

lemma forward_Cons_succeeds:
  assumes "succeeds f (succeeds (run_forward sts) R) s"
  shows "succeeds (run_forward ((n, f, g) # sts)) R s"
  unfolding wp_run_forward by (rule wp_mono [OF assms]) (auto split: option.split)

lemma forward_Nil_succeeds: "R s \<Longrightarrow> succeeds (run_forward []) R s"
  by (simp add: wp_run_forward)

lemmas forward_succeeds = forward_append_succeeds forward_Cons_succeeds forward_Nil_succeeds

lemma forward_append_goes:
  assumes "goes (run_forward xs) (goes (run_forward ys) R) s"
  shows "goes (run_forward (xs @ ys)) R s"
  unfolding wp_run_forward_append by (rule wp_mono [OF assms]) auto

lemma forward_Cons_goes:
  assumes "goes f (goes (run_forward sts) R) s"
  shows "goes (run_forward ((n, f, g) # sts)) R s"
  unfolding wp_run_forward by (rule wp_mono [OF assms]) auto

lemma forward_Nil_goes: "R s \<Longrightarrow> goes (run_forward []) R s"
  by (simp add: wp_run_forward)

lemmas forward_goes = forward_append_goes forward_Cons_goes forward_Nil_goes

lemma orchestrate_forward:
  assumes "\<And>w. succeeds (run_forward sts) (\<lambda>t. \<forall>m. R (order_dto t) (t\<lparr>LogSaga := m\<rparr>)) (s\<lparr>world := w\<rparr>)"
  shows "wp (orchestrate S name sts) (\<lambda>(d, err) t. err = None \<longrightarrow> R d t) (\<lambda>_. True) s"
proof -
  have "succeeds (run_saga S name sts) (\<lambda>t. R (order_dto t) t) s"
    using assms by (intro any_compensations.run_saga_loose) (auto elim: wp_mono)
  then show ?thesis unfolding orchestrate_def wp_bindc by (rule wp_mono) (auto simp: wp_rules)
qed

text \<open>When every step goes well no compensation runs, so the execution id does not matter.\<close>

interpretation no_compensations: saga_compensations sts "\<lambda>_. False" for sts :: "'w st step_def list"
  by unfold_locales simp_all

lemma orchestrate_forward_goes:
  assumes "\<And>w. goes (run_forward sts) (\<lambda>t. \<forall>m. R (order_dto t) (t\<lparr>LogSaga := m\<rparr>)) (s\<lparr>world := w\<rparr>)"
  shows "wp (orchestrate S name sts) (\<lambda>(d, err) t. err = None \<and> R d t) (\<lambda>_. False) s"
proof -
  have "goes (run_saga S name sts) (\<lambda>t. R (order_dto t) t) s"
    by (rule no_compensations.run_saga_loose) (rule wp_mono [OF assms], auto)
  then show ?thesis unfolding orchestrate_def wp_bindc by (rule wp_mono) (auto simp: wp_rules)
qed

lemma orchestrate_forward_ends:
  assumes "\<And>w. goes (run_forward sts) (\<lambda>t. order_dto t \<noteq> None) (s\<lparr>world := w\<rparr>)"
  shows "\<exists>d t. orchestrate S name sts s = (Ret (Some d, None), t)"
proof -
  have "wp (orchestrate S name sts) (\<lambda>(p, err) _. err = None \<and> p \<noteq> None) (\<lambda>_. False) s"
    by (rule wp_mono [OF orchestrate_forward_goes [where R = "\<lambda>p _. p \<noteq> None"]]) (use assms in auto)
  then show ?thesis by (auto simp: wp_def split: prod.splits outcome.splits)
qed

subsection \<open>Nothing of a kind before something else has happened\<close>

text \<open>\<open>only_after A B s t\<close>: the run from \<open>s\<close> to \<open>t\<close> has no event with \<open>A\<close>, unless it has one with \<open>B\<close>.\<close>

definition only_after :: "(event \<Rightarrow> bool) \<Rightarrow> (event \<Rightarrow> bool) \<Rightarrow> 'w st \<Rightarrow> 'w st \<Rightarrow> bool" where
  "only_after A B s t \<longleftrightarrow> adds A 0 s t \<or> meets B s t"

lemma only_after_refl: "trace t = trace s \<Longrightarrow> only_after A B s t"
  by (simp add: only_after_def adds_refl)

lemma only_after_quiet: "only_after A B s t \<Longrightarrow> adds A 0 t u \<Longrightarrow> only_after A B s u"
  unfolding only_after_def
  by (auto dest: adds_trans [where i = 0 and j = 0, simplified]) (auto simp: meets_def adds_def)

lemma meets_adds: "meets B s t \<Longrightarrow> adds A n t u \<Longrightarrow> meets B s u"
  by (auto simp: meets_def adds_def)

lemma only_after_wp: "atmost A 0 m \<Longrightarrow> only_after A B s t \<Longrightarrow> wp m (\<lambda>_. only_after A B s) (only_after A B s) t"
  by (erule atmost_wp) (rule only_after_quiet)

lemma meets_wp: "atmost (\<lambda>_. False) 0 m \<Longrightarrow> meets B s t \<Longrightarrow> wp m (\<lambda>_. meets B s) (meets B s) t"
  by (erule atmost_wp) (rule meets_adds)

lemma forward_meets:
  assumes "\<And>n f g. (n, f, g) \<in> set sts \<Longrightarrow> atmost (\<lambda>_. False) 0 f" "meets B s t"
  shows "wp (run_forward sts) (\<lambda>_. meets B s) (meets B s) t"
  using assms
proof (induction sts arbitrary: t)
  case Nil
  then show ?case by (simp add: wp_run_forward)
next
  case (Cons d sts)
  obtain n f g where d: "d = (n, f, g)" by (cases d)
  have "wp f (\<lambda>_. meets B s) (meets B s) t" by (rule meets_wp) (use Cons.prems d in auto)
  moreover have "wp (run_forward sts) (\<lambda>_. meets B s) (meets B s) u" if "meets B s u" for u
    by (rule Cons.IH) (use Cons.prems(1) that in auto)
  ultimately show ?case unfolding d wp_run_forward by (elim wp_mono) (auto split: option.split)
qed

lemma forward_only_after:
  assumes "\<And>n f g. (n, f, g) \<in> set pre \<Longrightarrow> atmost A 0 f"
    and "\<And>t. only_after A B s t \<Longrightarrow> wp f (\<lambda>err u. if err = None then meets B s u else only_after A B s u) (only_after A B s) t"
    and "\<And>n f g. (n, f, g) \<in> set post \<Longrightarrow> atmost (\<lambda>_. False) 0 f"
    and "only_after A B s t"
  shows "wp (run_forward (pre @ (n, f, g) # post)) (\<lambda>_. only_after A B s) (only_after A B s) t"
  using assms(1,4)
proof (induction pre arbitrary: t)
  case Nil
  have rest: "wp (run_forward post) (\<lambda>_. only_after A B s) (only_after A B s) u" if "meets B s u" for u
    by (rule wp_mono [OF forward_meets [OF assms(3) that]]) (simp_all add: only_after_def)
  show ?case
    unfolding append_Nil wp_run_forward by (rule wp_mono [OF assms(2) [OF Nil(2)]]) (auto split: option.splits intro: rest)
next
  case (Cons d pre)
  obtain n' f' g' where d: "d = (n', f', g')" by (cases d)
  have "wp f' (\<lambda>_. only_after A B s) (only_after A B s) t"
    by (rule only_after_wp) (use Cons.prems d in auto)
  moreover have "wp (run_forward (pre @ (n, f, g) # post)) (\<lambda>_. only_after A B s) (only_after A B s) u" if "only_after A B s u" for u
    by (rule Cons.IH) (use Cons.prems(1) that in auto)
  ultimately show ?case
    unfolding d append_Cons wp_run_forward by (elim wp_mono) (auto split: option.split)
qed

lemma orchestrate_only_after:
  assumes "sts = pre @ (n, f, g) # post" and "\<And>n f g. (n, f, g) \<in> set pre \<Longrightarrow> atmost A 0 f"
    and "\<And>n f g. (n, f, g) \<in> set post \<Longrightarrow> atmost (\<lambda>_. False) 0 f"
    and "\<And>n f g. (n, f, g) \<in> set sts \<Longrightarrow> atmost A 0 g"
    and "\<And>t. only_after A B s t \<Longrightarrow> wp f (\<lambda>err u. if err = None then meets B s u else only_after A B s u) (only_after A B s) t"
    and "only_after A B s s'"
  shows "wp (orchestrate S name sts) (\<lambda>_. only_after A B s) (only_after A B s) s'"
proof -
  have upd: "only_after A B s (t\<lparr>LogSaga := m\<rparr>) = only_after A B s t" "only_after A B s (t\<lparr>world := w\<rparr>) = only_after A B s t" for t m w
    by (simp_all add: only_after_def meets_def adds_def)
  have "saga_compensations sts (only_after A B s)"
    by unfold_locales (auto simp: upd intro!: atmost_wp [OF assms(4)] intro: only_after_quiet)
  moreover have "wp (run_forward sts) (\<lambda>err u. if err = None then \<forall>m. only_after A B s (u\<lparr>LogSaga := m\<rparr>) else only_after A B s u)
      (only_after A B s) (s'\<lparr>world := w\<rparr>)" for w
    unfolding assms(1) by (rule wp_mono [OF forward_only_after [OF assms(2,5,3)]]) (auto simp: upd assms(6))
  ultimately have "wp (run_saga S name sts) (\<lambda>_. only_after A B s) (only_after A B s) s'"
    by (rule saga_compensations.run_saga_loose [of sts "only_after A B s"]) auto
  then show ?thesis unfolding orchestrate_def wp_bindc by (rule wp_mono) (auto simp: wp_rules)
qed

subsection \<open>Straight-line code over the order\<close>

text \<open>The order in hand and the money-relevant calls since \<open>s\<close>.\<close>

definition stands :: "'w st \<Rightarrow> OrderEntity \<Rightarrow> event list \<Rightarrow> 'w st \<Rightarrow> bool" where
  "stands s d evs t \<longleftrightarrow> order_dto t = Some d \<and> key (trace t) = key (trace s) @ evs"

lemma stands_start: "order_dto s = Some d \<Longrightarrow> stands s d [] s"
  by (simp add: stands_def)

lemma stands_the_order: "stands s d evs t \<Longrightarrow> Q d t \<Longrightarrow> wp the_order Q E t"
  by (simp add: stands_def wp_the_order)

lemma stands_update:
  "stands s d evs t \<Longrightarrow> (\<And>t'. stands s (f d) evs t' \<Longrightarrow> Q () t') \<Longrightarrow> wp (update_order f) Q E t"
  by (simp add: stands_def wp_updates)

lemma stands_ask:
  "stands s d evs t \<Longrightarrow> (\<And>w t'. stands s d evs t' \<Longrightarrow> Q (fst (f w)) t') \<Longrightarrow> wp (ask f) Q E t"
  by (auto simp: stands_def wp_ask) (metis fst_conv st.select_convs(2,5) st.surjective st.update_convs(1))

lemma stands_act:
  assumes "stands s d evs t" "\<And>x. is_key (ev x)" "\<And>w t'. stands s d (evs @ [ev (fst (f w))]) t' \<Longrightarrow> Q (fst (f w)) t'"
  shows "wp (act f ev) Q E t"
  unfolding wp_act
proof (intro allI impI)
  fix a w assume "f (world t) = (a, w)"
  with assms(3) [of "world t" "t\<lparr>world := w, trace := trace t @ [ev a]\<rparr>"] assms(1,2)
  show "Q a (t\<lparr>world := w, trace := trace t @ [ev a]\<rparr>)" by (simp add: stands_def)
qed

lemma stands_emit: "stands s d evs t \<Longrightarrow> \<not> is_key e \<Longrightarrow> (\<And>t'. stands s d evs t' \<Longrightarrow> Q () t') \<Longrightarrow> wp (emit e) Q E t"
  by (simp add: stands_def wp_emit)

lemma stands_does:
  assumes "does m P" "stands s d evs t" "\<And>a es t'. P (Some a) es \<Longrightarrow> stands s d (evs @ es) t' \<Longrightarrow> Q a t'"
    "\<And>es t'. P None es \<Longrightarrow> stands s d (evs @ es) t' \<Longrightarrow> E t'"
  shows "wp m Q E t"
  by (rule does_wp [OF assms(1)]) (use assms(2-) in \<open>auto simp: stands_def simp del: filter_filter\<close>)

lemma stands_write:
  assumes "\<And>d. does (Op d) (status_write st d)" "stands s d evs t"
    and "\<And>d' f e x t'. restamped st d d' \<Longrightarrow> stands s d' (evs @ [EvReplaceOrder f d' x]) t' \<Longrightarrow> Q (snd (replaced d' e x)) t'"
  shows "wp (through_order Op) Q E t"
  by (rule wp_through_order [OF assms(1)]) (use assms(2,3) in \<open>auto simp: stands_def simp del: filter_filter\<close>)

end
