(* ===== verification/Merchant.thy ===== *)
theory Merchant
  imports Any_Execution
begin

text \<open>
  Payments inside the wallet, without a bank or a provider: an operator puts money into a merchant's
  wallet (\<open>application/deposit_merchant.go\<close>) or takes it out (\<open>cashout_merchant.go\<close>), and a transfer
  between wallets (\<open>transfer_wallet_gpay.go\<close>).  They have the same shape, the contract
  \<open>wallet_payment\<close>: store the order, mark it as processing, open the payment, confirm it, mark the order as
  successful.  What a run without an error has done needs no assumption on the execution id.
\<close>

subsection \<open>DepositMerchant\<close>

record DepositMerchantRequest =
  dmr_Message :: string
  dmr_MerchantAccountType :: string
  dmr_BankAccountType :: string
  dmr_AdminId :: string
  dmr_OrderRequest :: OrderRequest

definition DepositMerchant_order :: "DepositMerchantRequest \<Rightarrow> OrderEntity" where
  "DepositMerchant_order request = OrderEntity_zero\<lparr>
     oe_ServiceID := TRANSTYPE_WALLET_CASH_IN_MC, oe_ServiceType := SERVICE_TYPE_WALLET,
     oe_OrderType := TRANSTYPE_WALLET_CASH_IN_MC, oe_Amount := rq_Amount (dmr_OrderRequest request),
     oe_SourceOfFund := SOURCE_OF_FUND_BALANCE_WALLET\<rparr>"

definition DepositMerchant_payment :: "DepositMerchantRequest \<Rightarrow> OrderEntity \<Rightarrow> ETransactionDTO" where
  "DepositMerchant_payment request d = (let r = dmr_OrderRequest request in ETransactionDTO_zero\<lparr>
     tx_TransactionType := TRANSTYPE_WALLET_CASH_IN_MC, tx_ServiceType := SERVICE_TYPE_WALLET,
     tx_Amount := rq_Amount r, tx_LastAmount := rq_Amount r, tx_TypeWallet := AmountCash,
     tx_SourceOfFund := SOURCE_OF_FUND_BALANCE_WALLET, tx_GpayAccountID := GPAY_ACCOUNT_ID,
     tx_GpayTypeWallet := AmountWal, tx_OrderId := oe_OrderID d, tx_Message := dmr_Message request,
     tx_MerchantTypeWallet := dmr_MerchantAccountType request, tx_BankCode := rq_BankCode r,
     tx_AdminId := dmr_AdminId request, tx_BankTypeWallet := dmr_BankAccountType request,
     tx_MerchantID := rq_MerchantID r\<rparr>)"

definition DepositMerchant_init_payment :: "'w services \<Rightarrow> DepositMerchantRequest \<Rightarrow> ('w st, goerror option) comp" where
  "DepositMerchant_init_payment S request = bindc the_order (\<lambda>d. init_trans S True (DepositMerchant_payment request d))"

definition DepositMerchant_steps :: "'w services \<Rightarrow> DepositMerchantRequest \<Rightarrow> 'w st step_def list" where
  "DepositMerchant_steps S request =
     [(''INIT_ORDER'', init_order S (DepositMerchant_order request), comp_order S),
      (''PROCESSING_ORDER'', assign_order (ProcessingOrder S), comp_order S),
      (''INIT_PAYMENT'', DepositMerchant_init_payment S request, comp_init_payment S with_reason order_as_is),
      (''FINALIZATION_PAYMENT'', confirm_trans S as_is, comp_pending S True as_is),
      (''SUCCESS_ORDER'', assign_order (SuccessOrder S), comp_pending S False as_is)]"

definition DepositMerchant :: "'w services \<Rightarrow> DepositMerchantRequest \<Rightarrow> ('w st, OrderEntity option \<times> goerror option) comp" where
  "DepositMerchant S request =
     thenc (modify (fresh_vars None)) (orchestrate S ''Deposit Merchant'' (DepositMerchant_steps S request))"

subsection \<open>WithdrawMerchant\<close>

record WithrawMerchantRequest =
  wmr_Message :: string
  wmr_MerchantAccountType :: string
  wmr_BankAccountType :: string
  wmr_AdminId :: string
  wmr_OrderRequest :: OrderRequest

definition WithdrawMerchant_order :: "WithrawMerchantRequest \<Rightarrow> OrderEntity" where
  "WithdrawMerchant_order request = OrderEntity_zero\<lparr>
     oe_ServiceID := TRANSTYPE_WALLET_CASH_OUT_MC, oe_ServiceType := SERVICE_TYPE_WALLET,
     oe_OrderType := TRANSTYPE_WALLET_CASH_OUT_MC, oe_Amount := rq_Amount (wmr_OrderRequest request),
     oe_SourceOfFund := SOURCE_OF_FUND_BALANCE_WALLET\<rparr>"

definition WithdrawMerchant_payment :: "WithrawMerchantRequest \<Rightarrow> OrderEntity \<Rightarrow> ETransactionDTO" where
  "WithdrawMerchant_payment request d = (let r = wmr_OrderRequest request in ETransactionDTO_zero\<lparr>
     tx_TransactionType := TRANSTYPE_WALLET_CASH_OUT_MC, tx_ServiceType := SERVICE_TYPE_WALLET,
     tx_Amount := rq_Amount r, tx_LastAmount := rq_Amount r, tx_TypeWallet := AmountCash,
     tx_SourceOfFund := SOURCE_OF_FUND_BALANCE_WALLET, tx_GpayAccountID := GPAY_ACCOUNT_ID,
     tx_GpayTypeWallet := AmountWal, tx_OrderId := oe_OrderID d, tx_Message := wmr_Message request,
     tx_MerchantTypeWallet := AmountCash, tx_BankCode := rq_BankCode r,
     tx_AdminId := wmr_AdminId request, tx_BankTypeWallet := wmr_BankAccountType request,
     tx_MerchantID := rq_MerchantID r\<rparr>)"

text \<open>The error of the transaction service is replaced by its message.\<close>

definition WithdrawMerchant_init_payment :: "'w services \<Rightarrow> WithrawMerchantRequest \<Rightarrow> ('w st, goerror option) comp" where
  "WithdrawMerchant_init_payment S request =
     bindc the_order (\<lambda>d.
     bindc (init_trans S False (WithdrawMerchant_payment request d)) (\<lambda>err. case err of
       None \<Rightarrow> ret None
     | Some e \<Rightarrow> thenc (set_failReason (GetGrpcErrMessage S e)) (ret (Some (ErrorString (GetGrpcErrMessage S e))))))"

definition WithdrawMerchant_steps :: "'w services \<Rightarrow> WithrawMerchantRequest \<Rightarrow> 'w st step_def list" where
  "WithdrawMerchant_steps S request =
     [(''INIT_ORDER'', init_order S (WithdrawMerchant_order request), comp_order S),
      (''PROCESSING_ORDER'', assign_order (ProcessingOrder S), comp_order S),
      (''INIT_PAYMENT'', WithdrawMerchant_init_payment S request, comp_init_payment S with_reason internal_err),
      (''FINALIZATION_PAYMENT'', confirm_trans S as_is, comp_pending S True as_is),
      (''SUCCESS_ORDER'', assign_order (SuccessOrder S), comp_pending S False as_is)]"

definition WithdrawMerchant :: "'w services \<Rightarrow> WithrawMerchantRequest \<Rightarrow> ('w st, OrderEntity option \<times> goerror option) comp" where
  "WithdrawMerchant S request =
     thenc (modify (fresh_vars None)) (orchestrate S ''Withdraw Merchant'' (WithdrawMerchant_steps S request))"

subsection \<open>TransferGpayWallet\<close>

definition TransferGpayWallet_order :: "OrderRequest \<Rightarrow> OrderEntity" where
  "TransferGpayWallet_order r = OrderEntity_zero\<lparr>
     oe_UserID := rq_UserID r, oe_SubscribeMerchantID := rq_MerchantID r, oe_OrderType := rq_TransType r,
     oe_Amount := rq_Amount r, oe_SourceOfFund := SOURCE_OF_FUND_BALANCE_WALLET, oe_BankCode := rq_BankCode r,
     oe_ToUserID := rq_ToUserID r, oe_Description := rq_Description r, oe_ServiceCode := TRANSTYPE_WALLET_TRANSFER,
     oe_ServiceType := rq_ServiceType r\<rparr>"

definition TransferGpayWallet_payment :: "OrderRequest \<Rightarrow> ETransactionDTO" where
  "TransferGpayWallet_payment r = ETransactionDTO_zero\<lparr>
     tx_TransactionType := rq_TransType r, tx_SubTransactionType := rq_SubTransType r,
     tx_SourceOfFund := rq_SourceOfFund r, tx_ServiceType := SERVICE_TYPE_WALLET, tx_PayerId := rq_UserID r,
     tx_PayeeId := rq_ToUserID r, tx_Message := rq_Message r, tx_Amount := rq_Amount r,
     tx_AppId := rq_ServiceCode r, tx_MerchantID := rq_MerchantID r, tx_RefId := rq_RefID r\<rparr>"

definition TransferGpayWallet_init_payment :: "'w services \<Rightarrow> OrderRequest \<Rightarrow> ('w st, goerror option) comp" where
  "TransferGpayWallet_init_payment S r = link_order (init_trans S True (TransferGpayWallet_payment r))"

definition comp_verify :: "'w services \<Rightarrow> ('w st, goerror option) comp" where
  "comp_verify S = thenc (verify_order_unless S) (ret None)"

definition TransferGpayWallet_steps :: "'w services \<Rightarrow> OrderRequest \<Rightarrow> 'w st step_def list" where
  "TransferGpayWallet_steps S r =
     [(''INIT_ORDER'', init_order S (TransferGpayWallet_order r), ret None),
      (''PROCESSING_ORDER'', assign_order (ProcessingOrder S), comp_order S),
      (''INIT_PAYMENT'', TransferGpayWallet_init_payment S r, comp_init_payment S with_reason internal_err),
      (''FINALIZATION_PAYMENT'', confirm_trans S as_is, comp_pending S False as_is),
      (''SUCCESS_ORDER'', success_order S, comp_verify S)]"

text \<open>The response, in the state, holds the order; the function returns only the error.\<close>

definition TransferGpayWallet :: "'w services \<Rightarrow> OrderRequest \<Rightarrow> ('w st, goerror option) comp" where
  "TransferGpayWallet S r =
     thenc (modify (fresh_vars None))
       (bindc (orchestrate S ''TransferGpayWallet'' (TransferGpayWallet_steps S r)) (\<lambda>(_, err). ret err))"

subsection \<open>The contract\<close>

text \<open>The calls of a payment inside the wallet: \<open>link\<close> is what the step that opens it notes in the order.\<close>

text \<open>\<open>stamp\<close> is what the last step writes into the order from the confirmed payment.\<close>

definition payment_noted ::
    "OrderEntity \<Rightarrow> (OrderEntity \<Rightarrow> ETransactionDTO) \<Rightarrow> (ETransactionDTO \<Rightarrow> OrderEntity \<Rightarrow> OrderEntity) \<Rightarrow>
     (ETransactionDTO \<Rightarrow> OrderEntity \<Rightarrow> OrderEntity) \<Rightarrow> event list \<Rightarrow> OrderEntity \<Rightarrow> bool" where
  "payment_noted order0 pay link stamp evs d \<longleftrightarrow> (\<exists>d0 d1 f1 n1 q t c f2 n2.
     evs = [EvInsertOrder d0 None, EvReplaceOrder f1 d1 (Inr (Suc n1)), EvInit q (Inr t), EvConfirm t (Inr c), EvReplaceOrder f2 d (Inr (Suc n2))] \<and>
     (\<exists>now oid. d0 = initial_order order0 now oid) \<and> restamped ORDER_PROCESSING d0 d1 \<and>
     restamped ORDER_SUCCESS (stamp c (link t d1)) d \<and> init_request (pay d1) q)"

abbreviation (input) unlinked :: "ETransactionDTO \<Rightarrow> OrderEntity \<Rightarrow> OrderEntity" where
  "unlinked t d \<equiv> d"

abbreviation (input) linked :: "ETransactionDTO \<Rightarrow> OrderEntity \<Rightarrow> OrderEntity" where
  "linked t d \<equiv> d\<lparr>oe_TransactionID := tx_TransactionId t\<rparr>"

abbreviation payment_done ::
    "OrderEntity \<Rightarrow> (OrderEntity \<Rightarrow> ETransactionDTO) \<Rightarrow> (ETransactionDTO \<Rightarrow> OrderEntity \<Rightarrow> OrderEntity) \<Rightarrow> event list \<Rightarrow> OrderEntity \<Rightarrow> bool" where
  "payment_done order0 pay link \<equiv> payment_noted order0 pay link unlinked"

locale wallet_payment =
  fixes S :: "'w services" and order0 :: OrderEntity and pay :: "OrderEntity \<Rightarrow> ETransactionDTO"
    and link stamp :: "ETransactionDTO \<Rightarrow> OrderEntity \<Rightarrow> OrderEntity" and init fin :: "('w st, goerror option) comp"
  assumes init_opens: "(\<And>d q t w es. order_dto s = Some d \<Longrightarrow> init_request (pay d) q \<Longrightarrow> key es = [EvInit q (Inr t)] \<Longrightarrow>
      R ((appended s w es)\<lparr>trans := Some t, order_dto := Some (link t d)\<rparr>)) \<Longrightarrow> succeeds init R s"
    and fin_succeeds: "trans s = Some c \<Longrightarrow> (\<And>d d' f n w es m. order_dto s = Some d \<Longrightarrow> key es = [EvReplaceOrder f d' (Inr (Suc n))] \<Longrightarrow>
      restamped ORDER_SUCCESS (stamp c d) d' \<Longrightarrow> R ((appended s w es)\<lparr>order_dto := Some d', resp_OrderEntity := m\<rparr>)) \<Longrightarrow> succeeds fin R s"
    and init_goes: "obliging S \<Longrightarrow> order_dto s \<noteq> None \<Longrightarrow>
      (\<And>d t w es. R ((appended s w es)\<lparr>trans := Some t, order_dto := Some d\<rparr>)) \<Longrightarrow> goes init R s"
    and fin_goes: "obliging S \<Longrightarrow> order_dto s \<noteq> None \<Longrightarrow> trans s \<noteq> None \<Longrightarrow>
      (\<And>d w es m. R ((appended s w es)\<lparr>order_dto := Some d, resp_OrderEntity := m\<rparr>)) \<Longrightarrow> goes fin R s"
begin

lemma completes_wp:
  assumes "sts = [(n1, init_order S order0, g1), (n2, assign_order (ProcessingOrder S), g2), (n3, init, g3),
      (n4, confirm_trans S as_is, g4), (n5, fin, g5)]"
  shows "wp (orchestrate S name sts) (\<lambda>(p, err) t. err = None \<longrightarrow>
     (\<exists>d evs. p = Some d \<and> key (trace t) = key (trace s) @ evs \<and> payment_noted order0 pay link stamp evs d)) (\<lambda>_. True) (fresh_vars old s)"
proof -
  let ?R = "\<lambda>p t. \<exists>d evs. p = Some d \<and> key (trace t) = key (trace s) @ evs \<and> payment_noted order0 pay link stamp evs d"
  have "succeeds (run_steps sts []) (\<lambda>t. \<forall>m. ?R (order_dto t) (t\<lparr>LogSaga := m\<rparr>)) u" if "started old s u" for u
    unfolding assms(1)
    by (intro succeeds_Cons succeeds_Nil init_order_succeeds assign_order_succeeds [OF ProcessingOrder_does]
        init_opens confirm_trans_succeeds fin_succeeds)
      (use that in \<open>auto simp: payment_noted_def started_sel\<close>)
  from orchestrate_any [OF started_refl this] show ?thesis .
qed

lemma completes:
  assumes "sts = [(n1, init_order S order0, g1), (n2, assign_order (ProcessingOrder S), g2), (n3, init, g3),
      (n4, confirm_trans S as_is, g4), (n5, fin, g5)]"
    and "orchestrate S name sts (fresh_vars old s) = (Ret (p, None), t)"
  shows "\<exists>d evs. p = Some d \<and> key (trace t) = key (trace s) @ evs \<and> payment_noted order0 pay link stamp evs d"
  using wp_Ret [OF completes_wp [OF assms(1)] assms(2)] by simp

lemma progress:
  assumes "sts = [(n1, init_order S order0, g1), (n2, assign_order (ProcessingOrder S), g2), (n3, init, g3),
      (n4, confirm_trans S as_is, g4), (n5, fin, g5)]"
    and "cooperative S" "fresh_execution S s" "oe_LuckyMoneyID order0 = []"
  shows "\<exists>d t. orchestrate S name sts (fresh_vars old s) = (Ret (Some d, None), t)"
proof (rule orchestrate_goes)
  show "goes (run_steps sts []) (\<lambda>t. order_dto t \<noteq> None) ((fresh_vars old s)\<lparr>world := w\<rparr>)" for w
    unfolding assms(1)
    by (intro goes_Cons goes_Nil init_order_goes assign_order_goes [OF order_ops_fine(1)] init_goes confirm_trans_goes
        fin_goes assms(4) cooperativeD(1) [OF assms(2)]) simp_all
qed (simp add: assms(3))

end

lemma silent_success_succeeds:
  assumes "\<And>d d' f n w es m. order_dto s = Some d \<Longrightarrow> key es = [EvReplaceOrder f d' (Inr (Suc n))] \<Longrightarrow>
      restamped ORDER_SUCCESS d d' \<Longrightarrow> R ((appended s w es)\<lparr>order_dto := Some d', resp_OrderEntity := m\<rparr>)"
  shows "succeeds (assign_order (SuccessOrder S)) R s" "succeeds (success_order S) R s"
proof -
  have "R ((appended s w es)\<lparr>order_dto := Some d'\<rparr>)"
    if "order_dto s = Some d" "key es = [EvReplaceOrder f d' (Inr (Suc n))]" "restamped ORDER_SUCCESS d d'" for d d' f n w es
    using assms [OF that, where w = w and m = "resp_OrderEntity s"] by (simp add: appended_def)
  then show "succeeds (assign_order (SuccessOrder S)) R s" by (intro assign_order_succeeds [OF SuccessOrder_does])
qed (auto intro!: success_order_succeeds assms)

lemma silent_success_goes:
  assumes "obliging S" "order_dto s \<noteq> None" "\<And>d w es m. R ((appended s w es)\<lparr>order_dto := Some d, resp_OrderEntity := m\<rparr>)"
  shows "goes (assign_order (SuccessOrder S)) R s" "goes (success_order S) R s"
proof -
  have "R ((appended s w es)\<lparr>order_dto := Some d\<rparr>)" for d w es
    using assms(3) [where w = w and es = es and d = d and m = "resp_OrderEntity s"] by (simp add: appended_def)
  then show "goes (assign_order (SuccessOrder S)) R s" by (intro assign_order_goes [OF order_ops_fine(2)] assms)
qed (intro success_order_goes assms)

lemma unlinked_eq: "order_dto s = Some d \<Longrightarrow> (appended s w es)\<lparr>trans := t, order_dto := Some d\<rparr> = (appended s w es)\<lparr>trans := t\<rparr>"
  by (rule st.equality) simp_all

text \<open>An error that is replaced by its message is still an error.\<close>

lemma reworded_succeeds:
  assumes "succeeds m R s"
  shows "succeeds (bindc m (\<lambda>err. case err of None \<Rightarrow> ret None
     | Some e \<Rightarrow> thenc (set_failReason (f e)) (ret (Some (g e))))) R s"
  unfolding wp_bindc by (rule wp_mono [OF assms]) (auto simp: wp_rules split: option.split)

lemma reworded_goes:
  assumes "goes m R s"
  shows "goes (bindc m (\<lambda>err. case err of None \<Rightarrow> ret None
     | Some e \<Rightarrow> thenc (set_failReason (f e)) (ret (Some (g e))))) R s"
  unfolding wp_bindc by (rule wp_mono [OF assms]) (auto simp: wp_rules split: option.split)

interpretation deposit_merchant: wallet_payment S "DepositMerchant_order request" "DepositMerchant_payment request" unlinked unlinked
    "DepositMerchant_init_payment S request" "assign_order (SuccessOrder S)"
  for S :: "'w services" and request
proof (unfold_locales, goal_cases)
  case (1 s R)
  then show ?case
    unfolding DepositMerchant_init_payment_def wp_bindc wp_the_order
    by (auto split: option.split simp: unlinked_eq intro!: init_trans_succeeds)
next
  case (3 s R)
  have "R ((appended s w es)\<lparr>trans := Some t\<rparr>)" for w es t
    using 3(3) [where w = w and es = es and t = t] 3(2) by (metis option.exhaust unlinked_eq)
  with 3(1,2) show ?case
    unfolding DepositMerchant_init_payment_def wp_bindc wp_the_order
    by (auto split: option.split intro!: init_trans_goes)
qed (auto intro: silent_success_succeeds silent_success_goes)

interpretation withdraw_merchant: wallet_payment S "WithdrawMerchant_order request" "WithdrawMerchant_payment request" unlinked unlinked
    "WithdrawMerchant_init_payment S request" "assign_order (SuccessOrder S)"
  for S :: "'w services" and request
proof (unfold_locales, goal_cases)
  case (1 s R)
  then show ?case
    unfolding WithdrawMerchant_init_payment_def wp_bindc [of the_order] wp_the_order
    by (auto split: option.split simp: unlinked_eq intro!: reworded_succeeds init_trans_succeeds)
next
  case (3 s R)
  have "R ((appended s w es)\<lparr>trans := Some t\<rparr>)" for w es t
    using 3(3) [where w = w and es = es and t = t] 3(2) by (metis option.exhaust unlinked_eq)
  with 3(1,2) show ?case
    unfolding WithdrawMerchant_init_payment_def wp_bindc [of the_order] wp_the_order
    by (auto split: option.split intro!: reworded_goes init_trans_goes)
qed (auto intro: silent_success_succeeds silent_success_goes)

interpretation transfer_wallet: wallet_payment S "TransferGpayWallet_order r" "\<lambda>_. TransferGpayWallet_payment r" linked unlinked
    "TransferGpayWallet_init_payment S r" "success_order S"
  for S :: "'w services" and r
proof (unfold_locales, goal_cases)
  case (1 s R)
  show ?case
    unfolding TransferGpayWallet_init_payment_def
    by (rule link_order_succeeds) (auto intro!: init_trans_succeeds 1)
next
  case (3 s R)
  then show ?case
    unfolding TransferGpayWallet_init_payment_def
    by (intro link_order_goes init_trans_goes) auto
qed (auto intro: silent_success_succeeds silent_success_goes)

subsection \<open>Properties\<close>

lemma in_orchestrate: "thenc (modify f) m s = m (f s)"
  by (simp add: bindc_def modify_def)

definition example_merchant :: DepositMerchantRequest where
  "example_merchant = \<lparr>dmr_Message = ''top up'', dmr_MerchantAccountType = ''amount_cash'', dmr_BankAccountType = ''amount'',
     dmr_AdminId = ''A1'', dmr_OrderRequest = example_request\<rparr>"

definition example_withdraw :: WithrawMerchantRequest where
  "example_withdraw = \<lparr>wmr_Message = ''payout'', wmr_MerchantAccountType = ''amount_cash'', wmr_BankAccountType = ''amount'',
     wmr_AdminId = ''A1'', wmr_OrderRequest = example_request\<rparr>"

text \<open>
  Whatever execution id is drawn, a deposit to a merchant without an error has stored the order,
  marked it as processing, opened the payment for the amount, merchant and administrator of the request, confirmed this
  payment and marked the order as successful: these money-relevant calls, in this order, and no others.
\<close>

theorem DepositMerchant_completes:
  assumes "DepositMerchant S request s = (Ret (p, None), t)"
  shows "\<exists>d evs. p = Some d \<and> key (trace t) = key (trace s) @ evs \<and>
     payment_done (DepositMerchant_order request) (DepositMerchant_payment request) unlinked evs d"
  using assms unfolding DepositMerchant_def in_orchestrate
  by (rule deposit_merchant.completes [OF DepositMerchant_steps_def])

theorem DepositMerchant_completes_witness:
  "\<exists>p t d evs. DepositMerchant example_services example_merchant example_state = (Ret (p, None), t) \<and> p = Some d \<and>
     key (trace t) = key (trace example_state) @ evs \<and>
     payment_done (DepositMerchant_order example_merchant) (DepositMerchant_payment example_merchant) unlinked evs d"
proof -
  obtain p t where run: "DepositMerchant example_services example_merchant example_state = (Ret (p, None), t)"
    using deposit_merchant.progress [OF DepositMerchant_steps_def example_cooperative example_fresh, where old = None and request = example_merchant and name = "''Deposit Merchant''"]
    by (auto simp: DepositMerchant_def in_orchestrate DepositMerchant_order_def OrderEntity_zero_def)
  from DepositMerchant_completes [OF run] run show ?thesis by blast
qed

text \<open>The same for a withdrawal of a merchant and for a transfer between wallets.\<close>

theorem WithdrawMerchant_completes:
  assumes "WithdrawMerchant S request s = (Ret (p, None), t)"
  shows "\<exists>d evs. p = Some d \<and> key (trace t) = key (trace s) @ evs \<and>
     payment_done (WithdrawMerchant_order request) (WithdrawMerchant_payment request) unlinked evs d"
  using assms unfolding WithdrawMerchant_def in_orchestrate
  by (rule withdraw_merchant.completes [OF WithdrawMerchant_steps_def])

theorem TransferGpayWallet_completes:
  assumes "TransferGpayWallet S r s = (Ret None, t)"
  shows "\<exists>d evs. key (trace t) = key (trace s) @ evs \<and>
     payment_done (TransferGpayWallet_order r) (\<lambda>_. TransferGpayWallet_payment r) linked evs d"
proof -
  obtain p where "orchestrate S ''TransferGpayWallet'' (TransferGpayWallet_steps S r) (fresh_vars None s) = (Ret (p, None), t)"
    using assms unfolding TransferGpayWallet_def in_orchestrate
    by (auto simp: bindc_def ret_def split: prod.splits outcome.splits)
  from transfer_wallet.completes [OF TransferGpayWallet_steps_def this] show ?thesis by blast
qed

end
