(* ===== verification/Lixi.thy ===== *)
theory Lixi
  imports Merchant
begin

text \<open>
  Lucky money: the saga that gives one amount to one user (\<open>application/lixi_orchestrator.go\<close>), the
  repository of the campaigns (\<open>infrastructure/database_mgo/lixi/lixi.go\<close>) and the job that hands out the
  money of every started campaign (\<open>application/job_lixi.go\<close>).  The amounts are 64-bit integers.
\<close>

subsection \<open>lixi_orchestrator.go\<close>

record LixiRequest =
  lxr_ID :: string
  lxr_Name :: string
  lxr_OrderRequest :: OrderRequest

definition LixiOrchestrator_order :: "LixiRequest \<Rightarrow> OrderEntity" where
  "LixiOrchestrator_order request = (let r = lxr_OrderRequest request in OrderEntity_zero\<lparr>
     oe_ServiceID := TRANSTYPE_WALLET_LIXI, oe_UserID := rq_ToUserID r, oe_SubscribeMerchantID := rq_MerchantID r,
     oe_OrderType := TRANSTYPE_WALLET_LIXI, oe_SubOrderType := TRANSTYPE_WALLET_LIXI, oe_Amount := rq_Amount r,
     oe_SourceOfFund := rq_SourceOfFund r, oe_VoucherCode := rq_VoucherCode r, oe_DeviceID := rq_DeviceID r,
     oe_ToUserID := rq_ToUserID r, oe_RefID := lxr_ID request, oe_LuckyMoneyID := lxr_ID request\<rparr>)"

definition LixiOrchestrator_payment :: "LixiRequest \<Rightarrow> OrderEntity \<Rightarrow> ETransactionDTO" where
  "LixiOrchestrator_payment request d = (let r = lxr_OrderRequest request;
     dto = ETransactionDTO_zero\<lparr>
       tx_TransactionType := TRANSTYPE_WALLET_LIXI, tx_ServiceType := SERVICE_TYPE_WALLET, tx_Amount := rq_Amount r,
       tx_DeviceId := rq_DeviceID r, tx_LastAmount := rq_Amount r, tx_SourceOfFund := SOURCE_OF_FUND_BALANCE_WALLET,
       tx_PayerId := rq_UserID r, tx_GpayAccountID := GPAY_ACCOUNT_ID, tx_GpayTypeWallet := AmountWal,
       tx_AppId := TRANSTYPE_WALLET_LIXI, tx_OrderId := oe_OrderID d, tx_LuckyMoneyID := lxr_ID request,
       tx_PayeeId := rq_ToUserID r, tx_Message := lxr_Name request\<rparr>
     in if rq_MerchantID r \<noteq> [] then dto\<lparr>tx_MerchantID := rq_MerchantID r, tx_MerchantTypeWallet := AmountCash\<rparr>
        else dto)"

definition LixiOrchestrator_init :: "'w services \<Rightarrow> LixiRequest \<Rightarrow> ('w st, goerror option) comp" where
  "LixiOrchestrator_init S request = bindc the_order (\<lambda>d. init_trans S False (LixiOrchestrator_payment request d))"

definition LixiOrchestrator_steps :: "'w services \<Rightarrow> LixiRequest \<Rightarrow> 'w st step_def list" where
  "LixiOrchestrator_steps S request =
     [(''Init-Order'', init_order S (LixiOrchestrator_order request), ret None),
      (''Processing-Order'', assign_order (ProcessingOrder S), comp_order S),
      (''Init-Transaction'', LixiOrchestrator_init S request, comp_init_payment S as_is order_as_is),
      (''Confirm-Transaction'', confirm_trans S as_is, comp_pending S False as_is),
      (''Success-Order'', success_order S, comp_pending S False as_is)]"

definition LixiOrchestrator :: "'w services \<Rightarrow> LixiRequest \<Rightarrow> ('w st, goerror option) comp" where
  "LixiOrchestrator S request =
     thenc (modify (fresh_vars None))
       (bindc (orchestrate S ''LixiOrchestrator'' (LixiOrchestrator_steps S request)) (\<lambda>(_, err). ret err))"

subsection \<open>lixi.go\<close>

definition decoded :: "(goerror + LixiEntity) list \<Rightarrow> LixiEntity list" where
  "decoded docs = concat (map (\<lambda>d. case d of Inl _ \<Rightarrow> [] | Inr l \<Rightarrow> [l]) docs)"

text \<open>
  The documents that can be decoded.  The cursor is closed before the error is looked at: without a
  cursor that is a nil dereference.
\<close>

definition FindStarted :: "'w services \<Rightarrow> ('w st, LixiEntity list) comp" where
  "FindStarted S =
     bindc (ask (sv_now S)) (\<lambda>now.
     bindc (ask (mg_FindLixi S now)) (\<lambda>r. case r of
       Inl e \<Rightarrow> panic ''nil pointer dereference''
     | Inr docs \<Rightarrow> ret (decoded docs)))"

text \<open>
  The loop returns at the first document that can be decoded; a failed \<open>Decode\<close> leaves what it
  has decoded in the result.
\<close>

fun sample_loop :: "(int64 \<times> goerror option) list \<Rightarrow> int64 option \<Rightarrow> int64 option" where
  "sample_loop [] res = res"
| "sample_loop ((amount, err) # docs) res = (if err = None then Some amount else sample_loop docs (Some amount))"

definition FindRandomAmount :: "'w services \<Rightarrow> int64 \<Rightarrow> int64 \<Rightarrow> ('w st, int64 option) comp" where
  "FindRandomAmount S lo hi =
     bindc (ask (mg_SampleLixi S lo hi)) (\<lambda>r. case r of
       Inl e \<Rightarrow> panic ''nil pointer dereference''
     | Inr docs \<Rightarrow> ret (sample_loop docs None))"

definition lixi_UpdateOne :: "'w services \<Rightarrow> LixiEntity \<Rightarrow> ('w st, goerror option) comp" where
  "lixi_UpdateOne S lixi = act (mg_ReplaceLixi S lixi) (EvReplaceLixi lixi)"

subsection \<open>job_lixi.go\<close>

definition lixi_request :: "LixiEntity \<Rightarrow> int64 \<Rightarrow> string \<Rightarrow> LixiRequest" where
  "lixi_request lixi amount user = \<lparr>lxr_ID = lx_ID lixi, lxr_Name = lx_Name lixi,
     lxr_OrderRequest = OrderRequest_zero\<lparr>rq_Amount := amount, rq_MerchantID := lx_MerchantID lixi,
       rq_TransType := TRANSTYPE_WALLET_LIXI, rq_ToUserID := user\<rparr>\<rparr>"

text \<open>
  One gift: \<open>Inl\<close> when the money of the campaign is used up (\<open>break job_user\<close>), else the campaign
  with the gift booked when it went well.
\<close>

definition lixi_gift :: "'w services \<Rightarrow> LixiEntity \<Rightarrow> int64 \<Rightarrow> string \<Rightarrow> ('w st, LixiEntity + LixiEntity) comp" where
  "lixi_gift S lixi user_amount user =
     (if slt64 (lx_Amount lixi - lx_AmountUsed lixi - user_amount) 0 then ret (Inl lixi)
      else
        bindc (LixiOrchestrator S (lixi_request lixi user_amount user)) (\<lambda>err. case err of
          Some _ \<Rightarrow> ret (Inr lixi)
        | None \<Rightarrow> ret (Inr (let used = lx_AmountUsed lixi + user_amount in
            lixi\<lparr>lx_AmountUsed := used, lx_AmountRemain := lx_Amount lixi - used, lx_NumberScan := lx_NumberScan lixi + 1\<rparr>))))"

definition lixi_user :: "'w services \<Rightarrow> LixiEntity \<Rightarrow> string \<Rightarrow> ('w st, LixiEntity + LixiEntity) comp" where
  "lixi_user S lixi phone =
     (if slt64 (lx_NumberScan lixi) (lx_MaxUser lixi)
      then bindc (ask (ur_ByPhone S phone)) (\<lambda>r. case r of
        Inl _ \<Rightarrow> ret (Inr lixi)
      | Inr u \<Rightarrow> bindc (deref u) (\<lambda>user.
          if lx_Method lixi = ''RANDOM''
          then bindc (FindRandomAmount S (lx_MinAmount lixi) (lx_MaxAmount lixi)) (\<lambda>rand_num. case rand_num of
            None \<Rightarrow> ret (Inr lixi)
          | Some amount \<Rightarrow> lixi_gift S lixi amount user)
          else if lx_Method lixi = ''FIXED'' then lixi_gift S lixi (lx_FixAmount lixi) user
          else ret (Inr lixi)))
      else ret (Inr lixi))"

fun lixi_users :: "'w services \<Rightarrow> LixiEntity \<Rightarrow> string list \<Rightarrow> ('w st, LixiEntity) comp" where
  "lixi_users S lixi [] = ret lixi"
| "lixi_users S lixi (phone # phones) =
     bindc (lixi_user S lixi phone) (\<lambda>r. case r of Inl l \<Rightarrow> ret l | Inr l \<Rightarrow> lixi_users S l phones)"

fun lixi_campaigns :: "'w services \<Rightarrow> LixiEntity list \<Rightarrow> ('w st, unit) comp" where
  "lixi_campaigns S [] = ret ()"
| "lixi_campaigns S (lixi # lixis) =
     bindc (lixi_users S lixi (lx_UserPhones lixi)) (\<lambda>l.
     thenc (lixi_UpdateOne S (l\<lparr>lx_Status := ''PAUSED''\<rparr>)) (lixi_campaigns S lixis))"

text \<open>The job runs under \<open>context.Background()\<close>, not under a request.\<close>

definition JobLixi :: "'w services \<Rightarrow> ('w st, unit) comp" where
  "JobLixi S = thenc (modify (\<lambda>s. s\<lparr>ctx_grpc := False\<rparr>)) (bindc (FindStarted S) (lixi_campaigns S))"

subsection \<open>One gift\<close>

interpretation lixi_payment: wallet_payment S "LixiOrchestrator_order request" "LixiOrchestrator_payment request" unlinked unlinked
    "LixiOrchestrator_init S request" "success_order S"
  for S :: "'w services" and request
proof (unfold_locales, goal_cases)
  case (1 s R)
  then show ?case
    unfolding LixiOrchestrator_init_def wp_bindc wp_the_order
    by (auto split: option.split simp: unlinked_eq intro!: init_trans_succeeds)
next
  case (3 s R)
  have "R ((appended s w es)\<lparr>trans := Some t\<rparr>)" for w es t
    using 3(3) [where w = w and es = es and t = t] 3(2) by (metis option.exhaust unlinked_eq)
  with 3(1,2) show ?case
    unfolding LixiOrchestrator_init_def wp_bindc wp_the_order
    by (auto split: option.split intro!: init_trans_goes)
qed (auto intro: silent_success_succeeds silent_success_goes)

text \<open>A gift is an order that was stored as successful.\<close>

fun gift :: "event \<Rightarrow> int option" where
  "gift (EvReplaceOrder f d (Inr (Suc n))) = (if oe_Status d = ORDER_SUCCESS then Some (sint (oe_Amount d)) else None)"
| "gift _ = None"

fun is_lixi :: "event \<Rightarrow> bool" where
  "is_lixi (EvReplaceLixi _ _) = True" | "is_lixi _ = False"

definition gifts :: "event list \<Rightarrow> int list" where
  "gifts es = List.map_filter gift es"

lemma gifts_append [simp]: "gifts (es @ es') = gifts es @ gifts es'"
  by (simp add: gifts_def map_filter_def)

lemma gift_key: "gift e \<noteq> None \<Longrightarrow> is_key e"
  by (cases e) auto

lemma gifts_key: "gifts (key es) = gifts es"
  unfolding gifts_def map_filter_def using gift_key by (induction es) auto

definition lixi_note :: "event \<Rightarrow> bool" where
  "lixi_note e \<longleftrightarrow> gift e \<noteq> None \<or> is_lixi e"

lemma gifts_none:
  assumes "length (filter lixi_note (key es)) = 0"
  shows "gifts es = [] \<and> (\<forall>e \<in> set es. \<not> is_lixi e)"
proof -
  have "\<forall>e \<in> set es. is_key e \<longrightarrow> gift e = None \<and> \<not> is_lixi e" using assms by (auto simp: filter_empty_conv lixi_note_def)
  then have "\<forall>e \<in> set es. gift e = None \<and> \<not> is_lixi e" using gift_key by (metis is_key.simps is_lixi.elims(2))
  then show ?thesis by (auto simp: gifts_def map_filter_def filter_empty_conv)
qed

lemma late_gift: "late lixi_note"
  unfolding late_def lixi_note_def by (auto elim: compensating.elims gift.elims split: if_splits)

text \<open>What one run of the saga adds to the trace: exactly one gift of the amount asked for, or an error and none.\<close>

definition gift_run :: "LixiRequest \<Rightarrow> goerror option \<Rightarrow> event list \<Rightarrow> bool" where
  "gift_run request err es \<longleftrightarrow> (\<forall>e \<in> set es. \<not> is_lixi e) \<and>
     gifts es = (if err = None then [sint (rq_Amount (lxr_OrderRequest request))] else [])"

lemma payment_gift:
  assumes "payment_done (LixiOrchestrator_order request) pay unlinked evs d"
  shows "gifts evs = [sint (rq_Amount (lxr_OrderRequest request))] \<and> (\<forall>e \<in> set evs. \<not> is_lixi e)"
  using assms by (auto simp: payment_noted_def gifts_def map_filter_def restamped_sel initial_order_def LixiOrchestrator_order_def Let_def)

lemma success_order_gift:
  assumes "adds lixi_note 0 s t"
  shows "wp (success_order S) (on_error (adds lixi_note 0 s)) (adds lixi_note 0 s) t"
  unfolding success_order_def wp_bindc
proof (rule wp_assign_order [OF SuccessOrder_does], goal_cases)
  case (2 d d' f e x w es)
  have "adds lixi_note 0 s (appended t w es)" if "snd (replaced d' e x) \<noteq> None"
  proof -
    have "gift (EvReplaceOrder f d' x) = None" using that by (cases "EvReplaceOrder f d' x" rule: gift.cases) auto
    then have "adds lixi_note 0 t (appended t w es)" by (intro adds_appended [OF 2(2)]) (simp add: lixi_note_def)
    with adds_trans [OF assms] show ?thesis by fastforce
  qed
  then show ?case by (auto simp: wp_rules on_error_def)
qed (simp add: assms)

lemma lixi_steps_quiet:
  "atmost lixi_note 0 (init_order S d)" "atmost lixi_note 0 (LixiOrchestrator_init S request)" "atmost lixi_note 0 (confirm_trans S as_is)"
  unfolding LixiOrchestrator_init_def by (intro atmost_rules; simp add: lixi_note_def)+

lemma LixiOrchestrator_run:
  "wp (LixiOrchestrator S request) (\<lambda>err t. \<exists>es. trace t = trace s @ es \<and> gift_run request err es) (adds lixi_note 0 s) s"
proof -
  let ?s = "fresh_vars None s" and ?sts = "LixiOrchestrator_steps S request"
  have err: "wp (orchestrate S ''LixiOrchestrator'' ?sts) (\<lambda>(p, err). on_error (adds lixi_note 0 ?s) err) (adds lixi_note 0 ?s) ?s"
    by (rule orchestrate_last [where pre = "butlast ?sts" and n = "''Success-Order''" and f = "success_order S" and g = "comp_pending S False as_is"])
      (auto simp: LixiOrchestrator_steps_def lixi_steps_quiet late_order_ops [OF late_gift] late_compensations [OF late_gift] intro: success_order_gift atmost_rules)
  have ok: "wp (orchestrate S ''LixiOrchestrator'' ?sts) (\<lambda>(p, err) t. err = None \<longrightarrow> (\<exists>d evs. p = Some d \<and> key (trace t) = key (trace s) @ evs \<and>
       payment_done (LixiOrchestrator_order request) (LixiOrchestrator_payment request) unlinked evs d)) (\<lambda>_. True) ?s"
    by (rule lixi_payment.completes_wp [OF LixiOrchestrator_steps_def])
  have grow: "wp (orchestrate S ''LixiOrchestrator'' ?sts) (\<lambda>_. adds (\<lambda>_. False) 0 ?s) (adds (\<lambda>_. False) 0 ?s) ?s"
    by (rule orchestrate_none) (auto simp: LixiOrchestrator_steps_def LixiOrchestrator_init_def intro!: atmost_rules)
  have "wp (orchestrate S ''LixiOrchestrator'' ?sts) (\<lambda>(p, err) t. \<exists>es. trace t = trace s @ es \<and> gift_run request err es) (adds lixi_note 0 s) ?s"
  proof (rule wp_mono [OF wp_conj [OF err wp_conj [OF ok grow]]], goal_cases)
    case (1 a t)
    obtain p err where a: "a = (p, err)" by (cases a)
    show ?case
    proof (cases err)
      case None
      obtain es where es: "trace t = trace s @ es" using 1 by (auto simp: adds_def)
      then obtain d where "payment_done (LixiOrchestrator_order request) (LixiOrchestrator_payment request) unlinked (key es) d"
        using 1 a None by auto
      with payment_gift [OF this] es show ?thesis using a None gifts_key [of es]
        by (auto simp: gift_run_def dest: bspec [of _ _ "EvReplaceLixi _ _"] elim!: is_lixi.elims)
    next
      case (Some e)
      then show ?thesis using 1 a gifts_none by (force simp: adds_def gift_run_def)
    qed
  qed (simp add: adds_def)
  then show ?thesis unfolding LixiOrchestrator_def wp_bindc wp_modify by (rule wp_mono) (auto simp: wp_rules)
qed

subsection \<open>The budget of a campaign\<close>

definition campaign_ok :: "LixiEntity \<Rightarrow> bool" where
  "campaign_ok l \<longleftrightarrow> 0 \<le> sint (lx_AmountUsed l) \<and> sint (lx_AmountUsed l) \<le> sint (lx_Amount l) \<and>
     sint (lx_NumberScan l) \<le> sint (lx_MaxUser l) \<and> 0 \<le> sint (lx_FixAmount l) \<and> 0 \<le> sint (lx_MinAmount l)"

text \<open>The campaign after the gifts: what they cost is booked, and nothing else has changed.\<close>

definition unbooked :: "LixiEntity \<Rightarrow> LixiEntity" where
  "unbooked l = l\<lparr>lx_AmountUsed := 0, lx_AmountRemain := 0, lx_NumberScan := 0\<rparr>"

definition booked :: "LixiEntity \<Rightarrow> int list \<Rightarrow> LixiEntity \<Rightarrow> bool" where
  "booked l xs l' \<longleftrightarrow> campaign_ok l' \<and> sint (lx_AmountUsed l') = sint (lx_AmountUsed l) + sum_list xs \<and>
     sint (lx_NumberScan l') = sint (lx_NumberScan l) + int (length xs) \<and>
     lx_AmountRemain l' = (if xs = [] then lx_AmountRemain l else lx_Amount l' - lx_AmountUsed l') \<and>
     unbooked l' = unbooked l"

lemma booked_refl: "campaign_ok l \<Longrightarrow> booked l [] l"
  by (simp add: booked_def)

lemma unbooked_sel:
  assumes "unbooked l' = unbooked l"
  shows "lx_Amount l' = lx_Amount l" "lx_MaxUser l' = lx_MaxUser l" "lx_MinAmount l' = lx_MinAmount l" "lx_FixAmount l' = lx_FixAmount l"
  using arg_cong [OF assms, of lx_Amount] arg_cong [OF assms, of lx_MaxUser] arg_cong [OF assms, of lx_MinAmount]
    arg_cong [OF assms, of lx_FixAmount] by (simp_all add: unbooked_def)

lemma booked_trans:
  assumes "booked l xs l'" "booked l' ys l''"
  shows "booked l (xs @ ys) l''"
proof -
  have "lx_Amount l'' = lx_Amount l'" using assms(2) by (auto simp: booked_def dest: unbooked_sel(1))
  moreover have "lx_AmountUsed l'' = lx_AmountUsed l'" if "ys = []"
    using assms(2) that by (auto simp: booked_def intro: signed_word_eqI)
  ultimately show ?thesis using assms by (auto simp: booked_def)
qed

text \<open>Within the budget the 64-bit arithmetic is exact.\<close>

lemma budget_exact:
  fixes a u x :: int64
  assumes "0 \<le> sint u" "sint u \<le> sint a" "0 \<le> sint x"
  shows "sint (a - u - x) = sint a - sint u - sint x" "sint x \<le> sint a - sint u \<Longrightarrow> sint (u + x) = sint u + sint x"
proof -
  have "sint a < 2 ^ 63" "sint x < 2 ^ 63" using sint_lt [of a] sint_lt [of x] by simp_all
  then show "sint (a - u - x) = sint a - sint u - sint x" "sint x \<le> sint a - sint u \<Longrightarrow> sint (u + x) = sint u + sint x"
    using assms by (simp_all add: sint_word_ariths signed_take_bit_int_eq_self)
qed

lemma booked_gift:
  assumes "campaign_ok l" "0 \<le> sint x" "\<not> slt64 (lx_Amount l - lx_AmountUsed l - x) 0" "sint (lx_NumberScan l) < sint (lx_MaxUser l)"
  shows "booked l [sint x] (l\<lparr>lx_AmountUsed := lx_AmountUsed l + x, lx_AmountRemain := lx_Amount l - (lx_AmountUsed l + x),
     lx_NumberScan := lx_NumberScan l + 1\<rparr>)"
proof -
  note u = budget_exact [of "lx_AmountUsed l" "lx_Amount l" x]
  have le: "sint x \<le> sint (lx_Amount l) - sint (lx_AmountUsed l)" using assms u(1) by (auto simp: campaign_ok_def)
  have n: "sint (lx_NumberScan l + 1) = sint (lx_NumberScan l) + 1"
    using assms(4) sint_lt [of "lx_MaxUser l"] sint_ge [of "lx_NumberScan l"]
    by (simp add: sint_word_ariths signed_take_bit_int_eq_self)
  show ?thesis using assms u(2) le n by (simp add: booked_def campaign_ok_def unbooked_def)
qed

subsection \<open>The job\<close>

text \<open>What the query of the collections promises: amounts of at least the lower bound, campaigns within their budget.\<close>

definition samples_ok :: "'w services \<Rightarrow> bool" where
  "samples_ok S \<longleftrightarrow> (\<forall>lo hi w docs a e. 0 \<le> sint lo \<longrightarrow> fst (mg_SampleLixi S lo hi w) = Inr docs \<longrightarrow> (a, e) \<in> set docs \<longrightarrow> 0 \<le> sint a)"

definition campaigns_ok :: "'w services \<Rightarrow> bool" where
  "campaigns_ok S \<longleftrightarrow> (\<forall>now w docs l. fst (mg_FindLixi S now w) = Inr docs \<longrightarrow> Inr l \<in> set docs \<longrightarrow> campaign_ok l)"

definition gave :: "LixiEntity \<Rightarrow> 'w st \<Rightarrow> LixiEntity \<Rightarrow> 'w st \<Rightarrow> bool" where
  "gave l s l' t \<longleftrightarrow> (\<exists>es. trace t = trace s @ es \<and> (\<forall>e \<in> set es. \<not> is_lixi e) \<and> booked l (gifts es) l')"

lemma gave_refl: "campaign_ok l \<Longrightarrow> trace t = trace s \<Longrightarrow> gave l s l t"
  by (auto simp: gave_def gifts_def map_filter_def booked_refl)

lemma gave_trans: "gave l s l' t \<Longrightarrow> gave l' t l'' u \<Longrightarrow> gave l s l'' u"
  unfolding gave_def by (auto dest: booked_trans)

lemma gave_ok: "gave l s l' t \<Longrightarrow> campaign_ok l'"
  by (auto simp: gave_def booked_def)

lemma lixi_gift_gave:
  assumes "campaign_ok l" "0 \<le> sint x" "sint (lx_NumberScan l) < sint (lx_MaxUser l)" "trace s = trace s0"
  shows "wp (lixi_gift S l x user) (\<lambda>r t. gave l s0 (case r of Inl l' \<Rightarrow> l' | Inr l' \<Rightarrow> l') t) (\<lambda>_. True) s"
proof (cases "slt64 (lx_Amount l - lx_AmountUsed l - x) 0")
  case True
  then show ?thesis using assms by (simp add: lixi_gift_def wp_ret gave_refl)
next
  case False
  have req: "rq_Amount (lxr_OrderRequest (lixi_request l x user)) = x" by (simp add: lixi_request_def)
  show ?thesis
    unfolding lixi_gift_def using False
    by (simp only: if_False wp_bindc, intro wp_mono [OF LixiOrchestrator_run])
      (use booked_gift [OF assms(1,2) False assms(3)] assms(1,4) in
        \<open>auto simp: wp_rules gift_run_def req gave_def Let_def booked_refl split: option.split\<close>)
qed

lemma sample_loop_in: "sample_loop docs res = Some a \<Longrightarrow> res = Some a \<or> (\<exists>e. (a, e) \<in> set docs)"
  by (induction docs res rule: sample_loop.induct) (auto split: if_splits)

lemma lixi_user_gave:
  assumes "samples_ok S" "campaign_ok l"
  shows "wp (lixi_user S l phone) (\<lambda>r t. gave l s (case r of Inl l' \<Rightarrow> l' | Inr l' \<Rightarrow> l') t) (\<lambda>_. True) s"
proof -
  have x: "0 \<le> sint a" if "mg_SampleLixi S (lx_MinAmount l) (lx_MaxAmount l) w = (Inr docs, w')" "sample_loop docs None = Some a" for w w' docs a
  proof -
    have "\<exists>e. (a, e) \<in> set docs" using sample_loop_in [OF that(2)] by auto
    moreover have "0 \<le> sint (lx_MinAmount l)" using assms(2) by (simp add: campaign_ok_def)
    moreover have "fst (mg_SampleLixi S (lx_MinAmount l) (lx_MaxAmount l) w) = Inr docs" using that(1) by simp
    ultimately show ?thesis using assms(1) unfolding samples_ok_def by blast
  qed
  have "0 \<le> sint (lx_FixAmount l)" using assms(2) by (simp add: campaign_ok_def)
  with assms(2) x show ?thesis
    by (auto simp: lixi_user_def FindRandomAmount_def wp_rules split: sum.split option.split intro!: gave_refl lixi_gift_gave)
qed

lemma lixi_users_gave:
  assumes "samples_ok S" "campaign_ok l"
  shows "wp (lixi_users S l phones) (gave l s) (\<lambda>_. True) s"
  using assms(2)
proof (induction phones arbitrary: l s)
  case (Cons phone phones)
  show ?case
    unfolding lixi_users.simps wp_bindc
    by (rule wp_mono [OF lixi_user_gave [OF assms(1) Cons.prems]])
      (auto simp: wp_rules split: sum.split intro!: wp_mono [OF Cons.IH] dest: gave_ok gave_trans)
qed (simp add: wp_rules gave_refl)

fun handed_out :: "LixiEntity list \<Rightarrow> event list \<Rightarrow> bool" where
  "handed_out [] es \<longleftrightarrow> es = []"
| "handed_out (l # ls) es \<longleftrightarrow> (\<exists>es1 l' x es2. es = es1 @ EvReplaceLixi (l'\<lparr>lx_Status := ''PAUSED''\<rparr>) x # es2 \<and>
     (\<forall>e \<in> set es1. \<not> is_lixi e) \<and> booked l (gifts es1) l' \<and> handed_out ls es2)"

lemma lixi_campaigns_handed_out:
  assumes "samples_ok S" "\<forall>l \<in> set ls. campaign_ok l"
  shows "wp (lixi_campaigns S ls) (\<lambda>_ t. \<exists>es. trace t = trace s @ es \<and> handed_out ls es) (\<lambda>_. True) s"
  using assms(2)
proof (induction ls arbitrary: s)
  case (Cons l ls)
  show ?case
    unfolding lixi_campaigns.simps wp_bindc
  proof (rule wp_mono [OF lixi_users_gave [OF assms(1)]], goal_cases)
    case (2 l' t)
    then obtain es1 where es1: "trace t = trace s @ es1" "\<forall>e \<in> set es1. \<not> is_lixi e" "booked l (gifts es1) l'" by (auto simp: gave_def)
    show ?case
      unfolding lixi_UpdateOne_def wp_act
    proof (intro allI impI, rule wp_mono [OF Cons.IH], goal_cases)
      case (2 x w _ u)
      then obtain es2 where "trace u = trace s @ (es1 @ EvReplaceLixi (l'\<lparr>lx_Status := ''PAUSED''\<rparr>) x # es2)" "handed_out ls es2" using es1 by auto
      then show ?case using es1(2,3) unfolding handed_out.simps by blast
    qed (use Cons.prems in auto)
  qed (use Cons.prems in auto)
qed (simp add: wp_rules)

text \<open>
  C28: suppose that the database returns campaigns that are within their budget and number of users, with bounds that are not
  negative (\<open>campaigns_ok\<close>), and samples no negative amount for them (\<open>samples_ok\<close>).  When the job comes to its end, it has handled
  every started campaign that can be decoded, in order.  For each it has written the campaign back once, as
  paused, with the amount and the number of gifts raised by exactly the orders that it has stored as successful since, still within the
  budget and the number of users of the campaign; all other fields are as they were found.  A gift whose payment was confirmed but whose
  last write of the order failed is not booked.  No assumption on execution ids is needed, and the 64-bit arithmetic does not overflow.
\<close>

theorem JobLixi_budget:
  assumes "campaigns_ok S" "samples_ok S" and "JobLixi S s = (Ret (), t)"
  shows "\<exists>now w docs es. fst (mg_FindLixi S now w) = Inr docs \<and> trace t = trace s @ es \<and> handed_out (decoded docs) es"
proof -
  have ok: "\<forall>l \<in> set (decoded docs). campaign_ok l" if "mg_FindLixi S now w = (Inr docs, w')" for now w docs w'
  proof -
    have "fst (mg_FindLixi S now w) = Inr docs" using that by simp
    then have "\<And>l. Inr l \<in> set docs \<Longrightarrow> campaign_ok l" using assms(1) unfolding campaigns_ok_def by blast
    then show ?thesis by (auto simp: decoded_def split: sum.splits)
  qed
  have "wp (JobLixi S) (\<lambda>_ t. \<exists>now w docs es. fst (mg_FindLixi S now w) = Inr docs \<and> trace t = trace s @ es \<and> handed_out (decoded docs) es) (\<lambda>_. True) s"
    unfolding JobLixi_def FindStarted_def
    by (auto simp: wp_rules split: sum.split intro!: wp_mono [OF lixi_campaigns_handed_out [OF assms(2) ok]] exI [of _ "_ :: event list"])
      (metis fst_conv)
  from wp_Ret [OF this assms(3)] show ?thesis .
qed

subsection \<open>An example\<close>

definition example_campaign :: LixiEntity where
  "example_campaign = \<lparr>lx_ID = ''L1'', lx_Name = ''Tet'', lx_Status = ''ACTIVE'', lx_MerchantID = ''M1'', lx_Amount = 12000, lx_MaxUser = 5,
     lx_Method = ''FIXED'', lx_AmountRemain = 12000, lx_AmountUsed = 0, lx_NumberScan = 0, lx_StartDate = 0, lx_FixAmount = 5000,
     lx_MaxAmount = 0, lx_MinAmount = 0, lx_UserIds = [], lx_UserPhones = [''0901''], lx_CreatedAt = 0, lx_UpdatedAt = 0\<rparr>"

definition lucky_services :: "nat services" where
  "lucky_services = example_services\<lparr>mg_FindLixi := \<lambda>_ w. (Inr [Inr example_campaign], w),
     mg_FindOrder := \<lambda>_ w. (Inl ErrNoDocuments, w)\<rparr>"

lemma lucky_ok: "campaigns_ok lucky_services" "samples_ok lucky_services" "obliging lucky_services"
  by (simp_all add: campaigns_ok_def samples_ok_def lucky_services_def example_services_def example_campaign_def campaign_ok_def obliging_def
      cooperative_user_def example_user_def http_result_def BankGwStatus_defs go_consts BankRes_zero_def)

lemma lucky_init_goes:
  assumes "\<not> ctx_grpc s" "\<And>d' w es. R ((appended s w es)\<lparr>order_dto := Some d'\<rparr>)"
  shows "goes (init_order lucky_services d) R s"
proof -
  have "fine (bindc (GetCurrentTime lucky_services) (\<lambda>now. Create lucky_services (x now))) (\<lambda>(p, err). err = None \<and> p \<noteq> None)" for x
    unfolding GetCurrentTime_def using Create_fine [OF lucky_ok(3)] by (simp add: fine_ask_any)
  moreover have "CheckLuckyMoney lucky_services u i s = (Ret None, s)" for u i
    using assms(1) by (simp add: CheckLuckyMoney_def bindc_def ask_def gets_def ret_def lucky_services_def Let_def)
  then have "InitOrder lucky_services d s = bindc (GetCurrentTime lucky_services) (\<lambda>now. Create lucky_services (d\<lparr>oe_CreatedAt := now,
      oe_UpdatedAt := now, oe_ExpiredAt := now + sint (expire_duration (oe_ExpireTime d)), oe_Status := ORDER_PENDING\<rparr>)) s"
    by (simp add: InitOrder_def bindc_def ret_def)
  ultimately have "wp (InitOrder lucky_services d) (\<lambda>a t. (\<exists>w es. t = appended s w es) \<and> (case a of (p, err) \<Rightarrow> err = None \<and> p \<noteq> None)) (\<lambda>_. False) s"
    unfolding fine_def wp_def by simp
  then show ?thesis
    unfolding init_order_def wp_bindc by (rule wp_mono) (auto simp: wp_rules intro: assms(2))
qed

lemma lucky_gift:
  assumes "\<not> ctx_grpc s" "fresh_execution lucky_services s"
  shows "\<exists>t. LixiOrchestrator lucky_services request s = (Ret None, t)"
proof -
  have "\<exists>d t. orchestrate lucky_services ''LixiOrchestrator'' (LixiOrchestrator_steps lucky_services request) (fresh_vars None s) = (Ret (Some d, None), t)"
  proof (rule orchestrate_goes)
    show "goes (run_steps (LixiOrchestrator_steps lucky_services request) []) (\<lambda>t. order_dto t \<noteq> None) ((fresh_vars None s)\<lparr>world := w\<rparr>)" for w
      unfolding LixiOrchestrator_steps_def
      by (intro goes_Cons goes_Nil lucky_init_goes assign_order_goes [OF order_ops_fine(1)] lixi_payment.init_goes confirm_trans_goes
          success_order_goes lucky_ok) (use assms(1) in \<open>simp_all add: fresh_vars_def\<close>)
  qed (simp add: assms(2))
  then show ?thesis by (auto simp: LixiOrchestrator_def bindc_def modify_def ret_def)
qed

lemma lucky_job:
  "\<exists>t l x. JobLixi lucky_services example_state = (Ret (), t) \<and> EvReplaceLixi l x \<in> set (trace t) \<and> lx_AmountUsed l = 5000"
proof -
  let ?R = "\<lambda>t. \<exists>l x. EvReplaceLixi l x \<in> set (trace t) \<and> lx_AmountUsed l = 5000"
  have gift: "wp (LixiOrchestrator lucky_services request) (\<lambda>err _. err = None) (\<lambda>_. False) (example_state\<lparr>ctx_grpc := False, world := w\<rparr>)"
    for request w
    using lucky_gift [of "example_state\<lparr>ctx_grpc := False, world := w\<rparr>" request]
    by (auto simp: wp_def fresh_execution_def example_state_def)
  have user: "wp (lixi_user lucky_services example_campaign ''0901'') (\<lambda>r t. \<exists>l. r = Inr l \<and> lx_AmountUsed l = 5000) (\<lambda>_. False)
      (example_state\<lparr>ctx_grpc := False, world := w\<rparr>)" for w
    unfolding lixi_user_def lixi_gift_def
    by (simp add: example_campaign_def wp_rules lucky_services_def [THEN arg_cong [where f = ur_ByPhone]] example_services_def)
       (auto simp: wp_rules Let_def intro!: wp_mono [OF gift])
  have "wp (lixi_campaigns lucky_services [example_campaign]) (\<lambda>_. ?R) (\<lambda>_. False) (example_state\<lparr>ctx_grpc := False, world := w\<rparr>)" for w
    unfolding lixi_campaigns.simps wp_bindc lixi_UpdateOne_def wp_act
    by (simp add: example_campaign_def [THEN arg_cong [where f = lx_UserPhones]] wp_bindc wp_ret, rule wp_mono [OF user])
      (auto simp: wp_rules intro!: exI [of _ "_\<lparr>lx_Status := _\<rparr>"])
  then have "wp (JobLixi lucky_services) (\<lambda>_. ?R) (\<lambda>_. False) example_state"
    unfolding JobLixi_def FindStarted_def
    by (simp add: wp_rules decoded_def lucky_services_def [THEN arg_cong [where f = mg_FindLixi]])
  then show ?thesis by (auto simp: wp_def split: prod.splits outcome.splits)
qed

theorem JobLixi_budget_witness:
  "\<exists>t docs es l x. JobLixi lucky_services example_state = (Ret (), t) \<and> trace t = trace example_state @ es \<and> handed_out (decoded docs) es \<and>
     EvReplaceLixi l x \<in> set (trace t) \<and> lx_AmountUsed l = 5000"
proof -
  obtain t l x where run: "JobLixi lucky_services example_state = (Ret (), t)" "EvReplaceLixi l x \<in> set (trace t)" "lx_AmountUsed l = 5000"
    using lucky_job by blast
  from JobLixi_budget [OF lucky_ok(1,2) run(1)] run show ?thesis by blast
qed

end
