(* ===== verification/Wallet_Config.thy ===== *)
theory Wallet_Config
  imports Order_Service
begin

text \<open>
  The repository of the configuration of merchants, \<open>infrastructure/database_mgo/wallet_config/wallet_config.go\<close>:
  the queries, as filters that the database answers.
\<close>

definition GetMerchantConfig :: "'w services \<Rightarrow> GetMerchantConfigReq \<Rightarrow> ('w st, goerror + GetMerchantConfigRes) comp" where
  "GetMerchantConfig S req = ask (mg_FindMerchantConfig S \<lparr>mf_MerchantId = mcq_MerchantId req,
     mf_ServiceType = mcq_ServiceType req, mf_TransType = mcq_TransType req, mf_Status = ''ACTIVE''\<rparr>)"

definition GetRefundConfig :: "'w services \<Rightarrow> GetRefundConfigReq \<Rightarrow> ('w st, goerror + GetRefundConfigRes) comp" where
  "GetRefundConfig S req = ask (mg_FindRefundConfig S \<lparr>rff_TransType = rcq_TransType req, rff_Status = ''ACTIVE'',
     rff_SourceOfFund = rcq_SourceOfFund req,
     rff_MerchantId = (if rcq_MerchantId req \<noteq> [] then Some (rcq_MerchantId req) else None)\<rparr>)"

end
