(* ===== verification/Refund.thy ===== *)
theory Refund
  imports Any_Execution Wallet_Config
begin

text \<open>
  Refunds (\<open>application/refund_transaction.go\<close>).  The refund order is one object, which all
  functions write through a pointer: it is \<open>order_dto\<close>.
\<close>

subsection \<open>Requests\<close>

record RefundTransactionReq =
  rr_SourceTransactionID :: string
  rr_Amount :: int64
  rr_Reason :: string
  rr_IgnoreFee :: bool
  rr_IgnorePromotion :: bool
  rr_Note :: string
  rr_SourceOrderId :: string
  rr_MerchantId :: string
  rr_RefundType :: RefundType
  rr_RefundBankTraceId :: string
  rr_CreateByAdmin :: string
  rr_MerchantRefRefundId :: string
  rr_MerchantCode :: string

record ConfirmRefundTransactionReq =
  crr_RefundId :: string
  crr_BankTransactionId :: string
  crr_ConfirmByAdmin :: string
  crr_Reason :: string
  crr_IgnoreFee :: bool
  crr_IgnorePromotion :: bool
  crr_RefundType :: string

fun RefundType_String :: "RefundType \<Rightarrow> string" where
  "RefundType_String RT_UNKNOWN = ''UNKNOWN''"
| "RefundType_String RT_INDIRECT = ''INDIRECT''"
| "RefundType_String RT_API = ''API''"

subsection \<open>sendRefundMqttNotify\<close>

definition sendRefundMqttNotify :: "'w services \<Rightarrow> string \<Rightarrow> ('w st, goerror option) comp" where
  "sendRefundMqttNotify S transId =
     bindc (ask (ts_FindByID S transId)) (\<lambda>getTranById. case getTranById of
       Inl e \<Rightarrow> ret (Some e)
     | Inr t \<Rightarrow> thenc (emit (EvSubmit (JobRefundNotify t))) (ret None))"

subsection \<open>checkTransactionCondition\<close>

definition refund_request :: "RefundTransactionReq \<Rightarrow> OrderEntity \<Rightarrow> RefundReq" where
  "refund_request request d = \<lparr>
     rf_SourceTransactionId = rr_SourceTransactionID request, rf_Amount = rr_Amount request, rf_Reason = rr_Reason request,
     rf_IgnoreFee = (if rr_MerchantId request \<noteq> [] then True else rr_IgnoreFee request),
     rf_IgnorePromotion = rr_IgnorePromotion request, rf_Note = rr_Note request, rf_TypeRefund = rr_RefundType request,
     rf_CreateByAdmin = rr_CreateByAdmin request, rf_MerchantId = rr_MerchantId request,
     rf_BankTransactionId = rr_RefundBankTraceId request, rf_RefMerchantRefund = oe_RefID d\<rparr>"

definition cancel_refund :: "'w services \<Rightarrow> string \<Rightarrow> string \<Rightarrow> ('w st, goerror option) comp" where
  "cancel_refund S refundId reason = act (ts_CancelRefund S refundId reason []) (EvCancelRefund refundId reason [])"

text \<open>A merchant must have the money: the revenue before the settlement, the cash after it.\<close>

definition merchant_short :: "MerchantAccount \<Rightarrow> ETransactionDTO \<Rightarrow> int64 \<Rightarrow> bool" where
  "merchant_short acc t amount =
     (if tx_StatusSettlement t \<noteq> STATUS_SUCCESS then slt64 (ma_AmountRevenue acc - amount) 0
      else slt64 (ma_AmountCash acc - amount) 0)"

definition refund_merchant :: "'w services \<Rightarrow> RefundTransactionReq \<Rightarrow> ETransactionDTO \<Rightarrow> string \<Rightarrow> ('w st, goerror option) comp" where
  "refund_merchant S request t refundId =
     (if tx_MerchantID t \<noteq> []
      then bindc (ask (ur_MerchantAccount S (tx_MerchantID t))) (\<lambda>getmerchantAcc. case getmerchantAcc of
        Inl e \<Rightarrow> ret (Some e)
      | Inr acc \<Rightarrow>
          if merchant_short acc t (rr_Amount request)
          then (let reason = ''So du merchant khong du'' in
            thenc (cancel_refund S refundId reason)
           (thenc (update_order (\<lambda>d. d\<lparr>oe_FailReason := reason\<rparr>))
           (thenc (through_order (FailedOrder S)) (ret (Some (ErrorString reason))))))
          else ret None)
      else ret None)"

text \<open>The bank pays back; when it does not, the refund is cancelled and the step ends in an error.\<close>

definition refund_bank :: "'w services \<Rightarrow> bool \<Rightarrow> string \<Rightarrow> int64 \<Rightarrow> string \<Rightarrow> string \<Rightarrow> string \<Rightarrow>
    ('w st, goerror + string) comp" where
  "refund_bank S api orderId amount bankTransactionId refundId prefix =
     (if api
      then bindc (ReFund S orderId amount) (\<lambda>(refundBankResp, err). case err of
        None \<Rightarrow> ret (Inr (br_BankTransactionId refundBankResp))
      | Some e \<Rightarrow> (let cancelReason = prefix @ Error e in
          thenc (cancel_refund S refundId cancelReason) (ret (Inl (ErrorString cancelReason)))))
      else ret (Inr bankTransactionId))"

definition refund_confirm :: "'w services \<Rightarrow> ConfirmRefundReq \<Rightarrow> ('w st, goerror + string) comp" where
  "refund_confirm S q = act (ts_ConfirmRefund S q) (EvConfirmRefund q)"

definition refund_confirm_request :: "RefundTransactionReq \<Rightarrow> string \<Rightarrow> string \<Rightarrow> RefundType \<Rightarrow> OrderEntity \<Rightarrow> ConfirmRefundReq" where
  "refund_confirm_request request refundId bankTransactionId typeRefund d = \<lparr>
     cr_RefundId = refundId, cr_BankTransactionId = bankTransactionId, cr_IgnoreFee = rr_IgnoreFee request,
     cr_IgnorePromotion = rr_IgnorePromotion request, cr_ConfirmByAdmin = ''He thong'', cr_TypeRefund = typeRefund,
     cr_RefMerchantRefund = oe_RefID d\<rparr>"

text \<open>A refund that an operator asks for before the settlement is carried out at once.\<close>

definition refund_now :: "'w services \<Rightarrow> RefundTransactionReq \<Rightarrow> ETransactionDTO \<Rightarrow> string \<Rightarrow> string \<Rightarrow> ('w st, goerror option) comp" where
  "refund_now S request t refundId bankTransactionId =
     bindc (refund_bank S (rr_RefundType request = RT_API) (tx_OrderId t) (rr_Amount request) bankTransactionId refundId
              SERVICE_BANKGW_ERROR) (\<lambda>b. case b of
       Inl e \<Rightarrow> ret (Some e)
     | Inr bankTransactionId \<Rightarrow>
         bindc the_order (\<lambda>d.
         bindc (refund_confirm S (refund_confirm_request request refundId bankTransactionId (rr_RefundType request) d)) (\<lambda>r. case r of
           Inl e \<Rightarrow>
             thenc (update_order (\<lambda>d. d\<lparr>oe_BankTransactionId := bankTransactionId, oe_FailReason := Error e\<rparr>))
            (thenc (through_order (FailedOrder S)) (ret None))
         | Inr refundTransactionId \<Rightarrow>
             thenc (update_order (\<lambda>d. d\<lparr>oe_RefundTransactionId := refundId, oe_BankTransactionId := bankTransactionId\<rparr>))
            (bindc (sendRefundMqttNotify S refundTransactionId) (\<lambda>err. case err of
               Some e \<Rightarrow> ret (Some e)
             | None \<Rightarrow> thenc (through_order (SuccessOrder S)) (ret None))))))"

text \<open>
  The setting of a merchant's configuration: \<open>break\<close> leaves the \<open>switch\<close>, not the loop, so the last one that fits counts.
\<close>

fun choose_setting :: "RefundSetting list \<Rightarrow> string \<Rightarrow> string \<Rightarrow> RefundSetting \<Rightarrow> RefundSetting" where
  "choose_setting [] sourceOfFund settlement chosen = chosen"
| "choose_setting (v # vs) sourceOfFund settlement chosen =
     choose_setting vs sourceOfFund settlement
       (if rs_Status v = ''ACTIVE'' \<and> sourceOfFund \<in> set (rs_SourceOfFunds v) \<and> rs_ConfirmType v = ''AUTO'' \<and>
           rs_PaymentStatus v = (if settlement = STATUS_SUCCESS then ''PAID'' else ''UNPAID'')
        then v else chosen)"

text \<open>The three checks of the error group.\<close>

definition setting_satisfied :: "RefundSetting \<Rightarrow> int64 \<Rightarrow> bool" where
  "setting_satisfied v amount \<longleftrightarrow> v \<noteq> RefundSetting_zero \<and>
     \<not> (rs_RefundCondition v = ''LT'' \<and> sint (rs_RefundValue v) \<le> sint amount) \<and>
     \<not> (rs_RefundCondition v = ''LE'' \<and> sint (rs_RefundValue v) < sint amount)"

definition refund_auto :: "'w services \<Rightarrow> RefundTransactionReq \<Rightarrow> ETransactionDTO \<Rightarrow> string \<Rightarrow> string \<Rightarrow> RefundSetting \<Rightarrow>
    ('w st, goerror option) comp" where
  "refund_auto S request t refundId bankTransactionId v =
     bindc (refund_bank S (rs_RefundType v = ''API'') (tx_OrderId t) (rr_Amount request) bankTransactionId refundId
              SERVICE_BANKGW_ERROR) (\<lambda>b. case b of
       Inl e \<Rightarrow> ret (Some e)
     | Inr bankTransactionId \<Rightarrow>
         bindc the_order (\<lambda>d.
         bindc (refund_confirm S (refund_confirm_request request refundId bankTransactionId
                  (if rs_RefundType v = ''API'' then RT_API else RT_INDIRECT) d)) (\<lambda>r. case r of
           Inl e \<Rightarrow>
             thenc (update_order (\<lambda>d. d\<lparr>oe_BankTransactionId := bankTransactionId, oe_FailReason := Error e\<rparr>))
            (thenc (through_order (FailedOrder S)) (ret (Some e)))
         | Inr refundTransactionId \<Rightarrow>
             thenc (update_order (\<lambda>d. d\<lparr>oe_RefundTransactionId := refundId, oe_BankTransactionId := bankTransactionId\<rparr>))
            (thenc (sendRefundMqttNotify S refundTransactionId)
            (thenc (through_order (SuccessOrder S)) (ret None))))))"

text \<open>The refund waits for an operator unless the configuration of the merchant confirms it.\<close>

definition refund_configured :: "'w services \<Rightarrow> RefundTransactionReq \<Rightarrow> ETransactionDTO \<Rightarrow> string \<Rightarrow> string \<Rightarrow> ('w st, goerror option) comp" where
  "refund_configured S request t refundId bankTransactionId =
     bindc (GetRefundConfig S \<lparr>rcq_MerchantId = rr_MerchantId request, rcq_ServiceType = tx_ServiceType t,
              rcq_TransType = tx_TransactionType t, rcq_SubTransType = tx_SubTransactionType t,
              rcq_SourceOfFund = tx_SourceOfFund t\<rparr>) (\<lambda>r. case r of
       Inl _ \<Rightarrow> ret None
     | Inr config \<Rightarrow>
         if rcr_TransType config \<noteq> tx_TransactionType t then ret None
         else if rcr_SubTransType config \<noteq> [] \<and> tx_SubTransactionType t \<notin> set (rcr_SubTransType config) then ret None
         else (let v = choose_setting (rcr_Settings config) (tx_SourceOfFund t) (tx_StatusSettlement t) RefundSetting_zero in
           if \<not> setting_satisfied v (rr_Amount request) then ret None
           else refund_auto S request t refundId bankTransactionId v))"

definition refund_processing :: "'w services \<Rightarrow> string \<Rightarrow> string \<Rightarrow> ('w st, goerror option) comp" where
  "refund_processing S refundId bankTransactionId =
     thenc (update_order (\<lambda>d. d\<lparr>oe_BankTransactionId := bankTransactionId, oe_RefundTransactionId := refundId\<rparr>))
       (through_order (ProcessingOrder S))"

text \<open>A refund that is open, for a transaction that is finished.\<close>

definition refund_finished :: "'w services \<Rightarrow> RefundTransactionReq \<Rightarrow> ETransactionDTO \<Rightarrow> string \<Rightarrow> string \<Rightarrow> ('w st, goerror option) comp" where
  "refund_finished S request t refundId bankTransactionId =
     bindc (refund_merchant S request t refundId) (\<lambda>short. case short of
       Some e \<Rightarrow> ret (Some e)
     | None \<Rightarrow>
         if rr_MerchantId request = [] \<and> tx_StatusSettlement t = STATUS_SUCCESS
         then refund_processing S refundId bankTransactionId
         else if rr_MerchantId request = [] \<and> tx_StatusSettlement t \<noteq> STATUS_SUCCESS
         then refund_now S request t refundId bankTransactionId
         else bindc (refund_processing S refundId bankTransactionId) (\<lambda>err. case err of
           Some e \<Rightarrow> ret (Some e)
         | None \<Rightarrow> refund_configured S request t refundId bankTransactionId))"

text \<open>Only the error is used by the caller, which has the order anyway.\<close>

definition checkTransactionCondition :: "'w services \<Rightarrow> RefundTransactionReq \<Rightarrow> ETransactionDTO \<Rightarrow> ('w st, goerror option) comp" where
  "checkTransactionCondition S request t =
     bindc the_order (\<lambda>d.
     bindc (act (ts_Refund S (refund_request request d)) (EvRefund (refund_request request d))) (\<lambda>initRefund. case initRefund of
       Inl e \<Rightarrow>
         thenc (update_order (\<lambda>d. d\<lparr>oe_FailReason := Error e\<rparr>)) (thenc (through_order (FailedOrder S)) (ret (Some e)))
     | Inr refundId \<Rightarrow>
         thenc (emit (EvSubmit (JobMerchantRefund d refundId t)))
        (thenc (update_order (\<lambda>d. if oe_RefundSourceOrderId d = [] then d\<lparr>oe_RefundSourceOrderId := tx_OrderId t\<rparr> else d))
        (let bankTransactionId = (if rr_RefundType request = RT_INDIRECT then rr_RefundBankTraceId request else []) in
         if tx_Status t = TRANSACTION_STATUS_FINISH
         then refund_finished S request t refundId bankTransactionId
         else ret (Some (ErrorString (''Transaction'' @ [CHR 0x27] @ ''s status must success'')))))))"

subsection \<open>The operations\<close>

definition InitRefundTrans_order :: "RefundTransactionReq \<Rightarrow> OrderEntity" where
  "InitRefundTrans_order request = OrderEntity_zero\<lparr>
     oe_RefID := rr_MerchantRefRefundId request, oe_SubscribeMerchantID := rr_MerchantId request,
     oe_ServiceType := SERVICE_TYPE_WALLET, oe_OrderType := TRANSTYPE_WALLET_REFUND, oe_Amount := rr_Amount request,
     oe_BankTransactionId := rr_RefundBankTraceId request, oe_Description := ''GD hoan tien'',
     oe_RefundSourceTransactionId := rr_SourceTransactionID request, oe_RefundSourceOrderId := rr_SourceOrderId request,
     oe_RefundType := RefundType_String (rr_RefundType request), oe_MerchantCode := rr_MerchantCode request\<rparr>"

text \<open>Money that was paid from the wallet and settled cannot come back through the bank.\<close>

definition refund_by_api :: "RefundTransactionReq \<Rightarrow> ETransactionDTO \<Rightarrow> bool" where
  "refund_by_api request t \<longleftrightarrow> tx_SourceOfFund t = SOURCE_OF_FUND_BALANCE_WALLET \<and> tx_StatusSettlement t = STATUS_SUCCESS \<and>
     rr_RefundType request = RT_API"

definition InitRefundTrans :: "'w services \<Rightarrow> RefundTransactionReq \<Rightarrow> ('w st, OrderEntity option \<times> goerror option) comp" where
  "InitRefundTrans S request =
     bindc (InitOrder S (InitRefundTrans_order request)) (\<lambda>(initOrder, err). case err of
       Some e \<Rightarrow> ret (None, Some e)
     | None \<Rightarrow>
         thenc (set_order initOrder)
        (bindc (ask (ts_FindByID S (rr_SourceTransactionID request))) (\<lambda>getTranById. case getTranById of
           Inl e \<Rightarrow> ret (initOrder, Some e)
         | Inr t \<Rightarrow>
             if refund_by_api request t then ret (None, Some (ErrorString ''Hinh thuc hoan tien khong hop le''))
             else
               bindc (checkTransactionCondition S request t) (\<lambda>err. bindc (gets order_dto) (\<lambda>d. ret (d, err))))))"

definition ConfirmRefundTrans_request :: "ConfirmRefundTransactionReq \<Rightarrow> string \<Rightarrow> OrderEntity \<Rightarrow> ConfirmRefundReq" where
  "ConfirmRefundTrans_request request bankTransactionId d = \<lparr>
     cr_RefundId = crr_RefundId request, cr_BankTransactionId = bankTransactionId, cr_IgnoreFee = crr_IgnoreFee request,
     cr_IgnorePromotion = crr_IgnorePromotion request, cr_ConfirmByAdmin = crr_ConfirmByAdmin request,
     cr_TypeRefund = (if crr_RefundType request = ''API'' then RT_API
       else if crr_RefundType request = ''INDIRECT'' then RT_INDIRECT else RT_UNKNOWN),
     cr_RefMerchantRefund = oe_RefID d\<rparr>"

definition ConfirmRefundTrans :: "'w services \<Rightarrow> ConfirmRefundTransactionReq \<Rightarrow> ('w st, OrderEntity option \<times> goerror option) comp" where
  "ConfirmRefundTrans S request =
     bindc (GetOrderByRefundId S (crr_RefundId request)) (\<lambda>a. case a of
       Inl e \<Rightarrow> ret (None, Some e)
     | Inr d \<Rightarrow>
         thenc (set_order (Some d))
        (bindc (refund_bank S (crr_RefundType request = ''API'') (oe_RefundSourceOrderId d) (oe_Amount d)
                  (crr_BankTransactionId request) (crr_RefundId request) (SERVICE_BANKGW_ERROR @ ''_refund'')) (\<lambda>b. case b of
           Inl e \<Rightarrow> ret (Some d, Some e)
         | Inr bankTransactionId \<Rightarrow>
             bindc (refund_confirm S (ConfirmRefundTrans_request request bankTransactionId d)) (\<lambda>r. case r of
               Inl e \<Rightarrow>
                 thenc (update_order (\<lambda>d. d\<lparr>oe_FailReason := Error e\<rparr>))
                (thenc (assign_order (FailedOrder S)) (bindc (gets order_dto) (\<lambda>d. ret (d, Some e))))
             | Inr refundTransactionId \<Rightarrow>
                 bindc (sendRefundMqttNotify S refundTransactionId) (\<lambda>err. case err of
                   Some e \<Rightarrow> ret (None, Some e)
                 | None \<Rightarrow> thenc (assign_order (SuccessOrder S)) (bindc (gets order_dto) (\<lambda>d. ret (d, None))))))))"

definition CancelRefundTrans :: "'w services \<Rightarrow> string \<Rightarrow> string \<Rightarrow> string \<Rightarrow> ('w st, goerror option) comp" where
  "CancelRefundTrans S refundId cancelReason confirmByAdmin =
     act (ts_CancelRefund S refundId cancelReason confirmByAdmin) (EvCancelRefund refundId cancelReason confirmByAdmin)"

subsection \<open>The parts of a refund\<close>

lemma ReFund_does:
  "does (ReFund S i a) (bank_call (\<lambda>now. envelope ''refund'' ClientCode ''gpayBankCode'' now (RefundReqData i (sprint (sint a))) ''ip'')
     False False BankGwStatus_IsSuccess)"
  unfolding ReFund_def by (rule bank_request_does)

text \<open>What the bank has paid back, and the id under which it is booked.\<close>

definition paid_back :: "bool \<Rightarrow> string \<Rightarrow> int64 \<Rightarrow> string \<Rightarrow> event list \<Rightarrow> string \<Rightarrow> bool" where
  "paid_back api orderId amount bankId evs bankId' \<longleftrightarrow>
     (if api then \<exists>q res. evs = [EvBank q res None] \<and> bq_Data q = RefundReqData orderId (sprint (sint amount)) \<and>
        BankGwStatus_IsSuccess (br_ErrorCode res) \<and> bankId' = br_BankTransactionId res
      else evs = [] \<and> bankId' = bankId)"

lemma refund_bank_wp:
  assumes "stands s d evs t"
    and "\<And>bs b t'. paid_back api orderId amount bankId bs b \<Longrightarrow> stands s d (evs @ bs) t' \<Longrightarrow> Q (Inr b) t'"
    and "\<And>e t'. Q (Inl e) t'"
  shows "wp (refund_bank S api orderId amount bankId refundId prefix) Q (\<lambda>_. True) t"
proof (cases api)
  case True
  have *: "Q (Inr (br_BankTransactionId r)) t'"
    if "stands s d (evs @ [EvBank (envelope ''refund'' ClientCode ''gpayBankCode'' now (RefundReqData orderId (sprint (sint amount))) ''ip'') res err]) t'"
      "(r, None) = checked False False BankGwStatus_IsSuccess (res, err)" for res r err now t'
    using assms(2) [OF _ that(1)] checked_ok [of False False BankGwStatus_IsSuccess res err r] that(2) True by (simp add: paid_back_def)
  show ?thesis
    using True unfolding refund_bank_def
    by (simp add: wp_bindc, intro stands_does [OF ReFund_does assms(1)])
      (auto simp: bank_call_def wp_rules cancel_refund_def Let_def assms(3) split: option.split prod.split intro: *)
next
  case False
  with assms show ?thesis by (simp add: refund_bank_def wp_rules paid_back_def)
qed

lemma refund_merchant_wp:
  assumes "stands s d evs t"
    and "\<And>t'. tx_MerchantID tr \<noteq> [] \<longrightarrow> (\<exists>w acc. fst (ur_MerchantAccount S (tx_MerchantID tr) w) = Inr acc \<and> \<not> merchant_short acc tr (rr_Amount request)) \<Longrightarrow>
      stands s d evs t' \<Longrightarrow> Q None t'"
    and "\<And>e t'. Q (Some e) t'"
  shows "wp (refund_merchant S request tr refundId) Q (\<lambda>_. True) t"
proof (cases "tx_MerchantID tr = []")
  case True
  then show ?thesis using assms by (simp add: refund_merchant_def wp_rules)
next
  case False
  have fail: "wp (through_order (FailedOrder S)) (\<lambda>a. Q (Some e)) (\<lambda>_. True) t'" for e t'
    by (rule wp_mono [OF wp_True]) (simp_all add: assms(3))
  have *: "wp (case r of Inl e \<Rightarrow> ret (Some e) | Inr acc \<Rightarrow> if merchant_short acc tr (rr_Amount request)
      then (let reason = ''So du merchant khong du'' in thenc (cancel_refund S refundId reason)
        (thenc (update_order (\<lambda>d. d\<lparr>oe_FailReason := reason\<rparr>)) (thenc (through_order (FailedOrder S)) (ret (Some (ErrorString reason))))))
      else ret None) Q (\<lambda>_. True) t'" if "stands s d evs t'" "r = fst (ur_MerchantAccount S (tx_MerchantID tr) w)" for r t' w
  proof (cases r)
    case (Inr acc)
    show ?thesis
    proof (cases "merchant_short acc tr (rr_Amount request)")
      case True
      with Inr show ?thesis
        by (simp add: Let_def cancel_refund_def wp_bindc wp_act wp_updates wp_ret fail split: option.split)
    next
      case False
      with Inr that(2) show ?thesis by (auto simp: wp_ret intro!: assms(2) [OF _ that(1)])
    qed
  qed (simp add: wp_ret assms(3))
  show ?thesis
    using False unfolding refund_merchant_def by (simp add: wp_bindc) (rule stands_ask [OF assms(1)], erule *, rule refl)
qed

lemma sendRefundMqttNotify_wp:
  assumes "stands s d evs t" "\<And>t'. stands s d evs t' \<Longrightarrow> Q None t'" "\<And>e t'. stands s d evs t' \<Longrightarrow> Q (Some e) t'"
  shows "wp (sendRefundMqttNotify S i) Q E t"
  unfolding sendRefundMqttNotify_def wp_bindc
  by (rule stands_ask [OF assms(1)]) (auto simp: wp_bindc wp_ret split: sum.split intro!: assms stands_emit)

text \<open>A refund that was carried out: the bank has paid, the refund is confirmed with the id of the bank, and the order is written as the transaction service answered.\<close>

definition refund_booked :: "RefundTransactionReq \<Rightarrow> string \<Rightarrow> RefundType \<Rightarrow> string \<Rightarrow> OrderEntity \<Rightarrow> event list \<Rightarrow> OrderEntity \<Rightarrow> bool" where
  "refund_booked request refundId ty bankId d evs d' \<longleftrightarrow> (\<exists>x f y.
     evs = [EvConfirmRefund (refund_confirm_request request refundId bankId ty d) x, EvReplaceOrder f d' y] \<and>
     (case x of
        Inl e \<Rightarrow> restamped ORDER_FAILED (d\<lparr>oe_BankTransactionId := bankId, oe_FailReason := Error e\<rparr>) d'
      | Inr _ \<Rightarrow> restamped ORDER_SUCCESS (d\<lparr>oe_RefundTransactionId := refundId, oe_BankTransactionId := bankId\<rparr>) d'))"

lemma refund_fails_wp:
  assumes "stands s d evs t"
    and "\<And>d' f y t'. restamped ORDER_FAILED (g d) d' \<Longrightarrow> stands s d' (evs @ [EvReplaceOrder f d' y]) t' \<Longrightarrow> Q a t'"
  shows "wp (thenc (update_order g) (thenc (through_order (FailedOrder S)) (ret a))) Q E t"
  unfolding wp_bindc wp_ret
  by (rule stands_update [OF assms(1)], rule stands_write [OF FailedOrder_does], assumption) (erule (1) assms(2))

lemma refund_success_wp:
  assumes "stands s d evs t"
    and "\<And>d' f y t'. restamped ORDER_SUCCESS d d' \<Longrightarrow> stands s d' (evs @ [EvReplaceOrder f d' y]) t' \<Longrightarrow> Q a t'"
  shows "wp (thenc (through_order (SuccessOrder S)) (ret a)) Q E t"
  unfolding wp_bindc wp_ret
  by (rule stands_write [OF SuccessOrder_does], rule assms(1)) (erule (1) assms(2))

lemma refund_now_wp:
  assumes "stands s d evs t"
    and R: "\<And>bs b fs d' t'. paid_back (rr_RefundType request = RT_API) (tx_OrderId tr) (rr_Amount request) bankId bs b \<Longrightarrow>
      refund_booked request refundId (rr_RefundType request) b d fs d' \<Longrightarrow> stands s d' (evs @ bs @ fs) t' \<Longrightarrow> R t'"
  shows "succeeds (refund_now S request tr refundId bankId) R t"
  unfolding refund_now_def wp_bindc [of "refund_bank _ _ _ _ _ _ _"]
proof (rule refund_bank_wp [OF assms(1)], goal_cases)
  case (1 bs b t1)
  let ?q = "refund_confirm_request request refundId b (rr_RefundType request) d"
  have booked: "R t'" if "refund_booked request refundId (rr_RefundType request) b d fs d'" "stands s d' ((evs @ bs) @ fs) t'" for fs d' t'
    using R [OF 1(1) that(1)] that(2) by simp
  show ?case
    unfolding sum.case refund_confirm_def wp_bindc [of the_order] wp_bindc [of "act _ _"]
  proof (rule stands_the_order [OF 1(2)], rule stands_act [OF 1(2)], simp, goal_cases)
    case (1 w t2)
    show ?case
    proof (cases "fst (ts_ConfirmRefund S ?q w)")
      case (Inl e)
      show ?thesis
        unfolding Inl sum.case
        by (rule refund_fails_wp [OF 1 [unfolded Inl]]) (use Inl in \<open>auto simp: refund_booked_def intro!: booked\<close>)
    next
      case (Inr r)
      have done': "wp (thenc (through_order (SuccessOrder S)) (ret (None :: goerror option))) (\<lambda>err t. err = None \<longrightarrow> R t) (\<lambda>_. True) t'"
        if "stands s (d\<lparr>oe_RefundTransactionId := refundId, oe_BankTransactionId := b\<rparr>) ((evs @ bs) @ [EvConfirmRefund ?q (Inr r)]) t'" for t'
        by (rule refund_success_wp [OF that]) (auto simp: refund_booked_def intro!: booked)
      show ?thesis
        unfolding Inr sum.case wp_bindc [of "update_order _"] wp_bindc [of "sendRefundMqttNotify _ _"]
        by (rule stands_update [OF 1 [unfolded Inr]], rule sendRefundMqttNotify_wp, assumption)
          (simp_all add: wp_ret done')
    qed
  qed
qed (simp add: wp_ret)

lemma refund_auto_wp:
  assumes "stands s d evs t"
    and R: "\<And>bs b fs d' t'. paid_back (rs_RefundType v = ''API'') (tx_OrderId tr) (rr_Amount request) bankId bs b \<Longrightarrow>
      refund_booked request refundId (if rs_RefundType v = ''API'' then RT_API else RT_INDIRECT) b d fs d' \<Longrightarrow>
      stands s d' (evs @ bs @ fs) t' \<Longrightarrow> R t'"
  shows "succeeds (refund_auto S request tr refundId bankId v) R t"
  unfolding refund_auto_def wp_bindc [of "refund_bank _ _ _ _ _ _ _"]
proof (rule refund_bank_wp [OF assms(1)], goal_cases)
  case (1 bs b t1)
  let ?ty = "if rs_RefundType v = ''API'' then RT_API else RT_INDIRECT"
  let ?q = "refund_confirm_request request refundId b ?ty d"
  have booked: "R t'" if "refund_booked request refundId ?ty b d fs d'" "stands s d' ((evs @ bs) @ fs) t'" for fs d' t'
    using R [OF 1(1) that(1)] that(2) by simp
  show ?case
    unfolding sum.case refund_confirm_def wp_bindc [of the_order] wp_bindc [of "act _ _"]
  proof (rule stands_the_order [OF 1(2)], rule stands_act [OF 1(2)], simp, goal_cases)
    case (1 w t2)
    show ?case
    proof (cases "fst (ts_ConfirmRefund S ?q w)")
      case (Inl e)
      show ?thesis
        unfolding Inl sum.case by (rule refund_fails_wp [OF 1 [unfolded Inl]]) simp
    next
      case (Inr r)
      have done': "wp (thenc (through_order (SuccessOrder S)) (ret (None :: goerror option))) (\<lambda>err t. err = None \<longrightarrow> R t) (\<lambda>_. True) t'"
        if "stands s (d\<lparr>oe_RefundTransactionId := refundId, oe_BankTransactionId := b\<rparr>) ((evs @ bs) @ [EvConfirmRefund ?q (Inr r)]) t'" for t'
        by (rule refund_success_wp [OF that]) (auto simp: refund_booked_def intro!: booked)
      show ?thesis
        unfolding Inr sum.case wp_bindc [of "update_order _"] wp_bindc [of "sendRefundMqttNotify _ _"]
        by (rule stands_update [OF 1 [unfolded Inr]], rule sendRefundMqttNotify_wp, assumption) (simp_all add: done')
    qed
  qed
qed (simp add: wp_ret)

text \<open>A refund that waits for the confirmation of an operator.\<close>

definition refund_waits :: "string \<Rightarrow> string \<Rightarrow> OrderEntity \<Rightarrow> event list \<Rightarrow> OrderEntity \<Rightarrow> bool" where
  "refund_waits refundId bankId d evs d' \<longleftrightarrow> (\<exists>f n. evs = [EvReplaceOrder f d' (Inr (Suc n))] \<and>
     restamped ORDER_PROCESSING (d\<lparr>oe_BankTransactionId := bankId, oe_RefundTransactionId := refundId\<rparr>) d')"

lemma refund_processing_wp:
  assumes "stands s d evs t"
    and "\<And>es d' t'. refund_waits refundId bankId d es d' \<Longrightarrow> stands s d' (evs @ es) t' \<Longrightarrow> Q None t'"
    and "\<And>e t'. Q (Some e) t'"
  shows "wp (refund_processing S refundId bankId) Q E t"
proof -
  have "Q (snd (replaced d' e x)) t'"
    if "restamped ORDER_PROCESSING (d\<lparr>oe_BankTransactionId := bankId, oe_RefundTransactionId := refundId\<rparr>) d'"
      "stands s d' (evs @ [EvReplaceOrder f d' x]) t'" for d' f e x t'
    using assms(2) [where es = "[EvReplaceOrder f d' x]" and d' = d'] assms(3) that
    by (cases "snd (replaced d' e x)") (auto simp: refund_waits_def)
  then show ?thesis
    unfolding refund_processing_def wp_bindc
    by (intro stands_update [OF assms(1)] stands_write [OF ProcessingOrder_does])
qed

text \<open>
  A configuration that is stored for a merchant and a transaction; it confirms the refund when it is for the type of the transaction, and a setting of it
  that fits allows the amount.
\<close>

definition config_found :: "'w services \<Rightarrow> string \<Rightarrow> ETransactionDTO \<Rightarrow> GetRefundConfigRes \<Rightarrow> bool" where
  "config_found S merchantId tr config \<longleftrightarrow> (\<exists>w. fst (mg_FindRefundConfig S \<lparr>rff_TransType = tx_TransactionType tr,
     rff_Status = ''ACTIVE'', rff_SourceOfFund = tx_SourceOfFund tr, rff_MerchantId = Some merchantId\<rparr> w) = Inr config)"

definition config_confirms :: "GetRefundConfigRes \<Rightarrow> ETransactionDTO \<Rightarrow> int64 \<Rightarrow> RefundSetting \<Rightarrow> bool" where
  "config_confirms config tr amount v \<longleftrightarrow> rcr_TransType config = tx_TransactionType tr \<and>
     (rcr_SubTransType config \<noteq> [] \<longrightarrow> tx_SubTransactionType tr \<in> set (rcr_SubTransType config)) \<and>
     v \<in> set (rcr_Settings config) \<and> rs_Status v = ''ACTIVE'' \<and> tx_SourceOfFund tr \<in> set (rs_SourceOfFunds v) \<and>
     rs_ConfirmType v = ''AUTO'' \<and> rs_PaymentStatus v = (if tx_StatusSettlement tr = STATUS_SUCCESS then ''PAID'' else ''UNPAID'') \<and>
     setting_satisfied v amount"

definition setting_fits :: "string \<Rightarrow> string \<Rightarrow> RefundSetting \<Rightarrow> bool" where
  "setting_fits sourceOfFund settlement v \<longleftrightarrow> rs_Status v = ''ACTIVE'' \<and> sourceOfFund \<in> set (rs_SourceOfFunds v) \<and>
     rs_ConfirmType v = ''AUTO'' \<and> rs_PaymentStatus v = (if settlement = STATUS_SUCCESS then ''PAID'' else ''UNPAID'')"

lemma choose_setting_last:
  "choose_setting vs sourceOfFund settlement v =
     (case filter (setting_fits sourceOfFund settlement) (rev vs) of [] \<Rightarrow> v | u # _ \<Rightarrow> u)"
  by (induction vs arbitrary: v) (auto simp: setting_fits_def split: list.split)

lemma choose_setting_fits:
  assumes "choose_setting vs sourceOfFund settlement v = u" "u \<noteq> v"
  shows "u \<in> set vs \<and> setting_fits sourceOfFund settlement u"
proof -
  obtain us where "filter (setting_fits sourceOfFund settlement) (rev vs) = u # us"
    using assms unfolding choose_setting_last by (auto split: list.splits)
  then have "u \<in> set (filter (setting_fits sourceOfFund settlement) (rev vs))" by simp
  then show ?thesis by auto
qed

lemma config_confirmsI:
  assumes "rcr_TransType config = tx_TransactionType tr"
    "\<not> (rcr_SubTransType config \<noteq> [] \<and> tx_SubTransactionType tr \<notin> set (rcr_SubTransType config))"
    "setting_satisfied (choose_setting (rcr_Settings config) (tx_SourceOfFund tr) (tx_StatusSettlement tr) RefundSetting_zero) amount"
  shows "config_confirms config tr amount (choose_setting (rcr_Settings config) (tx_SourceOfFund tr) (tx_StatusSettlement tr) RefundSetting_zero)"
  using assms choose_setting_fits [OF refl, of "rcr_Settings config" "tx_SourceOfFund tr" "tx_StatusSettlement tr" RefundSetting_zero]
  by (auto simp: config_confirms_def setting_fits_def setting_satisfied_def)

text \<open>What follows the opening of a refund: \<open>merchant\<close> tells whether a merchant asks for it.\<close>

definition refund_rest ::
    "'w services \<Rightarrow> RefundTransactionReq \<Rightarrow> ETransactionDTO \<Rightarrow> string \<Rightarrow> string \<Rightarrow> OrderEntity \<Rightarrow> event list \<Rightarrow> OrderEntity \<Rightarrow> bool" where
  "refund_rest S request tr refundId bankId d evs d' \<longleftrightarrow>
     (if rr_MerchantId request = [] \<and> tx_StatusSettlement tr \<noteq> STATUS_SUCCESS
      then \<exists>bs b fs. evs = bs @ fs \<and> paid_back (rr_RefundType request = RT_API) (tx_OrderId tr) (rr_Amount request) bankId bs b \<and>
        refund_booked request refundId (rr_RefundType request) b d fs d'
      else refund_waits refundId bankId d evs d' \<or>
        rr_MerchantId request \<noteq> [] \<and> (\<exists>ws d1 bs b fs config v. evs = ws @ bs @ fs \<and> refund_waits refundId bankId d ws d1 \<and>
          config_found S (rr_MerchantId request) tr config \<and> config_confirms config tr (rr_Amount request) v \<and>
          paid_back (rs_RefundType v = ''API'') (tx_OrderId tr) (rr_Amount request) bankId bs b \<and>
          refund_booked request refundId (if rs_RefundType v = ''API'' then RT_API else RT_INDIRECT) b d1 fs d'))"

lemma refund_configured_wp:
  assumes "stands s d1 (evs @ ws) t" "refund_waits refundId bankId d ws d1" "rr_MerchantId request \<noteq> []"
    and R: "\<And>es d' t'. refund_rest S request tr refundId bankId d es d' \<Longrightarrow> stands s d' (evs @ es) t' \<Longrightarrow> R t'"
  shows "succeeds (refund_configured S request tr refundId bankId) R t"
proof -
  have rest: "refund_rest S request tr refundId bankId d ws d1"
    using assms(2,3) by (simp add: refund_rest_def)
  have auto': "R t'" if "config_found S (rr_MerchantId request) tr config" "config_confirms config tr (rr_Amount request) v"
      "paid_back (rs_RefundType v = ''API'') (tx_OrderId tr) (rr_Amount request) bankId bs b"
      "refund_booked request refundId (if rs_RefundType v = ''API'' then RT_API else RT_INDIRECT) b d1 fs d'"
      "stands s d' ((evs @ ws) @ bs @ fs) t'" for config v bs b fs d' t'
  proof (rule R)
    show "refund_rest S request tr refundId bankId d (ws @ bs @ fs) d'"
      unfolding refund_rest_def using that(1-4) assms(2,3)
      by (simp only: simp_thms if_False) blast
  qed (use that(5) in simp)
  show ?thesis
    unfolding refund_configured_def GetRefundConfig_def wp_bindc
  proof (rule stands_ask [OF assms(1)], goal_cases)
    case (1 w t')
    have "succeeds (refund_auto S request tr refundId bankId v) R t'"
      if "config_found S (rr_MerchantId request) tr config" "config_confirms config tr (rr_Amount request) v" for config v
      by (rule refund_auto_wp [OF 1]) (rule auto' [OF that])
    moreover have "config_found S (rr_MerchantId request) tr config"
      if "fst (mg_FindRefundConfig S \<lparr>rff_TransType = tx_TransactionType tr, rff_Status = ''ACTIVE'',
        rff_SourceOfFund = tx_SourceOfFund tr, rff_MerchantId = Some (rr_MerchantId request)\<rparr> w) = Inr config" for config
      unfolding config_found_def using that by blast
    ultimately show ?case
      using R [OF rest 1] assms(3) by (auto simp: wp_ret Let_def config_confirmsI split: sum.split)
  qed
qed

lemma refund_finished_wp:
  assumes "stands s d evs t"
    and "\<And>es d' t'. refund_rest S request tr refundId bankId d es d' \<Longrightarrow>
      tx_MerchantID tr \<noteq> [] \<longrightarrow> (\<exists>w acc. fst (ur_MerchantAccount S (tx_MerchantID tr) w) = Inr acc \<and> \<not> merchant_short acc tr (rr_Amount request)) \<Longrightarrow>
      stands s d' (evs @ es) t' \<Longrightarrow> R t'"
  shows "succeeds (refund_finished S request tr refundId bankId) R t"
  unfolding refund_finished_def wp_bindc [of "refund_merchant _ _ _ _"]
proof (rule refund_merchant_wp [OF assms(1)], goal_cases)
  case (1 t1)
  note R = assms(2) [OF _ 1(1)]
  have "succeeds (refund_processing S refundId bankId) R t1" if "rr_MerchantId request = []" "tx_StatusSettlement tr = STATUS_SUCCESS"
    by (rule refund_processing_wp [OF 1(2)]) (use that in \<open>auto simp: refund_rest_def intro: R\<close>)
  moreover have "succeeds (refund_now S request tr refundId bankId) R t1"
    if "rr_MerchantId request = []" "tx_StatusSettlement tr \<noteq> STATUS_SUCCESS"
    by (rule refund_now_wp [OF 1(2)], rule R) (use that in \<open>auto simp: refund_rest_def\<close>)
  moreover have "succeeds (bindc (refund_processing S refundId bankId) (\<lambda>err. case err of
      Some e \<Rightarrow> ret (Some e) | None \<Rightarrow> refund_configured S request tr refundId bankId)) R t1" if "rr_MerchantId request \<noteq> []"
    unfolding wp_bindc
    by (rule refund_processing_wp [OF 1(2)]) (auto simp: wp_ret intro!: refund_configured_wp that R)
  ultimately show ?case by simp
qed (simp add: wp_ret)

subsection \<open>Properties\<close>

text \<open>
  A refund of the transaction \<open>tr\<close> without an error: the order is stored, the refund is opened for the requested amount,
  the merchant has the money, and the rest follows the settlement of the transaction and the configuration.
\<close>

definition refund_done :: "'w services \<Rightarrow> RefundTransactionReq \<Rightarrow> ETransactionDTO \<Rightarrow> event list \<Rightarrow> OrderEntity \<Rightarrow> bool" where
  "refund_done S request tr evs d \<longleftrightarrow> (\<exists>now oid d0 refundId es.
     d0 = initial_order (InitRefundTrans_order request) now oid \<and>
     evs = EvInsertOrder d0 None # EvRefund (refund_request request d0) (Inr refundId) # es \<and>
     tx_Status tr = TRANSACTION_STATUS_FINISH \<and> \<not> refund_by_api request tr \<and>
     (tx_MerchantID tr \<noteq> [] \<longrightarrow> (\<exists>w acc. fst (ur_MerchantAccount S (tx_MerchantID tr) w) = Inr acc \<and>
        \<not> merchant_short acc tr (rr_Amount request))) \<and>
     refund_rest S request tr refundId (if rr_RefundType request = RT_INDIRECT then rr_RefundBankTraceId request else [])
       (if rr_SourceOrderId request = [] then d0\<lparr>oe_RefundSourceOrderId := tx_OrderId tr\<rparr> else d0) es d)"

lemma checkTransactionCondition_wp:
  assumes "stands s d evs t"
    and R: "\<And>refundId es d' t'. tx_Status tr = TRANSACTION_STATUS_FINISH \<Longrightarrow>
      tx_MerchantID tr \<noteq> [] \<longrightarrow> (\<exists>w acc. fst (ur_MerchantAccount S (tx_MerchantID tr) w) = Inr acc \<and> \<not> merchant_short acc tr (rr_Amount request)) \<Longrightarrow>
      refund_rest S request tr refundId (if rr_RefundType request = RT_INDIRECT then rr_RefundBankTraceId request else [])
        (if oe_RefundSourceOrderId d = [] then d\<lparr>oe_RefundSourceOrderId := tx_OrderId tr\<rparr> else d) es d' \<Longrightarrow>
      stands s d' (evs @ EvRefund (refund_request request d) (Inr refundId) # es) t' \<Longrightarrow> R t'"
  shows "succeeds (checkTransactionCondition S request tr) R t"
  unfolding checkTransactionCondition_def wp_bindc [of the_order] wp_bindc [of "act _ _"]
proof (rule stands_the_order [OF assms(1)], rule stands_act [OF assms(1)], simp, goal_cases)
  case (1 w t1)
  let ?q = "refund_request request d"
  let ?d = "if oe_RefundSourceOrderId d = [] then d\<lparr>oe_RefundSourceOrderId := tx_OrderId tr\<rparr> else d"
  show ?case
  proof (cases "fst (ts_Refund S ?q w)")
    case (Inl e)
    show ?thesis unfolding Inl sum.case by (rule refund_fails_wp [OF 1]) simp
  next
    case (Inr refundId)
    have "succeeds (refund_finished S request tr refundId b) R t'"
      if "stands s ?d (evs @ [EvRefund ?q (Inr refundId)]) t'" "tx_Status tr = TRANSACTION_STATUS_FINISH"
        "b = (if rr_RefundType request = RT_INDIRECT then rr_RefundBankTraceId request else [])" for b t'
      by (rule refund_finished_wp [OF that(1)], rule R) (use that(2,3) in auto)
    then show ?thesis
      using 1 unfolding Inr sum.case wp_bindc Let_def
      by (elim stands_emit stands_update) (auto simp: wp_ret)
  qed
qed

definition refund_reported :: "'w services \<Rightarrow> RefundTransactionReq \<Rightarrow> 'w st \<Rightarrow> OrderEntity option \<times> goerror option \<Rightarrow> 'w st \<Rightarrow> bool" where
  "refund_reported S request s r t \<longleftrightarrow> (snd r = None \<longrightarrow>
     (\<exists>w tr d evs. fst (ts_FindByID S (rr_SourceTransactionID request) w) = Inr tr \<and> fst r = Some d \<and>
        key (trace t) = key (trace s) @ evs \<and> refund_done S request tr evs d))"

lemma refund_found_wp:
  assumes "stands s (initial_order (InitRefundTrans_order request) now oid)
      [EvInsertOrder (initial_order (InitRefundTrans_order request) now oid) None] u"
    and "fst (ts_FindByID S (rr_SourceTransactionID request) w) = Inr tr" "\<not> refund_by_api request tr"
  shows "wp (bindc (checkTransactionCondition S request tr) (\<lambda>err. bindc (gets order_dto) (\<lambda>d. ret (d, err))))
    (refund_reported S request s) (\<lambda>_. True) u"
proof -
  let ?d0 = "initial_order (InitRefundTrans_order request) now oid"
  have src: "oe_RefundSourceOrderId ?d0 = rr_SourceOrderId request"
    by (simp add: initial_order_def InitRefundTrans_order_def)
  have "succeeds (checkTransactionCondition S request tr) (\<lambda>t. refund_reported S request s (order_dto t, None) t) u"
  proof (rule checkTransactionCondition_wp [OF assms(1)], goal_cases)
    case (1 refundId es d' t')
    then have "refund_done S request tr (EvInsertOrder ?d0 None # EvRefund (refund_request request ?d0) (Inr refundId) # es) d'"
      using assms(3) src unfolding refund_done_def by metis
    with 1(4) assms(2) show ?case unfolding stands_def refund_reported_def by fastforce
  qed
  then show ?thesis unfolding wp_bindc by (rule wp_mono) (auto simp: wp_rules refund_reported_def)
qed


text \<open>A finished payment of a merchant, which is not settled.\<close>

definition refund_services :: "nat services" where
  "refund_services = example_services\<lparr>ts_FindByID := (\<lambda>i w. (Inr (ETransactionDTO_zero\<lparr>tx_TransactionId := i,
     tx_OrderId := ''O7'', tx_MerchantID := ''M1'', tx_Status := TRANSACTION_STATUS_FINISH\<rparr>), w))\<rparr>"

definition example_refund :: RefundTransactionReq where
  "example_refund = \<lparr>rr_SourceTransactionID = ''T7'', rr_Amount = 50000, rr_Reason = ''damaged'', rr_IgnoreFee = False,
     rr_IgnorePromotion = False, rr_Note = [], rr_SourceOrderId = [], rr_MerchantId = [], rr_RefundType = RT_INDIRECT,
     rr_RefundBankTraceId = ''B7'', rr_CreateByAdmin = ''A1'', rr_MerchantRefRefundId = [], rr_MerchantCode = []\<rparr>"

lemma refund_services_sel:
  "ts_FindByID refund_services i w = (Inr (ETransactionDTO_zero\<lparr>tx_TransactionId := i, tx_OrderId := ''O7'', tx_MerchantID := ''M1'',
     tx_Status := TRANSACTION_STATUS_FINISH\<rparr>), w)"
  "ts_Refund refund_services q w = (Inr ''R1'', w)" "ts_ConfirmRefund refund_services c w = (Inr ''R1'', w)"
  "ur_MerchantAccount refund_services i w = (Inr \<lparr>ma_AmountRevenue = 1000000, ma_AmountCash = 0\<rparr>, w)"
  by (simp_all add: refund_services_def example_services_def)

lemma refund_services_obliging: "obliging refund_services"
  by (simp add: obliging_def refund_services_def example_services_def cooperative_user_def example_user_def http_result_def
      BankGwStatus_defs go_consts BankRes_zero_def)

lemma example_refund_runs: "\<exists>p t. InitRefundTrans refund_services example_refund s = (Ret (p, None), t)"
proof -
  have fin: "returns (SuccessOrder refund_services d) (\<lambda>_. True) t" for d t
    by (rule fine_wp [OF order_ops_fine(2) [OF refund_services_obliging]]) simp
  have "wp (checkTransactionCondition refund_services example_refund (ETransactionDTO_zero\<lparr>tx_TransactionId := i, tx_OrderId := ''O7'',
      tx_MerchantID := ''M1'', tx_Status := TRANSACTION_STATUS_FINISH\<rparr>)) (\<lambda>err t. err = None) (\<lambda>_. False) t" if "order_dto t = Some d" for i d t
    using that
    by (simp add: checkTransactionCondition_def refund_finished_def refund_merchant_def refund_now_def refund_bank_def
        refund_confirm_def sendRefundMqttNotify_def through_order_def wp_rules example_refund_def refund_services_sel
        ETransactionDTO_zero_def merchant_short_def go_consts fin split_def Let_def)
  then have check: "wp (checkTransactionCondition refund_services example_refund (ETransactionDTO_zero\<lparr>tx_TransactionId := i, tx_OrderId := ''O7'',
      tx_MerchantID := ''M1'', tx_Status := TRANSACTION_STATUS_FINISH\<rparr>)) (\<lambda>err t. err = None) (\<lambda>_. False) (t\<lparr>order_dto := Some d\<rparr>)" for i d t
    by simp
  have no_api: "\<not> refund_by_api example_refund tr" for tr
    by (simp add: refund_by_api_def example_refund_def)
  have "wp (InitRefundTrans refund_services example_refund) (\<lambda>(p, err) t. err = None) (\<lambda>_. False) s"
    unfolding InitRefundTrans_def wp_bindc
    by (rule fine_wp [OF InitOrder_fine [OF refund_services_obliging]])
      (auto simp: InitRefundTrans_order_def OrderEntity_zero_def wp_rules refund_services_sel no_api
        split: prod.split intro!: wp_mono [OF check])
  then show ?thesis by (auto simp: wp_def split: prod.splits outcome.splits)
qed


end
