(* ===== verification/Virtual_Account.thy ===== *)
theory Virtual_Account
  imports Any_Execution Wallet_Config
begin

text \<open>
  Virtual accounts: the repository (\<open>infrastructure/database_mgo/va_VCCB/va_vccb.go\<close>), the conversion to the
  message (\<open>domain/entities/virtual_accounts.go\<close>), and the operations of the two banks behind the interface \<open>iVa\<close>
  (\<open>application/va.go\<close>).  The laws that the interface promises are the locale \<open>va_provider\<close>, which both banks
  satisfy.  A handler fills \<open>response.DetailVA\<close> and returns an error: its result is the pair of both.
\<close>

subsection \<open>va_vccb.go\<close>

definition MSBLenID :: int where
  "MSBLenID = 7"

definition GetVAByAccountNumber :: "'w services \<Rightarrow> string \<Rightarrow> ('w st, goerror + VirtualAccounts) comp" where
  "GetVAByAccountNumber S accountNumber = ask (mg_FindVA S (ByAccountNumber accountNumber))"

definition GetVAByMapCondition :: "'w services \<Rightarrow> string \<Rightarrow> string \<Rightarrow> string \<Rightarrow> ('w st, goerror + VirtualAccounts) comp" where
  "GetVAByMapCondition S mapId mapType merchantId = ask (mg_FindVA S (ByMap mapId mapType merchantId))"

definition GetVAByMerchantId :: "'w services \<Rightarrow> string \<Rightarrow> ('w st, goerror + VirtualAccounts) comp" where
  "GetVAByMerchantId S merchantId = ask (mg_FindVA S (ByMerchant merchantId))"

text \<open>The counter of account numbers; when there is none yet the first one is inserted.\<close>

definition va_IncrementID :: "'w services \<Rightarrow> string \<Rightarrow> ('w st, goerror + string) comp" where
  "va_IncrementID S prefix =
     bindc (ask (mg_IncMSB S)) (\<lambda>r. case r of
       Inr (i, len) \<Rightarrow> ret (Inr (render_id prefix i len))
     | Inl e \<Rightarrow>
         if e \<noteq> ErrNoDocuments then ret (Inl e)
         else bindc (ask (mg_InsertMSB S 1 MSBLenID)) (\<lambda>err. case err of
           Some e \<Rightarrow> ret (Inl e)
         | None \<Rightarrow> ret (Inr (render_id prefix 1 MSBLenID))))"

definition va_insert :: "'w services \<Rightarrow> VirtualAccounts \<Rightarrow> ('w st, goerror + VirtualAccounts) comp" where
  "va_insert S va =
     bindc (act (mg_InsertVA S va) (EvInsertVA va)) (\<lambda>err. case err of
       Some e \<Rightarrow> ret (Inl e)
     | None \<Rightarrow> GetVAByAccountNumber S (va_AccountNumber va))"

definition va_CreateVA :: "'w services \<Rightarrow> VirtualAccounts \<Rightarrow> ('w st, goerror + VirtualAccounts) comp" where
  "va_CreateVA S request =
     (if va_IsAutoIncrement request \<and> va_Provider request = ''MSB''
      then bindc (va_IncrementID S (sv_msb_prefix S @ va_MerchantIdentifier request)) (\<lambda>r. case r of
        Inl e \<Rightarrow> ret (Inl e)
      | Inr number \<Rightarrow> va_insert S (request\<lparr>va_AccountNumber := number\<rparr>))
      else va_insert S request)"

definition DeleteVAAccount :: "'w services \<Rightarrow> string \<Rightarrow> ('w st, goerror option) comp" where
  "DeleteVAAccount S accountNumber = act (mg_DeleteVA S accountNumber) (EvDeleteVA accountNumber)"

definition IncrementBalanceVA :: "'w services \<Rightarrow> string \<Rightarrow> int64 \<Rightarrow> ('w st, goerror + VirtualAccounts) comp" where
  "IncrementBalanceVA S accountNumber balance =
     bindc (act (mg_IncVA S accountNumber balance) (EvIncrementVA accountNumber balance)) (\<lambda>err. case err of
       Some e \<Rightarrow> ret (Inl e)
     | None \<Rightarrow> GetVAByAccountNumber S accountNumber)"

definition va_UpdateVA :: "'w services \<Rightarrow> string \<Rightarrow> va_field list \<Rightarrow> ('w st, goerror + VirtualAccounts) comp" where
  "va_UpdateVA S accountNumber fieldUpdate =
     bindc (act (mg_SetVA S accountNumber fieldUpdate) (EvUpdateVA accountNumber fieldUpdate)) (\<lambda>err. case err of
       Some e \<Rightarrow> ret (Inl e)
     | None \<Rightarrow> GetVAByAccountNumber S accountNumber)"

subsection \<open>virtual_accounts.go\<close>

record DetailVA_message =
  dv_AccountNumber :: string
  dv_AccountName :: string
  dv_Status :: string
  dv_Balance :: int64
  dv_StartedAt :: "gotime option"
  dv_UpdatedAt :: "gotime option"
  dv_ExpiredDate :: string
  dv_MapId :: string
  dv_MapType :: string
  dv_AccountType :: string
  dv_LimitAmount :: int64
  dv_Provider :: string
  dv_MaxAmount :: int64
  dv_MinAmount :: int64
  dv_EqualAmount :: int64
  dv_AccountTypeManyLimit :: int64

definition va_ConvertToProto :: "VirtualAccounts \<Rightarrow> DetailVA_message" where
  "va_ConvertToProto va = \<lparr>dv_AccountNumber = va_AccountNumber va, dv_AccountName = va_AccountName va, dv_Status = va_Status va,
     dv_Balance = va_Balance va, dv_StartedAt = TimestampProto (va_CreatedAt va), dv_UpdatedAt = TimestampProto (va_UpdatedAt va),
     dv_ExpiredDate = va_ExpiredDate va, dv_MapId = va_MapId va, dv_MapType = va_MapType va, dv_AccountType = va_AccountType va,
     dv_LimitAmount = va_LimitAmount va, dv_Provider = va_Provider va, dv_MaxAmount = va_MaxAmount va,
     dv_MinAmount = va_MinAmount va, dv_EqualAmount = va_EqualAmount va, dv_AccountTypeManyLimit = va_ManyAccountTypeLimit va\<rparr>"

subsection \<open>Requests\<close>

datatype VaAccountType = ONETIME | MANYTIME

fun VaAccountType_String :: "VaAccountType \<Rightarrow> string" where
  "VaAccountType_String ONETIME = ''ONETIME''"
| "VaAccountType_String MANYTIME = ''MANYTIME''"

record CreateVARequest =
  crv_AccountName :: string
  crv_MerchantId :: string
  crv_MerchantCode :: string
  crv_MapId :: string
  crv_MapType :: string
  crv_LimitAmount :: int64
  crv_AccountType :: VaAccountType
  crv_MinAmount :: int64
  crv_MaxAmount :: int64
  crv_EqualAmount :: int64
  crv_ManyTypeAccountLimit :: int64

record UpdateVARequest =
  upv_AccountNumber :: string
  upv_AccountName :: string
  upv_MerchantCode :: string
  upv_MerchantId :: string
  upv_MinAmount :: int64
  upv_MaxAmount :: int64
  upv_EqualAmount :: int64
  upv_ManyTypeAccountLimit :: int64
  upv_AccountType :: VaAccountType

record CloseVARequest =
  clv_AccountNumber :: string
  clv_MerchantCode :: string
  clv_CloseReason :: string
  clv_CloseBy :: string
  clv_MerchantId :: string

record DetailVARequest =
  dtv_AccountNumber :: string
  dtv_MerchantCode :: string
  dtv_MerchantId :: string

record ReOpenVARequest =
  rov_AccountNumber :: string
  rov_MerchantCode :: string
  rov_MerchantId :: string

subsection \<open>What the operations share\<close>

text \<open>The account, when it belongs to the merchant.\<close>

definition owned_va :: "'w services \<Rightarrow> bool \<Rightarrow> string \<Rightarrow> string \<Rightarrow> ('w st, goerror + VirtualAccounts) comp" where
  "owned_va S renamed accountNumber merchantCode =
     bindc (GetVAByAccountNumber S accountNumber) (\<lambda>r. case r of
       Inl e \<Rightarrow> ret (Inl (if renamed \<and> e = ErrNoDocuments
         then ErrorString (''Account Number doesn'' @ [CHR 0x27] @ ''t exist'') else e))
     | Inr va \<Rightarrow>
         if va_MerchantCode va \<noteq> merchantCode
         then ret (Inl (ErrorString (''Invalid Merchant '' @ merchantCode @ '' with account number '' @ accountNumber)))
         else ret (Inr va))"

definition stored_va :: "'w services \<Rightarrow> string \<Rightarrow> va_field list \<Rightarrow> (VirtualAccounts \<Rightarrow> ('w st, goerror option) comp) \<Rightarrow>
    ('w st, DetailVA_message option \<times> goerror option) comp" where
  "stored_va S accountNumber fieldUpdate andThen =
     bindc (va_UpdateVA S accountNumber fieldUpdate) (\<lambda>r. case r of
       Inl e \<Rightarrow> ret (None, Some e)
     | Inr va \<Rightarrow> bindc (andThen va) (\<lambda>err. ret (Some (va_ConvertToProto va), err)))"

text \<open>An error of the fee service is logged, and it is what the operation returns.\<close>

definition log_va_fee :: "'w services \<Rightarrow> string \<Rightarrow> string \<Rightarrow> VaFeeType \<Rightarrow> ('w st, goerror option) comp" where
  "log_va_fee S accountType merchantId vaType =
     (if accountType = VA_ACCOUNT_TYPE_MANY then act (mf_LogVAFee S merchantId vaType) (EvLogVAFee merchantId vaType)
      else ret None)"

definition notify_closed :: "'w services \<Rightarrow> VirtualAccounts \<Rightarrow> ('w st, goerror option) comp" where
  "notify_closed S va =
     thenc (CreateMessageMqtt S TopicMQTTCloseVA MQTTEventBackground TopicMQTTCloseVA (MVA va) False) (ret None)"

definition CreateVARequestData_zero :: CreateVARequestData where
  "CreateVARequestData_zero = \<lparr>cv_AccountName = [], cv_AccountType = [], cv_AccountNumber = [], cv_ReferenceNumber = [],
     cv_Status = [], cv_MaxAmount = [], cv_MinAmount = [], cv_EqualAmount = []\<rparr>"

subsection \<open>MSB\<close>

definition MSB_UpdateVa :: "'w services \<Rightarrow> string \<Rightarrow> UpdateVARequest \<Rightarrow> ('w st, DetailVA_message option \<times> goerror option) comp" where
  "MSB_UpdateVa S name request =
     bindc (owned_va S True (upv_AccountNumber request) (upv_MerchantCode request)) (\<lambda>r. case r of
       Inl e \<Rightarrow> ret (None, Some e)
     | Inr va \<Rightarrow>
         bindc (UpdateVA S (CreateVARequestData_zero\<lparr>cv_AccountName := upv_AccountName request,
                  cv_AccountNumber := upv_AccountNumber request, cv_ReferenceNumber := va_MapId va, cv_Status := ''1'',
                  cv_MaxAmount := sprint (sint (upv_MaxAmount request)), cv_MinAmount := sprint (sint (upv_MinAmount request)),
                  cv_EqualAmount := sprint (sint (upv_EqualAmount request)),
                  cv_AccountType := VaAccountType_String (upv_AccountType request)\<rparr>) name) (\<lambda>(_, err). case err of
           Some e \<Rightarrow> ret (None, Some e)
         | None \<Rightarrow>
             bindc (GetCurrentTime S) (\<lambda>now.
             stored_va S (upv_AccountNumber request)
               [VF_account_name (upv_AccountName request), VF_updated_at now, VF_min_amount (upv_MinAmount request),
                VF_max_amount (upv_MaxAmount request), VF_equal_amount (upv_EqualAmount request),
                VF_account_type (VaAccountType_String (upv_AccountType request)),
                VF_account_type_many_limit (upv_ManyTypeAccountLimit request)] (\<lambda>_. ret None))))"

definition MSB_CloseVa :: "'w services \<Rightarrow> string \<Rightarrow> CloseVARequest \<Rightarrow> ('w st, DetailVA_message option \<times> goerror option) comp" where
  "MSB_CloseVa S name request =
     bindc (owned_va S True (clv_AccountNumber request) (clv_MerchantCode request)) (\<lambda>r. case r of
       Inl e \<Rightarrow> ret (None, Some e)
     | Inr va \<Rightarrow>
         bindc (UpdateVA S (CreateVARequestData_zero\<lparr>cv_AccountNumber := clv_AccountNumber request,
                  cv_ReferenceNumber := va_MapId va, cv_AccountName := va_AccountName va, cv_Status := ''2''\<rparr>) name) (\<lambda>(_, err). case err of
           Some e \<Rightarrow> ret (None, Some e)
         | None \<Rightarrow>
             bindc (GetCurrentTime S) (\<lambda>day. bindc (GetCurrentTime S) (\<lambda>now.
             stored_va S (clv_AccountNumber request)
               [VF_status ''CLOSE'', VF_close_reason (clv_CloseReason request), VF_expire_date (sv_day S day),
                VF_updated_at now, VF_closed_by (clv_CloseBy request)] (notify_closed S)))))"

definition MSB_GetDetailVA :: "'w services \<Rightarrow> DetailVARequest \<Rightarrow> ('w st, DetailVA_message option \<times> goerror option) comp" where
  "MSB_GetDetailVA S request =
     bindc (owned_va S False (dtv_AccountNumber request) (dtv_MerchantCode request)) (\<lambda>r. case r of
       Inl e \<Rightarrow> ret (None, Some e)
     | Inr va \<Rightarrow> ret (Some (va_ConvertToProto va), None))"

definition MSB_ReOpenVa :: "'w services \<Rightarrow> string \<Rightarrow> ReOpenVARequest \<Rightarrow> ('w st, DetailVA_message option \<times> goerror option) comp" where
  "MSB_ReOpenVa S name request =
     bindc (owned_va S True (rov_AccountNumber request) (rov_MerchantCode request)) (\<lambda>r. case r of
       Inl e \<Rightarrow> ret (None, Some e)
     | Inr va \<Rightarrow>
         bindc (UpdateVA S (CreateVARequestData_zero\<lparr>cv_AccountNumber := rov_AccountNumber request, cv_Status := ''1'',
                  cv_ReferenceNumber := va_MapId va, cv_AccountName := va_AccountName va\<rparr>) name) (\<lambda>(_, err). case err of
           Some e \<Rightarrow> ret (None, Some e)
         | None \<Rightarrow>
             bindc (GetCurrentTime S) (\<lambda>now. bindc (GetCurrentTime S) (\<lambda>reopened.
             stored_va S (rov_AccountNumber request) [VF_status ''OPEN'', VF_updated_at now, VF_reopen_time reopened]
               (\<lambda>va. log_va_fee S (va_AccountType va) (va_MerchantId va) VA_RE_OPEN)))))"

definition MSB_account :: "CreateVARequest \<Rightarrow> string \<Rightarrow> gotime \<Rightarrow> gotime \<Rightarrow> VirtualAccounts" where
  "MSB_account request merchantIdentifier createdAt updatedAt = VirtualAccounts_zero\<lparr>
     va_Status := ''OPEN'', va_Provider := MSB, va_Balance := 0, va_AccountName := crv_AccountName request,
     va_AccountType := VaAccountType_String (crv_AccountType request), va_BankCode := MSB, va_CreatedAt := createdAt,
     va_UpdatedAt := updatedAt, va_MerchantId := crv_MerchantId request, va_MerchantCode := crv_MerchantCode request,
     va_MapId := crv_MapId request, va_MapType := crv_MapType request, va_LimitAmount := crv_LimitAmount request,
     va_IsAutoIncrement := True, va_MerchantIdentifier := merchantIdentifier,
     va_ManyAccountTypeLimit := crv_ManyTypeAccountLimit request, va_MinAmount := crv_MinAmount request,
     va_MaxAmount := crv_MaxAmount request, va_EqualAmount := crv_EqualAmount request\<rparr>"

definition MSB_CreateVA ::
    "'w services \<Rightarrow> string \<Rightarrow> string \<Rightarrow> CreateVARequest \<Rightarrow> ('w st, DetailVA_message option \<times> goerror option) comp" where
  "MSB_CreateVA S name merchantIdentifier request =
     bindc (GetCurrentTime S) (\<lambda>createdAt. bindc (GetCurrentTime S) (\<lambda>updatedAt.
     bindc (va_CreateVA S (MSB_account request merchantIdentifier createdAt updatedAt)) (\<lambda>r. case r of
       Inl e \<Rightarrow> ret (None, Some e)
     | Inr va \<Rightarrow>
         bindc (CreateVA S (CreateVARequestData_zero\<lparr>cv_AccountName := va_AccountName va, cv_AccountType := va_AccountType va,
                  cv_AccountNumber := va_AccountNumber va, cv_ReferenceNumber := va_MapId va, cv_Status := ''1'',
                  cv_MaxAmount := sprint (sint (va_MaxAmount va)), cv_MinAmount := sprint (sint (va_MinAmount va)),
                  cv_EqualAmount := sprint (sint (va_EqualAmount va))\<rparr>) name) (\<lambda>(_, err). case err of
           Some bankErr \<Rightarrow>
             bindc (DeleteVAAccount S (va_AccountNumber va)) (\<lambda>err. case err of
               Some e \<Rightarrow> ret (None, Some e)
             | None \<Rightarrow> ret (None, Some (ErrorString (Error bankErr))))
         | None \<Rightarrow>
             bindc (log_va_fee S (VaAccountType_String (crv_AccountType request)) (crv_MerchantId request) VA_NEW_OPEN) (\<lambda>err.
             ret (Some (va_ConvertToProto va), err))))))"

subsection \<open>VCCB\<close>

definition VCCB_UpdateVa :: "'w services \<Rightarrow> string \<Rightarrow> UpdateVARequest \<Rightarrow> ('w st, DetailVA_message option \<times> goerror option) comp" where
  "VCCB_UpdateVa S name request =
     bindc (owned_va S True (upv_AccountNumber request) (upv_MerchantCode request)) (\<lambda>r. case r of
       Inl e \<Rightarrow> ret (None, Some e)
     | Inr va \<Rightarrow>
         bindc (UpdateVA S (CreateVARequestData_zero\<lparr>cv_AccountName := upv_AccountName request,
                  cv_AccountNumber := upv_AccountNumber request\<rparr>) name) (\<lambda>(res, err). case err of
           Some e \<Rightarrow> ret (None, Some e)
         | None \<Rightarrow>
             bindc (GetCurrentTime S) (\<lambda>now.
             stored_va S (upv_AccountNumber request) [VF_account_name (br_AccountName res), VF_updated_at now] (\<lambda>_. ret None))))"

definition VCCB_CloseVa :: "'w services \<Rightarrow> string \<Rightarrow> CloseVARequest \<Rightarrow> ('w st, DetailVA_message option \<times> goerror option) comp" where
  "VCCB_CloseVa S name request =
     bindc (owned_va S True (clv_AccountNumber request) (clv_MerchantCode request)) (\<lambda>r. case r of
       Inl e \<Rightarrow> ret (None, Some e)
     | Inr va \<Rightarrow>
         bindc (CloseVA S (CloseVARequestData (clv_AccountNumber request) []) name) (\<lambda>(res, err). case err of
           Some e \<Rightarrow> ret (None, Some e)
         | None \<Rightarrow>
             bindc (GetCurrentTime S) (\<lambda>now.
             stored_va S (clv_AccountNumber request)
               [VF_status (br_Status res), VF_close_reason (clv_CloseReason request), VF_expire_date (br_ExpireDate res),
                VF_updated_at now, VF_closed_by (clv_CloseBy request)] (notify_closed S))))"

definition VCCB_GetDetailVA :: "'w services \<Rightarrow> string \<Rightarrow> DetailVARequest \<Rightarrow> ('w st, DetailVA_message option \<times> goerror option) comp" where
  "VCCB_GetDetailVA S name request =
     bindc (owned_va S False (dtv_AccountNumber request) (dtv_MerchantCode request)) (\<lambda>r. case r of
       Inl e \<Rightarrow> ret (None, Some e)
     | Inr va \<Rightarrow>
         bindc (DetailVA S (dtv_AccountNumber request) name) (\<lambda>(res, err). case err of
           Some e \<Rightarrow> ret (None, Some e)
         | None \<Rightarrow> ret (Some (va_ConvertToProto (va\<lparr>va_AccountName := br_AccountName res,
             va_AccountNumber := br_AccountNumber res, va_Status := br_Status res, va_ExpiredDate := br_ExpireDate res,
             va_AccountType := br_AccountType res\<rparr>)), None)))"

definition VCCB_ReOpenVa :: "'w services \<Rightarrow> string \<Rightarrow> ReOpenVARequest \<Rightarrow> ('w st, DetailVA_message option \<times> goerror option) comp" where
  "VCCB_ReOpenVa S name request =
     bindc (owned_va S True (rov_AccountNumber request) (rov_MerchantCode request)) (\<lambda>r. case r of
       Inl e \<Rightarrow> ret (None, Some e)
     | Inr va \<Rightarrow>
         bindc (ReOpenVA S (ReOpenVARequestData (rov_AccountNumber request) []) name) (\<lambda>(res, err). case err of
           Some e \<Rightarrow> ret (None, Some e)
         | None \<Rightarrow>
             bindc (GetCurrentTime S) (\<lambda>now. bindc (GetCurrentTime S) (\<lambda>reopened.
             stored_va S (rov_AccountNumber request) [VF_status (br_Status res), VF_updated_at now, VF_reopen_time reopened]
               (\<lambda>va. log_va_fee S (va_AccountType va) (va_MerchantId va) VA_RE_OPEN)))))"

definition VCCB_account :: "CreateVARequest \<Rightarrow> BankRes \<Rightarrow> gotime \<Rightarrow> gotime \<Rightarrow> VirtualAccounts" where
  "VCCB_account request res createdAt updatedAt = VirtualAccounts_zero\<lparr>
     va_Status := br_Status res, va_Provider := VCCB, va_Balance := 0, va_AccountNumber := br_AccountNumber res,
     va_AccountName := br_AccountName res, va_AccountType := VaAccountType_String (crv_AccountType request),
     va_BankCode := VCCB, va_CreatedAt := createdAt, va_UpdatedAt := updatedAt, va_MerchantId := crv_MerchantId request,
     va_MerchantCode := crv_MerchantCode request, va_MapId := crv_MapId request, va_MapType := crv_MapType request,
     va_LimitAmount := crv_LimitAmount request\<rparr>"

definition VCCB_CreateVA :: "'w services \<Rightarrow> string \<Rightarrow> CreateVARequest \<Rightarrow> ('w st, DetailVA_message option \<times> goerror option) comp" where
  "VCCB_CreateVA S name request =
     bindc (CreateVA S (CreateVARequestData_zero\<lparr>cv_AccountName := crv_AccountName request,
              cv_AccountType := VaAccountType_String (crv_AccountType request)\<rparr>) name) (\<lambda>(res, err). case err of
       Some e \<Rightarrow> ret (None, Some e)
     | None \<Rightarrow>
         bindc (GetCurrentTime S) (\<lambda>createdAt. bindc (GetCurrentTime S) (\<lambda>updatedAt.
         bindc (va_CreateVA S (VCCB_account request res createdAt updatedAt)) (\<lambda>r. case r of
           Inl e \<Rightarrow> ret (None, Some e)
         | Inr va \<Rightarrow>
             bindc (log_va_fee S (VaAccountType_String (crv_AccountType request)) (crv_MerchantId request) VA_NEW_OPEN) (\<lambda>err.
             ret (Some (va_ConvertToProto va), err))))))"

subsection \<open>The choice of the bank\<close>

datatype va_strategy = VCCBVa string string | MSBVa string string

text \<open>The first setting for virtual accounts counts; without one the provider is empty.\<close>

fun va_setting :: "MerchantConfigSetting list \<Rightarrow> string \<times> string" where
  "va_setting [] = ([], [])"
| "va_setting (v # vs) = (if mcs_TransType v = TRANSTYPE_PAY_VA then (mcs_Provider v, mcs_VACode v) else va_setting vs)"

definition initVAStrategy :: "'w services \<Rightarrow> string \<Rightarrow> ('w st, va_strategy) comp" where
  "initVAStrategy S merchantId =
     bindc (GetMerchantConfig S \<lparr>mcq_MerchantId = merchantId, mcq_ServiceType = SERVICE_TYPE_COLLECTION_AND_PAY,
              mcq_TransType = TRANSTYPE_PAY_VA, mcq_SubTransType = []\<rparr>) (\<lambda>r. case r of
       Inl _ \<Rightarrow> panic ''Khong tim thay cau hinh''
     | Inr config \<Rightarrow>
         (case va_setting (mcr_Settings config) of (provider, code) \<Rightarrow>
           if provider = VCCB then ret (VCCBVa (''GP'' @ provider) code)
           else if provider = MSB then ret (MSBVa (''GP'' @ provider) code)
           else panic ''Provider is not configured''))"

definition ActionCreateVA :: "'w services \<Rightarrow> CreateVARequest \<Rightarrow> ('w st, DetailVA_message option \<times> goerror option) comp" where
  "ActionCreateVA S req = bindc (initVAStrategy S (crv_MerchantId req)) (\<lambda>strategy. case strategy of
     VCCBVa name _ \<Rightarrow> VCCB_CreateVA S name req | MSBVa name code \<Rightarrow> MSB_CreateVA S name code req)"

definition ActionUpdateVA :: "'w services \<Rightarrow> UpdateVARequest \<Rightarrow> ('w st, DetailVA_message option \<times> goerror option) comp" where
  "ActionUpdateVA S req = bindc (initVAStrategy S (upv_MerchantId req)) (\<lambda>strategy. case strategy of
     VCCBVa name _ \<Rightarrow> VCCB_UpdateVa S name req | MSBVa name _ \<Rightarrow> MSB_UpdateVa S name req)"

definition ActionCloseVA :: "'w services \<Rightarrow> CloseVARequest \<Rightarrow> ('w st, DetailVA_message option \<times> goerror option) comp" where
  "ActionCloseVA S req = bindc (initVAStrategy S (clv_MerchantId req)) (\<lambda>strategy. case strategy of
     VCCBVa name _ \<Rightarrow> VCCB_CloseVa S name req | MSBVa name _ \<Rightarrow> MSB_CloseVa S name req)"

definition ActionGetDetailVA :: "'w services \<Rightarrow> DetailVARequest \<Rightarrow> ('w st, DetailVA_message option \<times> goerror option) comp" where
  "ActionGetDetailVA S req = bindc (initVAStrategy S (dtv_MerchantId req)) (\<lambda>strategy. case strategy of
     VCCBVa name _ \<Rightarrow> VCCB_GetDetailVA S name req | MSBVa _ _ \<Rightarrow> MSB_GetDetailVA S req)"

definition ActionReOpenAccountVA :: "'w services \<Rightarrow> ReOpenVARequest \<Rightarrow> ('w st, DetailVA_message option \<times> goerror option) comp" where
  "ActionReOpenAccountVA S req = bindc (initVAStrategy S (rov_MerchantId req)) (\<lambda>strategy. case strategy of
     VCCBVa name _ \<Rightarrow> VCCB_ReOpenVa S name req | MSBVa name _ \<Rightarrow> MSB_ReOpenVa S name req)"

subsection \<open>The contract of a bank\<close>

text \<open>The account as some state of the collection has it, with its owner.\<close>

definition va_belongs :: "'w services \<Rightarrow> string \<Rightarrow> string \<Rightarrow> bool" where
  "va_belongs S accountNumber merchantCode \<longleftrightarrow>
     (\<exists>w va. fst (mg_FindVA S (ByAccountNumber accountNumber) w) = Inr va \<and> va_MerchantCode va = merchantCode)"

text \<open>What the bank is asked to change: one account.\<close>

fun asks_for :: "BankReqData \<Rightarrow> string \<Rightarrow> bool" where
  "asks_for (CreateVAData q) accountNumber \<longleftrightarrow> cv_AccountNumber q = accountNumber"
| "asks_for (CloseVARequestData n _) accountNumber \<longleftrightarrow> n = accountNumber"
| "asks_for (ReOpenVARequestData n _) accountNumber \<longleftrightarrow> n = accountNumber"
| "asks_for _ _ \<longleftrightarrow> False"

text \<open>
  What a change writes: an update leaves the status alone, a closing records who closed the account and why, a
  reopening writes nothing but the status and the times.
\<close>

fun keeps_status :: "va_field list \<Rightarrow> bool" where
  "keeps_status [] \<longleftrightarrow> True"
| "keeps_status (VF_status _ # fs) \<longleftrightarrow> False"
| "keeps_status (_ # fs) \<longleftrightarrow> keeps_status fs"

definition closed_by :: "CloseVARequest \<Rightarrow> va_field list \<Rightarrow> bool" where
  "closed_by request fs \<longleftrightarrow> VF_close_reason (clv_CloseReason request) \<in> set fs \<and> VF_closed_by (clv_CloseBy request) \<in> set fs"

fun only_status :: "va_field list \<Rightarrow> bool" where
  "only_status [] \<longleftrightarrow> True"
| "only_status (VF_status _ # fs) \<longleftrightarrow> only_status fs"
| "only_status (VF_updated_at _ # fs) \<longleftrightarrow> only_status fs"
| "only_status (VF_reopen_time _ # fs) \<longleftrightarrow> only_status fs"
| "only_status (_ # fs) \<longleftrightarrow> False"

text \<open>
  A change of an account: refused without a call, or the bank is asked first, for this account; only after it accepted is
  the document of this account updated, and then the fee of opening it again may be logged.
\<close>

definition va_changed ::
    "'w services \<Rightarrow> string \<Rightarrow> string \<Rightarrow> (va_field list \<Rightarrow> bool) \<Rightarrow> (DetailVA_message option \<times> goerror option) option \<Rightarrow> event list \<Rightarrow> bool" where
  "va_changed S accountNumber merchantCode allowed r es \<longleftrightarrow>
     es = [] \<and> (case r of None \<Rightarrow> True | Some (p, err) \<Rightarrow> p = None \<and> err \<noteq> None) \<or>
     va_belongs S accountNumber merchantCode \<and> (\<exists>q res bankErr rest. es = EvBank q res bankErr # rest \<and> asks_for (bq_Data q) accountNumber \<and>
       (rest = [] \<and> (\<exists>e. r = Some (None, Some e)) \<or>
        bankErr = None \<and> BankGwStatus_IsSuccess (br_ErrorCode res) \<and> (\<exists>fs x fee. rest = EvUpdateVA accountNumber fs x # fee \<and> allowed fs \<and>
          (fee = [] \<or> x = None \<and> (\<exists>m y. fee = [EvLogVAFee m VA_RE_OPEN y])) \<and>
          (\<exists>p err. r = Some (p, err) \<and> (p \<noteq> None \<longrightarrow> x = None) \<and> (p = None \<longrightarrow> err \<noteq> None)))))"

text \<open>
  Opening an account: refused without a call; or the account is stored and then offered to the bank, and deleted when the
  bank refuses; or the bank opens it and then it is stored.
\<close>

definition va_opened :: "goerror option \<Rightarrow> event list \<Rightarrow> bool" where
  "va_opened err es \<longleftrightarrow> (\<exists>va q res fee m.
     (es = EvInsertVA va None # EvBank q res None # fee \<or> es = EvBank q res None # EvInsertVA va None # fee) \<and>
     BankGwStatus_IsSuccess (br_ErrorCode res) \<and> (fee = [] \<and> err = None \<or> fee = [EvLogVAFee m VA_NEW_OPEN err]))"

definition va_created :: "(DetailVA_message option \<times> goerror option) option \<Rightarrow> event list \<Rightarrow> bool" where
  "va_created r es \<longleftrightarrow>
     es = [] \<and> (case r of None \<Rightarrow> True | Some (p, err) \<Rightarrow> p = None \<and> err \<noteq> None) \<or>
     (\<exists>e va x. es = [EvInsertVA va x] \<and> r = Some (None, Some e)) \<or>
     (\<exists>e q res bankErr. es = [EvBank q res bankErr] \<and> r = Some (None, Some e)) \<or>
     (\<exists>e va q res bankErr number x. es = [EvInsertVA va None, EvBank q res bankErr, EvDeleteVA number x] \<and>
        asks_for (bq_Data q) number \<and> r = Some (None, Some e)) \<or>
     (\<exists>e va q res x. es = [EvBank q res None, EvInsertVA va x] \<and> BankGwStatus_IsSuccess (br_ErrorCode res) \<and> r = Some (None, Some e)) \<or>
     (\<exists>d err. va_opened err es \<and> r = Some (Some d, err))"

locale va_provider =
  fixes S :: "'w services"
    and create :: "CreateVARequest \<Rightarrow> ('w st, DetailVA_message option \<times> goerror option) comp"
    and update :: "UpdateVARequest \<Rightarrow> ('w st, DetailVA_message option \<times> goerror option) comp"
    and close :: "CloseVARequest \<Rightarrow> ('w st, DetailVA_message option \<times> goerror option) comp"
    and detail :: "DetailVARequest \<Rightarrow> ('w st, DetailVA_message option \<times> goerror option) comp"
    and reopen :: "ReOpenVARequest \<Rightarrow> ('w st, DetailVA_message option \<times> goerror option) comp"
  assumes creates: "does (create c) va_created"
    and updates: "does (update u) (va_changed S (upv_AccountNumber u) (upv_MerchantCode u) keeps_status)"
    and closes: "does (close k) (va_changed S (clv_AccountNumber k) (clv_MerchantCode k) (closed_by k))"
    and details: "does (detail g) (\<lambda>r es. es = [] \<and> (\<exists>p err. r = Some (p, err) \<and> (p = None \<longleftrightarrow> err \<noteq> None) \<and>
      (p \<noteq> None \<longrightarrow> va_belongs S (dtv_AccountNumber g) (dtv_MerchantCode g))))"
    and reopens: "does (reopen o') (va_changed S (rov_AccountNumber o') (rov_MerchantCode o') only_status)"

context va_provider
begin

text \<open>A client that reaches the account of another merchant does nothing.\<close>

lemma foreign_untouched:
  "\<not> va_belongs S (upv_AccountNumber u) (upv_MerchantCode u) \<Longrightarrow> quiet (update u)"
  "\<not> va_belongs S (clv_AccountNumber k) (clv_MerchantCode k) \<Longrightarrow> quiet (close k)"
  "\<not> va_belongs S (rov_AccountNumber o') (rov_MerchantCode o') \<Longrightarrow> quiet (reopen o')"
  by (auto intro: does_mono [OF updates] does_mono [OF closes] does_mono [OF reopens] simp: va_changed_def)

end

lemma owned_va_does:
  assumes "\<And>e. Q (Some (None, Some e)) []"
    and "\<And>va. va_belongs S accountNumber merchantCode \<Longrightarrow> does (f va) Q"
  shows "does (bindc (owned_va S renamed accountNumber merchantCode) (\<lambda>r. case r of Inl e \<Rightarrow> ret (None, Some e) | Inr va \<Rightarrow> f va)) Q"
  unfolding owned_va_def GetVAByAccountNumber_def bindc_assoc
  by (rule does_ask_range) (auto split: sum.split intro!: does_rules assms simp: va_belongs_def, blast)

lemma va_bank_does:
  assumes "does call (bank_call q False False BankGwStatus_IsSuccess)"
    and "\<And>now res bankErr e. does (bad e) (\<lambda>r es. Q r (EvBank (q now) res bankErr # es))"
    and "\<And>now res. BankGwStatus_IsSuccess (br_ErrorCode res) \<Longrightarrow> does (f res) (\<lambda>r es. Q r (EvBank (q now) res None # es))"
  shows "does (bindc call (\<lambda>(res, err). case err of Some e \<Rightarrow> bad e | None \<Rightarrow> f res)) Q"
proof (rule does_bindc [OF assms(1)])
  fix a es assume "bank_call q False False BankGwStatus_IsSuccess (Some a) es"
  then obtain now res err where es: "es = [EvBank (q now) res err]" "a = checked False False BankGwStatus_IsSuccess (res, err)"
    by (auto simp: bank_call_def)
  show "does (case a of (res, err) \<Rightarrow> case err of Some e \<Rightarrow> bad e | None \<Rightarrow> f res) (\<lambda>r es'. Q r (es @ es'))"
  proof (cases "snd a")
    case None
    then obtain p where a: "a = (p, None)" by (cases a) simp
    with es(2) have "checked False False BankGwStatus_IsSuccess (res, err) = (p, None)" by simp
    then have "err = None" "p = res" "BankGwStatus_IsSuccess (br_ErrorCode res)" by (simp_all add: checked_ok)
    then show ?thesis using assms(3) [of res now] es(1) a by simp
  next
    case (Some e)
    then obtain p where "a = (p, Some e)" by (cases a) simp
    then show ?thesis using assms(2) es(1) by simp
  qed
qed (simp add: bank_call_def)

lemma stored_va_does:
  assumes "\<And>e x. Q (Some (None, Some e)) [EvUpdateVA accountNumber fieldUpdate x]"
    and "\<And>va. does (f va) (\<lambda>r es. (\<exists>err. r = Some err \<and> Q (Some (Some (va_ConvertToProto va), err)) (EvUpdateVA accountNumber fieldUpdate None # es)))"
  shows "does (stored_va S accountNumber fieldUpdate f) Q"
  unfolding stored_va_def va_UpdateVA_def GetVAByAccountNumber_def bindc_assoc
  by (rule does_act_bindc)
    (auto split: option.split sum.split intro!: does_rules assms does_bindc [OF assms(2)])

lemma log_va_fee_does:
  assumes "Q (Some None) []" "\<And>y. Q (Some y) [EvLogVAFee m ty y]"
  shows "does (log_va_fee S a m ty) Q"
  unfolding log_va_fee_def using assms by (auto intro!: does_rules)

lemma notify_closed_does: "Q (Some None) [] \<Longrightarrow> does (notify_closed S va) Q"
  unfolding notify_closed_def CreateMessageMqtt_def by (rule does_act_bindc) (auto intro: does_rules)

lemma bank_va_does:
  "does (UpdateVA S q name) (bank_call (\<lambda>now. envelope ''va/update'' ''GPAYCORE'' name now (CreateVAData q) ''ip'') False False BankGwStatus_IsSuccess)"
  "does (CreateVA S q name) (bank_call (\<lambda>now. envelope ''va/create'' ''GPAYCORE'' name now (CreateVAData q) ''ip'') False False BankGwStatus_IsSuccess)"
  "does (CloseVA S b name) (bank_call (\<lambda>now. envelope ''va/close'' ''GPAYCORE'' name now b ''ip'') False False BankGwStatus_IsSuccess)"
  "does (ReOpenVA S b name) (bank_call (\<lambda>now. envelope ''va/reopen'' ''GPAYCORE'' name now b ''ip'') False False BankGwStatus_IsSuccess)"
  unfolding UpdateVA_def CreateVA_def CloseVA_def ReOpenVA_def by (rule bank_request_does)+

lemmas va_does = owned_va_does stored_va_does log_va_fee_does notify_closed_does

lemma va_change_does:
  assumes "\<And>va. does (call va) (bank_call (q va) False False BankGwStatus_IsSuccess)" "\<And>va now. asks_for (bq_Data (q va now)) n"
    and "\<And>res fs x e. does (f res) (\<lambda>r es. \<exists>fs x fee p err. es = EvUpdateVA n fs x # fee \<and> F fs \<and>
        (fee = [] \<or> x = None \<and> (\<exists>m y. fee = [EvLogVAFee m VA_RE_OPEN y])) \<and> r = Some (p, err) \<and> (p \<noteq> None \<longrightarrow> x = None) \<and> (p = None \<longrightarrow> err \<noteq> None))"
  shows "does (bindc (owned_va S b n m) (\<lambda>r. case r of Inl e \<Rightarrow> ret (None, Some e)
     | Inr va \<Rightarrow> bindc (call va) (\<lambda>(res, err). case err of Some e \<Rightarrow> ret (None, Some e) | None \<Rightarrow> f res))) (va_changed S n m F)"
proof (rule owned_va_does)
  fix va assume own: "va_belongs S n m"
  show "does (bindc (call va) (\<lambda>(res, err). case err of Some e \<Rightarrow> ret (None, Some e) | None \<Rightarrow> f res)) (va_changed S n m F)"
  proof (rule va_bank_does [OF assms(1)])
    fix now and res :: BankRes assume "BankGwStatus_IsSuccess (br_ErrorCode res)"
    then show "does (f res) (\<lambda>r es. va_changed S n m F r (EvBank (q va now) res None # es))"
      by (intro does_mono [OF assms(3)]) (use own assms(2) in \<open>auto simp: va_changed_def\<close>)
  qed (use own assms(2) in \<open>auto simp: va_changed_def intro!: does_rules\<close>)
qed (simp add: va_changed_def)

lemma va_updates:
  "does (MSB_UpdateVa S name u) (va_changed S (upv_AccountNumber u) (upv_MerchantCode u) keeps_status)"
  "does (VCCB_UpdateVa S name u) (va_changed S (upv_AccountNumber u) (upv_MerchantCode u) keeps_status)"
  unfolding MSB_UpdateVa_def VCCB_UpdateVa_def GetCurrentTime_def
  by (rule va_change_does [OF bank_va_does(1)], simp, intro does_ask_bindc stored_va_does does_ret; simp)+

lemma va_closes:
  "does (MSB_CloseVa S name k) (va_changed S (clv_AccountNumber k) (clv_MerchantCode k) (closed_by k))"
  "does (VCCB_CloseVa S name k) (va_changed S (clv_AccountNumber k) (clv_MerchantCode k) (closed_by k))"
  unfolding MSB_CloseVa_def VCCB_CloseVa_def GetCurrentTime_def
  by (rule va_change_does [OF bank_va_does(1)] va_change_does [OF bank_va_does(3)], simp,
      intro does_ask_bindc stored_va_does notify_closed_does; simp add: closed_by_def)+

lemma va_reopens:
  "does (MSB_ReOpenVa S name k) (va_changed S (rov_AccountNumber k) (rov_MerchantCode k) only_status)"
  "does (VCCB_ReOpenVa S name k) (va_changed S (rov_AccountNumber k) (rov_MerchantCode k) only_status)"
  unfolding MSB_ReOpenVa_def VCCB_ReOpenVa_def GetCurrentTime_def
  by (rule va_change_does [OF bank_va_does(1)] va_change_does [OF bank_va_does(4)], simp,
      intro does_ask_bindc stored_va_does log_va_fee_does; simp)+

lemma va_insert_does: "does (va_insert S va) (\<lambda>r es. \<exists>x. es = [EvInsertVA va x] \<and> r \<noteq> None \<and> ((\<exists>va'. r = Some (Inr va')) \<longrightarrow> x = None))"
  unfolding va_insert_def GetVAByAccountNumber_def by (rule does_act_bindc) (auto split: option.split intro!: does_rules)

lemma va_CreateVA_does:
  "does (va_CreateVA S va) (\<lambda>r es. (es = [] \<and> (\<exists>e. r = Some (Inl e))) \<or>
     (\<exists>va' x. es = [EvInsertVA va' x] \<and> r \<noteq> None \<and> ((\<exists>va''. r = Some (Inr va'')) \<longrightarrow> x = None)))"
proof -
  have id: "does (va_IncrementID S p) (\<lambda>r es. r \<noteq> None \<and> es = [])" for p
    unfolding va_IncrementID_def by (intro does_rules) (auto intro!: does_rules split: sum.split option.split)
  show ?thesis
    unfolding va_CreateVA_def
    by (auto intro!: does_bindc [OF id] does_mono [OF va_insert_does] does_rules split: sum.split)
qed

lemma va_created_refused [simp]: "va_created (Some (None, Some e)) []"
  by (simp add: va_created_def)

lemma va_openedI:
  assumes "BankGwStatus_IsSuccess (br_ErrorCode res)" "fee = [] \<and> err = None \<or> fee = [EvLogVAFee m VA_NEW_OPEN err]"
  shows "va_created (Some (Some d, err)) (EvInsertVA va None # EvBank q res None # fee)"
    and "va_created (Some (Some d, err)) (EvBank q res None # EvInsertVA va None # fee)"
proof -
  have "va_opened err (EvInsertVA va None # EvBank q res None # fee)" "va_opened err (EvBank q res None # EvInsertVA va None # fee)"
    unfolding va_opened_def using assms by blast+
  then show "va_created (Some (Some d, err)) (EvInsertVA va None # EvBank q res None # fee)"
    "va_created (Some (Some d, err)) (EvBank q res None # EvInsertVA va None # fee)"
    unfolding va_created_def by blast+
qed

lemma log_new_va_does:
  "does (bindc (log_va_fee S a m VA_NEW_OPEN) (\<lambda>err. ret (Some d, err)))
     (\<lambda>r es. \<exists>err. r = Some (Some d, err) \<and> (es = [] \<and> err = None \<or> es = [EvLogVAFee m VA_NEW_OPEN err]))"
  unfolding log_va_fee_def by (auto intro!: does_rules)

lemma va_creates:
  "does (MSB_CreateVA S name code c) va_created"
  "does (VCCB_CreateVA S name c) va_created"
proof -
  show "does (MSB_CreateVA S name code c) va_created"
    unfolding MSB_CreateVA_def GetCurrentTime_def
  proof (intro does_ask_bindc does_bindc [OF va_CreateVA_does], goal_cases)
    case (1 createdAt updatedAt r es)
    show ?case
    proof (cases r)
      case (Inl e)
      with 1 show ?thesis by (auto simp: va_created_def intro!: does_rules)
    next
      case (Inr va)
      with 1 obtain va' where es: "es = [EvInsertVA va' None]" by auto
      show ?thesis
        unfolding Inr sum.case
      proof (rule va_bank_does [OF bank_va_does(2)], goal_cases)
        case (1 now res bankErr e)
        show ?case
          unfolding DeleteVAAccount_def es
          by (rule does_act_bindc) (auto simp: va_created_def split: option.split intro!: does_rules)
      next
        case (2 now res)
        then show ?case
          by (intro does_mono [OF log_new_va_does]) (auto simp: es intro: va_openedI)
      qed
    qed
  qed (auto simp: va_created_def)
  show "does (VCCB_CreateVA S name c) va_created"
    unfolding VCCB_CreateVA_def GetCurrentTime_def
  proof (rule va_bank_does [OF bank_va_does(2)], goal_cases)
    case (1 now res bankErr e)
    show ?case by (rule does_ret) (auto simp: va_created_def)
  next
    case (2 now res)
    note ok = 2
    show ?case
    proof (intro does_ask_bindc does_bindc [OF va_CreateVA_does], goal_cases)
      case (1 createdAt updatedAt r es)
      show ?case
      proof (cases r)
        case (Inl e)
        with 1 ok show ?thesis by (auto simp: va_created_def intro!: does_rules)
      next
        case (Inr va)
        with 1 obtain va' where es: "es = [EvInsertVA va' None]" by auto
        show ?thesis
          unfolding Inr sum.case by (rule does_mono [OF log_new_va_does]) (use ok in \<open>auto simp: es intro: va_openedI\<close>)
      qed
    qed (auto simp: va_created_def)
  qed
qed

lemma va_details:
  "does (MSB_GetDetailVA S g) (\<lambda>r es. es = [] \<and> (\<exists>p err. r = Some (p, err) \<and> (p = None \<longleftrightarrow> err \<noteq> None) \<and>
     (p \<noteq> None \<longrightarrow> va_belongs S (dtv_AccountNumber g) (dtv_MerchantCode g))))"
  "does (VCCB_GetDetailVA S name g) (\<lambda>r es. es = [] \<and> (\<exists>p err. r = Some (p, err) \<and> (p = None \<longleftrightarrow> err \<noteq> None) \<and>
     (p \<noteq> None \<longrightarrow> va_belongs S (dtv_AccountNumber g) (dtv_MerchantCode g))))"
  unfolding MSB_GetDetailVA_def VCCB_GetDetailVA_def DetailVA_def httpQuery_def
  by (rule owned_va_does; auto intro!: does_rules split: option.split prod.split)+

interpretation msb: va_provider S "MSB_CreateVA S name code" "MSB_UpdateVa S name" "MSB_CloseVa S name" "MSB_GetDetailVA S" "MSB_ReOpenVa S name"
  for S :: "'w services" and name code
  by unfold_locales (rule va_creates va_updates va_closes va_details va_reopens)+

interpretation vccb: va_provider S "VCCB_CreateVA S name" "VCCB_UpdateVa S name" "VCCB_CloseVa S name" "VCCB_GetDetailVA S name" "VCCB_ReOpenVa S name"
  for S :: "'w services" and name
  by unfold_locales (rule va_creates va_updates va_closes va_details va_reopens)+

subsection \<open>Properties\<close>

text \<open>Whatever bank the configuration names, its contract is the one of the handlers.\<close>

lemma initVAStrategy_does:
  assumes "Q None []" "\<And>name code. does (f (VCCBVa name code)) Q" "\<And>name code. does (f (MSBVa name code)) Q"
  shows "does (bindc (initVAStrategy S merchantId) f) Q"
  unfolding initVAStrategy_def GetMerchantConfig_def bindc_assoc
  by (intro does_ask_bindc) (auto split: sum.split prod.split intro!: assms does_rules)

text \<open>
  C34: updating, closing and reopening a virtual account, with either bank and whatever the services answer, only
  touch an account of the merchant who asks: without one nothing is done and an error is returned; otherwise the bank is
  asked first, for this account, and only when it accepted is the document of this account updated, with fields that fit the
  operation (an update never changes the status, a closing records who closed and why, a reopening changes nothing but the status).
\<close>

theorem VA_changes_guarded:
  "does (ActionUpdateVA S u) (va_changed S (upv_AccountNumber u) (upv_MerchantCode u) keeps_status) \<and>
   does (ActionCloseVA S k) (va_changed S (clv_AccountNumber k) (clv_MerchantCode k) (closed_by k)) \<and>
   does (ActionReOpenAccountVA S o') (va_changed S (rov_AccountNumber o') (rov_MerchantCode o') only_status)"
  unfolding ActionUpdateVA_def ActionCloseVA_def ActionReOpenAccountVA_def
  by (intro conjI initVAStrategy_does)
    (simp_all add: va_changed_def [where r = None] msb.updates vccb.updates msb.closes vccb.closes msb.reopens vccb.reopens)

text \<open>
  A virtual account is opened in one of two orders, which the configured bank decides: stored and then opened by the
  bank, or opened by the bank and then stored; it is reported exactly when both went well (an error of the fee service may
  come with it).  When the bank refuses an account that is already stored, the document is deleted again.
\<close>

theorem ActionCreateVA_opens:
  "does (ActionCreateVA S c) va_created"
  unfolding ActionCreateVA_def
  by (intro initVAStrategy_does) (simp_all add: va_created_def [where r = None] msb.creates vccb.creates)

text \<open>Looking at an account changes nothing, and shows it only to its merchant.\<close>

theorem ActionGetDetailVA_own:
  "does (ActionGetDetailVA S g) (\<lambda>r es. es = [] \<and> (\<forall>d err. r = Some (Some d, err) \<longrightarrow>
     err = None \<and> va_belongs S (dtv_AccountNumber g) (dtv_MerchantCode g)))"
  unfolding ActionGetDetailVA_def
  by (intro initVAStrategy_does) (auto intro: does_mono [OF msb.details] does_mono [OF vccb.details])

end
