(* ===== verification/Strconv.thy ===== *)
theory Strconv
  imports Entities
begin

text \<open>
  \<open>strconv.ParseInt(s, 10, 64)\<close> of the standard library, which the consumer of balance changes uses: the digits are read
  from the left, and the first character that is no digit, or the first digit that leaves 64 bits, decides the error.  A
  number that does not fit comes back as the nearest one that does, a text that is no number as zero.
\<close>

datatype num_error = ErrSyntax | ErrRange

definition is_digit :: "char \<Rightarrow> bool" where
  "is_digit c \<longleftrightarrow> (of_char c :: nat) \<in> {48..57}"

fun ParseUint :: "string \<Rightarrow> nat \<Rightarrow> num_error + nat" where
  "ParseUint [] n = Inr n"
| "ParseUint (c # cs) n =
     (if \<not> is_digit c then Inl ErrSyntax
      else (let n' = 10 * n + (of_char c - 48) in if 2 ^ 64 \<le> n' then Inl ErrRange else ParseUint cs n'))"

definition unsigned_part :: "string \<Rightarrow> num_error + nat" where
  "unsigned_part s = (if s = [] then Inl ErrSyntax else ParseUint s 0)"

definition ParseInt :: "string \<Rightarrow> int64 \<times> num_error option" where
  "ParseInt s =
     (case s of
        [] \<Rightarrow> (0, Some ErrSyntax)
      | c # cs \<Rightarrow>
          (let neg = (c = CHR ''-''); digits = (if c = CHR ''+'' \<or> c = CHR ''-'' then cs else s) in
           case unsigned_part digits of
             Inl ErrSyntax \<Rightarrow> (0, Some ErrSyntax)
           | r \<Rightarrow>
               (let un = (case r of Inr n \<Rightarrow> n | Inl _ \<Rightarrow> 2 ^ 64 - 1) in
                if \<not> neg \<and> 2 ^ 63 \<le> un then (word_of_int (2 ^ 63 - 1), Some ErrRange)
                else if neg \<and> 2 ^ 63 < un then (word_of_int (- (2 ^ 63)), Some ErrRange)
                else (if neg then - word_of_nat un else word_of_nat un, None))))"

text \<open>Division of integers in Go goes towards zero.\<close>

definition go_quot :: "int \<Rightarrow> int \<Rightarrow> int" where
  "go_quot a b = (if 0 \<le> a then a div b else - ((- a) div b))"

subsection \<open>Reading back what was printed\<close>

lemma ParseUint_append:
  "ParseUint (s @ t) n = (case ParseUint s n of Inl e \<Rightarrow> Inl e | Inr m \<Rightarrow> ParseUint t m)"
  by (induction s arbitrary: n) (simp_all add: Let_def)

lemma is_digit_char: "d < (10 :: nat) \<Longrightarrow> is_digit (char_of (48 + d))"
  by (simp add: is_digit_def)

lemma ParseUint_nat_digits: "n < 2 ^ 64 \<Longrightarrow> ParseUint (nat_digits n) 0 = Inr n"
proof (induction n rule: nat_digits.induct)
  case (1 n)
  show ?case
  proof (cases "n < 10")
    case True
    with 1 show ?thesis
      using is_digit_char [of n] of_char_digit [of n] by (simp add: nat_digits.simps [of n])
  next
    case False
    have "n div 10 < 2 ^ 64" using 1(2) by (simp add: less_mult_imp_div_less)
    with 1 False have "ParseUint (nat_digits (n div 10)) 0 = Inr (n div 10)" by blast
    with False 1(2) show ?thesis
      using is_digit_char [of "n mod 10"] of_char_digit [of "n mod 10"]
      by (simp add: nat_digits.simps [of n] ParseUint_append)
  qed
qed

lemma nat_digits_head: "\<exists>c cs. nat_digits n = c # cs \<and> is_digit c"
proof (induction n rule: nat_digits.induct)
  case (1 n)
  show ?case
  proof (cases "n < 10")
    case True
    then show ?thesis using is_digit_char [of n] by (simp add: nat_digits.simps [of n])
  next
    case False
    then obtain c cs where "nat_digits (n div 10) = c # cs" "is_digit c" using 1 by blast
    with False show ?thesis by (simp add: nat_digits.simps [of n])
  qed
qed

lemma unsigned_part_nat_digits: "n < 2 ^ 64 \<Longrightarrow> unsigned_part (nat_digits n) = Inr n"
  by (simp add: unsigned_part_def nat_digits_nonempty ParseUint_nat_digits)

text \<open>
  An amount that was printed in decimal is read back exactly, over the whole range of 64-bit integers,
  the least one included.
\<close>

theorem ParseInt_sprint: "ParseInt (sprint (sint (x :: int64))) = (x, None)"
proof (cases "sint x < 0")
  case True
  let ?n = "nat (- sint x)"
  have n: "?n \<le> 2 ^ 63" using sint_greater_eq [of x] True by simp
  then have "unsigned_part (nat_digits ?n) = Inr ?n" by (intro unsigned_part_nat_digits) simp
  moreover have "- (word_of_nat ?n :: int64) = x"
    using True by (simp flip: word_of_int_minus add: of_nat_nat)
  ultimately show ?thesis using True n by (simp add: ParseInt_def sprint_def)
next
  case False
  let ?n = "nat (sint x)"
  have n: "?n < 2 ^ 63" using sint_less [of x] False by simp
  then have u: "unsigned_part (nat_digits ?n) = Inr ?n" by (intro unsigned_part_nat_digits) simp
  obtain c cs where c: "nat_digits ?n = c # cs" "is_digit c" using nat_digits_head by blast
  then have "c \<noteq> CHR ''-''" "c \<noteq> CHR ''+''" by (auto simp: is_digit_def)
  with u c n False show ?thesis by (simp add: ParseInt_def sprint_def of_nat_nat)
qed

lemma ParseInt_samples:
  "ParseInt ''50000'' = (50000, None)" "ParseInt ''-7'' = (- 7, None)" "ParseInt '''' = (0, Some ErrSyntax)"
  "ParseInt ''12x'' = (0, Some ErrSyntax)" "ParseInt ''9223372036854775808'' = (9223372036854775807, Some ErrRange)"
  by (simp_all add: ParseInt_def unsigned_part_def is_digit_def Let_def)

end
