(* ===== verification/VA_Consumer.thy ===== *)
theory VA_Consumer
  imports Merchant Virtual_Account Strconv
begin

text \<open>
  The consumer of balance changes of virtual accounts, \<open>UpdateBalanceVA\<close> of \<open>application/order_consumer.go\<close>: money that
  a customer has transferred to a virtual account becomes an order and a payment of the merchant.  Its saga has the
  shape of \<open>wallet_payment\<close>.  \<open>proto.Unmarshal\<close> is the parameter \<open>decode\<close>.
\<close>

record VAChangeBalanceResponse =
  vb_AccountNumber :: string
  vb_AccountName :: string
  vb_Currency :: string
  vb_GpayAccountNumber :: string
  vb_Amount :: string
  vb_BankTraceId :: string
  vb_PaymentMethod :: string
  vb_BankTransactionId :: string
  vb_Description :: string
  vb_Time :: int64

definition UpdateBalanceVA_order :: "VAChangeBalanceResponse \<Rightarrow> VirtualAccounts \<Rightarrow> int64 \<Rightarrow> OrderEntity" where
  "UpdateBalanceVA_order m va amount = OrderEntity_zero\<lparr>
     oe_RefID := vb_BankTraceId m, oe_SubscribeMerchantID := va_MerchantId va,
     oe_ServiceType := SERVICE_TYPE_COLLECTION_AND_PAY, oe_OrderType := TRANSTYPE_PAY_VA, oe_Amount := amount,
     oe_MerchantCode := va_MerchantCode va, oe_AccountNo := vb_AccountNumber m,
     oe_BankTransactionId := vb_BankTransactionId m, oe_Description := vb_Description m,
     oe_BankCode := va_Provider va, oe_AccountName := va_AccountName va\<rparr>"

definition UpdateBalanceVA_payment :: "VAChangeBalanceResponse \<Rightarrow> VirtualAccounts \<Rightarrow> int64 \<Rightarrow> OrderEntity \<Rightarrow> ETransactionDTO" where
  "UpdateBalanceVA_payment m va amount d = ETransactionDTO_zero\<lparr>
     tx_Message := oe_Description d, tx_Status := va_MapType va, tx_ServiceType := SERVICE_TYPE_COLLECTION_AND_PAY,
     tx_TransactionType := TRANSTYPE_PAY_VA, tx_Amount := amount, tx_MerchantID := va_MerchantId va,
     tx_RefId := vb_BankTraceId m, tx_OrderId := oe_OrderID d, tx_BankTransactionId := vb_BankTransactionId m,
     tx_BankCode := va_Provider va, tx_AccountVA := vb_AccountNumber m, tx_BankCodeVA := va_Provider va,
     tx_CustomerNameVA := va_AccountName va, tx_TimeSendVA := word_of_int (go_quot (sint (vb_Time m)) 1000),
     tx_MerchantTypeWallet := AmountRevenue, tx_IdentityVANumber := va_MapId va, tx_AccountVAType := va_AccountType va\<rparr>"

definition UpdateBalanceVA_init ::
    "'w services \<Rightarrow> VAChangeBalanceResponse \<Rightarrow> VirtualAccounts \<Rightarrow> int64 \<Rightarrow> ('w st, goerror option) comp" where
  "UpdateBalanceVA_init S m va amount =
     bindc the_order (\<lambda>d. init_trans S True (UpdateBalanceVA_payment m va amount d))"

text \<open>The payment and the time at which the bank saw the money go into the order; the clients are told on the pool.\<close>

definition va_paid :: "VAChangeBalanceResponse \<Rightarrow> ETransactionDTO \<Rightarrow> OrderEntity \<Rightarrow> OrderEntity" where
  "va_paid m t d = d\<lparr>oe_TransactionID := tx_TransactionId t, oe_SucceedAt := go_quot (sint (vb_Time m)) 1000 * 1000000000\<rparr>"

definition UpdateBalanceVA_success :: "'w services \<Rightarrow> VAChangeBalanceResponse \<Rightarrow> ('w st, goerror option) comp" where
  "UpdateBalanceVA_success S m =
     bindc the_trans (\<lambda>t.
     thenc (update_order (va_paid m t))
    (bindc (assign_order (SuccessOrder S)) (\<lambda>err.
     thenc (whenc (err = None) (bindc (gets trans) (\<lambda>t. emit (EvSubmit (JobVABalance t)))))
       (ret err))))"

definition UpdateBalanceVA_steps ::
    "'w services \<Rightarrow> VAChangeBalanceResponse \<Rightarrow> VirtualAccounts \<Rightarrow> int64 \<Rightarrow> 'w st step_def list" where
  "UpdateBalanceVA_steps S m va amount =
     [(''INIT_ORDER'', init_order S (UpdateBalanceVA_order m va amount), comp_order S),
      (''PROCESSING_ORDER'', assign_order (ProcessingOrder S), comp_order S),
      (''INIT_PAYMENT'', UpdateBalanceVA_init S m va amount, comp_init_payment S with_reason internal_err),
      (''FINALIZATION_PAYMENT'', confirm_trans S as_is, comp_pending S False as_is),
      (''SUCCESS_ORDER'', UpdateBalanceVA_success S m, comp_pending S False as_is)]"

text \<open>An account for one payment is closed; only its clients learn when that fails.\<close>

definition close_once :: "'w services \<Rightarrow> string \<Rightarrow> VirtualAccounts \<Rightarrow> ('w st, unit) comp" where
  "close_once S accountNumber va =
     whenc (va_AccountType va = VA_ACCOUNT_TYPE_ONCE)
       (bindc (va_UpdateVA S accountNumber [VF_status ''CLOSE'']) (\<lambda>r. case r of
          Inl _ \<Rightarrow> ret ()
        | Inr _ \<Rightarrow>
            thenc (CreateMessageMqtt S TopicMQTTCloseVA MQTTEventBackground TopicMQTTCloseVA (MVA va) False) (ret ())))"

text \<open>The error of \<open>ParseInt\<close> is ignored.  The order that the saga fills is a new one, not nil.\<close>

definition UpdateBalanceVA ::
    "(string \<Rightarrow> goerror + VAChangeBalanceResponse) \<Rightarrow> 'w services \<Rightarrow> string \<Rightarrow> ('w st, OrderEntity option \<times> goerror option) comp" where
  "UpdateBalanceVA decode S msg = (case decode msg of
     Inl e \<Rightarrow> ret (None, Some e)
   | Inr m \<Rightarrow>
       (let amount = fst (ParseInt (vb_Amount m)) in
        bindc (IncrementBalanceVA S (vb_AccountNumber m) amount) (\<lambda>r. case r of
          Inl e \<Rightarrow> ret (None, Some e)
        | Inr va \<Rightarrow>
            thenc (close_once S (vb_AccountNumber m) va)
           (thenc (modify (fresh_vars (Some OrderEntity_zero)))
              (orchestrate S ''Accounting VA Balance Change Order'' (UpdateBalanceVA_steps S m va amount))))))"

subsection \<open>The saga\<close>

lemma noted_on_pool:
  "(appended s w es)\<lparr>order_dto := Some d, trace := trace s @ es @ [e]\<rparr> =
     (appended s w (es @ [e]))\<lparr>order_dto := Some d, resp_OrderEntity := resp_OrderEntity s\<rparr>"
  by (rule st.equality) simp_all

lemma UpdateBalanceVA_success_succeeds:
  assumes "trans s = Some c"
    and R: "\<And>d d' f n w es m'. order_dto s = Some d \<Longrightarrow> key es = [EvReplaceOrder f d' (Inr (Suc n))] \<Longrightarrow>
      restamped ORDER_SUCCESS (va_paid m c d) d' \<Longrightarrow> R ((appended s w es)\<lparr>order_dto := Some d', resp_OrderEntity := m'\<rparr>)"
  shows "succeeds (UpdateBalanceVA_success S m) R s"
proof (cases "order_dto s")
  case (Some d)
  have "succeeds (assign_order (SuccessOrder S)) (\<lambda>u. R (u\<lparr>trace := trace u @ [EvSubmit (JobVABalance (trans u))]\<rparr>))
      (s\<lparr>order_dto := Some (va_paid m c d)\<rparr>)"
    by (rule assign_order_succeeds [OF SuccessOrder_does])
      (auto simp: noted_on_pool intro!: R [OF Some])
  then have "succeeds (bindc (assign_order (SuccessOrder S)) (\<lambda>err.
      thenc (whenc (err = None) (bindc (gets trans) (\<lambda>t. emit (EvSubmit (JobVABalance t))))) (ret err))) R
      (s\<lparr>order_dto := Some (va_paid m c d)\<rparr>)"
    unfolding wp_bindc by (rule wp_mono) (auto simp: wp_rules)
  then show ?thesis
    unfolding UpdateBalanceVA_success_def wp_bindc [of the_trans] wp_bindc [of "update_order _"] wp_the_trans wp_updates
    by (simp add: assms(1) Some)
qed (simp add: UpdateBalanceVA_success_def wp_rules assms(1))

lemma UpdateBalanceVA_success_goes:
  assumes "obliging S" "order_dto s \<noteq> None" "trans s \<noteq> None"
    and R: "\<And>d w es m'. R ((appended s w es)\<lparr>order_dto := Some d, resp_OrderEntity := m'\<rparr>)"
  shows "goes (UpdateBalanceVA_success S m) R s"
proof -
  obtain c d where cd: "trans s = Some c" "order_dto s = Some d" using assms(2,3) by blast
  have "goes (assign_order (SuccessOrder S)) (\<lambda>u. R (u\<lparr>trace := trace u @ [EvSubmit (JobVABalance (trans u))]\<rparr>))
      (s\<lparr>order_dto := Some (va_paid m c d)\<rparr>)"
    by (rule assign_order_goes [OF order_ops_fine(2) [OF assms(1)]])
      (auto simp: noted_on_pool intro!: R)
  then have "goes (bindc (assign_order (SuccessOrder S)) (\<lambda>err.
      thenc (whenc (err = None) (bindc (gets trans) (\<lambda>t. emit (EvSubmit (JobVABalance t))))) (ret err))) R
      (s\<lparr>order_dto := Some (va_paid m c d)\<rparr>)"
    unfolding wp_bindc by (rule wp_mono) (auto simp: wp_rules)
  then show ?thesis
    unfolding UpdateBalanceVA_success_def wp_bindc [of the_trans] wp_bindc [of "update_order _"] wp_the_trans wp_updates
    by (simp add: cd)
qed

interpretation va_payment: wallet_payment S "UpdateBalanceVA_order m va amount" "UpdateBalanceVA_payment m va amount" unlinked "va_paid m"
    "UpdateBalanceVA_init S m va amount" "UpdateBalanceVA_success S m"
  for S :: "'w services" and m va amount
proof (unfold_locales, goal_cases)
  case (1 s R)
  then show ?case
    unfolding UpdateBalanceVA_init_def wp_bindc wp_the_order
    by (auto split: option.split simp: unlinked_eq intro!: init_trans_succeeds)
next
  case (2 s c R)
  then show ?case by (rule UpdateBalanceVA_success_succeeds)
next
  case (3 s R)
  have "R ((appended s w es)\<lparr>trans := Some t\<rparr>)" for w es t
    using 3(3) [where w = w and es = es and t = t] 3(2) by (metis option.exhaust unlinked_eq)
  with 3(1,2) show ?case
    unfolding UpdateBalanceVA_init_def wp_bindc wp_the_order
    by (auto split: option.split intro!: init_trans_goes)
next
  case (4 s R)
  then show ?case by (rule UpdateBalanceVA_success_goes)
qed

subsection \<open>Properties\<close>

text \<open>An account for one payment is closed before the order is made; the result of that call is not looked at.\<close>

definition closing :: "string \<Rightarrow> VirtualAccounts \<Rightarrow> event list \<Rightarrow> bool" where
  "closing accountNumber va es \<longleftrightarrow>
     (if va_AccountType va = VA_ACCOUNT_TYPE_ONCE then \<exists>x. es = [EvUpdateVA accountNumber [VF_status ''CLOSE''] x] else es = [])"

lemma close_once_does: "does (close_once S n va) (\<lambda>_. closing n va)"
  unfolding close_once_def va_UpdateVA_def GetVAByAccountNumber_def closing_def CreateMessageMqtt_def
  by (auto simp: whenc_def intro!: does_rules split: option.split sum.split)

text \<open>
  C30: a balance change that is consumed without an error has added one amount to
  the account of the message, asked the collection to close that account when it is for one payment only (the result of this is not
  looked at), stored an order of the account's merchant over this
  amount, opened and confirmed one payment for it and marked the order as successful, with the id of the confirmed payment
  and the time of the bank: these money-relevant calls, in this order, and no others.  The amount is the number that
  \<open>ParseInt\<close> reads, whose error is dropped: the amount of the message when that is written as a 64-bit number.
\<close>

theorem UpdateBalanceVA_completes:
  assumes "UpdateBalanceVA decode S msg s = (Ret (p, None), t)" "decode msg = Inr m" "amount = fst (ParseInt (vb_Amount m))"
  shows "(\<exists>w va d close evs. fst (mg_FindVA S (ByAccountNumber (vb_AccountNumber m)) w) = Inr va \<and> p = Some d \<and>
     closing (vb_AccountNumber m) va close \<and>
     key (trace t) = key (trace s) @ EvIncrementVA (vb_AccountNumber m) amount None # close @ evs \<and>
     payment_noted (UpdateBalanceVA_order m va amount) (UpdateBalanceVA_payment m va amount) unlinked (va_paid m) evs d) \<and>
     (\<forall>x :: int64. vb_Amount m = sprint (sint x) \<longrightarrow> amount = x)"
proof -
  let ?Q = "\<lambda>(p, err) t. err = None \<longrightarrow> (\<exists>w va d close evs. fst (mg_FindVA S (ByAccountNumber (vb_AccountNumber m)) w) = Inr va \<and> p = Some d \<and>
     closing (vb_AccountNumber m) va close \<and>
     key (trace t) = key (trace s) @ EvIncrementVA (vb_AccountNumber m) amount None # close @ evs \<and>
     payment_noted (UpdateBalanceVA_order m va amount) (UpdateBalanceVA_payment m va amount) unlinked (va_paid m) evs d)"
  have rest: "wp (thenc (close_once S (vb_AccountNumber m) va) (thenc (modify (fresh_vars (Some OrderEntity_zero)))
      (orchestrate S ''Accounting VA Balance Change Order'' (UpdateBalanceVA_steps S m va amount)))) ?Q (\<lambda>_. True) u"
    if "key (trace u) = key (trace s) @ [EvIncrementVA (vb_AccountNumber m) amount None]"
      "fst (mg_FindVA S (ByAccountNumber (vb_AccountNumber m)) w) = Inr va" for u va w
    unfolding wp_bindc wp_modify
  proof (rule does_wp [OF close_once_does], goal_cases)
    case (1 a w' es)
    show ?case
      by (rule wp_mono [OF va_payment.completes_wp [OF UpdateBalanceVA_steps_def]])
        (use that 1 in \<open>auto simp del: filter_filter\<close>, blast)
  qed simp
  have found: "wp (case r of Inl e \<Rightarrow> ret (None, Some e) | Inr va \<Rightarrow> thenc (close_once S (vb_AccountNumber m) va)
      (thenc (modify (fresh_vars (Some OrderEntity_zero)))
        (orchestrate S ''Accounting VA Balance Change Order'' (UpdateBalanceVA_steps S m va amount)))) ?Q (\<lambda>_. True) (u\<lparr>world := w'\<rparr>)"
    if "key (trace u) = key (trace s) @ [EvIncrementVA (vb_AccountNumber m) amount None]"
      "mg_FindVA S (ByAccountNumber (vb_AccountNumber m)) w = (r, w')" for u r w w'
  proof (cases r)
    case (Inr va)
    show ?thesis unfolding Inr sum.case by (rule rest [of _ w]) (use that Inr in simp_all)
  qed (simp add: wp_ret)
  have "wp (UpdateBalanceVA decode S msg) ?Q (\<lambda>_. True) s"
    unfolding UpdateBalanceVA_def assms(2) sum.case Let_def assms(3) [symmetric] IncrementBalanceVA_def GetVAByAccountNumber_def bindc_assoc
      wp_bindc [of "act _ _"] wp_act
  proof (intro allI impI, goal_cases)
    case (1 a w)
    show ?case
    proof (cases a)
      case None
      show ?thesis
        unfolding None option.case wp_bindc [of "ask _"] wp_ask
        by (intro allI impI, rule found) simp_all
    qed (simp add: wp_ret)
  qed
  from wp_Ret [OF this assms(1)] show ?thesis by (simp add: assms(3) ParseInt_sprint)
qed

definition example_change :: VAChangeBalanceResponse where
  "example_change = \<lparr>vb_AccountNumber = ''9001'', vb_AccountName = ''Shop'', vb_Currency = ''VND'', vb_GpayAccountNumber = ''1'',
     vb_Amount = ''50000'', vb_BankTraceId = ''B1'', vb_PaymentMethod = [], vb_BankTransactionId = ''B2'',
     vb_Description = ''thanks'', vb_Time = 1600000000000\<rparr>"

lemma example_IncrementBalanceVA:
  "IncrementBalanceVA example_services n a s = (Ret (Inr example_va), s\<lparr>trace := trace s @ [EvIncrementVA n a None]\<rparr>)"
  by (cases s) (simp add: IncrementBalanceVA_def GetVAByAccountNumber_def bindc_def act_def ask_def example_services_def)

lemma example_close_once: "close_once S n example_va = ret ()"
  by (simp add: close_once_def whenc_def example_va_def VA_ACCOUNT_TYPE_ONCE_def)

lemma example_change_runs: "\<exists>p t. UpdateBalanceVA (\<lambda>_. Inr example_change) example_services [] example_state = (Ret (p, None), t)"
proof -
  let ?a = "fst (ParseInt (vb_Amount example_change))"
  let ?s = "example_state\<lparr>trace := trace example_state @ [EvIncrementVA (vb_AccountNumber example_change) ?a None]\<rparr>"
  have fresh: "fresh_execution example_services ?s" using example_fresh by (simp add: fresh_execution_def)
  have lucky: "oe_LuckyMoneyID (UpdateBalanceVA_order example_change example_va ?a) = []"
    by (simp add: UpdateBalanceVA_order_def OrderEntity_zero_def)
  obtain d t where run: "orchestrate example_services ''Accounting VA Balance Change Order''
      (UpdateBalanceVA_steps example_services example_change example_va ?a) (fresh_vars (Some OrderEntity_zero) ?s) = (Ret (Some d, None), t)"
    using va_payment.progress [OF UpdateBalanceVA_steps_def example_cooperative fresh lucky] by blast
  have "UpdateBalanceVA (\<lambda>_. Inr example_change) example_services [] example_state =
      orchestrate example_services ''Accounting VA Balance Change Order''
      (UpdateBalanceVA_steps example_services example_change example_va ?a) (fresh_vars (Some OrderEntity_zero) ?s)"
    unfolding UpdateBalanceVA_def sum.case Let_def bindc_def [of "IncrementBalanceVA _ _ _"] example_IncrementBalanceVA
    by (simp add: example_close_once bindc_def [of "modify _"])
  with run show ?thesis by simp
qed

theorem UpdateBalanceVA_completes_witness:
  "\<exists>p t w va d close evs. UpdateBalanceVA (\<lambda>_. Inr example_change) example_services [] example_state = (Ret (p, None), t) \<and>
     fst (mg_FindVA example_services (ByAccountNumber (vb_AccountNumber example_change)) w) = Inr va \<and> p = Some d \<and>
     closing (vb_AccountNumber example_change) va close \<and>
     key (trace t) = key (trace example_state) @ EvIncrementVA (vb_AccountNumber example_change) (fst (ParseInt (vb_Amount example_change))) None # close @ evs \<and>
     payment_noted (UpdateBalanceVA_order example_change va (fst (ParseInt (vb_Amount example_change))))
       (UpdateBalanceVA_payment example_change va (fst (ParseInt (vb_Amount example_change)))) unlinked (va_paid example_change) evs d"
proof -
  obtain p t where run: "UpdateBalanceVA (\<lambda>_. Inr example_change) example_services [] example_state = (Ret (p, None), t)"
    using example_change_runs by blast
  from UpdateBalanceVA_completes [OF run refl refl] run show ?thesis by blast
qed

end
