(* ===== verification/Token_Payment.thy ===== *)
theory Token_Payment
  imports Any_Execution VerifyOTP
begin

text \<open>
  Payments by a linked bank card, without the wallet.  \<open>InitPayByToken\<close> (\<open>application/init_pay_by_token.go\<close>) stores
  the order, opens the payment and asks the bank to take the money.  The bank either takes it at once or wants a
  one-time password first.  The orchestrators \<open>*_with_token\<close> therefore run in one of two ways: with a
  password they look up the order and ask the bank to accept it (\<open>ConfirmPayByToken\<close>), without one
  they call \<open>InitPayByToken\<close> and go on only when the bank has taken the money.  Then the goods are delivered and the payment is confirmed.
  Their common steps are here, their common shape is the contract \<open>token_payment\<close>.
\<close>

subsection \<open>Messages\<close>

record ConfirmPaymentTokenRequest =
  cpt_BankTraceId :: string
  cpt_OrderId :: string
  cpt_LinkId :: int64
  cpt_Otp :: string
  cpt_BankCode :: string
  cpt_GpayBankCode :: string

record InitPaymentTokenRequest =
  ipt_LinkId :: int64
  ipt_Amount :: int64
  ipt_PayerId :: string
  ipt_SubOrderType :: string
  ipt_VoucherCode :: string
  ipt_FeeAmount :: int64
  ipt_DiscountAmount :: int64
  ipt_OrderId :: string
  ipt_OrderType :: string

record InitPaymentTokenResponse =
  ipr_BankTraceId :: string
  ipr_OrderId :: string
  ipr_Status :: string

subsection \<open>InitPayByToken\<close>

definition InitPayByToken_type :: "InitPaymentTokenRequest \<Rightarrow> string" where
  "InitPayByToken_type req =
     (if ipt_OrderType req = TRANSTYPE_PAY_TO_MERCHANT then ipt_OrderType req else TRANSTYPE_WALLET_PAY_BY_TOKEN)"

text \<open>A stored order is taken over, otherwise a new one is built.  \<open>info\<close> is the answer about the link.\<close>

definition InitPayByToken_stored :: "InitPaymentTokenRequest \<Rightarrow> BankRes \<Rightarrow> OrderEntity \<Rightarrow> OrderEntity" where
  "InitPayByToken_stored req info d = (let d = d\<lparr>
       oe_OrderType := InitPayByToken_type req, oe_BankCode := br_BankCode info, oe_GPayBankCode := br_GpayBankCode info,
       oe_UserID := ipt_PayerId req, oe_VoucherCode := ipt_VoucherCode req\<rparr>;
     d = (if ipt_SubOrderType req \<noteq> [] \<and> oe_SubOrderType d \<noteq> SUB_TRANSTYPE_WALLET_APP_TO_APP
          then d\<lparr>oe_SubOrderType := ipt_SubOrderType req\<rparr> else d)
     in d\<lparr>oe_SourceOfFund := SOURCE_OF_FUND_BANK_ATM\<rparr>)"

definition InitPayByToken_new :: "InitPaymentTokenRequest \<Rightarrow> BankRes \<Rightarrow> OrderEntity" where
  "InitPayByToken_new req info = OrderEntity_zero\<lparr>
     oe_Amount := ipt_Amount req, oe_SourceOfFund := SOURCE_OF_FUND_BANK_ATM, oe_OrderType := InitPayByToken_type req,
     oe_BankCode := br_BankCode info, oe_GPayBankCode := br_GpayBankCode info, oe_UserID := ipt_PayerId req,
     oe_SubOrderType := ipt_SubOrderType req, oe_VoucherCode := ipt_VoucherCode req\<rparr>"

definition InitPayByToken_order :: "'w services \<Rightarrow> InitPaymentTokenRequest \<Rightarrow> BankRes \<Rightarrow> ('w st, goerror option) comp" where
  "InitPayByToken_order S req info =
     (if ipt_OrderId req \<noteq> []
      then bindc (GetValidOrder S (ipt_OrderId req)) (\<lambda>r. case r of
             Inl e \<Rightarrow> ret (Some e)
           | Inr d \<Rightarrow> thenc (set_order (Some (InitPayByToken_stored req info d))) (ret None))
      else init_order S (InitPayByToken_new req info))"

definition InitPayByToken_payment :: "InitPaymentTokenRequest \<Rightarrow> OrderEntity \<Rightarrow> ETransactionDTO" where
  "InitPayByToken_payment req d = (let dto = ETransactionDTO_zero\<lparr>
       tx_TransactionType := InitPayByToken_type req, tx_ServiceType := SERVICE_TYPE_WALLET,
       tx_SourceOfFund := SOURCE_OF_FUND_BANK_ATM, tx_PayerId := ipt_PayerId req, tx_OrderId := oe_OrderID d,
       tx_SubTransactionType := oe_SubOrderType d, tx_BankCode := oe_BankCode d, tx_Amount := oe_Amount d,
       tx_AmountDiscount := ipt_DiscountAmount req, tx_AmountFeeGpay := ipt_FeeAmount req,
       tx_VoucherCode := ipt_VoucherCode req, tx_RefId := oe_RefID d, tx_AppId := ipt_SubOrderType req\<rparr>
     in if tx_TransactionType dto = TRANSTYPE_PAY_TO_MERCHANT
        then dto\<lparr>tx_ProviderMerchantID := oe_SubscribeMerchantID d, tx_MerchantID := oe_SubscribeMerchantID d,
               tx_MerchantTypeWallet := AmountRevenue\<rparr>
        else dto)"

text \<open>\<open>find_trans\<close>: the transaction that the order names.\<close>

definition find_trans :: "'w services \<Rightarrow> (OrderEntity \<Rightarrow> ETransactionDTO \<Rightarrow> ETransactionDTO) \<Rightarrow> ('w st, goerror option) comp" where
  "find_trans S h =
     bindc the_order (\<lambda>d.
     bindc (ask (ts_FindByID S (oe_TransactionID d))) (\<lambda>r. case r of
       Inl e \<Rightarrow> ret (Some e)
     | Inr findTranById \<Rightarrow> thenc (set_trans (Some (h d findTranById))) (ret None)))"

definition InitPayByToken_init :: "'w services \<Rightarrow> InitPaymentTokenRequest \<Rightarrow> ('w st, goerror option) comp" where
  "InitPayByToken_init S req =
     link_order (bindc the_order (\<lambda>d.
       if oe_TransactionID d \<noteq> [] then find_trans S (\<lambda>_ t. t)
       else init_trans S True (InitPayByToken_payment req d)))"

text \<open>The local variable \<open>status\<close> is kept in the field of the response that it is copied to.\<close>

definition InitPayByToken_bank :: "'w services \<Rightarrow> InitPaymentTokenRequest \<Rightarrow> string \<Rightarrow> ('w st, goerror option) comp" where
  "InitPayByToken_bank S req codeGpay =
     bindc the_trans (\<lambda>t. bindc the_order (\<lambda>d.
     bindc (bank_CashIn S codeGpay (ipt_LinkId req) (tx_LastAmount t) (oe_OrderID d) (ipt_PayerId req)) (\<lambda>(cashinRes, err).
     case err of
       Some e \<Rightarrow> thenc (set_failReason (Error e)) (ret (Some e))
     | None \<Rightarrow>
         thenc (modify (\<lambda>s. s\<lparr>bankTraceId := br_BankTraceId cashinRes, resp_Status := br_ErrorCode cashinRes\<rparr>)) (ret None))))"

definition InitPayByToken_processing :: "'w services \<Rightarrow> ('w st, goerror option) comp" where
  "InitPayByToken_processing S =
     bindc (gets bankTraceId) (\<lambda>b.
     thenc (update_order (\<lambda>d. d\<lparr>oe_BankTransactionId := b\<rparr>))
    (bindc (assign_order (ProcessingOrder S)) (\<lambda>err.
     thenc (whenc (err = None) (bindc the_order (\<lambda>d.
       modify (\<lambda>s. s\<lparr>resp_BankTraceId := oe_BankTransactionId d, resp_OrderId := oe_OrderID d\<rparr>))))
     (ret err))))"

definition InitPayByToken_steps :: "'w services \<Rightarrow> InitPaymentTokenRequest \<Rightarrow> string \<Rightarrow> 'w st step_def list" where
  "InitPayByToken_steps S req codeGpay =
     [(''INIT_PAYMENT'', InitPayByToken_init S req, ret None),
      (''CASH IN BANKGW'', InitPayByToken_bank S req codeGpay, comp_init_payment S with_bank_reason internal_err),
      (''PROCESSING-ORDER'', InitPayByToken_processing S, ret None)]"

text \<open>
  The order and the transaction are returned by value, here with the response.  What is returned with an error is not
  read by any caller.  \<open>transaction\<close> is a copy of what \<open>trans\<close> points to, which only a compensation changes later.
\<close>

definition InitPayByToken ::
    "'w services \<Rightarrow> InitPaymentTokenRequest \<Rightarrow> ('w st, goerror + OrderEntity \<times> ETransactionDTO \<times> InitPaymentTokenResponse) comp" where
  "InitPayByToken S req =
     thenc (modify (fresh_vars None))
    (bindc (LinkInfo S (ipt_LinkId req)) (\<lambda>(info, err). case err of
       Some e \<Rightarrow> ret (Inl e)
     | None \<Rightarrow>
         bindc (InitPayByToken_order S req info) (\<lambda>err. case err of
           Some e \<Rightarrow> ret (Inl e)
         | None \<Rightarrow>
             bindc (orchestrate S ''InitPayByToken [BANK_ATM SOF]'' (InitPayByToken_steps S req (br_GpayBankCode info))) (\<lambda>(_, err).
             case err of
               Some e \<Rightarrow> ret (Inl e)
             | None \<Rightarrow>
                 bindc the_order (\<lambda>order. bindc the_trans (\<lambda>transaction.
                 bindc (gets (\<lambda>s. \<lparr>ipr_BankTraceId = resp_BankTraceId s, ipr_OrderId = resp_OrderId s, ipr_Status = resp_Status s\<rparr>)) (\<lambda>resp.
                   ret (Inr (order, transaction, resp)))))))))"

subsection \<open>With a password\<close>

definition ConfirmPayByToken :: "'w services \<Rightarrow> ConfirmPaymentTokenRequest \<Rightarrow> ('w st, BankRes \<times> goerror option) comp" where
  "ConfirmPayByToken S req =
     bank_VerifyOTP S (cpt_GpayBankCode req) (cpt_BankTraceId req) (cpt_OrderId req) (cpt_LinkId req) (cpt_Otp req)"

definition token_find :: "'w services \<Rightarrow> ConfirmPaymentTokenRequest \<Rightarrow> ('w st, goerror option) comp" where
  "token_find S k =
     bindc (GetValidOrder S (cpt_OrderId k)) (\<lambda>r. case r of
       Inl e \<Rightarrow> ret (Some e)
     | Inr findOrder \<Rightarrow> thenc (set_order (Some findOrder)) (ret None))"

definition token_voucher :: "'w services \<Rightarrow> string \<Rightarrow> ('w st, goerror option) comp" where
  "token_voucher S code =
     use_voucher S code (\<lambda>d. voucher_request d (oe_Amount d) (oe_SubOrderType d) (oe_SourceOfFund d))"

text \<open>These steps are only there when the password is not empty, so the step does not test it again.\<close>

definition token_otp :: "'w services \<Rightarrow> ConfirmPaymentTokenRequest \<Rightarrow> ('w st, goerror option) comp" where
  "token_otp S k =
     bindc the_order (\<lambda>d.
     bindc (ConfirmPayByToken S \<lparr>cpt_BankTraceId = cpt_BankTraceId k, cpt_OrderId = cpt_OrderId k, cpt_LinkId = cpt_LinkId k,
              cpt_Otp = cpt_Otp k, cpt_BankCode = [], cpt_GpayBankCode = oe_GPayBankCode d\<rparr>) (\<lambda>(cashInVerifyOTP, err).
     case err of
       Some e \<Rightarrow>
         thenc (modify (\<lambda>s. s\<lparr>isFailedOrder := True, bankTraceId := br_BankTraceId cashInVerifyOTP, failReason := Error e\<rparr>))
           (ret (Some e))
     | None \<Rightarrow>
         thenc (modify (\<lambda>s. s\<lparr>bankTraceId := br_BankTraceId cashInVerifyOTP\<rparr>))
        (if BankGwStatus_IsVerifying (br_ErrorCode cashInVerifyOTP)
         then thenc (modify (\<lambda>s. s\<lparr>isTimeOutBank := True\<rparr>)) (ret (Some (ErrorString (br_Message cashInVerifyOTP))))
         else if BankGwStatus_IsWrongOTP (br_ErrorCode cashInVerifyOTP)
         then thenc (modify (\<lambda>s. s\<lparr>isFailedOrder := False\<rparr>)) (ret (Some (ErrorString (br_Message cashInVerifyOTP))))
         else ret None)))"

definition comp_token_otp :: "'w services \<Rightarrow> ('w st, goerror option) comp" where
  "comp_token_otp S =
     bindc (gets with_bank_id) (\<lambda>f.
     thenc (update_trans f)
    (bindc (gets isTimeOutBank) (\<lambda>timedOut.
     if timedOut then thenc (verify_order_unless S) (pending_trans S False as_is)
     else bindc (gets isFailedOrder) (\<lambda>failed.
       if failed then
         bindc (gets with_reason) (\<lambda>f.
         thenc (update_trans f)
        (bindc the_trans (\<lambda>t.
         if tx_Status t \<noteq> TRANSACTION_STATUS_PENDING \<and> tx_Status t \<noteq> TRANSACTION_STATUS_FINISH \<and>
            tx_Status t \<noteq> TRANSACTION_STATUS_FAILED
         then bindc (assign_trans (serviceTransactionCancel S)) (\<lambda>err.
           bindc (gets failReason) (\<lambda>r.
           thenc (update_order (\<lambda>d. d\<lparr>oe_InternalErr := r\<rparr>))
          (thenc (through_order (FailedOrder S)) (ret err))))
         else ret None)))
       else ret None))))"

definition token_otp_steps ::
    "'w services \<Rightarrow> ConfirmPaymentTokenRequest \<Rightarrow> (OrderEntity \<Rightarrow> ETransactionDTO \<Rightarrow> ETransactionDTO) \<Rightarrow>
     ('w st, goerror option) comp \<Rightarrow> 'w st step_def list" where
  "token_otp_steps S k h voucher =
     [(''FIND_ORDER_BY_ID'', token_find S k, ret None),
      (''GET INIT TRANSACTION'', find_trans S h, ret None),
      (''ACCOUNT_VOUCHER'', voucher, comp_voucher S False),
      (''VERITY OTP'', token_otp S k, comp_token_otp S)]"

subsection \<open>Without a password\<close>

text \<open>The discount of the voucher, and the start of the payment; then \<open>order\<close> and \<open>transaction\<close> are what the variables point to.\<close>

definition token_quota :: "OrderRequest \<Rightarrow> int64 \<Rightarrow> string \<Rightarrow> QuotaReq" where
  "token_quota r amount subType = \<lparr>qr_Amount = amount, qr_MerchantId = [], qr_UserId = rq_UserID r,
     qr_ServiceType = SERVICE_TYPE_WALLET, qr_TransType = TRANSTYPE_WALLET_PAY_BY_TOKEN, qr_SubTransType = subType,
     qr_SourceOfFund = SOURCE_OF_FUND_BANK_ATM, qr_IsVerify = True, qr_IsLinkedBank = True, qr_ServiceCode = subType,
     qr_VoucherCode = rq_VoucherCode r\<rparr>"

definition token_discount :: "'w services \<Rightarrow> OrderRequest \<Rightarrow> int64 \<Rightarrow> string \<Rightarrow> ('w st, goerror + int64) comp" where
  "token_discount S r amount subType =
     (if rq_VoucherCode r \<noteq> []
      then bindc (ask (ts_QuotaFee S (token_quota r amount subType))) (\<lambda>q. case q of
             Inl e \<Rightarrow> ret (Inl e)
           | Inr checkFeeQuota \<Rightarrow> ret (Inr (qs_DiscountAmount checkFeeQuota)))
      else ret (Inr 0))"

text \<open>The request that opens the payment.  \<open>orderId\<close> is empty unless a stored order is paid.\<close>

definition token_request ::
    "ConfirmPaymentTokenRequest \<Rightarrow> OrderRequest \<Rightarrow> int64 \<Rightarrow> string \<Rightarrow> string \<Rightarrow> string \<Rightarrow> int64 \<Rightarrow> InitPaymentTokenRequest" where
  "token_request k r amount subType orderType orderId discountAmount = \<lparr>ipt_LinkId = cpt_LinkId k, ipt_Amount = amount,
     ipt_PayerId = rq_UserID r, ipt_SubOrderType = subType, ipt_VoucherCode = rq_VoucherCode r, ipt_FeeAmount = 0,
     ipt_DiscountAmount = discountAmount, ipt_OrderId = orderId, ipt_OrderType = orderType\<rparr>"

definition bypass_voucher :: "'w services \<Rightarrow> OrderRequest \<Rightarrow> int64 \<Rightarrow> string \<Rightarrow> ('w st, goerror option) comp" where
  "bypass_voucher S r amount subType =
     use_voucher S (rq_VoucherCode r) (\<lambda>d. voucher_request d amount subType (rq_SourceOfFund r))"

text \<open>\<open>request\<close> is the \<open>InitPaymentTokenRequest\<close> for a discount, \<open>trace\<close> the variable \<open>bankTraceId\<close>.\<close>

definition token_open ::
    "'w services \<Rightarrow> ('w st, goerror + int64) comp \<Rightarrow> (int64 \<Rightarrow> InitPaymentTokenRequest) \<Rightarrow>
     (OrderEntity \<Rightarrow> InitPaymentTokenResponse \<Rightarrow> string) \<Rightarrow>
     (OrderEntity \<Rightarrow> InitPaymentTokenResponse \<Rightarrow> ('w st, OrderEntity option \<times> goerror option) comp) \<Rightarrow>
     ('w st, OrderEntity option \<times> goerror option) comp" where
  "token_open S disc request btrace body =
     bindc disc (\<lambda>r. case r of
       Inl e \<Rightarrow> ret (Some OrderEntity_zero, Some e)
     | Inr discountAmount \<Rightarrow>
         bindc (InitPayByToken S (request discountAmount)) (\<lambda>r. case r of
           Inl e \<Rightarrow> ret (None, Some e)
         | Inr (order, transaction, ress) \<Rightarrow>
             thenc (modify (\<lambda>s. (fresh_vars (Some order) s)\<lparr>trans := Some transaction, bankTraceId := btrace order ress\<rparr>))
               (body order ress)))"

text \<open>
  The bank has not taken the money: the payment is cancelled and the order failed.  \<open>stamp\<close> is what is
  written into the transaction besides the reason.  The transaction that the cancellation returns is dropped.
\<close>

definition token_fail :: "'w services \<Rightarrow> string \<Rightarrow> ('w st \<Rightarrow> ETransactionDTO \<Rightarrow> ETransactionDTO) \<Rightarrow> ('w st, goerror option) comp" where
  "token_fail S status stamp =
     (if status \<noteq> ''200'' then
        bindc (gets stamp) (\<lambda>f.
        thenc (update_trans (\<lambda>t. (f t)\<lparr>tx_FailReason := SERVICE_BANKGW_ERROR @ ''status '' @ status\<rparr>))
       (bindc the_trans (\<lambda>t.
        bindc (serviceTransactionCancel S t) (\<lambda>(_, err). case err of
          Some e \<Rightarrow> ret (Some e)
        | None \<Rightarrow> thenc (through_order (FailedOrder S)) (ret (Some (ErrorString ''Giao dich that bai'')))))))
      else ret None)"

definition token_bypass_steps ::
    "'w services \<Rightarrow> string \<Rightarrow> ('w st \<Rightarrow> ETransactionDTO \<Rightarrow> ETransactionDTO) \<Rightarrow> ('w st, goerror option) comp \<Rightarrow> 'w st step_def list" where
  "token_bypass_steps S status stamp voucher =
     [(''FAIL ORDER'', token_fail S status stamp, ret None), (''ACCOUNT_VOUCHER'', voucher, comp_voucher S False)]"

subsection \<open>The end\<close>

definition token_finish :: "'w services \<Rightarrow> ('w st \<Rightarrow> ETransactionDTO \<Rightarrow> ETransactionDTO) \<Rightarrow> 'w st step_def list" where
  "token_finish S h =
     [(''FINALIZATION_PAYMENT'', confirm_trans S h, comp_pending S False as_is),
      (''SUCCESS_ORDER'', success_order S, comp_pending S False as_is)]"

text \<open>The two ways.  A request without \<open>ConfirmPaymentTokenRequest\<close> is a nil pointer that is read.\<close>

definition with_token ::
    "ConfirmPaymentTokenRequest option \<Rightarrow> (ConfirmPaymentTokenRequest \<Rightarrow> ('w st, OrderEntity option \<times> goerror option) comp) \<Rightarrow>
     (ConfirmPaymentTokenRequest \<Rightarrow> ('w st, OrderEntity option \<times> goerror option) comp) \<Rightarrow>
     ('w st, OrderEntity option \<times> goerror option) comp" where
  "with_token token verified bypassed =
     thenc (modify (fresh_vars (Some OrderEntity_zero)))
    (bindc (deref token) (\<lambda>k. if cpt_Otp k \<noteq> [] then verified k else bypassed k))"

lemma with_token_wp:
  assumes "\<And>k. token = Some k \<Longrightarrow> cpt_Otp k \<noteq> [] \<Longrightarrow> wp (verified k) Q E (fresh_vars (Some OrderEntity_zero) s)"
    and "\<And>k. token = Some k \<Longrightarrow> cpt_Otp k = [] \<Longrightarrow> wp (bypassed k) Q E (fresh_vars (Some OrderEntity_zero) s)"
    and "token = None \<Longrightarrow> E (fresh_vars (Some OrderEntity_zero) s)"
  shows "wp (with_token token verified bypassed) Q E s"
  unfolding with_token_def wp_bindc wp_modify using assms by (cases token) (auto simp: wp_rules)

subsection \<open>What the steps do when they go well\<close>

lemma succeeds_mono: "succeeds m P s \<Longrightarrow> (\<And>t. P t \<Longrightarrow> R t) \<Longrightarrow> succeeds m R s"
  by (erule wp_mono) auto

lemma goes_mono: "goes m P s \<Longrightarrow> (\<And>t. P t \<Longrightarrow> R t) \<Longrightarrow> goes m R s"
  by (erule wp_mono) auto

text \<open>
  \<open>paying s evs d t v b p u\<close>: since \<open>s\<close> the money-relevant calls \<open>evs\<close> were made, and the variables hold the order, the
  transaction, the voucher, the trace id of the bank and the provider.
\<close>

definition paying ::
    "'w st \<Rightarrow> event list \<Rightarrow> OrderEntity \<Rightarrow> ETransactionDTO \<Rightarrow> string \<Rightarrow> string \<Rightarrow> string \<Rightarrow> 'w st \<Rightarrow> bool" where
  "paying s evs d t v b p u \<longleftrightarrow> key (trace u) = key (trace s) @ evs \<and> order_dto u = Some d \<and> trans u = Some t \<and>
     voucherId u = v \<and> bankTraceId u = b \<and> providerMerchantId u = p"

text \<open>A step that uses the voucher \<open>code\<close>, if there is one.\<close>

definition redeems :: "'w services \<Rightarrow> string \<Rightarrow> ('w st, goerror option) comp \<Rightarrow> bool" where
  "redeems S code m \<longleftrightarrow> (\<forall>s evs d t b p u. paying s evs d t [] b p u \<longrightarrow>
     succeeds m (\<lambda>u. \<exists>vs x v. voucher_used code d x v vs \<and> paying s (evs @ vs) d t v b p u) u) \<and>
     (\<forall>A n. (\<forall>u x. A (EvUseVoucher u x) \<longrightarrow> 0 < n) \<longrightarrow> atmost A n m)"

definition redeems_surely :: "'w services \<Rightarrow> ('w st, goerror option) comp \<Rightarrow> bool" where
  "redeems_surely S m \<longleftrightarrow> (\<forall>s evs d t b p u. paying s evs d t [] b p u \<longrightarrow> obliging S \<longrightarrow>
     goes m (\<lambda>u. \<exists>evs v. paying s evs d t v b p u) u)"

lemma redeemsD:
  assumes "redeems S code m"
  shows "paying s evs d t [] b p u \<Longrightarrow> succeeds m (\<lambda>u. \<exists>vs x v. voucher_used code d x v vs \<and> paying s (evs @ vs) d t v b p u) u"
    and "(\<And>u x. A (EvUseVoucher u x) \<Longrightarrow> 0 < n) \<Longrightarrow> atmost A n m"
  using assms unfolding redeems_def by blast+

lemma redeems_goes:
  assumes "redeems_surely S m" "paying s evs d t [] b p u" "obliging S"
  shows "goes m (\<lambda>u. \<exists>evs v. paying s evs d t v b p u) u"
  using assms unfolding redeems_surely_def by blast

lemma redeems_quiet:
  assumes "redeems S code m"
  shows "atmost (\<lambda>_. False) 0 m" "(\<And>u x. \<not> A (EvUseVoucher u x)) \<Longrightarrow> atmost A 0 m"
  by (rule redeemsD(2) [OF assms]; blast)+

lemma redeems_use_voucher:
  "redeems S code (use_voucher S code (\<lambda>d. voucher_request d (am d) (ty d) (sof d)))"
  unfolding redeems_def
proof (intro conjI allI impI)
  fix s u :: "'a st" and evs d t b p
  assume *: "paying s evs d t [] b p u"
  show "succeeds (use_voucher S code (\<lambda>d. voucher_request d (am d) (ty d) (sof d)))
      (\<lambda>u. \<exists>vs x v. voucher_used code d x v vs \<and> paying s (evs @ vs) d t v b p u) u"
    by (rule use_voucher_succeeds) (use * in \<open>auto simp: voucher_used_def voucher_request_def paying_def simp del: filter_filter\<close>)
qed (rule atmost_use_voucher, blast)

lemma redeems_surely_use_voucher:
  "redeems_surely S (use_voucher S code (\<lambda>d. voucher_request d (am d) (ty d) (sof d)))"
  unfolding redeems_surely_def
  by (intro allI impI, rule use_voucher_goes) (auto simp: paying_def simp del: filter_filter)

lemma token_otp_eq:
  "token_otp S k = VerifyOTP_bank S \<lparr>otp_OrderId = cpt_OrderId k, otp_RefBankTraceID = cpt_BankTraceId k, otp_LinkId = cpt_LinkId k, otp_Otp = cpt_Otp k\<rparr>"
  by (simp add: token_otp_def VerifyOTP_bank_def ConfirmPayByToken_def)

lemma token_find_eq: "token_find S k = VerifyOTP_find S \<lparr>otp_OrderId = cpt_OrderId k, otp_RefBankTraceID = [], otp_LinkId = 0, otp_Otp = []\<rparr>"
  by (simp add: token_find_def VerifyOTP_find_def)

abbreviation (input) token_call :: "ConfirmPaymentTokenRequest \<Rightarrow> OrderEntity \<Rightarrow> gotime \<Rightarrow> BankReq" where
  "token_call k d now \<equiv> envelope ''verifyotp'' ClientCode (oe_GPayBankCode d) now
     (VerifyOTPRequestData (cpt_BankTraceId k) (cpt_LinkId k) (cpt_Otp k) ''MOBILE'' ''verify OTP'' (cpt_OrderId k)) ''ip''"

lemma token_find_succeeds:
  assumes "\<And>d w es. key es = [] \<Longrightarrow> payable_order S (cpt_OrderId k) d \<Longrightarrow> R ((appended s w es)\<lparr>order_dto := Some d\<rparr>)"
  shows "succeeds (token_find S k) R s"
  unfolding token_find_eq by (rule VerifyOTP_find_wp) (simp_all add: assms)

lemma find_trans_succeeds:
  assumes "order_dto s = Some d"
    and "\<And>t w w'. fst (ts_FindByID S (oe_TransactionID d) w) = Inr t \<Longrightarrow> R (s\<lparr>world := w', trans := Some (h d t)\<rparr>)"
  shows "succeeds (find_trans S h) R s"
  unfolding find_trans_def wp_bindc wp_the_order assms(1) option.case wp_ask
proof (intro allI impI)
  fix r w assume "ts_FindByID S (oe_TransactionID d) (world s) = (r, w)"
  then show "wp (case r of Inl e \<Rightarrow> ret (Some e) | Inr t \<Rightarrow> thenc (set_trans (Some (h d t))) (ret None)) (\<lambda>err t. err = None \<longrightarrow> R t) (\<lambda>_. True) (s\<lparr>world := w\<rparr>)"
    using assms(2) [of "world s" _ w] by (cases r) (auto simp: wp_rules)
qed

lemma token_otp_succeeds:
  assumes "paying s evs d t v b p u"
  shows "succeeds (token_otp S k) (\<lambda>u. \<exists>now res. BankGwStatus_IsSuccess (br_ErrorCode res) \<and>
     paying s (evs @ [EvBank (token_call k d now) res None]) d t v (br_BankTraceId res) p u) u"
  unfolding token_otp_eq
  by (rule VerifyOTP_bank_wp [of u d]) (use assms in \<open>auto simp: paying_def simp del: filter_filter\<close>)

lemma redeems_token:
  "redeems S code (token_voucher S code)" "redeems S (rq_VoucherCode r) (bypass_voucher S r amount ty)"
  "redeems_surely S (token_voucher S code)" "redeems_surely S (bypass_voucher S r amount ty)"
  unfolding token_voucher_def bypass_voucher_def by (rule redeems_use_voucher redeems_surely_use_voucher)+

text \<open>When the bank has not taken the money the step always ends in an error.\<close>

lemma token_fail_errs:
  assumes "status \<noteq> ''200''"
  shows "wp (token_fail S status stamp) (\<lambda>err _. err \<noteq> None) (\<lambda>_. True) s"
proof -
  have "wp (thenc (through_order (FailedOrder S)) (ret (Some e))) (\<lambda>err _. err \<noteq> None) (\<lambda>_. True) u" for e :: goerror and u :: "'a st"
    unfolding wp_bindc by (rule wp_mono [OF wp_True]) (simp_all add: wp_ret)
  then have "wp (serviceTransactionCancel S t) (\<lambda>(_, err). wp (case err of Some e \<Rightarrow> ret (Some e)
      | None \<Rightarrow> thenc (through_order (FailedOrder S)) (ret (Some (ErrorString ''Giao dich that bai'')))) (\<lambda>err _. err \<noteq> None) (\<lambda>_. True)) (\<lambda>_. True) u" for t and u :: "'a st"
    by (intro wp_mono [OF wp_True [of "serviceTransactionCancel S t" u]]) (auto simp: wp_ret split: option.split)
  then show ?thesis
    unfolding token_fail_def if_P [OF assms] wp_bindc wp_gets wp_updates wp_the_trans by (auto simp: wp_case_prod split: option.split)
qed

subsection \<open>The contract\<close>

text \<open>The calls that deliver something or settle a payment.\<close>

fun delivers :: "event \<Rightarrow> bool" where
  "delivers (EvTopup _ _) = True" | "delivers (EvBuyCard _ _) = True" | "delivers (EvPaidBill _ _) = True"
| "delivers (EvConfirm _ _) = True" | "delivers _ = False"

lemma foreign_delivers [simp]: "foreign delivers"
  by (auto simp: foreign_def elim: compensating.elims)

text \<open>
  What an orchestrator delivers between the bank and the end: the steps \<open>mid\<close> sell, \<open>sold\<close> says
  what they did and how the transaction and the provider have changed, \<open>fin\<close> is what the confirmation writes into the transaction.
\<close>

definition token_paid ::
    "(OrderEntity \<Rightarrow> ETransactionDTO \<Rightarrow> ETransactionDTO \<Rightarrow> string \<Rightarrow> event list \<Rightarrow> bool) \<Rightarrow>
     (string \<Rightarrow> string \<Rightarrow> string \<Rightarrow> ETransactionDTO \<Rightarrow> ETransactionDTO) \<Rightarrow>
     OrderEntity \<Rightarrow> ETransactionDTO \<Rightarrow> string \<Rightarrow> string \<Rightarrow> event list \<Rightarrow> OrderEntity \<Rightarrow> bool" where
  "token_paid sold fin d t v b es d' \<longleftrightarrow> (\<exists>t' p sale c f n. sold d t t' p sale \<and>
     es = sale @ [EvConfirm (fin v b p t') (Inr c), EvReplaceOrder f d' (Inr (Suc n))] \<and> restamped ORDER_SUCCESS d d')"

text \<open>The whole run with a password, for the stored order and its transaction.\<close>

definition token_verified where
  "token_verified S k h code sold fin evs d' \<longleftrightarrow> (\<exists>stored w t vs x v now res es.
     payable_order S (cpt_OrderId k) stored \<and> fst (ts_FindByID S (oe_TransactionID stored) w) = Inr t \<and> voucher_used code stored x v vs \<and>
     evs = vs @ EvBank (token_call k stored now) res None # es \<and> BankGwStatus_IsSuccess (br_ErrorCode res) \<and>
     token_paid sold fin stored (h stored t) v (br_BankTraceId res) es d')"

locale token_payment =
  fixes S :: "'w services" and mid :: "'w st step_def list"
    and sold :: "OrderEntity \<Rightarrow> ETransactionDTO \<Rightarrow> ETransactionDTO \<Rightarrow> string \<Rightarrow> event list \<Rightarrow> bool"
    and fin :: "string \<Rightarrow> string \<Rightarrow> string \<Rightarrow> ETransactionDTO \<Rightarrow> ETransactionDTO"
  assumes mid_sells: "paying s evs d t v b [] u \<Longrightarrow> succeeds (run_forward mid)
      (\<lambda>u. \<exists>t' p es. sold d t t' p es \<and> paying s (evs @ es) d t' v b p u) u"
    and mid_goes: "cooperative S \<Longrightarrow> paying s evs d t v b [] u \<Longrightarrow> goes (run_forward mid)
      (\<lambda>u. \<exists>evs t p. paying s evs d t v b p u) u"
    and mid_steps: "(n, f, g) \<in> set mid \<Longrightarrow> atmost (\<lambda>_. False) 0 f \<and> atmost delivers 0 g"
begin

abbreviation finish :: "'w st step_def list" where
  "finish \<equiv> token_finish S (\<lambda>s. fin (voucherId s) (bankTraceId s) (providerMerchantId s))"

lemma pays:
  assumes "paying s evs d t v b [] u"
  shows "succeeds (run_forward (mid @ finish)) (\<lambda>u. \<exists>es d'. token_paid sold fin d t v b es d' \<and> order_dto u = Some d' \<and>
     key (trace u) = key (trace s) @ evs @ es) u"
proof (rule forward_append_succeeds, rule succeeds_mono [OF mid_sells [OF assms]], elim exE conjE, goal_cases)
  case (1 u t' p es)
  then show ?case
    unfolding token_finish_def
    by (intro forward_succeeds confirm_trans_succeeds success_order_succeeds)
      (auto simp: paying_def token_paid_def simp del: filter_filter)
qed

lemma goes_on:
  assumes "cooperative S" "paying s evs d t v b [] u"
  shows "goes (run_forward (mid @ finish)) (\<lambda>u. order_dto u \<noteq> None) u"
proof (rule forward_append_goes, rule goes_mono [OF mid_goes [OF assms]], elim exE, goal_cases)
  case (1 u evs t p)
  then show ?case
    unfolding token_finish_def
    by (intro forward_goes confirm_trans_goes success_order_goes cooperativeD(1) [OF assms(1)]) (auto simp: paying_def)
qed

lemma verified:
  assumes "redeems S code voucher"
  shows "wp (orchestrate S name (token_otp_steps S k h voucher @ mid @ finish)) (\<lambda>(p, err) t. err = None \<longrightarrow>
     (\<exists>d evs. p = Some d \<and> key (trace t) = key (trace s) @ evs \<and> token_verified S k h code sold fin evs d)) (\<lambda>_. True) (fresh_vars q s)"
proof (rule orchestrate_forward)
  let ?done = "\<lambda>p t. \<exists>d evs. p = Some d \<and> key (trace t) = key (trace s) @ evs \<and> token_verified S k h code sold fin evs d"
  fix w
  show "succeeds (run_forward (token_otp_steps S k h voucher @ mid @ finish)) (\<lambda>t. \<forall>m. ?done (order_dto t) (t\<lparr>LogSaga := m\<rparr>)) ((fresh_vars q s)\<lparr>world := w\<rparr>)"
    unfolding token_otp_steps_def append.simps
  proof (intro forward_Cons_succeeds token_find_succeeds find_trans_succeeds, simp, goal_cases)
    case (1 d w1 es t w2 w3)
    note found = 1
    have "paying s [] d (h d t) [] [] [] ((appended ((fresh_vars q s)\<lparr>world := w\<rparr>) w1 es)\<lparr>order_dto := Some d, world := w3, trans := Some (h d t)\<rparr>)"
      using found by (simp add: paying_def fresh_vars_def)
    from redeemsD(1) [OF assms this] show ?case
    proof (rule succeeds_mono, elim exE conjE, goal_cases)
      case (1 u vs x v)
      note used = 1
      from token_otp_succeeds [OF used(3)] show ?case
      proof (intro forward_Cons_succeeds, rule succeeds_mono, elim exE conjE, goal_cases)
        case (1 u now res)
        from pays [OF 1(4)] show ?case
        proof (rule succeeds_mono, elim exE conjE, goal_cases)
          case (1 u es d')
          with found used \<open>BankGwStatus_IsSuccess (br_ErrorCode res)\<close> have "token_verified S k h code sold fin (vs @ EvBank (token_call k d now) res None # es) d'"
            unfolding token_verified_def by blast
          with 1 show ?case by (intro allI exI [of _ d'] exI [of _ "vs @ EvBank (token_call k d now) res None # es"]) simp
        qed
      qed
    qed
  qed
qed

lemma verified_goes:
  assumes "redeems_surely S voucher" "cooperative S" "order_on_file S (cpt_OrderId k)"
  shows "\<exists>d t. orchestrate S name (token_otp_steps S k h voucher @ mid @ finish) (fresh_vars q s) = (Ret (Some d, None), t)"
proof -
  have "goes (run_forward (token_otp_steps S k h voucher @ mid @ finish)) (\<lambda>t. \<forall>m. order_dto t \<noteq> None) ((fresh_vars q s)\<lparr>world := w\<rparr>)" for w
  proof -
    obtain d w1 where d: "mg_FindOrder S (ByOrderID (cpt_OrderId k)) w = (Inr d, w1)" "payable d"
      using assms(3) unfolding order_on_file_def by (metis prod.collapse)
    obtain t w2 where t: "ts_FindByID S (oe_TransactionID d) w1 = (Inr t, w2)"
      using assms(3) unfolding order_on_file_def by (metis prod.collapse)
    let ?u = "(fresh_vars q s)\<lparr>order_dto := Some d, world := w2, trans := Some (h d t)\<rparr>"
    have at: "paying s [] d (h d t) [] [] [] ?u" by (simp add: paying_def fresh_vars_def)
    have "goes (run_forward ((''ACCOUNT_VOUCHER'', voucher, comp_voucher S False) # (''VERITY OTP'', token_otp S k, comp_token_otp S) # mid @ finish))
        (\<lambda>t. \<forall>m. order_dto t \<noteq> None) ?u"
    proof (rule forward_Cons_goes, rule goes_mono [OF redeems_goes [OF assms(1) at cooperativeD(1) [OF assms(2)]]], elim exE, goal_cases)
      case (1 u evs v)
      show ?case
        by (rule forward_Cons_goes, unfold token_otp_eq, rule VerifyOTP_bank_goes [OF assms(2)])
          (use 1 in \<open>auto simp: paying_def intro!: goes_mono [OF goes_on [OF assms(2), of s "evs @ es" d "h d t" v x for es x]]\<close>)
    qed
    then show ?thesis
      unfolding token_otp_steps_def append.simps
      by - (rule forward_Cons_goes, simp add: token_find_def GetValidOrder_def FindByOrderID_def d d(2) [unfolded payable_def]
            wp_bindc wp_ask wp_ret wp_sets, rule forward_Cons_goes, simp add: find_trans_def t wp_bindc wp_ask wp_ret wp_sets wp_the_order)
  qed
  then show ?thesis by (intro orchestrate_forward_ends) simp
qed

text \<open>Without a password: what happens after the order and the payment were opened.\<close>

lemma bought:
  assumes "redeems S code voucher"
  shows "wp (orchestrate S name (token_bypass_steps S status stamp voucher @ mid @ finish)) (\<lambda>(p, err) u. err = None \<longrightarrow> status = ''200'' \<and>
     (\<exists>d' vs x v es. p = Some d' \<and> key (trace u) = key (trace s) @ vs @ es \<and> voucher_used code d x v vs \<and> token_paid sold fin d t v b es d'))
     (\<lambda>_. True) ((fresh_vars (Some d) s)\<lparr>trans := Some t, bankTraceId := b\<rparr>)"
proof (rule orchestrate_forward)
  let ?done = "\<lambda>p u. status = ''200'' \<and>
     (\<exists>d' vs x v es. p = Some d' \<and> key (trace u) = key (trace s) @ vs @ es \<and> voucher_used code d x v vs \<and> token_paid sold fin d t v b es d')"
  fix w
  let ?s = "(fresh_vars (Some d) s)\<lparr>trans := Some t, bankTraceId := b, world := w\<rparr>"
  have at: "paying s [] d t [] b [] ?s" by (simp add: paying_def fresh_vars_def)
  have "succeeds (run_forward (token_bypass_steps S status stamp voucher @ mid @ finish)) (\<lambda>u. \<forall>m. ?done (order_dto u) (u\<lparr>LogSaga := m\<rparr>)) ?s"
  proof (cases "status = ''200''")
    case True
    show ?thesis
      unfolding token_bypass_steps_def append.simps
    proof (intro forward_Cons_succeeds, simp add: token_fail_def True wp_ret, rule forward_Cons_succeeds,
        rule succeeds_mono [OF redeemsD(1) [OF assms at]], elim exE conjE, goal_cases)
      case (1 u vs x v)
      from pays [OF 1(2)] show ?case
        by (rule succeeds_mono) (use 1(1) in \<open>auto simp del: filter_filter\<close>, blast)
    qed
  next
    case False
    from token_fail_errs [OF this] have "succeeds (token_fail S status stamp) R ?s" for R by (rule wp_mono) auto
    then show ?thesis unfolding token_bypass_steps_def append.simps by (intro forward_Cons_succeeds)
  qed
  then show "succeeds (run_forward (token_bypass_steps S status stamp voucher @ mid @ finish)) (\<lambda>u. \<forall>m. ?done (order_dto u) (u\<lparr>LogSaga := m\<rparr>))
      ((fresh_vars (Some d) s)\<lparr>trans := Some t, bankTraceId := b, world := w\<rparr>)" .
qed

lemma bought_goes:
  assumes "redeems_surely S voucher" "cooperative S"
  shows "\<exists>d' u. orchestrate S name (token_bypass_steps S ''200'' stamp voucher @ mid @ finish)
     ((fresh_vars (Some d) s)\<lparr>trans := Some t, bankTraceId := b\<rparr>) = (Ret (Some d', None), u)"
proof (rule orchestrate_forward_ends)
  fix w
  let ?s = "(fresh_vars (Some d) s)\<lparr>trans := Some t, bankTraceId := b, world := w\<rparr>"
  have at: "paying s [] d t [] b [] ?s" by (simp add: paying_def fresh_vars_def)
  show "goes (run_forward (token_bypass_steps S ''200'' stamp voucher @ mid @ finish)) (\<lambda>u. order_dto u \<noteq> None) ?s"
    unfolding token_bypass_steps_def append.simps
    by (rule forward_Cons_goes, simp add: token_fail_def wp_ret, rule forward_Cons_goes,
        rule goes_mono [OF redeems_goes [OF assms(1) at cooperativeD(1) [OF assms(2)]]])
      (auto dest: goes_on [OF assms(2)])
qed

end

subsection \<open>Opening the payment\<close>

text \<open>The order is the stored one or a new one, the transaction the one the order names or a new one, and the bank was asked for its amount.\<close>

definition token_order_taken :: "'w services \<Rightarrow> InitPaymentTokenRequest \<Rightarrow> BankRes \<Rightarrow> event list \<Rightarrow> OrderEntity \<Rightarrow> bool" where
  "token_order_taken S req info evs d \<longleftrightarrow>
     (if ipt_OrderId req = [] then (\<exists>now oid. d = initial_order (InitPayByToken_new req info) now oid) \<and> evs = [EvInsertOrder d None]
      else (\<exists>p. payable_order S (ipt_OrderId req) p \<and> d = InitPayByToken_stored req info p) \<and> evs = [])"

definition token_trans_taken :: "'w services \<Rightarrow> InitPaymentTokenRequest \<Rightarrow> OrderEntity \<Rightarrow> event list \<Rightarrow> ETransactionDTO \<Rightarrow> bool" where
  "token_trans_taken S req d evs t \<longleftrightarrow>
     (if oe_TransactionID d = [] then \<exists>q. init_request (InitPayByToken_payment req d) q \<and> evs = [EvInit q (Inr t)]
      else (\<exists>w. fst (ts_FindByID S (oe_TransactionID d) w) = Inr t) \<and> evs = [])"

definition token_opened ::
    "'w services \<Rightarrow> InitPaymentTokenRequest \<Rightarrow> event list \<Rightarrow> OrderEntity \<Rightarrow> ETransactionDTO \<Rightarrow> InitPaymentTokenResponse \<Rightarrow> bool" where
  "token_opened S req evs order t resp \<longleftrightarrow> (\<exists>info taken d init now res f n.
     link_told S (ipt_LinkId req) info \<and> token_order_taken S req info taken d \<and> token_trans_taken S req d init t \<and>
     evs = taken @ init @ [EvBank (envelope ''cashin'' ClientCode (br_GpayBankCode info) now
         (CashInDataRequest (tx_LastAmount t) (oe_OrderID d) (ipt_LinkId req) ''MOBILE'' (ipt_PayerId req) ''cash in'') ''ip'') res None,
       EvReplaceOrder f order (Inr (Suc n))] \<and>
     (BankGwStatus_IsNeedToEnterOTP (br_ErrorCode res) \<or> BankGwStatus_IsSuccess (br_ErrorCode res)) \<and>
     restamped ORDER_PROCESSING (d\<lparr>oe_TransactionID := tx_TransactionId t, oe_BankTransactionId := br_BankTraceId res\<rparr>) order \<and>
     resp = \<lparr>ipr_BankTraceId = oe_BankTransactionId order, ipr_OrderId = oe_OrderID order, ipr_Status = br_ErrorCode res\<rparr>)"

lemma InitPayByToken_order_succeeds:
  assumes "\<And>d w es. token_order_taken S req info (key es) d \<Longrightarrow> R ((appended s w es)\<lparr>order_dto := Some d\<rparr>)"
  shows "succeeds (InitPayByToken_order S req info) R s"
proof (cases "ipt_OrderId req = []")
  case True
  then show ?thesis
    unfolding InitPayByToken_order_def by (auto intro!: init_order_succeeds assms simp: token_order_taken_def) blast
next
  case False
  then show ?thesis
    unfolding InitPayByToken_order_def
    by (simp add: wp_bindc) (rule does_wp [OF valid_order_does], auto simp: wp_rules token_order_taken_def split: sum.split intro!: assms)
qed

lemma InitPayByToken_init_succeeds:
  assumes "order_dto s = Some d"
    and "\<And>t w es. token_trans_taken S req d (key es) t \<Longrightarrow>
      R ((appended s w es)\<lparr>trans := Some t, order_dto := Some (d\<lparr>oe_TransactionID := tx_TransactionId t\<rparr>)\<rparr>)"
  shows "succeeds (InitPayByToken_init S req) R s"
  unfolding InitPayByToken_init_def
proof (rule link_order_succeeds)
  let ?R = "\<lambda>t. \<forall>x d. trans t = Some x \<longrightarrow> order_dto t = Some d \<longrightarrow> R (t\<lparr>order_dto := Some (d\<lparr>oe_TransactionID := tx_TransactionId x\<rparr>)\<rparr>)"
  have "succeeds (find_trans S (\<lambda>_ t. t)) ?R s" if "oe_TransactionID d \<noteq> []"
  proof (rule find_trans_succeeds [OF assms(1)])
    fix t w w' assume "fst (ts_FindByID S (oe_TransactionID d) w) = Inr t"
    with that have "token_trans_taken S req d (key []) t" by (auto simp: token_trans_taken_def)
    from assms(2) [OF this, of w'] show "?R (s\<lparr>world := w', trans := Some t\<rparr>)" by (simp add: assms(1) appended_def)
  qed
  moreover have "succeeds (init_trans S True (InitPayByToken_payment req d)) ?R s" if "oe_TransactionID d = []"
    by (rule init_trans_succeeds) (use that assms in \<open>auto simp: token_trans_taken_def\<close>)
  ultimately show "succeeds (bindc the_order (\<lambda>d. if oe_TransactionID d \<noteq> [] then find_trans S (\<lambda>_ t. t)
      else init_trans S True (InitPayByToken_payment req d))) ?R s"
    unfolding wp_bindc wp_the_order assms(1) option.case by simp
qed

lemma InitPayByToken_bank_succeeds:
  assumes "order_dto s = Some d" "trans s = Some t"
    and "\<And>now res w es. key es = [EvBank (envelope ''cashin'' ClientCode g now
         (CashInDataRequest (tx_LastAmount t) (oe_OrderID d) (ipt_LinkId req) ''MOBILE'' (ipt_PayerId req) ''cash in'') ''ip'') res None] \<Longrightarrow>
      BankGwStatus_IsNeedToEnterOTP (br_ErrorCode res) \<or> BankGwStatus_IsSuccess (br_ErrorCode res) \<Longrightarrow>
      R ((appended s w es)\<lparr>bankTraceId := br_BankTraceId res, resp_Status := br_ErrorCode res\<rparr>)"
  shows "succeeds (InitPayByToken_bank S req g) R s"
  unfolding InitPayByToken_bank_def wp_bindc wp_the_order wp_the_trans assms(1,2) option.case
proof (rule does_wp [OF bank_CashIn_does], goal_cases)
  case (1 r w es)
  then obtain now res err where es: "key es = [EvBank (envelope ''cashin'' ClientCode g now
      (CashInDataRequest (tx_LastAmount t) (oe_OrderID d) (ipt_LinkId req) ''MOBILE'' (ipt_PayerId req) ''cash in'') ''ip'') res err]"
    "r = checked True True (\<lambda>st. BankGwStatus_IsNeedToEnterOTP st \<or> BankGwStatus_IsSuccess st) (res, err)"
    by (rule bank_call_cases)
  obtain r1 r2 where r: "r = (r1, r2)" by force
  show ?case
  proof (cases r2)
    case None
    with es(2) r have "err = None" "r1 = res" "BankGwStatus_IsNeedToEnterOTP (br_ErrorCode res) \<or> BankGwStatus_IsSuccess (br_ErrorCode res)"
      using checked_ok [of True True "\<lambda>st. BankGwStatus_IsNeedToEnterOTP st \<or> BankGwStatus_IsSuccess st" res err r1] by simp_all
    with es(1) None show ?thesis by (simp add: r wp_rules assms(3))
  qed (simp add: r wp_rules)
qed simp

lemma InitPayByToken_processing_succeeds:
  assumes "order_dto s = Some d"
    and "\<And>d' f n w es. key es = [EvReplaceOrder f d' (Inr (Suc n))] \<Longrightarrow>
      restamped ORDER_PROCESSING (d\<lparr>oe_BankTransactionId := bankTraceId s\<rparr>) d' \<Longrightarrow>
      R ((appended s w es)\<lparr>order_dto := Some d', resp_BankTraceId := oe_BankTransactionId d', resp_OrderId := oe_OrderID d'\<rparr>)"
  shows "succeeds (InitPayByToken_processing S) R s"
proof -
  have "succeeds (assign_order (ProcessingOrder S)) (\<lambda>u. \<forall>d'. order_dto u = Some d' \<longrightarrow>
      R (u\<lparr>resp_BankTraceId := oe_BankTransactionId d', resp_OrderId := oe_OrderID d'\<rparr>))
      (s\<lparr>order_dto := Some (d\<lparr>oe_BankTransactionId := bankTraceId s\<rparr>)\<rparr>)"
    by (rule assign_order_succeeds [OF ProcessingOrder_does]) (auto intro!: assms(2))
  then show ?thesis
    unfolding InitPayByToken_processing_def wp_bindc [of "gets _"] wp_bindc [of "update_order _"] wp_gets wp_updates assms(1) option.case wp_bindc [of "assign_order _"]
    by (rule wp_mono) (auto simp: wp_rules split: option.split)
qed

lemma InitPayByToken_completes:
  "wp (InitPayByToken S req) (\<lambda>r u. \<forall>order t resp. r = Inr (order, t, resp) \<longrightarrow>
     (\<exists>evs. key (trace u) = key (trace s) @ evs \<and> token_opened S req evs order t resp)) (\<lambda>_. True) s"
  unfolding InitPayByToken_def wp_bindc [of "modify _"] wp_modify wp_bindc [of "LinkInfo _ _"]
proof (rule does_wp [OF LinkInfo_does], goal_cases)
  case (1 a w1 es1)
  obtain info err where a: "a = (info, err)" by force
  let ?Q = "\<lambda>r u. \<forall>order t resp. r = Inr (order, t, resp) \<longrightarrow> (\<exists>evs. key (trace u) = key (trace s) @ evs \<and> token_opened S req evs order t resp)"
  let ?s = "appended (fresh_vars None s) w1 es1"
  let ?sts = "InitPayByToken_steps S req (br_GpayBankCode info)"
  let ?tail = "\<lambda>(_, err). case err of Some e \<Rightarrow> ret (Inl e) | None \<Rightarrow> bindc the_order (\<lambda>order. bindc the_trans (\<lambda>transaction.
      bindc (gets (\<lambda>s. \<lparr>ipr_BankTraceId = resp_BankTraceId s, ipr_OrderId = resp_OrderId s, ipr_Status = resp_Status s\<rparr>)) (\<lambda>resp.
        ret (Inr (order, transaction, resp)))))"
  have run: "wp (bindc (orchestrate S ''InitPayByToken [BANK_ATM SOF]'' ?sts) ?tail) ?Q (\<lambda>_. True) u"
    if "token_order_taken S req info taken d" "key (trace u) = key (trace s) @ taken" "order_dto u = Some d" "link_told S (ipt_LinkId req) info" for taken d u
  proof -
    let ?R = "\<lambda>p v. \<exists>order t evs. order_dto v = Some order \<and> trans v = Some t \<and> key (trace v) = key (trace s) @ evs \<and>
      token_opened S req evs order t \<lparr>ipr_BankTraceId = resp_BankTraceId v, ipr_OrderId = resp_OrderId v, ipr_Status = resp_Status v\<rparr>"
    have "succeeds (run_forward ?sts) (\<lambda>v. \<forall>m. ?R (order_dto v) (v\<lparr>LogSaga := m\<rparr>)) (u\<lparr>world := w\<rparr>)" for w
      unfolding InitPayByToken_steps_def
    proof (intro forward_Cons_succeeds forward_Nil_succeeds InitPayByToken_init_succeeds InitPayByToken_bank_succeeds
        InitPayByToken_processing_succeeds, simp add: that(3), simp, simp, simp, goal_cases)
      case (1 t w1 es1 now res w2 es2 d' f n w3 es3)
      have "token_opened S req (taken @ key (es1 @ es2 @ es3)) d' t
          \<lparr>ipr_BankTraceId = oe_BankTransactionId d', ipr_OrderId = oe_OrderID d', ipr_Status = br_ErrorCode res\<rparr>"
        unfolding token_opened_def using that(1,4) 1
        by (intro exI [of _ info] exI [of _ taken] exI [of _ d] exI [of _ "key es1"] exI [of _ now] exI [of _ res] exI [of _ f] exI [of _ n])
          (simp del: filter_filter)
      with 1 that show ?case
        by (intro allI exI [of _ d'] exI [of _ t] exI [of _ "taken @ key (es1 @ es2 @ es3)"]) (simp del: filter_filter)
    qed
    from orchestrate_forward [OF this, where name = "''InitPayByToken [BANK_ATM SOF]''"] show ?thesis
      unfolding wp_bindc [of "orchestrate _ _ _"] by (rule wp_mono) (auto simp: wp_rules split: option.split)
  qed
  show ?case
  proof (cases err)
    case None
    have "succeeds (InitPayByToken_order S req info) (wp (bindc (orchestrate S ''InitPayByToken [BANK_ATM SOF]'' ?sts) ?tail) ?Q (\<lambda>_. True)) ?s"
      by (rule InitPayByToken_order_succeeds, rule run) (use 1 a None in \<open>auto simp: fresh_vars_def\<close>)
    then show ?thesis
      unfolding a None prod.case option.case wp_bindc [of "InitPayByToken_order _ _ _"]
      by (rule wp_mono) (auto simp: wp_ret split: option.split)
  qed (simp add: a wp_ret)
qed simp

text \<open>In a cooperative environment the payment is opened and the bank takes the money.\<close>

lemma find_trans_goes:
  assumes "order_dto s \<noteq> None" "\<And>j w. \<exists>t. fst (ts_FindByID S j w) = Inr t" "\<And>t w. R (s\<lparr>world := w, trans := Some t\<rparr>)"
  shows "goes (find_trans S h) R s"
proof -
  obtain d where d: "order_dto s = Some d" using assms(1) by blast
  obtain t w where t: "ts_FindByID S (oe_TransactionID d) (world s) = (Inr t, w)" using assms(2) by (metis prod.collapse)
  show ?thesis by (simp add: find_trans_def d t assms(3) wp_bindc wp_ask wp_ret wp_sets wp_the_order)
qed

text \<open>Only \<open>200\<close> counts, although the gateway takes any code \<open>2xx\<close> for success.\<close>

definition bank_says_200 :: "'w services \<Rightarrow> bool" where
  "bank_says_200 S \<longleftrightarrow> (\<forall>w q. \<exists>r. http_result S (fst (bk_Do S q w)) = (r, None) \<and> br_ErrorCode r = ''200'') \<and>
     (\<forall>j w. \<exists>t. fst (ts_FindByID S j w) = Inr t)"

lemma InitPayByToken_steps_go:
  assumes "cooperative S" "bank_says_200 S" "order_dto s \<noteq> None"
  shows "goes (run_forward (InitPayByToken_steps S req g)) (\<lambda>u. order_dto u \<noteq> None \<and> trans u \<noteq> None \<and> resp_Status u = ''200'') s"
proof -
  note S = cooperativeD(1) [OF assms(1)]
  note found = conjunct2 [OF assms(2) [unfolded bank_says_200_def], rule_format]
  have init: "goes (InitPayByToken_init S req) (\<lambda>u. order_dto u \<noteq> None \<and> trans u \<noteq> None) u" if "order_dto u \<noteq> None" for u
    unfolding InitPayByToken_init_def
    by (rule link_order_goes)
      (use that in \<open>auto simp: wp_bindc wp_the_order intro!: find_trans_goes init_trans_goes [OF S] found split: option.split\<close>)
  have call: "fine (bank_CashIn S b l am i us) (\<lambda>(r, err). err = None \<and> br_ErrorCode r = ''200'')" for b l am i us
    unfolding bank_CashIn_def httpRequest_def bindc_assoc
    by (rule fine_ask_any, rule fine_bindc [OF fine_act [of "\<lambda>p. \<exists>r. p = (r, None) \<and> br_ErrorCode r = ''200''"]])
      (use assms(2) in \<open>auto simp: bank_says_200_def checked_def BankGwStatus_defs intro!: fine_rules\<close>)
  have bank: "goes (InitPayByToken_bank S req g) (\<lambda>u. order_dto u \<noteq> None \<and> trans u \<noteq> None \<and> resp_Status u = ''200'') u"
    if "order_dto u \<noteq> None \<and> trans u \<noteq> None" for u
    unfolding InitPayByToken_bank_def wp_bindc wp_the_order wp_the_trans
    using that by (auto simp: wp_rules split: option.split intro!: fine_wp [OF call])
  have proc: "goes (InitPayByToken_processing S) (\<lambda>u. order_dto u \<noteq> None \<and> trans u \<noteq> None \<and> resp_Status u = ''200'') u"
    if "order_dto u \<noteq> None \<and> trans u \<noteq> None \<and> resp_Status u = ''200''" for u
  proof -
    from that obtain d where d: "order_dto u = Some d" by blast
    have "goes (assign_order (ProcessingOrder S)) (\<lambda>u. order_dto u \<noteq> None \<and> trans u \<noteq> None \<and> resp_Status u = ''200'')
        (u\<lparr>order_dto := Some (d\<lparr>oe_BankTransactionId := bankTraceId u\<rparr>)\<rparr>)"
      by (rule assign_order_goes [OF order_ops_fine(1) [OF S]]) (use that in auto)
    then show ?thesis
      unfolding InitPayByToken_processing_def wp_bindc [of "gets _"] wp_bindc [of "update_order _"] wp_gets wp_updates d option.case wp_bindc [of "assign_order _"]
      by (rule wp_mono) (auto simp: wp_rules split: option.split)
  qed
  show ?thesis
    unfolding InitPayByToken_steps_def
    by (rule forward_Cons_goes, rule goes_mono [OF init [OF assms(3)]], rule forward_Cons_goes, erule goes_mono [OF bank],
        rule forward_Cons_goes, erule goes_mono [OF proc], erule forward_Nil_goes)
qed

lemma InitPayByToken_goes:
  assumes "cooperative S" "bank_says_200 S" "ipt_OrderId req \<noteq> [] \<Longrightarrow> order_on_file S (ipt_OrderId req)"
  shows "wp (InitPayByToken S req) (\<lambda>r u. \<exists>order t resp. r = Inr (order, t, resp) \<and> ipr_Status resp = ''200'') (\<lambda>_. False) s"
proof -
  note S = cooperativeD(1) [OF assms(1)]
  have link: "fine (LinkInfo S l) (\<lambda>(r, err). err = None)" for l
    unfolding LinkInfo_def by (rule fine_ask_any, rule queried_fine [OF S])
  have order: "goes (InitPayByToken_order S req info) (\<lambda>u. order_dto u \<noteq> None) u" for info u
  proof (cases "ipt_OrderId req = []")
    case True
    then show ?thesis
      unfolding InitPayByToken_order_def by (auto intro!: init_order_goes [OF S] simp: InitPayByToken_new_def OrderEntity_zero_def)
  next
    case False
    obtain d w where d: "mg_FindOrder S (ByOrderID (ipt_OrderId req)) (world u) = (Inr d, w)" "payable d"
      using assms(3) [OF False] unfolding order_on_file_def by (metis prod.collapse)
    show ?thesis
      using False by (simp add: InitPayByToken_order_def GetValidOrder_def FindByOrderID_def d d(2) [unfolded payable_def] wp_bindc wp_ask wp_ret wp_sets)
  qed
  let ?tail = "\<lambda>(_, err). case err of Some e \<Rightarrow> ret (Inl e) | None \<Rightarrow> bindc the_order (\<lambda>order. bindc the_trans (\<lambda>transaction.
      bindc (gets (\<lambda>s. \<lparr>ipr_BankTraceId = resp_BankTraceId s, ipr_OrderId = resp_OrderId s, ipr_Status = resp_Status s\<rparr>)) (\<lambda>resp.
        ret (Inr (order, transaction, resp)))))"
  let ?Q = "\<lambda>r u. \<exists>order t resp. r = Inr (order, t, resp) \<and> ipr_Status resp = ''200''"
  have run: "wp (bindc (orchestrate S n (InitPayByToken_steps S req g)) ?tail) ?Q (\<lambda>_. False) u" if "order_dto u \<noteq> None" for u n g
    unfolding wp_bindc [of "orchestrate _ _ _"]
    by (rule wp_mono [OF orchestrate_forward_goes [where R = "\<lambda>_ u. order_dto u \<noteq> None \<and> trans u \<noteq> None \<and> resp_Status u = ''200''"]])
      (use InitPayByToken_steps_go [OF assms(1,2)] that in \<open>auto simp: wp_rules\<close>)
  show ?thesis
    unfolding InitPayByToken_def wp_bindc [of "modify _"] wp_modify wp_bindc [of "LinkInfo _ _"]
  proof (rule fine_wp [OF link], goal_cases)
    case (1 a w es)
    then obtain info where a: "a = (info, None)" by (cases a) auto
    show ?case
      unfolding a prod.case option.case wp_bindc [of "InitPayByToken_order _ _ _"]
      by (rule wp_mono [OF order]) (use run in auto)
  qed
qed

subsection \<open>Opening the payment, then delivering\<close>

definition token_bought where
  "token_bought S req btrace code sold fin evs d' \<longleftrightarrow> (\<exists>ops order t resp vs x v es.
     evs = ops @ vs @ es \<and> token_opened S req ops order t resp \<and> ipr_Status resp = ''200'' \<and>
     voucher_used code order x v vs \<and> token_paid sold fin order t v (btrace order resp) es d')"

definition token_discounted :: "'w services \<Rightarrow> OrderRequest \<Rightarrow> int64 \<Rightarrow> string \<Rightarrow> int64 \<Rightarrow> bool" where
  "token_discounted S r amount subType x \<longleftrightarrow>
     (if rq_VoucherCode r = [] then x = 0
      else \<exists>w q. fst (ts_QuotaFee S (token_quota r amount subType) w) = Inr q \<and> x = qs_DiscountAmount q)"

lemma token_discount_does:
  "does (token_discount S r amount subType) (\<lambda>a es. es = [] \<and> (\<forall>x. a = Some (Inr x) \<longrightarrow> token_discounted S r amount subType x))"
  unfolding token_discount_def token_discounted_def
  by (auto intro!: does_ret does_ask_range split: sum.split) blast

lemma token_discount_fine: "obliging S \<Longrightarrow> fine (token_discount S r amount subType) (\<lambda>a. \<exists>x. a = Inr x)"
  unfolding token_discount_def
  by (rule fine_if, rule fine_bindc [OF fine_ask [of "\<lambda>r. \<exists>a. r = Inr a"]]) (auto simp: obligingD intro!: fine_rules)

context token_payment
begin

lemma bypassed:
  assumes "redeems S code voucher" "does disc (\<lambda>a es. es = [] \<and> (\<forall>x. a = Some (Inr x) \<longrightarrow> D x))"
  shows "wp (token_open S disc request btrace (\<lambda>order ress. orchestrate S name (token_bypass_steps S (ipr_Status ress) stamp voucher @ mid @ finish)))
     (\<lambda>(p, err) u. err = None \<longrightarrow> (\<exists>x d evs. D x \<and> p = Some d \<and> key (trace u) = key (trace s) @ evs \<and>
        token_bought S (request x) btrace code sold fin evs d)) (\<lambda>_. True) s"
  unfolding token_open_def wp_bindc [of disc]
proof (rule does_wp [OF assms(2)], goal_cases)
  case (1 a w es)
  show ?case
  proof (cases a)
    case (Inr x)
    with 1 have x: "D x" "key es = []" by auto
    show ?thesis
      unfolding Inr sum.case wp_bindc [of "InitPayByToken _ _"]
    proof (rule wp_mono [OF InitPayByToken_completes], goal_cases)
      case (1 r u)
      show ?case
      proof (cases r)
        case (Inr c)
        obtain order t resp where c: "c = (order, t, resp)" by (cases c)
        with 1 Inr x(2) obtain ops where ops: "key (trace u) = key (trace s) @ ops" "token_opened S (request x) ops order t resp" by auto
        show ?thesis
          unfolding Inr c sum.case prod.case wp_bindc [of "modify _"] wp_modify
          by (rule wp_mono [OF bought [OF assms(1)]]) (use ops x(1) in \<open>auto simp: token_bought_def simp del: filter_filter, blast\<close>)
      qed (simp add: wp_ret)
    qed simp
  qed (simp add: wp_ret)
qed simp

lemma bypassed_goes:
  assumes "redeems_surely S voucher" "cooperative S" "bank_says_200 S" "fine disc (\<lambda>a. \<exists>x. a = Inr x)"
    and "\<And>x. ipt_OrderId (request x) \<noteq> [] \<Longrightarrow> order_on_file S (ipt_OrderId (request x))"
  shows "\<exists>d t. token_open S disc request btrace (\<lambda>order ress. orchestrate S name (token_bypass_steps S (ipr_Status ress) stamp voucher @ mid @ finish)) s =
     (Ret (Some d, None), t)"
proof -
  have rest: "wp (orchestrate S name (token_bypass_steps S ''200'' stamp voucher @ mid @ finish)) (\<lambda>(p, err) _. err = None \<and> p \<noteq> None) (\<lambda>_. False)
      ((fresh_vars (Some d) u)\<lparr>trans := Some t, bankTraceId := b\<rparr>)" for d u t b
    using bought_goes [OF assms(1,2), where name = name and stamp = stamp and d = d and s = u and t = t and b = b] by (auto simp: wp_def)
  have "wp (token_open S disc request btrace (\<lambda>order ress. orchestrate S name (token_bypass_steps S (ipr_Status ress) stamp voucher @ mid @ finish)))
     (\<lambda>(p, err) _. err = None \<and> p \<noteq> None) (\<lambda>_. False) s"
    unfolding token_open_def wp_bindc [of disc]
  proof (rule fine_wp [OF assms(4)], goal_cases)
    case (1 a w es)
    then obtain x where a: "a = Inr x" by blast
    show ?case
      unfolding a sum.case wp_bindc [of "InitPayByToken _ _"]
      by (rule wp_mono [OF InitPayByToken_goes [OF assms(2,3,5)]]) (use rest in \<open>auto simp: wp_bindc wp_modify\<close>)
  qed
  then show ?thesis by (auto simp: wp_def split: prod.splits outcome.splits)
qed

end

subsection \<open>Nothing is delivered unless the bank has accepted\<close>

lemma foreign_none [simp]: "foreign (\<lambda>_. False)"
  by (simp add: foreign_def)

lemma atmost_grows: "atmost A n m \<Longrightarrow> atmost (\<lambda>_. False) 0 m"
proof -
  have "adds A n s t \<Longrightarrow> adds (\<lambda>_. False) 0 s t" for s t by (auto simp: adds_def)
  then show "atmost A n m \<Longrightarrow> atmost (\<lambda>_. False) 0 m"
    unfolding atmost_def by (intro allI) (erule allE, erule wp_mono, auto)
qed

lemma token_atmost [atmost_rules]:
  "atmost A n (token_find S k)" "atmost A n (find_trans S h)"
  "(\<And>q x e. A (EvBank q x e) \<Longrightarrow> 0 < n) \<Longrightarrow> atmost A n (token_otp S k)"
  unfolding token_find_eq token_otp_eq find_trans_def by (intro atmost_rules; simp)+

lemma token_atmost_foreign [atmost_rules]:
  assumes "foreign A"
  shows "atmost A 0 (token_fail S status stamp)" "atmost A 0 (comp_token_otp S)"
proof -
  have cancel: "atmost A 0 (serviceTransactionCancel S t)" for t
    by (rule atmost_one_call [OF serviceTransactionCancel_does]) (use assms in \<open>auto simp: foreign_def\<close>)
  show "atmost A 0 (token_fail S status stamp)"
    unfolding token_fail_def by (intro atmost_rules assms cancel)
  show "atmost A 0 (comp_token_otp S)"
    unfolding comp_token_otp_def by (intro atmost_rules assms)
qed

lemma InitPayByToken_undelivered: "atmost delivers 0 (InitPayByToken S req)"
proof -
  have order: "atmost delivers 0 (InitPayByToken_order S req info)" for info
    unfolding InitPayByToken_order_def
    by (intro atmost_rules atmost_bindc_left [OF atmost_quiet [OF does_mono [OF valid_order_does]]]) auto
  have bank: "atmost delivers 0 (bank_CashIn S b l am i us)" for b l am i us
    by (rule atmost_does [OF bank_CashIn_does]) (auto simp: bank_call_def)
  have "atmost delivers 0 f \<and> atmost delivers 0 g'" if "(n, f, g') \<in> set (InitPayByToken_steps S req g)" for n f g' g
    using that unfolding InitPayByToken_steps_def InitPayByToken_init_def InitPayByToken_bank_def InitPayByToken_processing_def
    by (auto intro!: atmost_rules atmost_bindc_left [OF bank])
  from orchestrate_none [OF this] have run: "atmost delivers 0 (orchestrate S name (InitPayByToken_steps S req g))" for name g
    by (auto simp: atmost_def)
  show ?thesis
    unfolding InitPayByToken_def
    by (intro atmost_rules atmost_quiet [OF LinkInfo_quiet] order run) (simp add: fresh_vars_def)
qed

context token_payment
begin

lemma finish_steps: "(n, f, g) \<in> set (mid @ finish) \<Longrightarrow> atmost (\<lambda>_. False) 0 f \<and> atmost delivers 0 g"
  using mid_steps unfolding token_finish_def by (auto intro!: atmost_rules)

lemma otp_guards:
  assumes "only_after delivers bank_accepted s u"
  shows "wp (token_otp S k) (\<lambda>err u. if err = None then meets bank_accepted s u else only_after delivers bank_accepted s u)
     (only_after delivers bank_accepted s) u"
proof (cases "order_dto u")
  case None
  then show ?thesis using assms by (simp add: token_otp_def wp_bindc wp_the_order)
next
  case (Some d)
  have shut: "only_after delivers bank_accepted s v" if "trace v = trace u @ es" "key es = [EvBank q res err]" for v es q res err
    by (rule only_after_quiet [OF assms]) (use that in \<open>simp add: adds_def del: filter_filter\<close>)
  have accepted: "meets bank_accepted s v" if "trace v = trace u @ es" "key es = [e]" "bank_accepted e" for v es e
  proof -
    from assms obtain es0 where "trace u = trace s @ es0" by (auto simp: only_after_def adds_def meets_def)
    with that show ?thesis unfolding meets_def by (intro exI [of _ "es0 @ es"]) (simp del: filter_filter)
  qed
  show ?thesis
    unfolding token_otp_eq
    by (rule VerifyOTP_bank_wp [OF Some]) (auto intro: shut accepted simp del: filter_filter bank_accepted.simps)
qed

lemma verified_guarded:
  assumes "redeems S code voucher"
  shows "wp (orchestrate S name (token_otp_steps S k h voucher @ mid @ finish)) (\<lambda>_. only_after delivers bank_accepted s)
     (only_after delivers bank_accepted s) (fresh_vars q s)"
proof (rule orchestrate_only_after [where g = "comp_token_otp S" and post = "mid @ finish"])
  show "token_otp_steps S k h voucher @ mid @ finish = [(''FIND_ORDER_BY_ID'', token_find S k, ret None),
      (''GET INIT TRANSACTION'', find_trans S h, ret None), (''ACCOUNT_VOUCHER'', voucher, comp_voucher S False)] @
      (''VERITY OTP'', token_otp S k, comp_token_otp S) # mid @ finish"
    by (simp add: token_otp_steps_def)
  show "only_after delivers bank_accepted s (fresh_vars q s)" by (rule only_after_refl) (simp add: fresh_vars_def)
qed (use finish_steps redeems_quiet(2) [OF assms, of delivers] otp_guards in \<open>auto simp: token_otp_steps_def intro!: atmost_rules\<close>)

lemma bought_guarded:
  assumes "redeems S code voucher" "only_after delivers bank_accepted s u" "status = ''200'' \<Longrightarrow> meets bank_accepted s u"
  shows "wp (orchestrate S name (token_bypass_steps S status stamp voucher @ mid @ finish)) (\<lambda>_. only_after delivers bank_accepted s)
     (only_after delivers bank_accepted s) u"
proof (cases "status = ''200''")
  case True
  have "atmost (\<lambda>_. False) 0 f \<and> atmost (\<lambda>_. False) 0 g"
    if "(n, f, g) \<in> set (token_bypass_steps S status stamp voucher @ mid @ finish)" for n f g
    using that finish_steps redeems_quiet(1) [OF assms(1)]
    by (auto simp: token_bypass_steps_def intro!: atmost_rules intro: atmost_grows)
  from orchestrate_none [OF this] show ?thesis
    by (rule wp_mono) (auto simp: only_after_def dest: meets_adds [OF assms(3) [OF True]])
next
  case False
  have "wp (orchestrate S name (token_bypass_steps S status stamp voucher @ mid @ finish)) (\<lambda>(p, err) t. err \<noteq> None \<and> adds delivers 0 u t) (adds delivers 0 u) u"
  proof (rule orchestrate_stopped [where pre = "[]" and f = "token_fail S status stamp"])
    show "token_bypass_steps S status stamp voucher @ mid @ finish = [] @ (''FAIL ORDER'', token_fail S status stamp, ret None) #
        (''ACCOUNT_VOUCHER'', voucher, comp_voucher S False) # mid @ finish"
      by (simp add: token_bypass_steps_def)
    show "wp (token_fail S status stamp) (\<lambda>err v. err \<noteq> None \<and> adds delivers 0 u v) (adds delivers 0 u) t" if "adds delivers 0 u t" for t
      by (rule wp_mono [OF wp_conj [OF token_fail_errs [OF False] atmost_wp [OF token_atmost_foreign(1), of delivers t "adds delivers 0 u"]]])
        (use adds_trans [OF that] in auto)
  qed (use finish_steps in \<open>auto simp: token_bypass_steps_def intro!: atmost_rules\<close>)
  then show ?thesis by (rule wp_mono) (auto intro: only_after_quiet [OF assms(2)])
qed

lemma token_opened_accepted:
  assumes "token_opened S req evs order t resp" "ipr_Status resp = ''200''"
  shows "\<exists>e \<in> set evs. bank_accepted e"
proof -
  from assms obtain pre q res post where "evs = pre @ EvBank q res None # post" "br_ErrorCode res = ''200''"
    unfolding token_opened_def by (elim exE conjE) (simp, metis append_assoc)
  then show ?thesis by (intro bexI [of _ "EvBank q res None"]) (simp_all add: BankGwStatus_IsSuccess_def)
qed

lemma bypassed_guarded:
  assumes "redeems S code voucher" "does disc (\<lambda>a es. es = [] \<and> (\<forall>x. a = Some (Inr x) \<longrightarrow> D x))"
  shows "wp (token_open S disc request btrace (\<lambda>order ress. orchestrate S name (token_bypass_steps S (ipr_Status ress) stamp voucher @ mid @ finish)))
     (\<lambda>_. only_after delivers bank_accepted s) (only_after delivers bank_accepted s) s"
  unfolding token_open_def wp_bindc [of disc]
proof (rule does_wp [OF assms(2)], goal_cases)
  case (1 a w es)
  let ?s = "appended s w es"
  have quiet: "only_after delivers bank_accepted s u" if "adds delivers 0 ?s u" for u
    by (rule only_after_quiet [OF only_after_quiet [OF only_after_refl [OF refl]] that]) (use 1 in \<open>simp add: adds_def del: filter_filter\<close>)
  show ?case
  proof (cases a)
    case (Inr x)
    have "wp (InitPayByToken S (request x)) (\<lambda>r u. adds delivers 0 ?s u \<and> (\<forall>order t resp. r = Inr (order, t, resp) \<longrightarrow>
        ipr_Status resp = ''200'' \<longrightarrow> meets bank_accepted s u)) (adds delivers 0 ?s) ?s"
      by (rule wp_mono [OF wp_conj [OF atmost_wp [OF InitPayByToken_undelivered, of ?s "adds delivers 0 ?s"] InitPayByToken_completes]])
        (use 1 in \<open>auto simp: meets_def adds_def simp del: filter_filter dest!: token_opened_accepted\<close>, blast)
    then show ?thesis
      unfolding Inr sum.case wp_bindc [of "InitPayByToken _ _"]
    proof (rule wp_mono, goal_cases)
      case (1 r u)
      show ?case
      proof (cases r)
        case (Inr c)
        obtain order t resp where c: "c = (order, t, resp)" by (cases c)
        show ?thesis
          unfolding Inr c sum.case prod.case wp_bindc [of "modify _"] wp_modify
          by (rule bought_guarded [OF assms(1)])
            (use 1 Inr c in \<open>auto intro!: quiet simp: adds_def meets_def fresh_vars_def simp del: filter_filter\<close>)
      qed (use 1 in \<open>simp add: wp_ret quiet\<close>)
    qed (rule quiet)
  qed (simp add: wp_ret quiet adds_refl)
qed (auto simp: only_after_def adds_def simp del: filter_filter)

end

subsection \<open>Both ways\<close>

text \<open>With a password the order on file is paid, without one it is opened first.\<close>

definition token_done where
  "token_done S token code h sold fin bought evs d \<longleftrightarrow> (\<exists>k. token = Some k \<and>
     (if cpt_Otp k \<noteq> [] then token_verified S k h code sold fin evs d else bought k evs d))"

definition opened_bought where
  "opened_bought S r amount ty request btrace sold fin k evs d \<longleftrightarrow> (\<exists>x. token_discounted S r amount ty x \<and>
     token_bought S (request k x) btrace (rq_VoucherCode r) sold fin evs d)"

context token_payment
begin

abbreviation otp_run where
  "otp_run name h voucher k \<equiv> orchestrate S name (token_otp_steps S k h voucher @ mid @ finish)"

abbreviation open_run where
  "open_run name r amount ty request btrace stamp \<equiv> token_open S (token_discount S r amount ty) request btrace
     (\<lambda>order ress. orchestrate S name (token_bypass_steps S (ipr_Status ress) stamp (bypass_voucher S r amount ty) @ mid @ finish))"

lemma opens:
  "wp (open_run name r amount ty (request k) btrace stamp) (\<lambda>(p, err) t. err = None \<longrightarrow> (\<exists>d evs. p = Some d \<and> key (trace t) = key (trace s) @ evs \<and>
     opened_bought S r amount ty request btrace sold fin k evs d)) (\<lambda>_. True) s"
  by (rule wp_mono [OF bypassed [OF redeems_token(2) token_discount_does]]) (auto simp: opened_bought_def)

lemma finished:
  assumes "redeems S code voucher"
    and "\<And>k s'. token = Some k \<Longrightarrow> cpt_Otp k = [] \<Longrightarrow> wp (bypass k) (\<lambda>(p, err) t. err = None \<longrightarrow> (\<exists>d evs. p = Some d \<and>
      key (trace t) = key (trace s') @ evs \<and> bought k evs d)) (\<lambda>_. True) s'"
  shows "wp (with_token token (otp_run name h voucher) bypass) (\<lambda>(p, err) t. err = None \<longrightarrow>
     (\<exists>d evs. p = Some d \<and> key (trace t) = key (trace s) @ evs \<and> token_done S token code h sold fin bought evs d)) (\<lambda>_. True) s"
proof (rule with_token_wp, goal_cases)
  case (1 k)
  then show ?case by (intro wp_mono [OF verified [OF assms(1)]]) (auto simp: token_done_def)
next
  case (2 k)
  then show ?case by (intro wp_mono [OF assms(2)]) (auto simp: token_done_def fresh_vars_def)
qed simp

lemma guarded:
  assumes "redeems S code voucher"
    and "\<And>k s'. wp (bypass k) (\<lambda>_. only_after delivers bank_accepted s') (only_after delivers bank_accepted s') s'"
  shows "wp (with_token token (otp_run name h voucher) bypass) (\<lambda>_. only_after delivers bank_accepted s) (only_after delivers bank_accepted s) s"
proof (rule with_token_wp, goal_cases)
  case (1 k)
  show ?case by (rule verified_guarded [OF assms(1)])
next
  case (2 k)
  from assms(2) [of k "fresh_vars (Some OrderEntity_zero) s"] show ?case
    by (rule wp_mono) (simp_all add: only_after_def adds_def meets_def fresh_vars_def)
qed (simp add: only_after_refl fresh_vars_def)

lemmas opens_guarded = bypassed_guarded [OF redeems_token(2) token_discount_does]

lemma progress:
  assumes "redeems_surely S voucher" "cooperative S" "order_on_file S (cpt_OrderId k)"
    and "\<And>s'. cpt_Otp k = [] \<Longrightarrow> \<exists>d t. bypass k s' = (Ret (Some d, None), t)"
  shows "\<exists>d t. with_token (Some k) (otp_run name h voucher) bypass s = (Ret (Some d, None), t)"
  using verified_goes [OF assms(1-3), of name h "Some OrderEntity_zero" s] assms(4)
  by (auto simp: with_token_def bindc_def modify_def ret_def)

lemma opens_goes:
  assumes "cooperative S" "bank_says_200 S" "\<And>x. ipt_OrderId (request x) \<noteq> [] \<Longrightarrow> order_on_file S (ipt_OrderId (request x))"
  shows "\<exists>d t. open_run name r amount ty request btrace stamp s = (Ret (Some d, None), t)"
  by (rule bypassed_goes [OF redeems_token(4) assms(1,2) token_discount_fine [OF cooperativeD(1) [OF assms(1)]] assms(3)])

end

end
