(* ===== verification/With_Token.thy ===== *)
theory With_Token
  imports Token_Payment TopUp BuyCard PayBill StaticQR ConfirmOrder
begin

text \<open>
  The payments by card token: top-up, buying cards, paying a bill, a static QR code and an order on file
  (\<open>application/*_with_token*.go\<close>).  The \<open>ConfirmPaymentTokenRequest\<close> of a request is an argument of its own,
  \<open>None\<close> when it is nil.  Each orchestrator has its steps with a password, its start without one, what it
  sells and how it ends.
\<close>

subsection \<open>Top-up\<close>

text \<open>The card fee has the code of the one of buying cards; the provider and the type of the card stay empty here.\<close>

definition TopUpWithToken_fee :: "'w services \<Rightarrow> OrderTopUpRequest \<Rightarrow> ('w st, goerror option) comp" where
  "TopUpWithToken_fee S request = BuyCard_fee S
     \<lparr>bcq_OrderRequest = tor_OrderRequest request, bcq_Telco = tor_Telco request, bcq_PaymentToken = None, bcq_LongLifeOrderId = []\<rparr>"

definition TopUpWithToken_sell :: "'w services \<Rightarrow> OrderTopUpRequest \<Rightarrow> 'w st step_def list" where
  "TopUpWithToken_sell S request =
     [(''TOP_UP'', TopUp_provider S request, comp_provider S isPendingSrvCard as_is with_reason (\<lambda>r d. d\<lparr>oe_FailReason := r\<rparr>)),
      (''UPDATE MERCHANT PROVIDER CARD FEE'', TopUpWithToken_fee S request, ret None)]"

text \<open>What the confirmation writes into the transaction.\<close>

definition paid_by_card :: "string \<Rightarrow> string \<Rightarrow> string \<Rightarrow> ETransactionDTO \<Rightarrow> ETransactionDTO" where
  "paid_by_card v b p t = t\<lparr>tx_ProviderMerchantID := p, tx_VoucherID := v, tx_BankTransactionId := b\<rparr>"

definition known_bank :: "OrderEntity \<Rightarrow> ETransactionDTO \<Rightarrow> ETransactionDTO" where
  "known_bank d t = t\<lparr>tx_BankTransactionId := oe_BankTransactionId d\<rparr>"

definition TopUpWithToken_finish :: "'w services \<Rightarrow> 'w st step_def list" where
  "TopUpWithToken_finish S = token_finish S (\<lambda>s. paid_by_card (voucherId s) (bankTraceId s) (providerMerchantId s))"

definition TopUpWithToken_verified ::
    "'w services \<Rightarrow> OrderTopUpRequest \<Rightarrow> ConfirmPaymentTokenRequest \<Rightarrow> ('w st, OrderEntity option \<times> goerror option) comp" where
  "TopUpWithToken_verified S request k = orchestrate S ''TopUp With Token ''
     (token_otp_steps S k known_bank (token_voucher S (rq_VoucherCode (tor_OrderRequest request))) @
      TopUpWithToken_sell S request @ TopUpWithToken_finish S)"

definition TopUpWithToken_request :: "OrderTopUpRequest \<Rightarrow> ConfirmPaymentTokenRequest \<Rightarrow> int64 \<Rightarrow> InitPaymentTokenRequest" where
  "TopUpWithToken_request request k = (let r = tor_OrderRequest request in
     token_request k r (rq_Amount r) (rq_SubTransType r) (rq_TransType r) [])"

definition TopUpWithToken_bypassed ::
    "'w services \<Rightarrow> OrderTopUpRequest \<Rightarrow> ConfirmPaymentTokenRequest \<Rightarrow> ('w st, OrderEntity option \<times> goerror option) comp" where
  "TopUpWithToken_bypassed S request k = (let r = tor_OrderRequest request in
     token_open S (token_discount S r (rq_Amount r) (rq_SubTransType r)) (TopUpWithToken_request request k)
       (\<lambda>_. ipr_BankTraceId) (\<lambda>order ress. orchestrate S ''TopUp With Token ''
         (token_bypass_steps S (ipr_Status ress) with_bank_id (bypass_voucher S r (rq_Amount r) (rq_SubTransType r)) @
          TopUpWithToken_sell S request @ TopUpWithToken_finish S)))"

definition TopUpWithToken ::
    "'w services \<Rightarrow> OrderTopUpRequest \<Rightarrow> ConfirmPaymentTokenRequest option \<Rightarrow> ('w st, OrderEntity option \<times> goerror option) comp" where
  "TopUpWithToken S request token = with_token token (TopUpWithToken_verified S request) (TopUpWithToken_bypassed S request)"

subsection \<open>Buying cards\<close>

definition BuyCardWithToken_sell :: "'w services \<Rightarrow> OrderBuyCardRequest \<Rightarrow> 'w st step_def list" where
  "BuyCardWithToken_sell S request =
     [(''BUY_CARD'', BuyCard_provider S request, comp_provider S isPendingSrvCard as_is with_reason internal_err),
      (''UPDATE MERCHANT PROVIDER CARD FEE'', BuyCard_fee S request, ret None)]"

definition BuyCardWithToken_finish :: "'w services \<Rightarrow> 'w st step_def list" where
  "BuyCardWithToken_finish S = token_finish S (\<lambda>s. paid_by_card (voucherId s) (bankTraceId s) (providerMerchantId s))"

definition BuyCardWithToken_verified ::
    "'w services \<Rightarrow> OrderBuyCardRequest \<Rightarrow> ConfirmPaymentTokenRequest \<Rightarrow> ('w st, OrderEntity option \<times> goerror option) comp" where
  "BuyCardWithToken_verified S request k = orchestrate S ''BuyCard With Token ''
     (token_otp_steps S k known_bank (token_voucher S (rq_VoucherCode (bcq_OrderRequest request))) @
      BuyCardWithToken_sell S request @ BuyCardWithToken_finish S)"

definition BuyCardWithToken_request :: "OrderBuyCardRequest \<Rightarrow> ConfirmPaymentTokenRequest \<Rightarrow> int64 \<Rightarrow> InitPaymentTokenRequest" where
  "BuyCardWithToken_request request k = (let r = bcq_OrderRequest request in
     token_request k r (rq_Amount r * rq_Quantity r) (rq_SubTransType r) (rq_TransType r) [])"

definition BuyCardWithToken_bypassed ::
    "'w services \<Rightarrow> OrderBuyCardRequest \<Rightarrow> ConfirmPaymentTokenRequest \<Rightarrow> ('w st, OrderEntity option \<times> goerror option) comp" where
  "BuyCardWithToken_bypassed S request k = (let r = bcq_OrderRequest request in
     token_open S (token_discount S r (rq_Amount r * rq_Quantity r) (rq_SubTransType r)) (BuyCardWithToken_request request k)
       (\<lambda>_. ipr_BankTraceId) (\<lambda>order ress. orchestrate S ''BuyCard With Token ''
         (token_bypass_steps S (ipr_Status ress) with_bank_id (bypass_voucher S r (rq_Amount r * rq_Quantity r) (rq_SubTransType r)) @
          BuyCardWithToken_sell S request @ BuyCardWithToken_finish S)))"

definition BuyCardWithToken ::
    "'w services \<Rightarrow> OrderBuyCardRequest \<Rightarrow> ConfirmPaymentTokenRequest option \<Rightarrow> ('w st, OrderEntity option \<times> goerror option) comp" where
  "BuyCardWithToken S request token = with_token token (BuyCardWithToken_verified S request) (BuyCardWithToken_bypassed S request)"

subsection \<open>Paying a bill\<close>

definition PaidBillWithToken_provider :: "'w services \<Rightarrow> OrderPayBillRequest \<Rightarrow> ('w st, goerror option) comp" where
  "PaidBillWithToken_provider S request =
     bindc the_order (\<lambda>d. bindc the_trans (\<lambda>t.
     bindc (act (cs_PaidBill S (PayBill_req request (oe_SubOrderType d) d t)) (EvPaidBill (PayBill_req request (oe_SubOrderType d) d t))) (\<lambda>r.
     case r of
       Inl e \<Rightarrow> thenc (set_failReason (Error e)) (ret (Some ErrFailOrder))
     | Inr payBillResponse \<Rightarrow>
         thenc (modify (\<lambda>s. s\<lparr>providerMerchantId := pbr_ProviderMerchantId payBillResponse\<rparr>))
         (if pbr_Status payBillResponse = TRANSACTION_STATUS_PENDING
          then thenc (modify (\<lambda>s. s\<lparr>isPendingSrvCard := True\<rparr>)) (ret (Some ErrPendingOrder))
          else ret None))))"

definition PaidBillWithToken_sell :: "'w services \<Rightarrow> OrderPayBillRequest \<Rightarrow> 'w st step_def list" where
  "PaidBillWithToken_sell S request =
     [(''PAID_BILL'', PaidBillWithToken_provider S request, comp_provider S isPendingSrvCard as_is with_reason internal_err)]"

definition PaidBillWithToken_finish :: "'w services \<Rightarrow> 'w st step_def list" where
  "PaidBillWithToken_finish S = token_finish S (\<lambda>s. paid_by_card (voucherId s) (bankTraceId s) (providerMerchantId s))"

definition PaidBillWithToken_verified ::
    "'w services \<Rightarrow> OrderPayBillRequest \<Rightarrow> ConfirmPaymentTokenRequest \<Rightarrow> ('w st, OrderEntity option \<times> goerror option) comp" where
  "PaidBillWithToken_verified S request k = orchestrate S ''PaidBill With Token ''
     (token_otp_steps S k known_bank (token_voucher S (rq_VoucherCode (pbq_OrderRequest request))) @
      PaidBillWithToken_sell S request @ PaidBillWithToken_finish S)"

definition PaidBillWithToken_request :: "OrderPayBillRequest \<Rightarrow> string \<Rightarrow> ConfirmPaymentTokenRequest \<Rightarrow> int64 \<Rightarrow> InitPaymentTokenRequest" where
  "PaidBillWithToken_request request ty k = (let r = pbq_OrderRequest request in
     token_request k r (rq_Amount r) ty (rq_TransType r) [])"

definition PaidBillWithToken_open ::
    "'w services \<Rightarrow> OrderPayBillRequest \<Rightarrow> string \<Rightarrow> ConfirmPaymentTokenRequest \<Rightarrow> ('w st, OrderEntity option \<times> goerror option) comp" where
  "PaidBillWithToken_open S request ty k = (let r = pbq_OrderRequest request in
     token_open S (token_discount S r (rq_Amount r) ty) (PaidBillWithToken_request request ty k)
       (\<lambda>_. ipr_BankTraceId) (\<lambda>order ress. orchestrate S ''PaidBill With Token ''
         (token_bypass_steps S (ipr_Status ress) with_bank_id (bypass_voucher S r (rq_Amount r) ty) @
          PaidBillWithToken_sell S request @ PaidBillWithToken_finish S)))"

definition PaidBillWithToken_bypassed ::
    "'w services \<Rightarrow> OrderPayBillRequest \<Rightarrow> ConfirmPaymentTokenRequest \<Rightarrow> ('w st, OrderEntity option \<times> goerror option) comp" where
  "PaidBillWithToken_bypassed S request k =
     bindc (ask (cs_FindVendor S (pbq_ServiceCode request))) (\<lambda>r. case r of
       Inl e \<Rightarrow> ret (if e = ErrNoDocuments then (None, Some (ErrorString ''Ma dich vu khong hop le'')) else (Some OrderEntity_zero, Some e))
     | Inr vendorInfo \<Rightarrow> bindc (deref vendorInfo) (\<lambda>vendor. PaidBillWithToken_open S request (bill_type (vn_Type vendor) []) k))"

definition PaidBillWithToken ::
    "'w services \<Rightarrow> OrderPayBillRequest \<Rightarrow> ConfirmPaymentTokenRequest option \<Rightarrow> ('w st, OrderEntity option \<times> goerror option) comp" where
  "PaidBillWithToken S request token = with_token token (PaidBillWithToken_verified S request) (PaidBillWithToken_bypassed S request)"

subsection \<open>Static QR\<close>

definition paid_to_merchant :: "string \<Rightarrow> string \<Rightarrow> string \<Rightarrow> string \<Rightarrow> ETransactionDTO \<Rightarrow> ETransactionDTO" where
  "paid_to_merchant m v b p t = t\<lparr>tx_VoucherID := v, tx_BankTransactionId := b, tx_ProviderMerchantID := m, tx_MerchantID := m\<rparr>"

definition StaticQRWithToken_finish :: "'w services \<Rightarrow> PaymentMerchantRequest \<Rightarrow> 'w st step_def list" where
  "StaticQRWithToken_finish S request =
     token_finish S (\<lambda>s. paid_to_merchant (rq_MerchantID (pmr_OrderRequest request)) (voucherId s) (bankTraceId s) (providerMerchantId s))"

definition StaticQRWithToken_verified ::
    "'w services \<Rightarrow> PaymentMerchantRequest \<Rightarrow> ConfirmPaymentTokenRequest \<Rightarrow> ('w st, OrderEntity option \<times> goerror option) comp" where
  "StaticQRWithToken_verified S request k = orchestrate S ''StaticQRWithToken With Token ''
     (token_otp_steps S k (\<lambda>_ t. t) (token_voucher S (rq_VoucherCode (pmr_OrderRequest request))) @ [] @ StaticQRWithToken_finish S request)"

definition StaticQRWithToken_request :: "PaymentMerchantRequest \<Rightarrow> ConfirmPaymentTokenRequest \<Rightarrow> int64 \<Rightarrow> InitPaymentTokenRequest" where
  "StaticQRWithToken_request request k = (let r = pmr_OrderRequest request in
     token_request k r (rq_Amount r) (rq_SubTransType r) (rq_TransType r) [])"

text \<open>Here the trace id of the bank is read from the order, and the cancelled transaction is not given it.\<close>

definition StaticQRWithToken_bypassed ::
    "'w services \<Rightarrow> PaymentMerchantRequest \<Rightarrow> ConfirmPaymentTokenRequest \<Rightarrow> ('w st, OrderEntity option \<times> goerror option) comp" where
  "StaticQRWithToken_bypassed S request k = (let r = pmr_OrderRequest request in
     token_open S (token_discount S r (rq_Amount r) (rq_SubTransType r)) (StaticQRWithToken_request request k)
       (\<lambda>order _. oe_BankTransactionId order) (\<lambda>order ress. orchestrate S ''StaticQRWithToken With Token ''
         (token_bypass_steps S (ipr_Status ress) as_is (bypass_voucher S r (rq_Amount r) (rq_SubTransType r)) @ [] @
          StaticQRWithToken_finish S request)))"

definition StaticQRWithToken ::
    "'w services \<Rightarrow> PaymentMerchantRequest \<Rightarrow> ConfirmPaymentTokenRequest option \<Rightarrow> ('w st, OrderEntity option \<times> goerror option) comp" where
  "StaticQRWithToken S request token = with_token token (StaticQRWithToken_verified S request) (StaticQRWithToken_bypassed S request)"

subsection \<open>An order on file\<close>

definition known_merchant :: "OrderEntity \<Rightarrow> ETransactionDTO \<Rightarrow> ETransactionDTO" where
  "known_merchant d t = t\<lparr>tx_MerchantID := oe_SubscribeMerchantID d, tx_BankTransactionId := oe_BankTransactionId d\<rparr>"

definition paid_by_bank :: "string \<Rightarrow> string \<Rightarrow> string \<Rightarrow> ETransactionDTO \<Rightarrow> ETransactionDTO" where
  "paid_by_bank v b p t = t\<lparr>tx_BankTransactionId := b, tx_VoucherID := v\<rparr>"

definition ConfirmOrderWithToken_voucher :: "'w services \<Rightarrow> ConfirmOrderRequest \<Rightarrow> ('w st, goerror option) comp" where
  "ConfirmOrderWithToken_voucher S request = bindc (deref (cfr_OrderRequest request)) (\<lambda>r. token_voucher S (rq_VoucherCode r))"

definition ConfirmOrderWithToken_finish :: "'w services \<Rightarrow> 'w st step_def list" where
  "ConfirmOrderWithToken_finish S = token_finish S (\<lambda>s. paid_by_bank (voucherId s) (bankTraceId s) (providerMerchantId s))"

definition ConfirmOrderWithToken_verified ::
    "'w services \<Rightarrow> ConfirmOrderRequest \<Rightarrow> ConfirmPaymentTokenRequest \<Rightarrow> ('w st, OrderEntity option \<times> goerror option) comp" where
  "ConfirmOrderWithToken_verified S request k = orchestrate S ''QRWithToken With Token ''
     (token_otp_steps S k known_merchant (ConfirmOrderWithToken_voucher S request) @ [] @ ConfirmOrderWithToken_finish S)"

definition ConfirmOrderWithToken_request ::
    "OrderRequest \<Rightarrow> OrderEntity \<Rightarrow> ConfirmPaymentTokenRequest \<Rightarrow> int64 \<Rightarrow> InitPaymentTokenRequest" where
  "ConfirmOrderWithToken_request r findOrder k =
     token_request k r (rq_Amount r) (rq_SubTransType r) (oe_OrderType findOrder) (oe_OrderID findOrder)"

definition ConfirmOrderWithToken_open ::
    "'w services \<Rightarrow> OrderRequest \<Rightarrow> OrderEntity \<Rightarrow> ConfirmPaymentTokenRequest \<Rightarrow> ('w st, OrderEntity option \<times> goerror option) comp" where
  "ConfirmOrderWithToken_open S r findOrder k =
     token_open S (token_discount S r (rq_Amount r) (rq_SubTransType r)) (ConfirmOrderWithToken_request r findOrder k)
       (\<lambda>_. ipr_BankTraceId) (\<lambda>order ress. orchestrate S ''QRWithToken With Token ''
         (token_bypass_steps S (ipr_Status ress) with_bank_id (bypass_voucher S r (rq_Amount r) (rq_SubTransType r)) @ [] @ ConfirmOrderWithToken_finish S))"

definition ConfirmOrderWithToken_bypassed ::
    "'w services \<Rightarrow> ConfirmOrderRequest \<Rightarrow> ConfirmPaymentTokenRequest \<Rightarrow> ('w st, OrderEntity option \<times> goerror option) comp" where
  "ConfirmOrderWithToken_bypassed S request k =
     bindc (GetValidOrder S (cpt_OrderId k)) (\<lambda>r. case r of
       Inl e \<Rightarrow> ret (None, Some e)
     | Inr findOrder \<Rightarrow> bindc (deref (cfr_OrderRequest request)) (\<lambda>r. ConfirmOrderWithToken_open S r findOrder k))"

definition ConfirmOrderWithToken ::
    "'w services \<Rightarrow> ConfirmOrderRequest \<Rightarrow> ConfirmPaymentTokenRequest option \<Rightarrow> ('w st, OrderEntity option \<times> goerror option) comp" where
  "ConfirmOrderWithToken S request token = with_token token (ConfirmOrderWithToken_verified S request) (ConfirmOrderWithToken_bypassed S request)"

subsection \<open>What is sold\<close>

definition nothing_sold :: "OrderEntity \<Rightarrow> ETransactionDTO \<Rightarrow> ETransactionDTO \<Rightarrow> string \<Rightarrow> event list \<Rightarrow> bool" where
  "nothing_sold d t t' p es \<longleftrightarrow> t' = t \<and> p = [] \<and> es = []"

text \<open>The discounts that a card fee writes into the transaction.\<close>

definition discounted :: "OrderRequest \<Rightarrow> VendorDiscountRes \<Rightarrow> ETransactionDTO \<Rightarrow> ETransactionDTO" where
  "discounted r fee t = t\<lparr>tx_DiscountForMerchantSubscriber := rq_Quantity r * vdr_MerchantDiscountAmount fee,
     tx_DiscountOfMerchantProvider := rq_Quantity r * vdr_VendorDiscountAmount fee\<rparr>"

definition topup_sold :: "OrderTopUpRequest \<Rightarrow> OrderEntity \<Rightarrow> ETransactionDTO \<Rightarrow> ETransactionDTO \<Rightarrow> string \<Rightarrow> event list \<Rightarrow> bool" where
  "topup_sold request d t t' p es \<longleftrightarrow> (\<exists>a fee. es = [EvTopup (TopUp_req request d t) (Inr a)] \<and>
     tur_Status a \<noteq> TRANSACTION_STATUS_PENDING \<and> p = tur_ProviderMerchantId a \<and> t' = discounted (tor_OrderRequest request) fee t)"

definition cards_sold :: "OrderBuyCardRequest \<Rightarrow> OrderEntity \<Rightarrow> ETransactionDTO \<Rightarrow> ETransactionDTO \<Rightarrow> string \<Rightarrow> event list \<Rightarrow> bool" where
  "cards_sold request d t t' p es \<longleftrightarrow> (\<exists>a fee. es = [EvBuyCard (BuyCard_req request d t) (Inr a)] \<and>
     bcr_Status a \<noteq> TRANSACTION_STATUS_PENDING \<and> p = bcr_ProviderMerchantId a \<and> t' = discounted (bcq_OrderRequest request) fee t)"

definition bill_sold :: "OrderPayBillRequest \<Rightarrow> OrderEntity \<Rightarrow> ETransactionDTO \<Rightarrow> ETransactionDTO \<Rightarrow> string \<Rightarrow> event list \<Rightarrow> bool" where
  "bill_sold request d t t' p es \<longleftrightarrow> (\<exists>a. es = [EvPaidBill (PayBill_req request (oe_SubOrderType d) d t) (Inr a)] \<and>
     pbr_Status a \<noteq> TRANSACTION_STATUS_PENDING \<and> p = pbr_ProviderMerchantId a \<and> t' = t)"

lemma undelivered_comp_provider:
  "atmost delivers 0 (comp_provider S isPendingSrvCard as_is with_reason k)"
  by (intro atmost_rules) simp_all

interpretation nothing: token_payment S "[]" nothing_sold fin for S fin
  by unfold_locales (auto simp: nothing_sold_def intro!: forward_succeeds forward_goes)

interpretation topup_token: token_payment S "TopUpWithToken_sell S request" "topup_sold request" paid_by_card for S request
proof (unfold_locales, goal_cases)
  case (1 s evs d t v b u)
  then show ?case
    unfolding TopUpWithToken_sell_def TopUpWithToken_fee_def
    by (intro forward_succeeds TopUp_provider_succeeds BuyCard_fee_succeeds)
      (auto simp: topup_sold_def discounted_def paying_def simp del: filter_filter)
next
  case (2 s evs d t v b u)
  then show ?case
    unfolding TopUpWithToken_sell_def TopUpWithToken_fee_def
    by (intro forward_goes TopUp_provider_goes BuyCard_fee_goes cooperativeD(1))
      (auto simp: paying_def simp del: filter_filter)
next
  case (3 n f g)
  have "atmost (\<lambda>_. False) 0 (TopUp_provider S request)" by (rule TopUp_atmost_provider) simp
  with 3 undelivered_comp_provider show ?case
    by (auto simp: TopUpWithToken_sell_def TopUpWithToken_fee_def intro!: atmost_rules)
qed

interpretation buycard_token: token_payment S "BuyCardWithToken_sell S request" "cards_sold request" paid_by_card for S request
proof (unfold_locales, goal_cases)
  case (1 s evs d t v b u)
  then show ?case
    unfolding BuyCardWithToken_sell_def
    by (intro forward_succeeds BuyCard_provider_succeeds BuyCard_fee_succeeds)
      (auto simp: cards_sold_def discounted_def paying_def simp del: filter_filter)
next
  case (2 s evs d t v b u)
  then show ?case
    unfolding BuyCardWithToken_sell_def
    by (intro forward_goes BuyCard_provider_goes BuyCard_fee_goes cooperativeD(1))
      (auto simp: paying_def simp del: filter_filter)
next
  case (3 n f g)
  have "atmost (\<lambda>_. False) 0 (BuyCard_provider S request)" by (rule BuyCard_atmost_provider) simp
  with 3 undelivered_comp_provider show ?case
    by (auto simp: BuyCardWithToken_sell_def intro!: atmost_rules)
qed

lemma PaidBillWithToken_provider_succeeds:
  assumes "\<And>d t p w es. order_dto s = Some d \<Longrightarrow> trans s = Some t \<Longrightarrow> pbr_Status p \<noteq> TRANSACTION_STATUS_PENDING \<Longrightarrow>
     es = [EvPaidBill (PayBill_req request (oe_SubOrderType d) d t) (Inr p)] \<Longrightarrow>
     R ((appended s w es)\<lparr>providerMerchantId := pbr_ProviderMerchantId p\<rparr>)"
  shows "succeeds (PaidBillWithToken_provider S request) R s"
  using assms by (auto simp: PaidBillWithToken_provider_def wp_rules appended_def split: option.split sum.split)

lemma PaidBillWithToken_provider_goes:
  assumes "cooperative S" "order_dto s \<noteq> None" "trans s \<noteq> None"
    and "\<And>m w es. R ((appended s w es)\<lparr>providerMerchantId := m\<rparr>)"
  shows "goes (PaidBillWithToken_provider S request) R s"
proof -
  have call: "fine (act (cs_PaidBill S q) ev) (\<lambda>r. \<exists>p. r = Inr p \<and> pbr_Status p \<noteq> TRANSACTION_STATUS_PENDING)" for q ev
    by (rule fine_act) (rule cooperativeD(4) [OF assms(1)])
  show ?thesis
    unfolding PaidBillWithToken_provider_def wp_bindc wp_the_order wp_the_trans using assms(2-)
    by (auto split: option.split intro!: fine_wp [OF call]) (simp add: wp_rules)
qed

lemma PaidBillWithToken_provider_quiet: "atmost (\<lambda>_. False) 0 (PaidBillWithToken_provider S request)"
  unfolding PaidBillWithToken_provider_def
  by (rule atmost_bindc, rule atmost_statements, rule atmost_bindc, rule atmost_statements, rule atmost_bindc_left)
    (auto intro!: atmost_rules)

interpretation paidbill_token: token_payment S "PaidBillWithToken_sell S request" "bill_sold request" paid_by_card for S request
proof (unfold_locales, goal_cases)
  case (1 s evs d t v b u)
  then show ?case
    unfolding PaidBillWithToken_sell_def
    by (intro forward_succeeds PaidBillWithToken_provider_succeeds)
      (auto simp: bill_sold_def paying_def simp del: filter_filter)
next
  case (2 s evs d t v b u)
  then show ?case
    unfolding PaidBillWithToken_sell_def
    by (intro forward_goes PaidBillWithToken_provider_goes) (auto simp: paying_def simp del: filter_filter)
next
  case (3 n f g)
  with PaidBillWithToken_provider_quiet undelivered_comp_provider show ?case
    by (auto simp: PaidBillWithToken_sell_def)
qed

subsection \<open>What a payment that goes well has done\<close>

definition TopUpWithToken_done where
  "TopUpWithToken_done S request token = (let r = tor_OrderRequest request in
     token_done S token (rq_VoucherCode r) known_bank (topup_sold request) paid_by_card
       (opened_bought S r (rq_Amount r) (rq_SubTransType r) (TopUpWithToken_request request) (\<lambda>_. ipr_BankTraceId) (topup_sold request) paid_by_card))"

lemma TopUpWithToken_succeeds:
  "wp (TopUpWithToken S request token) (\<lambda>(p, err) t. err = None \<longrightarrow>
     (\<exists>d evs. p = Some d \<and> key (trace t) = key (trace s) @ evs \<and> TopUpWithToken_done S request token evs d)) (\<lambda>_. True) s"
  unfolding TopUpWithToken_def TopUpWithToken_verified_def TopUpWithToken_finish_def TopUpWithToken_bypassed_def TopUpWithToken_done_def Let_def
  by (rule topup_token.finished [OF redeems_token(1) topup_token.opens])

lemma TopUpWithToken_guarded:
  "wp (TopUpWithToken S request token) (\<lambda>_. only_after delivers bank_accepted s) (only_after delivers bank_accepted s) s"
  unfolding TopUpWithToken_def TopUpWithToken_verified_def TopUpWithToken_finish_def TopUpWithToken_bypassed_def Let_def
  by (rule topup_token.guarded [OF redeems_token(1) topup_token.opens_guarded])

lemma TopUpWithToken_progress:
  assumes "cooperative S" "bank_says_200 S" "order_on_file S (cpt_OrderId k)"
  shows "\<exists>d t. TopUpWithToken S request (Some k) s = (Ret (Some d, None), t)"
  unfolding TopUpWithToken_def TopUpWithToken_verified_def TopUpWithToken_finish_def TopUpWithToken_bypassed_def Let_def
  by (rule topup_token.progress [OF redeems_token(3) assms(1,3) topup_token.opens_goes [OF assms(1,2)]])
    (simp add: TopUpWithToken_request_def Let_def token_request_def)


definition BuyCardWithToken_done where
  "BuyCardWithToken_done S request token = (let r = bcq_OrderRequest request in
     token_done S token (rq_VoucherCode r) known_bank (cards_sold request) paid_by_card
       (opened_bought S r (rq_Amount r * rq_Quantity r) (rq_SubTransType r) (BuyCardWithToken_request request) (\<lambda>_. ipr_BankTraceId) (cards_sold request) paid_by_card))"

lemma BuyCardWithToken_succeeds:
  "wp (BuyCardWithToken S request token) (\<lambda>(p, err) t. err = None \<longrightarrow>
     (\<exists>d evs. p = Some d \<and> key (trace t) = key (trace s) @ evs \<and> BuyCardWithToken_done S request token evs d)) (\<lambda>_. True) s"
  unfolding BuyCardWithToken_def BuyCardWithToken_verified_def BuyCardWithToken_finish_def BuyCardWithToken_bypassed_def BuyCardWithToken_done_def Let_def
  by (rule buycard_token.finished [OF redeems_token(1) buycard_token.opens])

lemma BuyCardWithToken_guarded:
  "wp (BuyCardWithToken S request token) (\<lambda>_. only_after delivers bank_accepted s) (only_after delivers bank_accepted s) s"
  unfolding BuyCardWithToken_def BuyCardWithToken_verified_def BuyCardWithToken_finish_def BuyCardWithToken_bypassed_def Let_def
  by (rule buycard_token.guarded [OF redeems_token(1) buycard_token.opens_guarded])

lemma BuyCardWithToken_progress:
  assumes "cooperative S" "bank_says_200 S" "order_on_file S (cpt_OrderId k)"
  shows "\<exists>d t. BuyCardWithToken S request (Some k) s = (Ret (Some d, None), t)"
  unfolding BuyCardWithToken_def BuyCardWithToken_verified_def BuyCardWithToken_finish_def BuyCardWithToken_bypassed_def Let_def
  by (rule buycard_token.progress [OF redeems_token(3) assms(1,3) buycard_token.opens_goes [OF assms(1,2)]])
    (simp add: BuyCardWithToken_request_def Let_def token_request_def)

definition StaticQRWithToken_done where
  "StaticQRWithToken_done S request token = (let r = pmr_OrderRequest request in
     token_done S token (rq_VoucherCode r) (\<lambda>_ t. t) nothing_sold (paid_to_merchant (rq_MerchantID r))
       (opened_bought S r (rq_Amount r) (rq_SubTransType r) (StaticQRWithToken_request request) (\<lambda>order _. oe_BankTransactionId order) nothing_sold (paid_to_merchant (rq_MerchantID r))))"

lemma StaticQRWithToken_succeeds:
  "wp (StaticQRWithToken S request token) (\<lambda>(p, err) t. err = None \<longrightarrow>
     (\<exists>d evs. p = Some d \<and> key (trace t) = key (trace s) @ evs \<and> StaticQRWithToken_done S request token evs d)) (\<lambda>_. True) s"
  unfolding StaticQRWithToken_def StaticQRWithToken_verified_def StaticQRWithToken_finish_def StaticQRWithToken_bypassed_def StaticQRWithToken_done_def Let_def
  by (rule nothing.finished [OF redeems_token(1) nothing.opens])

lemma StaticQRWithToken_guarded:
  "wp (StaticQRWithToken S request token) (\<lambda>_. only_after delivers bank_accepted s) (only_after delivers bank_accepted s) s"
  unfolding StaticQRWithToken_def StaticQRWithToken_verified_def StaticQRWithToken_finish_def StaticQRWithToken_bypassed_def Let_def
  by (rule nothing.guarded [OF redeems_token(1) nothing.opens_guarded])

lemma StaticQRWithToken_progress:
  assumes "cooperative S" "bank_says_200 S" "order_on_file S (cpt_OrderId k)"
  shows "\<exists>d t. StaticQRWithToken S request (Some k) s = (Ret (Some d, None), t)"
  unfolding StaticQRWithToken_def StaticQRWithToken_verified_def StaticQRWithToken_finish_def StaticQRWithToken_bypassed_def Let_def
  by (rule nothing.progress [OF redeems_token(3) assms(1,3) nothing.opens_goes [OF assms(1,2)]])
    (simp add: StaticQRWithToken_request_def Let_def token_request_def)

definition PaidBillWithToken_done where
  "PaidBillWithToken_done S request token = (let r = pbq_OrderRequest request in
     token_done S token (rq_VoucherCode r) known_bank (bill_sold request) paid_by_card
       (\<lambda>k evs d. \<exists>vendorType. let ty = bill_type vendorType [] in
          opened_bought S r (rq_Amount r) ty (PaidBillWithToken_request request ty) (\<lambda>_. ipr_BankTraceId) (bill_sold request) paid_by_card k evs d))"


lemma PaidBillWithToken_bypassed_wp:
  assumes "\<And>ty u. trace u = trace s \<Longrightarrow> wp (PaidBillWithToken_open S request (bill_type ty []) k) Q E u"
    and "\<And>p e u. trace u = trace s \<Longrightarrow> Q (p, Some e) u" "\<And>u. trace u = trace s \<Longrightarrow> E u"
  shows "wp (PaidBillWithToken_bypassed S request k) Q E s"
  by (auto simp: PaidBillWithToken_bypassed_def wp_rules intro: assms split: sum.split option.split)

lemma PaidBillWithToken_succeeds:
  "wp (PaidBillWithToken S request token) (\<lambda>(p, err) t. err = None \<longrightarrow>
     (\<exists>d evs. p = Some d \<and> key (trace t) = key (trace s) @ evs \<and> PaidBillWithToken_done S request token evs d)) (\<lambda>_. True) s"
  unfolding PaidBillWithToken_def PaidBillWithToken_verified_def PaidBillWithToken_finish_def PaidBillWithToken_done_def Let_def
proof (rule paidbill_token.finished [OF redeems_token(1)], rule PaidBillWithToken_bypassed_wp, goal_cases)
  case (1 k s' ty u)
  show ?case
    unfolding PaidBillWithToken_open_def PaidBillWithToken_finish_def Let_def by (rule wp_mono [OF paidbill_token.opens]) (use 1 in auto)
qed simp_all

lemma PaidBillWithToken_guarded:
  "wp (PaidBillWithToken S request token) (\<lambda>_. only_after delivers bank_accepted s) (only_after delivers bank_accepted s) s"
  unfolding PaidBillWithToken_def PaidBillWithToken_verified_def PaidBillWithToken_finish_def
proof (rule paidbill_token.guarded [OF redeems_token(1)], rule PaidBillWithToken_bypassed_wp, goal_cases)
  case (1 k s' ty u)
  show ?case
    unfolding PaidBillWithToken_open_def PaidBillWithToken_finish_def Let_def
    by (rule wp_mono [OF paidbill_token.opens_guarded]) (simp_all add: only_after_def adds_def meets_def 1)
qed (simp_all add: only_after_refl)

lemma PaidBillWithToken_progress:
  assumes "cooperative S" "bank_says_200 S" "order_on_file S (cpt_OrderId k)"
  shows "\<exists>d t. PaidBillWithToken S request (Some k) s = (Ret (Some d, None), t)"
  unfolding PaidBillWithToken_def PaidBillWithToken_verified_def PaidBillWithToken_finish_def
proof (rule paidbill_token.progress [OF redeems_token(3) assms(1,3)], goal_cases)
  case (1 s')
  obtain ty w where v: "cs_FindVendor S (pbq_ServiceCode request) (world s') = (Inr (Some ty), w)"
    using obligingD(11) [OF cooperativeD(1) [OF assms(1)]] by (metis prod.collapse)
  show ?case
    using paidbill_token.opens_goes [OF assms(1,2), where request = "PaidBillWithToken_request request (bill_type (vn_Type ty) []) k"]
    by (simp add: PaidBillWithToken_bypassed_def PaidBillWithToken_open_def PaidBillWithToken_finish_def Let_def bindc_def ask_def v deref_def ret_def
        PaidBillWithToken_request_def token_request_def)
qed

text \<open>The order on file is looked up before the payment is opened.\<close>

definition ConfirmOrderWithToken_done where
  "ConfirmOrderWithToken_done S request token = token_done S token (rq_VoucherCode (the (cfr_OrderRequest request))) known_merchant nothing_sold paid_by_bank
     (\<lambda>k evs d. \<exists>r findOrder. cfr_OrderRequest request = Some r \<and> payable_order S (cpt_OrderId k) findOrder \<and>
        opened_bought S r (rq_Amount r) (rq_SubTransType r) (ConfirmOrderWithToken_request r findOrder) (\<lambda>_. ipr_BankTraceId) nothing_sold paid_by_bank k evs d)"

lemma redeems_panic: "redeems S code (panic e)"
  by (auto simp: redeems_def atmost_def wp_panic adds_refl)

lemma redeems_confirm: "redeems S (rq_VoucherCode (the (cfr_OrderRequest request))) (ConfirmOrderWithToken_voucher S request)"
proof (cases "cfr_OrderRequest request")
  case None
  then have "ConfirmOrderWithToken_voucher S request = panic ''nil pointer dereference''"
    by (simp add: ConfirmOrderWithToken_voucher_def)
  then show ?thesis by (simp add: redeems_panic)
qed (simp add: ConfirmOrderWithToken_voucher_def redeems_token)

lemma ConfirmOrderWithToken_bypassed_wp:
  assumes "\<And>r d u es. cfr_OrderRequest request = Some r \<Longrightarrow> payable_order S (cpt_OrderId k) d \<Longrightarrow> trace u = trace s @ es \<Longrightarrow> key es = [] \<Longrightarrow> wp (ConfirmOrderWithToken_open S r d k) Q E u"
    and "\<And>e u es. trace u = trace s @ es \<Longrightarrow> key es = [] \<Longrightarrow> Q (None, Some e) u"
    and "\<And>u es. trace u = trace s @ es \<Longrightarrow> key es = [] \<Longrightarrow> E u"
  shows "wp (ConfirmOrderWithToken_bypassed S request k) Q E s"
  unfolding ConfirmOrderWithToken_bypassed_def wp_bindc [of "GetValidOrder _ _"]
  by (rule does_wp [OF valid_order_does])
    (use assms in \<open>auto simp: wp_rules split: sum.split option.split\<close>)

lemma ConfirmOrderWithToken_succeeds:
  "wp (ConfirmOrderWithToken S request token) (\<lambda>(p, err) t. err = None \<longrightarrow>
     (\<exists>d evs. p = Some d \<and> key (trace t) = key (trace s) @ evs \<and> ConfirmOrderWithToken_done S request token evs d)) (\<lambda>_. True) s"
  unfolding ConfirmOrderWithToken_def ConfirmOrderWithToken_verified_def ConfirmOrderWithToken_finish_def ConfirmOrderWithToken_done_def
proof (rule nothing.finished [OF redeems_confirm], rule ConfirmOrderWithToken_bypassed_wp, goal_cases)
  case (1 k s' r d u es)
  show ?case
    unfolding ConfirmOrderWithToken_open_def ConfirmOrderWithToken_finish_def
    by (rule wp_mono [OF nothing.opens]) (use 1 in \<open>auto simp del: filter_filter\<close>)
qed simp_all

lemma ConfirmOrderWithToken_guarded:
  "wp (ConfirmOrderWithToken S request token) (\<lambda>_. only_after delivers bank_accepted s) (only_after delivers bank_accepted s) s"
  unfolding ConfirmOrderWithToken_def ConfirmOrderWithToken_verified_def ConfirmOrderWithToken_finish_def
proof (rule nothing.guarded [OF redeems_confirm], rule ConfirmOrderWithToken_bypassed_wp, goal_cases)
  case (1 k s' r d u es)
  have "only_after delivers bank_accepted s' v" if "only_after delivers bank_accepted u v" for v
    using that 1 by (auto simp: only_after_def adds_def meets_def simp del: filter_filter)
  then show ?case
    unfolding ConfirmOrderWithToken_open_def ConfirmOrderWithToken_finish_def by (intro wp_mono [OF nothing.opens_guarded]) simp_all
qed (auto simp: only_after_def adds_def simp del: filter_filter)

lemma ConfirmOrderWithToken_progress:
  assumes "cooperative S" "bank_says_200 S" "\<And>i. order_on_file S i" "cfr_OrderRequest request = Some r"
  shows "\<exists>d t. ConfirmOrderWithToken S request (Some k) s = (Ret (Some d, None), t)"
  unfolding ConfirmOrderWithToken_def ConfirmOrderWithToken_verified_def ConfirmOrderWithToken_finish_def
proof (rule nothing.progress [OF _ assms(1,3)], goal_cases)
  case 1
  then show ?case by (simp add: ConfirmOrderWithToken_voucher_def assms(4) redeems_token)
next
  case (2 s')
  obtain d w where d: "mg_FindOrder S (ByOrderID (cpt_OrderId k)) (world s') = (Inr d, w)" "payable d"
    using assms(3) unfolding order_on_file_def by (metis prod.collapse)
  show ?case
    using nothing.opens_goes [OF assms(1-3), where request = "ConfirmOrderWithToken_request r d k"]
    by (simp add: ConfirmOrderWithToken_bypassed_def ConfirmOrderWithToken_open_def ConfirmOrderWithToken_finish_def bindc_def ask_def deref_def ret_def
        GetValidOrder_def FindByOrderID_def d d(2) [unfolded payable_def] assms(4))
qed

subsection \<open>Properties\<close>

definition example_token :: "string \<Rightarrow> ConfirmPaymentTokenRequest" where
  "example_token otp = \<lparr>cpt_BankTraceId = ''B1'', cpt_OrderId = ''O7'', cpt_LinkId = 3, cpt_Otp = otp, cpt_BankCode = [], cpt_GpayBankCode = []\<rparr>"

lemma example_bank_says_200: "bank_says_200 example_services"
  by (simp add: bank_says_200_def example_services_def http_result_def BankRes_zero_def)

lemma example_order_on_file: "order_on_file example_services i"
  by (simp add: order_on_file_def payable_def example_services_def example_order_def OrderEntity_zero_def status_defs)

text \<open>
  C18: when a payment by card token goes well, then with a password the order that the collection
  holds under the id of the token request is still payable, its transaction is the one that is confirmed, and the bank was sent the password and has accepted it before the phone is topped up;
  without a password the order and the payment are opened for the amount of the request and the link that the request names, the bank has answered \<open>200\<close>, and only then is the
  phone topped up.  In both cases the voucher is used at most once, the transaction is confirmed with the provider, the voucher and the trace id of
  the bank, and the order is stored as successful; there is no other call that moves money.
\<close>

theorem TopUpWithToken_completes:
  assumes "TopUpWithToken S request token s = (Ret (p, None), t)"
  shows "\<exists>d evs. p = Some d \<and> key (trace t) = key (trace s) @ evs \<and> TopUpWithToken_done S request token evs d"
  using wp_Ret [OF TopUpWithToken_succeeds assms] by simp

theorem TopUpWithToken_completes_witness:
  "\<exists>p t d evs. TopUpWithToken example_services example_topup (Some (example_token [])) example_state = (Ret (p, None), t) \<and>
     p = Some d \<and> key (trace t) = evs \<and> TopUpWithToken_done example_services example_topup (Some (example_token [])) evs d"
proof -
  obtain p t where run: "TopUpWithToken example_services example_topup (Some (example_token [])) example_state = (Ret (p, None), t)"
    using TopUpWithToken_progress [OF example_cooperative example_bank_says_200 example_order_on_file] by blast
  from TopUpWithToken_completes [OF run] run show ?thesis by (auto simp: example_state_def)
qed

text \<open>
  When the payment of an order on file by card token goes well, the order was payable, the bank has
  taken the money (after the password, or at once with the answer \<open>200\<close> for the stored order and its transaction), and then the transaction was confirmed with the trace
  id of the bank and the voucher, and the order stored as successful; nothing else moved money.
\<close>

theorem ConfirmOrderWithToken_completes:
  assumes "ConfirmOrderWithToken S request token s = (Ret (p, None), t)"
  shows "\<exists>d evs. p = Some d \<and> key (trace t) = key (trace s) @ evs \<and> ConfirmOrderWithToken_done S request token evs d"
  using wp_Ret [OF ConfirmOrderWithToken_succeeds assms] by simp

theorem ConfirmOrderWithToken_completes_witness:
  "\<exists>p t d evs. ConfirmOrderWithToken example_services example_confirm (Some (example_token ''123456'')) example_state = (Ret (p, None), t) \<and>
     p = Some d \<and> key (trace t) = evs \<and> ConfirmOrderWithToken_done example_services example_confirm (Some (example_token ''123456'')) evs d"
proof -
  have "cfr_OrderRequest example_confirm = Some example_request" by (simp add: example_confirm_def)
  then obtain p t where run: "ConfirmOrderWithToken example_services example_confirm (Some (example_token ''123456'')) example_state = (Ret (p, None), t)"
    using ConfirmOrderWithToken_progress [OF example_cooperative example_bank_says_200 example_order_on_file] by blast
  from ConfirmOrderWithToken_completes [OF run] run show ?thesis by (auto simp: example_state_def)
qed

text \<open>
  Whatever the services answer, no payment by card token tops up a phone, buys a card, pays a bill or confirms a payment
  unless the bank has accepted: along the run there is no such call, or there is an answer of the bank without error that says success.
\<close>

theorem token_payments_guarded:
  shows "wp (TopUpWithToken S topup token) (\<lambda>_. only_after delivers bank_accepted s) (only_after delivers bank_accepted s) s \<and>
    wp (BuyCardWithToken S cards token) (\<lambda>_. only_after delivers bank_accepted s) (only_after delivers bank_accepted s) s \<and>
    wp (PaidBillWithToken S bill token) (\<lambda>_. only_after delivers bank_accepted s) (only_after delivers bank_accepted s) s \<and>
    wp (StaticQRWithToken S qr token) (\<lambda>_. only_after delivers bank_accepted s) (only_after delivers bank_accepted s) s \<and>
    wp (ConfirmOrderWithToken S request token) (\<lambda>_. only_after delivers bank_accepted s) (only_after delivers bank_accepted s) s"
  by (intro conjI TopUpWithToken_guarded BuyCardWithToken_guarded PaidBillWithToken_guarded StaticQRWithToken_guarded ConfirmOrderWithToken_guarded)

end
