(* ===== verification/Bank_Status.thy ===== *)
theory Bank_Status
  imports With_Token
begin

text \<open>
  The consumer of bank results, \<open>UpdateBankStatus\<close> of \<open>application/order_consumer.go\<close>: the bank reports how the deposit for
  an order has ended; when the money is there, what the order asks for is bought and the payment confirmed.  The kind of the
  order decides which of the three provider steps does something.  \<open>proto.Unmarshal\<close> is the parameter \<open>decode\<close>.
\<close>

record BankOrderStatusResponse =
  bo_OrderId :: string
  bo_Amount :: string
  bo_RefId :: string
  bo_BankTransactionId :: string
  bo_ErrorCode :: string
  bo_Description :: string

definition UpdateBankStatus_find :: "'w services \<Rightarrow> BankOrderStatusResponse \<Rightarrow> ('w st, goerror option) comp" where
  "UpdateBankStatus_find S m =
     bindc (GetValidOrder S (bo_OrderId m)) (\<lambda>r. case r of
       Inl e \<Rightarrow> ret (Some e)
     | Inr findOrder \<Rightarrow> thenc (set_order (Some findOrder)) (ret None))"

text \<open>
  A bank that has refused: the payment is cancelled, the order written (as successful) and the step ends in an
  error.  What the calls return is dropped.
\<close>

definition UpdateBankStatus_failed :: "'w services \<Rightarrow> BankOrderStatusResponse \<Rightarrow> ('w st, goerror option) comp" where
  "UpdateBankStatus_failed S m =
     (if bo_ErrorCode m \<noteq> ''200'' then
        thenc (set_failReason (bo_Description m))
       (thenc (update_trans (\<lambda>t. t\<lparr>tx_FailReason := bo_Description m, tx_RefId := bo_RefId m, tx_BankTransactionId := bo_BankTransactionId m\<rparr>))
       (bindc the_trans (\<lambda>t.
        bindc (serviceTransactionCancel S t) (\<lambda>(_, err). case err of
          Some e \<Rightarrow> ret (Some e)
        | None \<Rightarrow>
            thenc (update_order (\<lambda>d. d\<lparr>oe_FailReason := bo_Description m\<rparr>))
           (thenc (through_order (SuccessOrder S)) (ret (Some ErrGeneral)))))))
      else ret None)"

definition UpdateBankStatus_voucher :: "'w services \<Rightarrow> ('w st, goerror option) comp" where
  "UpdateBankStatus_voucher S =
     bindc the_order (\<lambda>d.
     bindc (token_voucher S (oe_VoucherCode d)) (\<lambda>err. case err of
       Some e \<Rightarrow> ret (Some e)
     | None \<Rightarrow>
         thenc (whenc (oe_VoucherCode d \<noteq> []) (bindc (gets voucherId) (\<lambda>v. update_trans (\<lambda>t. t\<lparr>tx_VoucherID := v\<rparr>))))
           (ret None)))"

subsection \<open>The three providers\<close>

definition card_types :: "string list" where
  "card_types = [SUB_TRANSTYPE_WALLET_BUY_DATA, SUB_TRANSTYPE_WALLET_BUY_CARD]"

definition bill_types :: "string list" where
  "bill_types = [SUB_TRANSTYPE_WALLET_PAY_BILL_WATTER, SUB_TRANSTYPE_WALLET_PAY_BILL_ELECTRIC, SUB_TRANSTYPE_WALLET_PAY_BILL_LOAN,
     SUB_TRANSTYPE_WALLET_PAY_BILL_INTERNET, SUB_TRANSTYPE_WALLET_PAY_BILL_TELEPHONE, SUB_TRANSTYPE_WALLET_PAY_BILL_TV]"

fun IsStringSliceContains :: "string list \<Rightarrow> string \<Rightarrow> bool" where
  "IsStringSliceContains [] searchString = False"
| "IsStringSliceContains (v # stringSlice) searchString = (if v = searchString then True else IsStringSliceContains stringSlice searchString)"

lemma IsStringSliceContains_set [simp]: "IsStringSliceContains xs x \<longleftrightarrow> x \<in> set xs"
  by (induction xs) auto

text \<open>What a provider has answered goes into the variables; an open answer ends the step.\<close>

definition provider_answered :: "string \<Rightarrow> string \<Rightarrow> ('w st, goerror option) comp" where
  "provider_answered p status =
     thenc (modify (\<lambda>s. s\<lparr>providerMerchantId := p\<rparr>))
    (thenc (update_trans (\<lambda>t. t\<lparr>tx_ProviderMerchantID := p\<rparr>))
    (if status = TRANSACTION_STATUS_PENDING
     then thenc (modify (\<lambda>s. s\<lparr>isPendingSrvCard := True\<rparr>)) (ret (Some ErrPendingOrder))
     else ret None))"

definition bank_cards :: "OrderEntity \<Rightarrow> ETransactionDTO \<Rightarrow> BuyCardReq" where
  "bank_cards d t = \<lparr>bc_Price = oe_Amount d, bc_Telco = oe_OrderCardTelco d, bc_Quantity = oe_Quantity d,
     bc_UserId = oe_UserID d, bc_OrderId = oe_OrderID d, bc_TransactionId = tx_TransactionId t\<rparr>"

definition UpdateBankStatus_cards :: "'w services \<Rightarrow> ('w st, goerror option) comp" where
  "UpdateBankStatus_cards S =
     bindc the_order (\<lambda>d.
     if IsStringSliceContains card_types (oe_SubOrderType d) then
       bindc the_trans (\<lambda>t.
       bindc (act (cs_BuyCard S (bank_cards d t)) (EvBuyCard (bank_cards d t))) (\<lambda>r. case r of
         Inl e \<Rightarrow> thenc (set_failReason (GetGrpcErrMessage S e)) (ret (Some (ErrorString (GetGrpcErrMessage S e))))
       | Inr buycardRes \<Rightarrow>
           thenc (modify (\<lambda>s. s\<lparr>providerMerchant := bcr_ProviderMerchant buycardRes, cardType := bcr_CardType buycardRes\<rparr>))
             (provider_answered (bcr_ProviderMerchantId buycardRes) (bcr_Status buycardRes))))
     else ret None)"

definition bank_card_name :: "string \<Rightarrow> string" where
  "bank_card_name telco = (if strings_Contains telco ''DT_'' then strings_Remove ''DT_'' telco else telco)"

definition bank_card_discount :: "OrderEntity \<Rightarrow> string \<Rightarrow> string \<Rightarrow> VendorDiscountReq" where
  "bank_card_discount d provider ctype = \<lparr>vd_Amount = oe_Amount d, vd_ServiceType = oe_ServiceType d, vd_TransType = oe_OrderType d,
     vd_SubTransType = oe_SubOrderType d, vd_MerchantId = oe_SubscribeMerchantID d, vd_Provider = provider,
     vd_CardName = bank_card_name (oe_OrderCardTelco d), vd_CardType = ctype\<rparr>"

text \<open>The error of the lookup is a variable of the inner block here, so the step goes well all the same.\<close>

definition UpdateBankStatus_fee :: "'w services \<Rightarrow> ('w st, goerror option) comp" where
  "UpdateBankStatus_fee S =
     bindc the_order (\<lambda>d.
     if IsStringSliceContains card_types (oe_SubOrderType d) then
       bindc (gets providerMerchant) (\<lambda>p. bindc (gets cardType) (\<lambda>c.
       bindc (ask (mf_VendorDiscount S (bank_card_discount d p c))) (\<lambda>x. case x of
         Inl e \<Rightarrow> thenc (set_failReason (Error e)) (ret None)
       | Inr merchantFee \<Rightarrow>
           thenc (update_trans (\<lambda>t. t\<lparr>
             tx_DiscountForMerchantSubscriber := oe_Quantity d * vdr_MerchantDiscountAmount merchantFee,
             tx_DiscountOfMerchantProvider := oe_Quantity d * vdr_VendorDiscountAmount merchantFee\<rparr>)) (ret None))))
     else ret None)"

definition bank_topup :: "OrderEntity \<Rightarrow> ETransactionDTO \<Rightarrow> TopupReq" where
  "bank_topup d t = \<lparr>tu_Price = oe_Amount d, tu_Telco = oe_OrderCardTelco d, tu_Phone = oe_PhoneTopUp d, tu_UserId = oe_UserID d,
     tu_OrderId = oe_OrderID d, tu_SubTransType = oe_SubOrderType d, tu_TransactionId = tx_TransactionId t\<rparr>"

definition UpdateBankStatus_topup :: "'w services \<Rightarrow> ('w st, goerror option) comp" where
  "UpdateBankStatus_topup S =
     bindc the_order (\<lambda>d.
     if oe_SubOrderType d = SUB_TRANSTYPE_WALLET_TOPUP_CARD then
       bindc the_trans (\<lambda>t.
       bindc (act (cs_Topup S (bank_topup d t)) (EvTopup (bank_topup d t))) (\<lambda>r. case r of
         Inl e \<Rightarrow> thenc (set_failReason (Error e)) (ret (Some ErrFailOrder))
       | Inr topUpRes \<Rightarrow> provider_answered (tur_ProviderMerchantId topUpRes) (tur_Status topUpRes)))
     else ret None)"

definition bank_bill :: "OrderEntity \<Rightarrow> ETransactionDTO \<Rightarrow> PaidBillReq" where
  "bank_bill d t = \<lparr>pb_Amount = oe_Amount d, pb_ServiceCode = oe_OrderBillServiceCode d, pb_CustomerReference = oe_OrderBillCustomerRef d,
     pb_OrderId = oe_OrderID d, pb_UserId = oe_UserID d, pb_SubTransType = oe_SubOrderType d, pb_AreaCode = oe_OrderBillAreaCode d,
     pb_TransactionId = tx_TransactionId t\<rparr>"

definition UpdateBankStatus_bill :: "'w services \<Rightarrow> ('w st, goerror option) comp" where
  "UpdateBankStatus_bill S =
     bindc the_order (\<lambda>d.
     if IsStringSliceContains bill_types (oe_SubOrderType d) then
       bindc the_trans (\<lambda>t.
       bindc (act (cs_PaidBill S (bank_bill d t)) (EvPaidBill (bank_bill d t))) (\<lambda>r. case r of
         Inl e \<Rightarrow> thenc (set_failReason (Error e)) (ret (Some ErrFailOrder))
       | Inr payBillResponse \<Rightarrow> provider_answered (pbr_ProviderMerchantId payBillResponse) (pbr_Status payBillResponse)))
     else ret None)"

abbreviation comp_sale :: "'w services \<Rightarrow> ('w st, goerror option) comp" where
  "comp_sale S \<equiv> comp_provider S isPendingSrvCard as_is with_reason internal_err"

subsection \<open>The saga\<close>

definition UpdateBankStatus_open :: "'w services \<Rightarrow> BankOrderStatusResponse \<Rightarrow> 'w st step_def list" where
  "UpdateBankStatus_open S m =
     [(''Get_ORDER'', UpdateBankStatus_find S m, ret None),
      (''FIND_TRANS'', find_trans S known_bank,
         comp_init_payment S with_bank_reason (\<lambda>r d. d\<lparr>oe_InternalErr := r, oe_BankTransactionId := bo_BankTransactionId m\<rparr>)),
      (''FAIL BANK STATUS'', UpdateBankStatus_failed S m, ret (Some ErrGeneral)),
      (''ACCOUNT_VOUCHER'', UpdateBankStatus_voucher S, comp_voucher S False)]"

definition UpdateBankStatus_sell :: "'w services \<Rightarrow> 'w st step_def list" where
  "UpdateBankStatus_sell S =
     [(''BuyCard'', UpdateBankStatus_cards S, comp_sale S), (''PROVIDER CARD FEE'', UpdateBankStatus_fee S, ret None),
      (''TOP_UP'', UpdateBankStatus_topup S, comp_sale S), (''PAID_BILL'', UpdateBankStatus_bill S, comp_sale S)]"

definition UpdateBankStatus_finish :: "'w services \<Rightarrow> 'w st step_def list" where
  "UpdateBankStatus_finish S =
     [(''FINALIZATION_PAYMENT'', confirm_trans S with_bank_id, comp_pending S False as_is),
      (''SUCCESS_ORDER'', assign_order (SuccessOrder S), comp_pending S False as_is)]"

definition UpdateBankStatus_steps :: "'w services \<Rightarrow> BankOrderStatusResponse \<Rightarrow> 'w st step_def list" where
  "UpdateBankStatus_steps S m = UpdateBankStatus_open S m @ UpdateBankStatus_sell S @ UpdateBankStatus_finish S"

definition UpdateBankStatus ::
    "(string \<Rightarrow> goerror + BankOrderStatusResponse) \<Rightarrow> 'w services \<Rightarrow> string \<Rightarrow> ('w st, OrderEntity option \<times> goerror option) comp" where
  "UpdateBankStatus decode S msg = (case decode msg of
     Inl e \<Rightarrow> ret (None, Some e)
   | Inr m \<Rightarrow>
       thenc (modify (\<lambda>s. (fresh_vars (Some OrderEntity_zero) s)\<lparr>bankTraceId := bo_BankTransactionId m\<rparr>))
         (orchestrate S ''UpdateBankStatus'' (UpdateBankStatus_steps S m)))"

subsection \<open>Consumers\<close>

text \<open>
  Which function consumes which topic, in the order of registration; the error of the queue is dropped.  The
  consumer of created orders only decodes its message.
\<close>

datatype consumer = Consumer_UpdateBankStatus | Consumer_UpdateBalanceVA

fun RegisterConsumerTopic :: "string list \<Rightarrow> (consumer \<times> string) list" where
  "RegisterConsumerTopic [] = []"
| "RegisterConsumerTopic (topic # topics) =
     (if topic = TopicUpdateBankStatus then [(Consumer_UpdateBankStatus, topic)]
      else if topic = TopicUpdateVABalance then [(Consumer_UpdateBalanceVA, topic)] else []) @ RegisterConsumerTopic topics"

definition ConsumerCreateOrder :: "(string \<Rightarrow> goerror + string) \<Rightarrow> string \<Rightarrow> goerror option" where
  "ConsumerCreateOrder decode msg = (case decode msg of Inl e \<Rightarrow> Some e | Inr name \<Rightarrow> None)"

lemma topics_consumed: "RegisterConsumerTopic [TopicUpdateVABalance, TopicUpdateBankStatus] =
    [(Consumer_UpdateBalanceVA, TopicUpdateVABalance), (Consumer_UpdateBankStatus, TopicUpdateBankStatus)]"
  by (simp add: go_consts)

subsection \<open>What a run that goes well has bought\<close>

text \<open>Exactly one of the providers, or none, by the kind of the order.\<close>

definition bank_sold :: "OrderEntity \<Rightarrow> ETransactionDTO \<Rightarrow> ETransactionDTO \<Rightarrow> event list \<Rightarrow> bool" where
  "bank_sold d t t' es \<longleftrightarrow>
     (if oe_SubOrderType d \<in> set card_types then (\<exists>a. es = [EvBuyCard (bank_cards d t) (Inr a)] \<and> bcr_Status a \<noteq> TRANSACTION_STATUS_PENDING \<and>
        (let u = t\<lparr>tx_ProviderMerchantID := bcr_ProviderMerchantId a\<rparr> in t' = u \<or> (\<exists>fee :: VendorDiscountRes. t' = u\<lparr>
           tx_DiscountForMerchantSubscriber := oe_Quantity d * vdr_MerchantDiscountAmount fee,
           tx_DiscountOfMerchantProvider := oe_Quantity d * vdr_VendorDiscountAmount fee\<rparr>)))
      else if oe_SubOrderType d = SUB_TRANSTYPE_WALLET_TOPUP_CARD then (\<exists>a. es = [EvTopup (bank_topup d t) (Inr a)] \<and>
        tur_Status a \<noteq> TRANSACTION_STATUS_PENDING \<and> t' = t\<lparr>tx_ProviderMerchantID := tur_ProviderMerchantId a\<rparr>)
      else if oe_SubOrderType d \<in> set bill_types then (\<exists>a. es = [EvPaidBill (bank_bill d t) (Inr a)] \<and>
        pbr_Status a \<noteq> TRANSACTION_STATUS_PENDING \<and> t' = t\<lparr>tx_ProviderMerchantID := pbr_ProviderMerchantId a\<rparr>)
      else es = [] \<and> t' = t)"

text \<open>The kinds exclude each other.\<close>

lemma kinds_differ:
  "x \<in> set card_types \<Longrightarrow> x \<noteq> SUB_TRANSTYPE_WALLET_TOPUP_CARD" "x \<in> set card_types \<Longrightarrow> x \<notin> set bill_types"
  "SUB_TRANSTYPE_WALLET_TOPUP_CARD \<notin> set bill_types"
  by (auto simp: card_types_def bill_types_def go_consts)

definition voucher_noted :: "OrderEntity \<Rightarrow> string \<Rightarrow> ETransactionDTO \<Rightarrow> ETransactionDTO" where
  "voucher_noted d v t = (if oe_VoucherCode d = [] then t else t\<lparr>tx_VoucherID := v\<rparr>)"

definition UpdateBankStatus_done :: "'w services \<Rightarrow> BankOrderStatusResponse \<Rightarrow> event list \<Rightarrow> OrderEntity \<Rightarrow> bool" where
  "UpdateBankStatus_done S m evs d' \<longleftrightarrow> (\<exists>d w t vs x v t' sale c f n.
     payable_order S (bo_OrderId m) d \<and> fst (ts_FindByID S (oe_TransactionID d) w) = Inr t \<and> voucher_used (oe_VoucherCode d) d x v vs \<and>
     bank_sold d (voucher_noted d v (known_bank d t)) t' sale \<and>
     evs = vs @ sale @ [EvConfirm (t'\<lparr>tx_BankTransactionId := bo_BankTransactionId m\<rparr>) (Inr c), EvReplaceOrder f d' (Inr (Suc n))] \<and>
     restamped ORDER_SUCCESS d d')"

text \<open>\<open>holding s evs d t b u\<close>: the money-relevant calls since \<open>s\<close>, and what the variables hold.\<close>

definition holding :: "'w st \<Rightarrow> event list \<Rightarrow> OrderEntity \<Rightarrow> ETransactionDTO \<Rightarrow> string \<Rightarrow> 'w st \<Rightarrow> bool" where
  "holding s evs d t b u \<longleftrightarrow> key (trace u) = key (trace s) @ evs \<and> order_dto u = Some d \<and> trans u = Some t \<and> bankTraceId u = b"

lemma provider_answered_succeeds:
  assumes "holding s evs d t b u"
  shows "succeeds (provider_answered p status) (\<lambda>u. status \<noteq> TRANSACTION_STATUS_PENDING \<and> holding s evs d (t\<lparr>tx_ProviderMerchantID := p\<rparr>) b u) u"
  using assms by (simp add: provider_answered_def holding_def wp_rules)

lemma sale_succeeds:
  assumes "holding s evs d t b u" "\<And>a. is_key (ev a)"
    and "\<And>a u. holding s (evs @ [ev (Inr a)]) d t b u \<Longrightarrow> succeeds (k a) P u"
    and "\<And>e u. wp (h e) (\<lambda>err _. err \<noteq> None) (\<lambda>_. True) u"
  shows "succeeds (bindc (act f ev) (\<lambda>r. case r of Inl (e :: goerror) \<Rightarrow> h e | Inr a \<Rightarrow> k a)) P u"
  unfolding wp_bindc wp_act
proof (intro allI impI, goal_cases)
  case (1 r w)
  show ?case
  proof (cases r)
    case (Inl e)
    show ?thesis unfolding Inl sum.case by (rule wp_mono [OF assms(4)]) auto
  next
    case (Inr a)
    with assms(1,2) have "holding s (evs @ [ev (Inr a)]) d t b (u\<lparr>world := w, trace := trace u @ [ev r]\<rparr>)" by (simp add: holding_def)
    from assms(3) [OF this] show ?thesis unfolding Inr sum.case .
  qed
qed

lemma UpdateBankStatus_cards_succeeds:
  assumes "holding s evs d t b u"
  shows "succeeds (UpdateBankStatus_cards S) (\<lambda>u. \<exists>t' es. holding s (evs @ es) d t' b u \<and>
     (if oe_SubOrderType d \<in> set card_types then (\<exists>a. es = [EvBuyCard (bank_cards d t) (Inr a)] \<and> bcr_Status a \<noteq> TRANSACTION_STATUS_PENDING \<and>
        t' = t\<lparr>tx_ProviderMerchantID := bcr_ProviderMerchantId a\<rparr>) else es = [] \<and> t' = t)) u"
proof (cases "oe_SubOrderType d \<in> set card_types")
  case True
  have *: "order_dto u = Some d" "trans u = Some t" using assms by (simp_all add: holding_def)
  show ?thesis
    unfolding UpdateBankStatus_cards_def wp_bindc [of the_order] wp_the_order * option.case IsStringSliceContains_set if_P [OF True]
      wp_bindc [of the_trans] wp_the_trans
  proof (rule sale_succeeds [OF assms], goal_cases)
    case (2 a v)
    then have "holding s (evs @ [EvBuyCard (bank_cards d t) (Inr a)]) d t b (v\<lparr>providerMerchant := p, cardType := c\<rparr>)" for p c
      by (simp add: holding_def)
    from provider_answered_succeeds [OF this] show ?case
      unfolding wp_bindc wp_modify by (rule succeeds_mono) auto
  qed (auto simp: wp_rules)
qed (use assms in \<open>simp add: UpdateBankStatus_cards_def wp_rules holding_def\<close>)

lemma UpdateBankStatus_topup_succeeds:
  assumes "holding s evs d t b u"
  shows "succeeds (UpdateBankStatus_topup S) (\<lambda>u. \<exists>t' es. holding s (evs @ es) d t' b u \<and>
     (if oe_SubOrderType d = SUB_TRANSTYPE_WALLET_TOPUP_CARD then (\<exists>a. es = [EvTopup (bank_topup d t) (Inr a)] \<and> tur_Status a \<noteq> TRANSACTION_STATUS_PENDING \<and>
        t' = t\<lparr>tx_ProviderMerchantID := tur_ProviderMerchantId a\<rparr>) else es = [] \<and> t' = t)) u"
proof (cases "oe_SubOrderType d = SUB_TRANSTYPE_WALLET_TOPUP_CARD")
  case True
  have *: "order_dto u = Some d" "trans u = Some t" using assms by (simp_all add: holding_def)
  show ?thesis
    unfolding UpdateBankStatus_topup_def wp_bindc [of the_order] wp_the_order * option.case if_P [OF True]
      wp_bindc [of the_trans] wp_the_trans
  proof (rule sale_succeeds [OF assms], goal_cases)
    case (2 a v)
    from provider_answered_succeeds [OF this] show ?case by (rule succeeds_mono) auto
  qed (auto simp: wp_rules)
qed (use assms in \<open>simp add: UpdateBankStatus_topup_def wp_rules holding_def\<close>)

lemma UpdateBankStatus_bill_succeeds:
  assumes "holding s evs d t b u"
  shows "succeeds (UpdateBankStatus_bill S) (\<lambda>u. \<exists>t' es. holding s (evs @ es) d t' b u \<and>
     (if oe_SubOrderType d \<in> set bill_types then (\<exists>a. es = [EvPaidBill (bank_bill d t) (Inr a)] \<and> pbr_Status a \<noteq> TRANSACTION_STATUS_PENDING \<and>
        t' = t\<lparr>tx_ProviderMerchantID := pbr_ProviderMerchantId a\<rparr>) else es = [] \<and> t' = t)) u"
proof (cases "oe_SubOrderType d \<in> set bill_types")
  case True
  have *: "order_dto u = Some d" "trans u = Some t" using assms by (simp_all add: holding_def)
  show ?thesis
    unfolding UpdateBankStatus_bill_def wp_bindc [of the_order] wp_the_order * option.case IsStringSliceContains_set if_P [OF True]
      wp_bindc [of the_trans] wp_the_trans
  proof (rule sale_succeeds [OF assms], goal_cases)
    case (2 a v)
    from provider_answered_succeeds [OF this] show ?case by (rule succeeds_mono) auto
  qed (auto simp: wp_rules)
qed (use assms in \<open>simp add: UpdateBankStatus_bill_def wp_rules holding_def\<close>)

lemma UpdateBankStatus_fee_succeeds:
  assumes "holding s evs d t b u"
  shows "succeeds (UpdateBankStatus_fee S) (\<lambda>u. \<exists>t'. holding s evs d t' b u \<and> (t' = t \<or> oe_SubOrderType d \<in> set card_types \<and>
     (\<exists>fee :: VendorDiscountRes. t' = t\<lparr>tx_DiscountForMerchantSubscriber := oe_Quantity d * vdr_MerchantDiscountAmount fee,
        tx_DiscountOfMerchantProvider := oe_Quantity d * vdr_VendorDiscountAmount fee\<rparr>))) u"
proof (cases "oe_SubOrderType d \<in> set card_types")
  case True
  have *: "order_dto u = Some d" "trans u = Some t" using assms by (simp_all add: holding_def)
  have "holding s evs d t b (u\<lparr>world := w, failReason := r\<rparr>)" "holding s evs d t' b (u\<lparr>world := w, trans := Some t'\<rparr>)" for w r t'
    using assms by (simp_all add: holding_def)
  then show ?thesis
    unfolding UpdateBankStatus_fee_def wp_bindc wp_the_order wp_gets * option.case IsStringSliceContains_set if_P [OF True] wp_ask
    by (auto simp: wp_rules * True split: sum.split, blast)
qed (use assms in \<open>auto simp: UpdateBankStatus_fee_def wp_rules holding_def\<close>)

lemma bank_sold_chain:
  assumes "if oe_SubOrderType d \<in> set card_types then \<exists>a. es1 = [EvBuyCard (bank_cards d t) (Inr a)] \<and> bcr_Status a \<noteq> TRANSACTION_STATUS_PENDING \<and>
        t1 = t\<lparr>tx_ProviderMerchantID := bcr_ProviderMerchantId a\<rparr> else es1 = [] \<and> t1 = t"
    and "t2 = t1 \<or> oe_SubOrderType d \<in> set card_types \<and>
     (\<exists>fee :: VendorDiscountRes. t2 = t1\<lparr>tx_DiscountForMerchantSubscriber := oe_Quantity d * vdr_MerchantDiscountAmount fee,
        tx_DiscountOfMerchantProvider := oe_Quantity d * vdr_VendorDiscountAmount fee\<rparr>)"
    and "if oe_SubOrderType d = SUB_TRANSTYPE_WALLET_TOPUP_CARD then \<exists>a. es3 = [EvTopup (bank_topup d t2) (Inr a)] \<and> tur_Status a \<noteq> TRANSACTION_STATUS_PENDING \<and>
        t3 = t2\<lparr>tx_ProviderMerchantID := tur_ProviderMerchantId a\<rparr> else es3 = [] \<and> t3 = t2"
    and "if oe_SubOrderType d \<in> set bill_types then \<exists>a. es4 = [EvPaidBill (bank_bill d t3) (Inr a)] \<and> pbr_Status a \<noteq> TRANSACTION_STATUS_PENDING \<and>
        t4 = t3\<lparr>tx_ProviderMerchantID := pbr_ProviderMerchantId a\<rparr> else es4 = [] \<and> t4 = t3"
  shows "bank_sold d t t4 (es1 @ es3 @ es4)"
proof (cases "oe_SubOrderType d \<in> set card_types")
  case True
  with kinds_differ have "oe_SubOrderType d \<noteq> SUB_TRANSTYPE_WALLET_TOPUP_CARD" "oe_SubOrderType d \<notin> set bill_types" by blast+
  with assms(3,4) have "es3 = []" "es4 = []" "t4 = t2" by simp_all
  with assms(1,2) True show ?thesis unfolding bank_sold_def Let_def by (simp only: if_True append_Nil2 simp_thms) blast
next
  case False
  with assms(1,2) have 1: "es1 = []" "t1 = t" "t2 = t" by simp_all
  show ?thesis
  proof (cases "oe_SubOrderType d = SUB_TRANSTYPE_WALLET_TOPUP_CARD")
    case True
    with kinds_differ(3) assms(4) have "es4 = []" "t4 = t3" by simp_all
    with assms(3) 1 False True show ?thesis unfolding bank_sold_def by simp
  next
    case topup: False
    with assms(3) 1 have "es3 = []" "t3 = t" by simp_all
    with assms(4) 1 topup False show ?thesis unfolding bank_sold_def by (auto split: if_splits)
  qed
qed

lemma UpdateBankStatus_sell_succeeds:
  assumes "holding s evs d t b u"
  shows "succeeds (run_forward (UpdateBankStatus_sell S)) (\<lambda>u. \<exists>t' es. bank_sold d t t' es \<and> holding s (evs @ es) d t' b u) u"
  unfolding UpdateBankStatus_sell_def
proof (rule forward_Cons_succeeds, rule succeeds_mono [OF UpdateBankStatus_cards_succeeds [OF assms]], elim exE conjE, goal_cases)
  case (1 u1 t1 es1)
  note sold = this
  show ?case
  proof (rule forward_Cons_succeeds, rule succeeds_mono [OF UpdateBankStatus_fee_succeeds [OF 1(1)]], elim exE conjE, goal_cases)
    case (1 u2 t2)
    note 2 = this
    show ?case
    proof (rule forward_Cons_succeeds, rule succeeds_mono [OF UpdateBankStatus_topup_succeeds [OF 1(1)]], elim exE conjE, goal_cases)
      case (1 u3 t3 es3)
      note 3 = this
      show ?case
      proof (rule forward_Cons_succeeds, rule succeeds_mono [OF UpdateBankStatus_bill_succeeds [OF 1(1)]], rule forward_Nil_succeeds, elim exE conjE, goal_cases)
        case (1 u4 t4 es4)
        have "bank_sold d t t4 (es1 @ es3 @ es4)"
          by (rule bank_sold_chain [OF sold(2) 2(2) 3(2) 1(2)])
        with 1 show ?case by (intro exI [of _ t4] exI [of _ "es1 @ es3 @ es4"]) simp
      qed
    qed
  qed
qed

lemma UpdateBankStatus_voucher_succeeds:
  assumes "paying s evs d t [] b p u"
  shows "succeeds (UpdateBankStatus_voucher S) (\<lambda>u. \<exists>vs x v. voucher_used (oe_VoucherCode d) d x v vs \<and>
     holding s (evs @ vs) d (voucher_noted d v t) b u) u"
proof -
  have d: "order_dto u = Some d" using assms by (simp add: paying_def)
  have rest: "succeeds (thenc (whenc (oe_VoucherCode d \<noteq> []) (bindc (gets voucherId) (\<lambda>v. update_trans (\<lambda>t. t\<lparr>tx_VoucherID := v\<rparr>)))) (ret None))
      (\<lambda>u. \<exists>vs x v. voucher_used (oe_VoucherCode d) d x v vs \<and> holding s (evs @ vs) d (voucher_noted d v t) b u) u'"
    if "voucher_used (oe_VoucherCode d) d x v vs" "paying s (evs @ vs) d t v b p u'" for vs x v u'
    using that by (cases "oe_VoucherCode d = []") (auto simp: wp_rules paying_def holding_def voucher_noted_def simp del: filter_filter)
  show ?thesis
    unfolding UpdateBankStatus_voucher_def wp_bindc [of the_order] wp_the_order d option.case wp_bindc [of "token_voucher _ _"]
    by (rule wp_mono [OF redeemsD(1) [OF redeems_token(1) assms]]) (auto simp: wp_ret split: option.split intro: rest)
qed

lemma UpdateBankStatus_find_eq: "UpdateBankStatus_find S m =
     VerifyOTP_find S \<lparr>otp_OrderId = bo_OrderId m, otp_RefBankTraceID = [], otp_LinkId = 0, otp_Otp = []\<rparr>"
  by (simp add: UpdateBankStatus_find_def VerifyOTP_find_def)

lemma UpdateBankStatus_find_succeeds:
  assumes "\<And>d w es. key es = [] \<Longrightarrow> payable_order S (bo_OrderId m) d \<Longrightarrow> R ((appended s w es)\<lparr>order_dto := Some d\<rparr>)"
  shows "succeeds (UpdateBankStatus_find S m) R s"
  unfolding UpdateBankStatus_find_eq by (rule VerifyOTP_find_wp) (simp_all add: assms)

text \<open>A refused deposit always ends in an error.\<close>

lemma UpdateBankStatus_failed_errs:
  assumes "bo_ErrorCode m \<noteq> ''200''"
  shows "wp (UpdateBankStatus_failed S m) (\<lambda>err _. err \<noteq> None) (\<lambda>_. True) s"
proof -
  have "wp (thenc (update_order f) (thenc (through_order (SuccessOrder S)) (ret (Some ErrGeneral)))) (\<lambda>err _. err \<noteq> None) (\<lambda>_. True) u" for f and u :: "'a st"
    by (auto simp: wp_bindc wp_updates wp_ret split: option.split intro!: wp_mono [OF wp_True])
  then have "wp (serviceTransactionCancel S t) (\<lambda>(_, err). wp (case err of Some e \<Rightarrow> ret (Some e)
      | None \<Rightarrow> thenc (update_order f) (thenc (through_order (SuccessOrder S)) (ret (Some ErrGeneral)))) (\<lambda>err _. err \<noteq> None) (\<lambda>_. True)) (\<lambda>_. True) u" for t f and u :: "'a st"
    by (intro wp_mono [OF wp_True [of "serviceTransactionCancel S t" u]]) (auto simp: wp_ret split: option.split)
  then show ?thesis
    unfolding UpdateBankStatus_failed_def if_P [OF assms] wp_bindc wp_updates wp_the_trans by (auto simp: wp_rules wp_case_prod split: option.split)
qed

lemma UpdateBankStatus_finish_succeeds:
  assumes "holding s evs d t b u"
  shows "succeeds (run_forward (UpdateBankStatus_finish S)) (\<lambda>u. \<exists>c f d' n. order_dto u = Some d' \<and> restamped ORDER_SUCCESS d d' \<and>
     key (trace u) = key (trace s) @ evs @ [EvConfirm (t\<lparr>tx_BankTransactionId := b\<rparr>) (Inr c), EvReplaceOrder f d' (Inr (Suc n))]) u"
  unfolding UpdateBankStatus_finish_def
  by (intro forward_succeeds confirm_trans_succeeds assign_order_succeeds [OF SuccessOrder_does])
    (use assms in \<open>auto simp: holding_def simp del: filter_filter\<close>)

lemma UpdateBankStatus_steps_succeed:
  assumes "paying s [] d0 t0 [] (bo_BankTransactionId m) [] (u\<lparr>order_dto := Some d0, trans := Some t0\<rparr>)"
  shows "succeeds (run_forward (UpdateBankStatus_steps S m)) (\<lambda>u. bo_ErrorCode m = ''200'' \<and> (\<exists>d' evs. order_dto u = Some d' \<and>
     key (trace u) = key (trace s) @ evs \<and> UpdateBankStatus_done S m evs d')) u"
  unfolding UpdateBankStatus_steps_def UpdateBankStatus_open_def append.simps
proof (intro forward_Cons_succeeds UpdateBankStatus_find_succeeds find_trans_succeeds, simp, goal_cases)
  case (1 d w1 es t w2 w3)
  let ?u = "(appended u w1 es)\<lparr>order_dto := Some d, world := w3, trans := Some (known_bank d t)\<rparr>"
  have at: "paying s [] d (known_bank d t) [] (bo_BankTransactionId m) [] ?u"
    using assms 1 by (simp add: paying_def)
  show ?case
  proof (cases "bo_ErrorCode m = ''200''")
    case False
    from UpdateBankStatus_failed_errs [OF this] show ?thesis by (rule wp_mono) auto
  next
    case True
    have "succeeds (UpdateBankStatus_failed S m) R ?u" if "R ?u" for R
      using that by (simp add: UpdateBankStatus_failed_def True wp_ret)
    note go = this
    show ?thesis
    proof (rule go, intro forward_Cons_succeeds, rule succeeds_mono [OF UpdateBankStatus_voucher_succeeds [OF at]], elim exE conjE, goal_cases)
      case (1 u vs x v)
      note used = 1
      show ?case
      proof (rule forward_append_succeeds, rule succeeds_mono [OF UpdateBankStatus_sell_succeeds [OF used(2)]], elim exE conjE, goal_cases)
        case (1 u t' sale)
        from UpdateBankStatus_finish_succeeds [OF 1(2)] show ?case
        proof (rule succeeds_mono, elim exE conjE, goal_cases)
          case (1 v' c f d' n)
          let ?evs = "vs @ sale @ [EvConfirm (t'\<lparr>tx_BankTransactionId := bo_BankTransactionId m\<rparr>) (Inr c), EvReplaceOrder f d' (Inr (Suc n))]"
          have "UpdateBankStatus_done S m ?evs d'"
            unfolding UpdateBankStatus_done_def
            using used(1) \<open>bank_sold _ _ _ _\<close> \<open>payable_order S (bo_OrderId m) d\<close> \<open>fst _ = Inr t\<close> \<open>restamped ORDER_SUCCESS d d'\<close> by blast
          with 1 True show ?case by (intro conjI exI [of _ d'] exI [of _ ?evs]) simp_all
        qed
      qed
    qed
  qed
qed

subsection \<open>Whole runs\<close>

abbreviation consuming :: "BankOrderStatusResponse \<Rightarrow> 'w st \<Rightarrow> 'w st" where
  "consuming m s \<equiv> (fresh_vars (Some OrderEntity_zero) s)\<lparr>bankTraceId := bo_BankTransactionId m\<rparr>"

lemma UpdateBankStatus_run_succeeds:
  "wp (orchestrate S ''UpdateBankStatus'' (UpdateBankStatus_steps S m)) (\<lambda>(p, err) t. err = None \<longrightarrow> bo_ErrorCode m = ''200'' \<and>
     (\<exists>d evs. p = Some d \<and> key (trace t) = key (trace s) @ evs \<and> UpdateBankStatus_done S m evs d)) (\<lambda>_. True) (consuming m s)"
proof (rule orchestrate_forward, goal_cases)
  case (1 w)
  have "paying s [] d0 t0 [] (bo_BankTransactionId m) [] ((consuming m s)\<lparr>world := w, order_dto := Some d0, trans := Some t0\<rparr>)" for d0 t0
    by (simp add: paying_def fresh_vars_def)
  from UpdateBankStatus_steps_succeed [OF this] show ?case by (rule succeeds_mono) simp
qed

text \<open>A step that asks a provider, and one that does not, changes nothing when the deposit was refused.\<close>

fun spends :: "event \<Rightarrow> bool" where
  "spends (EvUseVoucher _ _) = True" | "spends e = delivers e"

lemma foreign_spends [simp]: "foreign spends"
  by (auto simp: foreign_def elim: compensating.elims)

lemma UpdateBankStatus_refused_run:
  assumes "bo_ErrorCode m \<noteq> ''200''"
  shows "wp (orchestrate S name (UpdateBankStatus_steps S m)) (\<lambda>(p, err) u. err \<noteq> None \<and> adds spends 0 s u) (adds spends 0 s) s"
proof (rule orchestrate_stopped [where pre = "take 2 (UpdateBankStatus_open S m)" and f = "UpdateBankStatus_failed S m"])
  show "UpdateBankStatus_steps S m = take 2 (UpdateBankStatus_open S m) @ (''FAIL BANK STATUS'', UpdateBankStatus_failed S m, ret (Some ErrGeneral)) #
      (''ACCOUNT_VOUCHER'', UpdateBankStatus_voucher S, comp_voucher S False) # UpdateBankStatus_sell S @ UpdateBankStatus_finish S"
    by (simp add: UpdateBankStatus_steps_def UpdateBankStatus_open_def)
  have cancel: "atmost spends 0 (serviceTransactionCancel S t)" for t
    by (rule atmost_one_call [OF serviceTransactionCancel_does]) simp
  have "atmost spends 0 (UpdateBankStatus_failed S m)"
    unfolding UpdateBankStatus_failed_def by (intro atmost_rules cancel) simp_all
  then show "wp (UpdateBankStatus_failed S m) (\<lambda>err u. err \<noteq> None \<and> adds spends 0 s u) (adds spends 0 s) t" if "adds spends 0 s t" for t
    by (intro wp_mono [OF wp_conj [OF UpdateBankStatus_failed_errs [OF assms] atmost_wp [of spends 0 _ t "adds spends 0 s"]]])
      (use adds_trans [OF that] in auto)
qed (auto simp: UpdateBankStatus_steps_def UpdateBankStatus_open_def UpdateBankStatus_sell_def UpdateBankStatus_finish_def UpdateBankStatus_find_eq
    intro!: atmost_rules)

subsection \<open>Progress\<close>

abbreviation in_hand :: "'w st \<Rightarrow> bool" where
  "in_hand u \<equiv> order_dto u \<noteq> None \<and> trans u \<noteq> None"

lemma provider_answered_goes: "in_hand u \<Longrightarrow> status \<noteq> TRANSACTION_STATUS_PENDING \<Longrightarrow> goes (provider_answered p status) in_hand u"
  by (auto simp: provider_answered_def wp_rules split: option.split)

lemma sale_goes:
  assumes "in_hand u" "\<And>w. \<exists>a. fst (f w) = Inr a \<and> open a \<noteq> TRANSACTION_STATUS_PENDING"
    and "\<And>a u. in_hand u \<Longrightarrow> open a \<noteq> TRANSACTION_STATUS_PENDING \<Longrightarrow> goes (k a) in_hand u"
  shows "goes (bindc (act f ev) (\<lambda>r. case r of Inl (e :: goerror) \<Rightarrow> h e | Inr a \<Rightarrow> k a)) in_hand u"
  unfolding wp_bindc wp_act
proof (intro allI impI, goal_cases)
  case (1 r w)
  with assms(2) obtain a where a: "r = Inr a" "open a \<noteq> TRANSACTION_STATUS_PENDING" by (metis fst_conv)
  show ?case unfolding a(1) sum.case by (rule assms(3) [OF _ a(2)]) (use assms(1) in auto)
qed

lemma UpdateBankStatus_sells_go:
  assumes "cooperative S" "in_hand u"
  shows "goes (UpdateBankStatus_cards S) in_hand u" "goes (UpdateBankStatus_topup S) in_hand u" "goes (UpdateBankStatus_bill S) in_hand u"
    "goes (UpdateBankStatus_fee S) in_hand u" "goes (UpdateBankStatus_voucher S) in_hand u"
proof -
  obtain d t where dt: "order_dto u = Some d" "trans u = Some t" using assms(2) by blast
  have fee: "\<exists>x. fst (mf_VendorDiscount S q w) = Inr x" for q w
    using obligingD(12) [OF cooperativeD(1) [OF assms(1)]] by blast
  show "goes (UpdateBankStatus_cards S) in_hand u"
    unfolding UpdateBankStatus_cards_def wp_bindc [of the_order] wp_the_order dt option.case
    by (cases "IsStringSliceContains card_types (oe_SubOrderType d)")
      (simp_all only: if_True if_False wp_bindc [of the_trans] wp_the_trans dt option.case wp_ret,
       rule sale_goes [OF assms(2) cooperativeD(3) [OF assms(1)]],
       unfold wp_bindc wp_modify, rule provider_answered_goes, simp, assumption, simp add: dt)
  show "goes (UpdateBankStatus_topup S) in_hand u"
    unfolding UpdateBankStatus_topup_def wp_bindc [of the_order] wp_the_order dt option.case
    by (cases "oe_SubOrderType d = SUB_TRANSTYPE_WALLET_TOPUP_CARD")
      (simp_all only: simp_thms if_True if_False wp_bindc [of the_trans] wp_the_trans dt option.case wp_ret,
       rule sale_goes [OF assms(2) cooperativeD(2) [OF assms(1)]], erule (1) provider_answered_goes, simp add: dt)
  show "goes (UpdateBankStatus_bill S) in_hand u"
    unfolding UpdateBankStatus_bill_def wp_bindc [of the_order] wp_the_order dt option.case
    by (cases "IsStringSliceContains bill_types (oe_SubOrderType d)")
      (simp_all only: if_True if_False wp_bindc [of the_trans] wp_the_trans dt option.case wp_ret,
       rule sale_goes [OF assms(2) cooperativeD(4) [OF assms(1)]], erule (1) provider_answered_goes, simp add: dt)
  show "goes (UpdateBankStatus_fee S) in_hand u"
    using fee by (auto simp: UpdateBankStatus_fee_def wp_rules dt split: sum.split)
  show "goes (UpdateBankStatus_voucher S) in_hand u"
    unfolding UpdateBankStatus_voucher_def token_voucher_def wp_bindc [of the_order] wp_the_order dt option.case wp_bindc [of "use_voucher _ _ _"]
    by (rule wp_mono [OF use_voucher_goes [where R = in_hand]]) (use cooperativeD(1) [OF assms(1)] in \<open>auto simp: wp_rules dt split: option.split\<close>)
qed

lemma UpdateBankStatus_goes:
  assumes "cooperative S" "order_on_file S (bo_OrderId m)" "decode msg = Inr m" "bo_ErrorCode m = ''200''"
  shows "\<exists>d t. UpdateBankStatus decode S msg s = (Ret (Some d, None), t)"
proof -
  note S = cooperativeD(1) [OF assms(1)]
  have "goes (run_forward (UpdateBankStatus_steps S m)) (\<lambda>t. order_dto t \<noteq> None) u" for u
  proof -
    obtain d w1 where d: "mg_FindOrder S (ByOrderID (bo_OrderId m)) (world u) = (Inr d, w1)" "payable d"
      using assms(2) unfolding order_on_file_def by (metis prod.collapse)
    obtain t w2 where t: "ts_FindByID S (oe_TransactionID d) w1 = (Inr t, w2)"
      using assms(2) unfolding order_on_file_def by (metis prod.collapse)
    have finish: "goes (run_forward (UpdateBankStatus_finish S)) (\<lambda>t. order_dto t \<noteq> None) v" if "in_hand v" for v
      unfolding UpdateBankStatus_finish_def
      by (intro forward_goes confirm_trans_goes assign_order_goes [OF order_ops_fine(2)] S) (use that in auto)
    have "goes (run_forward ((''ACCOUNT_VOUCHER'', UpdateBankStatus_voucher S, comp_voucher S False) # UpdateBankStatus_sell S @ UpdateBankStatus_finish S))
        (\<lambda>t. order_dto t \<noteq> None) v" if "in_hand v" for v
      unfolding UpdateBankStatus_sell_def append.simps
      by (rule forward_Cons_goes, rule goes_mono [OF UpdateBankStatus_sells_go(5) [OF assms(1) that]],
          rule forward_Cons_goes, erule goes_mono [OF UpdateBankStatus_sells_go(1) [OF assms(1)]],
          rule forward_Cons_goes, erule goes_mono [OF UpdateBankStatus_sells_go(4) [OF assms(1)]],
          rule forward_Cons_goes, erule goes_mono [OF UpdateBankStatus_sells_go(2) [OF assms(1)]],
          rule forward_Cons_goes, erule goes_mono [OF UpdateBankStatus_sells_go(3) [OF assms(1)]], erule finish)
    then show ?thesis
      unfolding UpdateBankStatus_steps_def UpdateBankStatus_open_def append.simps
      by - (rule forward_Cons_goes, simp add: UpdateBankStatus_find_def GetValidOrder_def FindByOrderID_def d d(2) [unfolded payable_def]
            wp_bindc wp_ask wp_ret wp_sets, rule forward_Cons_goes, simp add: find_trans_def t wp_bindc wp_ask wp_ret wp_sets wp_the_order,
            rule forward_Cons_goes, simp add: UpdateBankStatus_failed_def assms(4) wp_ret)
  qed
  then have "\<exists>d t. orchestrate S ''UpdateBankStatus'' (UpdateBankStatus_steps S m) (consuming m s) = (Ret (Some d, None), t)"
    by (intro orchestrate_forward_ends)
  then show ?thesis by (simp add: UpdateBankStatus_def assms(3) bindc_def modify_def)
qed

definition example_bank_result :: "string \<Rightarrow> BankOrderStatusResponse" where
  "example_bank_result code = \<lparr>bo_OrderId = ''O7'', bo_Amount = ''50000'', bo_RefId = ''R1'', bo_BankTransactionId = ''B1'',
     bo_ErrorCode = code, bo_Description = ''done''\<rparr>"

text \<open>
  C31: when a result of the bank is consumed without an error, the result says that the bank has the money, the order that the
  collection holds under the id of the result was payable, and since then: its voucher was used (at most one), exactly one provider was asked, the one for the
  kind of the order (cards, top-up or bill; none for another kind) and it has not left the sale open, the transaction of the order was confirmed with the
  bank's id, and the order stored as successful; nothing else moved money.
\<close>

theorem UpdateBankStatus_completes:
  assumes "decode msg = Inr m" "UpdateBankStatus decode S msg s = (Ret (p, None), t)"
  shows "bo_ErrorCode m = ''200'' \<and> (\<exists>d evs. p = Some d \<and> key (trace t) = key (trace s) @ evs \<and> UpdateBankStatus_done S m evs d)"
proof -
  have "wp (UpdateBankStatus decode S msg) (\<lambda>(p, err) t. err = None \<longrightarrow> bo_ErrorCode m = ''200'' \<and>
     (\<exists>d evs. p = Some d \<and> key (trace t) = key (trace s) @ evs \<and> UpdateBankStatus_done S m evs d)) (\<lambda>_. True) s"
    unfolding UpdateBankStatus_def assms(1) sum.case wp_bindc wp_modify by (rule UpdateBankStatus_run_succeeds)
  from wp_Ret [OF this assms(2)] show ?thesis by simp
qed

theorem UpdateBankStatus_completes_witness:
  "\<exists>p t d evs. UpdateBankStatus (\<lambda>_. Inr (example_bank_result ''200'')) example_services [] example_state = (Ret (p, None), t) \<and> p = Some d \<and>
     key (trace t) = evs \<and> UpdateBankStatus_done example_services (example_bank_result ''200'') evs d"
proof -
  have "bo_ErrorCode (example_bank_result ''200'') = ''200''" by (simp add: example_bank_result_def)
  then obtain p t where run: "UpdateBankStatus (\<lambda>_. Inr (example_bank_result ''200'')) example_services [] example_state = (Ret (p, None), t)"
    using UpdateBankStatus_goes [OF example_cooperative example_order_on_file, where decode = "\<lambda>_. Inr (example_bank_result ''200'')"] by blast
  from UpdateBankStatus_completes [OF refl run] run show ?thesis by (auto simp: example_state_def)
qed

text \<open>
  C39: when the bank reports that it does not have the money, consuming the result ends in an error (or a panic), and no voucher is used, no
  provider asked and no payment confirmed, whatever the services answer.  (What is written into the order on the way is not the subject.)
\<close>

theorem UpdateBankStatus_refused:
  assumes "decode msg = Inr m" "bo_ErrorCode m \<noteq> ''200''"
  shows "wp (UpdateBankStatus decode S msg) (\<lambda>(p, err) u. err \<noteq> None \<and> adds spends 0 s u) (adds spends 0 s) s"
proof -
  have "adds spends 0 s u" if "adds spends 0 (consuming m s) u" for u
    using that by (simp add: adds_def fresh_vars_def)
  then show ?thesis
    unfolding UpdateBankStatus_def assms(1) sum.case wp_bindc wp_modify
    by (intro wp_mono [OF UpdateBankStatus_refused_run [OF assms(2)]]) auto
qed

theorem UpdateBankStatus_refused_witness:
  "bo_ErrorCode (example_bank_result ''500'') \<noteq> ''200'' \<and>
   wp (UpdateBankStatus (\<lambda>_. Inr (example_bank_result ''500'')) example_services []) (\<lambda>(p, err) u. err \<noteq> None \<and> adds spends 0 example_state u)
     (adds spends 0 example_state) example_state"
proof -
  have code: "bo_ErrorCode (example_bank_result ''500'') \<noteq> ''200''" by (simp add: example_bank_result_def)
  from UpdateBankStatus_refused [of "\<lambda>_. Inr (example_bank_result ''500'')" "[]", OF refl code, of example_services example_state] code
  show ?thesis by blast
qed

end
