(* ===== verification/Credit_Card.thy ===== *)
theory Credit_Card
  imports Bank_Status Napas
begin

text \<open>
  Payments by an international card: opening the payment at the bank (\<open>ProcessCreditPayment\<close>, \<open>processCreditPayment.go\<close>, for a
  card number; \<open>PayInternationalCard\<close>, \<open>pay_internaltional.go\<close>, for a linked card) and its outcome
  (\<open>UpdateCreditPaymentOrder\<close>, \<open>update_credit_payment_orchestrator.go\<close>).  The card is looked up in the white list of the
  bank, and with the fraud service.
\<close>

subsection \<open>Checks of a card\<close>

text \<open>\<open>cardNumber[0:6]\<close> panics when the number is shorter.\<close>

definition card_prefix :: "string \<Rightarrow> ('s, string) comp" where
  "card_prefix cardNumber = (if length cardNumber < 6 then panic ''slice bounds out of range'' else ret (take 6 cardNumber))"

definition unsupported_card :: goerror where
  "unsupported_card = ErrorString ''He thong chua ho tro thanh toan the tren''"

definition check_bin :: "'w services \<Rightarrow> string \<Rightarrow> ('w st, goerror + BankBin) comp" where
  "check_bin S cardNumber =
     bindc (card_prefix cardNumber) (\<lambda>bin.
     bindc (CheckInternationalBankBin S bin) (\<lambda>(checkBankBin, err).
       ret (case (err, br_Bins checkBankBin) of (None, b # _) \<Rightarrow> Inr b | _ \<Rightarrow> Inl unsupported_card)))"

text \<open>What the fraud service has said is kept, and the fraud channel warned.  \<open>Submit\<close> is deferred to the end.\<close>

definition warningBlackList :: "'w services \<Rightarrow> OrderEntity \<Rightarrow> ETransactionDTO \<Rightarrow> Fraud \<Rightarrow> ('w st, goerror option) comp" where
  "warningBlackList S orderDto t checkFraudRes =
     bindc (act (fr_Save S (tx_Id t) checkFraudRes) (EvSaveFraud (tx_Id t) checkFraudRes)) (\<lambda>err.
     thenc (whenc (Fraud_IsSuccess (fd_Status checkFraudRes) \<or> Fraud_IsFail (fd_Status checkFraudRes)) (emit (EvSubmit (JobOrderFraud orderDto t checkFraudRes))))
       (ret err))"

subsection \<open>ProcessCreditPayment\<close>

record ProcessCreditPaymentRequest =
  pc_OrderId :: string
  pc_CardNumber :: string
  pc_ExpiryYear :: string
  pc_ExpiryMonth :: string
  pc_SecurityCode :: string
  pc_CardHolderName :: string
  pc_RedirectUrl :: string
  pc_Token :: string

definition credit_source :: "BankBin \<Rightarrow> string" where
  "credit_source b = (let sof = (if CardType_IsCredit (bb_CardType b) then SOURCE_OF_FUND_CREDIT_CARD else [])
     in if CardType_IsDebit (bb_CardType b) then SOURCE_OF_FUND_DEBIT_CARD else sof)"

definition ProcessCreditPayment_payment :: "BankBin \<Rightarrow> OrderEntity \<Rightarrow> ETransactionDTO" where
  "ProcessCreditPayment_payment b d = ETransactionDTO_zero\<lparr>
     tx_ServiceType := oe_ServiceType d, tx_TransactionType := oe_OrderType d, tx_Amount := oe_Amount d,
     tx_SourceOfFund := oe_SourceOfFund d, tx_RefId := oe_RefID d, tx_MerchantID := oe_SubscribeMerchantID d,
     tx_SubscriberMerchantID := oe_SubscribeMerchantID d, tx_BankCode := VPB, tx_OrderId := oe_OrderID d,
     tx_MerchantTypeWallet := AmountRevenue, tx_IbftReceiveBank := bb_BankName b, tx_AppId := oe_ServiceCode d\<rparr>"

text \<open>A new payment, or the one that the order names.\<close>

definition ProcessCreditPayment_trans :: "'w services \<Rightarrow> BankBin \<Rightarrow> OrderEntity \<Rightarrow> ('w st, goerror option) comp" where
  "ProcessCreditPayment_trans S b d =
     (if oe_TransactionID d = [] then init_trans S False (ProcessCreditPayment_payment b d) else find_trans S (\<lambda>_ t. t))"

definition ProcessCreditPayment_processing :: "'w services \<Rightarrow> ('w st, goerror option) comp" where
  "ProcessCreditPayment_processing S =
     bindc the_order (\<lambda>d. bindc the_trans (\<lambda>t.
     thenc (if oe_TransactionID d = [] then update_order (\<lambda>d. d\<lparr>oe_TransactionID := tx_TransactionId t\<rparr>) else ret ())
       (assign_order (ProcessingOrder S))))"

text \<open>A card on the black list.  The results of the message and of the warning are dropped.\<close>

definition ProcessCreditPayment_fraud :: "'w services \<Rightarrow> BankBin \<Rightarrow> Fraud \<Rightarrow> ('w st, goerror option) comp" where
  "ProcessCreditPayment_fraud S b checkFraudRes =
     (if Fraud_IsFail (fd_Status checkFraudRes) then
        thenc (update_trans (\<lambda>t. t\<lparr>tx_FailReason := fd_Reason checkFraudRes, tx_IbftReceiveBank := bb_BankName b\<rparr>))
       (bindc the_trans (\<lambda>t.
        bindc (serviceTransactionCancel S t) (\<lambda>(_, err). case err of
          Some e \<Rightarrow> ret (Some e)
        | None \<Rightarrow>
            thenc (update_order (\<lambda>d. d\<lparr>oe_FailReason := tx_FailReason t\<rparr>))
           (thenc (through_order (FailedOrder S))
           (thenc (CreateMessageMqtt S TopicMQTTFailFraudMPGS MQTTEventBackground TopicMQTTFailFraudMPGS (MTx (Some t)) False)
           (bindc the_order (\<lambda>d.
            thenc (warningBlackList S d t checkFraudRes) (ret (Some ErrFailOrder)))))))))
      else ret None)"

definition ProcessCreditPayment_bank_request :: "ProcessCreditPaymentRequest \<Rightarrow> int64 \<Rightarrow> OrderEntity \<Rightarrow> CreditPaymentRequestData" where
  "ProcessCreditPayment_bank_request request amount d = CreditPaymentRequestData_zero\<lparr>
     cp_CardNumber := pc_CardNumber request, cp_GpayTransactionId := pc_OrderId request, cp_Amount := sprint (sint amount),
     cp_ExpiryYear := pc_ExpiryYear request, cp_ExpiryMonth := pc_ExpiryMonth request, cp_SecurityCode := pc_SecurityCode request,
     cp_CardHolderName := pc_CardHolderName request, cp_RedirectUrl := pc_RedirectUrl request, cp_GpayUserId := oe_UserID d,
     cp_Token := pc_Token request, cp_MerchantCode := oe_MerchantCode d, cp_MCC := oe_MerchantCategoryCode d,
     cp_MccType := oe_MerchantCategoryType d\<rparr>"

text \<open>An expiry that is no time stamp makes the step fail after the bank was asked.\<close>

definition ProcessCreditPayment_bank :: "'w services \<Rightarrow> ProcessCreditPaymentRequest \<Rightarrow> int64 \<Rightarrow> ('w st, goerror option) comp" where
  "ProcessCreditPayment_bank S request amount =
     bindc the_order (\<lambda>d.
     bindc (CreditPayment S (ProcessCreditPayment_bank_request request amount d)) (\<lambda>(res, err). case err of
       Some e \<Rightarrow> ret (Some e)
     | None \<Rightarrow>
         thenc (modify (\<lambda>s. s\<lparr>resp_OrderId := pc_OrderId request, resp_Url := br_AcsUrl res, resp_PaReq := br_PaReq res,
           resp_Md := br_Md res, resp_TermUrl := br_CallbackUrl res\<rparr>))
        (case TimestampProto (oe_ExpiredAt d) of
           None \<Rightarrow> ret (Some (ErrorString ''timestamp: out of range''))
         | Some expiredAt \<Rightarrow> thenc (modify (\<lambda>s. s\<lparr>resp_ExpiredAt := Some expiredAt\<rparr>)) (ret None))))"

definition ProcessCreditPayment_warn :: "'w services \<Rightarrow> Fraud \<Rightarrow> ('w st, goerror option) comp" where
  "ProcessCreditPayment_warn S checkFraudRes =
     bindc the_order (\<lambda>d. bindc the_trans (\<lambda>t. thenc (warningBlackList S d t checkFraudRes) (ret None)))"

definition ProcessCreditPayment_steps :: "'w services \<Rightarrow> ProcessCreditPaymentRequest \<Rightarrow> BankBin \<Rightarrow> int64 \<Rightarrow> Fraud \<Rightarrow> 'w st step_def list" where
  "ProcessCreditPayment_steps S request b amount checkFraudRes =
     [(''PROCESSING_ORDER'', ProcessCreditPayment_processing S, ret None),
      (''FAIL_CASE_FRAUD'', ProcessCreditPayment_fraud S b checkFraudRes, ret None),
      (''PROCESS CREDIT PAYMENT ORDER'', ProcessCreditPayment_bank S request amount, ret None),
      (''PROCESS CREDIT PAYMENT ORDER'', ProcessCreditPayment_warn S checkFraudRes, ret None)]"

definition ProcessCreditPayment_order ::
    "'w services \<Rightarrow> ProcessCreditPaymentRequest \<Rightarrow> BankBin \<Rightarrow> OrderEntity \<Rightarrow> ('w st, OrderEntity option \<times> goerror option) comp" where
  "ProcessCreditPayment_order S request b d =
     thenc (set_order (Some d))
    (bindc (ask (fr_Get S (pc_CardNumber request))) (\<lambda>r.
     let checkFraudRes = (case r of Inl _ \<Rightarrow> Fraud_zero | Inr f \<Rightarrow> f) in
     bindc (ProcessCreditPayment_trans S b d) (\<lambda>err. case err of
       Some e \<Rightarrow> ret (Some d, Some e)
     | None \<Rightarrow> orchestrate S ''ProcessCreditPayment Order'' (ProcessCreditPayment_steps S request b (oe_Amount d) checkFraudRes))))"

definition ProcessCreditPayment :: "'w services \<Rightarrow> ProcessCreditPaymentRequest \<Rightarrow> ('w st, OrderEntity option \<times> goerror option) comp" where
  "ProcessCreditPayment S request =
     thenc (modify (fresh_vars None))
    (bindc (check_bin S (pc_CardNumber request)) (\<lambda>r. case r of
       Inl e \<Rightarrow> ret (None, Some e)
     | Inr b \<Rightarrow>
         bindc (GetValidOrder S (pc_OrderId request)) (\<lambda>r. case r of
           Inl e \<Rightarrow> ret (None, Some e)
         | Inr d \<Rightarrow> ProcessCreditPayment_order S request b (d\<lparr>oe_SourceOfFund := credit_source b\<rparr>))))"

subsection \<open>UpdateCreditPaymentOrder\<close>

record UpdateCreditPaymentRequest =
  uc_OrderId :: string
  uc_Status :: string
  uc_Description :: string

definition credit_success :: "'w services \<Rightarrow> ('w st, goerror option) comp" where
  "credit_success S =
     bindc (GetCurrentTime S) (\<lambda>now.
     thenc (update_order (\<lambda>d. d\<lparr>oe_SucceedAt := now\<rparr>)) (success_order S))"

definition UpdateCreditPayment_steps :: "'w services \<Rightarrow> 'w st step_def list" where
  "UpdateCreditPayment_steps S =
     [(''FINALIZATION_PAYMENT'', confirm_trans S as_is, comp_pending S True as_is),
      (''SUCCESS_ORDER'', credit_success S, comp_pending S False as_is)]"

definition credit_respond :: "('w st, unit) comp" where
  "credit_respond = bindc the_order (\<lambda>d. modify (\<lambda>s. s\<lparr>resp_OrderEntity := Some (ConvertToProto d)\<rparr>))"

text \<open>The errors of the cancellation and of the failed order are dropped.\<close>

definition UpdateCreditPayment_failed :: "'w services \<Rightarrow> string \<Rightarrow> ('w st, unit) comp" where
  "UpdateCreditPayment_failed S description =
     bindc the_trans (\<lambda>t.
     thenc (whenc (tx_Status t \<noteq> TRANSACTION_STATUS_FAILED \<and> tx_Status t \<noteq> TRANSACTION_STATUS_PENDING)
       (thenc (cancel_trans S (\<lambda>_ t. t\<lparr>tx_FailReason := description\<rparr>)) (ret ())))
    (bindc the_order (\<lambda>d.
     whenc (\<not> IsVerifying (oe_Status d) \<and> \<not> IsFailed (oe_Status d))
       (thenc (update_order (\<lambda>d. d\<lparr>oe_FailReason := description\<rparr>))
       (bindc (through_order (FailedOrder S)) (\<lambda>err. whenc (err = None) credit_respond))))))"

definition UpdateCreditPayment_parked :: "'w services \<Rightarrow> ('w st, OrderEntity option \<times> goerror option) comp" where
  "UpdateCreditPayment_parked S =
     thenc (assign_trans (serviceTransactionPending S))
    (bindc (assign_order (VerifyingOrder S)) (\<lambda>err.
     thenc (whenc (err = None) credit_respond)
    (bindc (gets order_dto) (\<lambda>p. ret (p, err)))))"

definition UpdateCreditPayment_decide ::
    "'w services \<Rightarrow> UpdateCreditPaymentRequest \<Rightarrow> ('w st, OrderEntity option \<times> goerror option) comp" where
  "UpdateCreditPayment_decide S request = (let name = ''Update final credit payment Order'' in
     if uc_Status request = STATUS_SUCCESS then orchestrate S name (UpdateCreditPayment_steps S)
     else if uc_Status request = STATUS_FAILED
     then thenc (UpdateCreditPayment_failed S (uc_Description request)) (orchestrate S name [])
     else if uc_Status request = STATUS_VERIFYING then
       bindc (RetrieveOrderStatus S (uc_OrderId request) GpayBankCodeCreditPayment) (\<lambda>(retrieveOrderStatus, err).
       if err \<noteq> None \<or> \<not> BankGwStatus_IsSuccess (br_ErrorCode retrieveOrderStatus) then UpdateCreditPayment_parked S
       else orchestrate S name (UpdateCreditPayment_steps S))
     else orchestrate S name [])"

definition UpdateCreditPaymentOrder ::
    "'w services \<Rightarrow> UpdateCreditPaymentRequest \<Rightarrow> ('w st, OrderEntity option \<times> goerror option) comp" where
  "UpdateCreditPaymentOrder S request =
     thenc (modify (fresh_vars None))
    (bindc (GetValidOrder S (uc_OrderId request)) (\<lambda>r. case r of
       Inl e \<Rightarrow> ret (None, Some e)
     | Inr d \<Rightarrow>
         thenc (set_order (Some d))
        (bindc (find_trans S (\<lambda>d t. t\<lparr>tx_BankTransactionId := oe_OrderID d, tx_OrderId := oe_OrderID d\<rparr>)) (\<lambda>err. case err of
           Some e \<Rightarrow> ret (Some d, Some e)
         | None \<Rightarrow> UpdateCreditPayment_decide S request))))"

subsection \<open>PayInternationalCard\<close>

record PayInternationalCardRequest =
  pi_GpayBankCode :: string
  pi_GpayUserId :: string
  pi_Amount :: int64
  pi_LinkId :: int64
  pi_TransType :: string
  pi_SubTransType :: string
  pi_VoucherCode :: string
  pi_ServiceCode :: string
  pi_Quantity :: int64
  pi_Telco :: string
  pi_ServiceCodeBill :: string
  pi_CustomerReference :: string
  pi_AreaCode :: string
  pi_OrderId :: string
  pi_PhoneTopup :: string
  pi_SubscriberMerchantId :: string
  pi_MerchantCode :: string
  pi_ServiceType :: string
  pi_RefId :: string

text \<open>
  The two checks of the card run at the same time: \<open>binFirst\<close> says which one asks first.  Both have the same error.  They run in goroutines
  of their own, where no interceptor recovers a panic: the one on a number of less than six digits ends the process.  Here it is a panic as any other, so
  nothing should be read into what \<open>serve\<close> makes of it.
\<close>

definition fraud_clear :: "'w services \<Rightarrow> string \<Rightarrow> ('w st, goerror option) comp" where
  "fraud_clear S cardNumber =
     bindc (ask (fr_Get S cardNumber)) (\<lambda>r. ret (case r of
       Inl _ \<Rightarrow> Some unsupported_card
     | Inr checkFraudRes \<Rightarrow> if Fraud_IsFail (fd_Status checkFraudRes) then Some unsupported_card else None))"

definition card_checks :: "'w services \<Rightarrow> bool \<Rightarrow> string \<Rightarrow> ('w st, goerror + BankBin) comp" where
  "card_checks S binFirst cardNumber =
     bindc (if binFirst
            then bindc (check_bin S cardNumber) (\<lambda>b. bindc (fraud_clear S cardNumber) (\<lambda>f. ret (b, f)))
            else bindc (fraud_clear S cardNumber) (\<lambda>f. bindc (check_bin S cardNumber) (\<lambda>b. ret (b, f)))) (\<lambda>(b, f).
       ret (case f of Some e \<Rightarrow> Inl e | None \<Rightarrow> b))"

definition PayInternationalCard_amount :: "PayInternationalCardRequest \<Rightarrow> int64" where
  "PayInternationalCard_amount request =
     (if slt64 1 (pi_Quantity request) then pi_Amount request * pi_Quantity request else pi_Amount request)"

definition PayInternationalCard_quota :: "PayInternationalCardRequest \<Rightarrow> string \<Rightarrow> QuotaReq" where
  "PayInternationalCard_quota request sof = \<lparr>qr_Amount = PayInternationalCard_amount request, qr_MerchantId = [],
     qr_UserId = pi_GpayUserId request, qr_ServiceType = SERVICE_TYPE_WALLET, qr_TransType = pi_TransType request,
     qr_SubTransType = pi_SubTransType request, qr_SourceOfFund = sof, qr_IsVerify = True, qr_IsLinkedBank = True,
     qr_ServiceCode = pi_ServiceCode request, qr_VoucherCode = pi_VoucherCode request\<rparr>"

text \<open>The order that the request names, with the fields of the request, or a new one.\<close>

definition PayInternationalCard_named :: "PayInternationalCardRequest \<Rightarrow> BankRes \<Rightarrow> string \<Rightarrow> OrderEntity \<Rightarrow> OrderEntity" where
  "PayInternationalCard_named request link sof d = d\<lparr>
     oe_SourceOfFund := sof, oe_VoucherCode := pi_VoucherCode request, oe_GPayBankCode := pi_GpayBankCode request,
     oe_ToUserID := pi_GpayUserId request, oe_UserID := pi_GpayUserId request, oe_MerchantCode := pi_MerchantCode request,
     oe_SubscribeMerchantID := (if oe_SubscribeMerchantID d = [] then pi_SubscriberMerchantId request else oe_SubscribeMerchantID d),
     oe_BankCode := br_BankCode link, oe_ServiceCode := pi_ServiceCode request, oe_OrderCardTelco := pi_Telco request,
     oe_OrderBillCustomerRef := pi_CustomerReference request, oe_OrderBillServiceCode := pi_ServiceCodeBill request,
     oe_OrderBillAreaCode := pi_AreaCode request, oe_PhoneTopUp := pi_PhoneTopup request\<rparr>"

definition PayInternationalCard_order :: "PayInternationalCardRequest \<Rightarrow> BankRes \<Rightarrow> string \<Rightarrow> OrderEntity" where
  "PayInternationalCard_order request link sof = OrderEntity_zero\<lparr>
     oe_UserID := pi_GpayUserId request,
     oe_ServiceType := (if pi_ServiceType request = [] then SERVICE_TYPE_WALLET else pi_ServiceType request),
     oe_OrderType := pi_TransType request, oe_SubOrderType := pi_SubTransType request, oe_SourceOfFund := sof,
     oe_Amount := pi_Amount request, oe_VoucherCode := pi_VoucherCode request, oe_BankCode := br_BankCode link,
     oe_GPayBankCode := pi_GpayBankCode request, oe_ToUserID := pi_GpayUserId request, oe_OrderCardTelco := pi_Telco request,
     oe_Quantity := pi_Quantity request, oe_OrderBillServiceCode := pi_ServiceCodeBill request,
     oe_OrderBillCustomerRef := pi_CustomerReference request, oe_OrderBillAreaCode := pi_AreaCode request,
     oe_PhoneTopUp := pi_PhoneTopup request, oe_SubscribeMerchantID := pi_SubscriberMerchantId request,
     oe_MerchantCode := pi_MerchantCode request, oe_ServiceCode := pi_ServiceCode request, oe_RefID := pi_RefId request\<rparr>"

definition PayInternationalCard_init ::
    "'w services \<Rightarrow> PayInternationalCardRequest \<Rightarrow> BankRes \<Rightarrow> string \<Rightarrow> ('w st, goerror option) comp" where
  "PayInternationalCard_init S request link sof =
     (if pi_OrderId request \<noteq> []
      then bindc (GetValidOrder S (pi_OrderId request)) (\<lambda>r. case r of
             Inl e \<Rightarrow> thenc (set_order None) (ret (Some e))
           | Inr d \<Rightarrow> thenc (set_order (Some (PayInternationalCard_named request link sof d))) (ret None))
      else init_order S (PayInternationalCard_order request link sof))"

text \<open>The switch on the type of the order: the order, the payer, the payee and the provider.\<close>

definition PayInternationalCard_switch :: "PayInternationalCardRequest \<Rightarrow> OrderEntity \<Rightarrow> OrderEntity \<times> string \<times> string \<times> string" where
  "PayInternationalCard_switch request d =
     (if oe_OrderType d = TRANSTYPE_WALLET_CASH_IN \<or> oe_OrderType d = TRANSTYPE_OPENWAL_CASHIN then (d, [], oe_UserID d, [])
      else if oe_OrderType d = TRANSTYPE_PAY_TO_MERCHANT
      then ((if oe_SubOrderType d \<noteq> SUB_TRANSTYPE_WALLET_APP_TO_APP then d\<lparr>oe_SubOrderType := pi_SubTransType request\<rparr> else d),
            oe_UserID d, [], oe_SubscribeMerchantID d)
      else if oe_OrderType d = TRANSTYPE_OPENWAL_CASHOUT then (d, oe_UserID d, [], [])
      else (d\<lparr>oe_OrderType := TRANSTYPE_WALLET_PAY_BY_TOKEN\<rparr>, oe_UserID d, [], []))"

definition PayInternationalCard_payment ::
    "PayInternationalCardRequest \<Rightarrow> BankRes \<Rightarrow> BankBin \<Rightarrow> QuotaRes \<Rightarrow> OrderEntity \<Rightarrow> string \<Rightarrow> string \<Rightarrow> string \<Rightarrow> ETransactionDTO" where
  "PayInternationalCard_payment request link b fee d payer payee provider = ETransactionDTO_zero\<lparr>
     tx_AppId := oe_ServiceCode d, tx_ServiceType := oe_ServiceType d, tx_TransactionType := oe_OrderType d,
     tx_SubTransactionType := oe_SubOrderType d, tx_Amount := PayInternationalCard_amount request,
     tx_AmountFeeGpay := qs_FeeAmount fee, tx_AmountDiscount := qs_DiscountAmount fee, tx_VoucherCode := oe_VoucherCode d,
     tx_SourceOfFund := oe_SourceOfFund d, tx_RefId := oe_RefID d, tx_OrderId := oe_OrderID d, tx_PayerId := payer,
     tx_PayeeId := payee, tx_MerchantID := oe_SubscribeMerchantID d, tx_BankCode := oe_BankCode d,
     tx_MerchantTypeWallet := (if oe_SubscribeMerchantID d \<noteq> [] then AmountRevenue else []),
     tx_ProviderMerchantID := provider, tx_IbftReceiveBank := bb_BankName b, tx_CardNo := br_CardNumber link,
     tx_IbftType := br_Brand link\<rparr>"

definition PayInternationalCard_trans ::
    "'w services \<Rightarrow> PayInternationalCardRequest \<Rightarrow> BankRes \<Rightarrow> BankBin \<Rightarrow> QuotaRes \<Rightarrow> ('w st, goerror option) comp" where
  "PayInternationalCard_trans S request link b fee =
     bindc the_order (\<lambda>d.
     if oe_TransactionID d \<noteq> []
     then bindc (ask (ts_FindByID S (oe_TransactionID d))) (\<lambda>a. case a of
            Inl e \<Rightarrow> thenc (set_trans None) (ret (Some e))
          | Inr t \<Rightarrow> thenc (set_trans (Some t)) (ret None))
     else (case PayInternationalCard_switch request d of (d, payer, payee, provider) \<Rightarrow>
            thenc (set_order (Some d))
              (link_order (init_trans S False (PayInternationalCard_payment request link b fee d payer payee provider)))))"

text \<open>The answer goes back to the client as JSON.\<close>

definition PayInternationalCard_bank :: "'w services \<Rightarrow> PayInternationalCardRequest \<Rightarrow> ('w st, goerror option) comp" where
  "PayInternationalCard_bank S request =
     bindc the_trans (\<lambda>t. bindc the_order (\<lambda>d.
     bindc (CashInNapas S (NapasCashInDataRequest (tx_LastAmount t) (oe_OrderID d) (pi_LinkId request) ''WEB''
              (pi_GpayUserId request) ''InternationalCard'') (pi_GpayBankCode request) ''core.ip'') (\<lambda>(res, err).
     case err of
       Some e \<Rightarrow> thenc (set_failReason (SERVICE_BANKGW_ERROR @ Error e)) (ret (Some e))
     | None \<Rightarrow> (case sv_json_data S res of
         Inl e \<Rightarrow> panic (Error e)
       | Inr bRes \<Rightarrow> (case sv_json_acs S bRes of (url, err) \<Rightarrow>
           thenc (modify (\<lambda>s. s\<lparr>resp_Data := bRes, resp_Url := url\<rparr>)) (ret err))))))"

definition PayInternationalCard_steps ::
    "'w services \<Rightarrow> PayInternationalCardRequest \<Rightarrow> BankRes \<Rightarrow> string \<Rightarrow> BankBin \<Rightarrow> QuotaRes \<Rightarrow> 'w st step_def list" where
  "PayInternationalCard_steps S request link sof b fee =
     [(''INIT_ORDER'', PayInternationalCard_init S request link sof, ret None),
      (''INIT_PAYMENT'', PayInternationalCard_trans S request link b fee,
         comp_init_payment S with_bank_reason (\<lambda>r d. d\<lparr>oe_FailReason := r\<rparr>)),
      (''PROCESSING_ORDER'', assign_order (ProcessingOrder S), ret None),
      (''BANK_GW'', PayInternationalCard_bank S request, ret None)]"

definition card_source :: "BankRes \<Rightarrow> string" where
  "card_source link =
     (if br_FundingMethod link = MPGS_DEBIT_CARD then SOURCE_OF_FUND_DEBIT_CARD else SOURCE_OF_FUND_CREDIT_CARD)"

text \<open>The result: the body of the answer and its address, where there is a response, and the error.\<close>

definition PayInternationalCard_open ::
    "'w services \<Rightarrow> PayInternationalCardRequest \<Rightarrow> BankRes \<Rightarrow> BankBin \<Rightarrow>
     ('w st, (string \<times> string) option \<times> goerror option) comp" where
  "PayInternationalCard_open S request link b =
     bindc (ask (ts_QuotaFee S (PayInternationalCard_quota request (card_source link)))) (\<lambda>q. case q of
       Inl e \<Rightarrow> ret (Some ([], []), Some e)
     | Inr fee \<Rightarrow>
         bindc (orchestrate S ''PayInternational Card'' (PayInternationalCard_steps S request link (card_source link) b fee)) (\<lambda>(_, err).
         bindc (gets (\<lambda>s. (resp_Data s, resp_Url s))) (\<lambda>res. ret (Some res, err))))"

definition PayInternationalCard ::
    "'w services \<Rightarrow> bool \<Rightarrow> PayInternationalCardRequest \<Rightarrow> ('w st, (string \<times> string) option \<times> goerror option) comp" where
  "PayInternationalCard S binFirst request =
     thenc (modify (fresh_vars None))
    (bindc (LinkInfo S (pi_LinkId request)) (\<lambda>(getLinkInfo, err). case err of
       Some e \<Rightarrow> ret (None, Some e)
     | None \<Rightarrow>
         if pi_TransType request = TRANSTYPE_WALLET_CASH_IN \<and> card_source getLinkInfo = SOURCE_OF_FUND_CREDIT_CARD
         then ret (None, Some (ErrorString ''The khong duoc ho tro nap tien''))
         else bindc (card_checks S binFirst (br_CardNumber getLinkInfo)) (\<lambda>r. case r of
           Inl e \<Rightarrow> ret (None, Some e)
         | Inr b \<Rightarrow> PayInternationalCard_open S request getLinkInfo b)))"

subsection \<open>What the parts record\<close>

lemma card_prefix_does: "does (card_prefix c) (\<lambda>a es. es = [])"
  unfolding card_prefix_def by (simp add: does_rules)

lemma CheckInternationalBankBin_quiet [does_rules]: "quiet (CheckInternationalBankBin S bin)"
  unfolding CheckInternationalBankBin_def by (intro does_rules) simp

text \<open>What the bank says of the first six digits of a card number, and that the fraud service has cleared the number.\<close>

definition bin_told :: "'w services \<Rightarrow> string \<Rightarrow> BankBin \<Rightarrow> bool" where
  "bin_told S cardNumber b \<longleftrightarrow> 6 \<le> length cardNumber \<and> (\<exists>res bs.
     bank_told S (BankReq_zero\<lparr>bq_Path := ''credit/whitelist/bankbin/search'', bq_Method := ''POST'',
       bq_Data := CheckBankBin (take 6 cardNumber) 1 ''ACTIVE''\<rparr>) res \<and>
     BankGwStatus_IsSuccess (br_ErrorCode res) \<and> br_Bins res = b # bs)"

definition card_cleared :: "'w services \<Rightarrow> string \<Rightarrow> bool" where
  "card_cleared S cardNumber \<longleftrightarrow> (\<exists>w f. fst (fr_Get S cardNumber w) = Inr f \<and> \<not> Fraud_IsFail (fd_Status f))"

lemma CheckInternationalBankBin_does: "does (CheckInternationalBankBin S bin) (\<lambda>a es. es = [] \<and> (\<forall>res. a = Some (res, None) \<longrightarrow>
    bank_told S (BankReq_zero\<lparr>bq_Path := ''credit/whitelist/bankbin/search'', bq_Method := ''POST'', bq_Data := CheckBankBin bin 1 ''ACTIVE''\<rparr>) res \<and>
    BankGwStatus_IsSuccess (br_ErrorCode res)))"
  unfolding CheckInternationalBankBin_def
proof (rule does_bindc [OF httpQuery_does], rule does_ret, goal_cases)
  case (1 r es)
  then show ?case by (cases r) (auto simp: checked_ok)
qed simp

lemma check_bin_does: "does (check_bin S c) (\<lambda>a es. es = [] \<and> (\<forall>b. a = Some (Inr b) \<longrightarrow> bin_told S c b))"
proof (cases "length c < 6")
  case False
  show ?thesis
    unfolding check_bin_def card_prefix_def if_not_P [OF False] ret_bindc
  proof (rule does_bindc [OF CheckInternationalBankBin_does], goal_cases)
    case (1 a es)
    obtain res err where a: "a = (res, err)" by force
    with 1 False show ?case
      by (cases err) (auto simp: bin_told_def split: list.split intro!: does_ret)
  qed simp
qed (simp add: check_bin_def card_prefix_def does_rules bindc_def does_panic [unfolded panic_def])

lemma check_bin_quiet [does_rules]: "quiet (check_bin S c)"
  by (rule does_mono [OF check_bin_does]) simp

lemma fraud_clear_quiet [does_rules]: "quiet (fraud_clear S c)"
  unfolding fraud_clear_def by (intro does_rules) simp

lemma fraud_clear_does: "does (fraud_clear S c) (\<lambda>a es. es = [] \<and> (a = Some None \<longrightarrow> card_cleared S c))"
  unfolding fraud_clear_def
proof (rule does_ask_range, rule does_ret, goal_cases)
  case (1 w)
  then show ?case by (cases "fst (fr_Get S c w)") (auto simp: card_cleared_def)
qed

lemma card_checks_does:
  "does (card_checks S binFirst c) (\<lambda>a es. es = [] \<and> (\<forall>b. a = Some (Inr b) \<longrightarrow> bin_told S c b \<and> card_cleared S c))"
proof -
  let ?P = "\<lambda>a es. es = [] \<and> (\<forall>b. a = Some (Inr b, None) \<longrightarrow> bin_told S c b \<and> card_cleared S c)"
  have "does (bindc (check_bin S c) (\<lambda>b. bindc (fraud_clear S c) (\<lambda>f. ret (b, f)))) ?P"
    by (rule does_bindc [OF check_bin_does], rule does_bindc [OF fraud_clear_does]) (auto intro!: does_ret)
  moreover have "does (bindc (fraud_clear S c) (\<lambda>f. bindc (check_bin S c) (\<lambda>b. ret (b, f)))) ?P"
    by (rule does_bindc [OF fraud_clear_does], rule does_bindc [OF check_bin_does]) (auto intro!: does_ret)
  ultimately have "does (if binFirst then bindc (check_bin S c) (\<lambda>b. bindc (fraud_clear S c) (\<lambda>f. ret (b, f)))
      else bindc (fraud_clear S c) (\<lambda>f. bindc (check_bin S c) (\<lambda>b. ret (b, f)))) ?P" by simp
  then show ?thesis
    unfolding card_checks_def by (rule does_bindc) (auto split: option.splits intro!: does_ret)
qed

lemma card_checks_quiet [does_rules]: "quiet (card_checks S b c)"
  by (rule does_mono [OF card_checks_does]) simp

subsection \<open>A card on the black list\<close>

text \<open>The step always fails, and asks no bank.\<close>

lemma ProcessCreditPayment_fraud_errs:
  assumes "Fraud_IsFail (fd_Status f)"
  shows "wp (ProcessCreditPayment_fraud S b f) (\<lambda>err _. err \<noteq> None) (\<lambda>_. True) s"
proof -
  have ret: "wp (ret (Some e)) (\<lambda>err _. err \<noteq> None) (\<lambda>_. True) u" for e :: goerror and u :: "'a st" by (simp add: wp_ret)
  have warn: "wp (bindc the_order (\<lambda>d. thenc (warningBlackList S d t f) (ret (Some ErrFailOrder)))) (\<lambda>err _. err \<noteq> None) (\<lambda>_. True) u" for t u
    by (simp add: wp_bindc wp_the_order wp_ret wp_True split: option.split)
  have rest: "wp (thenc (update_order g) (thenc (through_order (FailedOrder S)) (thenc m
      (bindc the_order (\<lambda>d. thenc (warningBlackList S d t f) (ret (Some ErrFailOrder))))))) (\<lambda>err _. err \<noteq> None) (\<lambda>_. True) u"
    for g and m :: "('a st, goerror option) comp" and t u
    unfolding wp_bindc [of "update_order _"] wp_bindc [of "through_order _"] wp_bindc [of m]
    by (rule wp_mono [OF wp_True], rule wp_mono [OF wp_True], rule wp_mono [OF wp_True]) (rule warn TrueI)+
  have pair: "wp (case r of (x, err) \<Rightarrow> (case err of Some e \<Rightarrow> ret (Some e) | None \<Rightarrow> thenc (update_order g) (thenc (through_order (FailedOrder S)) (thenc m
      (bindc the_order (\<lambda>d. thenc (warningBlackList S d t f) (ret (Some ErrFailOrder)))))))) (\<lambda>err _. err \<noteq> None) (\<lambda>_. True) u"
    for r :: "'b \<times> goerror option" and g and m :: "('a st, goerror option) comp" and t u
    by (cases r, cases "snd r") (simp_all only: prod.case snd_conv option.case ret rest)
  show ?thesis
    unfolding ProcessCreditPayment_fraud_def if_P [OF assms] wp_bindc [of "update_trans _"] wp_bindc [of the_trans] wp_bindc [of "serviceTransactionCancel _ _"] wp_updates wp_the_trans
    by (cases "trans s") (simp, simp del: not_None_eq, rule wp_mono [OF wp_True], rule pair, rule TrueI)
qed

lemma warningBlackList_atmost [atmost_rules]: "atmost is_bank 0 (warningBlackList S d t f)"
proof -
  have submit: "atmost is_bank 0 (emit (EvSubmit j))" for j
    by (intro atmost_quiet does_rules) simp
  show ?thesis unfolding warningBlackList_def by (intro atmost_rules submit) simp_all
qed

lemma ProcessCreditPayment_no_bank:
  "atmost is_bank 0 (ProcessCreditPayment_trans S b d)" "atmost is_bank 0 (ProcessCreditPayment_processing S)"
  "atmost is_bank 0 (ProcessCreditPayment_fraud S b f)" "atmost is_bank 0 (ProcessCreditPayment_warn S f)"
proof -
  have cancel: "atmost is_bank 0 (serviceTransactionCancel S t)" for t
    by (rule atmost_one_call [OF serviceTransactionCancel_does]) simp
  show "atmost is_bank 0 (ProcessCreditPayment_fraud S b f)"
    unfolding ProcessCreditPayment_fraud_def by (intro atmost_rules cancel atmost_quiet [OF CreateMessageMqtt_quiet]) simp_all
qed (auto simp: ProcessCreditPayment_trans_def ProcessCreditPayment_processing_def ProcessCreditPayment_warn_def intro!: atmost_rules)

text \<open>The outcome of a call that fails without having asked the bank.\<close>

definition refused_at :: "'w st \<Rightarrow> 'a \<times> goerror option \<Rightarrow> 'w st \<Rightarrow> bool" where
  "refused_at s r u \<longleftrightarrow> snd r \<noteq> None \<and> adds is_bank 0 s u"

lemma ProcessCreditPayment_order_refused:
  assumes "\<And>w. \<exists>f. fst (fr_Get S (pc_CardNumber request) w) = Inr f \<and> Fraud_IsFail (fd_Status f)" and "adds is_bank 0 s u"
  shows "wp (ProcessCreditPayment_order S request b d) (refused_at s) (adds is_bank 0 s) u"
proof -
  have stop: "wp (orchestrate S name (ProcessCreditPayment_steps S request b amount f)) (refused_at s) (adds is_bank 0 s) v"
    if "Fraud_IsFail (fd_Status f)" "adds is_bank 0 s v" for f amount name v
  proof -
    have "wp (orchestrate S name (ProcessCreditPayment_steps S request b amount f)) (\<lambda>(p, err) u. err \<noteq> None \<and> adds is_bank 0 v u) (adds is_bank 0 v) v"
    proof (rule orchestrate_stopped [where pre = "take 1 (ProcessCreditPayment_steps S request b amount f)" and f = "ProcessCreditPayment_fraud S b f"])
      show "wp (ProcessCreditPayment_fraud S b f) (\<lambda>err u. err \<noteq> None \<and> adds is_bank 0 v u) (adds is_bank 0 v) t" if "adds is_bank 0 v t" for t
        by (intro wp_mono [OF wp_conj [OF ProcessCreditPayment_fraud_errs [OF \<open>Fraud_IsFail _\<close>] atmost_wp [OF ProcessCreditPayment_no_bank(3), of t "adds is_bank 0 v"]]])
          (use adds_trans [OF that] in auto)
    qed (auto simp: ProcessCreditPayment_steps_def intro: ProcessCreditPayment_no_bank atmost_rules)
    then show ?thesis by (rule wp_mono) (use adds_trans [OF that(2)] in \<open>auto simp: refused_at_def\<close>)
  qed
  have base: "adds is_bank 0 s t" if "adds is_bank 0 (u\<lparr>order_dto := p, world := w\<rparr>) t" for p w t
    using adds_trans [where i = 0 and j = 0, OF assms(2)] that by (simp add: adds_def)
  show ?thesis
    unfolding ProcessCreditPayment_order_def wp_bindc [of "set_order _"] wp_sets wp_bindc [of "ask _"] wp_ask
  proof (intro allI impI, goal_cases)
    case (1 r w)
    from assms(1) 1 obtain f where f: "r = Inr f" "Fraud_IsFail (fd_Status f)" by (metis fst_conv)
    show ?case
      unfolding Let_def f sum.case wp_bindc [of "ProcessCreditPayment_trans _ _ _"]
      by (rule wp_mono [OF atmost_wp [OF ProcessCreditPayment_no_bank(1), where Q = "adds is_bank 0 s"]])
        (use base in \<open>auto simp: wp_ret refused_at_def intro!: stop f split: option.split\<close>)
  qed
qed


lemma ProcessCreditPayment_refused:
  assumes "\<And>w. \<exists>f. fst (fr_Get S (pc_CardNumber request) w) = Inr f \<and> Fraud_IsFail (fd_Status f)"
  shows "wp (ProcessCreditPayment S request) (refused_at s) (adds is_bank 0 s) s"
proof -
  have still: "adds is_bank 0 s (appended (fresh_vars None s) w es)" if "key es = []" for w es
    using that by (simp add: adds_def appended_def fresh_vars_def del: filter_filter)
  note quiet = does_wp [OF check_bin_quiet] does_wp [OF valid_order_does]
  show ?thesis
    unfolding ProcessCreditPayment_def wp_bindc wp_modify
    by (rule quiet(1), auto simp: wp_bindc wp_ret refused_at_def still simp del: not_None_eq split: sum.split intro!: quiet(2) ProcessCreditPayment_order_refused assms)
qed

text \<open>The fraud service has not answered, or has answered that the card is on the black list.\<close>

definition not_cleared :: "goerror + Fraud \<Rightarrow> bool" where
  "not_cleared r = (case r of Inl _ \<Rightarrow> True | Inr f \<Rightarrow> Fraud_IsFail (fd_Status f))"

lemma fraud_clear_fails:
  assumes "\<And>w. not_cleared (fst (fr_Get S c w))"
  shows "wp (fraud_clear S c) (\<lambda>err _. err = Some unsupported_card) (\<lambda>_. True) s"
  unfolding fraud_clear_def wp_bindc wp_ask wp_ret
proof (intro allI impI, goal_cases)
  case (1 r w)
  with assms [of "world s"] show ?case by (cases r) (auto simp: not_cleared_def)
qed

lemma card_checks_fail:
  assumes "\<And>w. not_cleared (fst (fr_Get S c w))"
  shows "wp (card_checks S binFirst c) (\<lambda>r _. r = Inl unsupported_card) (\<lambda>_. True) s"
proof -
  have "wp (fraud_clear S c) (\<lambda>f. wp (check_bin S c) (\<lambda>b. wp (ret (b, f)) (\<lambda>r. wp (case r of (b, f) \<Rightarrow>
      ret (case f of Some e \<Rightarrow> Inl e | None \<Rightarrow> b)) (\<lambda>r _. r = Inl unsupported_card) (\<lambda>_. True)) (\<lambda>_. True)) (\<lambda>_. True)) (\<lambda>_. True) s"
    by (rule wp_mono [OF fraud_clear_fails [OF assms]]) (simp_all add: wp_ret wp_True)
  moreover have "wp (check_bin S c) (\<lambda>b. wp (fraud_clear S c) (\<lambda>f. wp (ret (b, f)) (\<lambda>r. wp (case r of (b, f) \<Rightarrow>
      ret (case f of Some e \<Rightarrow> Inl e | None \<Rightarrow> b)) (\<lambda>r _. r = Inl unsupported_card) (\<lambda>_. True)) (\<lambda>_. True)) (\<lambda>_. True)) (\<lambda>_. True) s"
    by (rule wp_mono [OF wp_True]) (auto simp: wp_ret intro: wp_mono [OF fraud_clear_fails [OF assms]])
  ultimately show ?thesis unfolding card_checks_def by (simp add: wp_bindc)
qed

text \<open>The card of a link is the one that the bank names for it.\<close>

lemma PayInternationalCard_refused:
  assumes "\<And>info w. link_told S (pi_LinkId request) info \<Longrightarrow> not_cleared (fst (fr_Get S (br_CardNumber info) w))"
  shows "wp (PayInternationalCard S binFirst request) (\<lambda>(r, err) u. r = None \<and> err \<noteq> None \<and> key (trace u) = key (trace s)) (\<lambda>u. key (trace u) = key (trace s)) s"
proof -
  have checks: "wp (card_checks S binFirst c) (\<lambda>r u. r = Inl unsupported_card \<and> key (trace u) = key (trace s)) (\<lambda>u. True \<and> key (trace u) = key (trace s)) v"
    if "key (trace v) = key (trace s)" "\<And>w. not_cleared (fst (fr_Get S c w))" for c v
    by (rule wp_conj [OF card_checks_fail [OF that(2)] does_wp [OF card_checks_quiet]]) (use that in simp_all)
  have go: "wp (bindc (card_checks S binFirst c) (\<lambda>r. case r of Inl e \<Rightarrow> ret (None, Some e) | Inr b \<Rightarrow> m b))
      (\<lambda>(r, err) u. r = None \<and> err \<noteq> None \<and> key (trace u) = key (trace s)) (\<lambda>u. key (trace u) = key (trace s)) v"
    if "key (trace v) = key (trace s)" "\<And>w. not_cleared (fst (fr_Get S c w))" for c v and m :: "BankBin \<Rightarrow> ('a st, (string \<times> string) option \<times> goerror option) comp"
    unfolding wp_bindc by (rule wp_mono [OF checks [OF that]]) (auto simp: wp_ret)
  show ?thesis
    unfolding PayInternationalCard_def wp_bindc [of "modify _"] wp_modify wp_bindc [of "LinkInfo _ _"]
  proof (rule does_wp [OF LinkInfo_does], goal_cases)
    case (1 a w es)
    obtain link err where a: "a = (link, err)" by force
    have v: "key (trace (appended (fresh_vars None s) w es)) = key (trace s)" using 1 by (simp add: fresh_vars_def)
    have refuse: "wp (ret (None, Some e)) (\<lambda>(r, err) u. r = None \<and> err \<noteq> None \<and> key (trace u) = key (trace s)) (\<lambda>u. key (trace u) = key (trace s))
        (appended (fresh_vars None s) w es)" for e :: goerror
      using v by (simp add: wp_ret)
    show ?case
    proof (cases err)
      case None
      with 1 a have "link_told S (pi_LinkId request) link" by simp
      note card = assms [OF this]
      show ?thesis unfolding a prod.case None option.case by (split if_split) (intro conjI impI refuse go [OF v card])
    qed (simp only: a prod.case option.case refuse)
  qed (simp add: fresh_vars_def)
qed

subsection \<open>A payment by card number that goes well\<close>

text \<open>The transaction of the order, or a new one with the terms of \<open>dto\<close>.\<close>

definition card_trans_taken :: "'w services \<Rightarrow> ETransactionDTO \<Rightarrow> OrderEntity \<Rightarrow> event list \<Rightarrow> ETransactionDTO \<Rightarrow> bool" where
  "card_trans_taken S dto d evs t \<longleftrightarrow>
     (if oe_TransactionID d = [] then \<exists>q. init_request dto q \<and> evs = [EvInit q (Inr t)]
      else (\<exists>w. fst (ts_FindByID S (oe_TransactionID d) w) = Inr t) \<and> evs = [])"

definition linked_to :: "OrderEntity \<Rightarrow> ETransactionDTO \<Rightarrow> OrderEntity" where
  "linked_to d t = (if oe_TransactionID d = [] then d\<lparr>oe_TransactionID := tx_TransactionId t\<rparr> else d)"

definition card_asked :: "ProcessCreditPaymentRequest \<Rightarrow> int64 \<Rightarrow> OrderEntity \<Rightarrow> BankRes \<Rightarrow> event \<Rightarrow> bool" where
  "card_asked request amount d res ev \<longleftrightarrow> (BankGwStatus_IsVerifying (br_ErrorCode res) \<or> BankGwStatus_IsSuccess (br_ErrorCode res)) \<and>
     (\<exists>now. ev = EvBank (envelope ''credit/payment3ds'' ''GPAYCORE'' GpayBankCodeCreditPayment now
        (CreditData (ProcessCreditPayment_bank_request request amount d)) ''ip'') res None)"

definition card_opened :: "'w services \<Rightarrow> ProcessCreditPaymentRequest \<Rightarrow> event list \<Rightarrow> OrderEntity \<Rightarrow> string \<Rightarrow> bool" where
  "card_opened S request evs d' url \<longleftrightarrow> (\<exists>d b t init f n res call fraud.
     payable_order S (pc_OrderId request) d \<and> bin_told S (pc_CardNumber request) b \<and>
     card_trans_taken S (ProcessCreditPayment_payment b (d\<lparr>oe_SourceOfFund := credit_source b\<rparr>)) (d\<lparr>oe_SourceOfFund := credit_source b\<rparr>) init t \<and>
     \<not> Fraud_IsFail (fd_Status fraud) \<and> (fraud = Fraud_zero \<or> (\<exists>w. fst (fr_Get S (pc_CardNumber request) w) = Inr fraud)) \<and>
     restamped ORDER_PROCESSING (linked_to (d\<lparr>oe_SourceOfFund := credit_source b\<rparr>) t) d' \<and>
     card_asked request (oe_Amount d) d' res call \<and> url = br_AcsUrl res \<and>
     evs = init @ [EvReplaceOrder f d' (Inr (Suc n)), call])"

lemma ProcessCreditPayment_trans_succeeds:
  assumes "holding s evs d t0 [] (u\<lparr>trans := Some t0\<rparr>)"
    and "\<And>init t v. card_trans_taken S (ProcessCreditPayment_payment b d) d init t \<Longrightarrow> holding s (evs @ init) d t [] v \<Longrightarrow> R v"
  shows "succeeds (ProcessCreditPayment_trans S b d) R u"
proof (cases "oe_TransactionID d = []")
  case True
  then show ?thesis
    unfolding ProcessCreditPayment_trans_def if_P [OF True]
    by (intro init_trans_succeeds assms(2)) (use assms(1) in \<open>auto simp: card_trans_taken_def holding_def simp del: filter_filter\<close>)
next
  case False
  show ?thesis
    unfolding ProcessCreditPayment_trans_def if_not_P [OF False]
  proof (rule find_trans_succeeds)
    show "order_dto u = Some d" using assms(1) by (simp add: holding_def)
    show "R (u\<lparr>world := w', trans := Some t\<rparr>)" if "fst (ts_FindByID S (oe_TransactionID d) w) = Inr t" for t w w'
      by (rule assms(2) [where init = "[]"]) (use that False assms(1) in \<open>auto simp: card_trans_taken_def holding_def\<close>)
  qed
qed

lemma ProcessCreditPayment_processing_succeeds:
  assumes "holding s evs d t [] u"
    and "\<And>d' f n v. restamped ORDER_PROCESSING (linked_to d t) d' \<Longrightarrow> holding s (evs @ [EvReplaceOrder f d' (Inr (Suc n))]) d' t [] v \<Longrightarrow> R v"
  shows "succeeds (ProcessCreditPayment_processing S) R u"
proof -
  have *: "order_dto u = Some d" "trans u = Some t" using assms(1) by (simp_all add: holding_def)
  have go: "succeeds (assign_order (ProcessingOrder S)) R (u\<lparr>order_dto := Some (linked_to d t)\<rparr>)"
    by (intro assign_order_succeeds [OF ProcessingOrder_does] assms(2)) (use assms(1) in \<open>auto simp: holding_def simp del: filter_filter\<close>)
  have "u\<lparr>order_dto := Some d\<rparr> = u" using * by simp
  with go have "succeeds (assign_order (ProcessingOrder S)) R u" if "oe_TransactionID d \<noteq> []"
    using that by (simp only: linked_to_def if_False)
  with go show ?thesis
    unfolding ProcessCreditPayment_processing_def
    by (cases "oe_TransactionID d = []") (simp_all add: wp_bindc wp_the_order wp_the_trans wp_updates wp_ret * linked_to_def)
qed

lemma CreditPayment_does: "does (CreditPayment S q) (bank_call (\<lambda>now. envelope ''credit/payment3ds'' ''GPAYCORE'' GpayBankCodeCreditPayment now
     (CreditData q) ''ip'') False False (\<lambda>st. BankGwStatus_IsVerifying st \<or> BankGwStatus_IsSuccess st))"
  unfolding CreditPayment_def by (rule bank_request_does)

lemma ProcessCreditPayment_bank_succeeds:
  assumes "holding s evs d t [] u"
    and "\<And>res call v. card_asked request amount d res call \<Longrightarrow> holding s (evs @ [call]) d t [] v \<Longrightarrow> resp_Url v = br_AcsUrl res \<Longrightarrow> R v"
  shows "succeeds (ProcessCreditPayment_bank S request amount) R u"
proof -
  have *: "order_dto u = Some d" using assms(1) by (simp add: holding_def)
  show ?thesis
    unfolding ProcessCreditPayment_bank_def wp_bindc [of the_order] wp_the_order * option.case wp_bindc [of "CreditPayment _ _"]
  proof (rule does_wp [OF CreditPayment_does], goal_cases)
    case (1 r w es)
    then obtain now res err where es: "key es = [EvBank (envelope ''credit/payment3ds'' ''GPAYCORE'' GpayBankCodeCreditPayment now
          (CreditData (ProcessCreditPayment_bank_request request amount d)) ''ip'') res err]"
        "r = checked False False (\<lambda>st. BankGwStatus_IsVerifying st \<or> BankGwStatus_IsSuccess st) (res, err)"
      by (rule bank_call_cases)
    obtain r1 r2 where r: "r = (r1, r2)" by force
    show ?case
    proof (cases r2)
      case None
      with es(2) r have "err = None" "r1 = res" "BankGwStatus_IsVerifying (br_ErrorCode res) \<or> BankGwStatus_IsSuccess (br_ErrorCode res)"
        using checked_ok [of False False "\<lambda>st. BankGwStatus_IsVerifying st \<or> BankGwStatus_IsSuccess st" res err r1] by simp_all
      with es(1) None assms(1) show ?thesis
        by (auto simp: r wp_rules card_asked_def holding_def simp del: filter_filter split: option.split intro!: assms(2))
    qed (simp add: r wp_rules)
  qed simp
qed

lemma ProcessCreditPayment_warn_succeeds:
  assumes "holding s evs d t [] u" "\<And>v. holding s evs d t [] v \<Longrightarrow> resp_Url v = resp_Url u \<Longrightarrow> R v"
  shows "succeeds (ProcessCreditPayment_warn S f) R u"
proof -
  have "quiet (warningBlackList S d t f)"
    unfolding warningBlackList_def by (intro does_rules) auto
  then have "wp (warningBlackList S d t f) (\<lambda>_ v. R v) (\<lambda>_. True) u"
    by (rule does_wp) (use assms(1) in \<open>auto simp: holding_def simp del: filter_filter intro!: assms(2)\<close>)
  with assms(1) show ?thesis
    unfolding ProcessCreditPayment_warn_def by (simp add: wp_bindc wp_the_order wp_the_trans wp_ret holding_def)
qed

text \<open>The steps, when the card is not on the black list.\<close>

lemma ProcessCreditPayment_steps_succeed:
  assumes "holding s evs d t [] u"
  shows "succeeds (run_forward (ProcessCreditPayment_steps S request b amount fraud)) (\<lambda>u. \<not> Fraud_IsFail (fd_Status fraud) \<and>
     (\<exists>d' f n res call. order_dto u = Some d' \<and> restamped ORDER_PROCESSING (linked_to d t) d' \<and> card_asked request amount d' res call \<and>
       resp_Url u = br_AcsUrl res \<and> key (trace u) = key (trace s) @ evs @ [EvReplaceOrder f d' (Inr (Suc n)), call])) u"
proof (cases "Fraud_IsFail (fd_Status fraud)")
  case True
  have "succeeds (run_forward (ProcessCreditPayment_steps S request b amount fraud)) (\<lambda>_. False) u"
    unfolding ProcessCreditPayment_steps_def
    by (intro forward_Cons_succeeds, rule ProcessCreditPayment_processing_succeeds [OF assms], rule forward_Cons_succeeds,
        rule wp_mono [OF ProcessCreditPayment_fraud_errs [OF True]]) auto
  then show ?thesis by (rule succeeds_mono) simp
next
  case False
  have pass: "succeeds (ProcessCreditPayment_fraud S b fraud) R v" if "R v" for R v
    using that False by (simp add: ProcessCreditPayment_fraud_def wp_ret)
  show ?thesis
    unfolding ProcessCreditPayment_steps_def
  proof (intro forward_Cons_succeeds forward_Nil_succeeds, rule ProcessCreditPayment_processing_succeeds [OF assms], intro forward_Cons_succeeds pass,
      erule ProcessCreditPayment_bank_succeeds, intro forward_Cons_succeeds, erule ProcessCreditPayment_warn_succeeds, rule forward_Nil_succeeds, goal_cases)
    case (1 d' f n v res call w x)
    then have "order_dto x = Some d'" "key (trace x) = key (trace s) @ evs @ [EvReplaceOrder f d' (Inr (Suc n)), call]" "resp_Url x = br_AcsUrl res"
      by (simp_all add: holding_def)
    with 1 False show ?case by blast
  qed
qed

definition card_done :: "'w services \<Rightarrow> ProcessCreditPaymentRequest \<Rightarrow> 'w st \<Rightarrow> OrderEntity option \<Rightarrow> 'w st \<Rightarrow> bool" where
  "card_done S request s p u \<longleftrightarrow> (\<exists>d' evs. p = Some d' \<and> key (trace u) = key (trace s) @ evs \<and> card_opened S request evs d' (resp_Url u))"

lemma ProcessCreditPayment_order_completes:
  assumes "payable_order S (pc_OrderId request) d \<and> bin_told S (pc_CardNumber request) b" "key (trace u) = key (trace s)" "bankTraceId u = []"
  shows "wp (ProcessCreditPayment_order S request b (d\<lparr>oe_SourceOfFund := credit_source b\<rparr>)) (\<lambda>(p, err) u. err = None \<longrightarrow> card_done S request s p u) (\<lambda>_. True) u"
proof -
  let ?d = "d\<lparr>oe_SourceOfFund := credit_source b\<rparr>"
  have steps: "wp (orchestrate S name (ProcessCreditPayment_steps S request b (oe_Amount d) fraud)) (\<lambda>(p, err) u. err = None \<longrightarrow> card_done S request s p u) (\<lambda>_. True) v"
    if fraud: "fraud = Fraud_zero \<or> (\<exists>w. fst (fr_Get S (pc_CardNumber request) w) = Inr fraud)"
      and taken: "card_trans_taken S (ProcessCreditPayment_payment b ?d) ?d init t" "holding s init ?d t [] v" for name fraud init t v
  proof (rule orchestrate_forward, goal_cases)
    case (1 w)
    from taken(2) have "holding s init ?d t [] (v\<lparr>world := w\<rparr>)" by (simp add: holding_def)
    from ProcessCreditPayment_steps_succeed [OF this] show ?case
    proof (rule succeeds_mono, elim conjE exE, goal_cases)
      case (1 x d' f n res call)
      from 1 assms(1) fraud taken(1) have "card_opened S request (init @ [EvReplaceOrder f d' (Inr (Suc n)), call]) d' (resp_Url x)"
        unfolding card_opened_def by blast
      with 1 show ?case unfolding card_done_def by simp
    qed
  qed
  show ?thesis
    unfolding ProcessCreditPayment_order_def wp_bindc [of "set_order _"] wp_sets wp_bindc [of "ask _"] wp_ask Let_def
  proof (intro allI impI, goal_cases)
    case (1 r w)
    let ?f = "case r of Inl _ \<Rightarrow> Fraud_zero | Inr f \<Rightarrow> f"
    from 1 have f: "?f = Fraud_zero \<or> (\<exists>w. fst (fr_Get S (pc_CardNumber request) w) = Inr ?f)"
      by (cases r) (auto intro!: exI [of _ "world u"])
    have "holding s [] ?d t0 [] (u\<lparr>order_dto := Some ?d, world := w, trans := Some t0\<rparr>)" for t0
      using assms(2,3) by (simp add: holding_def)
    then have "succeeds (ProcessCreditPayment_trans S b ?d) (wp (orchestrate S name (ProcessCreditPayment_steps S request b (oe_Amount d) ?f))
        (\<lambda>(p, err) u. err = None \<longrightarrow> card_done S request s p u) (\<lambda>_. True)) (u\<lparr>order_dto := Some ?d, world := w\<rparr>)" for name
      by (rule ProcessCreditPayment_trans_succeeds) (rule steps [OF f], simp_all)
    then show ?case
      unfolding wp_bindc [of "ProcessCreditPayment_trans _ _ _"] by (rule wp_mono) (auto simp: wp_ret split: option.split)
  qed
qed

lemma ProcessCreditPayment_run:
  "wp (ProcessCreditPayment S request) (\<lambda>(p, err) u. err = None \<longrightarrow> card_done S request s p u) (\<lambda>_. True) s"
proof -
  note quiet = does_wp [OF check_bin_does] does_wp [OF valid_order_does]
  show ?thesis
    unfolding ProcessCreditPayment_def wp_bindc wp_modify
    by (rule quiet(1), auto simp: wp_bindc wp_ret simp del: not_None_eq split: sum.split intro!: quiet(2) ProcessCreditPayment_order_completes)
      (simp_all add: fresh_vars_def)
qed

subsection \<open>A payment by a linked card that goes well\<close>

definition linked_order_taken :: "'w services \<Rightarrow> PayInternationalCardRequest \<Rightarrow> BankRes \<Rightarrow> event list \<Rightarrow> OrderEntity \<Rightarrow> bool" where
  "linked_order_taken S request link evs d \<longleftrightarrow>
     (if pi_OrderId request = []
      then (\<exists>now oid. d = initial_order (PayInternationalCard_order request link (card_source link)) now oid) \<and> evs = [EvInsertOrder d None]
      else (\<exists>p. payable_order S (pi_OrderId request) p \<and> d = PayInternationalCard_named request link (card_source link) p) \<and> evs = [])"

text \<open>A new transaction has the payer, the payee and the provider that the switch chooses.\<close>

definition linked_trans_taken ::
    "'w services \<Rightarrow> PayInternationalCardRequest \<Rightarrow> BankRes \<Rightarrow> BankBin \<Rightarrow> QuotaRes \<Rightarrow> OrderEntity \<Rightarrow> event list \<Rightarrow> OrderEntity \<Rightarrow> ETransactionDTO \<Rightarrow> bool" where
  "linked_trans_taken S request link b fee d evs d1 t \<longleftrightarrow>
     (if oe_TransactionID d \<noteq> [] then (\<exists>w. fst (ts_FindByID S (oe_TransactionID d) w) = Inr t) \<and> evs = [] \<and> d1 = d
      else (case PayInternationalCard_switch request d of (d0, payer, payee, provider) \<Rightarrow>
        (\<exists>q. init_request (PayInternationalCard_payment request link b fee d0 payer payee provider) q \<and> evs = [EvInit q (Inr t)]) \<and>
        d1 = d0\<lparr>oe_TransactionID := tx_TransactionId t\<rparr>))"

definition linked_asked :: "PayInternationalCardRequest \<Rightarrow> OrderEntity \<Rightarrow> ETransactionDTO \<Rightarrow> BankRes \<Rightarrow> event \<Rightarrow> bool" where
  "linked_asked request d t res ev \<longleftrightarrow> \<not> BankGwStatus_IsFail (br_ErrorCode res) \<and>
     (\<exists>now. ev = EvBank (envelope ''cashin'' ''GPAYWEB'' (pi_GpayBankCode request) now
        (NapasCashInDataRequest (tx_LastAmount t) (oe_OrderID d) (pi_LinkId request) ''WEB'' (pi_GpayUserId request) ''InternationalCard'') ''core.ip'') res None)"

definition linked_opened ::
    "'w services \<Rightarrow> PayInternationalCardRequest \<Rightarrow> BankRes \<Rightarrow> BankBin \<Rightarrow> QuotaRes \<Rightarrow> event list \<Rightarrow> string \<times> string \<Rightarrow> bool" where
  "linked_opened S request link b fee evs out \<longleftrightarrow> (\<exists>taken d init d1 t d' f n res call.
     linked_order_taken S request link taken d \<and> linked_trans_taken S request link b fee d init d1 t \<and>
     restamped ORDER_PROCESSING d1 d' \<and> linked_asked request d' t res call \<and>
     sv_json_data S res = Inr (fst out) \<and> sv_json_acs S (fst out) = (snd out, None) \<and>
     evs = taken @ init @ [EvReplaceOrder f d' (Inr (Suc n)), call])"

text \<open>What is known of the link, its card and the fee before the order is touched.\<close>

definition linked_known :: "'w services \<Rightarrow> PayInternationalCardRequest \<Rightarrow> BankRes \<Rightarrow> BankBin \<Rightarrow> QuotaRes \<Rightarrow> bool" where
  "linked_known S request link b fee \<longleftrightarrow> link_told S (pi_LinkId request) link \<and> bin_told S (br_CardNumber link) b \<and>
     card_cleared S (br_CardNumber link) \<and> (\<exists>w. fst (ts_QuotaFee S (PayInternationalCard_quota request (card_source link)) w) = Inr fee)"

definition linked_at :: "'w st \<Rightarrow> event list \<Rightarrow> OrderEntity \<Rightarrow> 'w st \<Rightarrow> bool" where
  "linked_at s evs d u \<longleftrightarrow> key (trace u) = key (trace s) @ evs \<and> order_dto u = Some d \<and> bankTraceId u = []"

lemma PayInternationalCard_init_succeeds:
  assumes "key (trace u) = key (trace s)" "bankTraceId u = []"
    and "\<And>taken d v. linked_order_taken S request link taken d \<Longrightarrow> linked_at s taken d v \<Longrightarrow> R v"
  shows "succeeds (PayInternationalCard_init S request link (card_source link)) R u"
proof (cases "pi_OrderId request = []")
  case True
  then show ?thesis
    unfolding PayInternationalCard_init_def using assms(1,2)
    by (auto intro!: init_order_succeeds assms(3) simp: linked_order_taken_def linked_at_def simp del: filter_filter) blast
next
  case False
  then show ?thesis
    unfolding PayInternationalCard_init_def using assms(1,2)
    by (simp add: wp_bindc) (rule does_wp [OF valid_order_does], auto simp: wp_rules linked_order_taken_def linked_at_def simp del: filter_filter split: sum.split intro!: assms(3))
qed

lemma PayInternationalCard_trans_succeeds:
  assumes "linked_at s evs d u"
    and "\<And>init d1 t v. linked_trans_taken S request link b fee d init d1 t \<Longrightarrow> holding s (evs @ init) d1 t [] v \<Longrightarrow> R v"
  shows "succeeds (PayInternationalCard_trans S request link b fee) R u"
proof -
  have d: "order_dto u = Some d" using assms(1) by (simp add: linked_at_def)
  show ?thesis
  proof (cases "oe_TransactionID d = []")
    case False
    then show ?thesis
      unfolding PayInternationalCard_trans_def wp_bindc [of the_order] wp_the_order d option.case using assms(1)
      by (auto simp: wp_rules linked_trans_taken_def linked_at_def holding_def split: sum.split intro!: assms(2) [where init = "[]"] exI [of _ "world u"])
  next
    case True
    obtain d0 payer payee provider where sw: "PayInternationalCard_switch request d = (d0, payer, payee, provider)"
      by (cases "PayInternationalCard_switch request d")
    have "succeeds (init_trans S False (PayInternationalCard_payment request link b fee d0 payer payee provider))
        (\<lambda>v. \<forall>x e. trans v = Some x \<longrightarrow> order_dto v = Some e \<longrightarrow> R (v\<lparr>order_dto := Some (e\<lparr>oe_TransactionID := tx_TransactionId x\<rparr>)\<rparr>))
        (u\<lparr>order_dto := Some d0\<rparr>)"
      by (rule init_trans_succeeds, intro allI impI, rule assms(2))
        (use assms(1) True in \<open>auto simp: linked_trans_taken_def sw linked_at_def holding_def simp del: filter_filter\<close>)
    from link_order_succeeds [OF this] True show ?thesis
      unfolding PayInternationalCard_trans_def wp_bindc [of the_order] wp_the_order d option.case
      by (simp add: sw wp_bindc wp_sets)
  qed
qed

lemma CashInNapas_does: "does (CashInNapas S q c ip) (bank_call (\<lambda>now. envelope ''cashin'' ''GPAYWEB'' c now q ip) True True (\<lambda>st. \<not> BankGwStatus_IsFail st))"
  unfolding CashInNapas_def by (rule bank_request_does)

lemma PayInternationalCard_bank_succeeds:
  assumes "holding s evs d t [] u"
    and "\<And>res call v. linked_asked request d t res call \<Longrightarrow> key (trace v) = key (trace s) @ evs @ [call] \<Longrightarrow>
      sv_json_data S res = Inr (resp_Data v) \<Longrightarrow> sv_json_acs S (resp_Data v) = (resp_Url v, None) \<Longrightarrow> R v"
  shows "succeeds (PayInternationalCard_bank S request) R u"
proof -
  have *: "order_dto u = Some d" "trans u = Some t" using assms(1) by (simp_all add: holding_def)
  show ?thesis
    unfolding PayInternationalCard_bank_def wp_bindc [of the_order] wp_bindc [of the_trans] wp_the_order wp_the_trans * option.case wp_bindc [of "CashInNapas _ _ _ _"]
  proof (rule does_wp [OF CashInNapas_does], goal_cases)
    case (1 r w es)
    then obtain now res err where es: "key es = [EvBank (envelope ''cashin'' ''GPAYWEB'' (pi_GpayBankCode request) now
          (NapasCashInDataRequest (tx_LastAmount t) (oe_OrderID d) (pi_LinkId request) ''WEB'' (pi_GpayUserId request) ''InternationalCard'') ''core.ip'') res err]"
        "r = checked True True (\<lambda>st. \<not> BankGwStatus_IsFail st) (res, err)"
      by (rule bank_call_cases)
    obtain r1 r2 where r: "r = (r1, r2)" by force
    show ?case
    proof (cases r2)
      case None
      with es(2) r have "err = None" "r1 = res" "\<not> BankGwStatus_IsFail (br_ErrorCode res)"
        using checked_ok [of True True "\<lambda>st. \<not> BankGwStatus_IsFail st" res err r1] by simp_all
      with es(1) None assms(1) show ?thesis
        by (auto simp: r wp_rules linked_asked_def holding_def simp del: filter_filter split: sum.split prod.split intro!: assms(2))
    qed (simp add: r wp_rules)
  qed simp
qed

lemma PayInternationalCard_steps_succeed:
  fixes s u :: "'w st"
  assumes "key (trace u) = key (trace s)" "bankTraceId u = []"
  shows "succeeds (run_forward (PayInternationalCard_steps S request link (card_source link) b fee))
     (\<lambda>u. \<exists>evs. linked_opened S request link b fee evs (resp_Data u, resp_Url u) \<and> key (trace u) = key (trace s) @ evs) u"
  unfolding PayInternationalCard_steps_def
proof (rule forward_Cons_succeeds, rule PayInternationalCard_init_succeeds [OF assms], goal_cases)
  case (1 taken d v)
  note taken = this
  show ?case
  proof (rule forward_Cons_succeeds, rule PayInternationalCard_trans_succeeds [OF 1(2)], goal_cases)
    case (1 init d1 t v)
    note trans = this
    show ?case
    proof (rule forward_Cons_succeeds, rule assign_order_succeeds [OF ProcessingOrder_does], goal_cases)
      case (1 d2 d' f n w es)
      with trans(2) have "d2 = d1" "holding s ((taken @ init) @ [EvReplaceOrder f d' (Inr (Suc n))]) d' t [] ((appended v w es)\<lparr>order_dto := Some d'\<rparr>)"
        by (simp_all add: holding_def del: filter_filter)
      note 2 = this
      show ?case
      proof (intro forward_Cons_succeeds PayInternationalCard_bank_succeeds [OF 2(2)] forward_Nil_succeeds, goal_cases)
        case (1 res call v)
        have "linked_opened S request link b fee (taken @ init @ [EvReplaceOrder f d' (Inr (Suc n)), call]) (resp_Data v, resp_Url v)"
          unfolding linked_opened_def fst_conv snd_conv
          using taken(1) trans(1) \<open>restamped _ d2 d'\<close> 1 unfolding 2(1) by blast
        with 1 show ?case by auto
      qed
    qed
  qed
qed

definition linked_done ::
    "'w services \<Rightarrow> PayInternationalCardRequest \<Rightarrow> 'w st \<Rightarrow> (string \<times> string) option \<Rightarrow> 'w st \<Rightarrow> bool" where
  "linked_done S request s r u \<longleftrightarrow> (\<exists>link b fee evs out. r = Some out \<and> key (trace u) = key (trace s) @ evs \<and>
     linked_known S request link b fee \<and> linked_opened S request link b fee evs out \<and>
     (pi_TransType request = TRANSTYPE_WALLET_CASH_IN \<longrightarrow> card_source link = SOURCE_OF_FUND_DEBIT_CARD))"

lemma PayInternationalCard_run:
  "wp (PayInternationalCard S binFirst request) (\<lambda>(r, err) u. err = None \<longrightarrow> linked_done S request s r u) (\<lambda>_. True) s"
proof -
  let ?Q = "\<lambda>(r, err) u. err = None \<longrightarrow> linked_done S request s r u"
  have run: "wp (PayInternationalCard_open S request link b) ?Q (\<lambda>_. True) u"
    if "key (trace u) = key (trace s)" "bankTraceId u = []"
      "pi_TransType request = TRANSTYPE_WALLET_CASH_IN \<longrightarrow> card_source link = SOURCE_OF_FUND_DEBIT_CARD"
      "link_told S (pi_LinkId request) link" "bin_told S (br_CardNumber link) b" "card_cleared S (br_CardNumber link)" for link b u
  proof -
    note key = that
    have steps: "wp (orchestrate S name (PayInternationalCard_steps S request link (card_source link) b fee))
        (\<lambda>(p, err) u. err = None \<longrightarrow> linked_done S request s (Some (resp_Data u, resp_Url u)) u) (\<lambda>_. True) (u\<lparr>world := w\<rparr>)"
      if "linked_known S request link b fee" for name fee w
      by (rule orchestrate_forward, rule succeeds_mono [OF PayInternationalCard_steps_succeed [of _ s]])
        (use that key in \<open>auto simp: linked_done_def\<close>)
    show ?thesis
      unfolding PayInternationalCard_open_def wp_bindc [of "ask _"] wp_ask
    proof (intro allI impI, goal_cases)
      case (1 q w)
      show ?case
      proof (cases q)
        case (Inr fee)
        with 1 key(4-) have "linked_known S request link b fee"
          unfolding linked_known_def by (intro conjI exI [of _ "world u"]) simp_all
        from steps [OF this] show ?thesis
          unfolding Inr sum.case wp_bindc [of "orchestrate _ _ _"] by (rule wp_mono) (auto simp: wp_ret wp_bindc wp_gets)
      qed (simp add: wp_ret)
    qed
  qed
  show ?thesis
    unfolding PayInternationalCard_def wp_bindc [of "modify _"] wp_modify wp_bindc [of "LinkInfo _ _"]
  proof (rule does_wp [OF LinkInfo_does], goal_cases)
    case (1 a w es)
    obtain link err where a: "a = (link, err)" by force
    let ?u = "appended (fresh_vars None s) w es"
    have u: "key (trace ?u) = key (trace s)" "bankTraceId ?u = []" using 1 by (simp_all add: fresh_vars_def)
    have go: "wp (bindc (card_checks S binFirst c) (\<lambda>r. case r of Inl e \<Rightarrow> ret (None, Some e) | Inr b \<Rightarrow> PayInternationalCard_open S request link b)) ?Q (\<lambda>_. True) ?u"
      if "c = br_CardNumber link" "link_told S (pi_LinkId request) link" "pi_TransType request = TRANSTYPE_WALLET_CASH_IN \<longrightarrow> card_source link = SOURCE_OF_FUND_DEBIT_CARD" for c
      unfolding wp_bindc
      by (rule does_wp [OF card_checks_does]) (use that u in \<open>auto simp: wp_ret split: sum.split intro!: run\<close>)
    show ?case
    proof (cases err)
      case None
      with 1 a have "link_told S (pi_LinkId request) link" by simp
      then show ?thesis by (auto simp: a None wp_ret card_source_def [of link] intro!: go [OF refl, simplified])
    qed (simp add: a wp_ret)
  qed simp
qed

subsection \<open>The outcome of a payment\<close>

text \<open>A failed payment cancels the transaction unless it is closed, and fails the order; whether that worked is not asked.\<close>

definition credit_cancelled :: "string \<Rightarrow> OrderEntity \<Rightarrow> ETransactionDTO \<Rightarrow> event list \<Rightarrow> OrderEntity \<Rightarrow> bool" where
  "credit_cancelled why d t evs d' \<longleftrightarrow> (\<exists>cs f y. evs = cs @ [EvReplaceOrder f d' y] \<and> restamped ORDER_FAILED (d\<lparr>oe_FailReason := why\<rparr>) d' \<and>
     (if tx_Status t \<noteq> TRANSACTION_STATUS_FAILED \<and> tx_Status t \<noteq> TRANSACTION_STATUS_PENDING
      then \<exists>x. cs = [EvCancel (t\<lparr>tx_FailReason := why\<rparr>) x] else cs = []))"

definition credit_paid :: "OrderEntity \<Rightarrow> ETransactionDTO \<Rightarrow> event list \<Rightarrow> OrderEntity \<Rightarrow> bool" where
  "credit_paid d t evs d' \<longleftrightarrow> (\<exists>c f n. evs = [EvConfirm t (Inr c), EvReplaceOrder f d' (Inr (Suc n))] \<and> restamped ORDER_SUCCESS d d')"

definition credit_verifying :: "OrderEntity \<Rightarrow> ETransactionDTO \<Rightarrow> event list \<Rightarrow> OrderEntity \<Rightarrow> bool" where
  "credit_verifying d t evs d' \<longleftrightarrow> (\<exists>x f n. evs = [EvUpdate (t\<lparr>tx_Status := TRANSACTION_STATUS_PENDING\<rparr>) x, EvReplaceOrder f d' (Inr (Suc n))] \<and>
     restamped ORDER_VERIFYING d d')"

definition credit_settled :: "'w services \<Rightarrow> UpdateCreditPaymentRequest \<Rightarrow> OrderEntity \<Rightarrow> ETransactionDTO \<Rightarrow> event list \<Rightarrow> OrderEntity \<Rightarrow> bool" where
  "credit_settled S request d t evs d' \<longleftrightarrow>
     (if uc_Status request = STATUS_SUCCESS then credit_paid d t evs d'
      else if uc_Status request = STATUS_FAILED then credit_cancelled (uc_Description request) d t evs d'
      else if uc_Status request = STATUS_VERIFYING
      then \<exists>res err. order_reply S (uc_OrderId request) GpayBankCodeCreditPayment (res, err) \<and>
        (if err = None \<and> BankGwStatus_IsSuccess (br_ErrorCode res) then credit_paid d t evs d' else credit_verifying d t evs d')
      else evs = [] \<and> d' = d)"

lemma UpdateCreditPayment_failed_wp:
  assumes "holding s [] d t b u" "payable d"
    and "\<And>evs d' v. credit_cancelled why d t evs d' \<Longrightarrow> key (trace v) = key (trace s) @ evs \<Longrightarrow> order_dto v = Some d' \<Longrightarrow> R v"
  shows "wp (UpdateCreditPayment_failed S why) (\<lambda>_. R) (\<lambda>_. True) u"
proof -
  have *: "order_dto u = Some d" "trans u = Some t" "key (trace u) = key (trace s)" using assms(1) by (simp_all add: holding_def)
  have fail: "wp (bindc the_order (\<lambda>d. whenc (\<not> IsVerifying (oe_Status d) \<and> \<not> IsFailed (oe_Status d))
       (thenc (update_order (\<lambda>d. d\<lparr>oe_FailReason := why\<rparr>))
       (bindc (through_order (FailedOrder S)) (\<lambda>err. whenc (err = None) credit_respond))))) (\<lambda>_. R) (\<lambda>_. True) v"
    if "order_dto v = Some d" "key (trace v) = key (trace s) @ cs"
      "if tx_Status t \<noteq> TRANSACTION_STATUS_FAILED \<and> tx_Status t \<noteq> TRANSACTION_STATUS_PENDING
       then \<exists>x. cs = [EvCancel (t\<lparr>tx_FailReason := why\<rparr>) x] else cs = []" for v cs
  proof -
    have "wp (through_order (FailedOrder S)) (\<lambda>err. wp (whenc (err = None) credit_respond) (\<lambda>_. R) (\<lambda>_. True)) (\<lambda>_. True)
        (v\<lparr>order_dto := Some (d\<lparr>oe_FailReason := why\<rparr>)\<rparr>)"
    proof (rule wp_through_order [OF FailedOrder_does], simp, goal_cases)
      case (1 d0 p f e x w es)
      then have "credit_cancelled why d t (cs @ [EvReplaceOrder f p x]) p"
        unfolding credit_cancelled_def using that(3) by (intro exI [of _ cs] exI [of _ f] exI [of _ x]) auto
      from assms(3) [OF this] show ?case using 1 that(2) by (simp add: wp_rules credit_respond_def del: filter_filter)
    qed
    with that(1) assms(2) show ?thesis by (simp add: wp_rules payable_def)
  qed
  show ?thesis
  proof (cases "tx_Status t = TRANSACTION_STATUS_FAILED \<or> tx_Status t = TRANSACTION_STATUS_PENDING")
    case True
    with fail [of u "[]"] * show ?thesis by (auto simp: UpdateCreditPayment_failed_def wp_bindc wp_the_trans wp_rules)
  next
    case False
    have "wp (cancel_trans S (\<lambda>_ t. t\<lparr>tx_FailReason := why\<rparr>)) (\<lambda>_. wp (bindc the_order (\<lambda>d. whenc (\<not> IsVerifying (oe_Status d) \<and> \<not> IsFailed (oe_Status d))
       (thenc (update_order (\<lambda>d. d\<lparr>oe_FailReason := why\<rparr>))
       (bindc (through_order (FailedOrder S)) (\<lambda>err. whenc (err = None) credit_respond))))) (\<lambda>_. R) (\<lambda>_. True)) (\<lambda>_. True) u"
      unfolding cancel_trans_def wp_bindc [of "gets _"] wp_bindc [of "update_trans _"] wp_gets wp_updates *(2) option.case
    proof (rule wp_assign_trans [OF serviceTransactionCancel_does], simp, goal_cases)
      case (1 t0 x w es)
      with False fail [of "(appended u w es)\<lparr>trans := fst (answered x)\<rparr>" "key es"] * show ?case
        by (simp del: filter_filter)
    qed simp
    with False * show ?thesis
      by (simp add: UpdateCreditPayment_failed_def wp_bindc [of the_trans] wp_the_trans wp_bindc [of "whenc _ _"] wp_whenc wp_bindc [of "cancel_trans _ _"] wp_ret)
  qed
qed

lemma UpdateCreditPayment_parked_wp:
  assumes "holding s [] d t b u"
  shows "wp (UpdateCreditPayment_parked S) (\<lambda>(p, err) v. err = None \<longrightarrow> (\<exists>d' evs. p = Some d' \<and>
     key (trace v) = key (trace s) @ evs \<and> credit_verifying d t evs d')) (\<lambda>_. True) u"
proof -
  have *: "order_dto u = Some d" "trans u = Some t" "key (trace u) = key (trace s)" using assms by (simp_all add: holding_def)
  let ?Q = "\<lambda>(p, err) v. err = None \<longrightarrow> (\<exists>d' evs. p = Some d' \<and> key (trace v) = key (trace s) @ evs \<and> credit_verifying d t evs d')"
  have verify: "wp (bindc (assign_order (VerifyingOrder S)) (\<lambda>err. thenc (whenc (err = None) credit_respond) (bindc (gets order_dto) (\<lambda>p. ret (p, err))))) ?Q (\<lambda>_. True) v"
    if "order_dto v = Some d" "key (trace v) = key (trace s) @ [EvUpdate (t\<lparr>tx_Status := TRANSACTION_STATUS_PENDING\<rparr>) x]" for v x
    unfolding wp_bindc [of "assign_order _"]
  proof (rule wp_assign_order [OF VerifyingOrder_does], simp, goal_cases)
    case (1 d0 d' f e y w es)
    show ?case
    proof (cases "snd (replaced d' e y)")
      case None
      then obtain n where "y = Inr (Suc n)" by auto
      with 1 that show ?thesis
        by (simp add: wp_bindc wp_whenc credit_respond_def wp_the_order wp_gets wp_modify wp_ret credit_verifying_def del: filter_filter)
    qed (simp add: wp_bindc wp_whenc wp_gets wp_ret)
  qed
  show ?thesis
    unfolding UpdateCreditPayment_parked_def wp_bindc [of "assign_trans _"]
  proof (rule wp_assign_trans [OF serviceTransactionPending_does], simp, goal_cases)
    case (1 t0 x w es)
    then show ?case by (intro verify [of _ x]) (simp_all add: * del: filter_filter)
  qed simp
qed

definition credit_done :: "'w services \<Rightarrow> UpdateCreditPaymentRequest \<Rightarrow> 'w st \<Rightarrow> OrderEntity option \<Rightarrow> 'w st \<Rightarrow> bool" where
  "credit_done S request s p u \<longleftrightarrow> (\<exists>d w t d' evs. payable_order S (uc_OrderId request) d \<and> fst (ts_FindByID S (oe_TransactionID d) w) = Inr t \<and> p = Some d' \<and>
     key (trace u) = key (trace s) @ evs \<and>
     credit_settled S request d (t\<lparr>tx_BankTransactionId := oe_OrderID d, tx_OrderId := oe_OrderID d\<rparr>) evs d')"

lemma orchestrate_nothing:
  "wp (orchestrate S name []) (\<lambda>(p, err) v. err = None \<longrightarrow> p = order_dto u \<and> key (trace v) = key (trace u)) (\<lambda>_. True) u"
  by (rule orchestrate_forward, rule forward_Nil_succeeds) simp

lemma restamped_stamped: "restamped st (d\<lparr>oe_SucceedAt := now\<rparr>) d' \<longleftrightarrow> restamped st d d'"
  by (simp add: restamped_def)

lemma UpdateCreditPayment_steps_wp:
  assumes "holding s [] d t b u"
  shows "wp (orchestrate S name (UpdateCreditPayment_steps S)) (\<lambda>(p, err) v. err = None \<longrightarrow> (\<exists>d' evs. p = Some d' \<and>
     key (trace v) = key (trace s) @ evs \<and> credit_paid d t evs d')) (\<lambda>_. True) u"
proof (rule orchestrate_forward, goal_cases)
  case (1 w)
  have success: "succeeds (credit_success S) R v"
    if "order_dto v = Some d" "\<And>d' f n v'. key (trace v') = key (trace v) @ [EvReplaceOrder f d' (Inr (Suc n))] \<Longrightarrow> order_dto v' = Some d' \<Longrightarrow>
        restamped ORDER_SUCCESS d d' \<Longrightarrow> R v'" for R v
  proof -
    have "succeeds (success_order S) R (v\<lparr>world := w, order_dto := Some (d\<lparr>oe_SucceedAt := now\<rparr>)\<rparr>)" for w now
      by (rule success_order_succeeds, rule that(2)) (use that(1) in \<open>auto simp: restamped_stamped simp del: filter_filter\<close>)
    then show ?thesis
      unfolding credit_success_def GetCurrentTime_def using that(1) by (simp add: wp_bindc wp_updates wp_ask)
  qed
  show ?case
    unfolding UpdateCreditPayment_steps_def
    by (intro forward_Cons_succeeds confirm_trans_succeeds success forward_Nil_succeeds)
      (use assms in \<open>auto simp: holding_def credit_paid_def simp del: filter_filter\<close>)
qed

lemma UpdateCreditPayment_decide_wp:
  assumes "holding s [] d t b u" "payable d"
  shows "wp (UpdateCreditPayment_decide S request) (\<lambda>(p, err) v. err = None \<longrightarrow> (\<exists>d' evs. p = Some d' \<and>
     key (trace v) = key (trace s) @ evs \<and> credit_settled S request d t evs d')) (\<lambda>_. True) u"
proof -
  let ?Q = "\<lambda>(p, err) v. err = None \<longrightarrow> (\<exists>d' evs. p = Some d' \<and> key (trace v) = key (trace s) @ evs \<and> credit_settled S request d t evs d')"
  have status: "STATUS_SUCCESS \<noteq> STATUS_FAILED" "STATUS_VERIFYING \<noteq> STATUS_FAILED" "STATUS_VERIFYING \<noteq> STATUS_SUCCESS" by (simp_all add: go_consts)
  consider (success) "uc_Status request = STATUS_SUCCESS" | (failed) "uc_Status request = STATUS_FAILED"
    | (verifying) "uc_Status request = STATUS_VERIFYING"
    | (other) "uc_Status request \<noteq> STATUS_SUCCESS" "uc_Status request \<noteq> STATUS_FAILED" "uc_Status request \<noteq> STATUS_VERIFYING" by blast
  then show ?thesis
  proof cases
    case success
    then show ?thesis
      unfolding UpdateCreditPayment_decide_def Let_def
      by (simp, intro wp_mono [OF UpdateCreditPayment_steps_wp [OF assms(1)]]) (auto simp: credit_settled_def)
  next
    case failed
    have "wp (UpdateCreditPayment_failed S (uc_Description request)) (\<lambda>_. wp (orchestrate S name []) ?Q (\<lambda>_. True)) (\<lambda>_. True) u" for name
    proof (rule UpdateCreditPayment_failed_wp [OF assms], goal_cases)
      case (1 evs d' v)
      with failed status show ?case
        by (intro wp_mono [OF orchestrate_nothing]) (auto simp: credit_settled_def simp del: filter_filter)
    qed
    with failed status show ?thesis unfolding UpdateCreditPayment_decide_def Let_def by (simp add: wp_bindc)
  next
    case verifying
    have "wp (RetrieveOrderStatus S (uc_OrderId request) GpayBankCodeCreditPayment) (\<lambda>r. wp (case r of (retrieveOrderStatus, err) \<Rightarrow>
        if err \<noteq> None \<or> \<not> BankGwStatus_IsSuccess (br_ErrorCode retrieveOrderStatus) then UpdateCreditPayment_parked S
        else orchestrate S name (UpdateCreditPayment_steps S)) ?Q (\<lambda>_. True)) (\<lambda>_. True) u" for name
    proof (rule does_wp [OF RetrieveOrderStatus_does], goal_cases)
      case (1 r w es)
      then have h: "holding s [] d t b (appended u w es)" using assms(1) by (simp add: holding_def)
      from 1 obtain res err where reply: "order_reply S (uc_OrderId request) GpayBankCodeCreditPayment (res, err)"
        "r = checked False False (\<lambda>st. BankGwStatus_IsSuccess st \<or> BankGwStatus_IsVerifying st \<or> BankGwStatus_IsFail st) (res, err)"
        by force
      let ?ok = "err = None \<and> BankGwStatus_IsSuccess (br_ErrorCode res)"
      have paid: "wp (orchestrate S name (UpdateCreditPayment_steps S)) ?Q (\<lambda>_. True) (appended u w es)" if ?ok
        by (rule wp_mono [OF UpdateCreditPayment_steps_wp [OF h]]) (use verifying status reply(1) that in \<open>auto simp: credit_settled_def\<close>)
      have parked: "wp (UpdateCreditPayment_parked S) ?Q (\<lambda>_. True) (appended u w es)" if "\<not> ?ok"
        by (rule wp_mono [OF UpdateCreditPayment_parked_wp [OF h]])
          (use verifying status reply(1) that in \<open>unfold credit_settled_def, simp split: prod.splits, blast\<close>)
      have "snd r \<noteq> None \<or> \<not> BankGwStatus_IsSuccess (br_ErrorCode (fst r)) \<longleftrightarrow> \<not> ?ok"
        by (cases err) (auto simp: reply(2) checked_def BankRes_zero_def)
      with paid parked show ?case by (cases r, cases ?ok) simp_all
    qed simp
    with verifying status show ?thesis unfolding UpdateCreditPayment_decide_def Let_def by (simp add: wp_bindc)
  next
    case other
    with assms(1) show ?thesis
      unfolding UpdateCreditPayment_decide_def Let_def
      by (simp, intro wp_mono [OF orchestrate_nothing]) (auto simp: credit_settled_def holding_def simp del: filter_filter)
  qed
qed

lemma UpdateCreditPaymentOrder_run:
  "wp (UpdateCreditPaymentOrder S request) (\<lambda>(p, err) u. err = None \<longrightarrow> credit_done S request s p u) (\<lambda>_. True) s"
proof -
  let ?Q = "\<lambda>(p, err) u. err = None \<longrightarrow> credit_done S request s p u"
  let ?h = "\<lambda>d t. t\<lparr>tx_BankTransactionId := oe_OrderID d, tx_OrderId := oe_OrderID d\<rparr>"
  have "wp (case r of Inl e \<Rightarrow> ret (None, Some e) | Inr d \<Rightarrow> thenc (set_order (Some d)) (bindc (find_trans S ?h) (\<lambda>err. case err of
      Some e \<Rightarrow> ret (Some d, Some e) | None \<Rightarrow> UpdateCreditPayment_decide S request))) ?Q (\<lambda>_. True) u"
    if r: "\<And>d. r = Inr d \<Longrightarrow> payable_order S (uc_OrderId request) d" and u: "key (trace u) = key (trace s)" "bankTraceId u = []" for r u
  proof (cases r)
    case (Inr d)
    have "succeeds (find_trans S ?h) (wp (UpdateCreditPayment_decide S request) ?Q (\<lambda>_. True)) (u\<lparr>order_dto := Some d\<rparr>)"
    proof (rule find_trans_succeeds, simp, goal_cases)
      case (1 t w w')
      have "holding s [] d (?h d t) [] (u\<lparr>order_dto := Some d, world := w', trans := Some (?h d t)\<rparr>)"
        using u by (simp add: holding_def)
      from UpdateCreditPayment_decide_wp [OF this conjunct1 [OF r [OF Inr, unfolded payable_order_def]], of S request] show ?case
        by (rule wp_mono) (use 1 r [OF Inr] in \<open>unfold credit_done_def, auto, blast\<close>)
    qed
    then show ?thesis
      unfolding Inr sum.case wp_bindc [of "set_order _"] wp_sets wp_bindc [of "find_trans _ _"]
      by (rule wp_mono) (auto simp: wp_ret split: option.split)
  qed (simp add: wp_ret)
  note found = this
  show ?thesis
    unfolding UpdateCreditPaymentOrder_def wp_bindc [of "modify _"] wp_modify wp_bindc [of "GetValidOrder _ _"]
    by (rule does_wp [OF valid_order_does], rule found) (auto simp: fresh_vars_def)
qed

subsection \<open>Progress\<close>

text \<open>The card is on the white list of the bank and not on the black list.\<close>

definition knows_card :: "'w services \<Rightarrow> string \<Rightarrow> bool" where
  "knows_card S c \<longleftrightarrow> 6 \<le> length c \<and> (\<forall>q w. br_Bins (fst (http_result S (fst (bk_Do S q w)))) \<noteq> []) \<and>
     (\<forall>w. \<exists>f. fst (fr_Get S c w) = Inr f \<and> \<not> Fraud_IsFail (fd_Status f))"

lemma check_bin_fine:
  assumes "cooperative S" "knows_card S c"
  shows "fine (check_bin S c) (\<lambda>r. \<exists>b. r = Inr b)"
proof -
  have "fine (CheckInternationalBankBin S bin) (\<lambda>(r, err). err = None \<and> br_Bins r \<noteq> [])" for bin
    unfolding CheckInternationalBankBin_def httpQuery_def
    by (rule fine_bindc [OF fine_ask [of "\<lambda>p. \<exists>r. p = (r, None) \<and> BankGwStatus_IsSuccess (br_ErrorCode r) \<and> br_Bins r \<noteq> []"]])
      (use assms in \<open>auto simp: checked_def knows_card_def dest: cooperativeD(5) intro!: fine_rules, metis cooperativeD(5) fst_conv\<close>)
  note bin = this
  have prefix: "card_prefix c = (ret (take 6 c) :: ('a st, string) comp)" using assms(2) by (simp add: knows_card_def card_prefix_def)
  show ?thesis
    unfolding check_bin_def prefix
    by (rule fine_bindc [OF fine_ret [of "\<lambda>_. True"]], simp, rule fine_bindc [OF bin]) (auto simp: neq_Nil_conv intro!: fine_rules)
qed

lemma CreditPayment_fine: "cooperative S \<Longrightarrow> fine (CreditPayment S q) (\<lambda>(r, err). err = None)"
  unfolding CreditPayment_def
  by (rule fine_ask_any, rule fine_mono [OF checked_fine], assumption) auto

lemma warningBlackList_fine: "fine (warningBlackList S d t f) (\<lambda>_. True)"
  unfolding warningBlackList_def by (rule fine_bindc [OF fine_act [of "\<lambda>_. True"]]) (auto intro!: fine_rules)

lemma ProcessCreditPayment_steps_go:
  assumes "cooperative S" "\<not> Fraud_IsFail (fd_Status f)" "order_dto u = Some d" "trans u \<noteq> None" "TimestampProto (oe_ExpiredAt d) \<noteq> None"
  shows "goes (run_forward (ProcessCreditPayment_steps S request b amount f)) (\<lambda>u. order_dto u \<noteq> None) u"
proof -
  obtain t x where t: "trans u = Some t" "TimestampProto (oe_ExpiredAt d) = Some x" using assms(4,5) by blast
  have processing: "goes (ProcessCreditPayment_processing S) R u"
    if R: "\<And>v d'. order_dto v = Some d' \<Longrightarrow> trans v \<noteq> None \<Longrightarrow> oe_ExpiredAt d' = oe_ExpiredAt d \<Longrightarrow> R v" for R
  proof -
    have "goes (assign_order (ProcessingOrder S)) R v"
      if "order_dto v = Some d0" "trans v \<noteq> None" "oe_ExpiredAt d0 = oe_ExpiredAt d" for v d0
      unfolding assign_order_def wp_bindc wp_the_order that(1) option.case
      by (rule fine_wp [OF order_ops_fine(1) [OF cooperativeD(1) [OF assms(1)]]])
        (use that in \<open>auto simp: wp_rules restamped_def intro!: R\<close>)
    then show ?thesis
      unfolding ProcessCreditPayment_processing_def using assms(3) t
      by (simp add: wp_bindc wp_the_order wp_the_trans wp_updates wp_ret)
  qed
  have bank: "goes (ProcessCreditPayment_bank S request amount) (\<lambda>v. order_dto v \<noteq> None \<and> trans v \<noteq> None) v"
    if "order_dto v = Some d'" "trans v \<noteq> None" "oe_ExpiredAt d' = oe_ExpiredAt d" for v d'
    unfolding ProcessCreditPayment_bank_def wp_bindc wp_the_order that(1) option.case
    by (rule fine_wp [OF CreditPayment_fine [OF assms(1)]]) (use that t in \<open>auto simp: wp_rules split: prod.split\<close>)
  have warn: "goes (ProcessCreditPayment_warn S f) (\<lambda>v. order_dto v \<noteq> None) v" if "order_dto v \<noteq> None" "trans v \<noteq> None" for v
    using that unfolding ProcessCreditPayment_warn_def wp_bindc wp_the_order wp_the_trans
    by (auto simp: wp_ret intro!: fine_wp [OF warningBlackList_fine])
  show ?thesis
    unfolding ProcessCreditPayment_steps_def
  proof (rule forward_Cons_goes, rule processing, goal_cases)
    case (1 v d')
    note bank [OF 1]
    then have "goes (ProcessCreditPayment_bank S request amount) (goes (run_forward [(''PROCESS CREDIT PAYMENT ORDER'', ProcessCreditPayment_warn S f, ret None)])
        (\<lambda>t. order_dto t \<noteq> None)) v"
      by (rule goes_mono) (rule forward_Cons_goes, rule goes_mono [OF warn], auto intro: forward_Nil_goes)
    then show ?case
      by (intro forward_Cons_goes) (simp add: ProcessCreditPayment_fraud_def assms(2) wp_ret, rule forward_Cons_goes)
  qed
qed

definition unexpired_on_file :: "'w services \<Rightarrow> string \<Rightarrow> bool" where
  "unexpired_on_file S i \<longleftrightarrow> order_on_file S i \<and> (\<forall>w d. fst (mg_FindOrder S (ByOrderID i) w) = Inr d \<longrightarrow> TimestampProto (oe_ExpiredAt d) \<noteq> None)"

lemma ProcessCreditPayment_goes:
  assumes "cooperative S" "knows_card S (pc_CardNumber request)" "unexpired_on_file S (pc_OrderId request)"
  shows "\<exists>d t. ProcessCreditPayment S request s = (Ret (Some d, None), t)"
proof -
  note S = cooperativeD(1) [OF assms(1)]
  have run: "goes (ProcessCreditPayment_trans S b d) (wp (orchestrate S name (ProcessCreditPayment_steps S request b (oe_Amount d) f)) (\<lambda>(p, err) _. err = None \<and> p \<noteq> None) (\<lambda>_. False)) u"
    if "order_dto u = Some d" "TimestampProto (oe_ExpiredAt d) \<noteq> None" "\<not> Fraud_IsFail (fd_Status f)" for b d f u name
  proof -
    have go: "wp (orchestrate S name (ProcessCreditPayment_steps S request b (oe_Amount d) f)) (\<lambda>(p, err) _. err = None \<and> p \<noteq> None) (\<lambda>_. False) v"
      if "order_dto v = Some d" "trans v \<noteq> None" for v
      by (rule wp_mono [OF orchestrate_forward_goes [where R = "\<lambda>p _. p \<noteq> None"]],
          rule goes_mono [OF ProcessCreditPayment_steps_go [OF assms(1) \<open>\<not> Fraud_IsFail _\<close>, where d = d]]) (use that \<open>TimestampProto _ \<noteq> None\<close> in auto)
    show ?thesis
    proof (cases "oe_TransactionID d = []")
      case True
      show ?thesis
        unfolding ProcessCreditPayment_trans_def if_P [OF True]
        by (intro init_trans_goes [OF S] go) (use that in auto)
    next
      case False
      show ?thesis
        unfolding ProcessCreditPayment_trans_def if_not_P [OF False]
        by (intro find_trans_goes go) (use that assms(3) in \<open>auto simp: unexpired_on_file_def order_on_file_def\<close>)
    qed
  qed
  have "wp (ProcessCreditPayment S request) (\<lambda>(p, err) u. err = None \<and> p \<noteq> None) (\<lambda>_. False) s"
    unfolding ProcessCreditPayment_def wp_bindc [of "modify _"] wp_modify wp_bindc [of "check_bin _ _"]
  proof (rule fine_wp [OF check_bin_fine [OF assms(1,2)]], elim exE, goal_cases)
    case (1 a w es b)
    let ?u = "appended (fresh_vars None s) w es"
    obtain d w1 where d: "mg_FindOrder S (ByOrderID (pc_OrderId request)) (world ?u) = (Inr d, w1)" "payable d" "TimestampProto (oe_ExpiredAt d) \<noteq> None"
      using assms(3) unfolding unexpired_on_file_def order_on_file_def by (metis prod.collapse fst_conv)
    obtain f w2 where f: "fr_Get S (pc_CardNumber request) w1 = (Inr f, w2)" "\<not> Fraud_IsFail (fd_Status f)"
      using assms(2) unfolding knows_card_def by (metis prod.collapse)
    let ?d = "d\<lparr>oe_SourceOfFund := credit_source b\<rparr>"
    have "goes (ProcessCreditPayment_trans S b ?d) (wp (orchestrate S ''ProcessCreditPayment Order'' (ProcessCreditPayment_steps S request b (oe_Amount ?d) f)) (\<lambda>(p, err) _. err = None \<and> p \<noteq> None) (\<lambda>_. False))
       (?u\<lparr>order_dto := Some ?d, world := w2\<rparr>)"
      by (rule run) (use d f in auto)
    then have "wp (ProcessCreditPayment_order S request b ?d) (\<lambda>(p, err) u. err = None \<and> p \<noteq> None) (\<lambda>_. False) (?u\<lparr>world := w1\<rparr>)"
      unfolding ProcessCreditPayment_order_def wp_bindc [of "set_order _"] wp_sets wp_bindc [of "ask _"] wp_ask
      by (auto simp: f wp_bindc Let_def elim!: goes_mono wp_mono)
    with d show ?case
      by (simp add: 1 wp_bindc GetValidOrder_def FindByOrderID_def wp_ask wp_ret payable_def)
  qed
  then show ?thesis by (auto simp: wp_def split: prod.splits outcome.splits)
qed

lemma UpdateCreditPaymentOrder_goes:
  assumes "cooperative S" "order_on_file S (uc_OrderId request)" "uc_Status request = STATUS_SUCCESS"
  shows "\<exists>d t. UpdateCreditPaymentOrder S request s = (Ret (Some d, None), t)"
proof -
  note S = cooperativeD(1) [OF assms(1)]
  let ?Q = "\<lambda>(p, err) _. err = None \<and> p \<noteq> None"
  have run: "wp (orchestrate S name (UpdateCreditPayment_steps S)) ?Q (\<lambda>_. False) v" if "order_dto v \<noteq> None" "trans v \<noteq> None" for name v
  proof (rule wp_mono [OF orchestrate_forward_goes [where R = "\<lambda>p _. p \<noteq> None"]])
    show "goes (run_forward (UpdateCreditPayment_steps S)) (\<lambda>t. \<forall>m. order_dto t \<noteq> None) (v\<lparr>world := w\<rparr>)" for w
      unfolding UpdateCreditPayment_steps_def
    proof (intro forward_Cons_goes confirm_trans_goes [OF S] forward_Nil_goes, use that in simp, goal_cases)
      case (1 t w1 es)
      have "goes (success_order S) (goes (run_forward []) (\<lambda>t. \<forall>m. order_dto t \<noteq> None)) x" if "order_dto x \<noteq> None" for x
        by (rule success_order_goes [OF S that]) (rule forward_Nil_goes, simp)
      with that show ?case
        unfolding credit_success_def GetCurrentTime_def by (auto simp: wp_bindc wp_updates wp_ask split: option.split)
    qed
  qed auto
  obtain d w1 where d: "mg_FindOrder S (ByOrderID (uc_OrderId request)) (world s) = (Inr d, w1)" "payable d"
    using assms(2) unfolding order_on_file_def by (metis prod.collapse)
  let ?find = "find_trans S (\<lambda>d t. t\<lparr>tx_BankTransactionId := oe_OrderID d, tx_OrderId := oe_OrderID d\<rparr>)"
  have "wp (bindc ?find (\<lambda>err. case err of Some e \<Rightarrow> ret (Some d, Some e) | None \<Rightarrow> UpdateCreditPayment_decide S request)) ?Q (\<lambda>_. False) u"
    if "order_dto u = Some d" for u
  proof -
    have "goes ?find (wp (UpdateCreditPayment_decide S request) ?Q (\<lambda>_. False)) u"
      by (rule find_trans_goes) (use that assms(2,3) run in \<open>auto simp: order_on_file_def UpdateCreditPayment_decide_def Let_def\<close>)
    then show ?thesis unfolding wp_bindc by (rule wp_mono) auto
  qed
  then have "wp (UpdateCreditPaymentOrder S request) ?Q (\<lambda>_. False) s"
    unfolding UpdateCreditPaymentOrder_def wp_bindc [of "modify _"] wp_modify
    using d by (simp add: wp_bindc [of "GetValidOrder _ _"] wp_bindc [of "set_order _"] wp_bindc [of "ask _"] GetValidOrder_def FindByOrderID_def wp_ask wp_ret wp_sets payable_def fresh_vars_def)
  then show ?thesis by (auto simp: wp_def split: prod.splits outcome.splits)
qed

text \<open>A new order paid by a linked card, in an environment that knows the card and answers in JSON.\<close>

definition knows_link :: "'w services \<Rightarrow> bool" where
  "knows_link S \<longleftrightarrow> (\<forall>q w. knows_card S (br_CardNumber (fst (http_result S (fst (bk_Do S q w)))))) \<and>
     (\<forall>r. \<exists>j. sv_json_data S r = Inr j) \<and> (\<forall>j. snd (sv_json_acs S j) = None) \<and> (\<forall>j w. \<exists>t. fst (ts_FindByID S j w) = Inr t)"

lemma fraud_clear_fine: "knows_card S c \<Longrightarrow> fine (fraud_clear S c) (\<lambda>err. err = None)"
  unfolding fraud_clear_def
  by (rule fine_bindc [OF fine_ask [of "\<lambda>r. \<exists>f. r = Inr f \<and> \<not> Fraud_IsFail (fd_Status f)"]]) (auto simp: knows_card_def intro!: fine_rules)

lemma card_checks_fine:
  assumes "cooperative S" "knows_card S c"
  shows "fine (card_checks S binFirst c) (\<lambda>r. \<exists>b. r = Inr b)"
proof -
  note bin = check_bin_fine [OF assms] and fraud = fraud_clear_fine [OF assms(2)]
  let ?P = "\<lambda>(b, f). (\<exists>x. b = Inr x) \<and> f = None"
  have "fine (bindc (check_bin S c) (\<lambda>b. bindc (fraud_clear S c) (\<lambda>f. ret (b, f)))) ?P"
    by (rule fine_bindc [OF bin], rule fine_bindc [OF fraud]) (auto intro!: fine_rules)
  moreover have "fine (bindc (fraud_clear S c) (\<lambda>f. bindc (check_bin S c) (\<lambda>b. ret (b, f)))) ?P"
    by (rule fine_bindc [OF fraud], rule fine_bindc [OF bin]) (auto intro!: fine_rules)
  ultimately have "fine (if binFirst then bindc (check_bin S c) (\<lambda>b. bindc (fraud_clear S c) (\<lambda>f. ret (b, f)))
      else bindc (fraud_clear S c) (\<lambda>f. bindc (check_bin S c) (\<lambda>b. ret (b, f)))) ?P" by simp
  then show ?thesis unfolding card_checks_def by (rule fine_bindc) (auto intro!: fine_rules split: prod.split)
qed

lemma LinkInfo_fine:
  assumes "cooperative S" "knows_link S"
  shows "fine (LinkInfo S i) (\<lambda>(r, err). err = None \<and> knows_card S (br_CardNumber r))"
  unfolding LinkInfo_def httpQuery_def
  by (rule fine_ask_any, rule fine_bindc [OF fine_ask [of "\<lambda>p. \<exists>r. p = (r, None) \<and> BankGwStatus_IsSuccess (br_ErrorCode r) \<and> knows_card S (br_CardNumber r)"]])
    (use assms in \<open>auto simp: checked_def knows_link_def dest: BankGwStatus_success_exclusive split: if_splits intro!: fine_rules, metis cooperativeD(5) fst_conv\<close>)

lemma PayInternationalCard_steps_go:
  assumes "cooperative S" "knows_link S" "pi_OrderId request = []"
  shows "goes (run_forward (PayInternationalCard_steps S request link sof b fee)) (\<lambda>t. order_dto t \<noteq> None) u"
proof -
  note S = cooperativeD(1) [OF assms(1)]
  have init: "goes (PayInternationalCard_init S request link sof) (\<lambda>v. order_dto v \<noteq> None \<and> trans v = trans u) u"
    unfolding PayInternationalCard_init_def using assms(3)
    by (auto intro!: init_order_goes [OF S] simp: PayInternationalCard_order_def OrderEntity_zero_def)
  have trans: "goes (PayInternationalCard_trans S request link b fee) (\<lambda>v. order_dto v \<noteq> None \<and> trans v \<noteq> None) v"
    if v: "order_dto v = Some d" for v d
  proof (cases "oe_TransactionID d = []")
    case True
    obtain d0 payer payee provider where sw: "PayInternationalCard_switch request d = (d0, payer, payee, provider)"
      by (cases "PayInternationalCard_switch request d")
    have "goes (link_order (init_trans S False (PayInternationalCard_payment request link b fee d0 payer payee provider)))
        (\<lambda>v. order_dto v \<noteq> None \<and> trans v \<noteq> None) (v\<lparr>order_dto := Some d0\<rparr>)"
      by (rule link_order_goes, rule init_trans_goes [OF S]) simp
    with v sw True show ?thesis
      by (simp add: PayInternationalCard_trans_def wp_bindc wp_the_order wp_sets)
  next
    case False
    obtain t w where "ts_FindByID S (oe_TransactionID d) (world v) = (Inr t, w)"
      using assms(2) unfolding knows_link_def by (metis prod.collapse)
    with v False show ?thesis
      by (simp add: PayInternationalCard_trans_def wp_bindc wp_the_order wp_sets wp_ask wp_ret)
  qed
  have bank: "goes (PayInternationalCard_bank S request) (\<lambda>v. order_dto v \<noteq> None) v" if v: "order_dto v = Some d" "trans v = Some t" for v d t
  proof -
    have call: "fine (CashInNapas S q c ip) (\<lambda>(r, err). err = None)" for q c ip
      unfolding CashInNapas_def
      by (rule fine_ask_any, rule fine_mono [OF checked_fine [OF assms(1)]]) (auto dest: BankGwStatus_success_exclusive)
    show ?thesis
      unfolding PayInternationalCard_bank_def wp_bindc [of the_order] wp_bindc [of the_trans] wp_the_order wp_the_trans v option.case wp_bindc [of "CashInNapas _ _ _ _"]
    proof (rule fine_wp [OF call], goal_cases)
      case (1 r w es)
      obtain res where r: "r = (res, None)" using 1 by (cases r) auto
      obtain j where j: "sv_json_data S res = Inr j" using assms(2) unfolding knows_link_def by blast
      obtain url where "sv_json_acs S j = (url, None)" using assms(2) unfolding knows_link_def by (metis prod.collapse)
      with j v show ?case by (simp add: r wp_bindc wp_modify wp_ret)
    qed
  qed
  show ?thesis
    unfolding PayInternationalCard_steps_def
  proof (rule forward_Cons_goes, rule goes_mono [OF init], elim conjE exE, goal_cases)
    case (1 v)
    then obtain d where d: "order_dto v = Some d" by blast
    show ?case
    proof (rule forward_Cons_goes, rule goes_mono [OF trans [OF d]], elim conjE, goal_cases)
      case (1 x)
      show ?case
      proof (rule forward_Cons_goes, rule assign_order_goes [OF order_ops_fine(1) [OF S]], use 1 in simp, goal_cases)
        case (1 d' w es)
        with \<open>trans x \<noteq> None\<close> obtain t where "trans ((appended x w es)\<lparr>order_dto := Some d'\<rparr>) = Some t" by auto
        then show ?case by (intro forward_Cons_goes goes_mono [OF bank]) (auto intro: forward_Nil_goes)
      qed
    qed
  qed
qed

lemma PayInternationalCard_goes:
  assumes "cooperative S" "knows_link S" "pi_OrderId request = []" "pi_TransType request \<noteq> TRANSTYPE_WALLET_CASH_IN"
  shows "\<exists>out t. PayInternationalCard S binFirst request s = (Ret (Some out, None), t)"
proof -
  let ?Q = "\<lambda>(r, err) _. err = None \<and> r \<noteq> None"
  have run: "wp (PayInternationalCard_open S request link b) ?Q (\<lambda>_. False) u" for link b u
  proof -
    have steps: "wp (orchestrate S name (PayInternationalCard_steps S request link sof b fee)) (\<lambda>(p, err) _. err = None) (\<lambda>_. False) v" for name sof fee v
      by (rule wp_mono [OF orchestrate_forward_goes [where R = "\<lambda>p _. p \<noteq> None"]], rule goes_mono [OF PayInternationalCard_steps_go [OF assms(1-3)]]) auto
    obtain q w where "ts_QuotaFee S (PayInternationalCard_quota request (card_source link)) (world u) = (Inr q, w)"
      using obligingD(6) [OF cooperativeD(1) [OF assms(1)]] by (metis prod.collapse)
    then show ?thesis
      unfolding PayInternationalCard_open_def
      by (auto simp: wp_bindc wp_ask wp_gets wp_ret intro!: wp_mono [OF steps])
  qed
  have "wp (PayInternationalCard S binFirst request) ?Q (\<lambda>_. False) s"
    unfolding PayInternationalCard_def wp_bindc [of "modify _"] wp_modify wp_bindc [of "LinkInfo _ _"]
  proof (rule fine_wp [OF LinkInfo_fine [OF assms(1,2)]], goal_cases)
    case (1 a w es)
    then obtain link where a: "a = (link, None)" "knows_card S (br_CardNumber link)" by (cases a) auto
    have "wp (bindc (card_checks S binFirst (br_CardNumber link)) (\<lambda>r. case r of Inl e \<Rightarrow> ret (None, Some e) | Inr b \<Rightarrow> PayInternationalCard_open S request link b)) ?Q (\<lambda>_. False)
        (appended (fresh_vars None s) w es)"
      unfolding wp_bindc by (rule fine_wp [OF card_checks_fine [OF assms(1) a(2)]], elim exE) (simp only: sum.case run)
    with assms(4) show ?case by (simp add: a(1))
  qed
  then show ?thesis by (auto simp: wp_def split: prod.splits outcome.splits)
qed

subsection \<open>Properties\<close>

text \<open>The fraud service refuses the card, however often it is asked.\<close>

definition blacklisted :: "'w services \<Rightarrow> string \<Rightarrow> bool" where
  "blacklisted S cardNumber \<longleftrightarrow> (\<forall>w. \<exists>f. fst (fr_Get S cardNumber w) = Inr f \<and> Fraud_IsFail (fd_Status f))"

definition blacklisting_services :: "nat services" where
  "blacklisting_services = example_services\<lparr>
     fr_Get := (\<lambda>c w. (Inr (if c = ''4111111111111111'' then Fraud_zero\<lparr>fd_Status := ''FAIL''\<rparr> else Fraud_zero), w))\<rparr>"

definition example_card_payment :: ProcessCreditPaymentRequest where
  "example_card_payment = \<lparr>pc_OrderId = ''O7'', pc_CardNumber = ''4111111111111111'', pc_ExpiryYear = ''27'', pc_ExpiryMonth = ''01'',
     pc_SecurityCode = ''123'', pc_CardHolderName = ''A'', pc_RedirectUrl = ''https://shop'', pc_Token = []\<rparr>"

definition example_linked_payment :: PayInternationalCardRequest where
  "example_linked_payment = \<lparr>pi_GpayBankCode = ''GPMPGS'', pi_GpayUserId = ''U1'', pi_Amount = 50000, pi_LinkId = 4, pi_TransType = TRANSTYPE_PAY_TO_MERCHANT,
     pi_SubTransType = [], pi_VoucherCode = [], pi_ServiceCode = [], pi_Quantity = 1, pi_Telco = [], pi_ServiceCodeBill = [],
     pi_CustomerReference = [], pi_AreaCode = [], pi_OrderId = [], pi_PhoneTopup = [], pi_SubscriberMerchantId = ''M1'', pi_MerchantCode = [],
     pi_ServiceType = [], pi_RefId = ''R1''\<rparr>"

definition example_card_outcome :: "string \<Rightarrow> UpdateCreditPaymentRequest" where
  "example_card_outcome status = \<lparr>uc_OrderId = ''O7'', uc_Status = status, uc_Description = ''stolen''\<rparr>"

text \<open>
  C19: a card on the black list is never charged, whatever the other services answer.  When the fraud service refuses the card number of the
  request, a payment with it ends in an error (or a panic) and no request has reached the bank.  When it refuses the number of the card that the bank
  names for the link of the request, a payment by the link ends in an error and changes nothing at all.
\<close>

theorem card_fraud_never_charged:
  shows "(blacklisted S (pc_CardNumber request) \<longrightarrow>
       wp (ProcessCreditPayment S request) (\<lambda>(_, err) u. err \<noteq> None \<and> adds is_bank 0 s u) (adds is_bank 0 s) s) \<and>
     ((\<forall>info. link_told S (pi_LinkId linked) info \<longrightarrow> blacklisted S (br_CardNumber info)) \<longrightarrow>
       wp (PayInternationalCard S binFirst linked) (\<lambda>(r, err) u. r = None \<and> err \<noteq> None \<and> key (trace u) = key (trace s))
         (\<lambda>u. key (trace u) = key (trace s)) s)"
proof (intro conjI impI)
  assume "blacklisted S (pc_CardNumber request)"
  then show "wp (ProcessCreditPayment S request) (\<lambda>(_, err) u. err \<noteq> None \<and> adds is_bank 0 s u) (adds is_bank 0 s) s"
    by (intro wp_mono [OF ProcessCreditPayment_refused]) (auto simp: refused_at_def blacklisted_def)
next
  assume "\<forall>info. link_told S (pi_LinkId linked) info \<longrightarrow> blacklisted S (br_CardNumber info)"
  then have "blacklisted S (br_CardNumber info)" if "link_told S (pi_LinkId linked) info" for info using that by blast
  then have "not_cleared (fst (fr_Get S (br_CardNumber info) w))" if "link_told S (pi_LinkId linked) info" for info w
    using that unfolding blacklisted_def not_cleared_def by (metis sum.case(2))
  then show "wp (PayInternationalCard S binFirst linked) (\<lambda>(r, err) u. r = None \<and> err \<noteq> None \<and> key (trace u) = key (trace s))
      (\<lambda>u. key (trace u) = key (trace s)) s"
    by (rule PayInternationalCard_refused)
qed

theorem card_fraud_never_charged_witness:
  "blacklisted blacklisting_services ''4111111111111111'' \<and> \<not> blacklisted blacklisting_services ''4222222222222222'' \<and>
     wp (ProcessCreditPayment blacklisting_services example_card_payment) (\<lambda>(_, err) u. err \<noteq> None \<and> adds is_bank 0 example_state u)
       (adds is_bank 0 example_state) example_state \<and>
     wp (PayInternationalCard blacklisting_services True example_linked_payment) (\<lambda>(r, err) u. r = None \<and> err \<noteq> None \<and> key (trace u) = key (trace example_state))
       (\<lambda>u. key (trace u) = key (trace example_state)) example_state"
proof -
  have black: "blacklisted blacklisting_services ''4111111111111111''" "\<not> blacklisted blacklisting_services ''4222222222222222''"
    by (simp_all add: blacklisted_def blacklisting_services_def Fraud_IsFail_def Fraud_zero_def)
  moreover have "br_CardNumber info = ''4111111111111111''" if "link_told blacklisting_services i info" for i info
    using that by (auto simp: link_told_def bank_replied_def blacklisting_services_def example_services_def http_result_def BankRes_zero_def)
  moreover have "pc_CardNumber example_card_payment = ''4111111111111111''" by (simp add: example_card_payment_def)
  ultimately show ?thesis
    using card_fraud_never_charged [of blacklisting_services example_card_payment example_state example_linked_payment True] by metis
qed


lemma example_knows_card: "knows_card example_services ''4111111111111111''"
  by (simp add: knows_card_def example_services_def http_result_def Fraud_zero_def Fraud_IsFail_def)

lemma example_unexpired: "unexpired_on_file example_services i"
  unfolding unexpired_on_file_def
  by (intro conjI example_order_on_file) (simp add: example_services_def example_order_def OrderEntity_zero_def TimestampProto_def zero_time_def)


text \<open>
  C26: when a payment by a linked card goes well, the bank has named a card for the link of the request, knows the first six digits of its number, and the fraud
  service has cleared it; the order is the payable one that the collection holds under the id of the request, or a new one when there is no id; the transaction is the one of
  the order or a new one whose payer, payee and provider follow from the type of the order, the order was stored as being processed, and then the bank was asked
  once, for the amount of the transaction, with the link of the request, and has not refused; a request of the type WALLET_CASH_IN goes well only when the card of the link is a debit card.
\<close>

theorem PayInternationalCard_completes:
  assumes "PayInternationalCard S binFirst request s = (Ret (r, None), t)"
  shows "\<exists>link b fee evs out. r = Some out \<and> key (trace t) = key (trace s) @ evs \<and>
     linked_known S request link b fee \<and> linked_opened S request link b fee evs out \<and>
     (pi_TransType request = TRANSTYPE_WALLET_CASH_IN \<longrightarrow> card_source link = SOURCE_OF_FUND_DEBIT_CARD)"
  using wp_Ret [OF PayInternationalCard_run assms] by (simp add: linked_done_def)

theorem PayInternationalCard_completes_witness:
  "\<exists>r t link b fee evs out. PayInternationalCard example_services True example_linked_payment example_state = (Ret (r, None), t) \<and> r = Some out \<and>
     key (trace t) = evs \<and> linked_opened example_services example_linked_payment link b fee evs out"
proof -
  have link: "knows_link example_services" using example_knows_card
    by (simp add: knows_link_def example_services_def http_result_def)
  have request: "pi_OrderId example_linked_payment = []" "pi_TransType example_linked_payment \<noteq> TRANSTYPE_WALLET_CASH_IN"
    by (simp_all add: example_linked_payment_def go_consts)
  obtain r t where run: "PayInternationalCard example_services True example_linked_payment example_state = (Ret (r, None), t)"
    using PayInternationalCard_goes [OF example_cooperative link request] by blast
  have "trace example_state = []" by (simp add: example_state_def)
  with PayInternationalCard_completes [OF run] run show ?thesis by (simp only: filter.simps append_Nil) blast
qed

text \<open>
  C27: when the outcome of a card payment is taken without an error, the order is the one that the collection holds under the id of the request and was payable, and what has been done follows from the status: success confirms
  its transaction and stores the order as successful; failure cancels the transaction, unless it is closed, and stores the order as failed (tries to: the
  errors of both are dropped); verifying asks the bank about the order of the request and does what success does if the answer is success, else parks transaction and order; any other
  status does nothing.
\<close>

theorem UpdateCreditPaymentOrder_settles:
  assumes "UpdateCreditPaymentOrder S request s = (Ret (p, None), u)"
  shows "\<exists>d w t d' evs. payable_order S (uc_OrderId request) d \<and> fst (ts_FindByID S (oe_TransactionID d) w) = Inr t \<and> p = Some d' \<and> key (trace u) = key (trace s) @ evs \<and>
     credit_settled S request d (t\<lparr>tx_BankTransactionId := oe_OrderID d, tx_OrderId := oe_OrderID d\<rparr>) evs d'"
  using wp_Ret [OF UpdateCreditPaymentOrder_run assms] by (simp add: credit_done_def)

theorem UpdateCreditPaymentOrder_settles_witness:
  "\<exists>p u d t d' evs. UpdateCreditPaymentOrder example_services (example_card_outcome STATUS_SUCCESS) example_state = (Ret (p, None), u) \<and> p = Some d' \<and>
     key (trace u) = evs \<and> credit_paid d t evs d'"
proof -
  have "uc_Status (example_card_outcome STATUS_SUCCESS) = STATUS_SUCCESS" by (simp add: example_card_outcome_def)
  then obtain p u where run: "UpdateCreditPaymentOrder example_services (example_card_outcome STATUS_SUCCESS) example_state = (Ret (p, None), u)"
    using UpdateCreditPaymentOrder_goes [OF example_cooperative example_order_on_file] by blast
  from UpdateCreditPaymentOrder_settles [OF run] run show ?thesis
    by (auto simp: example_state_def credit_settled_def example_card_outcome_def)
qed

end
