(* ===== verification/Format.thy ===== *)
theory Format
  imports Prelude Strconv
begin

text \<open>
  Go's formatting of a text that is its own format, from the standard library.  The gRPC server and the message-driven saga
  pass the text of an error where a format is expected.
\<close>

text \<open>
  \<open>fmt.Sprintf(format)\<close> without further operands, as \<open>status.Errorf(code, message)\<close> and
  \<open>fmt.Errorf(message)\<close> call it.  After a percent sign come
  flags, an argument index, a width, a precision and a verb.
\<close>

definition is_flag :: "char \<Rightarrow> bool" where
  "is_flag c \<longleftrightarrow> c \<in> set ''#0+- ''"

fun parsenum :: "nat \<Rightarrow> bool \<Rightarrow> string \<Rightarrow> bool \<times> string" where
  "parsenum num isnum [] = (isnum, [])"
| "parsenum num isnum (c # cs) =
     (if is_digit c then
        if 1000000 < num then (False, [])
        else parsenum (num * 10 + (of_char c - 48)) True cs
      else (isnum, c # cs))"

text \<open>An argument index: whether there is one, whether it is well formed, and what follows it.\<close>

definition argNumber :: "string \<Rightarrow> bool \<times> bool \<times> string" where
  "argNumber s = (case s of
     [] \<Rightarrow> (False, False, s)
   | c # cs \<Rightarrow>
       if c \<noteq> CHR ''['' then (False, False, s)
       else if length s < 3 \<or> CHR '']'' \<notin> set cs then (True, False, cs)
       else (True, parsenum 0 False (takeWhile (\<lambda>d. d \<noteq> CHR '']'') cs) = (True, []),
             tl (dropWhile (\<lambda>d. d \<noteq> CHR '']'') cs)))"

definition format_width :: "bool \<Rightarrow> string \<Rightarrow> string \<times> bool \<times> string" where
  "format_width after s = (case s of
     [] \<Rightarrow> ([], after, [])
   | c # cs \<Rightarrow>
       if c = CHR ''*'' then (''%!(BADWIDTH)'', False, cs) else ([], after, snd (parsenum 0 False s)))"

definition format_precision :: "bool \<Rightarrow> string \<Rightarrow> string \<times> bool \<times> bool \<times> string" where
  "format_precision after s = (case s of
     [] \<Rightarrow> ([], False, after, [])
   | c # cs \<Rightarrow>
       if c \<noteq> CHR ''.'' then ([], False, after, s)
       else case argNumber cs of (bad, ok, r) \<Rightarrow>
         case r of
           [] \<Rightarrow> ([], bad, ok, [])
         | d # ds \<Rightarrow>
             if d = CHR ''*'' then (''%!(BADPREC)'', bad, False, ds) else ([], bad, ok, snd (parsenum 0 False r)))"

definition format_directive :: "string \<Rightarrow> string \<times> string" where
  "format_directive s = (
     case argNumber (dropWhile is_flag s) of (bad1, after1, s1) \<Rightarrow>
     case format_width after1 s1 of (width, after2, s2) \<Rightarrow>
     case format_precision after2 s2 of (precision, bad2, after3, s3) \<Rightarrow>
     case (if after3 then (False, True, s3) else argNumber s3) of (bad3, _, s4) \<Rightarrow>
     case s4 of
       [] \<Rightarrow> (width @ precision @ ''%!(NOVERB)'', [])
     | verb # rest \<Rightarrow>
         (width @ precision @
            (if verb = CHR ''%'' then ''%''
             else if bad1 \<or> bad2 \<or> bad3 then ''%!'' @ [verb] @ ''(BADINDEX)''
             else ''%!'' @ [verb] @ ''(MISSING)''), rest))"

lemma parsenum_length: "length (snd (parsenum num isnum s)) \<le> length s"
  by (induction num isnum s rule: parsenum.induct) (auto simp: le_SucI)

lemma argNumber_length: "argNumber s = (b, ok, r) \<Longrightarrow> length r \<le> length s"
  using length_dropWhile_le [of "\<lambda>d. d \<noteq> CHR '']''" "tl s"]
  by (auto simp: argNumber_def split: list.splits if_splits)

lemma format_width_length: "format_width after s = (t, b, r) \<Longrightarrow> length r \<le> length s"
  using parsenum_length [of 0 False s] by (auto simp: format_width_def split: list.splits if_splits)

lemma format_precision_length: "format_precision after s = (t, bad, b, r) \<Longrightarrow> length r \<le> length s"
  by (auto simp: format_precision_def split: list.splits if_splits prod.splits
      dest!: argNumber_length intro: order_trans [OF parsenum_length])

lemma format_directive_length: "length (snd (format_directive s)) \<le> length s"
  using length_dropWhile_le [of is_flag s]
  by (auto simp: format_directive_def split: prod.splits list.splits if_splits
      dest!: argNumber_length format_width_length format_precision_length)

function Sprintf :: "string \<Rightarrow> string" where
  "Sprintf [] = []"
| "Sprintf (c # cs) =
     (if c = CHR ''%'' then fst (format_directive cs) @ Sprintf (snd (format_directive cs)) else c # Sprintf cs)"
  by pat_completeness auto
termination
  by (relation "measure length") (auto simp: le_imp_less_Suc format_directive_length)

text \<open>A text without a percent sign is its own format.\<close>

lemma Sprintf_plain: "CHR ''%'' \<notin> set m \<Longrightarrow> Sprintf m = m"
  by (induction m rule: Sprintf.induct) auto

end
