(* ===== verification/Handlers.thy ===== *)
theory Handlers
  imports Credit_Card Merchant
begin

text \<open>
  The handlers of the application that are a single exchange with another service: asking for a bill
  (\<open>application/check_bill.go\<close>), the payment gateway (\<open>payment_gateway.go\<close>), the state of an order at the bank and the
  list of banks (\<open>bank_transaction.go\<close>), the holder of an account (\<open>ibft_inquiry.go\<close>), the linked cards of a user
  (\<open>link_list.go\<close>) and the merchant's orders (\<open>GetOrderByMerchant.go\<close>).  Handlers with the name of the operation of the
  bank's client that they call have the prefix \<open>app_\<close> here.
\<close>

subsection \<open>CheckBill\<close>

record CheckBillRequest =
  cbq_ServiceCode :: string
  cbq_BillingCode :: string
  cbq_AreaCode :: string

record CheckBillResponse =
  cbr_Status :: string
  cbr_Invoice :: "InvoiceDTO option"

definition FromCardInvoiceToOrderInvoiceDTO :: "InvoiceDTO \<Rightarrow> InvoiceDTO" where
  "FromCardInvoiceToOrderInvoiceDTO i = \<lparr>
     iv_TransactionId = iv_TransactionId i, iv_TransactionDate = iv_TransactionDate i, iv_Message = iv_Message i,
     iv_IsPartialPaymentAllowed = iv_IsPartialPaymentAllowed i, iv_Paid = iv_Paid i, iv_Amount = iv_Amount i,
     iv_InvoiceReference = iv_InvoiceReference i, iv_BillingCode = iv_BillingCode i, iv_ServiceCode = iv_ServiceCode i,
     iv_InvoiceAttributes = map (\<lambda>data. \<lparr>ia_InvoiceId = ia_InvoiceId data,
       ia_InvoiceAttributeTypeId = ia_InvoiceAttributeTypeId data, ia_Value = ia_Value data, ia_Created = ia_Created data\<rparr>)
       (iv_InvoiceAttributes i),
     iv_ProviderName = []\<rparr>"

definition no_such_bill :: goerror where
  "no_such_bill = ErrorString (''Ma khach hang khong ton tai hoac chua phat sinh hoa don thanh toan. '' @
     ''Vui long kiem tra lai hoac thanh toan vao luc khac'')"

definition CheckBill_request :: "CheckBillRequest \<Rightarrow> VendorDTO \<Rightarrow> InvoiceCheckReq" where
  "CheckBill_request request vendor = \<lparr>ic_ServiceCode = cbq_ServiceCode request,
     ic_CustomerReference = cbq_BillingCode request, ic_SubTransType = bill_type (vn_Type vendor) [],
     ic_AreaCode = cbq_AreaCode request\<rparr>"

definition CheckBill :: "'w services \<Rightarrow> CheckBillRequest \<Rightarrow> ('w st, goerror + CheckBillResponse) comp" where
  "CheckBill S request =
     bindc (ask (cs_FindVendor S (cbq_ServiceCode request))) (\<lambda>findVendor. case findVendor of
       Inl e \<Rightarrow> ret (Inl e)
     | Inr v \<Rightarrow>
         bindc (deref v) (\<lambda>vendor.
         bindc (ask (cs_InvoiceCheck S (CheckBill_request request vendor))) (\<lambda>r. case r of
           Inl _ \<Rightarrow> ret (Inl no_such_bill)
         | Inr res \<Rightarrow>
             bindc (deref (icr_Invoice res)) (\<lambda>invoice.
             ret (Inr \<lparr>cbr_Status = icr_Status res,
               cbr_Invoice = Some ((FromCardInvoiceToOrderInvoiceDTO invoice)\<lparr>iv_ProviderName := vn_Name vendor\<rparr>)\<rparr>)))))"

subsection \<open>The payment gateway\<close>

record PGInitTransReq =
  pgt_OrderId :: string
  pgt_Description :: string
  pgt_Amount :: int64
  pgt_MerchantCode :: string
  pgt_RedirectUrl :: string
  pgt_BankCode :: string

record PGInitOrderReq =
  pgo_Ip :: string
  pgo_BankCode :: string
  pgo_Data :: string

text \<open>An answer of the bank's client, from which the handler takes what it needs.\<close>

definition answering :: "('w st, BankRes \<times> goerror option) comp \<Rightarrow> (BankRes \<Rightarrow> 'r) \<Rightarrow> ('w st, goerror + 'r) comp" where
  "answering call f = bindc call (\<lambda>(r, err). case err of Some e \<Rightarrow> ret (Inl e) | None \<Rightarrow> ret (Inr (f r)))"

definition app_PGInitTrans :: "'w services \<Rightarrow> PGInitTransReq \<Rightarrow> ('w st, goerror + string) comp" where
  "app_PGInitTrans S req =
     answering (PGInitTrans S (pgt_BankCode req)
       (PGInitTransReqData (pgt_OrderId req) (pgt_Description req) (sprint (sint (pgt_Amount req)))
          (pgt_MerchantCode req) (pgt_RedirectUrl req))) br_RedirectURL"

text \<open>
  The merchant's data are an arbitrary JSON object; \<open>json_object\<close> is the object that is left after decoding them into a
  map, whether or not the decoding ends with an error, which the handler drops.  So is an error of encoding the answer.
\<close>

definition app_PGInitOrder ::
    "'w services \<Rightarrow> (string \<Rightarrow> string) \<Rightarrow> PGInitOrderReq \<Rightarrow> ('w st, goerror + string) comp" where
  "app_PGInitOrder S json_object req =
     answering (PGInitOrder S (BankReq_zero\<lparr>bq_GPayBankCode := pgo_BankCode req, bq_IpAddress := pgo_Ip req,
       bq_Data := JsonObject (json_object (pgo_Data req))\<rparr>))
       (\<lambda>r. case sv_json_data S r of Inl _ \<Rightarrow> [] | Inr b \<Rightarrow> b)"

subsection \<open>Questions to the bank\<close>

record BankRetrieveOrderRes =
  bro_Amount :: int64
  bro_Success :: bool
  bro_BankTransactionId :: string
  bro_ErrorCode :: string
  bro_Message :: string
  bro_BankCode :: string
  bro_GpayBankCode :: string

text \<open>\<open>toInt64\<close> is \<open>cast.ToInt64\<close> on a string.\<close>

definition BankRetrieveOrder ::
    "'w services \<Rightarrow> (string \<Rightarrow> int64) \<Rightarrow> string \<Rightarrow> string \<Rightarrow> ('w st, goerror + BankRetrieveOrderRes) comp" where
  "BankRetrieveOrder S toInt64 orderId code =
     answering (RetrieveOrderStatus S orderId code) (\<lambda>r. \<lparr>
       bro_Amount = toInt64 (br_Amount r), bro_Success = BankGwStatus_IsSuccess (br_ErrorCode r),
       bro_BankTransactionId = br_BankTransactionId r, bro_ErrorCode = br_ErrorCode r, bro_Message = br_Message r,
       bro_BankCode = br_BankCode r, bro_GpayBankCode = br_GpayBankCode r\<rparr>)"

text \<open>\<open>banks_of\<close> encodes the data of the answer as JSON and decodes them as messages of type \<open>Bank\<close>.\<close>

definition app_GetBanks :: "'w services \<Rightarrow> (BankRes \<Rightarrow> 'b list) \<Rightarrow> ('w st, goerror + 'b list) comp" where
  "app_GetBanks S banks_of = answering (GetBanks S) banks_of"

definition app_IBFTInquiry :: "'w services \<Rightarrow> string \<Rightarrow> string \<Rightarrow> string \<Rightarrow> ('w st, goerror + string) comp" where
  "app_IBFTInquiry S accountNo cardNo ibftCode = answering (IBFTInquiry S accountNo cardNo ibftCode) br_FullName"

record BankLinkDetail =
  bl_LinkId :: int64
  bl_CardNumber :: string
  bl_AccountNumber :: string
  bl_FullName :: string
  bl_GpayUserID :: string
  bl_PhoneNumber :: string
  bl_Provider :: string
  bl_BankCode :: string
  bl_GPayBankCode :: string
  bl_Status :: string
  bl_BankLogo :: string
  bl_BankPublishName :: string
  bl_UrlDirectLinkBank :: string
  bl_UrlDeposit :: string
  bl_BackgroundSmall :: string
  bl_BackgroundLarge :: string

definition FromListLinkToDTO :: "ListLinked \<Rightarrow> BankLinkDetail" where
  "FromListLinkToDTO i = \<lparr>
     bl_LinkId = ll_LinkID i, bl_CardNumber = ll_CardNumber i, bl_AccountNumber = ll_AccountNumber i,
     bl_FullName = ll_FullName i, bl_GpayUserID = ll_GpayUserID i, bl_PhoneNumber = ll_PhoneNumber i,
     bl_Provider = ll_Provider i, bl_BankCode = ll_BankCode i, bl_GPayBankCode = ll_GpayBankCode i,
     bl_Status = ll_Status i, bl_BankLogo = ll_Logo i, bl_BankPublishName = ll_BankPublishName i,
     bl_UrlDirectLinkBank = ll_UrlDirectLinkBank i, bl_UrlDeposit = ll_UrlDeposit i,
     bl_BackgroundSmall = ll_BackgroundSmall i, bl_BackgroundLarge = ll_BackgroundLarge i\<rparr>"

definition app_LinkList :: "'w services \<Rightarrow> string \<Rightarrow> ('w st, goerror + BankLinkDetail list) comp" where
  "app_LinkList S gpayUserID = answering (LinkList S gpayUserID) (\<lambda>r. map FromListLinkToDTO (br_Links r))"

definition GetOrderByMerchant :: "('w st, goerror + string) comp" where
  "GetOrderByMerchant = panic ''err''"

end
