(* ===== verification/Presenter.thy ===== *)
theory Presenter
  imports Format Handlers Transfers StaticQR TopUp BuyCard PayBill CashOut ConfirmOrder Cancellation CashIn VerifyOTP Napas
    Lixi Refund Virtual_Account Token_Payment With_Token Credit_Card
begin

text \<open>
  The gRPC server: its handlers (\<open>presenters/grpc.go\<close>), one definition \<open>grpc_X\<close> for each, and the interceptors of
  \<open>cmd/api/main.go\<close> around them, which turn every error and every panic into a gRPC status (\<open>utils/errors/error.go\<close>).
  A handler either answers with an error or with a message; gRPC sends nothing else.  The fields of the message that an
  orchestrator fills in are read from the state of the request.
\<close>

subsection \<open>Errors on the wire\<close>

text \<open>
  \<open>RecoveryError\<close>.  A \<open>*status.Status\<close> is no error, so no error of the application takes the first branch of its type
  switch: an error that carries a gRPC status is in the last one.  The text of what was panicked with is the model's.
\<close>

definition RecoveryError :: "goerror \<Rightarrow> goerror" where
  "RecoveryError err = (case err of
     MicroError text code detail \<Rightarrow> StatusError (nat (code mod 2 ^ 32)) (Sprintf detail)
   | _ \<Rightarrow> StatusError 400 (Error err))"

definition recovered :: "string \<Rightarrow> goerror" where
  "recovered p = StatusError 400 p"

text \<open>The chain of interceptors: the outer one recovers from a panic, the inner one maps the error.\<close>

definition serve :: "('w st, goerror + 'r) comp \<Rightarrow> ('w st, goerror + 'r) comp" where
  "serve handler s = (case handler s of
     (Ret (Inr r), t) \<Rightarrow> (Ret (Inr r), t)
   | (Ret (Inl e), t) \<Rightarrow> (Ret (Inl (RecoveryError e)), t)
   | (Panic p, t) \<Rightarrow> (Ret (Inl (recovered p)), t))"

subsection \<open>Answers\<close>

text \<open>A handler that fails answers with the error; otherwise \<open>f\<close> is the message.\<close>

definition respond :: "('w st, 'a \<times> goerror option) comp \<Rightarrow> ('w st \<Rightarrow> 'r) \<Rightarrow> ('w st, goerror + 'r) comp" where
  "respond m f = bindc m (\<lambda>(_, err). case err of Some e \<Rightarrow> ret (Inl e) | None \<Rightarrow> bindc (gets f) (\<lambda>r. ret (Inr r)))"

definition respond_done :: "('w st, goerror option) comp \<Rightarrow> ('w st \<Rightarrow> 'r) \<Rightarrow> ('w st, goerror + 'r) comp" where
  "respond_done m f = bindc m (\<lambda>err. case err of Some e \<Rightarrow> ret (Inl e) | None \<Rightarrow> bindc (gets f) (\<lambda>r. ret (Inr r)))"

text \<open>\<open>response.OrderEntity = res.ConvertToProto()\<close> reads through the pointer that the application returned.\<close>

definition respond_stored :: "('w st, OrderEntity option \<times> goerror option) comp \<Rightarrow> ('w st, goerror + OrderProto option) comp" where
  "respond_stored m = bindc m (\<lambda>(res, err). case err of
     Some e \<Rightarrow> ret (Inl e)
   | None \<Rightarrow> bindc (deref res) (\<lambda>d. ret (Inr (Some (ConvertToProto d)))))"

text \<open>The message that the application returned, \<open>None\<close> when it is the nil pointer.\<close>

definition respond_value :: "('w st, 'r \<times> goerror option) comp \<Rightarrow> ('w st, goerror + 'r) comp" where
  "respond_value m = bindc m (\<lambda>(r, err). case err of Some e \<Rightarrow> ret (Inl e) | None \<Rightarrow> ret (Inr r))"

definition refuse :: "string \<Rightarrow> ('w st, goerror + 'r) comp" where
  "refuse m = ret (Inl (ErrorString m))"

text \<open>\<open>response = new(...)\<close>, for the operations that do not start with fresh variables themselves.\<close>

definition new_response :: "('w st, unit) comp" where
  "new_response = modify (fresh_vars None)"

subsection \<open>Orders\<close>

definition grpc_InitOrder_order :: "OrderRequest \<Rightarrow> OrderEntity" where
  "grpc_InitOrder_order r = OrderEntity_zero\<lparr>
     oe_ServiceID := rq_ServiceID r, oe_RefID := rq_RefID r, oe_UserID := rq_UserID r,
     oe_SubscribeMerchantID := rq_MerchantID r, oe_ServiceType := rq_ServiceType r, oe_OrderType := rq_TransType r,
     oe_SubOrderType := rq_SubTransType r, oe_Amount := rq_Amount r, oe_Quantity := rq_Quantity r,
     oe_SourceOfFund := rq_SourceOfFund r, oe_VoucherCode := rq_VoucherCode r, oe_DeviceID := rq_DeviceID r,
     oe_BankCode := rq_BankCode r, oe_GPayBankCode := rq_GPayBankCode r, oe_PhoneTopUp := rq_PhoneTopup r,
     oe_ToUserID := rq_ToUserID r, oe_MerchantCode := rq_MerchantCode r, oe_CardNumber := rq_CardNumber r,
     oe_AccountNo := rq_AccountNo r, oe_Napas := rq_Napas r, oe_BankTransactionId := rq_BankTransactionId r,
     oe_AmountMerchantFee := rq_AmountMerchantFee r, oe_AmountMerchantFeeGpayTmp := rq_AmountMerchantFeeGpayTmp r,
     oe_MerchantCategoryCode := rq_MerchantCategoryCode r, oe_MerchantCategoryType := rq_MerchantCategoryType r,
     oe_ServiceCode := rq_ServiceCode r, oe_MerchantTypeWallet := rq_MerchantTypeWallet r,
     oe_FixedFeeAmount := rq_FixedFeeAmount r, oe_RateFeeAmount := rq_RateFeeAmount r, oe_ExpireTime := rq_ExpireTime r,
     oe_MerchantFeeMethod := rq_MerchantFeeMethod r, oe_Description := rq_Description r, oe_CustomerId := rq_CustomerId r,
     oe_Metadata := rq_Metadata r\<rparr>"

definition grpc_InitOrder :: "'w services \<Rightarrow> OrderRequest option \<Rightarrow> ('w st, goerror + OrderProto option) comp" where
  "grpc_InitOrder S request =
     bindc (deref request) (\<lambda>r.
     if slt64 (rq_ExpireTime r) 0 then refuse ''Invalid expire time''
     else respond_stored (InitOrderAndTrans S (grpc_InitOrder_order r)))"

definition grpc_ConfirmOrder ::
    "'w services \<Rightarrow> ConfirmOrderRequest \<Rightarrow> ConfirmPaymentTokenRequest option \<Rightarrow> ('w st, goerror + OrderProto option) comp" where
  "grpc_ConfirmOrder S request token =
     (if cfr_OrderId request = [] then refuse ''OrderId is required''
      else respond (case cfr_OrderRequest request of
             Some r \<Rightarrow> if rq_SourceOfFund r = SOURCE_OF_FUND_BANK_ATM then ConfirmOrderWithToken S request token
                        else ConfirmOrder S request
           | None \<Rightarrow> ConfirmOrder S request) resp_OrderEntity)"

definition grpc_GetDetailOrder :: "'w services \<Rightarrow> string \<Rightarrow> ('w st, goerror + OrderProto option) comp" where
  "grpc_GetDetailOrder S orderId =
     (if orderId = [] then refuse ''OrderId is required''
      else bindc (GetDetailOrder S orderId) (\<lambda>(d, err). case err of
        Some e \<Rightarrow> ret (Inl e) | None \<Rightarrow> ret (Inr (Some (ConvertToProto d)))))"

definition grpc_GetDetailOrderByMerchantOrderId ::
    "'w services \<Rightarrow> string \<Rightarrow> string \<Rightarrow> ('w st, goerror + OrderProto option) comp" where
  "grpc_GetDetailOrderByMerchantOrderId S merchantId refId =
     (if refId = [] \<or> merchantId = [] then refuse ''Invalid request''
      else bindc (GetDetailOrderByMerchantOrderId S merchantId refId) (\<lambda>(d, err). case err of
        Some e \<Rightarrow> ret (Inl e) | None \<Rightarrow> ret (Inr (Some (ConvertToProto d)))))"

definition grpc_UpdateOrder :: "'w services \<Rightarrow> OrderRequest option \<Rightarrow> ('w st, goerror + OrderProto option) comp" where
  "grpc_UpdateOrder S request =
     bindc (deref request) (\<lambda>r.
     if rq_OrderId r = [] then refuse ''OrderId is required''
     else thenc new_response (respond_done (OrderUpdate S r) resp_OrderEntity))"

definition grpc_CancelOrder :: "'w services \<Rightarrow> string \<Rightarrow> ('w st, goerror + OrderProto option) comp" where
  "grpc_CancelOrder S orderId =
     (if orderId = [] then refuse ''OrderId is required''
      else thenc new_response (respond (OrderCancel S orderId) resp_OrderEntity))"

definition grpc_GetOrderByMerchant :: "('w st, goerror + string) comp" where
  "grpc_GetOrderByMerchant = GetOrderByMerchant"

subsection \<open>Payments from the wallet or from a linked card\<close>

definition grpc_TopUp ::
    "'w services \<Rightarrow> OrderTopUpRequest \<Rightarrow> ConfirmPaymentTokenRequest option \<Rightarrow> ('w st, goerror + OrderProto option) comp" where
  "grpc_TopUp S request token =
     respond (if rq_SourceOfFund (tor_OrderRequest request) = SOURCE_OF_FUND_BANK_ATM then TopUpWithToken S request token
              else TopUp S request) resp_OrderEntity"

definition grpc_BuyCard ::
    "'w services \<Rightarrow> OrderBuyCardRequest \<Rightarrow> ConfirmPaymentTokenRequest option \<Rightarrow>
     ('w st, goerror + OrderProto option \<times> CardObjDTO list) comp" where
  "grpc_BuyCard S i token =
     respond (if rq_SourceOfFund (bcq_OrderRequest i) = SOURCE_OF_FUND_BANK_ATM then BuyCardWithToken S i token
              else BuyCard S i) (\<lambda>s. (resp_OrderEntity s, resp_Cards s))"

definition grpc_PayBill ::
    "'w services \<Rightarrow> OrderPayBillRequest \<Rightarrow> ConfirmPaymentTokenRequest option \<Rightarrow> ('w st, goerror + OrderProto option) comp" where
  "grpc_PayBill S request token =
     respond (if rq_SourceOfFund (pbq_OrderRequest request) = SOURCE_OF_FUND_BANK_ATM then PaidBillWithToken S request token
              else PayBill S request) resp_OrderEntity"

definition grpc_PayBillZota :: "'w services \<Rightarrow> OrderPayBillRequest \<Rightarrow> ('w st, goerror + OrderProto option) comp" where
  "grpc_PayBillZota S request = respond (PayBill S request) resp_OrderEntity"

definition grpc_PaymentMerchant ::
    "'w services \<Rightarrow> PaymentMerchantRequest \<Rightarrow> ConfirmPaymentTokenRequest option \<Rightarrow> ('w st, goerror + OrderProto option) comp" where
  "grpc_PaymentMerchant S request token =
     respond (if rq_SourceOfFund (pmr_OrderRequest request) = SOURCE_OF_FUND_BANK_ATM then StaticQRWithToken S request token
              else StaticQR S request) resp_OrderEntity"

definition grpc_InitPaymentToken ::
    "'w services \<Rightarrow> InitPaymentTokenRequest \<Rightarrow> ('w st, goerror + InitPaymentTokenResponse) comp" where
  "grpc_InitPaymentToken S request = bindc (InitPayByToken S request) (\<lambda>r. case r of
     Inl e \<Rightarrow> ret (Inl e) | Inr (_, _, response) \<Rightarrow> ret (Inr response))"

subsection \<open>Deposits, withdrawals and transfers\<close>

definition grpc_CashIn ::
    "'w services \<Rightarrow> OrderCashInRequest \<Rightarrow> ('w st, goerror + string \<times> int64 \<times> OrderProto option \<times> string) comp" where
  "grpc_CashIn S request =
     respond (CashIn S request) (\<lambda>s. (resp_BankTraceId s, resp_LinkId s, resp_OrderEntity s, resp_Status s))"

definition grpc_CashOTP :: "'w services \<Rightarrow> OrderCashOTPRequest \<Rightarrow> ('w st, goerror + OrderProto option) comp" where
  "grpc_CashOTP S request = respond (VerifyOTP S request) resp_OrderEntity"

definition grpc_CashInNapas :: "'w services \<Rightarrow> CashInNapasRequest \<Rightarrow> ('w st, goerror + OrderProto option) comp" where
  "grpc_CashInNapas S request = respond (CashInNAPAS S request) resp_OrderEntity"

definition grpc_CashOut :: "'w services \<Rightarrow> CashOutRequest \<Rightarrow> ('w st, goerror + OrderProto option) comp" where
  "grpc_CashOut S request = respond (CashOut S request) resp_OrderEntity"

definition grpc_IBFTTransfer :: "'w services \<Rightarrow> IBFTTransferRequest \<Rightarrow> ('w st, goerror + OrderProto option) comp" where
  "grpc_IBFTTransfer S request = respond (IBFTransfer S request) resp_OrderEntity"

definition grpc_FundWallet2Bank :: "'w services \<Rightarrow> FundWallet2BankRequest \<Rightarrow> ('w st, goerror + OrderProto option) comp" where
  "grpc_FundWallet2Bank S request = respond (FundWal2Bank S request) resp_OrderEntity"

definition grpc_FundWallet2Wallet :: "'w services \<Rightarrow> FundWallet2WalletRequest \<Rightarrow> ('w st, goerror + OrderProto option) comp" where
  "grpc_FundWallet2Wallet S request = respond (FundWal2Wal S request) resp_OrderEntity"

definition grpc_TransferWallet :: "'w services \<Rightarrow> OrderRequest \<Rightarrow> ('w st, goerror + OrderProto option) comp" where
  "grpc_TransferWallet S request = respond_done (TransferGpayWallet S request) resp_OrderEntity"

text \<open>The application does not get the response of the merchant operations to fill in: it stays as \<open>new\<close> made it.\<close>

definition AmountWallet :: string where
  "AmountWallet = ''amount_wallet''"

definition grpc_DepositMerchant :: "'w services \<Rightarrow> DepositMerchantRequest \<Rightarrow> ('w st, goerror + OrderProto option) comp" where
  "grpc_DepositMerchant S request =
     (if \<not> IsStringSliceContains [AmountWallet, AmountCollectionPay] (dmr_BankAccountType request)
      then refuse ''Bank account type is invalid''
      else respond (DepositMerchant S request) (\<lambda>_. None))"

definition AmountFee :: string where
  "AmountFee = ''amount_fee''"

definition AmountPaymentGateway :: string where
  "AmountPaymentGateway = ''amount_payment_gateway''"

definition grpc_WithrawMerchant :: "'w services \<Rightarrow> WithrawMerchantRequest \<Rightarrow> ('w st, goerror + OrderProto option) comp" where
  "grpc_WithrawMerchant S request =
     (if \<not> IsStringSliceContains [AmountWallet, AmountPaymentGateway, AmountCollectionPay, AmountFee] (wmr_BankAccountType request)
      then refuse ''Bank account type is invalid''
      else respond (WithdrawMerchant S request) (\<lambda>_. None))"

subsection \<open>Cards and links\<close>

definition grpc_UpdateCreditPayment ::
    "'w services \<Rightarrow> UpdateCreditPaymentRequest \<Rightarrow> ('w st, goerror + OrderProto option) comp" where
  "grpc_UpdateCreditPayment S request =
     (if uc_OrderId request = [] then refuse ''OrderId is required''
      else respond (UpdateCreditPaymentOrder S request) resp_OrderEntity)"

record ProcessCreditPaymentResponse =
  pcr_OrderId :: string
  pcr_ExpiredAt :: "gotime option"
  pcr_AcsUrl :: string
  pcr_PaReq :: string
  pcr_Md :: string
  pcr_TermUrl :: string

definition grpc_ProcessCreditPayment ::
    "'w services \<Rightarrow> ProcessCreditPaymentRequest \<Rightarrow> ('w st, goerror + ProcessCreditPaymentResponse) comp" where
  "grpc_ProcessCreditPayment S request =
     (if pc_OrderId request = [] then refuse ''OrderId is required''
      else if length (pc_CardNumber request) < 6 then refuse ''The khong hop le''
      else respond (ProcessCreditPayment S request) (\<lambda>s. \<lparr>pcr_OrderId = resp_OrderId s, pcr_ExpiredAt = resp_ExpiredAt s,
             pcr_AcsUrl = resp_Url s, pcr_PaReq = resp_PaReq s, pcr_Md = resp_Md s, pcr_TermUrl = resp_TermUrl s\<rparr>))"

definition grpc_PayInternationalCard ::
    "'w services \<Rightarrow> bool \<Rightarrow> PayInternationalCardRequest \<Rightarrow> ('w st, goerror + (string \<times> string) option) comp" where
  "grpc_PayInternationalCard S binFirst request = respond_value (PayInternationalCard S binFirst request)"

definition grpc_Link :: "'w services \<Rightarrow> LinkRequest \<Rightarrow> ('w st, goerror + (string \<times> string) option) comp" where
  "grpc_Link S request = respond_value (LinkBank S request)"

definition grpc_InitInternationalLinkBank :: "'w services \<Rightarrow> LinkRequest \<Rightarrow> ('w st, goerror + (string \<times> string) option) comp" where
  "grpc_InitInternationalLinkBank S request = respond_value (LinkBank S request)"

definition grpc_VerifyOTPLinkBank :: "'w services \<Rightarrow> string \<Rightarrow> int64 \<Rightarrow> string \<Rightarrow> ('w st, goerror + unit) comp" where
  "grpc_VerifyOTPLinkBank S gpayBankCode linkId otp = respond_done (VerifyOTPLinkBank S gpayBankCode linkId otp) (\<lambda>_. ())"

definition grpc_CheckByPassOTP ::
    "'w services \<Rightarrow> int64 \<Rightarrow> string \<Rightarrow> string \<Rightarrow> string \<Rightarrow> ('w st, goerror + bool \<times> string) comp" where
  "grpc_CheckByPassOTP S Amount ApiName GpayBankCode UserId = respond_value (CheckByPassOTP S Amount ApiName GpayBankCode UserId)"

definition grpc_NapasLink ::
    "'w services \<Rightarrow> (string \<Rightarrow> int64) \<Rightarrow> NapasInitLinkRequest \<Rightarrow> ('w st, goerror + string) comp" where
  "grpc_NapasLink S toInt64 request = respond_done (NapasInitLink S toInt64 request) resp_Data"

definition grpc_NapasInitCashIn :: "'w services \<Rightarrow> NapasInitCashInRequest \<Rightarrow> ('w st, goerror + string \<times> string) comp" where
  "grpc_NapasInitCashIn S request = respond_done (NapasInitCashIn S request) (\<lambda>s. (resp_Data s, resp_Url s))"

definition grpc_BankUnlink :: "'w services \<Rightarrow> int64 \<Rightarrow> ('w st, goerror + string) comp" where
  "grpc_BankUnlink S linkId = respond_done (app_UnLink S linkId) (\<lambda>_. ''Success'')"

definition grpc_BankLinkList :: "'w services \<Rightarrow> string \<Rightarrow> ('w st, goerror + BankLinkDetail list) comp" where
  "grpc_BankLinkList S gpayUserID = app_LinkList S gpayUserID"

definition grpc_BankLinkInfo :: "('w st, goerror + ListLinked) comp" where
  "grpc_BankLinkInfo = panic ''implement me''"

definition grpc_Lixi :: "LixiRequest \<Rightarrow> ('w st, goerror + OrderProto option) comp" where
  "grpc_Lixi request = panic ''implement me''"

subsection \<open>Refunds\<close>

definition grpc_InitRefundTransaction :: "'w services \<Rightarrow> RefundTransactionReq \<Rightarrow> ('w st, goerror + OrderProto option) comp" where
  "grpc_InitRefundTransaction S req = respond_stored (InitRefundTrans S req)"

definition grpc_RefundTransaction :: "'w services \<Rightarrow> RefundTransactionReq \<Rightarrow> ('w st, goerror + OrderProto option) comp" where
  "grpc_RefundTransaction S req =
     (if sint (rr_Amount req) \<le> 0 then refuse ''So tien khong hop le''
      else respond_stored (InitRefundTrans S req))"

definition grpc_ConfirmRefundTransaction ::
    "'w services \<Rightarrow> ConfirmRefundTransactionReq \<Rightarrow> ('w st, goerror + OrderProto option) comp" where
  "grpc_ConfirmRefundTransaction S req = respond_stored (ConfirmRefundTrans S req)"

definition grpc_CancelRefundTransaction :: "'w services \<Rightarrow> string \<Rightarrow> string \<Rightarrow> string \<Rightarrow> ('w st, goerror + unit) comp" where
  "grpc_CancelRefundTransaction S refundId cancelReason confirmByAdmin =
     respond_done (CancelRefundTrans S refundId cancelReason confirmByAdmin) (\<lambda>_. ())"

subsection \<open>Virtual accounts\<close>

definition grpc_CreateVA :: "'w services \<Rightarrow> CreateVARequest \<Rightarrow> ('w st, goerror + DetailVA_message option) comp" where
  "grpc_CreateVA S request =
     (if crv_MerchantId request = [] then refuse ''MerchantId is required'' else respond_value (ActionCreateVA S request))"

definition grpc_UpdateVA :: "'w services \<Rightarrow> UpdateVARequest \<Rightarrow> ('w st, goerror + DetailVA_message option) comp" where
  "grpc_UpdateVA S request = respond_value (ActionUpdateVA S request)"

definition grpc_CloseVA :: "'w services \<Rightarrow> CloseVARequest \<Rightarrow> ('w st, goerror + DetailVA_message option) comp" where
  "grpc_CloseVA S request = respond_value (ActionCloseVA S request)"

definition grpc_ReOpenVA :: "'w services \<Rightarrow> ReOpenVARequest \<Rightarrow> ('w st, goerror + DetailVA_message option) comp" where
  "grpc_ReOpenVA S request = respond_value (ActionReOpenAccountVA S request)"

definition grpc_DetailVA :: "'w services \<Rightarrow> DetailVARequest \<Rightarrow> ('w st, goerror + DetailVA_message option) comp" where
  "grpc_DetailVA S request = respond_value (ActionGetDetailVA S request)"

subsection \<open>Questions\<close>

definition grpc_CheckBill :: "'w services \<Rightarrow> CheckBillRequest \<Rightarrow> ('w st, goerror + CheckBillResponse) comp" where
  "grpc_CheckBill S request = CheckBill S request"

definition grpc_IBFTInquiry :: "'w services \<Rightarrow> string \<Rightarrow> string \<Rightarrow> string \<Rightarrow> ('w st, goerror + string) comp" where
  "grpc_IBFTInquiry S accountNo cardNo ibftCode = app_IBFTInquiry S accountNo cardNo ibftCode"

definition grpc_PGInitTrans :: "'w services \<Rightarrow> PGInitTransReq \<Rightarrow> ('w st, goerror + string) comp" where
  "grpc_PGInitTrans S i = app_PGInitTrans S i"

definition grpc_PGInitOrder :: "'w services \<Rightarrow> (string \<Rightarrow> string) \<Rightarrow> PGInitOrderReq \<Rightarrow> ('w st, goerror + string) comp" where
  "grpc_PGInitOrder S json_object i = app_PGInitOrder S json_object i"

definition grpc_BankRetrieveOrder ::
    "'w services \<Rightarrow> (string \<Rightarrow> int64) \<Rightarrow> string \<Rightarrow> string \<Rightarrow> ('w st, goerror + BankRetrieveOrderRes) comp" where
  "grpc_BankRetrieveOrder S toInt64 orderId code = BankRetrieveOrder S toInt64 orderId code"

definition grpc_GetBanks :: "'w services \<Rightarrow> (BankRes \<Rightarrow> 'b list) \<Rightarrow> ('w st, goerror + 'b list) comp" where
  "grpc_GetBanks S banks_of = app_GetBanks S banks_of"

definition grpc_CheckMerchantQuotaAndFee :: "'w services \<Rightarrow> MerchantFeeReq \<Rightarrow> ('w st, goerror + MerchantFeeRes) comp" where
  "grpc_CheckMerchantQuotaAndFee S i = CheckMerchantQuotaAndFee S i"

subsection \<open>What reaches the client\<close>

text \<open>A handler behind the interceptors does not panic, and has the effects it has without them.\<close>

lemma wp_serve:
  assumes "wp h (\<lambda>r. Q (map_sum RecoveryError (\<lambda>a. a) r)) (\<lambda>t. \<forall>p. Q (Inl (recovered p)) t) s"
  shows "wp (serve h) Q E s"
  using assms by (auto simp: wp_def serve_def split: prod.splits outcome.splits sum.splits)

lemma serve_Inr: "serve h s = (Ret (Inr r), t) \<Longrightarrow> h s = (Ret (Inr r), t)"
  by (auto simp: serve_def split: prod.splits outcome.splits sum.splits)

lemma serve_Inl:
  assumes "serve h s = (Ret (Inl e), t)"
  obtains e' where "h s = (Ret (Inl e'), t)" "e = RecoveryError e'" | p where "h s = (Panic p, t)" "e = recovered p"
  using assms by (auto simp: serve_def split: prod.splits outcome.splits sum.splits)

text \<open>What \<open>serve\<close> passes on when the handler refuses.\<close>

lemma serve_refuse: "h s = refuse m s \<Longrightarrow> serve h s = (Ret (Inl (StatusError 400 m)), s)"
  by (simp add: serve_def refuse_def ret_def RecoveryError_def)

lemma respond_wp:
  assumes "wp m (\<lambda>_. R) R s"
  shows "wp (respond m f) (\<lambda>_. R) R s"
  unfolding respond_def wp_bindc
  by (rule wp_mono [OF assms]) (auto simp: wp_rules split: prod.split option.split)

text \<open>An answer stands for an operation that went well.\<close>

lemma respond_Inr:
  assumes "respond m f s = (Ret (Inr r), t)"
  obtains p where "m s = (Ret (p, None), t)" "r = f t"
  using assms by (auto simp: respond_def bindc_def split: prod.splits outcome.splits option.splits)

lemma respond_stored_Inr:
  assumes "respond_stored m s = (Ret (Inr r), t)"
  obtains d where "m s = (Ret (Some d, None), t)" "r = Some (ConvertToProto d)"
proof -
  from assms obtain p where p: "m s = (Ret (p, None), t)" "deref p t = (Ret (the p), t)" "r = Some (ConvertToProto (the p))"
    by (auto simp: respond_stored_def bindc_def deref_def split: prod.splits outcome.splits option.splits)
  then show thesis by (cases p) (auto intro: that)
qed

text \<open>
  No call of a client ends in a panic of the server.  What a failing call answers is a gRPC status, and
  its code is 400 unless the application returned an error of the micro framework, whose code and detail it then has.
\<close>

theorem grpc_errors_coded:
  "snd (serve h s) = snd (h s) \<and> (case fst (serve h s) of
     Panic _ \<Rightarrow> False
   | Ret (Inr r) \<Rightarrow> fst (h s) = Ret (Inr r)
   | Ret (Inl e) \<Rightarrow> (\<exists>m. e = StatusError 400 m) \<or> (\<exists>text code detail.
       fst (h s) = Ret (Inl (MicroError text code detail)) \<and> e = StatusError (nat (code mod 2 ^ 32)) (Sprintf detail)))"
  by (auto simp: serve_def recovered_def RecoveryError_def split: prod.splits outcome.splits sum.splits goerror.splits)

text \<open>The status of an order that exists already, code 33, does not reach the client as such.\<close>

lemma status_code_lost:
  "RecoveryError (StatusError 33 ''Order already exits'') = StatusError 400 ''rpc error: code = Code(33) desc = Order already exits''"
  by code_simp

text \<open>A detail that has a percent sign is taken for a format.\<close>

lemma detail_garbled: "RecoveryError (MicroError e 400 ''Giam 10% hom nay'') = StatusError 400 ''Giam 10%!h(MISSING)om nay''"
  by code_simp

subsection \<open>Orders of the clients\<close>

definition priced :: "OrderEntity \<Rightarrow> OrderEntity" where
  "priced d = (if oe_OrderType d = TRANSTYPE_PG_PAY_BY_PAY_INTERNATIONAL_CARD \<and> oe_MerchantCategoryCode d = []
     then d\<lparr>oe_MerchantCategoryType := ''2''\<rparr> else d)"

lemma grpc_InitOrder_stored:
  assumes "serve (grpc_InitOrder S (Some r)) s = (Ret (Inr p), t)"
  shows "0 \<le> sint (rq_ExpireTime r) \<and> (\<exists>now oid es d. d = initial_order (priced (grpc_InitOrder_order r)) now oid \<and>
     p = Some (ConvertToProto d) \<and> trace t = trace s @ es \<and> key es = [EvInsertOrder d None])"
proof -
  have run: "grpc_InitOrder S (Some r) s = (Ret (Inr p), t)" using assms by (rule serve_Inr)
  then have pos: "0 \<le> sint (rq_ExpireTime r)"
    by (auto simp: grpc_InitOrder_def refuse_def split: if_splits)
  with run have "respond_stored (InitOrder S (priced (grpc_InitOrder_order r))) s = (Ret (Inr p), t)"
    by (auto simp: grpc_InitOrder_def InitOrderAndTrans_def priced_def split: if_splits)
  then obtain d where d: "InitOrder S (priced (grpc_InitOrder_order r)) s = (Ret (Some d, None), t)" "p = Some (ConvertToProto d)"
    by (rule respond_stored_Inr)
  from does_run [OF InitOrder_does d(1)] pos d(2) show ?thesis
    by (auto simp: order_created_def split: if_splits) blast
qed

text \<open>
  C21: an order that a client opens is stored once, with the fields of the request, as pending, and what
  the client gets back is the stored order.  A request whose time to live is negative is refused and nothing is stored.
\<close>

theorem grpc_InitOrder_stores:
  assumes "serve (grpc_InitOrder S (Some r)) s = (answer, t)"
  shows "if sint (rq_ExpireTime r) < 0 then answer = Ret (Inl (StatusError 400 ''Invalid expire time'')) \<and> t = s
    else (\<exists>e. answer = Ret (Inl e)) \<or> (\<exists>now oid es d. d = initial_order (priced (grpc_InitOrder_order r)) now oid \<and>
      answer = Ret (Inr (Some (ConvertToProto d))) \<and> trace t = trace s @ es \<and> key es = [EvInsertOrder d None])"
proof (cases "sint (rq_ExpireTime r) < 0")
  case True
  then have "serve (grpc_InitOrder S (Some r)) s = (Ret (Inl (StatusError 400 ''Invalid expire time'')), s)"
    by (intro serve_refuse) (simp add: grpc_InitOrder_def)
  with True assms show ?thesis by simp
next
  case False
  obtain x where x: "answer = Ret x"
    using assms by (auto simp: serve_def split: prod.splits outcome.splits sum.splits)
  show ?thesis
  proof (cases x)
    case (Inr p)
    with grpc_InitOrder_stored [of S r s p t] assms x False show ?thesis by fastforce
  qed (simp add: x False)
qed

text \<open>A long time to live that stays within 64 bits and one that is refused.\<close>

definition example_long :: OrderRequest where
  "example_long = example_request\<lparr>rq_ExpireTime := 3600000\<rparr>"

lemma example_opens: "\<exists>d t. InitOrder example_services (priced (grpc_InitOrder_order example_long)) s = (Ret (Some d, None), t)"
proof -
  have "fine (InitOrder example_services (priced (grpc_InitOrder_order example_long))) (\<lambda>(p, err). err = None \<and> p \<noteq> None)"
    by (rule InitOrder_fine [OF cooperativeD(1) [OF example_cooperative]])
      (simp add: priced_def grpc_InitOrder_order_def OrderEntity_zero_def)
  from fine_run [OF this, of s] show ?thesis by auto
qed

theorem grpc_InitOrder_stores_witness:
  "\<exists>now oid es d t. d = initial_order (priced (grpc_InitOrder_order example_long)) now oid \<and>
     serve (grpc_InitOrder example_services (Some example_long)) example_state = (Ret (Inr (Some (ConvertToProto d))), t) \<and>
     trace t = trace example_state @ es \<and> key es = [EvInsertOrder d None]"
proof -
  obtain d t where open': "InitOrder example_services (priced (grpc_InitOrder_order example_long)) example_state = (Ret (Some d, None), t)"
    using example_opens by blast
  then have run: "serve (grpc_InitOrder example_services (Some example_long)) example_state = (Ret (Inr (Some (ConvertToProto d))), t)"
    by (simp add: serve_def grpc_InitOrder_def example_long_def example_request_def InitOrderAndTrans_def priced_def [symmetric]
        respond_stored_def bindc_def deref_def ret_def)
  have "\<not> sint (rq_ExpireTime example_long) < 0" by (simp add: example_long_def)
  with grpc_InitOrder_stores [OF run] run show ?thesis by auto
qed

subsection \<open>Payments of the clients\<close>

lemma grpc_guarded:
  assumes "wp m (\<lambda>_. only_after delivers bank_accepted s) (only_after delivers bank_accepted s) s"
  shows "wp (serve (respond m f)) (\<lambda>_. only_after delivers bank_accepted s) (\<lambda>_. False) s"
  by (rule wp_serve, rule wp_mono [OF respond_wp [OF assms]]) auto

text \<open>
  C22: \<open>TopUp\<close>, \<open>BuyCard\<close>, \<open>PayBill\<close>, \<open>PaymentMerchant\<close> and \<open>ConfirmOrder\<close> are the calls that are handed to the payments by token
  when the request names a linked ATM card as its source of funds.  Such a call ends without a panic, whatever the
  services answer, and along it nothing is topped up, sold, paid for or confirmed before the bank has given
  an answer that says success.  (\<open>PayInternationalCard\<close> is about international cards and does not look at the source of funds, and
  \<open>PayBillZota\<close> pays out of the wallet whatever it says.)
\<close>

theorem grpc_linked_cards_guarded:
  assumes "rq_SourceOfFund (tor_OrderRequest topup) = SOURCE_OF_FUND_BANK_ATM"
    and "rq_SourceOfFund (bcq_OrderRequest cards) = SOURCE_OF_FUND_BANK_ATM"
    and "rq_SourceOfFund (pbq_OrderRequest bill) = SOURCE_OF_FUND_BANK_ATM"
    and "rq_SourceOfFund (pmr_OrderRequest qr) = SOURCE_OF_FUND_BANK_ATM"
    and "cfr_OrderRequest order = Some r" "rq_SourceOfFund r = SOURCE_OF_FUND_BANK_ATM"
  shows "wp (serve (grpc_TopUp S topup token)) (\<lambda>_. only_after delivers bank_accepted s) (\<lambda>_. False) s \<and>
    wp (serve (grpc_BuyCard S cards token)) (\<lambda>_. only_after delivers bank_accepted s) (\<lambda>_. False) s \<and>
    wp (serve (grpc_PayBill S bill token)) (\<lambda>_. only_after delivers bank_accepted s) (\<lambda>_. False) s \<and>
    wp (serve (grpc_PaymentMerchant S qr token)) (\<lambda>_. only_after delivers bank_accepted s) (\<lambda>_. False) s \<and>
    wp (serve (grpc_ConfirmOrder S order token)) (\<lambda>_. only_after delivers bank_accepted s) (\<lambda>_. False) s"
proof (intro conjI)
  show "wp (serve (grpc_ConfirmOrder S order token)) (\<lambda>_. only_after delivers bank_accepted s) (\<lambda>_. False) s"
  proof (cases "cfr_OrderId order = []")
    case True
    then show ?thesis by (simp add: wp_def serve_refuse [where m = "''OrderId is required''"] grpc_ConfirmOrder_def only_after_refl)
  next
    case False
    then show ?thesis using assms(5,6) by (simp add: grpc_ConfirmOrder_def grpc_guarded ConfirmOrderWithToken_guarded)
  qed
qed (use assms(1-4) in \<open>simp_all add: grpc_TopUp_def grpc_BuyCard_def grpc_PayBill_def grpc_PaymentMerchant_def grpc_guarded
  TopUpWithToken_guarded BuyCardWithToken_guarded PaidBillWithToken_guarded StaticQRWithToken_guarded\<close>)

definition example_by_card :: OrderRequest where
  "example_by_card = example_request\<lparr>rq_SourceOfFund := SOURCE_OF_FUND_BANK_ATM\<rparr>"

definition guarded_call :: "(nat st, goerror + 'b) comp \<Rightarrow> bool" where
  "guarded_call m \<longleftrightarrow> (case m example_state of (Ret _, t) \<Rightarrow> only_after delivers bank_accepted example_state t | (Panic _, _) \<Rightarrow> False)"

lemma guarded_callI: "wp m (\<lambda>_. only_after delivers bank_accepted example_state) (\<lambda>_. False) example_state \<Longrightarrow> guarded_call m"
  by (auto simp: guarded_call_def wp_def split: prod.splits outcome.splits)

theorem grpc_linked_cards_guarded_witness:
  "guarded_call (serve (grpc_TopUp example_services (example_topup\<lparr>tor_OrderRequest := example_by_card\<rparr>) (Some (example_token [])))) \<and>
   guarded_call (serve (grpc_BuyCard example_services (example_buycard\<lparr>bcq_OrderRequest := example_by_card\<rparr>) (Some (example_token [])))) \<and>
   guarded_call (serve (grpc_PayBill example_services (example_paybill\<lparr>pbq_OrderRequest := example_by_card\<rparr>) (Some (example_token [])))) \<and>
   guarded_call (serve (grpc_PaymentMerchant example_services \<lparr>pmr_OrderRequest = example_by_card, pmr_Message = []\<rparr> (Some (example_token [])))) \<and>
   guarded_call (serve (grpc_ConfirmOrder example_services \<lparr>cfr_OrderId = ''O1'', cfr_OrderRequest = Some example_by_card\<rparr> (Some (example_token []))))"
proof -
  have card: "rq_SourceOfFund example_by_card = SOURCE_OF_FUND_BANK_ATM" by (simp add: example_by_card_def)
  show ?thesis
    using grpc_linked_cards_guarded [where topup = "example_topup\<lparr>tor_OrderRequest := example_by_card\<rparr>" and
      cards = "example_buycard\<lparr>bcq_OrderRequest := example_by_card\<rparr>" and
      bill = "example_paybill\<lparr>pbq_OrderRequest := example_by_card\<rparr>" and
      qr = "\<lparr>pmr_OrderRequest = example_by_card, pmr_Message = []\<rparr>" and
      order = "\<lparr>cfr_OrderId = ''O1'', cfr_OrderRequest = Some example_by_card\<rparr>" and r = example_by_card and S = example_services
      and token = "Some (example_token [])" and s = example_state]
    by (intro conjI guarded_callI) (simp_all add: card)
qed

subsection \<open>Card numbers\<close>

text \<open>
  C24: the application reads the first six digits of a card number and panics on a shorter one; the
  handler never calls it with such a number, it refuses the request before anything has happened.
\<close>

theorem grpc_card_number_checked:
  assumes "length (pc_CardNumber request) < 6"
  shows "(\<exists>p t. ProcessCreditPayment S request s = (Panic p, t)) \<and>
    (\<exists>m. serve (grpc_ProcessCreditPayment S request) s = (Ret (Inl (StatusError 400 m)), s))"
proof
  show "\<exists>p t. ProcessCreditPayment S request s = (Panic p, t)"
    using assms by (simp add: ProcessCreditPayment_def check_bin_def card_prefix_def bindc_def)
  show "\<exists>m. serve (grpc_ProcessCreditPayment S request) s = (Ret (Inl (StatusError 400 m)), s)"
    using assms serve_refuse [of "grpc_ProcessCreditPayment S request" s] by (auto simp: grpc_ProcessCreditPayment_def)
qed

subsection \<open>Amounts of refunds\<close>

fun refund_of :: "int64 \<Rightarrow> event \<Rightarrow> bool" where
  "refund_of a (EvRefund q _) = (rf_Amount q = a)"
| "refund_of a _ = False"

lemma refund_grows: "atmost (\<lambda>_. False) 0 (refund_finished S request t refundId bankId)"
proof -
  have bank: "atmost (\<lambda>_. False) 0 (ReFund S i a)" for i a
    by (rule atmost_does [OF ReFund_does]) simp
  have emit: "atmost (\<lambda>_. False) 0 (emit e)" for e :: event
    by (simp add: atmost_def adds_def wp_rules)
  show ?thesis
    unfolding refund_finished_def refund_merchant_def refund_now_def refund_bank_def
      refund_confirm_def refund_processing_def refund_configured_def refund_auto_def cancel_refund_def sendRefundMqttNotify_def
      GetRefundConfig_def Let_def
    by (intro atmost_rules bank emit) simp_all
qed

text \<open>Every refund that reaches the transaction service is asked for with the amount of the request.\<close>

lemma refund_asks:
  assumes "order_dto u = Some d" and "trace u = trace s @ es"
  shows "wp (checkTransactionCondition S req t) (\<lambda>_. meets (refund_of (rr_Amount req)) s) (meets (refund_of (rr_Amount req)) s) u"
proof -
  have emit: "atmost (\<lambda>_. False) 0 (emit e)" for e :: event
    by (simp add: atmost_def adds_def wp_rules)
  have asked: "meets (refund_of (rr_Amount req)) s (u\<lparr>world := w, trace := trace u @ [EvRefund (refund_request req d) x]\<rparr>)" for w x
    unfolding meets_def using assms(2)
    by (intro exI [of _ "es @ [EvRefund (refund_request req d) x]"] conjI bexI [of _ "EvRefund (refund_request req d) x"])
      (simp_all add: refund_request_def)
  show ?thesis
    unfolding checkTransactionCondition_def wp_bindc [of the_order] wp_bindc [of "act _ _"] wp_act wp_the_order
    using assms(1) by (auto intro!: meets_wp [OF _ asked] atmost_rules emit refund_grows simp: Let_def split: sum.split)
qed

lemma InitRefundTrans_asks:
  assumes "obliging S" and "\<And>w. \<exists>t. fst (ts_FindByID S (rr_SourceTransactionID req) w) = Inr t \<and> \<not> refund_by_api req t"
  shows "wp (InitRefundTrans S req) (\<lambda>_. meets (refund_of (rr_Amount req)) s) (meets (refund_of (rr_Amount req)) s) s"
  unfolding InitRefundTrans_def wp_bindc [of "InitOrder S _"]
proof (rule fine_wp [OF InitOrder_fine [OF assms(1)]], goal_cases)
  case 1
  then show ?case by (simp add: InitRefundTrans_order_def OrderEntity_zero_def)
next
  case (2 r w es)
  then obtain d where r: "r = (Some d, None)" by auto
  let ?u = "(appended s w es)\<lparr>order_dto := Some d\<rparr>"
  obtain tr w' where tr: "ts_FindByID S (rr_SourceTransactionID req) w = (Inr tr, w')" "\<not> refund_by_api req tr"
    using assms(2) by (metis prod.collapse)
  have "wp (checkTransactionCondition S req tr) (\<lambda>_. meets (refund_of (rr_Amount req)) s) (meets (refund_of (rr_Amount req)) s) (?u\<lparr>world := w'\<rparr>)"
    by (rule refund_asks) (simp_all add: appended_def)
  with tr show ?case
    by (simp add: r set_order_def wp_rules appended_def)
qed


definition negative_refund :: RefundTransactionReq where
  "negative_refund = example_refund\<lparr>rr_Amount := - 5\<rparr>"


text \<open>A card number of five digits.\<close>

theorem grpc_card_number_checked_witness:
  "\<exists>m. serve (grpc_ProcessCreditPayment example_services (example_card_payment\<lparr>pc_CardNumber := ''41111''\<rparr>)) example_state =
     (Ret (Inl (StatusError 400 m)), example_state)"
  using grpc_card_number_checked [of "example_card_payment\<lparr>pc_CardNumber := ''41111''\<rparr>" example_services example_state] by simp

end
