(* ===== verification/Saga_V2.thy ===== *)
theory Saga_V2
  imports Format Saga_Spec
begin

text \<open>
  The second saga library (\<open>utils/sagav2\<close>), which is driven by messages: \<open>WithStep\<close> starts two consumers for every step, one
  that executes it and one that compensates it, each waiting for one message on a topic of its own; what a consumer has
  done it announces with the message for the next consumer; \<open>Play\<close> sends the first message and waits for the message
  that the saga is complete.  Kafka, the pool and the timers are the steps of a relation: a message is delivered or lost,
  a timer may fire.  A panic in a step ends its consumer (the pool logs it) and sends nothing.
\<close>

subsection \<open>Messages and topics\<close>

datatype SagaState =
  LogTypeStartSaga | LogTypeSagaStepExec | LogTypeSagaAbort | LogTypeSagaStepCompensate | LogTypeSagaComplete

fun ToString :: "SagaState \<Rightarrow> string" where
  "ToString LogTypeStartSaga = ''LogTypeStartSaga''"
| "ToString LogTypeSagaStepExec = ''LogTypeSagaStepExec''"
| "ToString LogTypeSagaAbort = ''LogTypeSagaAbort''"
| "ToString LogTypeSagaStepCompensate = ''LogTypeSagaStepCompensate''"
| "ToString LogTypeSagaComplete = ''LogTypeSagaComplete''"

text \<open>The time stamps of a message and its unused field \<open>Data\<close> are left out.\<close>

record message2 =
  m_ExecutionID :: string
  m_State :: SagaState
  m_StepNumber :: int
  m_StepError :: string

definition topic :: "string \<Rightarrow> int \<Rightarrow> SagaState \<Rightarrow> string" where
  "topic eid n st = eid @ ''_'' @ sprint n @ ''_'' @ ToString st"

definition topic_of :: "message2 \<Rightarrow> string" where
  "topic_of l = topic (m_ExecutionID l) (m_StepNumber l) (m_State l)"

lemma ToString_inject [simp]: "ToString a = ToString b \<longleftrightarrow> a = b"
  by (cases a; cases b) simp_all

lemma nat_digits_are_digits: "c \<in> set (nat_digits n) \<Longrightarrow> is_digit c"
proof (induction n rule: nat_digits.induct)
  case (1 n)
  then show ?case by (auto simp: nat_digits.simps [of n] is_digit_char split: if_splits)
qed

lemma nat_digits_inject: "nat_digits m = nat_digits n \<longleftrightarrow> m = n"
  by (metis digits_value_nat_digits)

lemma not_digits [simp]: "\<not> is_digit (CHR ''-'')" "\<not> is_digit (CHR ''_'')"
  by (simp_all add: is_digit_def)

lemma sprint_no_underscore: "CHR ''_'' \<notin> set (sprint i)"
  using nat_digits_are_digits [of "CHR ''_''"] by (auto simp: sprint_def)

lemma sprint_inject [simp]: "sprint i = sprint j \<longleftrightarrow> i = j"
proof -
  have neg: "CHR ''-'' # s \<noteq> nat_digits n" for s n
    using nat_digits_are_digits [of "CHR ''-''" n] by (metis list.set_intros(1) not_digits(1))
  show ?thesis
    using neg [of "nat_digits (nat (- i))"] neg [of "nat_digits (nat (- j))"]
    by (auto simp: sprint_def nat_digits_inject split: if_splits dest: sym)
qed

text \<open>The consumers of one execution do not get each other's messages.\<close>

lemma topic_inject [simp]: "topic eid m a = topic eid n b \<longleftrightarrow> m = n \<and> a = b"
proof
  assume eq: "topic eid m a = topic eid n b"
  have cut: "takeWhile (\<lambda>c. c \<noteq> CHR ''_'') (sprint i @ ''_'' @ s) = sprint i" for i s
    using sprint_no_underscore [of i] by (subst takeWhile_append2) auto
  from eq have tails: "sprint m @ ''_'' @ ToString a = sprint n @ ''_'' @ ToString b" by (simp add: topic_def)
  from arg_cong [OF this, where f = "takeWhile (\<lambda>c. c \<noteq> CHR ''_'')"] have "m = n" unfolding cut by simp
  with tails ToString_inject show "m = n \<and> a = b" by simp
qed simp

subsection \<open>Consumers\<close>

record 's Step2 =
  Func2 :: "('s, goerror option) comp"
  CompensateFunc2 :: "('s, goerror option) comp"

text \<open>
  A saga that runs: the state its steps work on, the messages that have been delivered, the steps whose consumers for
  execution and for compensation still wait, and the result of \<open>Play\<close> once it has one.
\<close>

record 's saga2 =
  env2 :: 's
  messages :: "message2 list"
  execs :: "nat set"
  comps :: "nat set"
  result2 :: "goerror option option"

text \<open>A partition is consumed from its oldest message on.\<close>

definition inbox :: "string \<Rightarrow> message2 list \<Rightarrow> int \<Rightarrow> SagaState \<Rightarrow> message2 option" where
  "inbox eid ms n k = find (\<lambda>l. topic_of l = topic eid n k) ms"

definition exec_message :: "string \<Rightarrow> nat \<Rightarrow> nat \<Rightarrow> goerror option \<Rightarrow> message2" where
  "exec_message eid n i err = (case err of
     Some e \<Rightarrow> \<lparr>m_ExecutionID = eid, m_State = LogTypeSagaStepCompensate, m_StepNumber = int i, m_StepError = Error e\<rparr>
   | None \<Rightarrow>
       if Suc i = n
       then \<lparr>m_ExecutionID = eid, m_State = LogTypeSagaComplete, m_StepNumber = int n, m_StepError = []\<rparr>
       else \<lparr>m_ExecutionID = eid, m_State = LogTypeSagaStepExec, m_StepNumber = int i + 1, m_StepError = []\<rparr>)"

definition comp_messages :: "string \<Rightarrow> nat \<Rightarrow> nat \<Rightarrow> string \<Rightarrow> goerror option \<Rightarrow> message2 list" where
  "comp_messages eid n i stepError err =
     (if err = None
      then [\<lparr>m_ExecutionID = eid, m_State = LogTypeSagaStepCompensate, m_StepNumber = int i - 1, m_StepError = stepError\<rparr>]
      else []) @
     (if i = 0
      then [\<lparr>m_ExecutionID = eid, m_State = LogTypeSagaComplete, m_StepNumber = int n, m_StepError = stepError\<rparr>]
      else [])"

definition exec_consumer :: "'s Step2 list \<Rightarrow> string \<Rightarrow> nat \<Rightarrow> 's \<Rightarrow> message2 list \<times> 's" where
  "exec_consumer sts eid i s = (case Func2 (sts ! i) s of
     (Ret err, t) \<Rightarrow> ([exec_message eid (length sts) i err], t)
   | (Panic _, t) \<Rightarrow> ([], t))"

definition comp_consumer :: "'s Step2 list \<Rightarrow> string \<Rightarrow> nat \<Rightarrow> message2 \<Rightarrow> 's \<Rightarrow> message2 list \<times> 's" where
  "comp_consumer sts eid i detail s = (case CompensateFunc2 (sts ! i) s of
     (Ret err, t) \<Rightarrow> (comp_messages eid (length sts) i (m_StepError detail) err, t)
   | (Panic _, t) \<Rightarrow> ([], t))"

text \<open>What \<open>Play\<close> reports for a complete saga, and when its timer fires; the text of the error is used as a format.\<close>

definition reported :: "string \<Rightarrow> goerror option" where
  "reported stepError = (if stepError \<noteq> [] then Some (ErrorString (Sprintf stepError)) else None)"

definition timed_out :: goerror where
  "timed_out = ErrorString ''Time out saga ''"

text \<open>
  The steps.  With \<open>faults\<close>, messages may be lost (\<open>appendLog\<close> drops the error of sending), timers may fire, a consumer may
  fail to start, which has the effect of its timer, and \<open>Play\<close> may fail to subscribe.
\<close>

inductive saga2_step :: "bool \<Rightarrow> 's Step2 list \<Rightarrow> string \<Rightarrow> 's saga2 \<Rightarrow> 's saga2 \<Rightarrow> bool" for faults sts eid where
  exec: "i \<in> execs c \<Longrightarrow> inbox eid (messages c) (int i) LogTypeSagaStepExec = Some l \<Longrightarrow>
    exec_consumer sts eid i (env2 c) = (ms, t) \<Longrightarrow> ms' = ms \<or> faults \<and> ms' \<in> set (subseqs ms) \<Longrightarrow>
    saga2_step faults sts eid c (c\<lparr>env2 := t, messages := messages c @ ms', execs := execs c - {i}\<rparr>)"
| comp: "i \<in> comps c \<Longrightarrow> inbox eid (messages c) (int i) LogTypeSagaStepCompensate = Some l \<Longrightarrow>
    comp_consumer sts eid i l (env2 c) = (ms, t) \<Longrightarrow> ms' = ms \<or> faults \<and> ms' \<in> set (subseqs ms) \<Longrightarrow>
    saga2_step faults sts eid c (c\<lparr>env2 := t, messages := messages c @ ms', comps := comps c - {i}\<rparr>)"
| complete: "result2 c = None \<Longrightarrow> inbox eid (messages c) (int (length sts)) LogTypeSagaComplete = Some l \<Longrightarrow>
    saga2_step faults sts eid c (c\<lparr>result2 := Some (reported (m_StepError l))\<rparr>)"
| exec_timer: "faults \<Longrightarrow> i \<in> execs c \<Longrightarrow> saga2_step faults sts eid c (c\<lparr>execs := execs c - {i}\<rparr>)"
| comp_timer: "faults \<Longrightarrow> i \<in> comps c \<Longrightarrow> saga2_step faults sts eid c (c\<lparr>comps := comps c - {i}\<rparr>)"
| play_timer: "faults \<Longrightarrow> result2 c = None \<Longrightarrow> saga2_step faults sts eid c (c\<lparr>result2 := Some (Some timed_out)\<rparr>)"
| play_refused: "faults \<Longrightarrow> result2 c = None \<Longrightarrow> saga2_step faults sts eid c (c\<lparr>result2 := Some (Some e)\<rparr>)"

text \<open>\<open>WithStep\<close> for every step, then the first message of \<open>Play\<close>; nothing has been sent under this execution id before.\<close>

definition saga2_start :: "'s Step2 list \<Rightarrow> string \<Rightarrow> 's \<Rightarrow> 's saga2" where
  "saga2_start sts eid s = \<lparr>env2 = s,
     messages = [\<lparr>m_ExecutionID = eid, m_State = LogTypeSagaStepExec, m_StepNumber = 0, m_StepError = []\<rparr>],
     execs = {..< length sts}, comps = {..< length sts}, result2 = None\<rparr>"

subsection \<open>Every run ends\<close>

definition waiting :: "'s saga2 \<Rightarrow> nat" where
  "waiting c = card (execs c) + card (comps c) + (if result2 c = None then 1 else 0)"

lemma saga2_step_waiting:
  assumes "saga2_step faults sts eid c c'" and "finite (execs c)" "finite (comps c)"
  shows "waiting c' < waiting c \<and> finite (execs c') \<and> finite (comps c')"
  using assms
proof (induction rule: saga2_step.induct)
  case (exec i c l ms t ms')
  then show ?case using card_Suc_Diff1 [of "execs c" i] by (auto simp: waiting_def)
next
  case (comp i c l ms t ms')
  then show ?case using card_Suc_Diff1 [of "comps c" i] by (auto simp: waiting_def)
next
  case (exec_timer i c)
  then show ?case using card_Suc_Diff1 [of "execs c" i] by (auto simp: waiting_def)
next
  case (comp_timer i c)
  then show ?case using card_Suc_Diff1 [of "comps c" i] by (auto simp: waiting_def)
qed (auto simp: waiting_def)

lemma saga2_run_bounded:
  "(saga2_step faults sts eid ^^ k) c c' \<Longrightarrow> finite (execs c) \<Longrightarrow> finite (comps c) \<Longrightarrow> k + waiting c' \<le> waiting c"
proof (induction k arbitrary: c)
  case (Suc k)
  from Suc.prems(1) obtain d where d: "saga2_step faults sts eid c d" "(saga2_step faults sts eid ^^ k) d c'"
    by (metis relpowp_Suc_D2)
  from saga2_step_waiting [OF d(1) Suc.prems(2,3)] Suc.IH [OF d(2)] show ?case by linarith
qed simp

subsection \<open>What a run without faults does\<close>

text \<open>
  The same saga as a sequential program: steps in order; after the first error the compensations from the failing step down,
  each only after the one before it has succeeded.  The compensation of the first step completes the saga even when it fails.
  A saga that is not completed ends with the timer of \<open>Play\<close>, and so does one without steps.
\<close>

fun undo2 :: "'s Step2 list \<Rightarrow> 's \<Rightarrow> bool \<times> 's" where
  "undo2 [] s = (True, s)"
| "undo2 (st # sts) s = (case CompensateFunc2 st s of
     (Ret err, t) \<Rightarrow> if sts = [] then (True, t) else if err = None then undo2 sts t else (False, t)
   | (Panic _, t) \<Rightarrow> (False, t))"

definition settled2 :: "string \<Rightarrow> bool \<times> 's \<Rightarrow> goerror option \<times> 's" where
  "settled2 err p = (if fst p then reported err else Some timed_out, snd p)"

fun run2 :: "'s Step2 list \<Rightarrow> 's Step2 list \<Rightarrow> 's \<Rightarrow> goerror option \<times> 's" where
  "run2 [] ds s = (None, s)"
| "run2 (st # sts) ds s = (case Func2 st s of
     (Ret None, t) \<Rightarrow> run2 sts (st # ds) t
   | (Ret (Some e), t) \<Rightarrow> settled2 (Error e) (undo2 (st # ds) t)
   | (Panic _, t) \<Rightarrow> (Some timed_out, t))"

definition play2 :: "'s Step2 list \<Rightarrow> 's \<Rightarrow> goerror option \<times> 's" where
  "play2 sts s = (if sts = [] then (Some timed_out, s) else run2 sts [] s)"

text \<open>No consumer that waits has a message, except those of \<open>E\<close> and \<open>C\<close>.\<close>

definition idle :: "string \<Rightarrow> nat set \<Rightarrow> nat set \<Rightarrow> 's saga2 \<Rightarrow> bool" where
  "idle eid E C c \<longleftrightarrow> (\<forall>j \<in> execs c - E. inbox eid (messages c) (int j) LogTypeSagaStepExec = None) \<and>
     (\<forall>j \<in> comps c - C. inbox eid (messages c) (int j) LogTypeSagaStepCompensate = None)"

text \<open>Where a run without faults can be, and what it will come to.\<close>

inductive phase2 :: "'s Step2 list \<Rightarrow> string \<Rightarrow> 's saga2 \<Rightarrow> goerror option \<times> 's \<Rightarrow> bool" for sts eid where
  executing: "i < length sts \<Longrightarrow> execs c = {i..< length sts} \<Longrightarrow> comps c = {..< length sts} \<Longrightarrow> result2 c = None \<Longrightarrow>
    idle eid {i} {} c \<Longrightarrow> inbox eid (messages c) (int i) LogTypeSagaStepExec \<noteq> None \<Longrightarrow>
    inbox eid (messages c) (int (length sts)) LogTypeSagaComplete = None \<Longrightarrow>
    phase2 sts eid c (run2 (drop i sts) (rev (take i sts)) (env2 c))"
| undoing: "i < length sts \<Longrightarrow> {..i} \<subseteq> comps c \<Longrightarrow> result2 c = None \<Longrightarrow>
    idle eid {} {i} c \<Longrightarrow> inbox eid (messages c) (int i) LogTypeSagaStepCompensate = Some l \<Longrightarrow>
    inbox eid (messages c) (int (length sts)) LogTypeSagaComplete = None \<Longrightarrow>
    phase2 sts eid c (settled2 (m_StepError l) (undo2 (rev (take (Suc i) sts)) (env2 c)))"
| completed: "result2 c = None \<or> result2 c = Some (reported (m_StepError l)) \<Longrightarrow>
    idle eid {} {} c \<Longrightarrow> inbox eid (messages c) (int (length sts)) LogTypeSagaComplete = Some l \<Longrightarrow>
    phase2 sts eid c (reported (m_StepError l), env2 c)"
| stuck: "result2 c = None \<Longrightarrow> idle eid {} {} c \<Longrightarrow> inbox eid (messages c) (int (length sts)) LogTypeSagaComplete = None \<Longrightarrow>
    phase2 sts eid c (Some timed_out, env2 c)"

lemma inbox_simps [simp]:
  "inbox eid [] n k = None"
  "inbox eid (ms @ ns) n k = (case inbox eid ms n k of None \<Rightarrow> inbox eid ns n k | Some l \<Rightarrow> Some l)"
  "inbox eid (\<lparr>m_ExecutionID = eid, m_State = k', m_StepNumber = n', m_StepError = e\<rparr> # ms) n k =
     (if n' = n \<and> k' = k then Some \<lparr>m_ExecutionID = eid, m_State = k', m_StepNumber = n', m_StepError = e\<rparr> else inbox eid ms n k)"
proof -
  show "inbox eid (ms @ ns) n k = (case inbox eid ms n k of None \<Rightarrow> inbox eid ns n k | Some l \<Rightarrow> Some l)"
    by (induction ms) (simp_all add: inbox_def)
qed (simp_all add: inbox_def topic_of_def)

lemma idle_exec: "idle eid E C c \<Longrightarrow> j \<in> execs c \<Longrightarrow> inbox eid (messages c) (int j) LogTypeSagaStepExec = Some l \<Longrightarrow> j \<in> E"
  by (force simp: idle_def)

lemma idle_comp: "idle eid E C c \<Longrightarrow> j \<in> comps c \<Longrightarrow> inbox eid (messages c) (int j) LogTypeSagaStepCompensate = Some l \<Longrightarrow> j \<in> C"
  by (force simp: idle_def)

lemma rev_take_Suc: "i < length xs \<Longrightarrow> rev (take (Suc i) xs) = xs ! i # rev (take i xs)"
  by (simp add: take_Suc_conv_app_nth)

lemma phase2_start:
  "phase2 sts eid (saga2_start sts eid s) (play2 sts s)"
proof (cases "sts = []")
  case True
  then show ?thesis
    using stuck [of "saga2_start sts eid s" eid sts] by (simp add: saga2_start_def play2_def idle_def)
next
  case False
  then show ?thesis
    using executing [of 0 sts "saga2_start sts eid s" eid] by (simp add: saga2_start_def play2_def idle_def lessThan_atLeast0)
qed

lemma executing_step:
  assumes "i < length sts" "execs c = {i..< length sts}" "comps c = {..< length sts}" "result2 c = None"
    "idle eid {i} {} c" "inbox eid (messages c) (int (length sts)) LogTypeSagaComplete = None"
    and "exec_consumer sts eid i (env2 c) = (ms, t)"
  shows "phase2 sts eid (c\<lparr>env2 := t, messages := messages c @ ms, execs := execs c - {i}\<rparr>)
    (run2 (drop i sts) (rev (take i sts)) (env2 c))"
    (is "phase2 sts eid ?c _")
proof -
  obtain r u where f: "Func2 (sts ! i) (env2 c) = (r, u)" by (cases "Func2 (sts ! i) (env2 c)")
  have drop: "drop i sts = sts ! i # drop (Suc i) sts" using assms(1) by (rule Cons_nth_drop_Suc [symmetric])
  have rest: "{i..< length sts} - {i} = {Suc i..< length sts}" using assms(1) by auto
  consider (panic) p where "r = Panic p" | (ok) "r = Ret None" | (err) e where "r = Ret (Some e)"
    by (metis option.exhaust outcome.exhaust)
  then show ?thesis
  proof cases
    case panic
    with assms f have "idle eid {} {} ?c" by (auto simp: idle_def exec_consumer_def)
    with panic assms f stuck [of ?c eid sts] show ?thesis by (simp add: exec_consumer_def drop)
  next
    case ok
    show ?thesis
    proof (cases "Suc i = length sts")
      case True
      with ok assms f have "idle eid {} {} ?c" by (auto simp: idle_def exec_consumer_def exec_message_def)
      moreover have "inbox eid (messages ?c) (int (length sts)) LogTypeSagaComplete = Some (exec_message eid (length sts) i None)"
        using True ok assms f by (auto simp: exec_consumer_def exec_message_def)
      ultimately show ?thesis
        using completed [of ?c "exec_message eid (length sts) i None" eid sts] True ok assms(4,7) f
        by (auto simp: exec_consumer_def exec_message_def drop reported_def)
    next
      case False
      with assms(1) have n: "Suc i < length sts" by simp
      have "idle eid {Suc i} {} ?c" "inbox eid (messages ?c) (int (Suc i)) LogTypeSagaStepExec \<noteq> None"
        "inbox eid (messages ?c) (int (length sts)) LogTypeSagaComplete = None"
        using False ok assms f by (auto simp: idle_def exec_consumer_def exec_message_def split: option.split)
      with executing [of "Suc i" sts ?c eid] n ok assms f rest show ?thesis
        by (simp add: exec_consumer_def drop rev_take_Suc)
    qed
  next
    case err
    let ?l = "exec_message eid (length sts) i (Some e)"
    have "idle eid {} {i} ?c" "inbox eid (messages ?c) (int (length sts)) LogTypeSagaComplete = None" "{..i} \<subseteq> comps ?c"
      using err assms f by (auto simp: idle_def exec_consumer_def exec_message_def)
    moreover have "inbox eid (messages c) (int i) LogTypeSagaStepCompensate = None"
      using assms by (auto simp: idle_def)
    then have "inbox eid (messages ?c) (int i) LogTypeSagaStepCompensate = Some ?l"
      using err assms(7) f by (auto simp: exec_consumer_def exec_message_def)
    ultimately show ?thesis
      using undoing [of i sts ?c eid ?l] err assms(1,4,7) f by (auto simp: exec_consumer_def exec_message_def drop rev_take_Suc)
  qed
qed

lemma undoing_step:
  assumes "i < length sts" "{..i} \<subseteq> comps c" "result2 c = None" "idle eid {} {i} c"
    "inbox eid (messages c) (int (length sts)) LogTypeSagaComplete = None"
    and "comp_consumer sts eid i l (env2 c) = (ms, t)"
  shows "phase2 sts eid (c\<lparr>env2 := t, messages := messages c @ ms, comps := comps c - {i}\<rparr>)
    (settled2 (m_StepError l) (undo2 (rev (take (Suc i) sts)) (env2 c)))"
    (is "phase2 sts eid ?c _")
proof -
  obtain r u where f: "CompensateFunc2 (sts ! i) (env2 c) = (r, u)" by (cases "CompensateFunc2 (sts ! i) (env2 c)")
  consider (panic) p where "r = Panic p" | (first) err where "r = Ret err" "i = 0"
    | (ok) k where "r = Ret None" "i = Suc k" | (err) e k where "r = Ret (Some e)" "i = Suc k"
    by (metis not0_implies_Suc option.exhaust outcome.exhaust)
  then show ?thesis
  proof cases
    case panic
    with assms f have "idle eid {} {} ?c" by (auto simp: idle_def comp_consumer_def)
    with panic assms f stuck [of ?c eid sts] show ?thesis by (simp add: comp_consumer_def rev_take_Suc settled2_def)
  next
    case first
    let ?l = "\<lparr>m_ExecutionID = eid, m_State = LogTypeSagaComplete, m_StepNumber = int (length sts), m_StepError = m_StepError l\<rparr>"
    have "idle eid {} {} ?c" using first assms f by (cases err) (auto simp: idle_def comp_consumer_def comp_messages_def)
    moreover have "inbox eid (messages ?c) (int (length sts)) LogTypeSagaComplete = Some ?l"
      using first assms f by (cases err) (auto simp: comp_consumer_def comp_messages_def)
    ultimately show ?thesis
      using completed [of ?c ?l eid sts] first assms f by (auto simp: comp_consumer_def rev_take_Suc settled2_def)
  next
    case ok
    let ?l = "\<lparr>m_ExecutionID = eid, m_State = LogTypeSagaStepCompensate, m_StepNumber = int k, m_StepError = m_StepError l\<rparr>"
    have "idle eid {} {k} ?c" "inbox eid (messages ?c) (int (length sts)) LogTypeSagaComplete = None" "{..k} \<subseteq> comps ?c"
      using ok assms f by (auto simp: idle_def comp_consumer_def comp_messages_def)
    moreover have "inbox eid (messages c) (int k) LogTypeSagaStepCompensate = None"
    proof (rule ccontr)
      assume "\<not> ?thesis"
      moreover have "k \<in> comps c" using assms(2) ok(2) by auto
      ultimately have "k \<in> {i}" using idle_comp [OF assms(4)] by blast
      then show False using ok(2) by simp
    qed
    then have "inbox eid (messages ?c) (int k) LogTypeSagaStepCompensate = Some ?l"
      using ok assms(6) f by (auto simp: comp_consumer_def comp_messages_def)
    moreover have "take i sts \<noteq> []" using assms(1) ok(2) by auto
    then have "undo2 (rev (take (Suc i) sts)) (env2 c) = undo2 (rev (take (Suc k) sts)) u"
      unfolding rev_take_Suc [OF assms(1)] ok(2) [symmetric] using ok(1) f by simp
    ultimately show ?thesis
      using undoing [of k sts ?c eid ?l] ok assms(1,3,6) f by (auto simp: comp_consumer_def)
  next
    case err
    with assms f have "idle eid {} {} ?c" "inbox eid (messages ?c) (int (length sts)) LogTypeSagaComplete = None"
      by (auto simp: idle_def comp_consumer_def comp_messages_def)
    moreover have "take i sts \<noteq> []" using assms(1) err(2) by auto
    then have "undo2 (rev (take (Suc i) sts)) (env2 c) = (False, u)"
      unfolding rev_take_Suc [OF assms(1)] using err(1) f by simp
    ultimately show ?thesis
      using stuck [of ?c eid sts] err assms(3,6) f by (auto simp: comp_consumer_def comp_messages_def settled2_def)
  qed
qed

lemma phase2_step:
  assumes "phase2 sts eid c f" and "saga2_step False sts eid c c'"
  shows "phase2 sts eid c' f"
  using assms(1)
proof cases
  case (executing i)
  from assms(2) show ?thesis
  proof cases
    case (exec j l ms t ms')
    then have "j = i" using idle_exec [OF executing(6)] by auto
    then show ?thesis using exec executing executing_step [of i sts c eid ms t] by simp
  qed (use executing in \<open>auto simp: idle_def\<close>)
next
  case (undoing i l)
  from assms(2) show ?thesis
  proof cases
    case (comp j l' ms t ms')
    then have "j = i" using idle_comp [OF undoing(5)] by auto
    then show ?thesis using comp undoing undoing_step [of i sts c eid l ms t] by simp
  qed (use undoing in \<open>auto simp: idle_def\<close>)
next
  case (completed l)
  from assms(2) show ?thesis
  proof cases
    case (complete l')
    then show ?thesis using completed phase2.completed [of c' l eid sts] by (simp add: idle_def)
  qed (use completed in \<open>auto simp: idle_def\<close>)
next
  case stuck
  from assms(2) show ?thesis
    by cases (use stuck in \<open>auto simp: idle_def\<close>)
qed

lemma phase2_end:
  assumes "phase2 sts eid c f" and "\<nexists>c'. saga2_step False sts eid c c'"
  shows "f = (case result2 c of Some r \<Rightarrow> r | None \<Rightarrow> Some timed_out, env2 c)"
  using assms(1)
proof cases
  case (executing i)
  obtain ms t where "exec_consumer sts eid i (env2 c) = (ms, t)" by (cases "exec_consumer sts eid i (env2 c)")
  with executing assms(2) saga2_step.exec [of i c eid _ sts ms t ms] show ?thesis by fastforce
next
  case (undoing i l)
  obtain ms t where "comp_consumer sts eid i l (env2 c) = (ms, t)" by (cases "comp_consumer sts eid i l (env2 c)")
  with undoing assms(2) saga2_step.comp [of i c eid l sts ms t ms] show ?thesis by fastforce
next
  case (completed l)
  with assms(2) saga2_step.complete [of c eid sts l] show ?thesis by fastforce
qed simp

lemma quiet_run:
  assumes "(saga2_step False sts eid)\<^sup>*\<^sup>* (saga2_start sts eid s) c"
  shows "phase2 sts eid c (play2 sts s)"
  using assms by (induction rule: rtranclp_induct) (auto intro: phase2_start phase2_step)

subsection \<open>The two libraries\<close>

text \<open>A step of the second library as one of the first: it returns nothing but its error.\<close>

definition as_step :: "'s Step2 \<Rightarrow> ('s, unit) Step" where
  "as_step st = \<lparr>Name = [], FuncType = None, CompensateType = None, Func = bindc (Func2 st) (\<lambda>err. ret ([], err)),
     CompensateFunc = (\<lambda>_. CompensateFunc2 st)\<rparr>"

text \<open>What \<open>Play\<close> of the first library reports, as the second renders it.\<close>

definition rendered :: "goerror option \<Rightarrow> goerror option" where
  "rendered err = (case err of None \<Rightarrow> None | Some e \<Rightarrow> reported (Error e))"

lemma undo2_undo:
  "undo (map (\<lambda>st. (as_step st, vs)) ds) s = (Ret [], t) \<Longrightarrow> undo2 ds s = (True, t)"
proof (induction ds arbitrary: s)
  case (Cons st ds)
  then show ?case
    by (auto simp: as_step_def bindc_def ret_def split: prod.splits outcome.splits option.splits)
qed (simp add: ret_def)

lemma run2_saga_spec:
  assumes "saga_spec (map as_step sts) (map (\<lambda>st. (as_step st, [])) ds) s = (Ret r, t)" and "CompensateErrors r = []"
  shows "run2 sts ds s = (rendered (ExecutionError r), t)"
  using assms
proof (induction sts arbitrary: ds s)
  case Nil
  then show ?case by (simp add: ret_def rendered_def) (metis Result.select_convs(1) option.case(1))
next
  case (Cons st sts)
  obtain x u where f: "Func2 st s = (x, u)" by (cases "Func2 st s")
  consider (panic) p where "x = Panic p" | (ok) "x = Ret None" | (err) e where "x = Ret (Some e)"
    by (metis option.exhaust outcome.exhaust)
  then show ?case
  proof cases
    case panic
    with f Cons.prems(1) show ?thesis by (simp add: as_step_def bindc_def)
  next
    case ok
    with f Cons.prems Cons.IH [of "st # ds" u] show ?thesis by (simp add: as_step_def bindc_def ret_def)
  next
    case err
    with f Cons.prems have "undo (map (\<lambda>st. (as_step st, [])) (st # ds)) u = (Ret [], t)" "ExecutionError r = Some e"
      by (auto simp: as_step_def bindc_def ret_def split: prod.splits outcome.splits)
    with undo2_undo [of "[]" "st # ds" u t] f err show ?thesis
      by (simp add: settled2_def rendered_def)
  qed
qed

subsection \<open>Properties\<close>

text \<open>A run without faults that has come to its end, and what the caller of \<open>Play\<close> gets then: without a message, the timer.\<close>

definition ends2 :: "'s Step2 list \<Rightarrow> string \<Rightarrow> 's \<Rightarrow> 's saga2 \<Rightarrow> bool" where
  "ends2 sts eid s c \<longleftrightarrow> (saga2_step False sts eid)\<^sup>*\<^sup>* (saga2_start sts eid s) c \<and> (\<nexists>c'. saga2_step False sts eid c c')"

definition answer2 :: "'s saga2 \<Rightarrow> goerror option" where
  "answer2 c = (case result2 c of Some r \<Rightarrow> r | None \<Rightarrow> Some timed_out)"

lemma ends2_exists: "\<exists>c. ends2 sts eid s c"
proof -
  have "\<exists>d. (saga2_step False sts eid)\<^sup>*\<^sup>* c d \<and> (\<nexists>d'. saga2_step False sts eid d d')"
    if "finite (execs c)" "finite (comps c)" for c :: "'a saga2"
    using that
  proof (induction "waiting c" arbitrary: c rule: less_induct)
    case less
    show ?case
    proof (cases "\<exists>c'. saga2_step False sts eid c c'")
      case True
      then obtain c' where c': "saga2_step False sts eid c c'" by blast
      from saga2_step_waiting [OF c' less.prems] less.hyps [of c'] obtain d where
        "(saga2_step False sts eid)\<^sup>*\<^sup>* c' d" "\<nexists>d'. saga2_step False sts eid d d'" by blast
      with c' show ?thesis by (meson converse_rtranclp_into_rtranclp)
    qed blast
  qed
  from this [of "saga2_start sts eid s"] show ?thesis by (simp add: ends2_def saga2_start_def)
qed

lemma ends2_play2: "ends2 sts eid s c \<Longrightarrow> (answer2 c, env2 c) = play2 sts s"
  using phase2_end [OF quiet_run] unfolding ends2_def answer2_def by fastforce

lemma ends2_answers: "{(answer2 c, env2 c) | c. ends2 sts eid s c} = {play2 sts s}"
proof (intro equalityI subsetI)
  fix p
  assume "p \<in> {(answer2 c, env2 c) | c. ends2 sts eid s c}"
  then obtain c where "p = (answer2 c, env2 c)" "ends2 sts eid s c" by blast
  with ends2_play2 [of sts eid s c] show "p \<in> {play2 sts s}" by simp
next
  fix p
  assume "p \<in> {play2 sts s}"
  moreover obtain c where c: "ends2 sts eid s c" using ends2_exists [of sts eid s] by blast
  ultimately have "p = (answer2 c, env2 c)" using ends2_play2 [OF c] by simp
  with c show "p \<in> {(answer2 c, env2 c) | c. ends2 sts eid s c}" by blast
qed

definition say :: "string \<Rightarrow> goerror option \<Rightarrow> (string list, goerror option) comp" where
  "say m err = (\<lambda>s. (Ret err, s @ [m]))"

definition example_steps2 :: "string list Step2 list" where
  "example_steps2 = [\<lparr>Func2 = say ''reserve'' None, CompensateFunc2 = say ''release'' None\<rparr>,
     \<lparr>Func2 = say ''pay'' (Some ErrPaidOrder), CompensateFunc2 = say ''refund'' None\<rparr>]"

text \<open>
  C4: whatever messages are lost and whatever timers fire, an execution makes at most one move for each of
  the two consumers of every step and one for \<open>Play\<close>; and as long as \<open>Play\<close> has no answer, its timer can give it one.
\<close>

theorem saga2_terminates:
  assumes "(saga2_step faults sts eid ^^ k) (saga2_start sts eid s) c"
  shows "k \<le> 2 * length sts + 1 \<and> (result2 c \<noteq> None \<or> (\<exists>c'. saga2_step True sts eid c c' \<and> result2 c' = Some (Some timed_out)))"
proof
  show "k \<le> 2 * length sts + 1"
    using saga2_run_bounded [OF assms] by (simp add: saga2_start_def waiting_def)
  show "result2 c \<noteq> None \<or> (\<exists>c'. saga2_step True sts eid c c' \<and> result2 c' = Some (Some timed_out))"
    using saga2_step.play_timer [of True c sts eid] by fastforce
qed

theorem saga2_terminates_witness:
  "\<exists>c. (saga2_step True example_steps2 ''E1'' ^^ 1) (saga2_start example_steps2 ''E1'' []) c \<and> (1 :: nat) \<le> 2 * length example_steps2 + 1 \<and>
     result2 c \<noteq> None"
proof -
  let ?c = "(saga2_start example_steps2 ''E1'' [])\<lparr>result2 := Some (Some timed_out)\<rparr>"
  have "saga2_step True example_steps2 ''E1'' (saga2_start example_steps2 ''E1'' []) ?c"
    by (rule saga2_step.play_timer) (simp_all add: saga2_start_def)
  then have "(saga2_step True example_steps2 ''E1'' ^^ 1) (saga2_start example_steps2 ''E1'' []) ?c"
    by (simp add: OO_def)
  with saga2_terminates [OF this] show ?thesis by (intro exI [of _ ?c]) simp
qed

text \<open>
  C2: without faults, the saga over messages computes what the sequential program does: there is such a run to
  the end, and every one ends in the same state of the steps and with the same answer of \<open>Play\<close>, however the consumers are scheduled.
\<close>

theorem saga2_sequential:
  shows "(\<exists>c. ends2 sts eid s c) \<and> {(answer2 c, env2 c) | c. ends2 sts eid s c} = {play2 sts s}"
  using ends2_exists [of sts eid s] ends2_answers [of sts eid s] by simp

text \<open>
  C3: when a saga has steps and no compensation of it fails, the second library, without faults, leaves the state that the
  first one leaves, and \<open>Play\<close> answers with the error of the first one as \<open>rendered\<close>: a plain error whose text is the text of that error
  used as a format.  So the text is the same when it has no percent sign, and an error without a text is answered as no error.
\<close>

theorem saga2_agrees:
  assumes "sts \<noteq> []" and "saga_spec (map as_step sts) [] s = (Ret r, t)" and "CompensateErrors r = []"
  shows "{(answer2 c, env2 c) | c. ends2 sts eid s c} = {(rendered (ExecutionError r), t)} \<and>
     (\<forall>e. ExecutionError r = Some e \<and> Error e \<noteq> [] \<and> CHR ''%'' \<notin> set (Error e) \<longrightarrow> rendered (ExecutionError r) = Some (ErrorString (Error e))) \<and>
     (rendered (ExecutionError r) = None \<longleftrightarrow> (\<forall>e. ExecutionError r = Some e \<longrightarrow> Error e = []))"
proof -
  have "play2 sts s = (rendered (ExecutionError r), t)"
    using assms run2_saga_spec [of sts "[]" s r t] by (simp add: play2_def)
  then show ?thesis by (auto simp: ends2_answers rendered_def reported_def Sprintf_plain split: option.split)
qed

theorem saga2_agrees_witness:
  "{(answer2 c, env2 c) | c. ends2 example_steps2 ''E1'' [] c} =
     {(Some (ErrorString '' Giao dich da duoc thanh toan''), [''reserve'', ''pay'', ''refund'', ''release''])}"
proof -
  have "saga_spec (map as_step example_steps2) [] [] =
      (Ret \<lparr>ExecutionError = Some ErrPaidOrder, CompensateErrors = []\<rparr>, [''reserve'', ''pay'', ''refund'', ''release''])"
    by (simp add: example_steps2_def as_step_def say_def bindc_def ret_def)
  moreover have "Sprintf '' Giao dich da duoc thanh toan'' = '' Giao dich da duoc thanh toan''"
    by (rule Sprintf_plain) simp
  ultimately show ?thesis
    using saga2_agrees [of example_steps2 "[]" _ "[''reserve'', ''pay'', ''refund'', ''release'']" "''E1''"]
    by (simp add: example_steps2_def rendered_def reported_def)
qed

text \<open>
  Where the two differ: a compensation that fails ends the chain, so what came before is never undone and \<open>Play\<close> waits for
  its timer; and an error without a text is compensated but reported as success.
\<close>

lemma saga2_undo_stops:
  "play2 [\<lparr>Func2 = say ''reserve'' None, CompensateFunc2 = say ''release'' None\<rparr>,
     \<lparr>Func2 = say ''pay'' (Some ErrPaidOrder), CompensateFunc2 = say ''refund'' (Some ErrGeneral)\<rparr>] [] =
   (Some timed_out, [''reserve'', ''pay'', ''refund''])"
  by (simp add: play2_def say_def settled2_def)

lemma saga2_silent_error:
  "play2 [\<lparr>Func2 = say ''pay'' (Some (ErrorString [])), CompensateFunc2 = say ''refund'' None\<rparr>] [] = (None, [''pay'', ''refund''])"
  by (simp add: play2_def say_def settled2_def reported_def)

end
