(* ===== verification/Http_Client.thy ===== *)
theory Http_Client
  imports Bank_Types
begin

text \<open>
  Requests over HTTP with a JSON answer: \<open>HttpRequest\<close> of \<open>utils/helpers/helpers.go\<close>.  The HTTP client of the standard library and
  \<open>encoding/json\<close> are parameters: the error of \<open>http.NewRequest\<close> for a method and an address, the round trip, and
  decoding a text into a given value.
\<close>

record http_request =
  hq_Method :: string
  hq_Uri :: string
  hq_Headers :: "(string \<times> string) list"
  hq_Body :: string

record ('w, 'a) http_server =
  hs_NewRequest :: "string \<Rightarrow> string \<Rightarrow> goerror option"
  hs_Do :: "http_request \<Rightarrow> 'w \<Rightarrow> (goerror + HttpResponse) \<times> 'w"
  hs_Unmarshal :: "string \<Rightarrow> 'a \<Rightarrow> 'a \<times> goerror option"

text \<open>
  Reading and decoding a response.  The deferred \<open>Close\<close> assigns the result, so that its error is the one returned; it is deferred
  only when the body could be decoded.
\<close>

definition read_response :: "('w, 'a, 'z) http_server_scheme \<Rightarrow> 'a \<Rightarrow> HttpResponse \<Rightarrow> 'a \<times> goerror option" where
  "read_response H target resp = (case Body resp of
     Inl err \<Rightarrow> (target, Some err)
   | Inr responseByte \<Rightarrow> (case hs_Unmarshal H responseByte target of
       (response, Some err) \<Rightarrow> (response, Some err)
     | (response, None) \<Rightarrow> (response, CloseErr resp)))"

text \<open>The status of the response is not looked at; the headers of the request are sent only with \<open>GET\<close>.\<close>

definition HttpRequest ::
    "('w, 'a, 'z) http_server_scheme \<Rightarrow> string \<Rightarrow> string \<Rightarrow> string \<Rightarrow> (string \<times> string) list \<Rightarrow> string \<Rightarrow> 'a \<Rightarrow> 'w \<Rightarrow> ('a \<times> goerror option) \<times> 'w" where
  "HttpRequest H uri path meth headers jsonrequest target w =
     (case hs_NewRequest H meth (uri @ path) of
       Some err \<Rightarrow> ((target, Some err), w)
     | None \<Rightarrow>
         (case hs_Do H \<lparr>hq_Method = meth, hq_Uri = uri @ path,
             hq_Headers = (if meth = ''GET'' then headers else []) @ [(''Content-Type'', ''application/json'')], hq_Body = jsonrequest\<rparr> w of
           (Inl err, w') \<Rightarrow> ((target, Some err), w')
         | (Inr resp, w') \<Rightarrow> (read_response H target resp, w')))"

end
