(* ===== verification/Fraud_Client.thy ===== *)
theory Fraud_Client
  imports Credit_Card Http_Client
begin

text \<open>
  The client of the fraud service (\<open>infrastructure/service/fraud/fraud.go\<close>), and what the payments by card make of its
  answers.  The HTTP client and \<open>encoding/json\<close> are parameters.
\<close>

subsection \<open>The client\<close>

text \<open>The bodies of the two requests, \<open>domain/value_objects/fraud.go\<close>.\<close>

record FraudRequest =
  fq_CardNumber :: string

record FraudTransRequest =
  fq_TransactionId :: string
  fq_FraudDto :: Fraud

datatype fraud_body = FraudQuery FraudRequest | FraudReport FraudTransRequest

text \<open>An HTTP server that answers with \<open>Fraud\<close> objects, its address, and how a body is encoded.\<close>

record 'w fraud_server = "('w, Fraud) http_server" +
  fs_Uri :: string
  fs_Marshal :: "fraud_body \<Rightarrow> string"

definition fraud_request :: "'w fraud_server \<Rightarrow> string \<Rightarrow> fraud_body \<Rightarrow> http_request" where
  "fraud_request H path body = \<lparr>hq_Method = ''POST'', hq_Uri = fs_Uri H @ path,
     hq_Headers = [(''Content-Type'', ''application/json'')], hq_Body = fs_Marshal H body\<rparr>"

text \<open>Only the status 500 is an error; whatever else comes is decoded.\<close>

definition fraud_response :: "'w fraud_server \<Rightarrow> Fraud \<Rightarrow> HttpResponse \<Rightarrow> Fraud \<times> goerror option" where
  "fraud_response H target resp =
     (if StatusCode resp = 500 then (target, Some (ErrorString ''FRAUD SERVICE ERROR'')) else read_response H target resp)"

definition fraud_httpRequest :: "'w fraud_server \<Rightarrow> string \<Rightarrow> fraud_body \<Rightarrow> Fraud \<Rightarrow> 'w \<Rightarrow> (Fraud \<times> goerror option) \<times> 'w" where
  "fraud_httpRequest H path body target w =
     (case hs_NewRequest H ''POST'' (fs_Uri H @ path) of
       Some err \<Rightarrow> ((target, Some err), w)
     | None \<Rightarrow> (case hs_Do H (fraud_request H path body) w of
         (Inl err, w') \<Rightarrow> ((target, Some err), w')
       | (Inr resp, w') \<Rightarrow> (fraud_response H target resp, w')))"

definition GetFraud :: "'w fraud_server \<Rightarrow> string \<Rightarrow> 'w \<Rightarrow> (Fraud \<times> goerror option) \<times> 'w" where
  "GetFraud H cardNumber = fraud_httpRequest H ''fraud'' (FraudQuery \<lparr>fq_CardNumber = cardNumber\<rparr>) Fraud_zero"

definition SaveFraud :: "'w fraud_server \<Rightarrow> FraudTransRequest \<Rightarrow> 'w \<Rightarrow> (Fraud \<times> goerror option) \<times> 'w" where
  "SaveFraud H request = fraud_httpRequest H ''fraud/transaction'' (FraudReport request) Fraud_zero"

text \<open>
  The services of a request with this client.  Its callers look at the value only when there is no error.
\<close>

definition or_error :: "('a \<times> goerror option) \<times> 'w \<Rightarrow> (goerror + 'a) \<times> 'w" where
  "or_error r = (case r of ((a, err), w) \<Rightarrow> (case err of Some e \<Rightarrow> Inl e | None \<Rightarrow> Inr a, w))"

definition with_fraud_client :: "'w fraud_server \<Rightarrow> 'w services \<Rightarrow> 'w services" where
  "with_fraud_client H S = S\<lparr>
     fr_Get := (\<lambda>cardNumber w. or_error (GetFraud H cardNumber w)),
     fr_Save := (\<lambda>t f w. case SaveFraud H \<lparr>fq_TransactionId = t, fq_FraudDto = f\<rparr> w of ((_, err), w') \<Rightarrow> (err, w'))\<rparr>"

subsection \<open>When a card is cleared\<close>

text \<open>The server has answered the query for the card with something that can be read and that does not refuse the card.\<close>

definition clears :: "'w fraud_server \<Rightarrow> string \<Rightarrow> 'w \<Rightarrow> bool" where
  "clears H cardNumber w \<longleftrightarrow> hs_NewRequest H ''POST'' (fs_Uri H @ ''fraud'') = None \<and>
     (case fst (hs_Do H (fraud_request H ''fraud'' (FraudQuery \<lparr>fq_CardNumber = cardNumber\<rparr>)) w) of
       Inl _ \<Rightarrow> False
     | Inr resp \<Rightarrow> StatusCode resp \<noteq> 500 \<and> CloseErr resp = None \<and> (case Body resp of
         Inl _ \<Rightarrow> False
       | Inr b \<Rightarrow> (case hs_Unmarshal H b Fraud_zero of (f, err) \<Rightarrow> err = None \<and> fd_Status f \<noteq> ''FAIL'')))"

lemma GetFraud_cleared: "not_cleared (fst (or_error (GetFraud H c w))) \<longleftrightarrow> \<not> clears H c w"
  by (auto simp: not_cleared_def or_error_def GetFraud_def fraud_httpRequest_def fraud_response_def read_response_def clears_def Fraud_IsFail_def
      split: option.split sum.split prod.split)

lemma with_fraud_client_get: "fr_Get (with_fraud_client H S) c w = or_error (GetFraud H c w)"
  by (simp add: with_fraud_client_def)

lemma with_fraud_client_cleared: "not_cleared (fst (fr_Get (with_fraud_client H S) c w)) \<longleftrightarrow> \<not> clears H c w"
  by (simp only: with_fraud_client_get GetFraud_cleared)

lemma LinkBank_refused:
  assumes "\<And>w. not_cleared (fst (fr_Get S (lkr_CardNumber req) w))" and "lkr_Cvv req \<noteq> []"
  shows "wp (LinkBank S req) (\<lambda>(r, err) u. r = None \<and> err \<noteq> None \<and> trace u = trace s) (\<lambda>_. False) s"
  unfolding LinkBank_def if_P [OF assms(2)] wp_bindc wp_ask
proof (intro allI impI, goal_cases)
  case (1 r w)
  with assms(1) [of "world s"] show ?case by (cases r) (auto simp: not_cleared_def wp_ret)
qed

lemma with_fraud_client_link: "link_told (with_fraud_client H S) i info \<longleftrightarrow> link_told S i info"
proof -
  have "bk_Unmarshal (with_fraud_client H S) = bk_Unmarshal S" "bk_Do (with_fraud_client H S) = bk_Do S"
    by (simp_all add: with_fraud_client_def)
  then show ?thesis unfolding link_told_def bank_replied_def http_result_def by (simp only:)
qed

text \<open>
  C20: with the client of the fraud service, when the service does not clear the card of the request -- it cannot be reached, answers
  with status 500 or with what cannot be decoded, or says FAIL -- then a request to link a card with its security code ends in an error, and so does a
  request to pay by a link for which the bank names such a card: the bank, the orders and the transactions are as they were.  (\<open>LinkBank\<close> asks
  the service only about a card that is given with a security code.)
\<close>

theorem linked_cards_cleared:
  shows "((\<forall>info w. link_told S (pi_LinkId linked) info \<longrightarrow> \<not> clears H (br_CardNumber info) w) \<longrightarrow>
       wp (PayInternationalCard (with_fraud_client H S) binFirst linked) (\<lambda>(r, err) u. r = None \<and> err \<noteq> None \<and> key (trace u) = key (trace s))
         (\<lambda>u. key (trace u) = key (trace s)) s) \<and>
     ((\<forall>w. \<not> clears H (lkr_CardNumber req) w) \<and> lkr_Cvv req \<noteq> [] \<longrightarrow>
       wp (LinkBank (with_fraud_client H S) req) (\<lambda>(r, err) u. r = None \<and> err \<noteq> None \<and> trace u = trace s) (\<lambda>_. False) s)"
proof (intro conjI impI, goal_cases)
  case 1
  then show ?case by (intro PayInternationalCard_refused) (simp only: with_fraud_client_link with_fraud_client_cleared not_False_eq_True)
next
  case 2
  then show ?case by (intro LinkBank_refused) (simp_all only: with_fraud_client_cleared not_False_eq_True)
qed

text \<open>A server that answers every query with status 500.\<close>

definition broken_fraud_server :: "nat fraud_server" where
  "broken_fraud_server = \<lparr>hs_NewRequest = (\<lambda>_ _. None),
     hs_Do = (\<lambda>_ w. (Inr \<lparr>StatusCode = 500, Body = Inr ''{}'', CloseErr = None\<rparr>, w)), hs_Unmarshal = (\<lambda>_ f. (f, None)),
     fs_Uri = ''http://fraud/'', fs_Marshal = (\<lambda>_. ''{}'')\<rparr>"

definition example_link_request :: LinkRequest where
  "example_link_request = \<lparr>lkr_GpayBankCode = ''GPMPGS'', lkr_UserId = ''U1'', lkr_PhoneNumber = ''0901'', lkr_CardHolderName = ''A'',
     lkr_CardNumber = ''4111111111111111'', lkr_IdentifyNumber = ''12'', lkr_IssueDate = [], lkr_Cvv = ''123'', lkr_ExpireDate = ''0127'',
     lkr_Gender = [], lkr_Distric = [], lkr_City = [], lkr_Email = [], lkr_FirstName = [], lkr_LastName = [], lkr_Address = [],
     lkr_ReturnUrl = [], lkr_CancelUrl = []\<rparr>"

theorem linked_cards_cleared_witness:
  "\<not> clears broken_fraud_server ''4111111111111111'' 0 \<and>
     wp (PayInternationalCard (with_fraud_client broken_fraud_server example_services) True example_linked_payment)
       (\<lambda>(r, err) u. r = None \<and> err \<noteq> None \<and> key (trace u) = key (trace example_state)) (\<lambda>u. key (trace u) = key (trace example_state)) example_state \<and>
     wp (LinkBank (with_fraud_client broken_fraud_server example_services) example_link_request)
       (\<lambda>(r, err) u. r = None \<and> err \<noteq> None \<and> trace u = trace example_state) (\<lambda>_. False) example_state"
proof -
  have down: "\<not> clears broken_fraud_server c w" for c w
    by (simp add: clears_def broken_fraud_server_def)
  have "lkr_Cvv example_link_request \<noteq> []" by (simp add: example_link_request_def)
  with linked_cards_cleared [of example_services example_linked_payment broken_fraud_server True example_state example_link_request] down
  show ?thesis by blast
qed

end
