(* ===== verification/Message_Queue.thy ===== *)
theory Message_Queue
  imports Bank_Status VA_Consumer
begin

text \<open>
  The connection to RabbitMQ (\<open>infrastructure/rabbitmq/connection_rabbitmq.go\<close>): publishing, and the loops that hand every
  message of a queue to a consumer.  The broker is a parameter, with a state of its own; a task on the pool is run by itself.
\<close>

subsection \<open>The broker\<close>

record options =
  opt_Uri :: string
  opt_AutoAck :: bool
  opt_AutoDelete :: bool
  opt_Durable :: bool
  opt_Exclusive :: bool
  opt_NoWait :: bool

definition NewOptions :: options where
  "NewOptions = \<lparr>opt_Uri = [], opt_AutoAck = False, opt_AutoDelete = False, opt_Durable = False, opt_Exclusive = False,
     opt_NoWait = False\<rparr>"

definition WithUri :: "options \<Rightarrow> string \<Rightarrow> options" where
  "WithUri opts uri = opts\<lparr>opt_Uri := uri\<rparr>"

definition WithAutoAck :: "options \<Rightarrow> bool \<Rightarrow> options" where
  "WithAutoAck opts b = opts\<lparr>opt_AutoAck := b\<rparr>"

record delivery =
  d_Tag :: nat
  d_Body :: string

record queue_decl =
  dc_Name :: string
  dc_Durable :: bool
  dc_AutoDelete :: bool
  dc_Exclusive :: bool
  dc_NoWait :: bool

text \<open>
  The operations of a channel of the library.  \<open>Consume\<close> gives the messages that are delivered until the channel is closed.
\<close>

record 'b amqp =
  aq_Channel :: "'b \<Rightarrow> goerror option \<times> 'b"
  aq_ExchangeDeclare :: "string \<Rightarrow> queue_decl \<Rightarrow> 'b \<Rightarrow> goerror option \<times> 'b"
  aq_QueueDeclare :: "queue_decl \<Rightarrow> 'b \<Rightarrow> (goerror + string) \<times> 'b"
  aq_QueueBind :: "string \<Rightarrow> string \<Rightarrow> string \<Rightarrow> 'b \<Rightarrow> goerror option \<times> 'b"
  aq_Consume :: "string \<Rightarrow> bool \<Rightarrow> bool \<Rightarrow> 'b \<Rightarrow> (goerror + delivery list) \<times> 'b"
  aq_Ack :: "nat \<Rightarrow> bool \<Rightarrow> 'b \<Rightarrow> goerror option \<times> 'b"
  aq_Publish :: "string \<Rightarrow> string \<Rightarrow> string \<Rightarrow> string \<Rightarrow> 'b \<Rightarrow> goerror option \<times> 'b"
  aq_Close :: "'b \<Rightarrow> goerror option \<times> 'b"

text \<open>The state of the application, the broker, and the calls of \<open>Ack\<close> so far (tag, multiple).\<close>

record ('s, 'b) queue_state =
  app :: 's
  broker :: 'b
  acked :: "(nat \<times> bool) list"

definition on_broker :: "('b \<Rightarrow> 'a \<times> 'b) \<Rightarrow> (('s, 'b) queue_state, 'a) comp" where
  "on_broker f = (\<lambda>q. case f (broker q) of (a, b) \<Rightarrow> (Ret a, q\<lparr>broker := b\<rparr>))"

definition on_app :: "('s, 'a) comp \<Rightarrow> (('s, 'b) queue_state, 'a) comp" where
  "on_app m = (\<lambda>q. case m (app q) of (r, s) \<Rightarrow> (r, q\<lparr>app := s\<rparr>))"

text \<open>A deferred call runs at the end, after a panic too; a panic of its own replaces the result.\<close>

definition deferc :: "('s, unit) comp \<Rightarrow> ('s, 'a) comp \<Rightarrow> ('s, 'a) comp" where
  "deferc later m = (\<lambda>s. case m s of (r, t) \<Rightarrow> (case later t of (Ret _, u) \<Rightarrow> (r, u) | (Panic e, u) \<Rightarrow> (Panic e, u)))"

text \<open>The pool of \<open>utils/gpooling\<close> logs what a task panics with and goes on.\<close>

definition Submit :: "('s, unit) comp \<Rightarrow> ('s, unit) comp" where
  "Submit task = (\<lambda>s. (Ret (), snd (task s)))"

subsection \<open>Publishing\<close>

definition PublishToExchange :: "'b amqp \<Rightarrow> (goerror + string) \<Rightarrow> string \<Rightarrow> (('s, 'b) queue_state, goerror option) comp" where
  "PublishToExchange B marshalled topic =
     bindc (on_broker (aq_Channel B)) (\<lambda>err. case err of
       Some e \<Rightarrow> ret (Some e)
     | None \<Rightarrow> (case marshalled of
         Inl e \<Rightarrow> ret (Some e)
       | Inr send_data \<Rightarrow> on_broker (aq_Publish B topic topic ''text/plain'' send_data)))"

subsection \<open>Consuming\<close>

text \<open>The deferred \<open>ch.Close()\<close>: without a channel, \<open>ch\<close> is a nil pointer.\<close>

definition close_channel :: "'b amqp \<Rightarrow> goerror option \<Rightarrow> (('s, 'b) queue_state, unit) comp" where
  "close_channel B err = (case err of
     Some _ \<Rightarrow> panic ''nil pointer dereference''
   | None \<Rightarrow> thenc (on_broker (aq_Close B)) (ret ()))"

definition Ack :: "'b amqp \<Rightarrow> nat \<Rightarrow> bool \<Rightarrow> (('s, 'b) queue_state, goerror option) comp" where
  "Ack B tag multiple = thenc (modify (\<lambda>q. q\<lparr>acked := acked q @ [(tag, multiple)]\<rparr>)) (on_broker (aq_Ack B tag multiple))"

fun consume_queue :: "'b amqp \<Rightarrow> bool \<Rightarrow> (string \<Rightarrow> ('s, 'a) comp) \<Rightarrow> delivery list \<Rightarrow> (('s, 'b) queue_state, unit) comp" where
  "consume_queue B retry fn [] = ret ()"
| "consume_queue B retry fn (d # msgs) =
     thenc (on_app (fn (d_Body d)))
    (thenc (if retry then Ack B (d_Tag d) False else Ack B (d_Tag d) True) (consume_queue B retry fn msgs))"

fun consume_topic :: "'b amqp \<Rightarrow> (string \<Rightarrow> ('s, 'a) comp) \<Rightarrow> delivery list \<Rightarrow> (('s, 'b) queue_state, unit) comp" where
  "consume_topic B fn [] = ret ()"
| "consume_topic B fn (d # msgs) =
     thenc (on_app (fn (d_Body d))) (thenc (Ack B (d_Tag d) False) (consume_topic B fn msgs))"

definition queue_declared :: "options \<Rightarrow> string \<Rightarrow> queue_decl" where
  "queue_declared opts queue_name = \<lparr>dc_Name = queue_name, dc_Durable = True, dc_AutoDelete = opt_AutoDelete opts,
     dc_Exclusive = opt_Exclusive opts, dc_NoWait = opt_NoWait opts\<rparr>"

definition WithConsumerQueue ::
    "'b amqp \<Rightarrow> options \<Rightarrow> (string \<Rightarrow> ('s, 'a) comp) \<Rightarrow> string \<Rightarrow> bool \<Rightarrow> (('s, 'b) queue_state, goerror option) comp" where
  "WithConsumerQueue B opts fn queue_name retry =
     thenc (Submit (bindc (on_broker (aq_Channel B)) (\<lambda>err. deferc (close_channel B err) (case err of
       Some _ \<Rightarrow> ret ()
     | None \<Rightarrow>
         bindc (on_broker (aq_QueueDeclare B (queue_declared opts queue_name))) (\<lambda>q. case q of
           Inl _ \<Rightarrow> ret ()
         | Inr name \<Rightarrow>
             bindc (on_broker (aq_Consume B name (opt_AutoAck opts) (opt_Exclusive opts))) (\<lambda>msgs. case msgs of
               Inl _ \<Rightarrow> ret ()
             | Inr ds \<Rightarrow> consume_queue B retry fn ds)))))) (ret None)"

text \<open>The error of declaring the exchange is overwritten by the next call.\<close>

definition WithConsumerTopic ::
    "'b amqp \<Rightarrow> options \<Rightarrow> (string \<Rightarrow> ('s, 'a) comp) \<Rightarrow> string \<Rightarrow> (('s, 'b) queue_state, goerror option) comp" where
  "WithConsumerTopic B opts fn topic_name =
     thenc (Submit (bindc (on_broker (aq_Channel B)) (\<lambda>err. deferc (close_channel B err) (case err of
       Some _ \<Rightarrow> ret ()
     | None \<Rightarrow>
         thenc (on_broker (aq_ExchangeDeclare B ''topic'' \<lparr>dc_Name = topic_name, dc_Durable = opt_Durable opts, dc_AutoDelete = True,
           dc_Exclusive = opt_Exclusive opts, dc_NoWait = opt_NoWait opts\<rparr>))
        (bindc (on_broker (aq_QueueDeclare B (queue_declared opts topic_name))) (\<lambda>q. case q of
           Inl _ \<Rightarrow> ret ()
         | Inr name \<Rightarrow>
             bindc (on_broker (aq_QueueBind B name (topic_name @ ''.#'') topic_name)) (\<lambda>err. case err of
               Some _ \<Rightarrow> ret ()
             | None \<Rightarrow>
                 bindc (on_broker (aq_Consume B name False (opt_Exclusive opts))) (\<lambda>msgs. case msgs of
                   Inl _ \<Rightarrow> ret ()
                 | Inr ds \<Rightarrow> consume_topic B fn ds)))))))) (ret None)"

subsection \<open>What is acknowledged\<close>

text \<open>How many messages a consumer handles before it panics, and the state it leaves, without queue and broker.\<close>

fun handle_all :: "(string \<Rightarrow> ('s, 'a) comp) \<Rightarrow> delivery list \<Rightarrow> 's \<Rightarrow> nat \<times> 's" where
  "handle_all fn [] s = (0, s)"
| "handle_all fn (d # msgs) s = (case fn (d_Body d) s of
     (Panic _, t) \<Rightarrow> (0, t)
   | (Ret _, t) \<Rightarrow> (case handle_all fn msgs t of (k, u) \<Rightarrow> (Suc k, u)))"

definition acks :: "delivery list \<Rightarrow> (nat \<times> bool) list" where
  "acks ds = map (\<lambda>d. (d_Tag d, False)) ds"

lemma on_broker_frame: "on_broker f q = (r, q') \<Longrightarrow> app q' = app q \<and> acked q' = acked q \<and> (\<exists>a. r = Ret a)"
  by (auto simp: on_broker_def split: prod.splits)

lemma Ack_frame: "Ack B tag multiple q = (r, q') \<Longrightarrow> app q' = app q \<and> acked q' = acked q @ [(tag, multiple)] \<and> (\<exists>a. r = Ret a)"
  by (auto simp: Ack_def bindc_def dest: on_broker_frame split: prod.splits outcome.splits)

lemma consume_topic_handles:
  "consume_topic B fn msgs q = (r, q') \<Longrightarrow> handle_all fn msgs (app q) = (k, s) \<Longrightarrow>
     app q' = s \<and> acked q' = acked q @ acks (take k msgs)"
proof (induction msgs arbitrary: q k)
  case (Cons d msgs)
  show ?case
  proof (cases "fn (d_Body d) (app q)")
    case (Pair o1 t)
    show ?thesis
    proof (cases o1)
      case (Ret a)
      obtain k' where k': "handle_all fn msgs t = (k', s)" "k = Suc k'"
        using Cons.prems(2) Pair Ret by (auto split: prod.splits)
      obtain o2 q2 where ack: "Ack B (d_Tag d) False (q\<lparr>app := t\<rparr>) = (o2, q2)" by force
      from Ack_frame [OF this] obtain b where b: "o2 = Ret b" "app q2 = t" "acked q2 = acked q @ [(d_Tag d, False)]" by auto
      with Cons.prems(1) Pair Ret ack have "consume_topic B fn msgs q2 = (r, q')"
        by (simp add: bindc_def on_app_def)
      from Cons.IH [OF this] k' b show ?thesis by (simp add: acks_def)
    next
      case (Panic e)
      with Cons.prems Pair show ?thesis by (auto simp: bindc_def on_app_def acks_def)
    qed
  qed
qed (simp add: acks_def)

text \<open>A broker that accepts everything and delivers \<open>ds\<close>.\<close>

definition broker_delivers :: "'b amqp \<Rightarrow> delivery list \<Rightarrow> bool" where
  "broker_delivers B ds \<longleftrightarrow> (\<forall>b. fst (aq_Channel B b) = None) \<and> (\<forall>d b. \<exists>name. fst (aq_QueueDeclare B d b) = Inr name) \<and>
     (\<forall>x y z b. fst (aq_QueueBind B x y z b) = None) \<and> (\<forall>n a e b. fst (aq_Consume B n a e b) = Inr ds)"

lemma bind_broker: "bindc (on_broker f) g q = g (fst (f (broker q))) (q\<lparr>broker := snd (f (broker q))\<rparr>)"
  by (auto simp: bindc_def on_broker_def split: prod.splits)

lemma deferc_close:
  "m q = (r, t) \<Longrightarrow> app (snd (deferc (close_channel B None) m q)) = app t \<and> acked (snd (deferc (close_channel B None) m q)) = acked t"
  by (auto simp: deferc_def close_channel_def bind_broker ret_def split: prod.splits outcome.splits)

lemma Submit_run: "bindc (Submit m) (\<lambda>_. ret a) q = (Ret a, snd (m q))"
  by (simp add: Submit_def bindc_def ret_def)

lemma WithConsumerTopic_consumes:
  assumes "broker_delivers B ds"
  shows "\<exists>q1 r q2. app q1 = app q \<and> acked q1 = acked q \<and> consume_topic B fn ds q1 = (r, q2) \<and>
    fst (WithConsumerTopic B opts fn topic q) = Ret None \<and> app (snd (WithConsumerTopic B opts fn topic q)) = app q2 \<and>
    acked (snd (WithConsumerTopic B opts fn topic q)) = acked q2"
proof -
  obtain n where n: "fst (aq_QueueDeclare B (queue_declared opts topic) b) = Inr (n b)" for b
    using assms unfolding broker_delivers_def by metis
  define b1 where "b1 = snd (aq_Channel B (broker q))"
  define b2 where "b2 = snd (aq_ExchangeDeclare B ''topic'' \<lparr>dc_Name = topic, dc_Durable = opt_Durable opts, dc_AutoDelete = True,
    dc_Exclusive = opt_Exclusive opts, dc_NoWait = opt_NoWait opts\<rparr> b1)"
  define b3 where "b3 = snd (aq_QueueDeclare B (queue_declared opts topic) b2)"
  define b4 where "b4 = snd (aq_QueueBind B (n b2) (topic @ ''.#'') topic b3)"
  define b5 where "b5 = snd (aq_Consume B (n b2) False (opt_Exclusive opts) b4)"
  obtain r q2 where run: "consume_topic B fn ds (q\<lparr>broker := b5\<rparr>) = (r, q2)" by force
  let ?body = "\<lambda>q. bindc (on_broker (aq_ExchangeDeclare B ''topic'' \<lparr>dc_Name = topic, dc_Durable = opt_Durable opts, dc_AutoDelete = True,
           dc_Exclusive = opt_Exclusive opts, dc_NoWait = opt_NoWait opts\<rparr>)) (\<lambda>_.
        (bindc (on_broker (aq_QueueDeclare B (queue_declared opts topic))) (\<lambda>q. case q of
           Inl _ \<Rightarrow> ret ()
         | Inr name \<Rightarrow>
             bindc (on_broker (aq_QueueBind B name (topic @ ''.#'') topic)) (\<lambda>err. case err of
               Some _ \<Rightarrow> ret ()
             | None \<Rightarrow>
                 bindc (on_broker (aq_Consume B name False (opt_Exclusive opts))) (\<lambda>msgs. case msgs of
                   Inl _ \<Rightarrow> ret ()
                 | Inr ds \<Rightarrow> consume_topic B fn ds))))) q"
  have body: "?body (q\<lparr>broker := b1\<rparr>) = (r, q2)"
    using assms run by (simp add: bind_broker n broker_delivers_def flip: b1_def b2_def b3_def b4_def b5_def)
  have "WithConsumerTopic B opts fn topic q = (Ret None, snd (deferc (close_channel B None) ?body (q\<lparr>broker := b1\<rparr>)))"
    using assms by (simp add: WithConsumerTopic_def Submit_run bind_broker [of "aq_Channel B"] broker_delivers_def flip: b1_def)
  with deferc_close [of ?body "q\<lparr>broker := b1\<rparr>" r q2 B, OF body] run show ?thesis
    by (intro exI [of _ "q\<lparr>broker := b5\<rparr>"] exI [of _ r] exI [of _ q2]) simp
qed

text \<open>
  C32: when the broker delivers messages to the consumer of a topic, they are handled one after the other in their order, and each is
  acknowledged once and alone after it was handled, whether the consumer succeeded or returned an error; a message that the consumer
  panics with is not acknowledged, and none of the messages behind it is handled.
\<close>

theorem consumer_acks:
  assumes "broker_delivers B ds"
  shows "\<exists>q'. WithConsumerTopic B opts fn topic q = (Ret None, q') \<and>
     (case handle_all fn ds (app q) of (k, s) \<Rightarrow> app q' = s \<and> acked q' = acked q @ acks (take k ds))"
proof -
  from WithConsumerTopic_consumes [OF assms, of q fn opts topic] obtain q1 r q2
    where q: "app q1 = app q" "acked q1 = acked q" "consume_topic B fn ds q1 = (r, q2)"
      "fst (WithConsumerTopic B opts fn topic q) = Ret None" "app (snd (WithConsumerTopic B opts fn topic q)) = app q2"
      "acked (snd (WithConsumerTopic B opts fn topic q)) = acked q2" by blast
  obtain k s where h: "handle_all fn ds (app q) = (k, s)" by force
  with consume_topic_handles [OF q(3), of k s] q
  have "app (snd (WithConsumerTopic B opts fn topic q)) = s" "acked (snd (WithConsumerTopic B opts fn topic q)) = acked q @ acks (take k ds)"
    by simp_all
  with q(4) show ?thesis
    unfolding h prod.case by (intro exI [of _ "snd (WithConsumerTopic B opts fn topic q)"]) (simp add: prod_eq_iff)
qed

definition example_broker :: "unit amqp" where
  "example_broker = \<lparr>aq_Channel = (\<lambda>b. (None, b)), aq_ExchangeDeclare = (\<lambda>_ _ b. (None, b)), aq_QueueDeclare = (\<lambda>d b. (Inr (dc_Name d), b)),
     aq_QueueBind = (\<lambda>_ _ _ b. (None, b)), aq_Consume = (\<lambda>_ _ _ b. (Inr [\<lparr>d_Tag = 1, d_Body = ''x''\<rparr>, \<lparr>d_Tag = 2, d_Body = ''y''\<rparr>], b)),
     aq_Ack = (\<lambda>_ _ b. (None, b)), aq_Publish = (\<lambda>_ _ _ _ b. (None, b)), aq_Close = (\<lambda>b. (None, b))\<rparr>"

text \<open>The consumer of balance changes cannot decode its messages: both are acknowledged.\<close>

theorem consumer_acks_witness:
  "\<exists>q'. WithConsumerTopic example_broker NewOptions (UpdateBalanceVA (\<lambda>_. Inl ErrGeneral) example_services) TopicUpdateVABalance
       \<lparr>app = example_state, broker = (), acked = []\<rparr> = (Ret None, q') \<and> app q' = example_state \<and> acked q' = [(1, False), (2, False)]"
proof -
  have "broker_delivers example_broker [\<lparr>d_Tag = 1, d_Body = ''x''\<rparr>, \<lparr>d_Tag = 2, d_Body = ''y''\<rparr>]"
    by (simp add: broker_delivers_def example_broker_def)
  from consumer_acks [OF this, of NewOptions "UpdateBalanceVA (\<lambda>_. Inl ErrGeneral) example_services" TopicUpdateVABalance
      "\<lparr>app = example_state, broker = (), acked = []\<rparr>"]
  show ?thesis by (simp add: UpdateBalanceVA_def ret_def acks_def)
qed

subsection \<open>A balance change that the database refuses\<close>

lemma UpdateBalanceVA_not_incremented:
  assumes "\<And>a n w. fst (mg_IncVA S a n w) = Some e" and "decode msg = Inr m"
  shows "\<exists>w. UpdateBalanceVA decode S msg s = (Ret (None, Some e), s\<lparr>world := w,
     trace := trace s @ [EvIncrementVA (vb_AccountNumber m) (fst (ParseInt (vb_Amount m))) (Some e)]\<rparr>)"
proof -
  obtain w where "mg_IncVA S (vb_AccountNumber m) (fst (ParseInt (vb_Amount m))) (world s) = (Some e, w)"
    using assms(1) by (metis prod.collapse)
  then show ?thesis
    by (intro exI [of _ w]) (simp add: UpdateBalanceVA_def assms(2) IncrementBalanceVA_def bindc_def act_def ret_def Let_def)
qed

lemma not_incremented_all:
  assumes "\<And>a n w. fst (mg_IncVA S a n w) = Some e" and "\<And>msg. decode msg = Inr (m msg)"
  shows "\<exists>w. handle_all (UpdateBalanceVA decode S) ds s = (length ds, s\<lparr>world := w,
     trace := trace s @ map (\<lambda>d. EvIncrementVA (vb_AccountNumber (m (d_Body d))) (fst (ParseInt (vb_Amount (m (d_Body d))))) (Some e)) ds\<rparr>)"
proof (induction ds arbitrary: s)
  case Nil
  show ?case by (intro exI [of _ "world s"]) simp
next
  case (Cons d ds)
  from UpdateBalanceVA_not_incremented [where S = S and decode = decode, OF assms, of "d_Body d" s] obtain w where
    w: "UpdateBalanceVA decode S (d_Body d) s = (Ret (None, Some e), s\<lparr>world := w,
     trace := trace s @ [EvIncrementVA (vb_AccountNumber (m (d_Body d))) (fst (ParseInt (vb_Amount (m (d_Body d))))) (Some e)]\<rparr>)"
    by blast
  with Cons.IH [of "s\<lparr>world := w, trace := trace s @ [EvIncrementVA (vb_AccountNumber (m (d_Body d))) (fst (ParseInt (vb_Amount (m (d_Body d))))) (Some e)]\<rparr>"]
  show ?case by auto
qed

text \<open>
  While the database refuses to change balances, every message about a balance change is acknowledged all the same: each is tried once, no order is
  written and nothing else happens, and the broker has no message left that could be tried again.
\<close>

theorem balance_changes_dropped:
  assumes "broker_delivers B ds" and "\<And>a n w. fst (mg_IncVA S a n w) = Some e" and "\<And>msg. decode msg = Inr (m msg)"
  shows "\<exists>q'. WithConsumerTopic B opts (UpdateBalanceVA decode S) TopicUpdateVABalance q = (Ret None, q') \<and>
     acked q' = acked q @ acks ds \<and>
     trace (app q') = trace (app q) @ map (\<lambda>d. EvIncrementVA (vb_AccountNumber (m (d_Body d))) (fst (ParseInt (vb_Amount (m (d_Body d))))) (Some e)) ds"
proof -
  from WithConsumerTopic_consumes [OF assms(1), of q "UpdateBalanceVA decode S" opts TopicUpdateVABalance] obtain q1 r q2
    where q: "app q1 = app q" "acked q1 = acked q" "consume_topic B (UpdateBalanceVA decode S) ds q1 = (r, q2)"
      "fst (WithConsumerTopic B opts (UpdateBalanceVA decode S) TopicUpdateVABalance q) = Ret None"
      "app (snd (WithConsumerTopic B opts (UpdateBalanceVA decode S) TopicUpdateVABalance q)) = app q2"
      "acked (snd (WithConsumerTopic B opts (UpdateBalanceVA decode S) TopicUpdateVABalance q)) = acked q2" by blast
  from not_incremented_all [where S = S and decode = decode, OF assms(2,3), of ds "app q"] obtain s where
    s: "handle_all (UpdateBalanceVA decode S) ds (app q1) = (length ds, s)"
      "trace s = trace (app q) @ map (\<lambda>d. EvIncrementVA (vb_AccountNumber (m (d_Body d))) (fst (ParseInt (vb_Amount (m (d_Body d))))) (Some e)) ds"
    using q(1) by auto
  from consume_topic_handles [OF q(3) s(1)] q s(2) show ?thesis
    by (intro exI [of _ "snd (WithConsumerTopic B opts (UpdateBalanceVA decode S) TopicUpdateVABalance q)"]) (simp add: prod_eq_iff)
qed

theorem balance_changes_dropped_witness:
  "\<exists>q'. WithConsumerTopic example_broker NewOptions (UpdateBalanceVA (\<lambda>_. Inr example_change)
        (example_services\<lparr>mg_IncVA := \<lambda>_ _ w. (Some ErrGeneral, w)\<rparr>)) TopicUpdateVABalance
       \<lparr>app = example_state, broker = (), acked = []\<rparr> = (Ret None, q') \<and> acked q' = [(1, False), (2, False)] \<and> length (trace (app q')) = 2"
proof -
  have "broker_delivers example_broker [\<lparr>d_Tag = 1, d_Body = ''x''\<rparr>, \<lparr>d_Tag = 2, d_Body = ''y''\<rparr>]"
    by (simp add: broker_delivers_def example_broker_def)
  from balance_changes_dropped [OF this, where S = "example_services\<lparr>mg_IncVA := \<lambda>_ _ w. (Some ErrGeneral, w)\<rparr>" and e = ErrGeneral
      and decode = "\<lambda>_. Inr example_change" and m = "\<lambda>_. example_change" and opts = NewOptions and q = "\<lparr>app = example_state, broker = (), acked = []\<rparr>"]
  show ?thesis by (auto simp: acks_def example_state_def)
qed

end
