(* ===== verification/Jobs.thy ===== *)
theory Jobs
  imports Refund VA_Consumer Credit_Card Cancellation Lixi Message_Queue Http_Client Format
begin

text \<open>
  The work that the requests hand to the pool: notifications (\<open>application/notification.go\<close>, the end of
  \<open>notificationTransaction\<close> in \<open>service_transaction.go\<close>, the collections \<open>database_mgo/messages\<close> and
  \<open>database_mgo/devices\<close>, \<open>infrastructure/firebase\<close>), messages to a Telegram channel (\<open>utils/telegram\<close>), and messages over MQTT.
  A request only notes a job in its trace; here the jobs are run.  Vietnamese texts are written without their marks.
\<close>

subsection \<open>What the jobs talk to\<close>

record Message =
  ms_Id :: string
  ms_Title :: string
  ms_Topic :: string
  ms_Content :: string
  ms_ContentData :: string
  ms_NeedTitleTranslate :: bool
  ms_NeedContentTranslate :: bool
  ms_IsHidden :: bool
  ms_Type :: string
  ms_StatusPush :: int
  ms_TimePush :: string
  ms_CreatedAt :: gotime
  ms_UpdatedAt :: gotime

record Devices =
  dv_Id :: string
  dv_UserId :: string
  dv_DeviceToken :: string

definition Devices_zero :: Devices where
  "Devices_zero = \<lparr>dv_Id = [], dv_UserId = [], dv_DeviceToken = []\<rparr>"

text \<open>The data of a push message: nothing, or the gift that was sent.\<close>

datatype push_data = NoData | LixiData ETransactionDTO

record fcm_message =
  fm_Data :: push_data
  fm_To :: string
  fm_RegistrationIDs :: "string list"
  fm_ContentAvailable :: bool
  fm_Priority :: string
  fm_Title :: string
  fm_Body :: string

record CreateMessageNormalRequest =
  cm_Title :: string
  cm_UserId :: string
  cm_Content :: string
  cm_TransactionId :: string
  cm_TransactionType :: string

datatype device_filter = DeviceById string | DeviceOfUser string

text \<open>
  The collections, Firebase, the user service, Telegram (the error of opening the bot, sending a text to a channel), the formatting of money and
  of times, and the merchants' callback server.
\<close>

record 'w notifier =
  nt_uuid :: "'w \<Rightarrow> string \<times> 'w"
  mg_InsertMessage :: "Message \<Rightarrow> 'w \<Rightarrow> goerror option \<times> 'w"
  mg_FindMessage :: "string \<Rightarrow> 'w \<Rightarrow> (goerror + Message) \<times> 'w"
  mg_ListMessages :: "string list \<Rightarrow> int64 \<Rightarrow> int64 \<Rightarrow> 'w \<Rightarrow> (goerror + (goerror + Message) list) \<times> 'w"
  mg_CountUnread :: "string \<Rightarrow> 'w \<Rightarrow> (int64 \<times> goerror option) \<times> 'w"
  mg_FindDevice :: "device_filter \<Rightarrow> 'w \<Rightarrow> (Devices \<times> goerror option) \<times> 'w"
  mg_InsertDevice :: "Devices \<Rightarrow> 'w \<Rightarrow> goerror option \<times> 'w"
  mg_SetDeviceToken :: "string \<Rightarrow> string \<Rightarrow> 'w \<Rightarrow> goerror option \<times> 'w"
  mg_DeleteDevices :: "string \<Rightarrow> string \<Rightarrow> 'w \<Rightarrow> goerror option \<times> 'w"
  nt_ParseTime :: "string \<Rightarrow> gotime \<times> goerror option"
  fc_Send :: "fcm_message \<Rightarrow> 'w \<Rightarrow> goerror option \<times> 'w"
  nt_Unescape :: "string \<Rightarrow> string"
  nt_FormatMoney :: "64 word \<Rightarrow> string"
  nt_Comma :: "int64 \<Rightarrow> string"
  nt_LocalTime :: "gotime \<Rightarrow> string"
  ur_CreateMessageNormal :: "CreateMessageNormalRequest \<Rightarrow> 'w \<Rightarrow> goerror option \<times> 'w"
  tg_NewBot :: "'w \<Rightarrow> goerror option \<times> 'w"
  tg_Send :: "string \<Rightarrow> int64 \<Rightarrow> 'w \<Rightarrow> goerror option \<times> 'w"
  tg_QR :: int64
  tg_Fraud :: int64
  tg_Refund :: int64
  tg_Va :: int64
  cb_Server :: "('w, unit) http_server"
  cb_Uri :: string
  cb_Headers :: "(string \<times> string) list"

subsection \<open>Notifications\<close>

definition messages_CreateMessage :: "'w notifier \<Rightarrow> Message \<Rightarrow> ('w st, goerror + Message) comp" where
  "messages_CreateMessage N message =
     bindc (ask (mg_InsertMessage N message)) (\<lambda>err. case err of
       Some e \<Rightarrow> ret (Inl e)
     | None \<Rightarrow> ask (mg_FindMessage N (ms_Id message)))"

definition FindByUserId :: "'w notifier \<Rightarrow> string \<Rightarrow> ('w st, Devices \<times> goerror option) comp" where
  "FindByUserId N user_id = ask (mg_FindDevice N (DeviceOfUser user_id))"

definition SendByToken :: "'w notifier \<Rightarrow> string list \<Rightarrow> string \<Rightarrow> string \<Rightarrow> push_data \<Rightarrow> ('w st, goerror option) comp" where
  "SendByToken N tokens title body data =
     ask (fc_Send N \<lparr>fm_Data = data, fm_To = [], fm_RegistrationIDs = tokens, fm_ContentAvailable = True, fm_Priority = ''high'',
       fm_Title = title, fm_Body = body\<rparr>)"

text \<open>
  The rest of the collections and of Firebase, which the application does not use.  \<open>mg_ListMessages\<close> finds the pushed messages of some topics, latest first;
  a message that cannot be decoded is a nil pointer that is dereferenced.  When its time of push cannot be parsed, a message
  gets the zero time that \<open>time.Parse\<close> returns.
\<close>

definition messages_FindById :: "'w notifier \<Rightarrow> string \<Rightarrow> ('w st, goerror + Message) comp" where
  "messages_FindById N i = ask (mg_FindMessage N i)"

fun decode_messages :: "'w notifier \<Rightarrow> (goerror + Message) list \<Rightarrow> Message list \<Rightarrow> goerror option \<Rightarrow> ('s, Message list \<times> goerror option) comp" where
  "decode_messages N [] messages err = ret (messages, err)"
| "decode_messages N (Inl e # cur) messages err = panic ''nil pointer dereference''"
| "decode_messages N (Inr message # cur) messages err =
     (if ms_TimePush message \<noteq> [] then
        case nt_ParseTime N (ms_TimePush message @ '' +0000 UTC'') of
          (t, None) \<Rightarrow> decode_messages N cur (messages @ [message\<lparr>ms_CreatedAt := t - 7 * 3600 * 1000000000\<rparr>]) None
        | (t, Some e) \<Rightarrow> decode_messages N cur (messages @ [message\<lparr>ms_CreatedAt := t\<rparr>]) (Some e)
      else decode_messages N cur (messages @ [message]) None)"

definition ListMessage :: "'w notifier \<Rightarrow> int64 \<Rightarrow> string list \<Rightarrow> ('w st, Message list \<times> goerror option) comp" where
  "ListMessage N offset topics =
     bindc (ask (mg_ListMessages N (topics @ [''/topics/wallet-all'', ''/topics/wallet-ios'', ''/topics/wallet-android'']) offset 10)) (\<lambda>r. case r of
       Inl e \<Rightarrow> ret ([], Some e)
     | Inr cur \<Rightarrow> decode_messages N cur [] None)"

definition CountMessageStatusUnread :: "'w notifier \<Rightarrow> string \<Rightarrow> ('w st, int64 \<times> goerror option) comp" where
  "CountMessageStatusUnread N uid = ask (mg_CountUnread N uid)"

definition devices_FindById :: "'w notifier \<Rightarrow> string \<Rightarrow> ('w st, Devices \<times> goerror option) comp" where
  "devices_FindById N i = ask (mg_FindDevice N (DeviceById i))"

definition CreateDevice :: "'w notifier \<Rightarrow> Devices \<Rightarrow> ('w st, Devices option \<times> goerror option) comp" where
  "CreateDevice N devices =
     bindc (ask (mg_InsertDevice N devices)) (\<lambda>err. case err of
       Some e \<Rightarrow> ret (None, Some e)
     | None \<Rightarrow> bindc (devices_FindById N (dv_Id devices)) (\<lambda>(d, err). ret (Some d, err)))"

definition UpdateDevice :: "'w notifier \<Rightarrow> string \<Rightarrow> string \<Rightarrow> ('w st, goerror option) comp" where
  "UpdateDevice N device_id device_token = ask (mg_SetDeviceToken N device_id device_token)"

text \<open>All devices of the user, and the device with the id.\<close>

definition DeleteDevice :: "'w notifier \<Rightarrow> string \<Rightarrow> string \<Rightarrow> ('w st, goerror option) comp" where
  "DeleteDevice N device_id user_id = ask (mg_DeleteDevices N user_id device_id)"

text \<open>\<open>topic[0:1]\<close> panics on an empty topic.\<close>

definition firebase_Send :: "'w notifier \<Rightarrow> string \<Rightarrow> string \<Rightarrow> string \<Rightarrow> push_data \<Rightarrow> ('w st, goerror option) comp" where
  "firebase_Send N topic title body data = (case topic of
     [] \<Rightarrow> panic ''slice bounds out of range''
   | c # cs \<Rightarrow> ask (fc_Send N \<lparr>fm_Data = data, fm_To = (if c \<noteq> CHR ''/'' then ''/topics/'' @ topic else topic), fm_RegistrationIDs = [],
       fm_ContentAvailable = True, fm_Priority = ''high'', fm_Title = title, fm_Body = body\<rparr>))"

text \<open>The error of storing the message is overwritten by the next call.\<close>

definition CreateMessage :: "'w services \<Rightarrow> 'w notifier \<Rightarrow> string \<Rightarrow> string \<Rightarrow> string \<Rightarrow> push_data \<Rightarrow> ('w st, goerror option) comp" where
  "CreateMessage S N title user_id content data =
     bindc (ask (nt_uuid N)) (\<lambda>uuid.
     bindc (ask (sv_now S)) (\<lambda>created.
     bindc (ask (sv_now S)) (\<lambda>updated.
     thenc (messages_CreateMessage N \<lparr>ms_Id = uuid, ms_Title = title, ms_Topic = ''/topics/'' @ user_id, ms_Content = content,
         ms_ContentData = [], ms_NeedTitleTranslate = False, ms_NeedContentTranslate = False, ms_IsHidden = False, ms_Type = [],
         ms_StatusPush = 1, ms_TimePush = [], ms_CreatedAt = created, ms_UpdatedAt = updated\<rparr>)
    (bindc (FindByUserId N user_id) (\<lambda>(device, err). case err of
       Some e \<Rightarrow> ret (Some e)
     | None \<Rightarrow> SendByToken N [dv_DeviceToken device] title (nt_Unescape N content) data)))))"

definition CreateMessageNormal :: "'w notifier \<Rightarrow> string \<Rightarrow> string \<Rightarrow> string \<Rightarrow> string \<Rightarrow> string \<Rightarrow> ('w st, unit) comp" where
  "CreateMessageNormal N title user content transactionId transactionType =
     thenc (ask (ur_CreateMessageNormal N \<lparr>cm_Title = title, cm_UserId = user, cm_Content = content,
       cm_TransactionId = transactionId, cm_TransactionType = transactionType\<rparr>)) (ret ())"

text \<open>By the type of the transaction, then by the old type that the clients know.\<close>

definition notify_type :: "'w services \<Rightarrow> 'w notifier \<Rightarrow> ETransactionDTO \<Rightarrow> TransactionDetail \<Rightarrow> ('w st, unit) comp" where
  "notify_type S N dto tran =
     (if tx_TransactionType dto = TRANSTYPE_WALLET_LIXI then
        thenc (CreateMessage S N ''Gpay'' (tx_PayeeId dto) (''Chuc mung! Ban vua nhan duoc li xi tu '' @ tx_Message dto) (LixiData dto)) (ret ())
      else if tx_TransactionType dto = TRANSTYPE_WALLET_REFUND then
        CreateMessageNormal N ''Hoan tien giao dich thanh cong'' (tx_UserReceiveRefund dto)
          (''Ban vua duoc hoan '' @ nt_FormatMoney N (td_Amount tran) @ '' VND tu giao dich '' @ tx_TransactionSourceRefund dto)
          (td_TransactionId tran) TRANSTYPE_WALLET_REFUND
      else ret ())"

definition notify_old_type :: "'w notifier \<Rightarrow> TransactionDetail \<Rightarrow> ('w st, unit) comp" where
  "notify_old_type N tran =
     (if td_Type tran = TransactionTypeTransferGpoint then
        CreateMessageNormal N ''Ban vua nhan tien thanh cong'' (us_Id (td_Payee tran))
          (''Ban vua nhan duoc '' @ nt_FormatMoney N (td_Amount tran) @ '' VND tu so dien thoai '') (td_TransactionId tran) (td_Type tran)
      else if td_Type tran = TransactionTypeBalanceChangeDeposit then
        CreateMessageNormal N ''Ban vua nap thanh cong'' (td_PayeeId tran)
          (''Ban vua nap thanh cong '' @ nt_Comma N (td_Amount tran) @ '' VND'') (td_TransactionId tran) (td_Type tran)
      else if td_Type tran = TransactionTypeBalanceChangeWithdraw then
        CreateMessageNormal N ''Ban vua rut thanh cong'' (td_PayerId tran)
          (''Ban vua rut thanh cong '' @ nt_Comma N (td_Amount tran) @ '' VND'') (td_TransactionId tran) (td_Type tran)
      else ret ())"

subsection \<open>Telegram\<close>

definition newline :: string where
  "newline = [CHR 0x0A]"

definition tabs :: "nat \<Rightarrow> string" where
  "tabs n = replicate n (CHR 0x09)"

text \<open>The texts are formatted, and the result is passed as a format once more.\<close>

definition SendOrderInfo :: "'w notifier \<Rightarrow> OrderEntity \<Rightarrow> string" where
  "SendOrderInfo N d = Sprintf
     (newline @ ''Ma order: '' @ oe_OrderID d @ newline @ ''Merchant code: '' @ oe_MerchantCode d @ newline @
      ''Loai giao dich: '' @ oe_OrderType d @ '' - '' @ oe_SubOrderType d @ newline @
      ''Trang thai: '' @ StatusString (oe_Status d) @ '' '' @ newline @ ''So tien:  '' @ sprint (sint (oe_Amount d)) @ newline @
      ''Thoi gian tao:  '' @ nt_LocalTime N (oe_CreatedAt d) @ newline @ tabs 5)"

definition SendOrderFraud :: "'w notifier \<Rightarrow> OrderEntity \<Rightarrow> ETransactionDTO \<Rightarrow> Fraud \<Rightarrow> string" where
  "SendOrderFraud N d t f = Sprintf
     (newline @ ''Canh bao Blacklist giao dich the quoc te'' @ newline @ ''Giao dich: '' @ tx_TransactionId t @ newline @
      ''So tien :  '' @ sprint (sint (oe_Amount d)) @ newline @ ''Thoi gian tao don hang:  '' @ nt_LocalTime N (oe_CreatedAt d) @ newline @
      ''So the:  '' @ fd_CardNumber f @ newline @ tabs 3 @ [] @ tabs 2)"

definition SendMerchantRefund :: "'w notifier \<Rightarrow> OrderEntity \<Rightarrow> string \<Rightarrow> ETransactionDTO \<Rightarrow> string" where
  "SendMerchantRefund N d refundId source = Sprintf
     (newline @ ''REQUEST REFUND MERCHANT '' @ newline @ ''Have a request refund from  '' @ oe_MerchantCode d @ '' '' @ newline @
      ''ID : '' @ refundId @ newline @ ''Amount :  '' @ sprint (sint (oe_Amount d)) @ newline @
      ''Service Type : '' @ tx_ServiceType source @ newline @ ''TransType : '' @ tx_TransactionType source @ newline @
      ''Time :  '' @ nt_LocalTime N (oe_CreatedAt d) @ newline @
      ''Type of confirm:  '' @ (if IsSuccess (oe_Status d) then ''AUTOMATIC'' else ''MANUAL'') @ newline @ tabs 3)"

text \<open>The error of opening the bot is printed, and then the nil bot used; an error of sending is a panic.\<close>

definition SendTelegram :: "'w notifier \<Rightarrow> string \<Rightarrow> int64 \<Rightarrow> ('w st, unit) comp" where
  "SendTelegram N message channelId =
     bindc (ask (tg_NewBot N)) (\<lambda>err. case err of
       Some _ \<Rightarrow> panic ''nil pointer dereference''
     | None \<Rightarrow> bindc (ask (tg_Send N message channelId)) (\<lambda>err. case err of
         Some e \<Rightarrow> panic (Error e)
       | None \<Rightarrow> ret ()))"

definition channel_id :: "'w notifier \<Rightarrow> channel \<Rightarrow> int64" where
  "channel_id N c = (case c of ChannelQR \<Rightarrow> tg_QR N | ChannelVa \<Rightarrow> tg_Va N)"

definition success_telegram :: "'w notifier \<Rightarrow> OrderEntity \<Rightarrow> ('w st, unit) comp" where
  "success_telegram N orderDto = (case sendSuccessOrderTelegram orderDto of
     None \<Rightarrow> ret ()
   | Some c \<Rightarrow> SendTelegram N (SendOrderInfo N orderDto) (channel_id N c))"

subsection \<open>The jobs\<close>

definition resend_va :: "'w notifier \<Rightarrow> string \<Rightarrow> ('w st, unit) comp" where
  "resend_va N orderId =
     thenc (ask (HttpRequest (cb_Server N) (cb_Uri N) (''virtual-account/resend-va-transaction/'' @ orderId) ''GET'' (cb_Headers N) ''null'' ())) (ret ())"

definition refund_notify :: "'w services \<Rightarrow> ETransactionDTO \<Rightarrow> ('w st, unit) comp" where
  "refund_notify S t =
     thenc (MqttUpdateProfile S UPDATE_USER_INFO (tx_UserReceiveRefund t) (tx_UserReceiveRefund t))
    (thenc (SendMqttTransactionByObject S UPDATE_TRANSACTION t) (notificationTransaction S t))"

text \<open>The order of a refund has the merchant of the request as its merchant.\<close>

fun run_job :: "'w services \<Rightarrow> 'w notifier \<Rightarrow> job \<Rightarrow> ('w st, unit) comp" where
  "run_job S N (JobSuccessTelegram d) = success_telegram N d"
| "run_job S N (JobNotification dto tran) = thenc (notify_type S N dto tran) (notify_old_type N tran)"
| "run_job S N (JobResendVA orderId) = resend_va N orderId"
| "run_job S N (JobCancelMessage tran) =
     thenc (CreateMessageMqtt S TopicUpdateCancelOrder MQTTEventBackground TopicUpdateCancelOrder (MTrans tran) False) (ret ())"
| "run_job S N (JobMerchantRefund d refundId t) =
     whenc (oe_SubscribeMerchantID d \<noteq> []) (SendTelegram N (SendMerchantRefund N d refundId t) (tg_Refund N))"
| "run_job S N (JobRefundNotify t) = refund_notify S t"
| "run_job S N (JobVABalance t) =
     thenc (CreateMessageMqtt S TopicMQTTUpdateBalanceVA MQTTEventBackground TopicMQTTUpdateBalanceVA (MTx t) False) (ret ())"
| "run_job S N (JobOrderFraud d t f) = SendTelegram N (SendOrderFraud N d t f) (tg_Fraud N)"

subsection \<open>What jobs append to the trace\<close>

text \<open>\<open>appends A m\<close>: whatever \<open>m\<close> does, also when it panics, it only extends the trace, with events of the kind \<open>A\<close>.\<close>

named_theorems appends_rules \<open>rules for the kinds of events\<close>

definition grows :: "(event \<Rightarrow> bool) \<Rightarrow> 'w st \<Rightarrow> 'w st \<Rightarrow> bool" where
  "grows A s t \<longleftrightarrow> (\<exists>es. trace t = trace s @ es \<and> list_all A es)"

definition appends :: "(event \<Rightarrow> bool) \<Rightarrow> ('w st, 'a) comp \<Rightarrow> bool" where
  "appends A m \<longleftrightarrow> (\<forall>s. grows A s (snd (m s)))"

lemma grows_refl: "trace t = trace s \<Longrightarrow> grows A s t"
  by (simp add: grows_def)

lemma grows_trans: "grows A s t \<Longrightarrow> grows A t u \<Longrightarrow> grows A s u"
  by (force simp: grows_def)

lemma grows_mono: "grows A s t \<Longrightarrow> (\<And>e. A e \<Longrightarrow> B e) \<Longrightarrow> grows B s t"
  by (auto simp: grows_def list_all_iff)

lemma appends_mono: "appends A m \<Longrightarrow> (\<And>e. A e \<Longrightarrow> B e) \<Longrightarrow> appends B m"
  by (auto simp: appends_def intro: grows_mono)

lemma appends_primitive [appends_rules]:
  "appends A (ret a)" "appends A (panic e)" "appends A (gets f)" "appends A (ask g)"
  by (auto simp: appends_def gets_def ask_def split: prod.split intro: grows_refl)

lemma appends_event [appends_rules]:
  "(\<And>a. A (ev a)) \<Longrightarrow> appends A (act f ev)" "A e \<Longrightarrow> appends A (emit e)"
  by (auto simp: appends_def act_def emit_def modify_def grows_def split: prod.split)

lemma appends_bindc [appends_rules]:
  assumes m: "appends A (m :: ('w st, 'a) comp)" and f: "\<And>a. appends A (f a)"
  shows "appends A (bindc m f)"
  unfolding appends_def
proof
  fix s :: "'w st"
  obtain r t where t: "m s = (r, t)" by force
  with m [unfolded appends_def, rule_format, of s] have "grows A s t" by simp
  with f [unfolded appends_def, rule_format, of t] show "grows A s (snd (bindc m f s))"
    by (cases r) (auto simp: bindc_def t intro: grows_trans)
qed

lemma appends_deref [appends_rules]: "appends A (deref p)"
  by (cases p) (simp_all add: appends_rules)

lemma appends_if [appends_rules]: "appends A m \<Longrightarrow> appends A n \<Longrightarrow> appends A (if b then m else n)"
  by simp

lemma appends_whenc [appends_rules]: "appends A m \<Longrightarrow> appends A (whenc b m)"
  by (simp add: whenc_def appends_rules)

lemma appends_option [appends_rules]:
  "appends A m \<Longrightarrow> (\<And>a. appends A (f a)) \<Longrightarrow> appends A (case p of None \<Rightarrow> m | Some a \<Rightarrow> f a)"
  by (simp split: option.split)

lemma appends_sum [appends_rules]:
  "(\<And>x. appends A (g x)) \<Longrightarrow> (\<And>y. appends A (h y)) \<Longrightarrow> appends A (case q of Inl x \<Rightarrow> g x | Inr y \<Rightarrow> h y)"
  by (simp split: sum.split)

lemma appends_prod [appends_rules]: "(\<And>x y. appends A (k x y)) \<Longrightarrow> appends A (case r of (x, y) \<Rightarrow> k x y)"
  by (simp split: prod.split)

text \<open>Messages to clients; and these together with jobs that note no further job.\<close>

fun is_mqtt :: "event \<Rightarrow> bool" where
  "is_mqtt (EvMqtt _ _ _ _) = True"
| "is_mqtt _ = False"

fun is_last_job :: "job \<Rightarrow> bool" where
  "is_last_job (JobRefundNotify _) = False"
| "is_last_job _ = True"

fun is_follow_up :: "event \<Rightarrow> bool" where
  "is_follow_up (EvMqtt _ _ _ _) = True"
| "is_follow_up (EvSubmit j) = is_last_job j"
| "is_follow_up _ = False"

lemma GetProfile_appends [appends_rules]: "appends A (GetProfile S i)"
  unfolding GetProfile_def by (intro appends_rules)

lemma ConvertETransToDetail_appends [appends_rules]: "appends is_follow_up (ConvertETransToDetail S t)"
  unfolding ConvertETransToDetail_def by (intro appends_rules) simp_all

lemma CreateMessageMqtt_appends [appends_rules]:
  "(\<And>e k. A (EvMqtt topic ev k data)) \<Longrightarrow> appends A (CreateMessageMqtt S topic ev k data retain)"
  unfolding CreateMessageMqtt_def by (intro appends_rules)

lemma MqttUpdateProfile_appends [appends_rules]: "appends is_follow_up (MqttUpdateProfile S e p q)"
  unfolding MqttUpdateProfile_def by (intro appends_rules) simp_all

lemma SendMqtt_appends [appends_rules]: "appends is_follow_up (SendMqttTransactionByObject S e t)"
  unfolding SendMqttTransactionByObject_def Let_def by (intro appends_rules) simp_all

lemma notificationTransaction_appends [appends_rules]: "appends is_follow_up (notificationTransaction S t)"
  unfolding notificationTransaction_def by (intro appends_rules) simp_all

lemma CreateMessage_appends [appends_rules]: "appends A (CreateMessage S N title user content data)"
  unfolding CreateMessage_def messages_CreateMessage_def FindByUserId_def SendByToken_def by (intro appends_rules)

lemma CreateMessageNormal_appends [appends_rules]: "appends A (CreateMessageNormal N title user content i k)"
  unfolding CreateMessageNormal_def by (intro appends_rules)

lemma SendTelegram_appends [appends_rules]: "appends A (SendTelegram N message channel)"
  unfolding SendTelegram_def by (intro appends_rules)

lemma run_job_last: "is_last_job j \<Longrightarrow> appends is_mqtt (run_job S N j)"
  by (cases j) (auto simp: success_telegram_def notify_type_def notify_old_type_def resend_va_def intro!: appends_rules)

lemma run_job_follow_up: "appends is_follow_up (run_job S N j)"
proof (cases "is_last_job j")
  case True
  then show ?thesis by (rule appends_mono [OF run_job_last]) (erule is_mqtt.elims; simp)
next
  case False
  then show ?thesis by (cases j) (simp_all add: refund_notify_def appends_rules)
qed

subsection \<open>The pool\<close>

text \<open>The pool runs a task and logs its panic; the tasks noted in the meantime wait.\<close>

fun run_jobs :: "'w services \<Rightarrow> 'w notifier \<Rightarrow> job list \<Rightarrow> 'w st \<Rightarrow> 'w st" where
  "run_jobs S N [] s = s"
| "run_jobs S N (j # js) s = run_jobs S N js (snd (run_job S N j s))"

fun jobs_of :: "event list \<Rightarrow> job list" where
  "jobs_of [] = []"
| "jobs_of (EvSubmit j # es) = j # jobs_of es"
| "jobs_of (_ # es) = jobs_of es"

definition noted_since :: "'w st \<Rightarrow> 'w st \<Rightarrow> job list" where
  "noted_since s t = jobs_of (drop (length (trace s)) (trace t))"

lemma run_jobs_grow: "(\<And>j. j \<in> set js \<Longrightarrow> appends A (run_job S N j)) \<Longrightarrow> grows A s (run_jobs S N js s)"
proof (induction js arbitrary: s)
  case (Cons j js)
  have "grows A s (snd (run_job S N j s))" using Cons.prems [of j] by (simp add: appends_def)
  moreover have "grows A (snd (run_job S N j s)) (run_jobs S N (j # js) s)" using Cons by simp
  ultimately show ?case by (rule grows_trans)
qed (simp add: grows_refl)

lemma jobs_of_mqtt: "list_all is_mqtt es \<Longrightarrow> jobs_of es = []"
  by (induction es rule: jobs_of.induct) simp_all

lemma jobs_of_follow_up: "list_all is_follow_up es \<Longrightarrow> list_all is_last_job (jobs_of es)"
  by (induction es rule: jobs_of.induct) simp_all

lemma grows_key: "grows A s t \<Longrightarrow> (\<And>e. A e \<Longrightarrow> \<not> is_key e) \<Longrightarrow> key (trace t) = key (trace s)"
  by (auto simp: grows_def list_all_iff)

lemma follow_up_not_key: "is_follow_up e \<Longrightarrow> \<not> is_key e"
  by (cases e) simp_all

text \<open>
  C33: whatever jobs the requests have handed to the pool, and whatever the services answer, running them (each to its end or to a panic, which the pool
  logs) and then the jobs that they have noted themselves leaves no job to run, and no order was written and no money moved.
\<close>

theorem jobs_settle:
  "let t = run_jobs S N js s; u = run_jobs S N (noted_since s t) t in
     noted_since t u = [] \<and> key (trace u) = key (trace s)"
proof -
  let ?t = "run_jobs S N js s"
  let ?u = "run_jobs S N (noted_since s ?t) ?t"
  have t: "grows is_follow_up s ?t" by (rule run_jobs_grow) (rule run_job_follow_up)
  then have "list_all is_last_job (noted_since s ?t)"
    by (auto simp: grows_def noted_since_def jobs_of_follow_up)
  then have u: "grows is_mqtt ?t ?u"
    by (intro run_jobs_grow run_job_last) (auto simp: list_all_iff)
  then have "noted_since ?t ?u = []" by (auto simp: grows_def noted_since_def jobs_of_mqtt)
  moreover from grows_key [OF u] grows_key [OF t follow_up_not_key] have "key (trace ?u) = key (trace s)"
    by (metis is_key.simps(1) is_mqtt.elims(2))
  ultimately show ?thesis by (simp add: Let_def)
qed

subsection \<open>The jobs of the server\<close>

text \<open>
  \<open>main\<close> submits two tasks that run a job at every tick of a timer: lucky money every three seconds, when the configuration asks for jobs, and expired orders every
  five.  \<open>ticks n\<close> are the first \<open>n\<close> rounds of the loop.
\<close>

fun ticks :: "nat \<Rightarrow> ('s, unit) comp \<Rightarrow> ('s, unit) comp" where
  "ticks 0 jb = ret ()"
| "ticks (Suc n) jb = thenc jb (ticks n jb)"

definition lixi_task :: "nat \<Rightarrow> 'w services \<Rightarrow> bool \<Rightarrow> ('w st, unit) comp" where
  "lixi_task n S config_Job = (if config_Job then Submit (ticks n (JobLixi S)) else ret ())"

definition expiry_task :: "nat \<Rightarrow> 'w services \<Rightarrow> ('w st, unit) comp" where
  "expiry_task n S = Submit (ticks n (JobCancelExpiredOrder S))"

lemma ticks_stop: "jb s = (Panic e, t) \<Longrightarrow> ticks (Suc n) jb s = (Panic e, t)"
  by (simp add: bindc_def)

text \<open>A job that panics once is not run again: the pool logs the panic, and the task with its loop is over.\<close>

theorem expiry_stops:
  assumes "JobCancelExpiredOrder S s = (Panic e, t)"
  shows "expiry_task (Suc n) S s = (Ret (), t)"
  using ticks_stop [of "JobCancelExpiredOrder S" s e t n, OF assms] by (simp add: expiry_task_def Submit_def del: ticks.simps)

end
