(* ===== verification/Gen_Ids.thy ===== *)
theory Gen_Ids
  imports Order_Service
begin

text \<open>
  The generator of ids of \<open>utils/gen_ids\<close>: for every prefix a goroutine that owns a counter and hands it out over a
  channel.  The goroutine works on a copy of the entry of \<open>ObjIDs\<close>; the requests of all callers reach it one after the other.
\<close>

subsection \<open>A generator\<close>

record ObID =
  ob_Prefix :: string
  ob_LatestId :: int64
  ob_Date :: int
  ob_MaxLen :: int

definition InitGenIDservice :: "int \<Rightarrow> string \<rightharpoonup> ObID" where
  "InitGenIDservice today = (\<lambda>prefix. if prefix \<in> set [''OR'', ''GP'', '''', ''BG'']
     then Some \<lparr>ob_Prefix = prefix, ob_LatestId = 1, ob_Date = today, ob_MaxLen = 9\<rparr> else None)"

text \<open>One round of the goroutine, on the day \<open>today\<close> of the month: the number is sent, then the counter advanced.\<close>

definition next_number :: "int \<Rightarrow> ObID \<Rightarrow> int64 \<times> ObID" where
  "next_number today ob =
     (ob_LatestId ob, ob\<lparr>ob_LatestId := (if ob_Date ob \<noteq> today then 1 else ob_LatestId ob + 1)\<rparr>)"

definition pad_id :: "int \<Rightarrow> string \<Rightarrow> string" where
  "pad_id MaxLen gen_id =
     (if int (length gen_id) < MaxLen then pad_zeros (nat (MaxLen - int (length gen_id))) gen_id else gen_id)"

definition render_number :: "int \<Rightarrow> string \<Rightarrow> string \<Rightarrow> int64 \<Rightarrow> string" where
  "render_number MaxLen prefix date data = (
     let gen_id = pad_id MaxLen (sprint (sint data)) in
     if prefix = '''' then date @ gen_id else prefix @ date @ ''-'' @ gen_id)"

text \<open>
  An unknown prefix has no channel, and sending on a nil channel blocks forever: \<open>None\<close>.  \<open>objs\<close> are the counters as
  their goroutines have them, \<open>date\<close> is today as \<open>20060102\<close>.
\<close>

definition GetId :: "int \<Rightarrow> string \<Rightarrow> string \<Rightarrow> (string \<rightharpoonup> ObID) \<Rightarrow> (string \<times> (string \<rightharpoonup> ObID)) option" where
  "GetId today date prefix objs = (case objs prefix of
     None \<Rightarrow> None
   | Some ob \<Rightarrow> (case next_number today ob of (data, ob') \<Rightarrow>
       Some (render_number (ob_MaxLen ob) prefix date data, objs(prefix \<mapsto> ob'))))"

definition GetIdOrderId :: "int \<Rightarrow> string \<Rightarrow> (string \<rightharpoonup> ObID) \<Rightarrow> (string \<times> (string \<rightharpoonup> ObID)) option" where
  "GetIdOrderId today date = GetId today date ''GP''"

definition GetIdTransactionId :: "int \<Rightarrow> string \<Rightarrow> (string \<rightharpoonup> ObID) \<Rightarrow> (string \<times> (string \<rightharpoonup> ObID)) option" where
  "GetIdTransactionId today date = GetId today date ''''"

subsection \<open>Sequences of requests\<close>

text \<open>A generator is asked on the days \<open>days\<close>, one request after the other.\<close>

fun numbers :: "int list \<Rightarrow> ObID \<Rightarrow> int64 list" where
  "numbers [] ob = []"
| "numbers (today # days) ob = (case next_number today ob of (n, ob') \<Rightarrow> n # numbers days ob')"

fun counter_after :: "int list \<Rightarrow> ObID \<Rightarrow> ObID" where
  "counter_after [] ob = ob"
| "counter_after (today # days) ob = counter_after days (snd (next_number today ob))"

lemma numbers_snoc: "numbers (days @ [d]) ob = numbers days ob @ [ob_LatestId (counter_after days ob)]"
  by (induction days arbitrary: ob) (simp_all add: next_number_def)

lemma counter_after_snoc: "counter_after (days @ [d]) ob = snd (next_number d (counter_after days ob))"
  by (induction days arbitrary: ob) simp_all

text \<open>How many of the last requests came on the day the service was started.\<close>

definition streak :: "int \<Rightarrow> int list \<Rightarrow> nat" where
  "streak start days = length (takeWhile (\<lambda>d. d = start) (rev days))"

lemma counter_after_streak:
  assumes "ob_LatestId ob = 1"
  shows "counter_after days ob = ob\<lparr>ob_LatestId := 1 + of_nat (streak (ob_Date ob) days)\<rparr>"
proof (induction days rule: rev_induct)
  case Nil
  with assms show ?case by (cases ob) (simp add: streak_def)
next
  case (snoc d days)
  then show ?case by (simp add: counter_after_snoc next_number_def streak_def)
qed

lemma numbers_streak:
  assumes "ob_LatestId ob = 1"
  shows "numbers days ob = map (\<lambda>k. 1 + of_nat (streak (ob_Date ob) (take k days))) [0..<length days]"
proof (induction days rule: rev_induct)
  case (snoc d days)
  then show ?case by (simp add: numbers_snoc counter_after_streak [OF assms])
qed simp

lemma streak_nil [simp]: "streak start [] = 0"
  by (simp add: streak_def)

lemma streak_same: "\<forall>d\<in>set days. d = start \<Longrightarrow> streak start days = length days"
  by (induction days rule: rev_induct) (simp_all add: streak_def)

text \<open>Requests for ids: the day of the month on which the generator serves each, and today as its caller writes it.\<close>

fun GetIds :: "string \<Rightarrow> (int \<times> string) list \<Rightarrow> (string \<rightharpoonup> ObID) \<Rightarrow> string list option" where
  "GetIds prefix [] objs = Some []"
| "GetIds prefix ((today, date) # reqs) objs = (case GetId today date prefix objs of
     None \<Rightarrow> None
   | Some (i, objs') \<Rightarrow> map_option (\<lambda>is. i # is) (GetIds prefix reqs objs'))"

lemma GetIds_numbers:
  assumes "objs prefix = Some ob"
  shows "GetIds prefix reqs objs =
     Some (map2 (\<lambda>req n. render_number (ob_MaxLen ob) prefix (snd req) n) reqs (numbers (map fst reqs) ob))"
  using assms
proof (induction reqs arbitrary: objs ob)
  case (Cons req reqs)
  obtain today date where req: "req = (today, date)" by force
  let ?ob = "snd (next_number today ob)"
  from Cons.prems have "GetId today date prefix objs = Some (render_number (ob_MaxLen ob) prefix date (ob_LatestId ob), objs(prefix \<mapsto> ?ob))"
    by (simp add: GetId_def next_number_def)
  moreover have "numbers (today # days) ob = ob_LatestId ob # numbers days ?ob" "ob_MaxLen ?ob = ob_MaxLen ob" for days
    by (simp_all add: next_number_def)
  ultimately show ?case using Cons.IH [of "objs(prefix \<mapsto> ?ob)" ?ob, OF fun_upd_same] by (simp add: req del: fun_upd_apply)
qed simp

text \<open>
  Asked any number of times on any days, a generator returns what this says without a state: the number of an id is one more
  than the number of requests since the last one that came on another day of the month than the day the service was started.
  On that day the numbers are 1, 2, 3 and so on; on every other day they are all 1.  An unknown prefix never gets an answer.
\<close>

theorem GetId_sequence:
  "GetIds prefix reqs (InitGenIDservice start) =
     (if prefix \<in> {''OR'', ''GP'', '''', ''BG''} \<or> reqs = []
      then Some (map (\<lambda>k. render_number 9 prefix (snd (reqs ! k)) (1 + of_nat (streak start (map fst (take k reqs))))) [0..<length reqs])
      else None)"
proof (cases "prefix \<in> {''OR'', ''GP'', '''', ''BG''}")
  case True
  then have ob: "InitGenIDservice start prefix = Some \<lparr>ob_Prefix = prefix, ob_LatestId = 1, ob_Date = start, ob_MaxLen = 9\<rparr>"
    by (auto simp: InitGenIDservice_def)
  from True show ?thesis
    by (simp only: GetIds_numbers [of "InitGenIDservice start" prefix, OF ob] if_True simp_thms)
      (auto simp: numbers_streak take_map intro: nth_equalityI)
next
  case False
  then show ?thesis by (cases reqs) (auto simp: GetId_def InitGenIDservice_def)
qed

end
