(* ===== verification/Order_Ids.thy ===== *)
theory Order_Ids
  imports Services
begin

text \<open>
  Order ids when several requests run at the same time: the index that \<open>NewOrderCollectionImpl\<close> asks for
  (\<open>database_mgo/order/order_collection.go\<close>, \<open>utils/mongoindex\<close>), and \<open>incrementID\<close> with its calls to the database interleaved with
  those of other requests.
\<close>

subsection \<open>Indexes\<close>

record index_model =
  ix_Keys :: "(string \<times> int) list"
  ix_Background :: bool
  ix_Unique :: bool

text \<open>
  Listing the indexes of a collection gives their names; one that cannot be decoded has none.
\<close>

record 's index_server =
  ix_List :: "string \<Rightarrow> 's \<Rightarrow> (goerror + string option list) \<times> 's"
  ix_CreateOne :: "string \<Rightarrow> index_model \<Rightarrow> 's \<Rightarrow> goerror option \<times> 's"

fun join_names :: "string list \<Rightarrow> string" where
  "join_names [] = []"
| "join_names [n] = n"
| "join_names (n # ns) = n @ ''_'' @ join_names ns"

definition index_name :: "(string \<times> int) list \<Rightarrow> string" where
  "index_name ks = join_names (map (\<lambda>(k, v). k @ ''_'' @ sprint v) ks)"

text \<open>An index counts as there when one has its name, unique or not.\<close>

definition EnsureIndex :: "'s index_server \<Rightarrow> string \<Rightarrow> (string \<times> int) list \<Rightarrow> bool \<Rightarrow> 's \<Rightarrow> goerror option \<times> 's" where
  "EnsureIndex X c ks unique s = (case ix_List X c s of
     (Inl err, s') \<Rightarrow> (Some err, s')
   | (Inr names, s') \<Rightarrow>
       if Some (index_name ks) \<in> set names then (None, s')
       else ix_CreateOne X c \<lparr>ix_Keys = ks, ix_Background = True, ix_Unique = unique\<rparr> s')"

text \<open>The errors are dropped.\<close>

definition NewOrderCollectionImpl :: "'s index_server \<Rightarrow> 's \<Rightarrow> 's" where
  "NewOrderCollectionImpl X s0 = (
     let s1 = snd (EnsureIndex X ''orders'' [(''date'', - 1)] False s0);
         s2 = snd (EnsureIndex X ''orders'' [(''id'', - 1)] False s1);
         s3 = snd (EnsureIndex X ''orders_id_increment'' [(''date'', - 1)] True s2);
         s4 = snd (EnsureIndex X ''orders_id_increment'' [(''order_id'', - 1)] False s3)
     in snd (EnsureIndex X ''orders_id_increment'' [(''expired_at'', - 1)] False s4))"

subsection \<open>Requests for an id\<close>

text \<open>Where a request is: before it reads the clock, with its date, after a search without a result, and at the end.\<close>

datatype id_request = Waiting | Dated string | Missed string | Answered "goerror + string"

text \<open>
  A step is a call of one of the requests, or anything else that happens in the world as far as \<open>keeps\<close> allows it.
\<close>

inductive id_step :: "'w services \<Rightarrow> string \<Rightarrow> ('w \<Rightarrow> 'w \<Rightarrow> bool) \<Rightarrow> 'w \<times> id_request list \<Rightarrow> 'w \<times> id_request list \<Rightarrow> bool"
  for S :: "'w services" and prefix :: string and keeps :: "'w \<Rightarrow> 'w \<Rightarrow> bool" where
  read_clock: "i < length ps \<Longrightarrow> ps ! i = Waiting \<Longrightarrow> mg_date S w = (date, w') \<Longrightarrow>
    id_step S prefix keeps (w, ps) (w', ps[i := Dated date])"
| counted: "i < length ps \<Longrightarrow> ps ! i = Dated date \<Longrightarrow> mg_IncCounter S date w = (Inr (c, len), w') \<Longrightarrow>
    id_step S prefix keeps (w, ps) (w', ps[i := Answered (Inr (render_id (prefix @ date) c len))])"
| no_counter: "i < length ps \<Longrightarrow> ps ! i = Dated date \<Longrightarrow> mg_IncCounter S date w = (Inl ErrNoDocuments, w') \<Longrightarrow>
    id_step S prefix keeps (w, ps) (w', ps[i := Missed date])"
| not_counted: "i < length ps \<Longrightarrow> ps ! i = Dated date \<Longrightarrow> mg_IncCounter S date w = (Inl e, w') \<Longrightarrow> e \<noteq> ErrNoDocuments \<Longrightarrow>
    id_step S prefix keeps (w, ps) (w', ps[i := Answered (Inl e)])"
| inserted: "i < length ps \<Longrightarrow> ps ! i = Missed date \<Longrightarrow> mg_InsertCounter S date 1 LenID w = (None, w') \<Longrightarrow>
    id_step S prefix keeps (w, ps) (w', ps[i := Answered (Inr (render_id (prefix @ date) 1 LenID))])"
| not_inserted: "i < length ps \<Longrightarrow> ps ! i = Missed date \<Longrightarrow> mg_InsertCounter S date 1 LenID w = (Some e, w') \<Longrightarrow>
    id_step S prefix keeps (w, ps) (w', ps[i := Answered (Inl e)])"
| elsewhere: "keeps w w' \<Longrightarrow> id_step S prefix keeps (w, ps) (w', ps)"

text \<open>
  C12: \<open>incrementID\<close>, run alone, always returns, changes nothing but the world, and is one of the interleavings: it takes the steps of \<open>id_step\<close> to its answer.
\<close>

theorem incrementID_steps:
  "\<exists>r w. incrementID S prefix s = (Ret r, s\<lparr>world := w\<rparr>) \<and> (id_step S prefix keeps)\<^sup>*\<^sup>* (world s, [Waiting]) (w, [Answered r])"
proof -
  let ?step = "id_step S prefix keeps"
  obtain date w1 where d: "mg_date S (world s) = (date, w1)" by force
  have 1: "?step (world s, [Waiting]) (w1, [Dated date])"
    using read_clock [of 0 "[Waiting]" S "world s" date w1 prefix keeps] d by simp
  obtain c w2 where c: "mg_IncCounter S date w1 = (c, w2)" by force
  show ?thesis
  proof (cases c)
    case (Inr p)
    obtain n len where p: "p = (n, len)" by force
    with Inr c have "?step (w1, [Dated date]) (w2, [Answered (Inr (render_id (prefix @ date) n len))])"
      using counted [of 0 "[Dated date]" date S w1 n len w2 prefix keeps] by simp
    with 1 have "?step\<^sup>*\<^sup>* (world s, [Waiting]) (w2, [Answered (Inr (render_id (prefix @ date) n len))])" by simp
    with d c Inr p show ?thesis by (auto simp: incrementID_def bindc_def ask_def ret_def)
  next
    case (Inl e)
    show ?thesis
    proof (cases "e = ErrNoDocuments")
      case False
      with Inl c have "?step (w1, [Dated date]) (w2, [Answered (Inl e)])"
        using not_counted [of 0 "[Dated date]" date S w1 e w2 prefix keeps] by simp
      with 1 have "?step\<^sup>*\<^sup>* (world s, [Waiting]) (w2, [Answered (Inl e)])" by simp
      with d c Inl False show ?thesis by (auto simp: incrementID_def bindc_def ask_def ret_def)
    next
      case True
      with Inl c have 2: "?step (w1, [Dated date]) (w2, [Missed date])"
        using no_counter [of 0 "[Dated date]" date S w1 w2 prefix keeps] by simp
      obtain err w3 where i: "mg_InsertCounter S date 1 LenID w2 = (err, w3)" by force
      let ?r = "case err of None \<Rightarrow> Inr (render_id (prefix @ date) 1 LenID) | Some e \<Rightarrow> Inl e"
      have "?step (w2, [Missed date]) (w3, [Answered ?r])"
        using inserted [of 0 "[Missed date]" date S w2 w3 prefix keeps] not_inserted [of 0 "[Missed date]" date S w2 _ w3 prefix keeps] i
        by (cases err) simp_all
      with 1 2 have "?step\<^sup>*\<^sup>* (world s, [Waiting]) (w3, [Answered ?r])" by simp
      with d c Inl True i show ?thesis
        by (cases err) (auto simp: incrementID_def bindc_def ask_def ret_def)
    qed
  qed
qed

subsection \<open>What the database promises\<close>

text \<open>
  \<open>view\<close> reads the counters off the world.  The database finds and increments a counter at once, and keeps dates apart when
  it inserts one, which the unique index is for; a call that fails may have had its effect all the same.
\<close>

definition bumped :: "(string \<rightharpoonup> int64 \<times> int) \<Rightarrow> string \<Rightarrow> (string \<rightharpoonup> int64 \<times> int) \<Rightarrow> bool" where
  "bumped v d v' \<longleftrightarrow> (\<exists>c n. v d = Some (c, n) \<and> v' = v(d \<mapsto> (c + 1, n)))"

definition date_law :: "'w services \<Rightarrow> ('w \<Rightarrow> string \<rightharpoonup> int64 \<times> int) \<Rightarrow> bool" where
  "date_law S view \<longleftrightarrow> (\<forall>w. length (fst (mg_date S w)) = 8 \<and> view (snd (mg_date S w)) = view w)"

definition count_law :: "'w services \<Rightarrow> ('w \<Rightarrow> string \<rightharpoonup> int64 \<times> int) \<Rightarrow> bool" where
  "count_law S view \<longleftrightarrow> (\<forall>d w. case mg_IncCounter S d w of
      (Inr (c, n), w') \<Rightarrow> bumped (view w) d (view w') \<and> view w' d = Some (c, n)
    | (Inl e, w') \<Rightarrow> if e = ErrNoDocuments then view w d = None \<and> view w' = view w else view w' = view w \<or> bumped (view w) d (view w'))"

definition insert_law :: "'w services \<Rightarrow> ('w \<Rightarrow> string \<rightharpoonup> int64 \<times> int) \<Rightarrow> bool" where
  "insert_law S view \<longleftrightarrow> (\<forall>d c n w. case mg_InsertCounter S d c n w of
      (None, w') \<Rightarrow> view w d = None \<and> view w' = (view w)(d \<mapsto> (c, n))
    | (Some e, w') \<Rightarrow> view w' = view w \<or> view w d = None \<and> view w' = (view w)(d \<mapsto> (c, n)))"

definition counter_laws :: "'w services \<Rightarrow> ('w \<Rightarrow> string \<rightharpoonup> int64 \<times> int) \<Rightarrow> bool" where
  "counter_laws S view \<longleftrightarrow> date_law S view \<and> count_law S view \<and> insert_law S view"

lemma date_lawD: "counter_laws S view \<Longrightarrow> mg_date S w = (d, w') \<Longrightarrow> length d = 8 \<and> view w' = view w"
  unfolding counter_laws_def date_law_def by (metis fst_conv snd_conv)

lemma count_lawD:
  assumes "counter_laws S view" "mg_IncCounter S d w = (r, w')"
  shows "case r of Inr (c, n) \<Rightarrow> bumped (view w) d (view w') \<and> view w' d = Some (c, n)
    | Inl e \<Rightarrow> if e = ErrNoDocuments then view w d = None \<and> view w' = view w else view w' = view w \<or> bumped (view w) d (view w')"
proof -
  from assms(1) have "count_law S view" by (simp add: counter_laws_def)
  from this [unfolded count_law_def, THEN spec, of d, THEN spec, of w] assms(2) show ?thesis by simp
qed

lemma insert_lawD:
  assumes "counter_laws S view" "mg_InsertCounter S d c n w = (r, w')"
  shows "case r of None \<Rightarrow> view w d = None \<and> view w' = (view w)(d \<mapsto> (c, n))
    | Some e \<Rightarrow> view w' = view w \<or> view w d = None \<and> view w' = (view w)(d \<mapsto> (c, n))"
proof -
  from assms(1) have "insert_law S view" by (simp add: counter_laws_def)
  from this [unfolded insert_law_def, THEN spec, of d, THEN spec, of c, THEN spec, of n, THEN spec, of w] assms(2) show ?thesis by simp
qed

subsection \<open>Ids are not given twice\<close>

definition is_answered :: "id_request \<Rightarrow> bool" where
  "is_answered p = (case p of Answered _ \<Rightarrow> True | _ \<Rightarrow> False)"

definition counters_ok :: "int \<Rightarrow> id_request list \<Rightarrow> (string \<rightharpoonup> int64 \<times> int) \<Rightarrow> bool" where
  "counters_ok B ps v \<longleftrightarrow> (\<forall>d c n. v d = Some (c, n) \<longrightarrow>
     n = LenID \<and> 0 < sint c \<and> sint c \<le> B + int (length (filter is_answered ps)))"

definition issued :: "string \<Rightarrow> (string \<rightharpoonup> int64 \<times> int) \<Rightarrow> string \<Rightarrow> bool" where
  "issued prefix v s \<longleftrightarrow> (\<exists>d c c' n. s = render_id (prefix @ d) c LenID \<and> length d = 8 \<and> v d = Some (c', n) \<and> 0 < sint c \<and> sint c \<le> sint c')"

definition unique_ids :: "id_request list \<Rightarrow> bool" where
  "unique_ids ps \<longleftrightarrow> (\<forall>i j s. i < length ps \<and> j < length ps \<and> i \<noteq> j \<and> ps ! i = Answered (Inr s) \<longrightarrow> ps ! j \<noteq> Answered (Inr s))"

definition ids_inv :: "int \<Rightarrow> string \<Rightarrow> ('w \<Rightarrow> string \<rightharpoonup> int64 \<times> int) \<Rightarrow> 'w \<times> id_request list \<Rightarrow> bool" where
  "ids_inv B prefix view x = (case x of (w, ps) \<Rightarrow>
     counters_ok B ps (view w) \<and> (\<forall>d. Dated d \<in> set ps \<or> Missed d \<in> set ps \<longrightarrow> length d = 8) \<and>
     (\<forall>s. Answered (Inr s) \<in> set ps \<longrightarrow> issued prefix (view w) s) \<and> unique_ids ps)"

lemma render_id_inject:
  assumes "render_id (p @ d) c LenID = render_id (p @ d') c' LenID" "length d = length d'" "0 < sint c" "0 < sint c'"
  shows "d = d' \<and> c = c'"
proof -
  let ?pad = "\<lambda>c. pad_zeros (nat (LenID - int (length (sprint (sint c))))) (sprint (sint c))"
  from assms(1,2) have eq: "d = d'" "?pad c = ?pad c'" by (simp_all add: render_id_def Let_def)
  have "digits_value (?pad c) = nat (sint c)" if "0 < sint c" for c :: int64
    using that by (simp add: pad_zeros_eq digits_value_zeros sprint_def)
  from this [OF assms(3)] this [OF assms(4)] eq have "nat (sint c) = nat (sint c')" by simp
  with assms(3,4) have "sint c = sint c'" by simp
  with eq(1) show ?thesis by (simp add: signed_word_eqI)
qed

lemma filter_update:
  "i < length ps \<Longrightarrow> \<not> P (ps ! i) \<Longrightarrow> length (filter P (ps[i := x])) = length (filter P ps) + (if P x then 1 else 0)"
proof (induction ps arbitrary: i)
  case (Cons p ps)
  then show ?case by (cases i) auto
qed simp

lemma filter_not_all: "i < length ps \<Longrightarrow> \<not> P (ps ! i) \<Longrightarrow> length (filter P ps) < length ps"
  by (metis length_filter_less nth_mem)

text \<open>What a call may do to the counters, and the number it makes available.\<close>

definition counted_up :: "int \<Rightarrow> string \<Rightarrow> id_request list \<Rightarrow> nat \<Rightarrow> (string \<rightharpoonup> int64 \<times> int) \<Rightarrow> (string \<rightharpoonup> int64 \<times> int) \<Rightarrow> string \<Rightarrow> bool" where
  "counted_up B prefix ps i v v' d \<longleftrightarrow> (\<forall>r. counters_ok B (ps[i := Answered r]) v') \<and> (\<forall>s. issued prefix v s \<longrightarrow> issued prefix v' s) \<and>
     (\<forall>c n. v' d = Some (c, n) \<longrightarrow> n = LenID \<and> (length d = 8 \<longrightarrow>
        \<not> issued prefix v (render_id (prefix @ d) c LenID) \<and> issued prefix v' (render_id (prefix @ d) c LenID)))"

lemma counters_ok_mono: "counters_ok B ps v \<Longrightarrow> length (filter is_answered ps) \<le> length (filter is_answered qs) \<Longrightarrow> counters_ok B qs v"
  by (force simp: counters_ok_def)

lemma sint_Suc: "sint (c :: int64) < 2 ^ 63 - 1 \<Longrightarrow> sint (c + 1) = sint c + 1"
  using sint_ge [of c] by (simp add: sint_word_ariths signed_take_bit_int_eq_self)

lemma issued_grows:
  assumes "issued prefix v s" and "\<And>d c n. v d = Some (c, n) \<Longrightarrow> \<exists>c' n'. v' d = Some (c', n') \<and> sint c \<le> sint c'"
  shows "issued prefix v' s"
proof -
  from assms(1) obtain d c c' n where s: "s = render_id (prefix @ d) c LenID" "length d = 8" "v d = Some (c', n)" "0 < sint c" "sint c \<le> sint c'"
    unfolding issued_def by blast
  from assms(2) [OF s(3)] obtain c'' n' where "v' d = Some (c'', n')" "sint c' \<le> sint c''" by blast
  with s show ?thesis unfolding issued_def by (intro exI [of _ d] exI [of _ c] exI [of _ c''] exI [of _ n']) simp
qed

lemma not_issued:
  assumes "length d = 8" "0 < sint c" "\<And>c' n. v d = Some (c', n) \<Longrightarrow> sint c' < sint c"
  shows "\<not> issued prefix v (render_id (prefix @ d) c LenID)"
proof
  assume "issued prefix v (render_id (prefix @ d) c LenID)"
  then obtain d' c1 c' n where s: "render_id (prefix @ d) c LenID = render_id (prefix @ d') c1 LenID" "length d' = 8" "v d' = Some (c', n)"
      "0 < sint c1" "sint c1 \<le> sint c'"
    unfolding issued_def by blast
  from render_id_inject [OF s(1)] s(2,4) assms(1,2) have "d = d'" "c = c1" by simp_all
  with assms(3) [of c' n] s(3,5) show False by simp
qed

lemma newly_issued:
  "length d = 8 \<Longrightarrow> 0 < sint c \<Longrightarrow> v d = Some (c, n) \<Longrightarrow> issued prefix v (render_id (prefix @ d) c LenID)"
  unfolding issued_def by (intro exI [of _ d] exI [of _ c] exI [of _ n]) simp

lemma bumped_counts:
  assumes ok: "counters_ok B ps v" and b: "bumped v d v'" and i: "i < length ps" "\<not> is_answered (ps ! i)" and B: "B + int (length ps) < 2 ^ 63"
  shows "counted_up B prefix ps i v v' d"
proof -
  obtain c n where v: "v d = Some (c, n)" "v' = v(d \<mapsto> (c + 1, n))" using b by (auto simp: bumped_def)
  have c: "n = LenID" "0 < sint c" "sint c \<le> B + int (length (filter is_answered ps))"
    using ok v(1) unfolding counters_ok_def by blast+
  have more: "length (filter is_answered (ps[i := Answered r])) = Suc (length (filter is_answered ps))" for r
    using filter_update [of i ps is_answered "Answered r"] i by (simp add: is_answered_def)
  from filter_not_all [of i ps is_answered] i B c(3) have s: "sint (c + 1) = sint c + 1"
    by (intro sint_Suc) linarith
  have "counters_ok B (ps[i := Answered r]) v'" for r
    using ok c s unfolding counters_ok_def more v(2) by (force split: if_splits)
  moreover have "issued prefix v s \<Longrightarrow> issued prefix v' s" for s
    by (erule issued_grows) (use v s in auto)
  moreover have "\<not> issued prefix v (render_id (prefix @ d) (c + 1) LenID)" "issued prefix v' (render_id (prefix @ d) (c + 1) LenID)"
    if "length d = 8"
    by (rule not_issued newly_issued; use that v s c in simp)+
  ultimately show ?thesis using v c(1) by (auto simp: counted_up_def)
qed

lemma inserted_counts:
  assumes ok: "counters_ok B ps v" and v: "v d = None" "v' = v(d \<mapsto> (1, LenID))" and i: "i < length ps" "\<not> is_answered (ps ! i)" and B: "0 \<le> B"
  shows "counted_up B prefix ps i v v' d"
proof -
  have more: "length (filter is_answered (ps[i := Answered r])) = Suc (length (filter is_answered ps))" for r
    using filter_update [of i ps is_answered "Answered r"] i by (simp add: is_answered_def)
  have "counters_ok B (ps[i := Answered r]) v'" for r
    using ok B unfolding counters_ok_def more v(2) by (force split: if_splits)
  moreover have "issued prefix v s \<Longrightarrow> issued prefix v' s" for s
    by (erule issued_grows) (use v in auto)
  moreover have "\<not> issued prefix v (render_id (prefix @ d) 1 LenID)" "issued prefix v' (render_id (prefix @ d) 1 LenID)"
    if "length d = 8"
    by (rule not_issued newly_issued; use that v in simp)+
  ultimately show ?thesis using v by (auto simp: counted_up_def)
qed

lemma unique_ids_update:
  assumes "unique_ids ps" and "\<And>s. r = Inr s \<Longrightarrow> Answered (Inr s) \<notin> set ps" and "i < length ps"
  shows "unique_ids (ps[i := Answered r])"
proof -
  from assms(2) have new: "r = Inr s \<Longrightarrow> k < length ps \<Longrightarrow> ps ! k \<noteq> Answered (Inr s)" for s k
    by (metis nth_mem)
  from assms(1,3) show ?thesis unfolding unique_ids_def by (auto simp: nth_list_update new dest: new split: if_splits)
qed

text \<open>A request that ends: it got a new id, or none.\<close>

lemma answered_inv:
  assumes inv: "ids_inv B prefix view (w, ps)" and i: "i < length ps" "\<not> is_answered (ps ! i)"
    and ok: "counters_ok B (ps[i := Answered r]) (view w')" and keeps: "\<And>s. issued prefix (view w) s \<Longrightarrow> issued prefix (view w') s"
    and new: "\<And>s. r = Inr s \<Longrightarrow> \<not> issued prefix (view w) s \<and> issued prefix (view w') s"
  shows "ids_inv B prefix view (w', ps[i := Answered r])"
proof -
  have "unique_ids (ps[i := Answered r])"
    using inv new i by (intro unique_ids_update) (auto simp: ids_inv_def)
  with inv ok keeps new show ?thesis
    by (auto simp: ids_inv_def dest!: set_update_subset_insert [THEN subsetD])
qed

text \<open>A request that goes on without an answer.\<close>

lemma going_on_inv:
  assumes "ids_inv B prefix view (w, ps)" "view w' = view w" "i < length ps" "\<not> is_answered (ps ! i)" "\<not> is_answered p"
    and "\<And>d. p = Dated d \<or> p = Missed d \<Longrightarrow> length d = 8"
  shows "ids_inv B prefix view (w', ps[i := p])"
proof -
  have "Answered r \<in> set (ps[i := p]) \<Longrightarrow> Answered r \<in> set ps" for r
    using assms(5) by (auto simp: is_answered_def dest!: set_update_subset_insert [THEN subsetD])
  moreover have "unique_ids (ps[i := p])"
    using assms(1,3,5) by (auto simp: ids_inv_def unique_ids_def nth_list_update is_answered_def split: if_splits)
  moreover have "counters_ok B (ps[i := p]) (view w)"
    using assms(1) filter_update [of i ps is_answered p] assms(3,4,5) by (auto simp: ids_inv_def counters_ok_def)
  ultimately show ?thesis using assms(1,2,6)
    by (auto simp: ids_inv_def dest!: set_update_subset_insert [THEN subsetD])
qed

text \<open>The counters after a call, whatever it answers.\<close>

lemma counted_up_same:
  assumes "counters_ok B ps v" "i < length ps" "\<not> is_answered (ps ! i)"
  shows "counters_ok B (ps[i := Answered r]) v"
  using filter_update [of i ps is_answered "Answered r"] assms by (auto intro: counters_ok_mono)

lemma counted_up_inv:
  assumes "ids_inv B prefix view (w, ps)" "i < length ps" "\<not> is_answered (ps ! i)" "length d = 8"
    and up: "counted_up B prefix ps i (view w) (view w') d" and "\<And>s. r = Inr s \<Longrightarrow> \<exists>c. view w' d = Some (c, LenID) \<and> s = render_id (prefix @ d) c LenID"
  shows "ids_inv B prefix view (w', ps[i := Answered r])"
  using assms by (intro answered_inv [of B prefix view w]) (force simp: counted_up_def)+

lemma same_inv:
  assumes "ids_inv B prefix view (w, ps)" "i < length ps" "\<not> is_answered (ps ! i)" "view w' = view w"
  shows "ids_inv B prefix view (w', ps[i := Answered (Inl e)])"
  using assms by (intro answered_inv [of B prefix view w]) (auto simp: ids_inv_def intro: counted_up_same)

lemma id_step_inv:
  assumes laws: "counter_laws S view" and keeps: "\<And>w w'. keeps w w' \<Longrightarrow> view w' = view w" and B: "0 \<le> B"
    and "id_step S prefix keeps x y" "ids_inv B prefix view x" "B + int (length (snd x)) < 2 ^ 63"
  shows "ids_inv B prefix view y"
  using assms(4)
proof (cases rule: id_step.cases)
  case (read_clock i ps w date w')
  with date_lawD [OF laws read_clock(5)] assms(5) show ?thesis by (auto intro!: going_on_inv simp: is_answered_def)
next
  case (counted i ps date w c len w')
  from count_lawD [OF laws counted(5)] have b: "bumped (view w) date (view w')" "view w' date = Some (c, len)" by simp_all
  have inv: "counters_ok B ps (view w)" "length date = 8" using assms(5) counted by (auto simp: ids_inv_def dest: nth_mem)
  have up: "counted_up B prefix ps i (view w) (view w') date"
    by (rule bumped_counts [OF inv(1) b(1)]) (use assms(6) counted in \<open>simp_all add: is_answered_def\<close>)
  then have "len = LenID" using b(2) by (auto simp: counted_up_def)
  with counted up b inv assms(5) show ?thesis by (auto intro!: counted_up_inv simp: is_answered_def)
next
  case (no_counter i ps date w w')
  have "length date = 8" using assms(5) no_counter by (auto simp: ids_inv_def dest: nth_mem)
  with count_lawD [OF laws no_counter(5)] no_counter assms(5) show ?thesis by (auto intro!: going_on_inv simp: is_answered_def)
next
  case (not_counted i ps date w e w')
  have inv: "counters_ok B ps (view w)" "length date = 8" using assms(5) not_counted by (auto simp: ids_inv_def dest: nth_mem)
  have i: "\<not> is_answered (ps ! i)" using not_counted by (simp add: is_answered_def)
  from count_lawD [OF laws not_counted(5)] not_counted(6) consider "view w' = view w" | "bumped (view w) date (view w')" by auto
  then show ?thesis
  proof cases
    case 1
    with not_counted i assms(5) show ?thesis by (simp add: same_inv)
  next
    case 2
    have "counted_up B prefix ps i (view w) (view w') date"
      by (rule bumped_counts [OF inv(1) 2 _ i]) (use assms(6) not_counted in simp_all)
    with not_counted i inv assms(5) show ?thesis by (auto intro!: counted_up_inv)
  qed
next
  case (inserted i ps date w w')
  have inv: "counters_ok B ps (view w)" "length date = 8" using assms(5) inserted by (auto simp: ids_inv_def dest: nth_mem)
  have i: "\<not> is_answered (ps ! i)" using inserted by (simp add: is_answered_def)
  from insert_lawD [OF laws inserted(5)] have v: "view w date = None" "view w' = (view w)(date \<mapsto> (1, LenID))" by simp_all
  have "counted_up B prefix ps i (view w) (view w') date"
    by (rule inserted_counts [OF inv(1) v _ i B]) (use inserted in simp)
  with inserted i inv v assms(5) show ?thesis by (auto intro!: counted_up_inv)
next
  case (not_inserted i ps date w e w')
  have inv: "counters_ok B ps (view w)" "length date = 8" using assms(5) not_inserted by (auto simp: ids_inv_def dest: nth_mem)
  have i: "\<not> is_answered (ps ! i)" using not_inserted by (simp add: is_answered_def)
  from insert_lawD [OF laws not_inserted(5)] consider "view w' = view w" | "view w date = None" "view w' = (view w)(date \<mapsto> (1, LenID))" by auto
  then show ?thesis
  proof cases
    case 1
    with not_inserted i assms(5) show ?thesis by (simp add: same_inv)
  next
    case 2
    have "counted_up B prefix ps i (view w) (view w') date"
      by (rule inserted_counts [OF inv(1) 2 _ i B]) (use not_inserted in simp)
    with not_inserted i inv assms(5) show ?thesis by (auto intro!: counted_up_inv)
  qed
next
  case (elsewhere w w' ps)
  with keeps assms(5) show ?thesis by (simp add: ids_inv_def)
qed

lemma id_step_length: "id_step S prefix keeps x y \<Longrightarrow> length (snd y) = length (snd x)"
  by (induction rule: id_step.induct) simp_all

lemma id_steps_inv:
  assumes laws: "counter_laws S view" and keeps: "\<And>w w'. keeps w w' \<Longrightarrow> view w' = view w" and B: "0 \<le> B"
    and "(id_step S prefix keeps)\<^sup>*\<^sup>* x y" "ids_inv B prefix view x" "B + int (length (snd x)) < 2 ^ 63"
  shows "ids_inv B prefix view y \<and> length (snd y) = length (snd x)"
  using assms(4)
proof (induction rule: rtranclp_induct)
  case (step y z)
  with id_step_inv [OF laws keeps B step(2)] id_step_length [OF step(2)] assms(6) show ?case by simp
qed (use assms(5) in simp)

text \<open>
  C11: however the requests for an order id interleave at the database, whichever calls fail and whatever else happens in between, two requests never get the
  same id; provided that the database counts up atomically and has one counter per date, as the unique index ensures (\<open>counter_laws\<close>), that
  the counters on file are at most \<open>2 ^ 62\<close>, and that there are fewer requests than that.
\<close>

theorem order_ids_unique:
  assumes "counter_laws S view" and "\<And>w w'. keeps w w' \<Longrightarrow> view w' = view w"
    and "\<And>d c n. view w d = Some (c, n) \<Longrightarrow> n = LenID \<and> 0 < sint c \<and> sint c \<le> 2 ^ 62" and "n < 2 ^ 62"
    and "(id_step S prefix keeps)\<^sup>*\<^sup>* (w, replicate n Waiting) (w', ps)"
    and "i < n" "j < n" "i \<noteq> j" "ps ! i = Answered (Inr s)"
  shows "ps ! j \<noteq> Answered (Inr s)"
proof -
  have start: "ids_inv (2 ^ 62) prefix view (w, replicate n Waiting)"
    using assms(3) by (auto simp: ids_inv_def counters_ok_def unique_ids_def intro: add_increasing2)
  from assms(4) have "int n < int (2 ^ 62)" by (simp only: of_nat_less_iff)
  then have "2 ^ 62 + int (length (snd (w, replicate n Waiting))) < 2 ^ 63" by simp
  from id_steps_inv [OF assms(1,2) _ assms(5) start this] have "unique_ids ps" "length ps = n" by (simp_all add: ids_inv_def)
  with assms(6-9) show ?thesis unfolding unique_ids_def by blast
qed

text \<open>The world is the counter of one day.\<close>

definition counting_services :: "nat services" where
  "counting_services = example_services\<lparr>
     mg_IncCounter := (\<lambda>d w. if d = ''20210301'' \<and> 0 < w then (Inr (of_nat (Suc w), LenID), Suc w) else (Inl ErrNoDocuments, w)),
     mg_InsertCounter := (\<lambda>d c n w. if d = ''20210301'' \<and> c = 1 \<and> n = LenID \<and> w = 0 then (None, 1) else (Some ErrGeneral, w))\<rparr>"

definition day_counter :: "nat \<Rightarrow> string \<rightharpoonup> int64 \<times> int" where
  "day_counter w = (\<lambda>d. if d = ''20210301'' \<and> 0 < w then Some (of_nat w, LenID) else None)"

lemma counting_laws: "counter_laws counting_services day_counter"
proof -
  have "date_law counting_services day_counter"
    by (simp add: date_law_def counting_services_def example_services_def)
  moreover have "count_law counting_services day_counter"
    unfolding count_law_def by (auto simp: counting_services_def bumped_def day_counter_def fun_eq_iff)
  moreover have "insert_law counting_services day_counter"
    unfolding insert_law_def by (auto simp: counting_services_def day_counter_def fun_eq_iff)
  ultimately show ?thesis by (simp add: counter_laws_def)
qed

abbreviation no_change :: "nat \<Rightarrow> nat \<Rightarrow> bool" where
  "no_change w w' \<equiv> w' = w"

abbreviation counting_step :: "nat \<times> id_request list \<Rightarrow> nat \<times> id_request list \<Rightarrow> bool" where
  "counting_step \<equiv> id_step counting_services ''POS'' no_change"

lemma counting_run:
  "counting_step\<^sup>*\<^sup>* (0, [Waiting, Waiting])
     (2, [Answered (Inr (render_id ''POS20210301'' 1 LenID)), Answered (Inr (render_id ''POS20210301'' 2 LenID))])"
proof -
  let ?d = "''20210301''" and ?a = "Answered (Inr (render_id ''POS20210301'' 1 LenID))"
  have "counting_step (0, [Waiting, Waiting]) (0, [Dated ?d, Waiting])"
    using read_clock [of 0 "[Waiting, Waiting]" counting_services 0 ?d 0] by (simp add: counting_services_def example_services_def)
  moreover have "counting_step (0, [Dated ?d, Waiting]) (0, [Missed ?d, Waiting])"
    using no_counter [of 0 "[Dated ?d, Waiting]" ?d counting_services 0 0] by (simp add: counting_services_def)
  moreover have "counting_step (0, [Missed ?d, Waiting]) (0, [Missed ?d, Dated ?d])"
    using read_clock [of 1 "[Missed ?d, Waiting]" counting_services 0 ?d 0] by (simp add: counting_services_def example_services_def)
  moreover have "counting_step (0, [Missed ?d, Dated ?d]) (1, [?a, Dated ?d])"
    using inserted [of 0 "[Missed ?d, Dated ?d]" ?d counting_services 0 1 "''POS''"] by (simp add: counting_services_def)
  moreover have "counting_step (1, [?a, Dated ?d]) (2, [?a, Answered (Inr (render_id ''POS20210301'' 2 LenID))])"
    using counted [of 1 "[?a, Dated ?d]" ?d counting_services 1 2 LenID 2 "''POS''"] by (simp add: counting_services_def numeral_2_eq_2)
  ultimately show ?thesis by (meson converse_rtranclp_into_rtranclp rtranclp.rtrancl_refl)
qed

theorem order_ids_unique_witness:
  "\<exists>w ps s. counting_step\<^sup>*\<^sup>* (0, [Waiting, Waiting]) (w, ps) \<and> ps ! 0 = Answered (Inr s) \<and> ps ! 1 \<noteq> Answered (Inr s)"
proof -
  let ?s = "render_id ''POS20210301'' 1 LenID"
  let ?ps = "[Answered (Inr ?s), Answered (Inr (render_id ''POS20210301'' 2 LenID))]"
  have start: "\<And>d c n. day_counter 0 d = Some (c, n) \<Longrightarrow> n = LenID \<and> 0 < sint c \<and> sint c \<le> 2 ^ 62"
    by (simp add: day_counter_def)
  have two: "replicate 2 Waiting = [Waiting, Waiting]" by (simp add: numeral_2_eq_2)
  have "?ps ! 1 \<noteq> Answered (Inr ?s)"
    by (rule order_ids_unique [where S = counting_services and view = day_counter and keeps = no_change and w = 0 and n = 2
        and prefix = "''POS''" and w' = 2 and ps = ?ps and i = 0 and j = 1, OF counting_laws _ start]) (use counting_run two in simp_all)
  with counting_run show ?thesis by (intro exI [of _ 2] exI [of _ ?ps] exI [of _ ?s]) simp
qed

text \<open>Without the unique index the database inserts a second counter of a day, and two requests get the same id.\<close>

definition unindexed_services :: "nat services" where
  "unindexed_services = counting_services\<lparr>mg_InsertCounter := (\<lambda>d c n w. (None, Suc w))\<rparr>"

theorem unindexed_ids_repeat:
  "(id_step unindexed_services ''POS'' no_change)\<^sup>*\<^sup>* (0, [Waiting, Waiting])
     (2, [Answered (Inr (render_id ''POS20210301'' 1 LenID)), Answered (Inr (render_id ''POS20210301'' 1 LenID))])"
proof -
  let ?d = "''20210301''" and ?a = "Answered (Inr (render_id ''POS20210301'' 1 LenID))" and ?S = unindexed_services
  let ?step = "id_step ?S ''POS'' no_change"
  have "?step (0, [Waiting, Waiting]) (0, [Dated ?d, Waiting])"
    using read_clock [of 0 "[Waiting, Waiting]" ?S 0 ?d 0] by (simp add: unindexed_services_def counting_services_def example_services_def)
  moreover have "?step (0, [Dated ?d, Waiting]) (0, [Missed ?d, Waiting])"
    using no_counter [of 0 "[Dated ?d, Waiting]" ?d ?S 0 0] by (simp add: unindexed_services_def counting_services_def)
  moreover have "?step (0, [Missed ?d, Waiting]) (0, [Missed ?d, Dated ?d])"
    using read_clock [of 1 "[Missed ?d, Waiting]" ?S 0 ?d 0] by (simp add: unindexed_services_def counting_services_def example_services_def)
  moreover have "?step (0, [Missed ?d, Dated ?d]) (0, [Missed ?d, Missed ?d])"
    using no_counter [of 1 "[Missed ?d, Dated ?d]" ?d ?S 0 0] by (simp add: unindexed_services_def counting_services_def)
  moreover have "?step (0, [Missed ?d, Missed ?d]) (1, [?a, Missed ?d])"
    using inserted [of 0 "[Missed ?d, Missed ?d]" ?d ?S 0 1 "''POS''"] by (simp add: unindexed_services_def)
  moreover have "?step (1, [?a, Missed ?d]) (2, [?a, ?a])"
    using inserted [of 1 "[?a, Missed ?d]" ?d ?S 1 2 "''POS''"] by (simp add: unindexed_services_def)
  ultimately show ?thesis by (meson converse_rtranclp_into_rtranclp rtranclp.rtrancl_refl)
qed

subsection \<open>Two requests for one order\<close>

text \<open>
  Neither reading an order nor taking it up guards against a second request: when two requests for a pending order both read it before one
  of them takes it up, both may go on to pay.  The example has the order on file until somebody replaces it, and a clock that advances.
\<close>

definition pending_order :: OrderEntity where
  "pending_order = OrderEntity_zero\<lparr>oe_OrderID := ''POS1'', oe_Status := ORDER_PENDING, oe_Amount := 5000, oe_ExpiredAt := 1000\<rparr>"

definition busy_services :: "nat services" where
  "busy_services = example_services\<lparr>
     sv_now := (\<lambda>w. (int w, Suc w)),
     mg_FindOrder := (\<lambda>f w. (if f = ByOrderID ''POS1'' then Inr pending_order else Inl ErrNoDocuments, w)),
     mg_ReplaceOrder := (\<lambda>f d w. (Inr (case f of ByOrderIDUnexpired i now \<Rightarrow> if i = ''POS1'' \<and> now \<le> 1000 then 1 else 0 | _ \<Rightarrow> 0), w))\<rparr>"

text \<open>The calls of two requests, in the order in which they reach the database.\<close>

definition two_takers :: "'w services \<Rightarrow> string \<Rightarrow> ('w st, goerror option \<times> goerror option) comp" where
  "two_takers S i =
     bindc (GetValidOrder S i) (\<lambda>first. bindc (GetValidOrder S i) (\<lambda>second. case (first, second) of
       (Inr d1, Inr d2) \<Rightarrow>
         bindc (ProcessingOrder S d1) (\<lambda>(_, _, err1). bindc (ProcessingOrder S d2) (\<lambda>(_, _, err2). ret (err1, err2)))
     | (Inl e, _) \<Rightarrow> ret (Some e, None)
     | (_, Inl e) \<Rightarrow> ret (None, Some e)))"

theorem order_taken_twice: "fst (two_takers busy_services ''POS1'' example_state) = Ret (None, None)"
  by (simp add: two_takers_def GetValidOrder_def FindByOrderID_def ProcessingOrder_def ProcessingOrderByID_def GetCurrentTime_def Let_def
      busy_services_def pending_order_def example_state_def status_defs bindc_def ask_def act_def ret_def OrderEntity_zero_def)

end
