(* ===== verification/Calendar.thy ===== *)
theory Calendar
  imports Prelude
begin

text \<open>
  The hours and weeks of \<open>utils/helpers/helpers.go\<close> (\<open>CurrentHour\<close>, \<open>PrevHour\<close>, \<open>NextHour\<close>, \<open>FirstDayOfISOWeek\<close>,
  \<open>EndDayOfISOWeek\<close>), with what they use of Go's \<open>time\<close>: the civil calendar and ISO weeks.  A time is
  the number of hours since January 1, 1970, 00:00, on the clock of Vietnam, which is always seven hours ahead of UTC;
  the functions round to hours.  Their loops may not end: \<open>None\<close>.
\<close>

subsection \<open>The calendar of the standard library\<close>

definition leap :: "int \<Rightarrow> bool" where
  "leap y \<longleftrightarrow> 4 dvd y \<and> (\<not> 100 dvd y \<or> 400 dvd y)"

text \<open>The day number of January 1.\<close>

definition jan1 :: "int \<Rightarrow> int" where
  "jan1 y = 365 * (y - 1970) + (y - 1969) div 4 - (y - 1901) div 100 + (y - 1601) div 400"

definition months :: "int \<Rightarrow> int list" where
  "months y = [31, if leap y then 29 else 28, 31, 30, 31, 30, 31, 31, 30, 31, 30, 31]"

definition year_of :: "int \<Rightarrow> int" where
  "year_of n = (let y = 1970 + (400 * n) div 146097 in if n < jan1 y then y - 1 else if jan1 (y + 1) \<le> n then y + 1 else y)"

fun month_day :: "int list \<Rightarrow> int \<Rightarrow> int \<Rightarrow> int \<times> int" where
  "month_day [] r m = (m, r + 1)"
| "month_day (l # ls) r m = (if r < l then (m, r + 1) else month_day ls (r - l) (m + 1))"

definition civil :: "int \<Rightarrow> int \<times> int \<times> int" where
  "civil n = (year_of n, month_day (months (year_of n)) (n - jan1 (year_of n)) 1)"

text \<open>\<open>time.Date\<close>, which normalizes days that the month does not have.\<close>

definition Date :: "int \<Rightarrow> int \<Rightarrow> int \<Rightarrow> int" where
  "Date y m d = jan1 y + sum_list (take (nat (m - 1)) (months y)) + d - 1"

text \<open>Sunday is 0.\<close>

definition weekday :: "int \<Rightarrow> int" where
  "weekday n = (n + 4) mod 7"

text \<open>The year and the week that the Thursday of the week is in.\<close>

definition thursday :: "int \<Rightarrow> int" where
  "thursday n = n + 3 - (n + 3) mod 7"

definition ISOWeek :: "int \<Rightarrow> int \<times> int" where
  "ISOWeek n = (let y = year_of (thursday n) in (y, (thursday n - jan1 y) div 7 + 1))"

lemma year_of_bounds: "jan1 (year_of n) \<le> n \<and> n < jan1 (year_of n + 1)"
proof -
  define y where "y = 1970 + (400 * n) div 146097"
  have div: "k * (a div k) \<le> a \<and> a < k * (a div k) + k" if "0 < k" for a k :: int
    using that mult_div_mod_eq [of k a] pos_mod_bound [of k a] pos_mod_sign [of k a] by linarith
  have y: "146097 * (y - 1970) \<le> 400 * n" "400 * n < 146097 * (y - 1970) + 146097"
    using div [of 146097 "400 * n"] by (simp_all add: y_def)
  have "jan1 (y - 1) \<le> n" "n < jan1 (2 + y)"
    using y div [of 4 "y - 1 - 1969", simplified] div [of 100 "y - 1 - 1901", simplified] div [of 400 "y - 1 - 1601", simplified]
      div [of 4 "y + 2 - 1969", simplified] div [of 100 "y + 2 - 1901", simplified] div [of 400 "y + 2 - 1601", simplified]
    unfolding jan1_def by simp_all
  then show ?thesis unfolding year_of_def y_def [symmetric] Let_def by auto
qed

lemma month_day_sum: "month_day ls r m = (m', d) \<Longrightarrow> m \<le> m' \<and> sum_list (take (nat (m' - m)) ls) + d - 1 = r"
proof (induction ls r m rule: month_day.induct)
  case (2 l ls r m)
  show ?case
  proof (cases "r < l")
    case False
    with 2 have *: "m + 1 \<le> m'" "sum_list (take (nat (m' - (m + 1))) ls) + d - 1 = r - l" by simp_all
    then have "nat (m' - m) = Suc (nat (m' - (m + 1)))" by simp
    with * show ?thesis by simp
  qed (use 2 in simp)
qed simp

lemma Date_civil: "civil n = (y, m, d) \<Longrightarrow> Date y m d = n"
  using month_day_sum [of "months y" "n - jan1 y" 1 m d] by (auto simp: civil_def Date_def)

subsection \<open>The functions\<close>

text \<open>A loop that moves on by \<open>k\<close> hours as long as \<open>c\<close> holds.\<close>

partial_function (option) move_while :: "(int \<Rightarrow> bool) \<Rightarrow> int \<Rightarrow> int \<Rightarrow> int option" where
  "move_while c k t = (if c t then move_while c k (t + k) else Some t)"

definition day :: "int \<Rightarrow> int" where
  "day t = t div 24"

definition hour :: "int \<Rightarrow> int" where
  "hour t = t mod 24"

text \<open>
  \<open>now\<close> is the current hour, \<open>server\<close> the current day number on the clock of the server, which \<open>time.Now()\<close> gives.  The start is
  that day in the year of the current ISO week.
\<close>

definition start_of :: "int \<Rightarrow> int \<Rightarrow> int" where
  "start_of now server = (case civil server of (_, m, d) \<Rightarrow> 24 * Date (fst (ISOWeek (day now))) m d)"

definition to_week :: "int \<Rightarrow> int \<Rightarrow> int \<Rightarrow> int option" where
  "to_week now k t =
     Option.bind (move_while (\<lambda>t. fst (ISOWeek (day t)) < fst (ISOWeek (day now))) k t)
       (move_while (\<lambda>t. snd (ISOWeek (day t)) < snd (ISOWeek (day now))) k)"

definition CurrentHour :: "int \<Rightarrow> int \<Rightarrow> int option" where
  "CurrentHour now server =
     Option.bind (move_while (\<lambda>t. snd (snd (civil (day t))) < snd (snd (civil server))) 24 (start_of now server)) (\<lambda>t.
     Option.bind (to_week now 24 t)
       (move_while (\<lambda>t. hour t \<noteq> hour now) 1))"

definition PrevHour :: "int \<Rightarrow> int \<Rightarrow> int option" where
  "PrevHour now server =
     Option.bind (to_week now (7 * 24) (start_of now server)) (move_while (\<lambda>t. hour t \<noteq> hour now - 1) 1)"

definition NextHour :: "int \<Rightarrow> int \<Rightarrow> int option" where
  "NextHour now server = (
     let next_hour = (if hour now = 23 then 0 else hour now + 1) in
     Option.bind (to_week now (7 * 24) (start_of now server)) (move_while (\<lambda>t. hour t \<noteq> next_hour) 1))"

definition FirstDayOfISOWeek :: "int \<Rightarrow> int \<Rightarrow> int option" where
  "FirstDayOfISOWeek now server =
     Option.bind (move_while (\<lambda>t. weekday (day t) \<noteq> 1) (- 24) (start_of now server)) (to_week now (7 * 24))"

definition EndDayOfISOWeek :: "int \<Rightarrow> int \<Rightarrow> int option" where
  "EndDayOfISOWeek now server =
     Option.bind (move_while (\<lambda>t. weekday (day t) \<noteq> 0) 24 (start_of now server)) (to_week now (7 * 24))"

subsection \<open>Loops\<close>

lemma move_while_stop: "\<not> c t \<Longrightarrow> move_while c k t = Some t"
  by (simp add: move_while.simps)

text \<open>A loop ends after \<open>n\<close> rounds when its condition first fails then.\<close>

lemma move_while_rounds: "(\<And>i. i < n \<Longrightarrow> c (t + int i * k)) \<Longrightarrow> \<not> c (t + int n * k) \<Longrightarrow> move_while c k t = Some (t + int n * k)"
proof (induction n arbitrary: t)
  case (Suc n)
  have "c t" using Suc.prems(1) [of 0] by simp
  moreover have "move_while c k (t + k) = Some (t + k + int n * k)"
    using Suc.prems(1) [of "Suc _"] Suc.prems(2) by (intro Suc.IH) (simp_all add: algebra_simps)
  ultimately show ?case by (simp add: move_while.simps [of c k t] algebra_simps)
qed (simp add: move_while_stop)

text \<open>A loop whose condition never fails does not end.\<close>

lemma move_while_result: "move_while c k t = Some u \<Longrightarrow> \<not> c u"
  by (rule move_while.raw_induct [where P = "\<lambda>c k t u. \<not> c u"]) (auto split: if_splits)

lemma move_while_never: "(\<And>t. c t) \<Longrightarrow> move_while c k t = None"
  using move_while_result [of c k t] by (cases "move_while c k t") auto

lemma hours_up: "0 \<le> h \<Longrightarrow> h < 24 \<Longrightarrow> move_while (\<lambda>t. hour t \<noteq> h) 1 (24 * d) = Some (24 * d + h)"
  using move_while_rounds [of "nat h" "\<lambda>t. hour t \<noteq> h" "24 * d" 1] by (simp add: hour_def)

lemma day_24 [simp]: "day (24 * d) = d"
  by (simp add: day_def)

lemma move_days:
  assumes "\<And>i. i < n \<Longrightarrow> P (d + int i * s)" and "\<not> P (d + int n * s)"
  shows "move_while (\<lambda>t. P (day t)) (24 * s) (24 * d) = Some (24 * (d + int n * s))"
proof -
  have hours: "24 * d + int i * (24 * s) = 24 * (d + int i * s)" for i by (simp add: algebra_simps)
  show ?thesis
    using move_while_rounds [of n "\<lambda>t. P (day t)" "24 * d" "24 * s", unfolded hours day_24] assms by simp
qed

definition monday :: "int \<Rightarrow> int" where
  "monday n = n - (n + 3) mod 7"

lemma to_monday: "move_while (\<lambda>t. weekday (day t) \<noteq> 1) (- 24) (24 * d) = Some (24 * monday d)"
proof -
  have "weekday (d - int i) \<noteq> 1" if "int i < (d + 3) mod 7" for i
    using that unfolding weekday_def by presburger
  moreover have "weekday (d - (d + 3) mod 7) = 1" unfolding weekday_def by presburger
  ultimately show ?thesis
    using move_days [of "nat ((d + 3) mod 7)" "\<lambda>d. weekday d \<noteq> 1" d "- 1"] by (simp add: monday_def)
qed

lemma to_sunday: "move_while (\<lambda>t. weekday (day t) \<noteq> 0) 24 (24 * d) = Some (24 * (monday d + 6))"
proof -
  have "weekday (d + int i) \<noteq> 0" if "int i < 6 - (d + 3) mod 7" for i
    using that unfolding weekday_def by presburger
  moreover have "weekday (d + (6 - (d + 3) mod 7)) = 0" "0 \<le> 6 - (d + 3) mod 7" unfolding weekday_def by presburger+
  ultimately show ?thesis
    using move_days [of "nat (6 - (d + 3) mod 7)" "\<lambda>d. weekday d \<noteq> 0" d 1] by (simp add: monday_def algebra_simps)
qed

text \<open>Monday and Sunday are in the week of a day.\<close>

lemma week_of_monday: "ISOWeek (monday n) = ISOWeek n" "ISOWeek (monday n + 6) = ISOWeek n"
proof -
  have "thursday (monday n) = thursday n" "thursday (monday n + 6) = thursday n"
    unfolding thursday_def monday_def by presburger+
  then show "ISOWeek (monday n) = ISOWeek n" "ISOWeek (monday n + 6) = ISOWeek n" by (simp_all add: ISOWeek_def)
qed

lemma to_week_stop: "ISOWeek d = ISOWeek (day now) \<Longrightarrow> to_week now k (24 * d) = Some (24 * d)"
  by (simp add: to_week_def move_while_stop)

subsection \<open>When the functions are right\<close>

text \<open>The server is in the same day as Vietnam, and the day in the year of its ISO week, as almost all days are.\<close>

definition regular :: "int \<Rightarrow> int \<Rightarrow> bool" where
  "regular now server \<longleftrightarrow> server = day now \<and> fst (ISOWeek (day now)) = year_of (day now)"

lemma start_regular: "regular now server \<Longrightarrow> start_of now server = 24 * day now"
  using Date_civil [of "day now"] by (auto simp: regular_def start_of_def civil_def split: prod.splits)

lemma hour_range: "0 \<le> hour t" "hour t < 24" "24 * day t + hour t = t"
  by (simp_all add: hour_def day_def)

text \<open>
  On a regular day \<open>CurrentHour\<close> returns the current hour, \<open>PrevHour\<close> the hour before it, except between midnight and one o'clock, when it never
  returns, and \<open>NextHour\<close> the hour after it, except in the last hour of the day, when it returns the first hour of the same day.
\<close>

theorem hours_found:
  assumes "regular now server"
  shows "CurrentHour now server = Some now \<and> PrevHour now server = (if hour now = 0 then None else Some (now - 1)) \<and>
     NextHour now server = Some (if hour now = 23 then now - 23 else now + 1)"
proof (intro conjI)
  have start: "start_of now (day now) = 24 * day now" "server = day now"
    using assms start_regular [of now "day now"] by (auto simp: regular_def)
  have week: "to_week now k (24 * day now) = Some (24 * day now)" for k
    by (rule to_week_stop) simp
  show "CurrentHour now server = Some now"
    using hours_up [of "hour now" "day now"] hour_range [of now] by (simp add: CurrentHour_def start week move_while_stop)
  have "move_while (\<lambda>t. hour t \<noteq> - 1) 1 t = None" for t
    using hour_range(1) by (intro move_while_never) (metis neg_0_le_iff_le not_one_le_zero)
  then show "PrevHour now server = (if hour now = 0 then None else Some (now - 1))"
    using hours_up [of "hour now - 1" "day now"] hour_range [of now] by (auto simp: PrevHour_def start week)
  show "NextHour now server = Some (if hour now = 23 then now - 23 else now + 1)"
    using hours_up [of "hour now + 1" "day now"] hours_up [of 0 "day now"] hour_range [of now] by (auto simp: NextHour_def start week)
qed

text \<open>On a regular day the first and the last day of the week are Monday and Sunday of the current week, at midnight.\<close>

theorem week_found:
  assumes "regular now server"
  shows "FirstDayOfISOWeek now server = Some (24 * monday (day now)) \<and> EndDayOfISOWeek now server = Some (24 * (monday (day now) + 6))"
  using assms by (simp add: FirstDayOfISOWeek_def EndDayOfISOWeek_def start_regular to_monday to_sunday to_week_stop week_of_monday del: distrib_left_numeral)

text \<open>
  On December 30, 2019, a Monday of the first week of 2020, the first day of the week is December 28, 2020.
\<close>

theorem week_a_year_late: "FirstDayOfISOWeek (24 * 18260 + 10) 18260 = Some (24 * 18624) \<and> civil 18260 = (2019, 12, 30) \<and> civil 18624 = (2020, 12, 28)"
proof -
  have now: "ISOWeek 18260 = (2020, 1)" "ISOWeek 18624 = (2020, 53)"
    by (simp_all add: ISOWeek_def thursday_def year_of_def jan1_def Let_def)
  have days: "civil 18260 = (2019, 12, 30)" "civil 18624 = (2020, 12, 28)"
    by (simp_all add: civil_def year_of_def jan1_def months_def leap_def Let_def)
  have start: "start_of (24 * 18260 + 10) 18260 = 24 * 18626"
    by (simp add: start_of_def days now day_def Date_def jan1_def months_def leap_def eval_nat_numeral)
  have "monday 18626 = 18624" "day (24 * 18260 + 10) = 18260" by (simp_all add: monday_def day_def)
  then have "to_week (24 * 18260 + 10) k (24 * monday 18626) = Some (24 * 18624)" for k
    unfolding to_week_def by (subst move_while_stop) (simp_all only: day_24 now bind.bind_lunit fst_conv snd_conv, simp_all add: move_while_stop day_24 [of 18624, simplified] now)
  then show ?thesis unfolding FirstDayOfISOWeek_def start to_monday bind.bind_lunit using days by simp
qed

end
