(* ===== verification/Spec2Isabelle.thy ===== *)
theory Spec2Isabelle
  imports Services Terms TopUp BuyCard PayBill Transfers StaticQR CashOut ConfirmOrder
    Cancellation Napas Lixi Refund VA_Consumer Credit_Card Presenter Saga_V2
    Fraud_Client Message_Queue Jobs Gen_Ids Order_Ids Calendar
begin

text \<open>
  The order service of the payments platform, a Go program: a request for a payment becomes an
  order, and the order is executed as a saga over the transaction service, the promotion service, a card provider or
  a bank.

  \<^bold>\<open>The program.\<close>  The handlers of \<open>presenters/grpc.go\<close> call the methods of
  \<open>OrderApplication\<close> (\<open>application/\<close>).  An orchestrator, such as \<open>TopUp\<close>, builds a saga of
  named steps, each with a compensation, and plays it with the coordinator of \<open>utils/saga\<close>.  The steps share
  the variables that their closures capture and call the order service (\<open>service_order.go\<close>, over the collection of
  \<open>database_mgo/order\<close>), the transaction service (\<open>service_transaction.go\<close>), the
  promotion service and the bank gateway (\<open>bank_gw.go\<close>).  Results that arrive later come over gRPC or as messages of RabbitMQ
  (\<open>order_consumer.go\<close>); two jobs run on a timer, and notifications are handed to a pool of workers.

  \<^bold>\<open>How it is modelled.\<close>  A Go function is a computation \<open>'s \<Rightarrow> 'a outcome \<times> 's\<close>: it threads a state and returns a
  value or panics (a nil dereference, an index out of range, a failed check of the saga library); an error is
  an ordinary value of type \<open>goerror option\<close>.  The state \<open>'w st\<close> of a
  request holds the world, the trace of the calls that change something outside, the log of the sagas and the captured
  variables.  Everything that is not in the repository (the database server, the services behind
  gRPC, the HTTP client, JSON, the clock, the random source) is a field of \<open>'w services\<close>, a function
  over an arbitrary world, about which nothing is assumed unless a theorem says so.  64-bit integers are
  words.  Texts in Vietnamese are written without their marks.  Publishing and background jobs are in the trace but are not \<open>key\<close> events: the properties of requests are about the
  calls that move money or write orders; \<open>Jobs\<close> shows that the jobs make no such call.

  \<^bold>\<open>Theories: the base.\<close>
  \<^item> \<open>Prelude\<close>: computations and their weakest preconditions (\<open>wp_rules\<close>), errors, decimal
    rendering and strings.  \<open>Strconv\<close>, \<open>Format\<close>: parsing integers and formatting a text as its own format, from Go's standard library.
  \<^item> \<open>Constants\<close>, \<open>Entities\<close>, \<open>Bank_Types\<close>: the constants and structs of \<open>domain/\<close> and the messages of \<open>proto/\<close>
    that the model uses.
  \<^item> \<open>Saga\<close>: \<open>utils/saga\<close>, function by function.  \<open>Saga_Spec\<close>: what a saga promises, without a log, the
    contract \<open>saga_log_store\<close> of a log store, and its interpretation on \<open>memory.go\<close>.  \<open>Saga_Run\<close>: how an orchestrator plays
    its steps, and the locale \<open>saga_invariant\<close> that lifts an invariant of the steps to the run.  \<open>Any_Execution\<close>: runs under an execution id that has been used.
  \<^item> \<open>World\<close>: the environment, the trace and the state of a request.  \<open>Effects\<close>: calculi for what a
    computation adds to the trace (\<open>does\<close>, \<open>atmost\<close>, \<open>ordered\<close>).
  \<^item> \<open>Bank_Gateway\<close>, \<open>Order_Service\<close>, \<open>Transaction_Service\<close>, \<open>Wallet_Config\<close>: the functions that the steps call.
  \<^item> \<open>Steps\<close>: the statements that the step closures of the orchestrators repeat, and their compensations;
    \<open>Step_Effects\<close>, \<open>Cooperation\<close>, \<open>Runs\<close>: what they do to the trace, when they succeed, and how a
    run ends that does not.  \<open>Examples\<close>: concrete environments.

  \<^bold>\<open>Theories: the orchestrators.\<close>  A definition per step closure and the list of steps in the order of the \<open>AddStep\<close> calls.
  \<^item> \<open>TopUp\<close>, \<open>BuyCard\<close>, \<open>PayBill\<close>, \<open>Transfers\<close> (\<open>IBFTransfer\<close>, \<open>FundWal2Bank\<close>,
    \<open>FundWal2Wal\<close>), \<open>StaticQR\<close>, \<open>CashOut\<close>, \<open>ConfirmOrder\<close>: payments out of the wallet.
  \<^item> \<open>CashIn\<close>, \<open>VerifyOTP\<close>, \<open>Napas\<close>: deposits, and linking a bank.  \<open>Merchant\<close>, \<open>Lixi\<close>: payments inside the wallet, with the
    contract \<open>wallet_payment\<close> of their sagas; the campaigns of lucky money.
  \<^item> \<open>Token_Payment\<close>, \<open>With_Token\<close>: payments by a linked card, with the contract \<open>token_payment\<close>.  \<open>Credit_Card\<close>: payments by an international card.
  \<^item> \<open>Refund\<close>, \<open>Cancellation\<close>: refunds; cancelling an order, and the job that fails expired orders.
  \<^item> \<open>Virtual_Account\<close>: virtual accounts at two banks, with the contract \<open>va_provider\<close> of the interface that hides which one.
    \<open>VA_Consumer\<close>, \<open>Bank_Status\<close>: the consumers of messages.

  \<^bold>\<open>Theories: around the requests.\<close>
  \<^item> \<open>Handlers\<close>, \<open>Presenter\<close>: the simple handlers of the application, and the gRPC server with its interceptors.
  \<^item> \<open>Http_Client\<close>, \<open>Fraud_Client\<close>: the shared HTTP helper, and the client of the fraud service put into the place of its field in \<open>'w services\<close>.
  \<^item> \<open>Message_Queue\<close>: \<open>infrastructure/rabbitmq\<close> over a broker that is a parameter.  \<open>Jobs\<close>: what the pool runs, from the jobs that the trace
    has noted (notifications, Telegram), and the two jobs on a timer.
  \<^item> \<open>Order_Ids\<close>: the requests for an order id and their interleavings at the database (\<open>id_step\<close>), and the indexes.
  \<^item> \<open>Saga_V2\<close>, \<open>Gen_Ids\<close>, \<open>Calendar\<close>: libraries of the repository that the application does not use: the message-driven
    saga, the id generator and the calendar helpers.
  \<^item> \<open>Services\<close>: properties of the saga library, of orders and of payments.  \<open>Terms\<close>: an invariant of whole sagas.

  \<^bold>\<open>What is shown.\<close>
  \<^item> The coordinator refines the saga without a log (\<open>Play_refines_saga\<close>).  The message-driven saga, as a relation in which messages get lost and
    timers fire, ends whatever is lost; without faults it computes what a sequential program does, under every schedule, and as long as no compensation fails it
    leaves the state that the first library leaves, with the error of the first one rendered as the second library does.
  \<^item> For every orchestrator, a run that returns without an error has made exactly the expected calls, with the data of the request, in order
    (\<open>X_completes\<close>).  What the environment has answered is tied to what it was asked: an order that is taken up is one that the collection holds under
    the id of the request and that could be paid (\<open>payable_order\<close>), a linked card is the one that the bank names for the link of the request (\<open>link_told\<close>), the
    bank of a card number is the one that the bank gives for its first six digits (\<open>bin_told\<close>), and an outcome is the answer about that order (\<open>order_reply\<close>).
    Where there is a theorem \<open>X_disciplined\<close>, any run opens and confirms a payment, and asks its provider or bank, at most once, and confirms only after
    the provider or bank has accepted; cancelling and updating are not bounded.  A provider or bank that has not decided is not answered by
    cancelling unless the transaction service has answered an update with another status than it was sent (\<open>X_stays_pending\<close>, \<open>X_stays_verifying\<close>).  A top-up that fails leaves a settled order, and in a cooperative
    environment it succeeds.  The orders written keep amount, user and type, also when an execution id is reused.
    The properties of failing runs hold under \<open>fresh_execution\<close> or \<open>fresh_saga\<close>: the execution id that the saga draws is not in the log yet.
  \<^item> A card number that the fraud service refuses is never charged, whether it is in the request or what the bank names for its link; with the client of the fraud
    service, a card that is not cleared is neither linked with its security code nor paid with by a link.  A cancelled order, and every order of a batch of the expiry
    job, is handled as its transaction and the answer of the bank say (\<open>order_cancelled\<close>, \<open>expired_events\<close>).  A payment is only opened for a payer and a payee who are
    verified users with a linked bank, or whose profiles cannot be looked up (\<open>vetted\<close>).  A wrong one-time password changes nothing.  A campaign of lucky money books no more than its budget, when the database returns it within its budget.  A merchant changes no virtual account of another.
  \<^item> The gRPC handlers check what they promise to check before anything happens, and every error and panic is answered with a status.
  \<^item> Order ids are unique under any interleaving of requests and any failures, given what the unique index gives; without it they are not.
    Messages are acknowledged in order, errors included.  The jobs on the pool come to an end and move no money.
  \<^item> Where the code deviates from what it means to do, a theorem often shows it on an example (\<open>order_taken_twice\<close>, \<open>unindexed_ids_repeat\<close>,
    \<open>balance_changes_dropped\<close>, \<open>GetValidOrder_cancelled\<close>, \<open>week_a_year_late\<close>).

  \<^bold>\<open>Bounds.\<close>  Almost all loops of the model are recursions over lists or counters, without fuel.  \<open>Sprintf\<close> has a measure; the loops of
  \<open>Calendar\<close> are partial functions, with \<open>None\<close> for a loop that does not end, and the message-driven saga is a relation.  The loop of a timer is
  modelled by its first \<open>n\<close> rounds, for any \<open>n\<close>.

  \<^bold>\<open>Not modelled.\<close>  Connections, start-up, logging, tracing and configuration (\<open>Application.go\<close>, \<open>cmd/api/main.go\<close> but for the interceptors
  and the jobs, \<open>utils/configs\<close>, \<open>utils/logger\<close>, \<open>infrastructure/mqtt\<close>, \<open>infrastructure/kafka\<close>) are pure I/O.  The code generated from \<open>proto/\<close>
  is left out, but for the messages that the model uses, and so are the generated mocks.  The repository of linked banks is not
  used by any code.  Time stamps and durations in the saga log are left out.  A request, a message and a job are run alone, except in
  \<open>Order_Ids\<close>, and in the two checks of a linked card, which run in either order; the limit on the workers of the pool is not modelled.
  A panic ends the request; that one in a goroutine (\<open>card_checks\<close>) ends the whole process is not told apart.
\<close>

end
